(* ===== verification/Ordered.thy ===== *)
theory Ordered
  imports Prelude
begin

text \<open>
  \<open>BTreeMap\<close> and \<open>BTreeSet\<close>: a map is its list of entries in increasing key order, which is
  the order the code iterates in; a set is its increasing list of elements. The locale
  \<open>keyed_table\<close> is the interface the components use to index a list of records by key and
  reject duplicates (\<open>thread_map\<close> of sync.rs and of staging.rs, the reference index of
  \<open>compose_staged_thread_refs\<close>, \<open>validate_thread_refs_v4\<close>); it is interpreted on
  the map model below.
\<close>

type_synonym ('k, 'v) btree_map = "('k \<times> 'v) list"

definition bt_ok :: "('k::linorder, 'v) btree_map \<Rightarrow> bool" where
  "bt_ok m \<longleftrightarrow> sorted_wrt (<) (map fst m)"

definition bt_get :: "('k, 'v) btree_map \<Rightarrow> 'k \<Rightarrow> 'v option" where
  "bt_get m k = map_of m k"

fun bt_insert :: "'k::linorder \<Rightarrow> 'v \<Rightarrow> ('k, 'v) btree_map \<Rightarrow> ('k, 'v) btree_map" where
  "bt_insert k v [] = [(k, v)]"
| "bt_insert k v (e # m) =
     (if k = fst e then (k, v) # m
      else if k < fst e then (k, v) # e # m
      else e # bt_insert k v m)"

definition bt_remove :: "'k \<Rightarrow> ('k, 'v) btree_map \<Rightarrow> ('k, 'v) btree_map" where
  "bt_remove k m = filter (\<lambda>e. fst e \<noteq> k) m"

definition bt_contains :: "('k, 'v) btree_map \<Rightarrow> 'k \<Rightarrow> bool" where
  "bt_contains m k \<longleftrightarrow> bt_get m k \<noteq> None"

definition bt_keys :: "('k, 'v) btree_map \<Rightarrow> 'k list" where
  "bt_keys m = map fst m"

definition bt_values :: "('k, 'v) btree_map \<Rightarrow> 'v list" where
  "bt_values m = map snd m"

definition bt_of_list :: "('k::linorder \<times> 'v) list \<Rightarrow> ('k, 'v) btree_map" where
  "bt_of_list xs = foldl (\<lambda>m e. bt_insert (fst e) (snd e) m) [] xs"

definition btree_set :: "'a::linorder list \<Rightarrow> 'a list" where
  "btree_set xs = sort (remdups xs)"

lemma bt_ok_Nil [simp]: "bt_ok []"
  by (simp add: bt_ok_def)

lemma bt_get_Nil [simp]: "bt_get [] k = None"
  by (simp add: bt_get_def)

lemma set_bt_insert_keys: "fst ` set (bt_insert k v m) = insert k (fst ` set m)"
  by (induction m) auto

lemma bt_ok_insert [simp]: "bt_ok m \<Longrightarrow> bt_ok (bt_insert k v m)"
  unfolding bt_ok_def
proof (induction m)
  case (Cons e m)
  have keys: "set (map fst (bt_insert k v m)) = insert k (set (map fst m))"
    using set_bt_insert_keys[of k v m] by simp
  from Cons keys show ?case by (auto simp: image_iff dest: order.strict_trans)
qed simp

lemma bt_get_insert: "bt_get (bt_insert k v m) j = (if j = k then Some v else bt_get m j)"
  by (induction m) (auto simp: bt_get_def)

lemma bt_ok_remove [simp]: "bt_ok m \<Longrightarrow> bt_ok (bt_remove k m)"
  unfolding bt_ok_def bt_remove_def by (induction m) auto

lemma bt_get_remove: "bt_get (bt_remove k m) j = (if j = k then None else bt_get m j)"
  by (induction m) (auto simp: bt_get_def bt_remove_def)

lemma bt_get_keys: "bt_get m k \<noteq> None \<longleftrightarrow> k \<in> set (bt_keys m)"
  by (auto simp: bt_get_def bt_keys_def map_of_eq_None_iff)

lemma bt_get_None_keys: "bt_get m k = None \<longleftrightarrow> k \<notin> set (bt_keys m)"
  by (metis bt_get_keys)

lemma bt_ok_distinct: "bt_ok m \<Longrightarrow> distinct (bt_keys m)"
  by (simp add: bt_ok_def bt_keys_def strict_sorted_iff)

lemma bt_ok_sorted: "bt_ok m \<Longrightarrow> sorted (bt_keys m)"
  by (simp add: bt_ok_def bt_keys_def strict_sorted_iff)

lemma bt_get_in_set: "bt_ok m \<Longrightarrow> bt_get m k = Some v \<longleftrightarrow> (k, v) \<in> set m"
  using bt_ok_distinct[of m] by (auto simp: bt_get_def bt_keys_def dest: map_of_SomeD)

lemma bt_values_in: "bt_ok m \<Longrightarrow> v \<in> set (bt_values m) \<longleftrightarrow> (\<exists>k. bt_get m k = Some v)"
  by (force simp: bt_get_in_set bt_values_def image_iff)

lemma bt_ext:
  assumes "bt_ok m" "bt_ok n" and "\<And>k. bt_get m k = bt_get n k"
  shows "m = n"
proof -
  have ok: "sorted (map fst m)" "distinct (map fst m)" "sorted (map fst n)" "distinct (map fst n)"
    using assms(1,2) by (simp_all add: bt_ok_def strict_sorted_iff)
  moreover have "set m = set n"
    using assms by (metis bt_get_in_set subrelI subset_antisym)
  ultimately show ?thesis by (intro map_sorted_distinct_set_unique[of fst])
      (auto simp: inj_on_def dest: eq_key_imp_eq_value)
qed

lemma btree_set_set [simp]: "set (btree_set xs) = set xs"
  by (simp add: btree_set_def)

lemma btree_set_distinct [simp]: "distinct (btree_set xs)"
  by (simp add: btree_set_def)

lemma btree_set_sorted [simp]: "sorted (btree_set xs)"
  by (simp add: btree_set_def)

lemma btree_set_ext: "set xs = set ys \<Longrightarrow> btree_set xs = btree_set ys"
  by (metis btree_set_distinct btree_set_set btree_set_sorted sorted_distinct_set_unique)

lemma btree_set_strict: "sorted_wrt (<) (btree_set xs)"
  by (simp add: strict_sorted_iff)

text \<open>Entries listed in strictly increasing key order are already the map they build.\<close>

lemma bt_insert_last:
  "(\<And>k'. k' \<in> fst ` set m \<Longrightarrow> k' < k) \<Longrightarrow> bt_insert k v m = m @ [(k, v)]"
proof (induction m)
  case (Cons e m)
  from Cons.prems[of "fst e"] have "fst e < k" by simp
  then have "k \<noteq> fst e" "\<not> k < fst e" by auto
  moreover have "bt_insert k v m = m @ [(k, v)]" using Cons by simp
  ultimately show ?case by simp
qed simp

lemma foldl_insert_get:
  "bt_get (foldl (\<lambda>m e. bt_insert (fst e) (snd e) m) m xs) k =
     (case map_of (rev xs) k of Some v \<Rightarrow> Some v | None \<Rightarrow> bt_get m k)"
  by (induction xs arbitrary: m) (auto simp: bt_get_insert map_add_def split: option.splits)

lemma bt_of_list_get: "bt_get (bt_of_list xs) k = map_of (rev xs) k"
  unfolding bt_of_list_def foldl_insert_get by (simp split: option.splits)

section \<open>The table interface\<close>

text \<open>
  The loop \<open>for x in xs { check x; if map.insert(key x, val x).is_some() { bail } }\<close>:
  \<open>chk\<close> is the per-record check that runs before the insertion and \<open>dup\<close> the error raised
  for a repeated key.
\<close>

definition index_with ::
  "('k \<Rightarrow> 'v \<Rightarrow> 'm \<Rightarrow> 'm) \<Rightarrow> ('m \<Rightarrow> 'k \<Rightarrow> 'v option) \<Rightarrow>
   ('a \<Rightarrow> 'e + unit) \<Rightarrow> ('a \<Rightarrow> 'k) \<Rightarrow> ('a \<Rightarrow> 'v) \<Rightarrow> ('a \<Rightarrow> 'e) \<Rightarrow> 'a list \<Rightarrow> 'm \<Rightarrow> 'e + 'm" where
  "index_with put get chk key val dup =
     foldr_res (\<lambda>x m. bindr (chk x) (\<lambda>_.
       if get m (key x) \<noteq> None then Inl (dup x) else Inr (put (key x) (val x) m)))"

locale keyed_table =
  fixes empty :: "'m"
    and put :: "'k \<Rightarrow> 'v \<Rightarrow> 'm \<Rightarrow> 'm"
    and get :: "'m \<Rightarrow> 'k \<Rightarrow> 'v option"
    and ok :: "'m \<Rightarrow> bool"
  assumes ok_empty: "ok empty"
    and get_empty: "get empty k = None"
    and ok_put: "ok m \<Longrightarrow> ok (put k v m)"
    and get_put: "ok m \<Longrightarrow> get (put k v m) j = (if j = k then Some v else get m j)"
begin

abbreviation index_from :: "('a \<Rightarrow> 'e + unit) \<Rightarrow> ('a \<Rightarrow> 'k) \<Rightarrow> ('a \<Rightarrow> 'v) \<Rightarrow> ('a \<Rightarrow> 'e) \<Rightarrow> 'a list \<Rightarrow> 'm \<Rightarrow> 'e + 'm" where
  "index_from \<equiv> index_with put get"

lemma index_from_ok: "ok m \<Longrightarrow> index_from chk key val dup xs m = Inr m' \<Longrightarrow> ok m'"
  unfolding index_with_def
  by (erule foldr_res_invariant) (auto simp: bindr_eq_Inr_iff ok_put split: if_splits)

lemma index_from_get:
  "ok m \<Longrightarrow> index_from chk key val dup xs m = Inr m' \<Longrightarrow>
     get m' k = (case map_of (map (\<lambda>x. (key x, val x)) xs) k of Some v \<Rightarrow> Some v | None \<Rightarrow> get m k)
     \<and> distinct (map key xs) \<and> (\<forall>x \<in> set xs. get m (key x) = None) \<and> (\<forall>x \<in> set xs. is_ok (chk x))"
proof (induction xs arbitrary: m)
  case Nil
  then show ?case by (simp add: index_with_def)
next
  case (Cons x xs)
  from Cons.prems(2) have chk: "is_ok (chk x)" and fresh: "get m (key x) = None"
    and rest: "index_from chk key val dup xs (put (key x) (val x) m) = Inr m'"
    by (auto simp: index_with_def bindr_eq_Inr_iff split: if_splits)
  note IH = Cons.IH[OF ok_put[OF Cons.prems(1)] rest]
  from IH have new: "\<forall>y \<in> set xs. key y \<noteq> key x \<and> get m (key y) = None"
    using Cons.prems(1) by (auto simp: get_put split: if_splits)
  then have "key x \<notin> set (map key xs)" by auto
  then have "map_of (map (\<lambda>x. (key x, val x)) xs) (key x) = None"
    by (simp add: map_of_eq_None_iff image_iff)
  with IH new chk fresh Cons.prems(1) show ?case
    by (auto simp: get_put split: option.splits)
qed

lemma index_from_succeeds:
  "ok m \<Longrightarrow> distinct (map key xs) \<Longrightarrow> (\<forall>x \<in> set xs. get m (key x) = None \<and> is_ok (chk x)) \<Longrightarrow>
     \<exists>m'. index_from chk key val dup xs m = Inr m'"
proof (induction xs arbitrary: m)
  case Nil
  then show ?case by (simp add: index_with_def)
next
  case (Cons x xs)
  from Cons.prems(3) obtain u where u: "chk x = Inr u" by (auto simp: is_ok_iff)
  have "\<exists>m'. index_from chk key val dup xs (put (key x) (val x) m) = Inr m'"
  proof (rule Cons.IH)
    show "\<forall>y \<in> set xs. get (put (key x) (val x) m) (key y) = None \<and> is_ok (chk y)"
      using Cons.prems by (auto simp: get_put) (metis image_eqI)
  qed (use Cons.prems in \<open>simp_all add: ok_put\<close>)
  with u Cons.prems show ?case by (simp add: index_with_def)
qed

lemma index_from_is_ok_iff:
  assumes "ok m"
  shows "is_ok (index_from chk key val dup xs m) \<longleftrightarrow>
    distinct (map key xs) \<and> (\<forall>x \<in> set xs. get m (key x) = None \<and> is_ok (chk x))"
  using index_from_get[OF assms] index_from_succeeds[OF assms] by (auto simp: is_ok_iff) blast+

end

interpretation bt: keyed_table "[]" "bt_insert :: 'k::linorder \<Rightarrow> 'v \<Rightarrow> ('k, 'v) btree_map \<Rightarrow> ('k, 'v) btree_map" bt_get bt_ok
  by unfold_locales (auto simp: bt_get_insert)

end
