(* ===== verification/Json.thy ===== *)
theory Json
  imports Ordered
begin

text \<open>
  \<open>serde_json::Value\<close> and the canonical writer that every content address is computed from
  (\<open>write_canonical_json\<close> of protocol.rs, \<open>write_canonical_json_v4\<close> of storage\_v4.rs).
  A JSON object is serde\_json's \<open>Map\<close>, a \<open>BTreeMap\<close> in this build. What serde\_json does
  itself (number and string literals, the parser) is the parameter record \<open>json_lib\<close>.
\<close>

type_synonym i64 = "64 word"

datatype json_number = PosInt u64 | NegInt i64 | Float u64

datatype json =
    JNull
  | JBool bool
  | JNumber json_number
  | JString string
  | JArray "json list"
  | JObject "(string \<times> json) list"

record json_lib =
  number_text :: "json_number \<Rightarrow> string"
  string_text :: "string \<Rightarrow> string"
  parse_value :: "bytes \<Rightarrow> json option"

section \<open>Accessors\<close>

definition as_i64 :: "json \<Rightarrow> i64 option" where
  "as_i64 v = (case v of
      JNumber (PosInt u) \<Rightarrow> (if unat u < 2 ^ 63 then Some u else None)
    | JNumber (NegInt i) \<Rightarrow> Some i
    | _ \<Rightarrow> None)"

definition checked_mul_i64 :: "i64 \<Rightarrow> int \<Rightarrow> i64 option" where
  "checked_mul_i64 a k =
     (let p = sint a * k in if - (2 ^ 63) \<le> p \<and> p < 2 ^ 63 then Some (word_of_int p) else None)"

fun as_str :: "json \<Rightarrow> string option" where
  "as_str (JString s) = Some s"
| "as_str _ = None"

fun as_object :: "json \<Rightarrow> (string \<times> json) list option" where
  "as_object (JObject m) = Some m"
| "as_object _ = None"

lemma as_str_Some: "as_str v = Some x \<longleftrightarrow> v = JString x"
  by (cases v) auto

lemma as_object_Some: "as_object v = Some m \<longleftrightarrow> v = JObject m"
  by (cases v) auto

fun json_get :: "json \<Rightarrow> string \<Rightarrow> json option" where
  "json_get (JObject m) k = bt_get m k"
| "json_get _ _ = None"

definition get_str :: "(string \<times> json) list \<Rightarrow> string \<Rightarrow> string option" where
  "get_str m k = Option.bind (bt_get m k) as_str"

definition get_i64 :: "(string \<times> json) list \<Rightarrow> string \<Rightarrow> i64 option" where
  "get_i64 m k = Option.bind (bt_get m k) as_i64"

text \<open>The invariant of parsed values: every object is a \<open>BTreeMap\<close>.\<close>

fun json_ok :: "json \<Rightarrow> bool" where
  "json_ok (JArray vs) = list_all json_ok vs"
| "json_ok (JObject m) = (bt_ok m \<and> list_all (\<lambda>e. json_ok (snd e)) m)"
| "json_ok _ = True"

section \<open>Canonical text\<close>

definition comma_join :: "string list \<Rightarrow> string" where
  "comma_join xs = concat (map (\<lambda>(i, x). (if i > 0 then '','' else []) @ x) (enumerate 0 xs))"

fun write_canonical_json_v4 :: "json_lib \<Rightarrow> json \<Rightarrow> string" where
  "write_canonical_json_v4 J JNull = ''null''"
| "write_canonical_json_v4 J (JBool v) = (if v then ''true'' else ''false'')"
| "write_canonical_json_v4 J (JNumber v) = number_text J v"
| "write_canonical_json_v4 J (JString v) = string_text J v"
| "write_canonical_json_v4 J (JArray values) =
     ''['' @ comma_join (map (write_canonical_json_v4 J) values) @ '']''"
| "write_canonical_json_v4 J (JObject values) =
     ''{'' @ comma_join (map (\<lambda>(k, text). string_text J k @ '':'' @ text)
        (sort_key fst (map (\<lambda>(k, v). (k, write_canonical_json_v4 J v)) values))) @ ''}''"

text \<open>
  The writer of protocol.rs, which hashes v1 revision payloads: the same recursion, written
  over the sorted key list with a lookup of each key.
\<close>

fun write_canonical_json :: "json_lib \<Rightarrow> json \<Rightarrow> string" where
  "write_canonical_json J JNull = ''null''"
| "write_canonical_json J (JBool v) = (if v then ''true'' else ''false'')"
| "write_canonical_json J (JNumber v) = number_text J v"
| "write_canonical_json J (JString v) = string_text J v"
| "write_canonical_json J (JArray values) =
     ''['' @ comma_join (map (write_canonical_json J) values) @ '']''"
| "write_canonical_json J (JObject values) =
     (let texts = map (\<lambda>(k, v). (k, write_canonical_json J v)) values
      in ''{'' @ comma_join (map (\<lambda>k. string_text J k @ '':'' @ the (map_of texts k))
           (sort (map fst texts))) @ ''}'')"

lemma sort_key_fst_lookup:
  assumes "distinct (map fst m)"
  shows "map (\<lambda>(k, t). f k t) (sort_key fst m) = map (\<lambda>k. f k (the (map_of m k))) (sort (map fst m))"
proof -
  have keys: "map fst (sort_key fst m) = sort (map fst m)"
    by (rule properties_for_sort [symmetric]) simp_all
  have "map (\<lambda>(k, t). f k t) (sort_key fst m)
      = map ((\<lambda>k. f k (the (map_of m k))) \<circ> fst) (sort_key fst m)"
    using assms by (intro map_cong) auto
  then show ?thesis by (simp only: keys flip: map_map)
qed

lemma canonical_writers_agree: "json_ok v \<Longrightarrow> write_canonical_json J v = write_canonical_json_v4 J v"
proof (induction J v rule: write_canonical_json_v4.induct)
  case (5 J vs)
  then have "map (write_canonical_json J) vs = map (write_canonical_json_v4 J) vs"
    by (auto simp: list_all_iff)
  then show ?case by (simp only: write_canonical_json.simps write_canonical_json_v4.simps)
next
  case (6 J m)
  let ?t = "\<lambda>(k, v). (k, write_canonical_json_v4 J v)"
  have eq: "map (\<lambda>(k, v). (k, write_canonical_json J v)) m = map ?t m"
  proof (rule map_cong [OF refl])
    fix e assume e: "e \<in> set m"
    with "6.prems" have "json_ok (snd e)" by (simp add: list_all_iff)
    with "6.IH"[OF e] show "(\<lambda>(k, v). (k, write_canonical_json J v)) e = ?t e"
      by (cases e) simp
  qed
  have "distinct (map fst (map ?t m))"
    using "6.prems" by (simp add: case_prod_unfold comp_def bt_ok_def strict_sorted_iff)
  then show ?case
    unfolding write_canonical_json.simps write_canonical_json_v4.simps eq Let_def
    by (simp only: sort_key_fst_lookup)
qed simp_all

text \<open>Member order of an object does not reach its canonical text.\<close>

lemma sort_key_unique:
  assumes "mset xs = mset ys" "distinct (map fst xs)"
  shows "sort_key fst xs = sort_key fst ys"
proof (rule map_sorted_distinct_set_unique[of fst])
  have "set xs = set ys" using assms(1) by (metis mset_eq_setD)
  then show "set (sort_key fst xs) = set (sort_key fst ys)" by simp
  have "distinct (map fst ys)" using assms
    by (metis mset_eq_imp_distinct_iff mset_map)
  with assms(2) show "distinct (map fst (sort_key fst xs))" "distinct (map fst (sort_key fst ys))"
    by (metis mset_eq_imp_distinct_iff mset_map mset_sort)+
  show "inj_on fst (set (sort_key fst xs) \<union> set (sort_key fst ys))"
    using \<open>set xs = set ys\<close> assms(2) by (simp add: distinct_map)
qed simp_all

lemma canonical_member_order:
  assumes "mset xs = mset ys" "distinct (map fst xs)"
  shows "write_canonical_json_v4 J (JObject xs) = write_canonical_json_v4 J (JObject ys)"
proof -
  let ?t = "\<lambda>(k, v). (k, write_canonical_json_v4 J v)"
  have "sort_key fst (map ?t xs) = sort_key fst (map ?t ys)"
    using assms by (intro sort_key_unique) (simp_all add: case_prod_unfold comp_def)
  then show ?thesis by (simp only: write_canonical_json_v4.simps)
qed

lemma canonical_object_shape:
  "\<exists>s. write_canonical_json_v4 J (JObject m) = ''{'' @ s @ ''}''"
  by (simp only: write_canonical_json_v4.simps) blast

section \<open>Machine fields of related records\<close>

definition machine_key_v4 :: "string \<Rightarrow> bool" where
  "machine_key_v4 k \<longleftrightarrow> k = ''model_provider'' \<or> k = ''rollout_path'' \<or> k = ''codex_home''"

fun project_value_v4 :: "json \<Rightarrow> json" where
  "project_value_v4 (JObject m) =
     JObject (map (\<lambda>(k, v). (k, project_value_v4 v)) (filter (\<lambda>(k, v). \<not> machine_key_v4 k) m))"
| "project_value_v4 (JArray vs) = JArray (map project_value_v4 vs)"
| "project_value_v4 v = v"

fun mentions_machine_key :: "json \<Rightarrow> bool" where
  "mentions_machine_key (JObject m) =
     list_ex (\<lambda>e. machine_key_v4 (fst e) \<or> mentions_machine_key (snd e)) m"
| "mentions_machine_key (JArray vs) = list_ex mentions_machine_key vs"
| "mentions_machine_key _ = False"

lemma project_value_clean: "\<not> mentions_machine_key (project_value_v4 v)"
  by (induction v rule: project_value_v4.induct) (fastforce simp: list_ex_iff)+

lemma project_value_clean_id: "\<not> mentions_machine_key v \<Longrightarrow> project_value_v4 v = v"
proof (induction v rule: project_value_v4.induct)
  case (1 m)
  then have "filter (\<lambda>(k, v). \<not> machine_key_v4 k) m = m"
    by (auto simp: list_ex_iff filter_id_conv)
  with 1 show ?case by (fastforce simp: list_ex_iff intro: map_idI)
qed (auto simp: list_ex_iff intro: map_idI)

lemma json_ok_project: "json_ok v \<Longrightarrow> json_ok (project_value_v4 v)"
proof (induction v rule: project_value_v4.induct)
  case (1 m)
  have "sorted_wrt (<) (map fst m) \<Longrightarrow>
      sorted_wrt (<) (map fst (filter (\<lambda>(k, v). \<not> machine_key_v4 k) m))"
    by (induction m) auto
  with "1.prems" have "sorted_wrt (<) (map fst (filter (\<lambda>(k, v). \<not> machine_key_v4 k) m))"
    by (simp add: bt_ok_def)
  with 1 show ?case by (fastforce simp: bt_ok_def list_all_iff comp_def case_prod_unfold)
qed (auto simp: list_all_iff)

end
