(* ===== verification/Objects.thy ===== *)
theory Objects
  imports Json "HOL-Library.Product_Lexorder"
begin

text \<open>
  The immutable v4 objects of crates/sync-core/src/storage\_v4.rs: kinds and their limits,
  content identifiers, object paths, chunk manifests, thread references and the two roots,
  each with its \<open>validate\<close>. SHA-256 is the parameter \<open>H\<close>: the lowercase hex digest of a
  byte string. Error values are the messages of the source.
\<close>

unbundle bit_operations_syntax

type_synonym path = "string list"
type_synonym uuid = "128 word"

definition STORAGE_PROTOCOL_VERSION_V4 :: u32 where "STORAGE_PROTOCOL_VERSION_V4 = 4"
definition NORMALIZATION_SCHEMA_VERSION_V4 :: u32 where "NORMALIZATION_SCHEMA_VERSION_V4 = 1"
definition PROVIDER_TOKEN_V4 :: string where
  "PROVIDER_TOKEN_V4 = ''__codex_session_sync_local_provider_v4__''"
definition WORKSPACE_TOKEN_V4 :: string where
  "WORKSPACE_TOKEN_V4 = ''__codex_session_sync_local_workspace_v4__''"
definition CHUNK_SIZE_V4 :: u32 where "CHUNK_SIZE_V4 = 4194304"
definition MAX_METADATA_LINE_BYTES_V4 :: nat where "MAX_METADATA_LINE_BYTES_V4 = 16777216"
definition MAX_LOGICAL_CONTENT_BYTES_V4 :: u64 where "MAX_LOGICAL_CONTENT_BYTES_V4 = 68719476736"
definition MAX_CHUNKS_PER_CONTENT_V4 :: nat where "MAX_CHUNKS_PER_CONTENT_V4 = 16384"

section \<open>Content identifiers\<close>

definition is_lower_hex :: "char \<Rightarrow> bool" where
  "is_lower_hex c \<longleftrightarrow> is_ascii_digit c \<or> (CHR ''a'' \<le> c \<and> c \<le> CHR ''f'')"

definition validate_sha256_v4 :: "string \<Rightarrow> string + unit" where
  "validate_sha256_v4 value =
     (case strip_prefix ''sha256:'' value of
        None \<Rightarrow> Inl ''invalid SHA-256 identifier''
      | Some digest \<Rightarrow>
          ensure (length digest = 64 \<and> list_all is_lower_hex digest) ''invalid SHA-256 identifier'')"

definition digest_bytes_v4 :: "(bytes \<Rightarrow> string) \<Rightarrow> bytes \<Rightarrow> string" where
  "digest_bytes_v4 H bs = ''sha256:'' @ H bs"

text \<open>What the code relies on of the hash: 64 lowercase hex digits (sha2 and hex::encode).\<close>

definition hex_digest :: "(bytes \<Rightarrow> string) \<Rightarrow> bool" where
  "hex_digest H \<longleftrightarrow> (\<forall>bs. length (H bs) = 64 \<and> list_all is_lower_hex (H bs))"

definition valid_id :: "string \<Rightarrow> bool" where
  "valid_id s \<longleftrightarrow> is_ok (validate_sha256_v4 s)"

lemma valid_id_iff:
  "valid_id s \<longleftrightarrow> (\<exists>d. s = ''sha256:'' @ d \<and> length d = 64 \<and> list_all is_lower_hex d)"
proof (cases "strip_prefix ''sha256:'' s")
  case None
  then have "\<And>d. s \<noteq> ''sha256:'' @ d" by (metis option.distinct(1) strip_prefix_Some)
  with None show ?thesis by (simp only: valid_id_def validate_sha256_v4_def option.case is_ok_simps) blast
next
  case (Some d)
  then have s: "s = ''sha256:'' @ d" by (simp only: strip_prefix_Some)
  have "(\<exists>e. ''sha256:'' @ d = ''sha256:'' @ e \<and> length e = 64 \<and> list_all is_lower_hex e)
      \<longleftrightarrow> length d = 64 \<and> list_all is_lower_hex d" by (simp only: same_append_eq) blast
  with Some s show ?thesis
    by (simp only: valid_id_def validate_sha256_v4_def option.case is_ok_ensure)
qed

lemma validate_sha256_ok [simp]: "validate_sha256_v4 s = Inr u \<longleftrightarrow> valid_id s"
  by (cases "validate_sha256_v4 s") (simp_all add: valid_id_def)

lemma valid_id_digest: "hex_digest H \<Longrightarrow> valid_id (digest_bytes_v4 H bs)"
  by (auto simp: valid_id_iff digest_bytes_v4_def hex_digest_def)

section \<open>Object kinds\<close>

datatype storage_object_kind_v4 =
  Whole | Chunk | ChunkManifest | Thread | RevisionRoot | SnapshotOverlay

fun kind_index :: "storage_object_kind_v4 \<Rightarrow> nat" where
  "kind_index Whole = 0"
| "kind_index Chunk = 1"
| "kind_index ChunkManifest = 2"
| "kind_index Thread = 3"
| "kind_index RevisionRoot = 4"
| "kind_index SnapshotOverlay = 5"

lemma kind_index_inject [simp]: "kind_index k = kind_index l \<longleftrightarrow> k = l"
  by (cases k; cases l) simp_all

text \<open>The derived \<open>Ord\<close>: declaration order of the variants.\<close>

instantiation storage_object_kind_v4 :: linorder
begin

definition less_eq_storage_object_kind_v4 :: "storage_object_kind_v4 \<Rightarrow> storage_object_kind_v4 \<Rightarrow> bool" where
  "less_eq_storage_object_kind_v4 k l \<longleftrightarrow> kind_index k \<le> kind_index l"

definition less_storage_object_kind_v4 :: "storage_object_kind_v4 \<Rightarrow> storage_object_kind_v4 \<Rightarrow> bool" where
  "less_storage_object_kind_v4 k l \<longleftrightarrow> kind_index k < kind_index l"

instance
  by intro_classes
    (auto simp: less_eq_storage_object_kind_v4_def less_storage_object_kind_v4_def)

end

definition REMOTE_kinds :: "storage_object_kind_v4 list" where
  "REMOTE_kinds = [Whole, Chunk, ChunkManifest, Thread, RevisionRoot]"

definition ALL_kinds :: "storage_object_kind_v4 list" where
  "ALL_kinds = [Whole, Chunk, ChunkManifest, Thread, RevisionRoot, SnapshotOverlay]"

fun directory :: "storage_object_kind_v4 \<Rightarrow> string" where
  "directory Whole = ''whole''"
| "directory Chunk = ''chunks''"
| "directory ChunkManifest = ''chunk-manifests''"
| "directory Thread = ''threads''"
| "directory RevisionRoot = ''revision-roots''"
| "directory SnapshotOverlay = ''snapshot-overlays''"

fun wire_name :: "storage_object_kind_v4 \<Rightarrow> string" where
  "wire_name Whole = ''whole''"
| "wire_name Chunk = ''chunk''"
| "wire_name ChunkManifest = ''chunkManifest''"
| "wire_name Thread = ''thread''"
| "wire_name RevisionRoot = ''revisionRoot''"
| "wire_name SnapshotOverlay = ''snapshotOverlay''"

fun max_bytes :: "storage_object_kind_v4 \<Rightarrow> u64" where
  "max_bytes Whole = MAX_LOGICAL_CONTENT_BYTES_V4"
| "max_bytes Chunk = ucast CHUNK_SIZE_V4"
| "max_bytes _ = 16777216"

lemma directory_inject: "directory k = directory l \<longleftrightarrow> k = l"
  by (cases k; cases l) simp_all

lemma wire_name_inject: "wire_name k = wire_name l \<longleftrightarrow> k = l"
  by (cases k; cases l) simp_all

record storage_object_ref_v4 =
  ref_kind :: storage_object_kind_v4
  ref_sha256 :: string
  ref_byte_length :: u64

definition ref_key :: "storage_object_ref_v4 \<Rightarrow> storage_object_kind_v4 \<times> string \<times> u64" where
  "ref_key r = (ref_kind r, ref_sha256 r, ref_byte_length r)"

lemma ref_key_inject [simp]: "ref_key r = ref_key s \<longleftrightarrow> r = s"
  by (auto simp: ref_key_def)

text \<open>\<open>BTreeSet<StorageObjectRefV4>\<close>: the refs in the derived order.\<close>

definition ref_set :: "storage_object_ref_v4 list \<Rightarrow> storage_object_ref_v4 list" where
  "ref_set rs = sort_key ref_key (remdups rs)"

lemma ref_set_set [simp]: "set (ref_set rs) = set rs"
  by (simp add: ref_set_def)

definition typed_object_path_v4 ::
  "path \<Rightarrow> storage_object_kind_v4 \<Rightarrow> string \<Rightarrow> string + path" where
  "typed_object_path_v4 root kind sha256 =
     bindr (validate_sha256_v4 sha256) (\<lambda>_.
       let digest = drop 7 sha256
       in Inr (root @ [''objects'', directory kind, ''sha256'', take 2 digest, drop 2 digest]))"

lemma typed_object_path_ok_iff: "is_ok (typed_object_path_v4 root kind s) \<longleftrightarrow> valid_id s"
  by (simp add: typed_object_path_v4_def Let_def)

lemma typed_object_path_inject:
  assumes "typed_object_path_v4 root k s = Inr p" "typed_object_path_v4 root l t = Inr p"
  shows "k = l \<and> s = t"
proof -
  from assms obtain d e where s: "s = ''sha256:'' @ d" and t: "t = ''sha256:'' @ e"
    by (auto simp: typed_object_path_v4_def bindr_eq_Inr_iff valid_id_iff)
  with assms have "take 2 d = take 2 e" "drop 2 d = drop 2 e" "directory k = directory l"
    by (auto simp: typed_object_path_v4_def bindr_eq_Inr_iff Let_def)
  then have "d = e" "k = l" by (metis append_take_drop_id, simp add: directory_inject)
  with s t show ?thesis by simp
qed

section \<open>Chunk manifests\<close>

record chunk_descriptor_v4 =
  chunk_sha256 :: string
  chunk_byte_length :: u64

record chunk_manifest_v4 =
  cm_schema_version :: u32
  cm_logical_sha256 :: string
  cm_byte_length :: u64
  cm_chunk_size :: u32
  cm_chunks :: "chunk_descriptor_v4 list"

fun validate_chunks :: "u32 \<Rightarrow> chunk_descriptor_v4 list \<Rightarrow> u64 \<Rightarrow> string + u64" where
  "validate_chunks chunk_size [] acc = Inr acc"
| "validate_chunks chunk_size (chunk # rest) acc =
     bindr (validate_sha256_v4 (chunk_sha256 chunk)) (\<lambda>_.
     bindr (ensure (\<not> (rest \<noteq> [] \<and> chunk_byte_length chunk \<noteq> ucast chunk_size))
              ''non-final chunk has an invalid length'') (\<lambda>_.
     bindr (ensure (\<not> (chunk_byte_length chunk = 0 \<or> chunk_byte_length chunk > ucast chunk_size))
              ''chunk has an invalid length'') (\<lambda>_.
     bindr (ok_or ''chunk length overflow'' (checked_add acc (chunk_byte_length chunk)))
       (validate_chunks chunk_size rest))))"

definition validate_chunk_manifest_v4 :: "chunk_manifest_v4 \<Rightarrow> string + unit" where
  "validate_chunk_manifest_v4 m =
     bindr (ensure (\<not> (cm_schema_version m \<noteq> 4 \<or> cm_chunk_size m = 0 \<or> cm_chunk_size m > CHUNK_SIZE_V4))
              ''unsupported v4 chunk manifest'') (\<lambda>_.
     bindr (validate_sha256_v4 (cm_logical_sha256 m)) (\<lambda>_.
     bindr (validate_chunks (cm_chunk_size m) (cm_chunks m) 0) (\<lambda>sum.
     bindr (ensure (sum = cm_byte_length m) ''chunk manifest length mismatch'') (\<lambda>_.
       ensure (\<not> (cm_byte_length m = 0 \<and> cm_chunks m \<noteq> [])) ''empty content cannot have chunks''))))"

text \<open>The shape a valid manifest promises: full chunks, then one that is neither empty nor longer.\<close>

fun full_chunks :: "nat \<Rightarrow> nat list \<Rightarrow> bool" where
  "full_chunks n [] = True"
| "full_chunks n [x] = (0 < x \<and> x \<le> n)"
| "full_chunks n (x # xs) = (x = n \<and> full_chunks n xs)"

lemma full_chunks_Cons:
  "0 < n \<Longrightarrow> full_chunks n (x # xs) \<longleftrightarrow> (xs \<noteq> [] \<longrightarrow> x = n) \<and> 0 < x \<and> x \<le> n \<and> full_chunks n xs"
  by (cases xs) auto

lemma full_chunks_pos: "0 < n \<Longrightarrow> full_chunks n xs \<Longrightarrow> x \<in> set xs \<Longrightarrow> 0 < x \<and> x \<le> n"
  by (induction n xs rule: full_chunks.induct) auto

lemma full_chunks_snoc:
  "0 < n \<Longrightarrow> list_all (\<lambda>y. y = n) xs \<Longrightarrow> 0 < x \<Longrightarrow> x \<le> n \<Longrightarrow> full_chunks n (xs @ [x])"
  by (induction n xs rule: full_chunks.induct) auto

lemma full_chunks_all: "0 < n \<Longrightarrow> list_all (\<lambda>y. y = n) xs \<Longrightarrow> full_chunks n xs"
  by (induction n xs rule: full_chunks.induct) auto

lemma full_chunks_unique:
  "0 < n \<Longrightarrow> full_chunks n xs \<Longrightarrow> full_chunks n ys \<Longrightarrow> sum_list xs = sum_list ys \<Longrightarrow> xs = ys"
proof (induction n xs arbitrary: ys rule: full_chunks.induct)
  case (1 n)
  then show ?case by (cases ys; cases "tl ys") auto
next
  case (2 n x)
  then obtain y ys' where y: "ys = y # ys'" by (cases ys) auto
  show ?case
  proof (cases ys')
    case Nil
    with 2 y show ?thesis by simp
  next
    case (Cons z zs)
    with 2 y have "y = n" "full_chunks n (z # zs)" by auto
    then have "0 < z" using 2 full_chunks_pos[of n "z # zs" z] by simp
    with 2 y Cons \<open>y = n\<close> show ?thesis by simp
  qed
next
  case (3 n x x' xs)
  then obtain y ys' where y: "ys = y # ys'" by (cases ys) auto
  have pos: "0 < x'" using 3 full_chunks_pos[of n "x' # xs" x'] by simp
  show ?case
  proof (cases ys')
    case Nil
    with 3 y pos show ?thesis by simp
  next
    case (Cons z zs)
    with 3 y have "y = n" "full_chunks n (z # zs)" by auto
    with 3 y Cons show ?thesis by simp
  qed
qed

lemma validate_chunks_Inr:
  assumes "0 < cs"
  shows "validate_chunks cs chunks t = Inr t' \<longleftrightarrow>
    list_all (\<lambda>c. valid_id (chunk_sha256 c)) chunks
    \<and> full_chunks (unat cs) (map (\<lambda>c. unat (chunk_byte_length c)) chunks)
    \<and> checked_sum t (map chunk_byte_length chunks) = Some t'"
proof (induction chunks arbitrary: t)
  case (Cons c rest)
  have u: "unat (ucast cs :: u64) = unat cs"
    using unsigned_less[of cs, where ?'a = nat] by (simp add: unsigned_ucast_eq take_bit_nat_eq_self)
  have pos: "0 < unat cs" using assms by (simp add: unat_gt_0)
  have len: "chunk_byte_length c = ucast cs \<longleftrightarrow> unat (chunk_byte_length c) = unat cs"
    using u by (metis word_unat_eq_iff)
  show ?case
    by (cases "checked_add t (chunk_byte_length c)")
      (auto simp: bindr_eq_Inr_iff Cons len full_chunks_Cons[OF pos] unat_gt_0 unat_eq_0
        word_less_nat_alt u not_less)
qed simp

lemma validate_chunk_manifest_iff:
  "validate_chunk_manifest_v4 m = Inr u \<longleftrightarrow>
     cm_schema_version m = 4 \<and> 0 < cm_chunk_size m \<and> cm_chunk_size m \<le> CHUNK_SIZE_V4
     \<and> valid_id (cm_logical_sha256 m)
     \<and> list_all (\<lambda>c. valid_id (chunk_sha256 c)) (cm_chunks m)
     \<and> full_chunks (unat (cm_chunk_size m)) (map (\<lambda>c. unat (chunk_byte_length c)) (cm_chunks m))
     \<and> unat (cm_byte_length m) = sum_list (map (\<lambda>c. unat (chunk_byte_length c)) (cm_chunks m))"
  (is "_ \<longleftrightarrow> ?rhs")
proof -
  let ?ls = "map chunk_byte_length (cm_chunks m)"
  have sum: "checked_sum 0 ?ls = Some (cm_byte_length m) \<longleftrightarrow>
      unat (cm_byte_length m) = sum_list (map unat ?ls)"
  proof
    assume "checked_sum 0 ?ls = Some (cm_byte_length m)"
    then show "unat (cm_byte_length m) = sum_list (map unat ?ls)"
      by (simp add: checked_sum_unat)
  next
    assume eq: "unat (cm_byte_length m) = sum_list (map unat ?ls)"
    then have "sum_list (map unat ?ls) < 2 ^ 64"
      using unsigned_less[of "cm_byte_length m", where ?'a = nat] by simp
    then obtain t where t: "checked_sum 0 ?ls = Some t"
      by (simp add: checked_sum_exact)
    with eq have "unat t = unat (cm_byte_length m)" by (simp add: checked_sum_unat)
    then have "t = cm_byte_length m" by (simp add: word_unat_eq_iff)
    with t show "checked_sum 0 ?ls = Some (cm_byte_length m)" by simp
  qed
  have zero: "cm_byte_length m = 0 \<Longrightarrow> unat (cm_byte_length m) = sum_list (map unat ?ls) \<Longrightarrow>
      0 < cm_chunk_size m \<Longrightarrow> full_chunks (unat (cm_chunk_size m)) (map unat ?ls) \<Longrightarrow> cm_chunks m = []"
  proof (rule ccontr)
    assume z: "cm_byte_length m = 0" "unat (cm_byte_length m) = sum_list (map unat ?ls)"
      "0 < cm_chunk_size m" "full_chunks (unat (cm_chunk_size m)) (map unat ?ls)" "cm_chunks m \<noteq> []"
    then obtain c cs where c: "cm_chunks m = c # cs" by (cases "cm_chunks m") auto
    have "0 < unat (cm_chunk_size m)" using z(3) by (simp add: unat_gt_0 word_gt_0)
    from full_chunks_pos[OF this z(4)] c have "0 < unat (chunk_byte_length c)" by simp
    with z(1,2) c show False by simp
  qed
  have nz: "\<not> (cm_schema_version m \<noteq> 4 \<or> cm_chunk_size m = 0 \<or> cm_chunk_size m > CHUNK_SIZE_V4)
      \<longleftrightarrow> cm_schema_version m = 4 \<and> 0 < cm_chunk_size m \<and> cm_chunk_size m \<le> CHUNK_SIZE_V4"
    by (auto simp: word_gt_0 not_less)
  show ?thesis
    unfolding validate_chunk_manifest_v4_def nz
    using sum zero
    by (auto simp: bindr_eq_Inr_iff validate_chunks_Inr comp_def)
qed

end
