(* ===== verification/Cas.thy ===== *)
theory Cas
  imports Objects
begin

text \<open>
  The contract of a content-addressed store, as a locale: what \<open>FilesystemContentStoreV4\<close>
  promises its clients. The clients' facts about installing the chunks of a content and reading
  them back are proved here once; the interpretation is in ContentStore.
\<close>

locale content_addressed =
  fixes digest :: "bytes \<Rightarrow> string"
    and put :: "'k \<Rightarrow> bytes \<Rightarrow> 's \<Rightarrow> 'e + 's"
    and get :: "'s \<Rightarrow> 'k \<Rightarrow> string \<Rightarrow> bytes option"
  assumes put_get: "put k b s = Inr s' \<Longrightarrow> get s' k (digest b) = Some b"
    and put_keep: "put k b s = Inr s' \<Longrightarrow> get s k' h = Some b' \<Longrightarrow> get s' k' h = Some b'"
    and put_only: "put k b s = Inr s' \<Longrightarrow> get s' k' h = Some b' \<Longrightarrow>
      get s k' h = Some b' \<or> (k' = k \<and> h = digest b \<and> b' = b)"
begin

definition sound :: "'s \<Rightarrow> bool" where
  "sound s \<longleftrightarrow> (\<forall>k h b. get s k h = Some b \<longrightarrow> digest b = h)"

lemma put_sound: "put k b s = Inr s' \<Longrightarrow> sound s \<Longrightarrow> sound s'"
  unfolding sound_def using put_only by metis

lemma put_all_keep:
  "foldr_res (put k) bs s = Inr s' \<Longrightarrow> get s k' h = Some b' \<Longrightarrow> get s' k' h = Some b'"
  by (erule foldr_res_invariant) (auto intro: put_keep)

lemma put_all_sound: "foldr_res (put k) bs s = Inr s' \<Longrightarrow> sound s \<Longrightarrow> sound s'"
  by (erule foldr_res_invariant) (auto intro: put_sound)

lemma put_all_get:
  "foldr_res (put k) bs s = Inr s' \<Longrightarrow> b \<in> set bs \<Longrightarrow> get s' k (digest b) = Some b"
proof (induction bs arbitrary: s)
  case (Cons c bs)
  then obtain s1 where s1: "put k c s = Inr s1" "foldr_res (put k) bs s1 = Inr s'"
    by (auto simp: bindr_eq_Inr_iff)
  show ?case
  proof (cases "b = c")
    case True
    with put_all_keep[OF s1(2) put_get[OF s1(1)]] show ?thesis by simp
  next
    case False
    with Cons s1 show ?thesis by simp
  qed
qed simp

text \<open>Reading the identifiers of the installed parts back, in order, gives the parts.\<close>

lemma put_all_read:
  assumes "foldr_res (put k) bs s = Inr s'"
  shows "map (\<lambda>h. get s' k h) (map digest bs) = map Some bs"
  using put_all_get[OF assms] by simp

end

end
