(* ===== verification/Chunking.thy ===== *)
theory Chunking
  imports Objects
begin

text \<open>
  The chunk emitter of the rollout normalizer (\<open>emit_bytes\<close> and \<open>emit_chunk\<close> of
  storage\_v4.rs). The \<open>&mut\<close> arguments of the two functions are the record \<open>emitter\<close>:
  the pending buffer, the bytes the logical hasher has absorbed, the running length, the
  chunk descriptors, and the state of the sink. The sink, the closure \<open>F: FnMut(&[u8])\<close>, is a
  state transformer that may fail. The lemmas say what a run of the emitter is: cutting the
  fed bytes into full chunks, in order, with a pending tail shorter than a chunk.
\<close>

type_synonym 's sink = "bytes \<Rightarrow> 's \<Rightarrow> string + 's"

record 's emitter =
  pending :: bytes
  hashed :: bytes
  emitted_total :: u64
  emitted_chunks :: "chunk_descriptor_v4 list"
  sink_state :: 's

definition emit_chunk :: "(bytes \<Rightarrow> string) \<Rightarrow> 's sink \<Rightarrow> bytes \<Rightarrow> 's emitter \<Rightarrow> string + 's emitter" where
  "emit_chunk H sink bs st =
     bindr (ensure (\<not> length (emitted_chunks st) \<ge> MAX_CHUNKS_PER_CONTENT_V4)
              ''normalized rollout exceeds chunk limit'') (\<lambda>_.
     bindr (ok_or ''normalized rollout length overflow''
              (checked_add (emitted_total st) (of_nat (length bs)))) (\<lambda>new_total.
     bindr (sink bs (sink_state st)) (\<lambda>s.
       Inr (st\<lparr>hashed := hashed st @ bs, emitted_total := new_total,
               emitted_chunks := emitted_chunks st @
                 [\<lparr>chunk_sha256 = digest_bytes_v4 H bs, chunk_byte_length = of_nat (length bs)\<rparr>],
               sink_state := s\<rparr>))))"

lemma emit_chunk_count:
  "emit_chunk H sink bs st = Inr st' \<Longrightarrow>
     length (emitted_chunks st) < MAX_CHUNKS_PER_CONTENT_V4
     \<and> length (emitted_chunks st') = Suc (length (emitted_chunks st)) \<and> pending st' = pending st"
  by (auto simp: emit_chunk_def bindr_eq_Inr_iff)

text \<open>
  The \<open>while offset < bytes.len()\<close> loop on the bytes that remain. With a pending buffer longer
  than a chunk the subtraction of the source underflows, a panic; a full buffer takes nothing,
  is emitted, and the loop goes on.
\<close>

function emit_bytes ::
  "(bytes \<Rightarrow> string) \<Rightarrow> 's sink \<Rightarrow> nat \<Rightarrow> bytes \<Rightarrow> 's emitter \<Rightarrow> string + 's emitter" where
  "emit_bytes H sink chunk_size bs st =
     (if bs = [] then Inr st
      else if length (pending st) > chunk_size then Inl ''panic: subtract with overflow''
      else
        let n = min (chunk_size - length (pending st)) (length bs);
            filled = pending st @ take n bs
        in if length filled = chunk_size
           then (case emit_chunk H sink filled (st\<lparr>pending := filled\<rparr>) of
                   Inl e \<Rightarrow> Inl e
                 | Inr st' \<Rightarrow> emit_bytes H sink chunk_size (drop n bs) (st'\<lparr>pending := []\<rparr>))
           else emit_bytes H sink chunk_size (drop n bs) (st\<lparr>pending := filled\<rparr>))"
  by pat_completeness auto
termination
proof (relation "measure (\<lambda>(H, sink, n, bs, st).
    length bs + (MAX_CHUNKS_PER_CONTENT_V4 - length (emitted_chunks st)))", goal_cases)
  case 1
  then show ?case by simp
next
  case (2 H sink chunk_size bs st n filled st')
  then have "length (emitted_chunks st) < MAX_CHUNKS_PER_CONTENT_V4"
    "length (emitted_chunks st') = Suc (length (emitted_chunks st))"
    using emit_chunk_count[of H sink filled "st\<lparr>pending := filled\<rparr>" st'] by simp_all
  then show ?case by simp
next
  case (3 H sink chunk_size bs st n filled)
  then have "0 < n" by (auto simp: min_def split: if_splits)
  with 3 show ?case by (simp add: diff_less)
qed

declare emit_bytes.simps [simp del]

definition describe_chunk :: "(bytes \<Rightarrow> string) \<Rightarrow> bytes \<Rightarrow> chunk_descriptor_v4" where
  "describe_chunk H c = \<lparr>chunk_sha256 = digest_bytes_v4 H c, chunk_byte_length = of_nat (length c)\<rparr>"

text \<open>What a successful run of the emitter did: the list \<open>cs\<close> of chunks it cut.\<close>

definition emitted ::
  "(bytes \<Rightarrow> string) \<Rightarrow> 's sink \<Rightarrow> 's emitter \<Rightarrow> bytes list \<Rightarrow> 's emitter \<Rightarrow> bool" where
  "emitted H sink st cs st' \<longleftrightarrow>
     hashed st' = hashed st @ concat cs
     \<and> emitted_chunks st' = emitted_chunks st @ map (describe_chunk H) cs
     \<and> foldr_res sink cs (sink_state st) = Inr (sink_state st')
     \<and> checked_sum (emitted_total st) (map (\<lambda>c. of_nat (length c)) cs) = Some (emitted_total st')
     \<and> length (emitted_chunks st') \<le> max (length (emitted_chunks st)) MAX_CHUNKS_PER_CONTENT_V4"

lemma emitted_Nil: "emitted H sink st [] st' \<longleftrightarrow>
    hashed st' = hashed st \<and> emitted_chunks st' = emitted_chunks st
    \<and> sink_state st' = sink_state st \<and> emitted_total st' = emitted_total st"
  by (auto simp: emitted_def)

lemma emitted_Cons:
  assumes "emit_chunk H sink c st = Inr st1" and "emitted H sink st1 cs st2"
  shows "emitted H sink st (c # cs) st2"
proof -
  from assms(1) obtain t s where *: "length (emitted_chunks st) < MAX_CHUNKS_PER_CONTENT_V4"
      "checked_add (emitted_total st) (of_nat (length c)) = Some t" "sink c (sink_state st) = Inr s"
      "st1 = st\<lparr>hashed := hashed st @ c, emitted_total := t,
         emitted_chunks := emitted_chunks st @ [describe_chunk H c], sink_state := s\<rparr>"
    by (auto simp: emit_chunk_def bindr_eq_Inr_iff describe_chunk_def)
  with assms(2) show ?thesis by (auto simp: emitted_def)
qed

lemma emitted_pending_update:
  "emitted H sink (st\<lparr>pending := p\<rparr>) cs st' = emitted H sink st cs st'"
  "emitted H sink st cs (st'\<lparr>pending := p\<rparr>) = emitted H sink st cs st'"
  by (simp_all add: emitted_def)

lemma emit_bytes_emitted:
  "emit_bytes H sink n bs st = Inr st' \<Longrightarrow> 0 < n \<Longrightarrow> length (pending st) < n \<Longrightarrow>
   \<exists>cs. pending st @ bs = concat cs @ pending st' \<and> (\<forall>c \<in> set cs. length c = n)
     \<and> length (pending st') < n \<and> emitted H sink st cs st'"
proof (induction H sink n bs st rule: emit_bytes.induct)
  case (1 H sink n bs st)
  show ?case
  proof (cases "bs = []")
    case True
    with 1 have "st' = st" by (simp add: emit_bytes.simps)
    with True 1 show ?thesis by (intro exI[of _ "[]"]) (simp add: emitted_Nil)
  next
    case False
    define k where "k = min (n - length (pending st)) (length bs)"
    define filled where "filled = pending st @ take k bs"
    have len: "length filled \<le> n" "0 < k"
      using 1 False by (auto simp: filled_def k_def min_def)
    have split: "pending st @ bs = filled @ drop k bs" by (simp add: filled_def)
    have "(length (pending st) > n) = False" using "1.prems" by simp
    then have eq: "emit_bytes H sink n bs st =
        (if length filled = n
         then (case emit_chunk H sink filled (st\<lparr>pending := filled\<rparr>) of
                 Inl e \<Rightarrow> Inl e
               | Inr st1 \<Rightarrow> emit_bytes H sink n (drop k bs) (st1\<lparr>pending := []\<rparr>))
         else emit_bytes H sink n (drop k bs) (st\<lparr>pending := filled\<rparr>))"
      unfolding filled_def k_def
      by (subst emit_bytes.simps) (simp only: Let_def False if_False)
    show ?thesis
    proof (cases "length filled = n")
      case True
      with "1.prems" False eq obtain st1 where
        c: "emit_chunk H sink filled (st\<lparr>pending := filled\<rparr>) = Inr st1" and
        r: "emit_bytes H sink n (drop k bs) (st1\<lparr>pending := []\<rparr>) = Inr st'"
        by (auto split: sum.splits)
      have "\<exists>cs. pending (st1\<lparr>pending := []\<rparr>) @ drop k bs = concat cs @ pending st'
          \<and> (\<forall>c \<in> set cs. length c = n) \<and> length (pending st') < n
          \<and> emitted H sink (st1\<lparr>pending := []\<rparr>) cs st'"
        using "1.IH"(1)[OF False _ k_def filled_def True c r] "1.prems" by simp
      then obtain cs where cs: "drop k bs = concat cs @ pending st'" "\<forall>c \<in> set cs. length c = n"
          "length (pending st') < n" "emitted H sink st1 cs st'"
        by (auto simp: emitted_pending_update)
      have "emitted H sink st (filled # cs) st'"
        using emitted_Cons[OF c cs(4)] by (simp add: emitted_pending_update)
      with cs True split show ?thesis by (intro exI[of _ "filled # cs"]) simp
    next
      case no: False
      with "1.prems" False eq have
        r: "emit_bytes H sink n (drop k bs) (st\<lparr>pending := filled\<rparr>) = Inr st'"
        by simp
      have "\<exists>cs. pending (st\<lparr>pending := filled\<rparr>) @ drop k bs = concat cs @ pending st'
          \<and> (\<forall>c \<in> set cs. length c = n) \<and> length (pending st') < n
          \<and> emitted H sink (st\<lparr>pending := filled\<rparr>) cs st'"
        using "1.IH"(2)[OF False _ k_def filled_def no r] "1.prems" no len by simp
      with split show ?thesis by (auto simp: emitted_pending_update)
    qed
  qed
qed

end
