(* ===== verification/Rollout.thy ===== *)
theory Rollout
  imports Chunking
begin

text \<open>
  The streaming rollout normalizer and materializer of storage\_v4.rs. A rollout is a JSON-lines
  file; \<open>normalize_rollout_reader\<close> replaces the provider (and, in the first record, the
  workspace) of its \<open>session_meta\<close> records by fixed tokens and cuts the result into chunks;
  \<open>materialize_rollout_reader\<close> puts the values of the current machine in. A reader is the byte
  string it delivers, \<open>read_until\<close> yields its lines one by one; the cancellation flag is
  polled once per iteration, \<open>cancelled i\<close> being the answer of poll \<open>i\<close>. Reads that fail
  with an I/O error are outside the model.
\<close>

section \<open>Provider identifiers\<close>

definition validate_provider_id_v4 :: "string \<Rightarrow> string + string" where
  "validate_provider_id_v4 provider0 =
     (let provider = trim provider0 in
     bindr (ensure (\<not> (provider = [] \<or> length provider > 128))
              ''provider ID must contain between 1 and 128 characters'') (\<lambda>_.
     bindr (ensure (\<not> (provider = PROVIDER_TOKEN_V4 \<or> provider = WORKSPACE_TOKEN_V4))
              ''provider ID uses a reserved v4 normalization token'') (\<lambda>_.
     bindr (ensure (list_all (\<lambda>b. is_ascii_alphanumeric b \<or> b \<in> set ''_-.'') provider)
              ''provider ID contains unsupported characters'') (\<lambda>_.
       Inr provider))))"

section \<open>Lines\<close>

definition split_line_ending :: "bytes \<Rightarrow> bytes \<times> bytes" where
  "split_line_ending line =
     (case strip_suffix [cr, nl] line of
        Some body \<Rightarrow> (body, [cr, nl])
      | None \<Rightarrow> (case strip_suffix [nl] line of
            Some body \<Rightarrow> (body, [nl])
          | None \<Rightarrow> (line, [])))"

definition read_until :: "char \<Rightarrow> bytes \<Rightarrow> bytes \<times> bytes" where
  "read_until c bs =
     (case dropWhile (\<lambda>x. x \<noteq> c) bs of
        [] \<Rightarrow> (bs, [])
      | d # rest \<Rightarrow> (takeWhile (\<lambda>x. x \<noteq> c) bs @ [d], rest))"

lemma read_until_last: "c \<notin> set l \<Longrightarrow> read_until c l = (l, [])"
proof -
  assume "c \<notin> set l"
  then have "dropWhile (\<lambda>x. x \<noteq> c) l = []" by (auto simp: dropWhile_eq_Nil_conv)
  then show ?thesis by (simp only: read_until_def list.case)
qed

lemma read_until_found: "c \<notin> set pre \<Longrightarrow> read_until c (pre @ c # rest) = (pre @ [c], rest)"
  by (auto simp: read_until_def takeWhile_append dropWhile_append)

lemma read_until_cases:
  obtains "c \<notin> set bs" "read_until c bs = (bs, [])"
  | pre rest where "bs = pre @ c # rest" "c \<notin> set pre" "read_until c bs = (pre @ [c], rest)"
proof (cases "c \<in> set bs")
  case True
  then obtain pre rest where "bs = pre @ c # rest" "c \<notin> set pre" by (meson split_list_first)
  then show thesis using that(2) read_until_found by metis
qed (use that(1) read_until_last in metis)

lemma read_until_append: "fst (read_until c bs) @ snd (read_until c bs) = bs"
  by (cases c bs rule: read_until_cases) auto

lemma read_until_progress: "bs \<noteq> [] \<Longrightarrow> length (snd (read_until c bs)) < length bs"
  by (cases c bs rule: read_until_cases) auto

function lines_of :: "bytes \<Rightarrow> bytes list" where
  "lines_of bs = (if bs = [] then [] else fst (read_until nl bs) # lines_of (snd (read_until nl bs)))"
  by pat_completeness auto
termination
  by (relation "measure length") (auto intro: read_until_progress)

declare lines_of.simps [simp del]

lemma concat_lines_of: "concat (lines_of bs) = bs"
  by (induction bs rule: lines_of.induct) (subst lines_of.simps, simp add: read_until_append)

text \<open>A line as \<open>read_until\<close> delivers it: at most one newline, at the end.\<close>

definition terminated :: "bytes \<Rightarrow> bool" where
  "terminated l \<longleftrightarrow> (\<exists>b. l = b @ [nl] \<and> nl \<notin> set b)"

fun line_list :: "bytes list \<Rightarrow> bool" where
  "line_list [] = True"
| "line_list [l] = (terminated l \<or> (l \<noteq> [] \<and> nl \<notin> set l))"
| "line_list (l # ls) = (terminated l \<and> line_list ls)"

lemma line_list_Cons: "line_list (l # ls) \<longleftrightarrow>
   (terminated l \<and> line_list ls) \<or> (ls = [] \<and> l \<noteq> [] \<and> nl \<notin> set l)"
  by (cases ls) auto

lemma read_until_terminated: "terminated l \<Longrightarrow> read_until nl (l @ rest) = (l, rest)"
  by (auto simp: terminated_def read_until_found)

lemma lines_of_concat: "line_list ls \<Longrightarrow> lines_of (concat ls) = ls"
proof (induction ls)
  case Nil
  then show ?case by (simp add: lines_of.simps)
next
  case (Cons l ls)
  from Cons.prems consider "terminated l" "line_list ls" | "ls = []" "l \<noteq> []" "nl \<notin> set l"
    by (auto simp: line_list_Cons)
  then show ?case
  proof cases
    case 1
    then have "l @ concat ls \<noteq> []" by (auto simp: terminated_def)
    with 1 Cons.IH show ?thesis
      by (subst lines_of.simps) (simp add: read_until_terminated)
  next
    case 2
    then show ?thesis by (subst lines_of.simps) (simp add: read_until_last lines_of.simps[of "[]"])
  qed
qed

lemma line_list_lines_of: "line_list (lines_of bs)"
proof (induction bs rule: lines_of.induct)
  case (1 bs)
  show ?case
  proof (cases "bs = []")
    case False
    show ?thesis
    proof (cases nl bs rule: read_until_cases)
      case 1
      with False show ?thesis by (subst lines_of.simps) (simp add: lines_of.simps[of "[]"])
    next
      case (2 pre rest)
      then have "terminated (pre @ [nl])" by (auto simp: terminated_def)
      with 2 False "1.IH" show ?thesis by (subst lines_of.simps) (simp add: line_list_Cons)
    qed
  qed (simp add: lines_of.simps)
qed

lemma split_line_append: "fst (split_line_ending l) @ snd (split_line_ending l) = l"
  by (auto simp: split_line_ending_def strip_suffix_Some split: option.splits)

lemma split_line_ending_cases:
  "snd (split_line_ending l) \<in> {[cr, nl], [nl], []}"
  by (auto simp: split_line_ending_def split: option.splits)

lemma nl_cr_distinct [simp]: "nl \<noteq> cr" "cr \<noteq> nl"
  by (simp_all add: nl_def cr_def)

text \<open>Rewriting the body of a line keeps its ending, if the new body ends in a closing brace.\<close>

lemma split_line_ending_rebuild:
  assumes "nl \<notin> set b" and "b \<noteq> []" and "last b \<noteq> cr" and "e \<in> {[cr, nl], [nl], []}"
  shows "split_line_ending (b @ e) = (b, e)"
proof -
  have crnl: "strip_suffix [cr, nl] (b @ [cr, nl]) = Some b" and lf: "strip_suffix [nl] (b @ [nl]) = Some b"
    by (simp_all add: strip_suffix_Some)
  have no: "strip_suffix [cr, nl] (b @ [nl]) = None"
  proof (simp only: strip_suffix_None, intro allI notI)
    fix t assume "b @ [nl] = t @ [cr, nl]"
    then have "b = t @ [cr]" by (metis append_Cons append_assoc append_Nil butlast_snoc)
    with assms(3) show False by simp
  qed
  have "strip_suffix [cr, nl] b = None" "strip_suffix [nl] b = None"
    using assms(1) by (auto simp: strip_suffix_None)
  with assms(4) crnl lf no show ?thesis by (auto simp: split_line_ending_def)
qed

lemma terminated_iff: "terminated l \<longleftrightarrow> l \<noteq> [] \<and> last l = nl \<and> nl \<notin> set (butlast l)"
  unfolding terminated_def by (metis append_butlast_last_id butlast_snoc last_snoc snoc_eq_iff_butlast)

lemma terminated_rebuild:
  assumes "e \<in> {[cr, nl], [nl], []}" and "nl \<notin> set b"
  shows "terminated (b @ e) \<longleftrightarrow> e \<noteq> []"
proof -
  have "b \<noteq> [] \<Longrightarrow> last b \<noteq> nl" using assms(2) by (metis last_in_set)
  with assms show ?thesis by (auto simp: terminated_iff butlast_append)
qed

lemma terminated_ending: "terminated l \<Longrightarrow> snd (split_line_ending l) \<noteq> []"
  by (auto simp: terminated_def split_line_ending_def strip_suffix_None split: option.splits)

end
