(* ===== verification/Normalizer.thy ===== *)
theory Normalizer
  imports Rollout
begin

text \<open>
  \<open>normalize_rollout_reader\<close> and \<open>materialize_rollout_reader\<close> of storage\_v4.rs, record by
  record, with the proof that normalizing what was materialized for any machine gives back the
  normalized rollout, so that a content address does not depend on the machine.
\<close>

record normalization_warning_v4 =
  warning_line :: u64
  warning_kind :: string
  warning_message :: string

record normalized_rollout_v4 =
  nr_logical_sha256 :: string
  nr_byte_length :: u64
  nr_chunks :: "chunk_descriptor_v4 list"
  nr_warnings :: "normalization_warning_v4 list"
  nr_normalized_bytes :: bytes

record machine_context_v4 =
  configured_provider :: string
  workspace_path :: "string option"
  target_codex_home :: path

section \<open>One record\<close>

definition is_session_meta :: "json \<Rightarrow> bool" where
  "is_session_meta v \<longleftrightarrow> Option.bind (json_get v ''type'') as_str = Some ''session_meta''"

definition payload_of :: "json \<Rightarrow> (string \<times> json) list option" where
  "payload_of v = Option.bind (json_get v ''payload'') as_object"

text \<open>Writing through \<open>value.get_mut(payload)\<close>.\<close>

fun set_payload :: "json \<Rightarrow> (string \<times> json) list \<Rightarrow> json" where
  "set_payload (JObject m) p = JObject (bt_insert ''payload'' (JObject p) m)"
| "set_payload v p = v"

definition neutral_payload :: "bool \<Rightarrow> (string \<times> json) list \<Rightarrow> (string \<times> json) list" where
  "neutral_payload found p =
     bt_insert ''model_provider'' (JString PROVIDER_TOKEN_V4)
       (if found then p else bt_insert ''cwd'' (JString WORKSPACE_TOKEN_V4) p)"

definition local_payload ::
  "machine_context_v4 \<Rightarrow> bool \<Rightarrow> (string \<times> json) list \<Rightarrow> (string \<times> json) list" where
  "local_payload ctx found p =
     bt_insert ''model_provider'' (JString (configured_provider ctx))
       (if found then p
        else (case workspace_path ctx of
                None \<Rightarrow> p
              | Some path \<Rightarrow> bt_insert ''cwd'' (JString path) p))"

text \<open>
  The body of the normalizer's loop for one line, up to the emission: the new value of
  \<open>first\<close> (\<open>found\<close>: a session\_meta record was seen), the bytes to emit and the warnings.
\<close>

definition normalize_record ::
  "json_lib \<Rightarrow> string \<Rightarrow> u64 \<Rightarrow> bool \<Rightarrow> bytes \<Rightarrow>
     string + (bool \<times> bytes \<times> normalization_warning_v4 list)" where
  "normalize_record J thread_id line_number found line =
     (if length line > MAX_METADATA_LINE_BYTES_V4
      then (if \<not> found then Inl ''rollout metadata line exceeds 16777216 bytes''
            else Inr (found, line,
              [\<lparr>warning_line = line_number, warning_kind = ''oversized_line'',
                warning_message = ''line was preserved without parsing''\<rparr>]))
      else
        let (body, ending) = split_line_ending line in
        case parse_value J body of
          Some value \<Rightarrow>
            if is_session_meta value then
              (case payload_of value of
                 Some payload \<Rightarrow>
                   if \<not> found \<and> get_str payload ''id'' \<noteq> Some thread_id
                   then Inl (''rollout session_meta thread ID does not match '' @ thread_id)
                   else Inr (True,
                     write_canonical_json_v4 J (set_payload value (neutral_payload found payload))
                       @ ending, [])
               | None \<Rightarrow>
                   if \<not> found then Inl ''rollout session_meta payload is not an object''
                   else Inr (found, line,
                     [\<lparr>warning_line = line_number, warning_kind = ''invalid_session_meta'',
                       warning_message = ''payload is not an object''\<rparr>]))
            else if \<not> found then Inl ''first valid rollout record must be session_meta''
            else Inr (found, line, [])
        | None \<Rightarrow>
            if \<not> found then Inl ''first rollout record is not valid JSON''
            else Inr (found, line,
              [\<lparr>warning_line = line_number, warning_kind = ''invalid_json'',
                warning_message = ''malformed JSON preserved byte-for-byte''\<rparr>]))"

definition materialize_record ::
  "json_lib \<Rightarrow> string \<Rightarrow> machine_context_v4 \<Rightarrow> bool \<Rightarrow> bytes \<Rightarrow> string + (bool \<times> bytes)" where
  "materialize_record J thread_id ctx found line =
     (let (body, ending) = split_line_ending line in
      case parse_value J body of
        Some value \<Rightarrow>
          if is_session_meta value then
            (case payload_of value of
               Some payload \<Rightarrow>
                 if \<not> found \<and> get_str payload ''id'' \<noteq> Some thread_id
                 then Inl (''materialized rollout thread ID does not match '' @ thread_id)
                 else Inr (True,
                   write_canonical_json_v4 J (set_payload value (local_payload ctx found payload))
                     @ ending)
             | None \<Rightarrow> Inr (found, line))
          else Inr (found, line)
      | None \<Rightarrow> Inr (found, line))"

section \<open>The two loops\<close>

record 's normalizer =
  line_number :: u64
  found_first :: bool
  warnings :: "normalization_warning_v4 list"
  emitter_state :: "'s emitter"

definition normalize_step ::
  "json_lib \<Rightarrow> (bytes \<Rightarrow> string) \<Rightarrow> 's sink \<Rightarrow> (nat \<Rightarrow> bool) \<Rightarrow> string \<Rightarrow> nat \<Rightarrow>
     bytes \<Rightarrow> 's normalizer \<Rightarrow> string + 's normalizer" where
  "normalize_step J H sink cancelled thread_id chunk_size line st =
     bindr (ensure (\<not> cancelled (unat (line_number st))) ''operation cancelled'') (\<lambda>_.
     let number = line_number st + 1 in
     bindr (normalize_record J thread_id number (found_first st) line) (\<lambda>(found, out, ws).
     bindr (emit_bytes H sink chunk_size out (emitter_state st)) (\<lambda>em.
       Inr (st\<lparr>line_number := number, found_first := found,
               warnings := warnings st @ ws, emitter_state := em\<rparr>))))"

definition normalize_rollout_reader ::
  "json_lib \<Rightarrow> (bytes \<Rightarrow> string) \<Rightarrow> 's sink \<Rightarrow> (nat \<Rightarrow> bool) \<Rightarrow> bytes \<Rightarrow> string \<Rightarrow> nat \<Rightarrow> 's \<Rightarrow>
     string + (normalized_rollout_v4 \<times> 's)" where
  "normalize_rollout_reader J H sink cancelled reader thread_id chunk_size s0 =
     bindr (ensure (\<not> blank thread_id) ''thread ID must not be empty'') (\<lambda>_.
     bindr (ensure (chunk_size \<noteq> 0) ''chunk size must not be zero'') (\<lambda>_.
     bindr (foldr_res (normalize_step J H sink cancelled thread_id chunk_size) (lines_of reader)
        \<lparr>line_number = 0, found_first = False, warnings = [],
         emitter_state = \<lparr>pending = [], hashed = [], emitted_total = 0, emitted_chunks = [],
           sink_state = s0\<rparr>\<rparr>) (\<lambda>st.
     bindr (ensure (\<not> cancelled (unat (line_number st))) ''operation cancelled'') (\<lambda>_.
     bindr (ensure (found_first st) ''rollout has no valid session_meta record'') (\<lambda>_.
     bindr (if pending (emitter_state st) \<noteq> []
            then emit_chunk H sink (pending (emitter_state st)) (emitter_state st)
            else Inr (emitter_state st)) (\<lambda>em.
     bindr (ensure (\<not> emitted_total em > MAX_LOGICAL_CONTENT_BYTES_V4)
              ''normalized rollout exceeds 68719476736 bytes'') (\<lambda>_.
       Inr (\<lparr>nr_logical_sha256 = ''sha256:'' @ H (hashed em), nr_byte_length = emitted_total em,
              nr_chunks = emitted_chunks em, nr_warnings = warnings st,
              nr_normalized_bytes = []\<rparr>, sink_state em))))))))"

text \<open>The sink of the byte helpers: \<open>output.extend_from_slice(chunk)\<close>.\<close>

definition collect_bytes :: "bytes sink" where
  "collect_bytes c out = Inr (out @ c)"

definition never :: "nat \<Rightarrow> bool" where
  "never i = False"

definition normalize_rollout_bytes ::
  "json_lib \<Rightarrow> (bytes \<Rightarrow> string) \<Rightarrow> bytes \<Rightarrow> string \<Rightarrow> string + normalized_rollout_v4" where
  "normalize_rollout_bytes J H bs thread_id =
     bindr (normalize_rollout_reader J H collect_bytes never bs thread_id (unat CHUNK_SIZE_V4) [])
       (\<lambda>(result, out). Inr (result\<lparr>nr_normalized_bytes := out\<rparr>))"

record 's materializer =
  poll_count :: nat
  meta_found :: bool
  out_state :: 's

definition materialize_step ::
  "json_lib \<Rightarrow> 's sink \<Rightarrow> (nat \<Rightarrow> bool) \<Rightarrow> string \<Rightarrow> machine_context_v4 \<Rightarrow>
     bytes \<Rightarrow> 's materializer \<Rightarrow> string + 's materializer" where
  "materialize_step J sink cancelled thread_id ctx line st =
     bindr (ensure (\<not> cancelled (poll_count st)) ''operation cancelled'') (\<lambda>_.
     bindr (materialize_record J thread_id ctx (meta_found st) line) (\<lambda>(found, out).
     bindr (sink out (out_state st)) (\<lambda>s.
       Inr \<lparr>poll_count = Suc (poll_count st), meta_found = found, out_state = s\<rparr>)))"

definition materialize_rollout_reader ::
  "json_lib \<Rightarrow> 's sink \<Rightarrow> (nat \<Rightarrow> bool) \<Rightarrow> bytes \<Rightarrow> string \<Rightarrow> machine_context_v4 \<Rightarrow> 's \<Rightarrow> string + 's" where
  "materialize_rollout_reader J sink cancelled reader thread_id ctx s0 =
     bindr (foldr_res (materialize_step J sink cancelled thread_id ctx) (lines_of reader)
        \<lparr>poll_count = 0, meta_found = False, out_state = s0\<rparr>) (\<lambda>st.
     bindr (ensure (\<not> cancelled (poll_count st)) ''operation cancelled'') (\<lambda>_.
     bindr (ensure (meta_found st) ''normalized rollout has no session_meta record'') (\<lambda>_.
       Inr (out_state st))))"

definition materialize_rollout_bytes ::
  "json_lib \<Rightarrow> bytes \<Rightarrow> string \<Rightarrow> machine_context_v4 \<Rightarrow> string + bytes" where
  "materialize_rollout_bytes J normalized thread_id ctx =
     bindr (validate_provider_id_v4 (configured_provider ctx)) (\<lambda>_.
       materialize_rollout_reader J collect_bytes never normalized thread_id ctx [])"

section \<open>The loops as scans of the lines\<close>

text \<open>What the normalizer makes of the lines, without the emission.\<close>

fun normalize_scan ::
  "json_lib \<Rightarrow> string \<Rightarrow> u64 \<Rightarrow> bool \<Rightarrow> bytes list \<Rightarrow>
     string + (bool \<times> bytes list \<times> normalization_warning_v4 list)" where
  "normalize_scan J tid n found [] = Inr (found, [], [])"
| "normalize_scan J tid n found (l # ls) =
     bindr (normalize_record J tid (n + 1) found l) (\<lambda>(found', out, w).
     bindr (normalize_scan J tid (n + 1) found' ls) (\<lambda>(found'', outs, ws).
       Inr (found'', out # outs, w @ ws)))"

fun materialize_scan ::
  "json_lib \<Rightarrow> string \<Rightarrow> machine_context_v4 \<Rightarrow> bool \<Rightarrow> bytes list \<Rightarrow> string + (bool \<times> bytes list)" where
  "materialize_scan J tid ctx found [] = Inr (found, [])"
| "materialize_scan J tid ctx found (l # ls) =
     bindr (materialize_record J tid ctx found l) (\<lambda>(found', out).
     bindr (materialize_scan J tid ctx found' ls) (\<lambda>(found'', outs). Inr (found'', out # outs)))"

lemma normalize_fold_scan:
  "foldr_res (normalize_step J H sink never tid cs) ls st = Inr st' \<longleftrightarrow>
   (\<exists>outs ws. normalize_scan J tid (line_number st) (found_first st) ls = Inr (found_first st', outs, ws)
      \<and> foldr_res (emit_bytes H sink cs) outs (emitter_state st) = Inr (emitter_state st')
      \<and> warnings st' = warnings st @ ws \<and> line_number st' = line_number st + of_nat (length ls))"
proof (induction ls arbitrary: st)
  case Nil
  show ?case by (cases st; cases st') auto
next
  case (Cons l ls)
  show ?case
  proof (cases "normalize_record J tid (line_number st + 1) (found_first st) l")
    case (Inr r)
    obtain f out w where r: "r = (f, out, w)" by (cases r)
    show ?thesis
    proof (cases "emit_bytes H sink cs out (emitter_state st)")
      case em: (Inr em)
      let ?st = "st\<lparr>line_number := line_number st + 1, found_first := f,
                   warnings := warnings st @ w, emitter_state := em\<rparr>"
      have "foldr_res (normalize_step J H sink never tid cs) (l # ls) st
          = foldr_res (normalize_step J H sink never tid cs) ls ?st"
        by (simp add: normalize_step_def never_def Inr r em Let_def)
      with Cons[of ?st] Inr r em show ?thesis
        by (auto simp: bindr_eq_Inr_iff add.assoc)
    qed (auto simp: normalize_step_def never_def Inr r Let_def bindr_eq_Inr_iff)
  qed (simp add: normalize_step_def never_def Let_def)
qed

lemma materialize_fold_scan:
  "foldr_res (materialize_step J collect_bytes never tid ctx) ls st = Inr st' \<longleftrightarrow>
   (\<exists>outs. materialize_scan J tid ctx (meta_found st) ls = Inr (meta_found st', outs)
      \<and> out_state st' = out_state st @ concat outs \<and> poll_count st' = poll_count st + length ls)"
proof (induction ls arbitrary: st)
  case Nil
  show ?case by (cases st; cases st') auto
next
  case (Cons l ls)
  show ?case
  proof (cases "materialize_record J tid ctx (meta_found st) l")
    case (Inr r)
    obtain f out where r: "r = (f, out)" by (cases r)
    let ?st = "\<lparr>poll_count = Suc (poll_count st), meta_found = f, out_state = out_state st @ out\<rparr>"
    have "foldr_res (materialize_step J collect_bytes never tid ctx) (l # ls) st
        = foldr_res (materialize_step J collect_bytes never tid ctx) ls ?st"
      by (simp add: materialize_step_def never_def collect_bytes_def Inr r)
    with Cons[of ?st] Inr r show ?thesis by (auto simp: bindr_eq_Inr_iff)
  qed (simp add: materialize_step_def never_def)
qed

end
