(* ===== verification/Neutrality.thy ===== *)
theory Neutrality
  imports Normalizer
begin

text \<open>
  Correctness of the normalizer: its chunks reassemble to the normalized bytes and satisfy the
  manifest rules, and normalization is neutral: materializing a normalized rollout for any
  machine and normalizing the result gives the same normalized rollout back.
\<close>

section \<open>What a successful run emitted\<close>

definition initial_emitter :: "'s \<Rightarrow> 's emitter" where
  "initial_emitter s0 = \<lparr>pending = [], hashed = [], emitted_total = 0, emitted_chunks = [], sink_state = s0\<rparr>"

definition flush_emitter :: "(bytes \<Rightarrow> string) \<Rightarrow> 's sink \<Rightarrow> 's emitter \<Rightarrow> string + 's emitter" where
  "flush_emitter H sink em0 =
     bindr (if pending em0 \<noteq> [] then emit_chunk H sink (pending em0) em0 else Inr em0) (\<lambda>em.
     bindr (ensure (\<not> emitted_total em > MAX_LOGICAL_CONTENT_BYTES_V4)
              ''normalized rollout exceeds 68719476736 bytes'') (\<lambda>_. Inr em))"

definition emit_all ::
  "(bytes \<Rightarrow> string) \<Rightarrow> 's sink \<Rightarrow> nat \<Rightarrow> 's \<Rightarrow> bytes list \<Rightarrow> string + 's emitter" where
  "emit_all H sink n s0 outs =
     bindr (foldr_res (emit_bytes H sink n) outs (initial_emitter s0)) (flush_emitter H sink)"

definition rollout_result ::
  "(bytes \<Rightarrow> string) \<Rightarrow> normalization_warning_v4 list \<Rightarrow> 's emitter \<Rightarrow> normalized_rollout_v4" where
  "rollout_result H ws em =
     \<lparr>nr_logical_sha256 = ''sha256:'' @ H (hashed em), nr_byte_length = emitted_total em,
      nr_chunks = emitted_chunks em, nr_warnings = ws, nr_normalized_bytes = []\<rparr>"

lemma normalize_reader_Inr_iff:
  "normalize_rollout_reader J H sink never bs tid n s0 = Inr (r, s) \<longleftrightarrow>
   \<not> blank tid \<and> n \<noteq> 0 \<and>
   (\<exists>outs ws em. normalize_scan J tid 0 False (lines_of bs) = Inr (True, outs, ws)
      \<and> emit_all H sink n s0 outs = Inr em \<and> r = rollout_result H ws em \<and> s = sink_state em)"
proof -
  let ?st0 = "\<lparr>line_number = 0, found_first = False, warnings = [], emitter_state = initial_emitter s0\<rparr>"
  have fold: "(\<exists>st. foldr_res (normalize_step J H sink never tid n) (lines_of bs) ?st0 = Inr st \<and> P st)
      \<longleftrightarrow> (\<exists>f outs ws em. normalize_scan J tid 0 False (lines_of bs) = Inr (f, outs, ws)
        \<and> foldr_res (emit_bytes H sink n) outs (initial_emitter s0) = Inr em
        \<and> P \<lparr>line_number = of_nat (length (lines_of bs)), found_first = f, warnings = ws, emitter_state = em\<rparr>)"
    (is "?L = ?R") for P
  proof
    assume ?L
    then obtain st where st: "foldr_res (normalize_step J H sink never tid n) (lines_of bs) ?st0 = Inr st" "P st"
      by blast
    then show ?R using normalize_fold_scan[of J H sink tid n "lines_of bs" ?st0 st] by (cases st) auto
  next
    assume ?R
    then obtain f outs ws em where *: "normalize_scan J tid 0 False (lines_of bs) = Inr (f, outs, ws)"
      "foldr_res (emit_bytes H sink n) outs (initial_emitter s0) = Inr em"
      "P \<lparr>line_number = of_nat (length (lines_of bs)), found_first = f, warnings = ws, emitter_state = em\<rparr>"
      by blast
    let ?fin = "\<lparr>line_number = of_nat (length (lines_of bs)), found_first = f, warnings = ws, emitter_state = em\<rparr>"
    have "foldr_res (normalize_step J H sink never tid n) (lines_of bs) ?st0 = Inr ?fin"
      using * by (simp add: normalize_fold_scan)
    with *(3) show ?L by blast
  qed
  have tail: "normalize_rollout_reader J H sink never bs tid n s0 = Inr (r, s) \<longleftrightarrow>
      \<not> blank tid \<and> n \<noteq> 0 \<and>
      (\<exists>st. foldr_res (normalize_step J H sink never tid n) (lines_of bs) ?st0 = Inr st
        \<and> found_first st \<and> (\<exists>em. flush_emitter H sink (emitter_state st) = Inr em
          \<and> rollout_result H (warnings st) em = r \<and> sink_state em = s))"
    unfolding normalize_rollout_reader_def flush_emitter_def rollout_result_def[symmetric]
      initial_emitter_def[symmetric]
    by (simp add: bindr_eq_Inr_iff never_def)
  show ?thesis unfolding tail fold emit_all_def by (auto simp: bindr_eq_Inr_iff)
qed

lemma materialize_reader_Inr_iff:
  "materialize_rollout_reader J collect_bytes never bs tid ctx s0 = Inr s \<longleftrightarrow>
   (\<exists>outs. materialize_scan J tid ctx False (lines_of bs) = Inr (True, outs) \<and> s = s0 @ concat outs)"
proof -
  let ?st0 = "\<lparr>poll_count = 0, meta_found = False, out_state = s0\<rparr>"
  have "(\<exists>st. foldr_res (materialize_step J collect_bytes never tid ctx) (lines_of bs) ?st0 = Inr st
          \<and> meta_found st \<and> out_state st = s)
      \<longleftrightarrow> (\<exists>outs. materialize_scan J tid ctx False (lines_of bs) = Inr (True, outs) \<and> s = s0 @ concat outs)"
    (is "?L = ?R")
  proof
    assume ?L
    then show ?R by (auto simp: materialize_fold_scan)
  next
    assume ?R
    then obtain outs where "materialize_scan J tid ctx False (lines_of bs) = Inr (True, outs)" "s = s0 @ concat outs"
      by blast
    then show ?L
      by (intro exI[of _ "\<lparr>poll_count = length (lines_of bs), meta_found = True, out_state = s\<rparr>"])
        (simp add: materialize_fold_scan)
  qed
  then show ?thesis
    by (auto simp: materialize_rollout_reader_def bindr_eq_Inr_iff never_def)
qed

lemma checked_sum_append:
  "checked_sum a (xs @ ys) = (case checked_sum a xs of None \<Rightarrow> None | Some b \<Rightarrow> checked_sum b ys)"
  by (induction xs arbitrary: a) (auto split: option.splits)

lemma emitted_append:
  assumes "emitted H sink st cs st1" "emitted H sink st1 ds st2"
  shows "emitted H sink st (cs @ ds) st2"
  using assms by (auto simp: emitted_def foldr_res_append checked_sum_append max_def split: if_splits)

lemma emit_fold_emitted:
  "foldr_res (emit_bytes H sink n) outs st = Inr st' \<Longrightarrow> 0 < n \<Longrightarrow> length (pending st) < n \<Longrightarrow>
   \<exists>cs. pending st @ concat outs = concat cs @ pending st' \<and> (\<forall>c \<in> set cs. length c = n)
     \<and> length (pending st') < n \<and> emitted H sink st cs st'"
proof (induction outs arbitrary: st)
  case Nil
  then show ?case by (intro exI[of _ "[]"]) (simp add: emitted_Nil)
next
  case (Cons out outs)
  then obtain st1 where st1: "emit_bytes H sink n out st = Inr st1"
      "foldr_res (emit_bytes H sink n) outs st1 = Inr st'"
    by (auto simp: bindr_eq_Inr_iff)
  from emit_bytes_emitted[OF st1(1) Cons.prems(2,3)] obtain cs where
    cs: "pending st @ out = concat cs @ pending st1" "\<forall>c \<in> set cs. length c = n"
      "length (pending st1) < n" "emitted H sink st cs st1" by blast
  from Cons.IH[OF st1(2) Cons.prems(2) cs(3)] obtain ds where
    ds: "pending st1 @ concat outs = concat ds @ pending st'" "\<forall>c \<in> set ds. length c = n"
      "length (pending st') < n" "emitted H sink st1 ds st'" by blast
  have "pending st @ concat (out # outs) = concat (cs @ ds) @ pending st'"
    using cs(1) ds(1) by (metis append_assoc concat.simps(2) concat_append)
  with cs ds emitted_append[OF cs(4) ds(4)] show ?case
    by (intro exI[of _ "cs @ ds"]) auto
qed

text \<open>The chunks of a successful run: they concatenate to the normalized text, all full but the last.\<close>

lemma emit_all_chunks:
  assumes "emit_all H sink n s0 outs = Inr em" and "0 < n"
  obtains cs where "concat outs = concat cs" "full_chunks n (map length cs)"
    "emitted_chunks em = map (describe_chunk H) cs" "hashed em = concat cs"
    "foldr_res sink cs s0 = Inr (sink_state em)" "length cs \<le> MAX_CHUNKS_PER_CONTENT_V4"
    "checked_sum 0 (map (\<lambda>c. of_nat (length c)) cs) = Some (emitted_total em)"
    "emitted_total em \<le> MAX_LOGICAL_CONTENT_BYTES_V4"
proof -
  from assms(1) obtain em1 where em1: "foldr_res (emit_bytes H sink n) outs (initial_emitter s0) = Inr em1"
    and fl: "flush_emitter H sink em1 = Inr em"
    by (auto simp: emit_all_def bindr_eq_Inr_iff)
  from fl have fin: "(if pending em1 \<noteq> [] then emit_chunk H sink (pending em1) em1 else Inr em1) = Inr em"
    and lim: "emitted_total em \<le> MAX_LOGICAL_CONTENT_BYTES_V4"
    by (auto simp: flush_emitter_def bindr_eq_Inr_iff not_less)
  from emit_fold_emitted[OF em1 assms(2)] assms(2) obtain cs where
    cs: "concat outs = concat cs @ pending em1" "\<forall>c \<in> set cs. length c = n"
      "length (pending em1) < n" "emitted H sink (initial_emitter s0) cs em1"
    by (auto simp: initial_emitter_def)
  have "\<exists>ds. concat outs = concat ds \<and> full_chunks n (map length ds) \<and> emitted H sink (initial_emitter s0) ds em"
  proof (cases "pending em1 = []")
    case True
    with cs fin assms(2) show ?thesis by (auto simp: list_all_iff intro!: exI[of _ cs] full_chunks_all)
  next
    case False
    then have e: "emit_chunk H sink (pending em1) em1 = Inr em" using fin by simp
    have "emitted H sink em [] em" by (simp add: emitted_Nil)
    from emitted_append[OF cs(4) emitted_Cons[OF e this]] cs False assms(2) show ?thesis
      by (auto simp: list_all_iff intro!: exI[of _ "cs @ [pending em1]"] full_chunks_snoc)
  qed
  then show thesis using that lim
    by (auto simp: emitted_def initial_emitter_def MAX_CHUNKS_PER_CONTENT_V4_def)
qed

lemma foldr_collect: "foldr_res collect_bytes cs out = Inr (out @ concat cs)"
  by (induction cs arbitrary: out) (simp_all add: collect_bytes_def)

lemma normalize_bytes_Inr:
  assumes "normalize_rollout_bytes J H bs tid = Inr r"
  obtains outs ws em where "\<not> blank tid" "normalize_scan J tid 0 False (lines_of bs) = Inr (True, outs, ws)"
    "emit_all H collect_bytes (unat CHUNK_SIZE_V4) [] outs = Inr em"
    "r = (rollout_result H ws em)\<lparr>nr_normalized_bytes := concat outs\<rparr>"
proof -
  from assms obtain r0 out where
    r0: "normalize_rollout_reader J H collect_bytes never bs tid (unat CHUNK_SIZE_V4) [] = Inr (r0, out)"
    and r: "r = r0\<lparr>nr_normalized_bytes := out\<rparr>"
    by (auto simp: normalize_rollout_bytes_def bindr_eq_Inr_iff)
  from r0 obtain outs ws em where *: "\<not> blank tid"
    "normalize_scan J tid 0 False (lines_of bs) = Inr (True, outs, ws)"
    "emit_all H collect_bytes (unat CHUNK_SIZE_V4) [] outs = Inr em"
    "r0 = rollout_result H ws em" "out = sink_state em"
    by (auto simp: normalize_reader_Inr_iff)
  have "0 < unat CHUNK_SIZE_V4" by (simp add: CHUNK_SIZE_V4_def)
  from emit_all_chunks[OF *(3) this] have "sink_state em = concat outs"
    by (metis Inr_inject append_Nil foldr_collect)
  with * r show thesis using that by simp
qed

lemma normalize_bytes_from_scan:
  assumes "\<not> blank tid" "normalize_scan J tid 0 False (lines_of bs) = Inr (True, outs, ws)"
    "emit_all H collect_bytes (unat CHUNK_SIZE_V4) [] outs = Inr em"
  shows "normalize_rollout_bytes J H bs tid = Inr ((rollout_result H ws em)\<lparr>nr_normalized_bytes := concat outs\<rparr>)"
proof -
  have n: "0 < unat CHUNK_SIZE_V4" by (simp add: CHUNK_SIZE_V4_def)
  from emit_all_chunks[OF assms(3) n] have "sink_state em = concat outs"
    by (metis Inr_inject append_Nil foldr_collect)
  moreover have "normalize_rollout_reader J H collect_bytes never bs tid (unat CHUNK_SIZE_V4) []
      = Inr (rollout_result H ws em, sink_state em)"
    using assms n by (auto simp: normalize_reader_Inr_iff)
  ultimately show ?thesis by (simp add: normalize_rollout_bytes_def)
qed

section \<open>Neutrality of one record\<close>

text \<open>
  What the round trip needs of serde\_json on the values at hand: their canonical text is one
  line and parses back to them. (It fails for a value with a floating-point member that the
  parser does not read back exactly, so it is a condition on the rollout.)
\<close>

definition reprints :: "json_lib \<Rightarrow> json \<Rightarrow> bool" where
  "reprints J v \<longleftrightarrow> parse_value J (write_canonical_json_v4 J v) = Some v
     \<and> nl \<notin> set (write_canonical_json_v4 J v)
     \<and> \<not> MAX_METADATA_LINE_BYTES_V4 < length (write_canonical_json_v4 J v) + 2"

definition faithful_meta :: "json_lib \<Rightarrow> machine_context_v4 \<Rightarrow> json \<Rightarrow> (string \<times> json) list \<Rightarrow> bool \<Rightarrow> bool" where
  "faithful_meta J ctx v p found \<longleftrightarrow> bt_ok p
     \<and> reprints J (set_payload v (neutral_payload found p))
     \<and> reprints J (set_payload v (local_payload ctx found (neutral_payload found p)))"

definition faithful_line :: "json_lib \<Rightarrow> machine_context_v4 \<Rightarrow> bytes \<Rightarrow> bool" where
  "faithful_line J ctx l \<longleftrightarrow>
     (case parse_value J (fst (split_line_ending l)) of
          None \<Rightarrow> True
        | Some v \<Rightarrow> is_session_meta v \<longrightarrow>
            (case payload_of v of
               None \<Rightarrow> True
             | Some p \<Rightarrow> \<not> MAX_METADATA_LINE_BYTES_V4 < length l
                 \<and> faithful_meta J ctx v p True \<and> faithful_meta J ctx v p False))"

lemma bt_insert_overwrite: "bt_insert k a (bt_insert k b m) = bt_insert k a m"
  by (induction m) auto

lemma set_payload_overwrite: "set_payload (set_payload v p) q = set_payload v q"
  by (cases v) (simp_all add: bt_insert_overwrite)

lemma neutral_payload_ok: "bt_ok p \<Longrightarrow> bt_ok (neutral_payload found p)"
  by (simp add: neutral_payload_def)

lemma local_payload_ok: "bt_ok p \<Longrightarrow> bt_ok (local_payload ctx found p)"
  by (simp add: local_payload_def split: option.splits)

lemma neutral_local_neutral:
  assumes "bt_ok p"
  shows "neutral_payload found (local_payload ctx found (neutral_payload found p)) = neutral_payload found p"
proof (rule bt_ext)
  fix k
  show "bt_get (neutral_payload found (local_payload ctx found (neutral_payload found p))) k
      = bt_get (neutral_payload found p) k"
    by (cases "workspace_path ctx") (simp_all add: neutral_payload_def local_payload_def bt_get_insert)
qed (simp_all add: assms neutral_payload_ok local_payload_ok)

lemma payload_of_object: "payload_of v = Some p \<Longrightarrow> \<exists>m. v = JObject m"
  by (cases v) (auto simp: payload_of_def)

lemma set_payload_props:
  assumes "payload_of v = Some p"
  shows "payload_of (set_payload v q) = Some q" "is_session_meta (set_payload v q) = is_session_meta v"
  using payload_of_object[OF assms]
  by (auto simp: payload_of_def is_session_meta_def bt_get_insert)

lemma payload_id_stable:
  "get_str (neutral_payload found p) ''id'' = get_str p ''id''"
  "get_str (local_payload ctx found p) ''id'' = get_str p ''id''"
  by (simp_all add: get_str_def neutral_payload_def local_payload_def bt_get_insert split: option.splits)

lemma canonical_line_split:
  assumes "payload_of v = Some p" "reprints J (set_payload v q)" "e \<in> {[cr, nl], [nl], []}"
  shows "split_line_ending (write_canonical_json_v4 J (set_payload v q) @ e)
           = (write_canonical_json_v4 J (set_payload v q), e)"
    and "terminated (write_canonical_json_v4 J (set_payload v q) @ e) \<longleftrightarrow> e \<noteq> []"
    and "write_canonical_json_v4 J (set_payload v q) \<noteq> []"
    and "length (write_canonical_json_v4 J (set_payload v q) @ e) \<le> MAX_METADATA_LINE_BYTES_V4"
proof -
  from payload_of_object[OF assms(1)] obtain m where "set_payload v q = JObject m" by auto
  with canonical_object_shape[of J m] obtain s where
    s: "write_canonical_json_v4 J (set_payload v q) = ''{'' @ s @ ''}''" by metis
  have n: "nl \<notin> set (write_canonical_json_v4 J (set_payload v q))"
    and len: "length (write_canonical_json_v4 J (set_payload v q)) + 2 \<le> MAX_METADATA_LINE_BYTES_V4"
    using assms(2) unfolding reprints_def by simp_all
  have "last (''{'' @ s @ ''}'') \<noteq> cr" by (simp add: cr_def char_of_def)
  then show "split_line_ending (write_canonical_json_v4 J (set_payload v q) @ e)
           = (write_canonical_json_v4 J (set_payload v q), e)"
    using split_line_ending_rebuild[OF n _ _ assms(3)] s by simp
  show "terminated (write_canonical_json_v4 J (set_payload v q) @ e) \<longleftrightarrow> e \<noteq> []"
    using terminated_rebuild[OF assms(3) n] .
  show "write_canonical_json_v4 J (set_payload v q) \<noteq> []" using s by simp
  show "length (write_canonical_json_v4 J (set_payload v q) @ e) \<le> MAX_METADATA_LINE_BYTES_V4"
    using len assms(3) by auto
qed

text \<open>One record: normalize, materialize, normalize again, and the line keeps its shape.\<close>

lemma record_round_trip:
  assumes norm: "normalize_record J tid n found l = Inr (found', out, w)" and "faithful_line J ctx l"
  shows "\<exists>m. materialize_record J tid ctx found out = Inr (found', m)
    \<and> normalize_record J tid n found m = Inr (found', out, w)
    \<and> (terminated l \<longrightarrow> terminated out \<and> terminated m)
    \<and> (l \<noteq> [] \<and> nl \<notin> set l \<longrightarrow> out \<noteq> [] \<and> nl \<notin> set out \<and> m \<noteq> [] \<and> nl \<notin> set m)"
proof -
  obtain body e where be: "split_line_ending l = (body, e)" by (cases "split_line_ending l")
  have e: "e \<in> {[cr, nl], [nl], []}" using split_line_ending_cases[of l] be by simp
  show ?thesis
  proof (cases "\<exists>v p. parse_value J body = Some v \<and> is_session_meta v \<and> payload_of v = Some p")
    case True
    then obtain v p where v: "parse_value J body = Some v" "is_session_meta v" "payload_of v = Some p" by blast
    from assms(2) v be have f: "faithful_meta J ctx v p found"
      by (cases found) (auto simp: faithful_line_def)
    have len: "\<not> length l > MAX_METADATA_LINE_BYTES_V4" using assms(2) v be by (simp add: faithful_line_def)
    let ?np = "neutral_payload found p"
    let ?lp = "local_payload ctx found ?np"
    have rn: "reprints J (set_payload v ?np)" and rl: "reprints J (set_payload v ?lp)" and ok: "bt_ok p"
      using f by (simp_all add: faithful_meta_def)
    have idok: "\<not> (\<not> found \<and> get_str p ''id'' \<noteq> Some tid)" and found': "found'" and w: "w = []"
      and out: "out = write_canonical_json_v4 J (set_payload v ?np) @ e"
      using norm be v len by (auto simp: normalize_record_def split: if_splits)
    define m where "m = write_canonical_json_v4 J (set_payload v ?lp) @ e"
    note sn = canonical_line_split[OF v(3) rn e, folded out] and sl = canonical_line_split[OF v(3) rl e, folded m_def]
    have parse: "parse_value J (write_canonical_json_v4 J (set_payload v ?np)) = Some (set_payload v ?np)"
      "parse_value J (write_canonical_json_v4 J (set_payload v ?lp)) = Some (set_payload v ?lp)"
      using rn rl unfolding reprints_def by blast+
    have "materialize_record J tid ctx found out = Inr (found', m)"
      using idok found' v(2)
      by (simp add: materialize_record_def sn(1) parse set_payload_props[OF v(3)] payload_id_stable
          set_payload_overwrite m_def)
    moreover have "normalize_record J tid n found m = Inr (found', out, w)"
      using idok found' v(2) sl(4) w
      by (simp add: normalize_record_def sl(1) parse set_payload_props[OF v(3)] payload_id_stable
          set_payload_overwrite neutral_local_neutral[OF ok] out not_less)
    moreover have "terminated l \<Longrightarrow> terminated out \<and> terminated m"
      using terminated_ending[of l] be sn(2) sl(2) by simp
    moreover have "l \<noteq> [] \<Longrightarrow> nl \<notin> set l \<Longrightarrow> out \<noteq> [] \<and> nl \<notin> set out \<and> m \<noteq> [] \<and> nl \<notin> set m"
    proof -
      assume "l \<noteq> []" "nl \<notin> set l"
      then have "nl \<notin> set e" using split_line_append[of l] be by (metis UnCI set_append snd_conv)
      then show ?thesis using e sn(3) sl(3) rn rl by (auto simp: out m_def reprints_def)
    qed
    ultimately show ?thesis by blast
  next
    case False
    then have pass: "out = l" "materialize_record J tid ctx found l = Inr (found', l)"
      using norm be
      by (auto simp: normalize_record_def materialize_record_def split: option.splits if_splits)
    with norm show ?thesis by auto
  qed
qed

lemma normalize_scan_length:
  "normalize_scan J tid n found ls = Inr (found', outs, ws) \<Longrightarrow> length outs = length ls"
  by (induction ls arbitrary: n found outs ws) (auto simp: bindr_eq_Inr_iff)

lemma scan_round_trip:
  assumes "normalize_scan J tid n found ls = Inr (found', outs, ws)" "list_all (faithful_line J ctx) ls" "line_list ls"
  shows "\<exists>ms. materialize_scan J tid ctx found outs = Inr (found', ms)
    \<and> normalize_scan J tid n found ms = Inr (found', outs, ws) \<and> line_list outs \<and> line_list ms \<and> length ms = length ls"
  using assms
proof (induction ls arbitrary: n found outs ws)
  case Nil
  then show ?case by simp
next
  case (Cons l ls)
  then obtain f out w outs' ws' where r: "normalize_record J tid (n + 1) found l = Inr (f, out, w)"
      "normalize_scan J tid (n + 1) f ls = Inr (found', outs', ws')" "outs = out # outs'" "ws = w @ ws'"
    by (auto simp: bindr_eq_Inr_iff)
  from record_round_trip[OF r(1)] Cons.prems(2) obtain m where
    m: "materialize_record J tid ctx found out = Inr (f, m)"
      "normalize_record J tid (n + 1) found m = Inr (f, out, w)"
      "terminated l \<Longrightarrow> terminated out \<and> terminated m"
      "l \<noteq> [] \<Longrightarrow> nl \<notin> set l \<Longrightarrow> out \<noteq> [] \<and> nl \<notin> set out \<and> m \<noteq> [] \<and> nl \<notin> set m"
    by auto
  have "line_list ls" using Cons.prems(3) by (auto simp: line_list_Cons)
  with Cons.IH[OF r(2)] Cons.prems(2) obtain ms where
    ms: "materialize_scan J tid ctx f outs' = Inr (found', ms)"
      "normalize_scan J tid (n + 1) f ms = Inr (found', outs', ws')" "line_list outs'" "line_list ms"
      "length ms = length ls" by auto
  have "length outs' = length ls" using r(2) by (rule normalize_scan_length)
  with Cons.prems(3) m(3,4) ms(3-5) have "line_list (out # outs')" "line_list (m # ms)"
    by (auto simp: line_list_Cons)
  with r m(1,2) ms show ?case by (intro exI[of _ "m # ms"]) simp
qed

section \<open>Properties\<close>

text \<open>
  C5: normalization is machine-neutral for rollouts with ordinary session\_meta records. If a rollout
  normalizes and every session\_meta line with an object as payload is at most as long as the metadata
  limit (16 MiB) and rewrites faithfully (serde\_json reads the normalized and the materialized record
  back as it was written, on one line within the limit), then the normalized bytes materialize for a
  machine with a valid provider, and normalizing that machine's file gives the same normalized
  rollout: same bytes, hash, chunks and warnings. Nothing is asked of the other lines, which may be
  longer than the limit or no JSON. Without the limit on session\_meta lines the claim is false:
  \<open>oversized_meta_not_neutral\<close>.
\<close>
theorem normalization_machine_neutral:
  assumes "normalize_rollout_bytes J H x tid = Inr r"
    and "list_all (faithful_line J ctx) (lines_of x)"
    and "is_ok (validate_provider_id_v4 (configured_provider ctx))"
  shows "\<exists>m. materialize_rollout_bytes J (nr_normalized_bytes r) tid ctx = Inr m
    \<and> normalize_rollout_bytes J H m tid = Inr r"
proof -
  from normalize_bytes_Inr[OF assms(1)] obtain outs ws em where n: "\<not> blank tid"
    "normalize_scan J tid 0 False (lines_of x) = Inr (True, outs, ws)"
    "emit_all H collect_bytes (unat CHUNK_SIZE_V4) [] outs = Inr em"
    "r = (rollout_result H ws em)\<lparr>nr_normalized_bytes := concat outs\<rparr>" .
  from scan_round_trip[OF n(2) assms(2) line_list_lines_of] obtain ms where
    m: "materialize_scan J tid ctx False outs = Inr (True, ms)"
      "normalize_scan J tid 0 False ms = Inr (True, outs, ws)" "line_list outs" "line_list ms" by blast
  have "materialize_rollout_bytes J (concat outs) tid ctx = Inr (concat ms)"
    using assms(3) m(1) lines_of_concat[OF m(3)]
    by (auto simp: materialize_rollout_bytes_def is_ok_iff materialize_reader_Inr_iff)
  moreover have "normalize_rollout_bytes J H (concat ms) tid = Inr r"
    using normalize_bytes_from_scan[of tid J "concat ms" outs ws H em] n m lines_of_concat[OF m(4)] by simp
  ultimately show ?thesis using n(4) by auto
qed

definition toy_quote :: "string \<Rightarrow> string" where
  "toy_quote s = quote_char # s @ [quote_char]"

definition toy_meta :: json where
  "toy_meta = JObject [(''payload'', JObject [(''cwd'', JString ''/a''), (''id'', JString ''t'')]),
     (''type'', JString ''session_meta'')]"

definition toy_context :: machine_context_v4 where
  "toy_context = \<lparr>configured_provider = ''local'', workspace_path = Some ''/b'', target_codex_home = []\<rparr>"

definition toy_payload :: "(string \<times> json) list" where
  "toy_payload = [(''cwd'', JString ''/a''), (''id'', JString ''t'')]"

definition toy_text :: json_lib where
  "toy_text = \<lparr>number_text = \<lambda>_. ''0'', string_text = toy_quote, parse_value = \<lambda>_. None\<rparr>"

definition toy_values :: "json list" where
  "toy_values = concat (map (\<lambda>f. map (set_payload toy_meta)
     [neutral_payload f toy_payload, local_payload toy_context f (neutral_payload f toy_payload)]) [True, False])"

definition toy_lib :: json_lib where
  "toy_lib = toy_text\<lparr>parse_value :=
     map_of ((''A'', toy_meta) # map (\<lambda>v. (write_canonical_json_v4 toy_text v, v)) toy_values)\<rparr>"

definition toy_hash :: "bytes \<Rightarrow> string" where
  "toy_hash bs = replicate 64 (CHR ''0'')"

definition toy_rollout :: bytes where
  "toy_rollout = ''A'' @ [nl] @ ''not json'' @ [cr, nl]"

lemma toy_runs: "is_ok (normalize_rollout_bytes toy_lib toy_hash toy_rollout ''t'')"
  by code_simp

theorem normalization_machine_neutral_witness:
  "\<exists>r m. normalize_rollout_bytes toy_lib toy_hash toy_rollout ''t'' = Inr r
     \<and> materialize_rollout_bytes toy_lib (nr_normalized_bytes r) ''t'' toy_context = Inr m
     \<and> normalize_rollout_bytes toy_lib toy_hash m ''t'' = Inr r"
proof -
  from toy_runs obtain r where r: "normalize_rollout_bytes toy_lib toy_hash toy_rollout ''t'' = Inr r"
    by (auto simp: is_ok_iff)
  have "list_all (faithful_line toy_lib toy_context) (lines_of toy_rollout)" by code_simp
  moreover have "is_ok (validate_provider_id_v4 (configured_provider toy_context))" by code_simp
  ultimately show ?thesis using normalization_machine_neutral[OF r] r by blast
qed

text \<open>
  the chunks of a normalized rollout are the normalized bytes. Their contents concatenate to
  them in order, every chunk but the last has exactly the chunk size, the last is not empty, the
  descriptors carry each chunk's digest, and the logical hash is the digest of the whole.
\<close>
theorem normalized_chunks_reassemble:
  assumes "normalize_rollout_bytes J H x tid = Inr r"
  shows "\<exists>cs. concat cs = nr_normalized_bytes r
    \<and> full_chunks (unat CHUNK_SIZE_V4) (map length cs)
    \<and> nr_chunks r = map (describe_chunk H) cs
    \<and> length cs \<le> MAX_CHUNKS_PER_CONTENT_V4
    \<and> nr_logical_sha256 r = digest_bytes_v4 H (nr_normalized_bytes r)
    \<and> unat (nr_byte_length r) = length (nr_normalized_bytes r)"
proof -
  from normalize_bytes_Inr[OF assms] obtain outs ws em where
    e: "emit_all H collect_bytes (unat CHUNK_SIZE_V4) [] outs = Inr em"
    and r: "r = (rollout_result H ws em)\<lparr>nr_normalized_bytes := concat outs\<rparr>" by blast
  have "0 < unat CHUNK_SIZE_V4" by (simp add: CHUNK_SIZE_V4_def)
  from emit_all_chunks[OF e this] obtain cs where
    cs: "concat outs = concat cs" "full_chunks (unat CHUNK_SIZE_V4) (map length cs)"
      "emitted_chunks em = map (describe_chunk H) cs" "hashed em = concat cs"
      "length cs \<le> MAX_CHUNKS_PER_CONTENT_V4"
      "checked_sum 0 (map (\<lambda>c. of_nat (length c)) cs) = Some (emitted_total em)" by blast
  have "unat (of_nat (length c) :: u64) = length c" if "c \<in> set cs" for c
    using full_chunks_pos[OF \<open>0 < unat CHUNK_SIZE_V4\<close> cs(2), of "length c"] that
    by (intro unat_of_nat_u64) (auto simp: CHUNK_SIZE_V4_def)
  then have lens: "map unat (map (\<lambda>c. of_nat (length c) :: u64) cs) = map length cs" by simp
  then have "unat (emitted_total em) = length (concat cs)"
    using checked_sum_unat[OF cs(6)] unfolding lens by (simp add: length_concat)
  with cs r show ?thesis
    by (intro exI[of _ cs]) (simp add: rollout_result_def digest_bytes_v4_def)
qed

theorem normalized_chunks_reassemble_witness:
  "\<exists>r cs. normalize_rollout_bytes toy_lib toy_hash toy_rollout ''t'' = Inr r
     \<and> concat cs = nr_normalized_bytes r \<and> nr_chunks r = map (describe_chunk toy_hash) cs"
proof -
  from toy_runs obtain r where r: "normalize_rollout_bytes toy_lib toy_hash toy_rollout ''t'' = Inr r"
    by (auto simp: is_ok_iff)
  from normalized_chunks_reassemble[OF r] r show ?thesis by blast
qed

text \<open>
  a session\_meta record whose line is longer than the metadata limit is not neutralized,
  although materialization rewrites it: past the first record the normalizer keeps such a line as
  it is, so the machine's provider stays in the content that is hashed and uploaded, while the
  materializer, which has no such limit, replaces it by the local provider.
\<close>
theorem oversized_meta_not_neutral:
  assumes "MAX_METADATA_LINE_BYTES_V4 < length l"
    and "parse_value J (fst (split_line_ending l)) = Some v"
    and "is_session_meta v" and "payload_of v = Some p"
  shows "(\<exists>w. normalize_record J tid n True l = Inr (True, l, w))
    \<and> materialize_record J tid ctx True l = Inr (True,
      write_canonical_json_v4 J
        (set_payload v (bt_insert ''model_provider'' (JString (configured_provider ctx)) p))
      @ snd (split_line_ending l))"
  using assms by (auto simp: normalize_record_def materialize_record_def local_payload_def
      split: prod.splits)

definition long_line :: bytes where
  "long_line = replicate 16777217 (CHR ''x'')"

theorem oversized_meta_not_neutral_witness:
  "\<exists>w. normalize_record (toy_text\<lparr>parse_value := \<lambda>_. Some toy_meta\<rparr>) ''t'' 2 True long_line
     = Inr (True, long_line, w)"
proof -
  have "MAX_METADATA_LINE_BYTES_V4 < length long_line"
    by (simp add: long_line_def MAX_METADATA_LINE_BYTES_V4_def)
  moreover have "is_session_meta toy_meta" by code_simp
  moreover have "payload_of toy_meta = Some toy_payload" by code_simp
  ultimately show ?thesis
    using oversized_meta_not_neutral[of long_line "toy_text\<lparr>parse_value := \<lambda>_. Some toy_meta\<rparr>" toy_meta toy_payload "''t''" 2]
    by simp
qed

end
