(* ===== verification/ContentStore.thy ===== *)
theory ContentStore
  imports Cas Neutrality
begin

text \<open>
  \<open>FilesystemContentStoreV4\<close> of storage\_v4.rs. The world is the files under their paths and a
  counter of operating-system decisions; \<open>os\<close> answers them: the name of a fresh temporary file
  and the outcome of a rename, which another writer of the same object may win. Structured
  objects are stored as their canonical text; the derived serializers are the explicit
  \<open>..._json\<close> functions, the derived parsers a parameter.
\<close>

datatype rename_outcome = Renamed | Rename_raced bytes | Rename_failed string

record os =
  fresh_name :: "nat \<Rightarrow> string"
  rename_result :: "nat \<Rightarrow> rename_outcome"

record world =
  files :: "path \<Rightarrow> bytes option"
  ticks :: nat

record content_store_v4 =
  store_root :: path
  store_chunk_size :: u32

datatype storage_ref_v4 = WholeRef string | ChunkedRef string

record content_ref_v4 =
  logical_sha256 :: string
  content_byte_length :: u64
  storage :: storage_ref_v4
  media_type :: string
  logical_path :: "string option"

definition with_chunk_size :: "path \<Rightarrow> u32 \<Rightarrow> string + content_store_v4" where
  "with_chunk_size root chunk_size =
     bindr (ensure (\<not> (chunk_size = 0 \<or> (ucast chunk_size :: u64) > ucast CHUNK_SIZE_V4))
              ''v4 chunk size must be between 1 and 4194304'') (\<lambda>_.
       Inr \<lparr>store_root = root, store_chunk_size = chunk_size\<rparr>)"

section \<open>Installing and reading objects\<close>

definition temporary_path :: "path \<Rightarrow> string \<Rightarrow> path" where
  "temporary_path root name = root @ [''objects'', ''tmp'', name @ ''.tmp'']"

definition install_bytes ::
  "(bytes \<Rightarrow> string) \<Rightarrow> os \<Rightarrow> content_store_v4 \<Rightarrow> storage_object_ref_v4 \<Rightarrow> bytes \<Rightarrow> world \<Rightarrow>
     string + (storage_object_ref_v4 \<times> world)" where
  "install_bytes H os st obj bs w =
     bindr (validate_sha256_v4 (ref_sha256 obj)) (\<lambda>_.
     bindr (ensure (of_nat (length bs) = ref_byte_length obj)
              ''object length does not match declaration'') (\<lambda>_.
     bindr (ensure (\<not> (of_nat (length bs) > max_bytes (ref_kind obj)))
              ''object exceeds kind size limit'') (\<lambda>_.
     bindr (ensure (digest_bytes_v4 H bs = ref_sha256 obj)
              ''object hash does not match declaration'') (\<lambda>_.
     bindr (typed_object_path_v4 (store_root st) (ref_kind obj) (ref_sha256 obj)) (\<lambda>path.
       case files w path of
         Some existing \<Rightarrow>
           if existing \<noteq> bs then Inl ''immutable object hash collision or corruption''
           else Inr (obj, w)
       | None \<Rightarrow>
           let temporary = temporary_path (store_root st) (fresh_name os (ticks w));
               written = (files w)(temporary \<mapsto> bs)
           in case rename_result os (ticks w) of
                Renamed \<Rightarrow>
                  Inr (obj, \<lparr>files = written(temporary := None, path \<mapsto> bs), ticks = Suc (ticks w)\<rparr>)
              | Rename_raced existing \<Rightarrow>
                  if existing \<noteq> bs then Inl ''rename failed''
                  else Inr (obj, \<lparr>files = written(temporary := None, path \<mapsto> existing),
                                  ticks = Suc (ticks w)\<rparr>)
              | Rename_failed e \<Rightarrow> Inl e)))))"

definition install_kind ::
  "(bytes \<Rightarrow> string) \<Rightarrow> os \<Rightarrow> content_store_v4 \<Rightarrow> storage_object_kind_v4 \<Rightarrow> bytes \<Rightarrow> world \<Rightarrow> string + world" where
  "install_kind H os st kind bs w =
     bindr (install_bytes H os st
        \<lparr>ref_kind = kind, ref_sha256 = digest_bytes_v4 H bs, ref_byte_length = of_nat (length bs)\<rparr> bs w)
       (\<lambda>(_, w'). Inr w')"

definition store_json ::
  "json_lib \<Rightarrow> (bytes \<Rightarrow> string) \<Rightarrow> os \<Rightarrow> content_store_v4 \<Rightarrow> storage_object_kind_v4 \<Rightarrow> json \<Rightarrow> world \<Rightarrow>
     string + (storage_object_ref_v4 \<times> world)" where
  "store_json J H os st kind value w =
     (let bs = write_canonical_json_v4 J value in
     bindr (ensure (\<not> (of_nat (length bs) > max_bytes kind))
              (wire_name kind @ '' object exceeds size limit'')) (\<lambda>_.
       install_bytes H os st
         \<lparr>ref_kind = kind, ref_sha256 = digest_bytes_v4 H bs, ref_byte_length = of_nat (length bs)\<rparr> bs w))"

definition read_file :: "world \<Rightarrow> path \<Rightarrow> string + bytes" where
  "read_file w path = ok_or ''No such file or directory'' (files w path)"

definition read_json ::
  "(bytes \<Rightarrow> 'a option) \<Rightarrow> (bytes \<Rightarrow> string) \<Rightarrow> content_store_v4 \<Rightarrow> storage_object_kind_v4 \<Rightarrow> string \<Rightarrow>
     world \<Rightarrow> string + 'a" where
  "read_json decode H st kind sha256 w =
     bindr (typed_object_path_v4 (store_root st) kind sha256) (\<lambda>path.
     bindr (read_file w path) (\<lambda>bs.
     bindr (ensure (\<not> (of_nat (length bs) > max_bytes kind))
              (wire_name kind @ '' object exceeds size limit'')) (\<lambda>_.
     bindr (ensure (digest_bytes_v4 H bs = sha256) (wire_name kind @ '' object hash mismatch'')) (\<lambda>_.
       ok_or ''invalid JSON'' (decode bs)))))"

definition object_at :: "content_store_v4 \<Rightarrow> world \<Rightarrow> storage_object_kind_v4 \<Rightarrow> string \<Rightarrow> bytes option" where
  "object_at st w kind sha256 =
     (case typed_object_path_v4 (store_root st) kind sha256 of
        Inl _ \<Rightarrow> None
      | Inr path \<Rightarrow> files w path)"

lemma temporary_not_object:
  "typed_object_path_v4 root kind s = Inr p \<Longrightarrow> p \<noteq> temporary_path root name"
  by (auto simp: typed_object_path_v4_def temporary_path_def bindr_eq_Inr_iff Let_def)

lemma install_bytes_files:
  assumes "install_bytes H os st obj bs w = Inr (obj', w')"
  obtains path where "obj' = obj"
    "typed_object_path_v4 (store_root st) (ref_kind obj) (ref_sha256 obj) = Inr path"
    "digest_bytes_v4 H bs = ref_sha256 obj" "files w' path = Some bs"
    "files w path = None \<or> files w path = Some bs"
    "\<And>q. q \<noteq> path \<Longrightarrow> (\<forall>name. q \<noteq> temporary_path (store_root st) name) \<Longrightarrow> files w' q = files w q"
proof -
  from assms obtain path where p: "typed_object_path_v4 (store_root st) (ref_kind obj) (ref_sha256 obj) = Inr path"
    and d: "digest_bytes_v4 H bs = ref_sha256 obj"
    and g: "validate_sha256_v4 (ref_sha256 obj) = Inr ()" "of_nat (length bs) = ref_byte_length obj"
      "\<not> of_nat (length bs) > max_bytes (ref_kind obj)"
    by (auto simp: install_bytes_def bindr_eq_Inr_iff)
  let ?tmp = "temporary_path (store_root st) (fresh_name os (ticks w))"
  have t: "path \<noteq> ?tmp" using temporary_not_object[OF p] .
  have run: "(case files w path of
      Some existing \<Rightarrow> if existing \<noteq> bs then Inl ''immutable object hash collision or corruption'' else Inr (obj, w)
    | None \<Rightarrow> (case rename_result os (ticks w) of
        Renamed \<Rightarrow> Inr (obj, \<lparr>files = (files w)(?tmp \<mapsto> bs, ?tmp := None, path \<mapsto> bs), ticks = Suc (ticks w)\<rparr>)
      | Rename_raced existing \<Rightarrow> if existing \<noteq> bs then Inl ''rename failed''
          else Inr (obj, \<lparr>files = (files w)(?tmp \<mapsto> bs, ?tmp := None, path \<mapsto> existing), ticks = Suc (ticks w)\<rparr>)
      | Rename_failed e \<Rightarrow> Inl e)) = Inr (obj', w')"
    using assms unfolding install_bytes_def Let_def p d g(1,2) bindr_simps
    by (simp only: g(3)[unfolded g(2)] not_False_eq_True simp_thms ensure_bool bindr_simps)
  show thesis
  proof (cases "files w path")
    case (Some existing)
    with run have "existing = bs" "obj' = obj" "w' = w" by (auto split: if_splits)
    with Some p d show thesis by (intro that[of path]) simp_all
  next
    case None
    with run obtain b where "b = bs" "obj' = obj"
      "w' = \<lparr>files = (files w)(?tmp \<mapsto> bs, ?tmp := None, path \<mapsto> b), ticks = Suc (ticks w)\<rparr>"
      by (auto split: rename_outcome.splits if_splits)
    with None p d show thesis by (intro that[of path]) simp_all
  qed
qed

lemma object_at_install:
  assumes "install_bytes H os st obj bs w = Inr (obj', w')"
  shows "object_at st w' k h =
    (if k = ref_kind obj \<and> h = ref_sha256 obj then Some bs else object_at st w k h)"
proof -
  from install_bytes_files[OF assms] obtain path where
    p: "typed_object_path_v4 (store_root st) (ref_kind obj) (ref_sha256 obj) = Inr path"
      "files w' path = Some bs"
      "\<And>q. q \<noteq> path \<Longrightarrow> (\<forall>name. q \<noteq> temporary_path (store_root st) name) \<Longrightarrow> files w' q = files w q"
    by metis
  show ?thesis
  proof (cases "typed_object_path_v4 (store_root st) k h")
    case (Inl e)
    with p(1) show ?thesis by (auto simp: object_at_def)
  next
    case (Inr q)
    have "q = path \<longleftrightarrow> k = ref_kind obj \<and> h = ref_sha256 obj"
      using typed_object_path_inject[of "store_root st" k h path "ref_kind obj" "ref_sha256 obj"] Inr p(1)
      by (metis Inr_inject)
    with Inr p(2,3) temporary_not_object[OF Inr] show ?thesis
      by (auto simp: object_at_def)
  qed
qed

lemma install_keeps_content:
  assumes "install_bytes H os st obj bs w = Inr (obj', w')" and "object_at st w k h = Some b"
  shows "object_at st w' k h = Some b"
proof -
  from install_bytes_files[OF assms(1)] obtain path where
    p: "typed_object_path_v4 (store_root st) (ref_kind obj) (ref_sha256 obj) = Inr path"
      "files w path = None \<or> files w path = Some bs" by metis
  with assms(2) object_at_install[OF assms(1)] show ?thesis
    by (auto simp: object_at_def)
qed

interpretation local_cas: content_addressed "digest_bytes_v4 H" "install_kind H os st" "object_at st"
  for H :: "bytes \<Rightarrow> string" and os :: os and st :: content_store_v4
proof unfold_locales
  fix k b s s'
  assume "install_kind H os st k b s = Inr s'"
  then obtain r where r: "install_bytes H os st \<lparr>ref_kind = k, ref_sha256 = digest_bytes_v4 H b,
      ref_byte_length = of_nat (length b)\<rparr> b s = Inr (r, s')"
    by (auto simp: install_kind_def bindr_eq_Inr_iff)
  show "object_at st s' k (digest_bytes_v4 H b) = Some b"
    by (simp add: object_at_install[OF r])
  show "object_at st s' k' h = Some b'" if "object_at st s k' h = Some b'" for k' h b'
    using install_keeps_content[OF r that] .
  show "object_at st s k' h = Some b' \<or> (k' = k \<and> h = digest_bytes_v4 H b \<and> b' = b)"
    if "object_at st s' k' h = Some b'" for k' h b'
    using that by (auto simp: object_at_install[OF r] split: if_splits)
qed

end
