(* ===== verification/ContentOps.thy ===== *)
theory ContentOps
  imports ContentStore
begin

text \<open>
  Contents in \<open>FilesystemContentStoreV4\<close>: ingesting a stream or a rollout into chunks and a
  manifest, materializing and validating a content, and listing its objects. A source that is
  read with a fixed buffer is the list of byte strings the successive \<open>read\<close> calls return
  (short reads included); \<open>decode\<close> is the derived parser of \<open>ChunkManifestV4\<close>.
\<close>

type_synonym manifest_parser = "bytes \<Rightarrow> chunk_manifest_v4 option"

definition json_u64 :: "u64 \<Rightarrow> json" where
  "json_u64 n = JNumber (PosInt n)"

definition chunk_descriptor_json :: "chunk_descriptor_v4 \<Rightarrow> json" where
  "chunk_descriptor_json c = JObject (bt_of_list
     [(''sha256'', JString (chunk_sha256 c)), (''byteLength'', json_u64 (chunk_byte_length c))])"

definition chunk_manifest_json :: "chunk_manifest_v4 \<Rightarrow> json" where
  "chunk_manifest_json m = JObject (bt_of_list
     [(''schemaVersion'', json_u64 (ucast (cm_schema_version m))),
      (''logicalSha256'', JString (cm_logical_sha256 m)),
      (''byteLength'', json_u64 (cm_byte_length m)),
      (''chunkSize'', json_u64 (ucast (cm_chunk_size m))),
      (''chunks'', JArray (map chunk_descriptor_json (cm_chunks m)))])"

section \<open>Ingestion\<close>

definition normalize_and_ingest_rollout ::
  "json_lib \<Rightarrow> (bytes \<Rightarrow> string) \<Rightarrow> os \<Rightarrow> (nat \<Rightarrow> bool) \<Rightarrow> content_store_v4 \<Rightarrow> bytes \<Rightarrow> string \<Rightarrow> string \<Rightarrow>
     string option \<Rightarrow> world \<Rightarrow> string + ((content_ref_v4 \<times> normalization_warning_v4 list) \<times> world)" where
  "normalize_and_ingest_rollout J H os cancelled st source thread_id media logical w =
     bindr (normalize_rollout_reader J H (install_kind H os st Chunk) cancelled source thread_id
              (unat (store_chunk_size st)) w) (\<lambda>(result, w1).
     let manifest = \<lparr>cm_schema_version = 4, cm_logical_sha256 = nr_logical_sha256 result,
           cm_byte_length = nr_byte_length result, cm_chunk_size = store_chunk_size st,
           cm_chunks = nr_chunks result\<rparr> in
     bindr (store_json J H os st ChunkManifest (chunk_manifest_json manifest) w1) (\<lambda>(manifest_ref, w2).
       Inr ((\<lparr>logical_sha256 = nr_logical_sha256 result, content_byte_length = nr_byte_length result,
              storage = ChunkedRef (ref_sha256 manifest_ref), media_type = media,
              logical_path = logical\<rparr>, nr_warnings result), w2)))"

record ingest_state =
  ingest_polls :: nat
  ingest_hashed :: bytes
  ingest_total :: u64
  ingest_chunks :: "chunk_descriptor_v4 list"
  ingest_world :: world

definition ingest_chunk_step ::
  "(bytes \<Rightarrow> string) \<Rightarrow> os \<Rightarrow> (nat \<Rightarrow> bool) \<Rightarrow> content_store_v4 \<Rightarrow> bytes \<Rightarrow> ingest_state \<Rightarrow> string + ingest_state" where
  "ingest_chunk_step H os cancelled st bs i =
     bindr (ensure (\<not> cancelled (ingest_polls i)) ''operation cancelled'') (\<lambda>_.
     bindr (ensure (\<not> length (ingest_chunks i) \<ge> MAX_CHUNKS_PER_CONTENT_V4)
              ''content exceeds chunk limit'') (\<lambda>_.
     bindr (ok_or ''content length overflow'' (checked_add (ingest_total i) (of_nat (length bs)))) (\<lambda>total_bytes.
     bindr (ensure (\<not> total_bytes > MAX_LOGICAL_CONTENT_BYTES_V4) ''content exceeds size limit'') (\<lambda>_.
     bindr (install_kind H os st Chunk bs (ingest_world i)) (\<lambda>w.
       Inr \<lparr>ingest_polls = Suc (ingest_polls i), ingest_hashed = ingest_hashed i @ bs,
            ingest_total = total_bytes,
            ingest_chunks = ingest_chunks i @
              [\<lparr>chunk_sha256 = digest_bytes_v4 H bs, chunk_byte_length = of_nat (length bs)\<rparr>],
            ingest_world = w\<rparr>)))))"

text \<open>The loop ends at the first empty read.\<close>

definition ingest_chunk_reader ::
  "json_lib \<Rightarrow> (bytes \<Rightarrow> string) \<Rightarrow> os \<Rightarrow> (nat \<Rightarrow> bool) \<Rightarrow> content_store_v4 \<Rightarrow> bytes list \<Rightarrow> string \<Rightarrow>
     string option \<Rightarrow> world \<Rightarrow> string + (content_ref_v4 \<times> world)" where
  "ingest_chunk_reader J H os cancelled st reads media logical w =
     bindr (foldr_res (ingest_chunk_step H os cancelled st) (takeWhile (\<lambda>b. b \<noteq> []) reads)
        \<lparr>ingest_polls = 0, ingest_hashed = [], ingest_total = 0, ingest_chunks = [], ingest_world = w\<rparr>) (\<lambda>i.
     bindr (ensure (\<not> cancelled (ingest_polls i)) ''operation cancelled'') (\<lambda>_.
     let manifest = \<lparr>cm_schema_version = 4, cm_logical_sha256 = ''sha256:'' @ H (ingest_hashed i),
           cm_byte_length = ingest_total i, cm_chunk_size = store_chunk_size st,
           cm_chunks = ingest_chunks i\<rparr> in
     bindr (validate_chunk_manifest_v4 manifest) (\<lambda>_.
     bindr (store_json J H os st ChunkManifest (chunk_manifest_json manifest) (ingest_world i)) (\<lambda>(manifest_ref, w2).
       Inr (\<lparr>logical_sha256 = ''sha256:'' @ H (ingest_hashed i), content_byte_length = ingest_total i,
             storage = ChunkedRef (ref_sha256 manifest_ref), media_type = media,
             logical_path = logical\<rparr>, w2)))))"

section \<open>Materializing and validating\<close>

definition read_chunk ::
  "(bytes \<Rightarrow> string) \<Rightarrow> content_store_v4 \<Rightarrow> world \<Rightarrow> chunk_descriptor_v4 \<Rightarrow> string + bytes" where
  "read_chunk H st w chunk =
     bindr (typed_object_path_v4 (store_root st) Chunk (chunk_sha256 chunk)) (\<lambda>path.
     bindr (read_file w path) (\<lambda>bs.
     bindr (ensure (\<not> (of_nat (length bs) \<noteq> chunk_byte_length chunk \<or> digest_bytes_v4 H bs \<noteq> chunk_sha256 chunk))
              ''storage object chunk validation failed'') (\<lambda>_.
       Inr bs)))"

definition materialize_content ::
  "manifest_parser \<Rightarrow> (bytes \<Rightarrow> string) \<Rightarrow> content_store_v4 \<Rightarrow> content_ref_v4 \<Rightarrow> world \<Rightarrow> string + bytes" where
  "materialize_content decode H st content w =
     (case storage content of
        WholeRef object_sha256 \<Rightarrow>
          bindr (typed_object_path_v4 (store_root st) Whole object_sha256) (read_file w)
      | ChunkedRef manifest_sha256 \<Rightarrow>
          bindr (read_json decode H st ChunkManifest manifest_sha256 w) (\<lambda>manifest.
          bindr (validate_chunk_manifest_v4 manifest) (\<lambda>_.
          bindr (map_res (read_chunk H st w) (cm_chunks manifest)) (\<lambda>parts. Inr (concat parts)))))"

text \<open>\<open>materialize\<close>: the destination is created exclusively.\<close>

definition materialize ::
  "manifest_parser \<Rightarrow> (bytes \<Rightarrow> string) \<Rightarrow> content_store_v4 \<Rightarrow> content_ref_v4 \<Rightarrow> path \<Rightarrow> world \<Rightarrow> string + world" where
  "materialize decode H st content destination w =
     bindr (ensure (files w destination = None) ''File exists'') (\<lambda>_.
     bindr (materialize_content decode H st content (w\<lparr>files := (files w)(destination \<mapsto> [])\<rparr>)) (\<lambda>out.
       Inr (w\<lparr>files := (files w)(destination \<mapsto> out)\<rparr>)))"

definition validate_content ::
  "manifest_parser \<Rightarrow> (bytes \<Rightarrow> string) \<Rightarrow> content_store_v4 \<Rightarrow> content_ref_v4 \<Rightarrow> world \<Rightarrow> string + unit" where
  "validate_content decode H st content w =
     bindr (case storage content of
        WholeRef object_sha256 \<Rightarrow>
          bindr (typed_object_path_v4 (store_root st) Whole object_sha256) (\<lambda>path.
          bindr (read_file w path) (\<lambda>bs.
          bindr (ensure (digest_bytes_v4 H bs = object_sha256) ''storage object whole hash mismatch'') (\<lambda>_.
            Inr (bs, of_nat (length bs)))))
      | ChunkedRef manifest_sha256 \<Rightarrow>
          bindr (read_json decode H st ChunkManifest manifest_sha256 w) (\<lambda>manifest.
          bindr (validate_chunk_manifest_v4 manifest) (\<lambda>_.
          foldr_res (\<lambda>chunk (hashed_bytes, sum).
            bindr (read_chunk H st w chunk) (\<lambda>bs.
            bindr (ok_or ''content length overflow'' (checked_add sum (of_nat (length bs)))) (\<lambda>sum'.
              Inr (hashed_bytes @ bs, sum'))))
            (cm_chunks manifest) ([], 0)))) (\<lambda>(hashed_bytes, sum :: u64).
     ensure (\<not> (sum \<noteq> content_byte_length content \<or> ''sha256:'' @ H hashed_bytes \<noteq> logical_sha256 content))
       ''v4 logical content hash or length mismatch'')"

definition validate_content_ref_v4 :: "content_ref_v4 \<Rightarrow> string + unit" where
  "validate_content_ref_v4 content =
     bindr (validate_sha256_v4 (logical_sha256 content)) (\<lambda>_.
     bindr (ensure (\<not> blank (media_type content)) ''content media type must not be empty'') (\<lambda>_.
     case storage content of
       WholeRef object_sha256 \<Rightarrow> validate_sha256_v4 object_sha256
     | ChunkedRef manifest_sha256 \<Rightarrow> validate_sha256_v4 manifest_sha256))"

definition is_file :: "world \<Rightarrow> path \<Rightarrow> bool" where
  "is_file w path \<longleftrightarrow> files w path \<noteq> None"

definition content_objects_present ::
  "manifest_parser \<Rightarrow> (bytes \<Rightarrow> string) \<Rightarrow> content_store_v4 \<Rightarrow> content_ref_v4 \<Rightarrow> world \<Rightarrow> string + bool" where
  "content_objects_present decode H st content w =
     (case storage content of
        WholeRef object_sha256 \<Rightarrow>
          bindr (typed_object_path_v4 (store_root st) Whole object_sha256) (\<lambda>path. Inr (is_file w path))
      | ChunkedRef manifest_sha256 \<Rightarrow>
          bindr (typed_object_path_v4 (store_root st) ChunkManifest manifest_sha256) (\<lambda>manifest_path.
            if \<not> is_file w manifest_path then Inr False
            else case read_json decode H st ChunkManifest manifest_sha256 w of
                Inl _ \<Rightarrow> Inr False
              | Inr manifest \<Rightarrow> Inr (list_all (\<lambda>chunk.
                  case typed_object_path_v4 (store_root st) Chunk (chunk_sha256 chunk) of
                    Inl _ \<Rightarrow> False
                  | Inr path \<Rightarrow> is_file w path) (cm_chunks manifest))))"

definition content_objects ::
  "json_lib \<Rightarrow> manifest_parser \<Rightarrow> (bytes \<Rightarrow> string) \<Rightarrow> content_store_v4 \<Rightarrow> content_ref_v4 \<Rightarrow> world \<Rightarrow>
     string + storage_object_ref_v4 list" where
  "content_objects J decode H st content w =
     bindr (validate_content_ref_v4 content) (\<lambda>_.
     case storage content of
       WholeRef object_sha256 \<Rightarrow>
         Inr [\<lparr>ref_kind = Whole, ref_sha256 = object_sha256, ref_byte_length = content_byte_length content\<rparr>]
     | ChunkedRef manifest_sha256 \<Rightarrow>
         bindr (read_json decode H st ChunkManifest manifest_sha256 w) (\<lambda>manifest.
         bindr (validate_chunk_manifest_v4 manifest) (\<lambda>_.
         bindr (ensure (\<not> (cm_logical_sha256 manifest \<noteq> logical_sha256 content
                   \<or> cm_byte_length manifest \<noteq> content_byte_length content))
                  ''v4 chunk manifest identity mismatch'') (\<lambda>_.
         let manifest_bytes = write_canonical_json_v4 J (chunk_manifest_json manifest) in
           Inr (\<lparr>ref_kind = ChunkManifest, ref_sha256 = manifest_sha256,
                 ref_byte_length = of_nat (length manifest_bytes)\<rparr>
               # map (\<lambda>chunk. \<lparr>ref_kind = Chunk, ref_sha256 = chunk_sha256 chunk,
                   ref_byte_length = chunk_byte_length chunk\<rparr>) (cm_chunks manifest))))))"

end
