(* ===== verification/ContentFacts.thy ===== *)
theory ContentFacts
  imports ContentOps
begin

text \<open>
  What the local content store promises: installed objects are immutable and addressed by their
  digest, an ingested content materializes to the bytes that were read and passes validation, and
  a content that passes validation materializes to bytes with its logical hash.
\<close>

definition objects_sound :: "(bytes \<Rightarrow> string) \<Rightarrow> content_store_v4 \<Rightarrow> world \<Rightarrow> bool" where
  "objects_sound H st w \<longleftrightarrow> (\<forall>k h b. object_at st w k h = Some b \<longrightarrow> digest_bytes_v4 H b = h)"

lemma objects_sound_cas: "objects_sound H st w = local_cas.sound H st w"
  by (simp add: objects_sound_def local_cas.sound_def)

definition chunked_manifest :: "(bytes \<Rightarrow> string) \<Rightarrow> u32 \<Rightarrow> u64 \<Rightarrow> bytes list \<Rightarrow> chunk_manifest_v4" where
  "chunked_manifest H csize len parts =
     \<lparr>cm_schema_version = 4, cm_logical_sha256 = digest_bytes_v4 H (concat parts), cm_byte_length = len,
      cm_chunk_size = csize, cm_chunks = map (describe_chunk H) parts\<rparr>"

definition part_lengths :: "bytes list \<Rightarrow> u64 list" where
  "part_lengths parts = map (\<lambda>b. of_nat (length b)) parts"

section \<open>Reading stored objects\<close>

lemma object_at_Some:
  "object_at st w k h = Some b \<longleftrightarrow>
    (\<exists>p. typed_object_path_v4 (store_root st) k h = Inr p \<and> files w p = Some b)"
  by (auto simp: object_at_def split: sum.splits)

lemma read_chunk_stored:
  assumes "object_at st w Chunk (digest_bytes_v4 H b) = Some b"
  shows "read_chunk H st w (describe_chunk H b) = Inr b"
  using assms by (auto simp: object_at_Some read_chunk_def describe_chunk_def read_file_def)

lemma read_chunks_stored:
  assumes "\<And>b. b \<in> set parts \<Longrightarrow> object_at st w Chunk (digest_bytes_v4 H b) = Some b"
  shows "map_res (read_chunk H st w) (map (describe_chunk H) parts) = Inr parts"
  using assms by (induction parts) (simp_all add: read_chunk_stored)

lemma store_json_stored:
  assumes "store_json J H os st k v w = Inr (r, w')"
  shows "object_at st w' k (ref_sha256 r) = Some (write_canonical_json_v4 J v)"
    and "ref_sha256 r = digest_bytes_v4 H (write_canonical_json_v4 J v)"
    and "\<not> of_nat (length (write_canonical_json_v4 J v)) > max_bytes k"
    and "object_at st w k' h = Some b \<Longrightarrow> object_at st w' k' h = Some b"
proof -
  let ?o = "\<lparr>ref_kind = k, ref_sha256 = digest_bytes_v4 H (write_canonical_json_v4 J v),
      ref_byte_length = of_nat (length (write_canonical_json_v4 J v))\<rparr>"
  from assms have i: "install_bytes H os st ?o (write_canonical_json_v4 J v) w = Inr (r, w')"
    and l: "\<not> of_nat (length (write_canonical_json_v4 J v)) > max_bytes k"
    by (auto simp: store_json_def bindr_eq_Inr_iff Let_def)
  from install_bytes_files[OF i] have r: "r = ?o" by metis
  show "object_at st w' k (ref_sha256 r) = Some (write_canonical_json_v4 J v)"
    by (simp add: object_at_install[OF i] r)
  show "ref_sha256 r = digest_bytes_v4 H (write_canonical_json_v4 J v)" by (simp add: r)
  show "\<not> of_nat (length (write_canonical_json_v4 J v)) > max_bytes k" by (rule l)
  show "object_at st w k' h = Some b \<Longrightarrow> object_at st w' k' h = Some b"
    by (rule install_keeps_content[OF i])
qed

lemma read_json_stored:
  assumes "object_at st w k h = Some b" "digest_bytes_v4 H b = h" "\<not> of_nat (length b) > max_bytes k"
    and "decode b = Some x"
  shows "read_json decode H st k h w = Inr x"
  using assms by (auto simp: object_at_Some read_json_def read_file_def)

lemma read_chunk_Inr:
  "read_chunk H st w c = Inr b \<Longrightarrow>
     chunk_byte_length c = of_nat (length b) \<and> chunk_sha256 c = digest_bytes_v4 H b"
  by (auto simp: read_chunk_def bindr_eq_Inr_iff)

text \<open>The validation loop reads the same chunks as materialization and adds their lengths up.\<close>

lemma checked_sum_Cons:
  "checked_sum t (part_lengths (b # parts)) = Some t' \<longleftrightarrow>
     (\<exists>t1. checked_add t (of_nat (length b)) = Some t1 \<and> checked_sum t1 (part_lengths parts) = Some t')"
  by (cases "checked_add t (of_nat (length b))") (simp_all add: part_lengths_def)

lemma part_lengths_Nil: "part_lengths [] = []"
  by (simp add: part_lengths_def)

lemma checked_sum_word: "checked_sum a xs = Some t \<Longrightarrow> t = a + sum_list xs"
proof (induction xs arbitrary: a)
  case (Cons x xs)
  then obtain b where b: "checked_add a x = Some b" "checked_sum b xs = Some t"
    by (auto split: option.splits)
  from Cons.IH[OF b(2)] b(1) show ?case by (simp add: checked_add_Some_iff add.assoc)
qed simp

lemma sum_part_lengths: "sum_list (part_lengths parts) = of_nat (length (concat parts))"
  by (induction parts) (simp_all add: part_lengths_def)

lemma validate_fold:
  "foldr_res (\<lambda>chunk (hashed_bytes, sum).
      bindr (read_chunk H st w chunk) (\<lambda>bs.
      bindr (ok_or e (checked_add sum (of_nat (length bs)))) (\<lambda>sum'. Inr (hashed_bytes @ bs, sum'))))
    chunks (acc, t) = Inr (acc', t') \<longleftrightarrow>
   (\<exists>parts. map_res (read_chunk H st w) chunks = Inr parts \<and> acc' = acc @ concat parts
      \<and> checked_sum t (part_lengths parts) = Some t')"
proof (induction chunks arbitrary: acc t)
  case Nil
  show ?case by (auto simp: part_lengths_Nil)
next
  case (Cons c chunks)
  show ?case
  proof (cases "read_chunk H st w c")
    case (Inl e)
    then show ?thesis by simp
  next
    case (Inr b)
    show ?thesis
    proof (cases "checked_add t (of_nat (length b))")
      case None
      with Inr have "foldr_res (\<lambda>chunk (hashed_bytes, sum).
          bindr (read_chunk H st w chunk) (\<lambda>bs.
          bindr (ok_or e (checked_add sum (of_nat (length bs)))) (\<lambda>sum'. Inr (hashed_bytes @ bs, sum'))))
        (c # chunks) (acc, t) = Inl e" by simp
      moreover have "checked_sum t (part_lengths (b # ps)) = None" for ps
        using checked_sum_Cons[of t b ps] None by (cases "checked_sum t (part_lengths (b # ps))") auto
      ultimately show ?thesis using Inr
        by (simp only: Inl_Inr_False) (auto simp: bindr_eq_Inr_iff)
    next
      case (Some t1)
      have sum: "checked_sum t (part_lengths (b # ps)) = Some t' \<longleftrightarrow> checked_sum t1 (part_lengths ps) = Some t'"
        for ps unfolding checked_sum_Cons Some by simp
      show ?thesis
        using Inr Some Cons[of "acc @ b" t1]
        by (simp add: bindr_eq_Inr_iff sum)
          (metis (no_types, lifting) sum concat.simps(2))
    qed
  qed
qed

lemma validate_content_chunked_iff:
  assumes "storage content = ChunkedRef m"
  shows "validate_content decode H st content w = Inr u \<longleftrightarrow>
    (\<exists>manifest parts. read_json decode H st ChunkManifest m w = Inr manifest
      \<and> validate_chunk_manifest_v4 manifest = Inr ()
      \<and> map_res (read_chunk H st w) (cm_chunks manifest) = Inr parts
      \<and> checked_sum 0 (part_lengths parts) = Some (content_byte_length content)
      \<and> digest_bytes_v4 H (concat parts) = logical_sha256 content)"
  unfolding validate_content_def assms digest_bytes_v4_def
  by (simp add: bindr_eq_Inr_iff validate_fold) blast

section \<open>Chunked contents\<close>

lemma chunked_content_reads_back:
  assumes put: "foldr_res (install_kind H os st Chunk) parts w = Inr w1"
    and manifest: "m = chunked_manifest H csize len parts"
    and len: "checked_sum 0 (part_lengths parts) = Some len"
    and valid: "validate_chunk_manifest_v4 m = Inr ()"
    and store: "store_json J H os st ChunkManifest (chunk_manifest_json m) w1 = Inr (r, w2)"
    and decode: "decode (write_canonical_json_v4 J (chunk_manifest_json m)) = Some m"
    and content: "storage content = ChunkedRef (ref_sha256 r)"
      "logical_sha256 content = digest_bytes_v4 H (concat parts)" "content_byte_length content = len"
  shows "materialize_content decode H st content w2 = Inr (concat parts)"
    and "validate_content decode H st content w2 = Inr ()"
proof -
  note s = store_json_stored[OF store]
  have chunks: "map_res (read_chunk H st w2) (cm_chunks m) = Inr parts"
    using read_chunks_stored[of parts st w2 H] local_cas.put_all_get[OF put] s(4)
    by (simp add: manifest chunked_manifest_def)
  have manifest_read: "read_json decode H st ChunkManifest (ref_sha256 r) w2 = Inr m"
    using s(1-3) decode by (intro read_json_stored) simp_all
  show "materialize_content decode H st content w2 = Inr (concat parts)"
    by (simp add: materialize_content_def content(1) manifest_read valid chunks)
  show "validate_content decode H st content w2 = Inr ()"
    using manifest_read valid chunks len content(2,3)
    by (auto simp: validate_content_chunked_iff[OF content(1)])
qed

lemma ingest_chunk_step_Inr:
  assumes "ingest_chunk_step H os cancelled st b i = Inr j"
  shows "install_kind H os st Chunk b (ingest_world i) = Inr (ingest_world j)"
    and "ingest_hashed j = ingest_hashed i @ b"
    and "ingest_chunks j = ingest_chunks i @ [describe_chunk H b]"
    and "checked_add (ingest_total i) (of_nat (length b)) = Some (ingest_total j)"
  using assms unfolding ingest_chunk_step_def describe_chunk_def
  by (auto simp: bindr_eq_Inr_iff)

lemma ingest_fold:
  "foldr_res (ingest_chunk_step H os cancelled st) bs i = Inr i' \<Longrightarrow>
     foldr_res (install_kind H os st Chunk) bs (ingest_world i) = Inr (ingest_world i')
     \<and> ingest_hashed i' = ingest_hashed i @ concat bs
     \<and> ingest_chunks i' = ingest_chunks i @ map (describe_chunk H) bs
     \<and> checked_sum (ingest_total i) (part_lengths bs) = Some (ingest_total i')"
proof (induction bs arbitrary: i)
  case Nil
  then show ?case by (simp add: part_lengths_Nil)
next
  case (Cons b bs)
  from Cons.prems obtain j where step: "ingest_chunk_step H os cancelled st b i = Inr j"
    and rest: "foldr_res (ingest_chunk_step H os cancelled st) bs j = Inr i'"
    by (auto simp: bindr_eq_Inr_iff)
  note j = ingest_chunk_step_Inr[OF step]
  show ?case
    using Cons.IH[OF rest] j(2,3) by (simp add: j(1) checked_sum_Cons j(4))
qed

lemma ingest_Inr:
  assumes "ingest_chunk_reader J H os cancelled st reads media logical w = Inr (content, w2)"
  obtains len w1 r where
    "foldr_res (install_kind H os st Chunk) (takeWhile (\<lambda>b. b \<noteq> []) reads) w = Inr w1"
    "checked_sum 0 (part_lengths (takeWhile (\<lambda>b. b \<noteq> []) reads)) = Some len"
    "validate_chunk_manifest_v4 (chunked_manifest H (store_chunk_size st) len (takeWhile (\<lambda>b. b \<noteq> []) reads)) = Inr ()"
    "store_json J H os st ChunkManifest (chunk_manifest_json
       (chunked_manifest H (store_chunk_size st) len (takeWhile (\<lambda>b. b \<noteq> []) reads))) w1 = Inr (r, w2)"
    "storage content = ChunkedRef (ref_sha256 r)" "content_byte_length content = len"
    "logical_sha256 content = digest_bytes_v4 H (concat (takeWhile (\<lambda>b. b \<noteq> []) reads))"
    "media_type content = media" "logical_path content = logical"
proof -
  let ?bs = "takeWhile (\<lambda>b. b \<noteq> []) reads"
  from assms obtain i where
    i: "foldr_res (ingest_chunk_step H os cancelled st) ?bs
      \<lparr>ingest_polls = 0, ingest_hashed = [], ingest_total = 0, ingest_chunks = [], ingest_world = w\<rparr> = Inr i"
    and rest: "(let manifest = \<lparr>cm_schema_version = 4, cm_logical_sha256 = ''sha256:'' @ H (ingest_hashed i),
           cm_byte_length = ingest_total i, cm_chunk_size = store_chunk_size st,
           cm_chunks = ingest_chunks i\<rparr> in
     bindr (validate_chunk_manifest_v4 manifest) (\<lambda>_.
     bindr (store_json J H os st ChunkManifest (chunk_manifest_json manifest) (ingest_world i)) (\<lambda>(manifest_ref, w2).
       Inr (\<lparr>logical_sha256 = ''sha256:'' @ H (ingest_hashed i), content_byte_length = ingest_total i,
             storage = ChunkedRef (ref_sha256 manifest_ref), media_type = media,
             logical_path = logical\<rparr>, w2)))) = Inr (content, w2)"
    unfolding ingest_chunk_reader_def by (elim bindrE)
  from ingest_fold[OF i] have f:
    "foldr_res (install_kind H os st Chunk) ?bs w = Inr (ingest_world i)"
    "ingest_hashed i = concat ?bs" "ingest_chunks i = map (describe_chunk H) ?bs"
    "checked_sum 0 (part_lengths ?bs) = Some (ingest_total i)" by simp_all
  have m: "\<lparr>cm_schema_version = 4, cm_logical_sha256 = ''sha256:'' @ H (ingest_hashed i),
      cm_byte_length = ingest_total i, cm_chunk_size = store_chunk_size st, cm_chunks = ingest_chunks i\<rparr>
      = chunked_manifest H (store_chunk_size st) (ingest_total i) ?bs"
    by (simp add: chunked_manifest_def f digest_bytes_v4_def)
  from rest obtain r where "validate_chunk_manifest_v4 (chunked_manifest H (store_chunk_size st) (ingest_total i) ?bs) = Inr ()"
    "store_json J H os st ChunkManifest (chunk_manifest_json
       (chunked_manifest H (store_chunk_size st) (ingest_total i) ?bs)) (ingest_world i) = Inr (r, w2)"
    "content = \<lparr>logical_sha256 = ''sha256:'' @ H (ingest_hashed i), content_byte_length = ingest_total i,
       storage = ChunkedRef (ref_sha256 r), media_type = media, logical_path = logical\<rparr>"
    unfolding m Let_def by (auto simp: bindr_eq_Inr_iff)
  with f show thesis by (intro that) (simp_all add: digest_bytes_v4_def)
qed

end
