(* ===== verification/ContentLive.thy ===== *)
theory ContentLive
  imports ContentFacts
begin

text \<open>
  When the local content store succeeds: an install or an ingestion can fail only for a reason the
  code names (a collision, a limit, a failed rename, a cancellation, a short read).
\<close>

definition renames_work :: "os \<Rightarrow> bool" where
  "renames_work os \<longleftrightarrow> (\<forall>n. rename_result os n = Renamed)"

definition no_collision ::
  "(bytes \<Rightarrow> string) \<Rightarrow> content_store_v4 \<Rightarrow> storage_object_kind_v4 \<Rightarrow> bytes list \<Rightarrow> world \<Rightarrow> bool" where
  "no_collision H st k bs w \<longleftrightarrow> inj_on (digest_bytes_v4 H) (set bs)
     \<and> (\<forall>b \<in> set bs. object_at st w k (digest_bytes_v4 H b) \<in> {None, Some b})"

lemma typed_object_path_ok:
  "valid_id h \<Longrightarrow> is_ok (typed_object_path_v4 root k h)"
  by (auto simp: typed_object_path_v4_def valid_id_def Let_def)

lemma install_bytes_ok:
  assumes "hex_digest H" "renames_work os" "\<not> of_nat (length b) > max_bytes k"
    and "object_at st w k (digest_bytes_v4 H b) \<in> {None, Some b}"
  shows "is_ok (install_bytes H os st \<lparr>ref_kind = k, ref_sha256 = digest_bytes_v4 H b,
      ref_byte_length = of_nat (length b)\<rparr> b w)"
proof -
  have v: "valid_id (digest_bytes_v4 H b)" by (rule valid_id_digest[OF assms(1)])
  then obtain p where p: "typed_object_path_v4 (store_root st) k (digest_bytes_v4 H b) = Inr p"
    using typed_object_path_ok[OF v] is_ok_iff by metis
  from v obtain u where u: "validate_sha256_v4 (digest_bytes_v4 H b) = Inr u"
    unfolding valid_id_def is_ok_iff by blast
  have r: "rename_result os n = Renamed" for n using assms(2) by (simp add: renames_work_def)
  note run = install_bytes_def Let_def storage_object_ref_v4.select_convs u p r bindr_simps ensure_bool
    rename_outcome.case assms(3) simp_thms
  from assms(4) p consider "files w p = None" | "files w p = Some b" by (auto simp: object_at_def)
  then show ?thesis
    by cases (simp_all only: run option.case if_False is_ok_simps)
qed

lemma install_kind_ok:
  assumes "hex_digest H" "renames_work os" "\<not> of_nat (length b) > max_bytes k"
    and "object_at st w k (digest_bytes_v4 H b) \<in> {None, Some b}"
  shows "is_ok (install_kind H os st k b w)"
  using install_bytes_ok[OF assms] by (auto simp: install_kind_def is_ok_iff)

lemma install_kind_object_at:
  assumes "install_kind H os st k b w = Inr w'"
  shows "object_at st w' k' h =
    (if k' = k \<and> h = digest_bytes_v4 H b then Some b else object_at st w k' h)"
proof -
  from assms obtain r where "install_bytes H os st \<lparr>ref_kind = k, ref_sha256 = digest_bytes_v4 H b,
      ref_byte_length = of_nat (length b)\<rparr> b w = Inr (r, w')"
    by (auto simp: install_kind_def bindr_eq_Inr_iff)
  from object_at_install[OF this] show ?thesis by simp
qed

lemma install_all_other:
  assumes "foldr_res (install_kind H os st k) bs w = Inr w'" and "k' \<noteq> k"
  shows "object_at st w' k' h = object_at st w k' h"
  using assms(1) by (induction bs arbitrary: w) (auto simp: bindr_eq_Inr_iff install_kind_object_at assms(2))

lemma no_collision_step:
  assumes "no_collision H st k (b # bs) w" "install_kind H os st k b w = Inr w'"
  shows "no_collision H st k bs w'"
  using assms by (auto simp: no_collision_def install_kind_object_at inj_on_def)

section \<open>Ingestion\<close>

definition fits :: "bytes list \<Rightarrow> nat \<Rightarrow> nat \<Rightarrow> bool" where
  "fits bs used slots \<longleftrightarrow> list_all (\<lambda>b. length b \<le> unat CHUNK_SIZE_V4) bs
     \<and> used + length (concat bs) \<le> unat MAX_LOGICAL_CONTENT_BYTES_V4
     \<and> slots + length bs \<le> MAX_CHUNKS_PER_CONTENT_V4"

lemma limits:
  "unat CHUNK_SIZE_V4 = 4194304" "unat MAX_LOGICAL_CONTENT_BYTES_V4 = 68719476736"
  by (simp_all add: CHUNK_SIZE_V4_def MAX_LOGICAL_CONTENT_BYTES_V4_def)

lemma ingest_step_ok:
  assumes "hex_digest H" "renames_work os" "no_collision H st Chunk [b] (ingest_world i)"
    and "fits [b] (unat (ingest_total i)) (length (ingest_chunks i))"
    and "\<not> cancelled (ingest_polls i)"
  shows "is_ok (ingest_chunk_step H os cancelled st b i)"
proof -
  from assms(4) have len: "length b \<le> 4194304" "unat (ingest_total i) + length b \<le> 68719476736"
    "length (ingest_chunks i) < MAX_CHUNKS_PER_CONTENT_V4"
    by (auto simp: fits_def limits)
  then have u: "unat (of_nat (length b) :: u64) = length b" by (intro unat_of_nat_u64) simp
  have add: "checked_add (ingest_total i) (of_nat (length b)) = Some (ingest_total i + of_nat (length b))"
    using len u by (simp add: checked_add_Some_iff)
  from checked_add_unat[OF add] u have s: "unat (ingest_total i + of_nat (length b)) = unat (ingest_total i) + length b"
    by simp
  have lim: "\<not> ingest_total i + of_nat (length b) > MAX_LOGICAL_CONTENT_BYTES_V4"
    using s len by (simp add: word_less_nat_alt limits)
  have m: "\<not> of_nat (length b) > max_bytes Chunk"
    using u len by (simp add: word_less_nat_alt CHUNK_SIZE_V4_def)
  have "is_ok (install_kind H os st Chunk b (ingest_world i))"
    using assms(3) by (intro install_kind_ok[OF assms(1,2) m]) (simp add: no_collision_def)
  with add lim len(3) assms(5) show ?thesis
    by (auto simp: ingest_chunk_step_def is_ok_iff not_le)
qed

lemma ingest_fold_ok:
  assumes "hex_digest H" "renames_work os" "\<And>n. \<not> cancelled n"
  shows "no_collision H st Chunk bs (ingest_world i) \<Longrightarrow>
    fits bs (unat (ingest_total i)) (length (ingest_chunks i)) \<Longrightarrow>
    is_ok (foldr_res (ingest_chunk_step H os cancelled st) bs i)"
proof (induction bs arbitrary: i)
  case (Cons b bs)
  have "is_ok (ingest_chunk_step H os cancelled st b i)"
    using Cons.prems assms by (intro ingest_step_ok) (auto simp: no_collision_def fits_def)
  then obtain j where step: "ingest_chunk_step H os cancelled st b i = Inr j" by (auto simp: is_ok_iff)
  note j = ingest_chunk_step_Inr[OF step]
  have "length b < 18446744073709551616" using Cons.prems(2) by (simp add: fits_def limits)
  with checked_add_unat[OF j(4)] have "unat (ingest_total j) = unat (ingest_total i) + length b"
    by (simp add: unat_of_nat_u64)
  with Cons.prems(2) j(3) have "fits bs (unat (ingest_total j)) (length (ingest_chunks j))"
    by (simp add: fits_def)
  from Cons.IH[OF no_collision_step[OF Cons.prems(1) j(1)] this] step show ?case by simp
qed simp

lemma ingest_ok:
  assumes "hex_digest H" "renames_work os" "\<And>n. \<not> cancelled n"
    and "no_collision H st Chunk parts w" "fits parts 0 0"
    and "parts = takeWhile (\<lambda>b. b \<noteq> []) reads"
    and "m = chunked_manifest H (store_chunk_size st) (of_nat (length (concat parts))) parts"
    and "0 < store_chunk_size st" "store_chunk_size st \<le> CHUNK_SIZE_V4"
    and "full_chunks (unat (store_chunk_size st)) (map length parts)"
    and "\<not> of_nat (length (write_canonical_json_v4 J (chunk_manifest_json m))) > max_bytes ChunkManifest"
    and "no_collision H st ChunkManifest [write_canonical_json_v4 J (chunk_manifest_json m)] w"
  shows "is_ok (ingest_chunk_reader J H os cancelled st reads media logical w)"
proof -
  let ?i = "\<lparr>ingest_polls = 0, ingest_hashed = [], ingest_total = 0, ingest_chunks = [], ingest_world = w\<rparr>"
  have "is_ok (foldr_res (ingest_chunk_step H os cancelled st) parts ?i)"
    using assms(4,5) by (intro ingest_fold_ok[OF assms(1-3)]) simp_all
  then obtain i where i: "foldr_res (ingest_chunk_step H os cancelled st) parts ?i = Inr i"
    by (auto simp: is_ok_iff)
  from ingest_fold[OF i] have f: "foldr_res (install_kind H os st Chunk) parts w = Inr (ingest_world i)"
    "ingest_hashed i = concat parts" "ingest_chunks i = map (describe_chunk H) parts"
    "checked_sum 0 (part_lengths parts) = Some (ingest_total i)" by simp_all
  have lens: "map (\<lambda>b. unat (of_nat (length b) :: u64)) parts = map length parts"
    using assms(5) by (auto simp: fits_def limits list_all_iff intro!: unat_of_nat_u64)
  have t: "ingest_total i = of_nat (length (concat parts))"
    using checked_sum_word[OF f(4)] sum_part_lengths[of parts] by simp
  have tn: "unat (ingest_total i) = length (concat parts)"
    using assms(5) unfolding t by (intro unat_of_nat_u64) (simp add: fits_def limits)
  have m: "\<lparr>cm_schema_version = 4, cm_logical_sha256 = ''sha256:'' @ H (ingest_hashed i),
      cm_byte_length = ingest_total i, cm_chunk_size = store_chunk_size st, cm_chunks = ingest_chunks i\<rparr> = m"
    by (simp add: assms(7) chunked_manifest_def f t digest_bytes_v4_def)
  have valid: "validate_chunk_manifest_v4 m = Inr ()"
    using assms(8-10) valid_id_digest[OF assms(1)] tn
    by (simp add: validate_chunk_manifest_iff assms(7) chunked_manifest_def describe_chunk_def
        comp_def list_all_iff t[symmetric] lens) (simp add: length_concat)
  have "no_collision H st ChunkManifest [write_canonical_json_v4 J (chunk_manifest_json m)] (ingest_world i)"
    using assms(12) by (simp add: no_collision_def install_all_other[OF f(1)])
  then have "is_ok (store_json J H os st ChunkManifest (chunk_manifest_json m) (ingest_world i))"
    using install_bytes_ok[OF assms(1,2,11)] assms(11) by (simp add: store_json_def no_collision_def Let_def)
  with i valid assms(3) m show ?thesis
    unfolding ingest_chunk_reader_def assms(6)[symmetric]
    by (auto simp: is_ok_iff)
qed

end
