(* ===== verification/ContentProps.thy ===== *)
theory ContentProps
  imports ContentLive
begin

text \<open>The properties of the local content store, with their witnesses.\<close>

lemma full_chunks_lengths:
  assumes "full_chunks n (map unat (part_lengths parts))" "0 < n"
    and "\<And>b. b \<in> set parts \<Longrightarrow> length b < 18446744073709551616"
  shows "full_chunks n (map length parts)"
proof -
  have "map unat (part_lengths parts) = map length parts"
    using assms(3) by (simp add: part_lengths_def unat_of_nat_u64)
  with assms(1) show ?thesis by simp
qed

definition no_os :: os where
  "no_os = \<lparr>fresh_name = \<lambda>_. ''n'', rename_result = \<lambda>_. Renamed\<rparr>"

definition empty_world :: world where
  "empty_world = \<lparr>files = \<lambda>_. None, ticks = 0\<rparr>"

definition toy_store :: content_store_v4 where
  "toy_store = \<lparr>store_root = [''r''], store_chunk_size = 2\<rparr>"

text \<open>A digest that tells short texts apart: their length and first byte, padded.\<close>

definition hex_digit :: "nat \<Rightarrow> char" where
  "hex_digit n = (if n < 10 then char_of (48 + n) else char_of (87 + n))"

definition spread_hash :: "bytes \<Rightarrow> string" where
  "spread_hash bs = hex_digit (length bs mod 16)
     # hex_digit (case bs of [] \<Rightarrow> 0 | c # _ \<Rightarrow> of_char c mod 16) # replicate 62 (CHR ''0'')"

lemma hex_digit_lower: "n < 16 \<Longrightarrow> is_lower_hex (hex_digit n)"
proof -
  have "list_all (\<lambda>n. is_lower_hex (hex_digit n)) [0..<16]" by code_simp
  then show "n < 16 \<Longrightarrow> is_lower_hex (hex_digit n)" by (simp add: list_all_iff)
qed

lemma spread_hash_hex: "hex_digest spread_hash"
proof -
  have "is_lower_hex (CHR ''0'')" by code_simp
  then show ?thesis
    by (auto simp: hex_digest_def spread_hash_def hex_digit_lower list_all_iff split: list.splits)
qed

text \<open>
  objects are immutable and addressed by content. A successful install makes the object
  readable under its digest, leaves every other object as it was, keeps an object that was
  there, and keeps the store sound: every object's name is the digest of its bytes.
\<close>
theorem install_is_immutable:
  assumes "install_kind H os st k bs w = Inr w'"
  shows "object_at st w' k (digest_bytes_v4 H bs) = Some bs
    \<and> (\<forall>k' h. (k', h) \<noteq> (k, digest_bytes_v4 H bs) \<longrightarrow> object_at st w' k' h = object_at st w k' h)
    \<and> (\<forall>b. object_at st w k (digest_bytes_v4 H bs) = Some b \<longrightarrow> b = bs)
    \<and> (objects_sound H st w \<longrightarrow> objects_sound H st w')"
proof -
  from assms obtain r where r: "install_bytes H os st \<lparr>ref_kind = k, ref_sha256 = digest_bytes_v4 H bs,
      ref_byte_length = of_nat (length bs)\<rparr> bs w = Inr (r, w')"
    by (auto simp: install_kind_def bindr_eq_Inr_iff)
  have "b = bs" if "object_at st w k (digest_bytes_v4 H bs) = Some b" for b
    using install_keeps_content[OF r that] by (simp add: object_at_install[OF r])
  moreover have "objects_sound H st w'" if "objects_sound H st w"
    using local_cas.put_sound[OF assms] that by (simp add: objects_sound_cas)
  ultimately show ?thesis by (simp add: object_at_install[OF r])
qed

theorem install_is_immutable_witness:
  "\<exists>w'. install_kind spread_hash no_os toy_store Chunk ''ab'' empty_world = Inr w'
     \<and> object_at toy_store w' Chunk (digest_bytes_v4 spread_hash ''ab'') = Some ''ab''"
proof -
  have "is_ok (install_kind spread_hash no_os toy_store Chunk ''ab'' empty_world)" by code_simp
  then obtain w' where "install_kind spread_hash no_os toy_store Chunk ''ab'' empty_world = Inr w'"
    by (auto simp: is_ok_iff)
  with install_is_immutable[OF this] show ?thesis by blast
qed

text \<open>
  C12: ingesting and materializing round-trip. If a stream is ingested, the content it gives
  validates and materializes to exactly the bytes the reads returned up to the end of the stream,
  under their digest. serde\_json is to read back the manifest that was stored.
\<close>
theorem ingest_materializes:
  assumes "ingest_chunk_reader J H os cancelled st reads media logical w = Inr (content, w')"
    and "parts = takeWhile (\<lambda>b. b \<noteq> []) reads"
    and "m = chunked_manifest H (store_chunk_size st) (of_nat (length (concat parts))) parts"
    and "decode (write_canonical_json_v4 J (chunk_manifest_json m)) = Some m"
  shows "materialize_content decode H st content w' = Inr (concat parts)
    \<and> validate_content decode H st content w' = Inr ()
    \<and> logical_sha256 content = digest_bytes_v4 H (concat parts)"
proof -
  from ingest_Inr[OF assms(1)] obtain len w1 r where
    put: "foldr_res (install_kind H os st Chunk) parts w = Inr w1" and
    len: "checked_sum 0 (part_lengths parts) = Some len" and
    valid: "validate_chunk_manifest_v4 (chunked_manifest H (store_chunk_size st) len parts) = Inr ()" and
    store: "store_json J H os st ChunkManifest (chunk_manifest_json
       (chunked_manifest H (store_chunk_size st) len parts)) w1 = Inr (r, w')" and
    c: "storage content = ChunkedRef (ref_sha256 r)" "content_byte_length content = len"
      "logical_sha256 content = digest_bytes_v4 H (concat parts)"
    unfolding assms(2) by metis
  have m: "chunked_manifest H (store_chunk_size st) len parts = m"
    using checked_sum_word[OF len] by (simp add: assms(3) sum_part_lengths)
  note reads = chunked_content_reads_back[OF put m[symmetric] len valid[unfolded m] store[unfolded m], of decode content]
  from reads[OF assms(4) c(1) c(3) c(2)] c(3) show ?thesis by simp
qed

definition toy_number :: json_lib where
  "toy_number = toy_text\<lparr>number_text := (\<lambda>x. case x of PosInt n \<Rightarrow> replicate (unat n) (CHR ''1'') | _ \<Rightarrow> ''-'')\<rparr>"

definition toy_parts :: "bytes list" where
  "toy_parts = [''ab'', ''cd'', ''e'']"

definition toy_manifest :: chunk_manifest_v4 where
  "toy_manifest = chunked_manifest spread_hash 2 5 toy_parts"

lemma toy_manifest_small:
  "\<not> of_nat (length (write_canonical_json_v4 toy_number (chunk_manifest_json toy_manifest))) > max_bytes ChunkManifest"
  by code_simp

lemma no_collision_empty: "inj_on (digest_bytes_v4 H) (set bs) \<Longrightarrow> no_collision H st k bs empty_world"
  by (auto simp: no_collision_def object_at_def empty_world_def split: sum.splits)

lemma toy_no_collision: "no_collision spread_hash toy_store Chunk toy_parts empty_world"
proof -
  have "list_all (\<lambda>x. list_all (\<lambda>y. spread_hash x = spread_hash y \<longrightarrow> x = y) toy_parts) toy_parts"
    by code_simp
  then show ?thesis
    by (intro no_collision_empty) (auto simp: inj_on_def list_all_iff digest_bytes_v4_def)
qed

lemma toy_parts_fit: "fits toy_parts 0 0"
  by (simp add: fits_def limits toy_parts_def MAX_CHUNKS_PER_CONTENT_V4_def)

lemma toy_ingest_runs:
  "is_ok (ingest_chunk_reader toy_number spread_hash no_os never toy_store
     (toy_parts @ [[], ''f'']) ''text'' None empty_world)"
  using toy_no_collision toy_parts_fit toy_manifest_small spread_hash_hex
  by (intro ingest_ok[where m = toy_manifest and parts = toy_parts])
    (auto simp: renames_work_def no_os_def never_def toy_parts_def toy_manifest_def toy_store_def
       CHUNK_SIZE_V4_def intro!: no_collision_empty)

theorem ingest_materializes_witness:
  "\<exists>content w'. ingest_chunk_reader toy_number spread_hash no_os never toy_store
       (toy_parts @ [[], ''f'']) ''text'' None empty_world = Inr (content, w')
     \<and> materialize_content (\<lambda>_. Some toy_manifest) spread_hash toy_store content w' = Inr ''abcde''"
proof -
  from toy_ingest_runs obtain content w' where i: "ingest_chunk_reader toy_number spread_hash no_os never toy_store
       (toy_parts @ [[], ''f'']) ''text'' None empty_world = Inr (content, w')"
    by (auto simp: is_ok_iff)
  have "materialize_content (\<lambda>_. Some toy_manifest) spread_hash toy_store content w' = Inr (concat toy_parts)"
    using ingest_materializes[OF i, of toy_parts toy_manifest "\<lambda>_. Some toy_manifest"]
    by (simp add: toy_parts_def toy_manifest_def toy_store_def)
  with i show ?thesis by (auto simp: toy_parts_def)
qed

text \<open>
  C40: ingestion succeeds on every stream it should accept. If the reads fill the buffer up to
  the last, the limits on chunks, bytes and the manifest's text hold, no digest collides with a
  different stored object, renames work and nobody cancels, then the content is ingested.
\<close>
theorem ingest_succeeds:
  assumes "hex_digest H" "renames_work os" "\<And>n. \<not> cancelled n"
    and "no_collision H st Chunk parts w" "fits parts 0 0"
    and "parts = takeWhile (\<lambda>b. b \<noteq> []) reads"
    and "m = chunked_manifest H (store_chunk_size st) (of_nat (length (concat parts))) parts"
    and "with_chunk_size root chunk_size = Inr st"
    and "full_chunks (unat (store_chunk_size st)) (map length parts)"
    and "\<not> of_nat (length (write_canonical_json_v4 J (chunk_manifest_json m))) > max_bytes ChunkManifest"
    and "no_collision H st ChunkManifest [write_canonical_json_v4 J (chunk_manifest_json m)] w"
  shows "is_ok (ingest_chunk_reader J H os cancelled st reads media logical w)"
proof -
  have "unat (ucast x :: u64) = unat x" for x :: u32
    using unsigned_less[of x, where ?'a = nat] by (simp add: unsigned_ucast_eq take_bit_nat_eq_self)
  then have "0 < store_chunk_size st" "store_chunk_size st \<le> CHUNK_SIZE_V4"
    using assms(8) by (auto simp: with_chunk_size_def bindr_eq_Inr_iff unat_gt_0 word_less_nat_alt word_le_nat_alt)
  then show ?thesis
    by (intro ingest_ok[where parts = parts and m = m and st = st]) (rule assms | assumption)+
qed

theorem ingest_succeeds_witness:
  "is_ok (ingest_chunk_reader toy_number spread_hash no_os never toy_store toy_parts ''text'' None empty_world)"
  using toy_no_collision toy_parts_fit toy_manifest_small spread_hash_hex
  by (intro ingest_succeeds[where m = toy_manifest and parts = toy_parts and root = "[''r'']" and chunk_size = 2])
    (auto simp: renames_work_def no_os_def never_def toy_parts_def toy_manifest_def toy_store_def
       CHUNK_SIZE_V4_def with_chunk_size_def intro!: no_collision_empty)

text \<open>
  the chunks of an ingested content are determined by its bytes. An ingestion succeeds only
  if every read but the last filled the chunk buffer, so the manifest never depends on how the
  reads happened to split the stream: a short read in the middle is refused, not recorded.
\<close>
theorem ingest_refuses_short_reads:
  assumes "ingest_chunk_reader J H os cancelled st reads media logical w = Inr (content, w')"
    and "list_all (\<lambda>b. length b \<le> unat (store_chunk_size st)) reads"
  shows "full_chunks (unat (store_chunk_size st)) (map length (takeWhile (\<lambda>b. b \<noteq> []) reads))"
proof -
  let ?parts = "takeWhile (\<lambda>b. b \<noteq> []) reads"
  from ingest_Inr[OF assms(1)] obtain len where
    "validate_chunk_manifest_v4 (chunked_manifest H (store_chunk_size st) len ?parts) = Inr ()" by metis
  then have v: "0 < store_chunk_size st"
    "full_chunks (unat (store_chunk_size st)) (map unat (part_lengths ?parts))"
    by (simp_all add: validate_chunk_manifest_iff chunked_manifest_def describe_chunk_def part_lengths_def comp_def)
  have "length b < 18446744073709551616" if "b \<in> set ?parts" for b
  proof -
    from that assms(2) have "length b \<le> unat (store_chunk_size st)"
      by (auto simp: list_all_iff dest: set_takeWhileD)
    also have "\<dots> < 2 ^ 32" using unsigned_less[of "store_chunk_size st", where ?'a = nat] by simp
    finally show ?thesis by simp
  qed
  with v show ?thesis by (intro full_chunks_lengths) (simp_all add: unat_gt_0 word_gt_0)
qed

theorem ingest_refuses_short_reads_witness:
  "full_chunks 2 (map length toy_parts)"
proof -
  from toy_ingest_runs obtain content w' where
    "ingest_chunk_reader toy_number spread_hash no_os never toy_store (toy_parts @ [[], ''f''])
       ''text'' None empty_world = Inr (content, w')"
    by (auto simp: is_ok_iff)
  from ingest_refuses_short_reads[OF this] show ?thesis
    by (simp add: toy_parts_def toy_store_def)
qed

text \<open>
  validation implies readability. A content that passes validation materializes, to bytes
  with its declared length and its logical hash.
\<close>
theorem validated_content_materializes:
  assumes "validate_content decode H st content w = Inr ()"
  shows "\<exists>bs. materialize_content decode H st content w = Inr bs
    \<and> digest_bytes_v4 H bs = logical_sha256 content \<and> of_nat (length bs) = content_byte_length content"
proof (cases "storage content")
  case (WholeRef s)
  with assms show ?thesis
    by (auto simp: validate_content_def materialize_content_def digest_bytes_v4_def bindr_eq_Inr_iff)
next
  case (ChunkedRef m)
  from assms[unfolded validate_content_chunked_iff[OF ChunkedRef]] obtain manifest parts where
    v: "read_json decode H st ChunkManifest m w = Inr manifest" "validate_chunk_manifest_v4 manifest = Inr ()"
      "map_res (read_chunk H st w) (cm_chunks manifest) = Inr parts"
      "checked_sum 0 (part_lengths parts) = Some (content_byte_length content)"
      "digest_bytes_v4 H (concat parts) = logical_sha256 content" by blast
  have "of_nat (length (concat parts)) = content_byte_length content"
    using checked_sum_word[OF v(4)] sum_part_lengths[of parts] by simp
  with v ChunkedRef show ?thesis by (simp add: materialize_content_def)
qed

definition whole_content :: content_ref_v4 where
  "whole_content = \<lparr>logical_sha256 = digest_bytes_v4 spread_hash ''ab'', content_byte_length = 2,
     storage = WholeRef (digest_bytes_v4 spread_hash ''ab''), media_type = ''text'', logical_path = None\<rparr>"

definition one_object_world :: world where
  "one_object_world = empty_world\<lparr>files := (\<lambda>p. if Inr p = typed_object_path_v4 [''r''] Whole
     (digest_bytes_v4 spread_hash ''ab'') then Some ''ab'' else None)\<rparr>"

theorem validated_content_materializes_witness:
  "\<exists>bs. materialize_content (\<lambda>_. None) spread_hash toy_store whole_content one_object_world = Inr bs
     \<and> digest_bytes_v4 spread_hash bs = logical_sha256 whole_content"
proof -
  have "validate_content (\<lambda>_. None) spread_hash toy_store whole_content one_object_world = Inr ()"
    by code_simp
  from validated_content_materializes[OF this] show ?thesis by blast
qed

text \<open>The chunks of a text: the only way to cut it into full chunks.\<close>

function chunks_of :: "nat \<Rightarrow> bytes \<Rightarrow> bytes list" where
  "chunks_of n bs = (if bs = [] \<or> n = 0 then [] else take n bs # chunks_of n (drop n bs))"
  by pat_completeness auto
termination by (relation "measure (\<lambda>(n, bs). length bs)") auto

declare chunks_of.simps [simp del]

lemma chunks_of_unique:
  "0 < n \<Longrightarrow> full_chunks n (map length cs) \<Longrightarrow> chunks_of n (concat cs) = cs"
proof (induction cs)
  case Nil
  show ?case by (simp add: chunks_of.simps)
next
  case (Cons c cs)
  have c: "c \<noteq> []" "length c \<le> n" "full_chunks n (map length cs)" "cs \<noteq> [] \<Longrightarrow> length c = n"
    using Cons.prems by (auto simp: full_chunks_Cons)
  have "take n (concat (c # cs)) = c \<and> drop n (concat (c # cs)) = concat cs"
    using c(2,4) by (cases "cs = []") auto
  moreover have "chunks_of n (concat (c # cs)) =
      take n (concat (c # cs)) # chunks_of n (drop n (concat (c # cs)))"
    using c(1) Cons.prems(1) by (subst chunks_of.simps) auto
  ultimately show ?case using Cons.IH[OF Cons.prems(1) c(3)] by simp
qed

text \<open>
  C20: streaming a rollout into the store agrees with normalizing it in memory. The content of an
  ingested rollout has the hash, the length and the warnings of the in-memory result, validates,
  and materializes to exactly the normalized bytes, whatever the store's chunk size.
\<close>
theorem normalized_ingest_agrees:
  assumes "normalize_and_ingest_rollout J H os never st source tid media logical w = Inr ((content, ws), w')"
    and "normalize_rollout_bytes J H source tid = Inr r"
    and "hex_digest H" and "store_chunk_size st \<le> CHUNK_SIZE_V4"
    and "m = chunked_manifest H (store_chunk_size st) (nr_byte_length r)
           (chunks_of (unat (store_chunk_size st)) (nr_normalized_bytes r))"
    and "decode (write_canonical_json_v4 J (chunk_manifest_json m)) = Some m"
  shows "materialize_content decode H st content w' = Inr (nr_normalized_bytes r)
    \<and> validate_content decode H st content w' = Inr ()
    \<and> logical_sha256 content = nr_logical_sha256 r
    \<and> content_byte_length content = nr_byte_length r \<and> ws = nr_warnings r"
proof -
  let ?n = "unat (store_chunk_size st)"
  from assms(1) obtain res w1 mr where
    nr: "normalize_rollout_reader J H (install_kind H os st Chunk) never source tid ?n w = Inr (res, w1)"
    and store: "store_json J H os st ChunkManifest (chunk_manifest_json \<lparr>cm_schema_version = 4,
       cm_logical_sha256 = nr_logical_sha256 res, cm_byte_length = nr_byte_length res,
       cm_chunk_size = store_chunk_size st, cm_chunks = nr_chunks res\<rparr>) w1 = Inr (mr, w')"
    and content: "content = \<lparr>logical_sha256 = nr_logical_sha256 res, content_byte_length = nr_byte_length res,
       storage = ChunkedRef (ref_sha256 mr), media_type = media, logical_path = logical\<rparr>"
    and ws: "ws = nr_warnings res"
    unfolding normalize_and_ingest_rollout_def by (auto simp: bindr_eq_Inr_iff Let_def)
  from nr obtain outs ws' em where n: "0 < ?n"
    "normalize_scan J tid 0 False (lines_of source) = Inr (True, outs, ws')"
    "emit_all H (install_kind H os st Chunk) ?n w outs = Inr em" "res = rollout_result H ws' em"
    "w1 = sink_state em"
    by (auto simp: normalize_reader_Inr_iff)
  from normalize_bytes_Inr[OF assms(2)] obtain outs2 ws2 em2 where
    m2: "normalize_scan J tid 0 False (lines_of source) = Inr (True, outs2, ws2)"
    "emit_all H collect_bytes (unat CHUNK_SIZE_V4) [] outs2 = Inr em2"
    "r = (rollout_result H ws2 em2)\<lparr>nr_normalized_bytes := concat outs2\<rparr>" .
  with n(2) have same: "outs2 = outs" "ws2 = ws'" by simp_all
  from emit_all_chunks[OF n(3,1)] obtain cs where cs: "concat outs = concat cs"
    "full_chunks ?n (map length cs)" "emitted_chunks em = map (describe_chunk H) cs"
    "hashed em = concat cs" "foldr_res (install_kind H os st Chunk) cs w = Inr (sink_state em)"
    "checked_sum 0 (part_lengths cs) = Some (emitted_total em)" unfolding part_lengths_def by metis
  have "0 < unat CHUNK_SIZE_V4" by (simp add: CHUNK_SIZE_V4_def)
  from emit_all_chunks[OF m2(2) this] obtain ds where ds: "concat outs = concat ds"
    "hashed em2 = concat ds" "checked_sum 0 (part_lengths ds) = Some (emitted_total em2)"
    unfolding part_lengths_def same by metis
  have total_same: "emitted_total em2 = emitted_total em"
    using checked_sum_word[OF cs(6)] checked_sum_word[OF ds(3)] cs(1) ds(1) by (simp add: sum_part_lengths)
  have parts: "chunks_of ?n (nr_normalized_bytes r) = cs"
    using chunks_of_unique[OF n(1) cs(2)] cs(1) m2(3) same by simp
  have len: "nr_byte_length r = emitted_total em" using m2(3) total_same by (simp add: rollout_result_def)
  have m: "\<lparr>cm_schema_version = 4, cm_logical_sha256 = nr_logical_sha256 res, cm_byte_length = nr_byte_length res,
       cm_chunk_size = store_chunk_size st, cm_chunks = nr_chunks res\<rparr> = m"
    unfolding assms(5) parts len n(4)
    by (simp add: rollout_result_def chunked_manifest_def cs digest_bytes_v4_def)
  have lens: "map (\<lambda>b. unat (of_nat (length b) :: u64)) cs = map length cs"
  proof (intro map_cong refl)
    fix b assume "b \<in> set cs"
    with full_chunks_pos[OF n(1) cs(2), of "length b"] assms(4)
    show "unat (of_nat (length b) :: u64) = length b"
      by (intro unat_of_nat_u64) (auto simp: word_le_nat_alt limits)
  qed
  have "unat (emitted_total em) = length (concat cs)"
    using checked_sum_unat[OF cs(6)] lens by (simp add: part_lengths_def comp_def length_concat)
  then have valid: "validate_chunk_manifest_v4 m = Inr ()"
    using assms(4) valid_id_digest[OF assms(3)] cs(2) n(1)
    by (simp add: validate_chunk_manifest_iff assms(5) parts len chunked_manifest_def describe_chunk_def
        comp_def list_all_iff lens unat_gt_0 word_gt_0) (simp add: length_concat)
  note reads = chunked_content_reads_back[OF cs(5) assms(5)[unfolded parts len] cs(6) valid
      store[unfolded m n(5)], of decode content]
  have r: "nr_normalized_bytes r = concat cs" "nr_logical_sha256 r = digest_bytes_v4 H (concat cs)"
    "nr_warnings r = ws'"
    using m2(3) same cs(1) ds by (simp_all add: rollout_result_def digest_bytes_v4_def)
  have c: "storage content = ChunkedRef (ref_sha256 mr)"
    "logical_sha256 content = digest_bytes_v4 H (concat cs)" "content_byte_length content = emitted_total em"
    by (simp_all add: content n(4) rollout_result_def cs(4) digest_bytes_v4_def)
  from reads[OF assms(6) c] show ?thesis
    using r c ws len n(4) by (simp add: rollout_result_def)
qed

definition full_store :: content_store_v4 where
  "full_store = \<lparr>store_root = [''r''], store_chunk_size = CHUNK_SIZE_V4\<rparr>"

lemma toy_hash_hex: "hex_digest toy_hash"
proof -
  have "is_lower_hex (CHR ''0'')" by code_simp
  then show ?thesis by (simp add: hex_digest_def toy_hash_def list_all_iff)
qed

theorem normalized_ingest_agrees_witness:
  "\<exists>decode content ws w' r.
     normalize_and_ingest_rollout toy_lib toy_hash no_os never full_store toy_rollout ''t'' ''text'' None empty_world
       = Inr ((content, ws), w')
     \<and> normalize_rollout_bytes toy_lib toy_hash toy_rollout ''t'' = Inr r
     \<and> materialize_content decode toy_hash full_store content w' = Inr (nr_normalized_bytes r)"
proof -
  have "is_ok (normalize_and_ingest_rollout toy_lib toy_hash no_os never full_store toy_rollout ''t'' ''text'' None empty_world)"
    by code_simp
  then obtain content ws w' where i: "normalize_and_ingest_rollout toy_lib toy_hash no_os never full_store
      toy_rollout ''t'' ''text'' None empty_world = Inr ((content, ws), w')"
    by (auto simp: is_ok_iff)
  from toy_runs obtain r where r: "normalize_rollout_bytes toy_lib toy_hash toy_rollout ''t'' = Inr r"
    by (auto simp: is_ok_iff)
  let ?m = "chunked_manifest toy_hash (store_chunk_size full_store) (nr_byte_length r)
       (chunks_of (unat (store_chunk_size full_store)) (nr_normalized_bytes r))"
  from normalized_ingest_agrees[OF i r toy_hash_hex _ refl, of "\<lambda>_. Some ?m"] i r
  show ?thesis by (auto simp: full_store_def)
qed

end
