(* ===== verification/Bundles.thy ===== *)
theory Bundles
  imports ContentStore
begin

text \<open>
  models.rs: a thread as the synchronizer sees it, its serialized form, and sync.rs's projection
  to what is common to all machines (\<open>remote_thread_view\<close>) and the hash of that projection.
  \<open>to_vec\<close> is \<open>serde_json::to_vec\<close>; the derived serializers are the \<open>..._json\<close> functions, whose
  members are in declaration order.
\<close>

record content_object =
  co_sha256 :: string
  co_byte_length :: u64
  co_media_type :: string
  co_logical_path :: "string option"
  co_source_path :: "string option"
  co_storage :: "storage_ref_v4 option"

record workspace_ref =
  ws_logical_id :: "string option"
  ws_source_path :: "string option"

record related_records =
  rr_source_database :: "string option"
  rr_tables :: "(string, json list) btree_map"

record thread_bundle =
  tb_schema_version :: u32
  thread_id :: string
  tb_title :: string
  archived :: bool
  created_at_ms :: "i64 option"
  updated_at_ms :: "i64 option"
  model_provider :: "string option"
  workspace :: workspace_ref
  rollout :: content_object
  related :: related_records
  attachments :: "content_object list"

record thread_ref_v4 =
  tref_thread_id :: string
  tref_descriptor_sha256 :: string

section \<open>Serialized form\<close>

definition json_i64 :: "i64 \<Rightarrow> json" where
  "json_i64 i = JNumber (if sint i < 0 then NegInt i else PosInt i)"

definition json_option :: "('a \<Rightarrow> json) \<Rightarrow> 'a option \<Rightarrow> json" where
  "json_option f x = (case x of None \<Rightarrow> JNull | Some a \<Rightarrow> f a)"

definition storage_ref_json :: "storage_ref_v4 \<Rightarrow> json" where
  "storage_ref_json r = (case r of
      WholeRef s \<Rightarrow> JObject [(''kind'', JString ''whole''), (''object_sha256'', JString s)]
    | ChunkedRef s \<Rightarrow> JObject [(''kind'', JString ''chunked''), (''manifest_sha256'', JString s)])"

definition content_object_json :: "content_object \<Rightarrow> json" where
  "content_object_json c = JObject (
     [(''sha256'', JString (co_sha256 c)),
      (''byteLength'', JNumber (PosInt (co_byte_length c))),
      (''mediaType'', JString (co_media_type c)),
      (''logicalPath'', json_option JString (co_logical_path c))]
     @ (case co_storage c of None \<Rightarrow> [] | Some r \<Rightarrow> [(''storage'', storage_ref_json r)]))"

definition workspace_json :: "workspace_ref \<Rightarrow> json" where
  "workspace_json x = JObject
     [(''logicalId'', json_option JString (ws_logical_id x)),
      (''sourcePath'', json_option JString (ws_source_path x))]"

definition thread_json :: "thread_bundle \<Rightarrow> json" where
  "thread_json t = JObject
     [(''schemaVersion'', JNumber (PosInt (ucast (tb_schema_version t)))),
      (''threadId'', JString (thread_id t)),
      (''title'', JString (tb_title t)),
      (''archived'', JBool (archived t)),
      (''createdAtMs'', json_option json_i64 (created_at_ms t)),
      (''updatedAtMs'', json_option json_i64 (updated_at_ms t)),
      (''modelProvider'', json_option JString (model_provider t)),
      (''workspace'', workspace_json (workspace t)),
      (''rollout'', content_object_json (rollout t)),
      (''relatedRecords'', JObject [(''tables'',
         JObject (map (\<lambda>(table, rows). (table, JArray rows)) (rr_tables (related t))))]),
      (''attachments'', JArray (map content_object_json (attachments t)))]"

section \<open>The common view\<close>

definition view_threads_row :: "(string \<times> json) list \<Rightarrow> (string \<times> json) list" where
  "view_threads_row row =
     (let updated_at = get_i64 row ''updated_at'';
          updated_at_ms = (case get_i64 row ''updated_at_ms'' of
              Some v \<Rightarrow> Some v
            | None \<Rightarrow> Option.bind updated_at (\<lambda>v. checked_mul_i64 v 1000));
          recency_at = get_i64 row ''recency_at'';
          recency_at_ms = get_i64 row ''recency_at_ms'';
          row = (if recency_at = Some 0 \<or> recency_at = updated_at then bt_remove ''recency_at'' row else row);
          row = (if recency_at_ms = Some 0 \<or> recency_at_ms = updated_at_ms
                 then bt_remove ''recency_at_ms'' row else row)
      in if get_str row ''history_mode'' = Some ''legacy'' then bt_remove ''history_mode'' row else row)"

definition view_row :: "string \<Rightarrow> json \<Rightarrow> json" where
  "view_row table v = (case v of
      JObject row \<Rightarrow>
        let row = bt_remove ''cwd'' (bt_remove ''model_provider'' (bt_remove ''codex_home''
                    (bt_remove ''rollout_path'' row)));
            row = filter (\<lambda>e. snd e \<noteq> JNull) row
        in JObject (if table = ''threads'' then view_threads_row row else row)
    | _ \<Rightarrow> v)"

definition remote_content_view :: "content_object \<Rightarrow> content_object" where
  "remote_content_view c = c\<lparr>co_source_path := None, co_storage := None\<rparr>"

definition remote_thread_view :: "thread_bundle \<Rightarrow> thread_bundle" where
  "remote_thread_view t = t\<lparr>
     model_provider := None,
     workspace := (workspace t)\<lparr>ws_source_path := None\<rparr>,
     rollout := remote_content_view (rollout t),
     attachments := map remote_content_view (attachments t),
     related := \<lparr>rr_source_database = None,
       rr_tables = map (\<lambda>(table, rows). (table, map (view_row table) rows)) (rr_tables (related t))\<rparr>\<rparr>"

definition semantic_thread_hash :: "(json \<Rightarrow> bytes) \<Rightarrow> (bytes \<Rightarrow> string) \<Rightarrow> thread_bundle \<Rightarrow> string" where
  "semantic_thread_hash to_vec H t = ''sha256:'' @ H (to_vec (thread_json (remote_thread_view t)))"

section \<open>Properties of the view\<close>

lemma bt_remove_filter: "bt_remove k (filter p m) = filter p (bt_remove k m)"
  by (simp add: bt_remove_def conj_commute)

lemma bt_remove_absent: "bt_get m k = None \<Longrightarrow> bt_remove k m = m"
  by (induction m) (auto simp: bt_get_def bt_remove_def split: if_splits)

lemma bt_remove_twice [simp]: "bt_remove k (bt_remove k m) = bt_remove k m"
  by (simp add: bt_remove_def)

lemma bt_remove_commute: "bt_remove j (bt_remove k m) = bt_remove k (bt_remove j m)"
  by (simp add: bt_remove_def conj_commute)

lemma get_i64_remove: "get_i64 (bt_remove j m) k = (if k = j then None else get_i64 m k)"
  by (simp add: get_i64_def bt_get_remove)

lemma get_str_remove: "get_str (bt_remove j m) k = (if k = j then None else get_str m k)"
  by (simp add: get_str_def bt_get_remove)

lemma bt_remove_not_removed:
  "bt_remove j (bt_remove k (bt_remove j m)) = bt_remove j (bt_remove k m)"
  by (auto simp: bt_remove_def intro!: filter_cong)

lemma view_threads_row_idem: "view_threads_row (view_threads_row row) = view_threads_row row"
proof -
  define p where "p \<longleftrightarrow> get_i64 row ''recency_at'' = Some 0 \<or> get_i64 row ''recency_at'' = get_i64 row ''updated_at''"
  define um where "um = (case get_i64 row ''updated_at_ms'' of Some v \<Rightarrow> Some v
      | None \<Rightarrow> Option.bind (get_i64 row ''updated_at'') (\<lambda>v. checked_mul_i64 v 1000))"
  define q where "q \<longleftrightarrow> get_i64 row ''recency_at_ms'' = Some 0 \<or> get_i64 row ''recency_at_ms'' = um"
  define h where "h \<longleftrightarrow> get_str row ''history_mode'' = Some ''legacy''"
  define a where "a = (if p then bt_remove ''recency_at'' row else row)"
  define b where "b = (if q then bt_remove ''recency_at_ms'' a else a)"
  define c where "c = (if h then bt_remove ''history_mode'' b else b)"
  have c: "view_threads_row row = c"
    by (simp add: view_threads_row_def Let_def a_def b_def c_def p_def q_def um_def h_def get_str_remove)
  have keep: "get_i64 c ''updated_at'' = get_i64 row ''updated_at''"
    "get_i64 c ''updated_at_ms'' = get_i64 row ''updated_at_ms''"
    "get_i64 c ''recency_at'' = (if p then None else get_i64 row ''recency_at'')"
    "get_i64 c ''recency_at_ms'' = (if q then None else get_i64 row ''recency_at_ms'')"
    "get_str c ''history_mode'' = (if h then None else get_str row ''history_mode'')"
    by (simp_all add: a_def b_def c_def get_i64_remove get_str_remove)
  have gone: "p \<Longrightarrow> bt_remove ''recency_at'' c = c" "q \<Longrightarrow> bt_remove ''recency_at_ms'' c = c"
    "h \<Longrightarrow> bt_remove ''history_mode'' c = c"
    by (auto simp: a_def b_def c_def bt_remove_def intro!: filter_cong)
  have r1: "(if get_i64 c ''recency_at'' = Some 0 \<or> get_i64 c ''recency_at'' = get_i64 c ''updated_at''
      then bt_remove ''recency_at'' c else c) = c"
    using gone(1) by (cases p) (simp_all add: keep p_def)
  have r2: "(if get_i64 c ''recency_at_ms'' = Some 0 \<or> get_i64 c ''recency_at_ms'' = um
      then bt_remove ''recency_at_ms'' c else c) = c"
    using gone(2) by (cases q) (simp_all add: keep q_def)
  have r3: "(if get_str c ''history_mode'' = Some ''legacy'' then bt_remove ''history_mode'' c else c) = c"
    using gone(3) by (cases h) (simp_all add: keep h_def)
  have um: "um = (case get_i64 c ''updated_at_ms'' of Some v \<Rightarrow> Some v
      | None \<Rightarrow> Option.bind (get_i64 c ''updated_at'') (\<lambda>v. checked_mul_i64 v 1000))"
    unfolding um_def keep ..
  have "view_threads_row c = c"
    unfolding view_threads_row_def Let_def um[symmetric] r1 r2 r3 ..
  then show ?thesis by (simp add: c)
qed

lemma remove_if: "(if c then bt_remove k r else r) = filter (\<lambda>e. c \<longrightarrow> fst e \<noteq> k) r"
  by (auto simp: bt_remove_def)

lemma view_threads_row_filter: "\<exists>p. view_threads_row row = filter p row"
  unfolding view_threads_row_def Let_def remove_if filter_filter by blast

definition local_column :: "string \<Rightarrow> bool" where
  "local_column k \<longleftrightarrow> k = ''rollout_path'' \<or> k = ''codex_home'' \<or> k = ''model_provider'' \<or> k = ''cwd''"

lemma remove_local_columns:
  "filter (\<lambda>e. snd e \<noteq> JNull) (bt_remove ''cwd'' (bt_remove ''model_provider'' (bt_remove ''codex_home''
     (bt_remove ''rollout_path'' row)))) = filter (\<lambda>e. \<not> local_column (fst e) \<and> snd e \<noteq> JNull) row"
  by (auto simp: bt_remove_def local_column_def intro!: filter_cong)

lemma view_row_object:
  "view_row table (JObject row) = (let kept = filter (\<lambda>e. \<not> local_column (fst e) \<and> snd e \<noteq> JNull) row
     in JObject (if table = ''threads'' then view_threads_row kept else kept))"
  unfolding view_row_def Let_def json.case remove_local_columns ..

lemma view_row_idem: "view_row table (view_row table v) = view_row table v"
proof (cases v)
  case (JObject row)
  let ?p = "\<lambda>e :: string \<times> json. \<not> local_column (fst e) \<and> snd e \<noteq> JNull"
  have keep: "filter ?p (view_threads_row (filter ?p row)) = view_threads_row (filter ?p row)"
    using view_threads_row_filter[of "filter ?p row"] by (auto simp: conj_commute intro: filter_cong)
  show ?thesis
    by (cases "table = ''threads''")
      (simp_all add: JObject view_row_object Let_def keep view_threads_row_idem)
qed (simp_all add: view_row_def)

lemma remote_view_idem: "remote_thread_view (remote_thread_view t) = remote_thread_view t"
  by (simp add: remote_thread_view_def remote_content_view_def view_row_idem comp_def case_prod_unfold)

lemma hash_of_view: "semantic_thread_hash to_vec H (remote_thread_view t) = semantic_thread_hash to_vec H t"
  by (simp add: semantic_thread_hash_def remote_view_idem)

lemma thread_id_view [simp]: "thread_id (remote_thread_view t) = thread_id t"
  by (simp add: remote_thread_view_def)

text \<open>What one machine knows of a thread and another does not.\<close>

definition relocated ::
  "string option \<Rightarrow> string option \<Rightarrow> string option \<Rightarrow> storage_ref_v4 option \<Rightarrow> string option \<Rightarrow>
     thread_bundle \<Rightarrow> thread_bundle" where
  "relocated provider cwd source stored database t = t\<lparr>
     model_provider := provider,
     workspace := (workspace t)\<lparr>ws_source_path := cwd\<rparr>,
     rollout := (rollout t)\<lparr>co_source_path := source, co_storage := stored\<rparr>,
     attachments := map (\<lambda>c. c\<lparr>co_source_path := source, co_storage := stored\<rparr>) (attachments t),
     related := (related t)\<lparr>rr_source_database := database,
       rr_tables := map (\<lambda>(table, rows). (table, map (\<lambda>v. case v of
           JObject row \<Rightarrow> JObject (filter (\<lambda>e. \<not> local_column (fst e)) row) | _ \<Rightarrow> v) rows))
         (rr_tables (related t))\<rparr>\<rparr>"

lemma view_row_local:
  "view_row table (case v of JObject row \<Rightarrow> JObject (filter (\<lambda>e. \<not> local_column (fst e)) row) | _ \<Rightarrow> v)
     = view_row table v"
  by (cases v) (simp_all add: view_row_object Let_def conj_commute conj_left_commute)

lemma view_relocated: "remote_thread_view (relocated provider cwd source stored database t) = remote_thread_view t"
  by (simp add: remote_thread_view_def relocated_def remote_content_view_def view_row_local
      comp_def case_prod_unfold)

end
