(* ===== verification/Merge.thy ===== *)
theory Merge
  imports Bundles
begin

text \<open>
  The three-way merge of sync.rs: \<open>merge_thread_sets\<close> and \<open>resolve_thread_sets\<close>. Threads are
  indexed by identifier through the \<open>keyed_table\<close> interface, compared by their semantic hash,
  and visited in identifier order.
\<close>

datatype thread_conflict_kind = BothModified | LocalDeletedRemoteModified | RemoteDeletedLocalModified

record thread_conflict_version =
  cv_title :: string
  cv_archived :: bool
  cv_updated_at_ms :: "i64 option"
  cv_model_provider :: "string option"
  cv_workspace_source_path :: "string option"
  cv_semantic_hash :: string

record thread_conflict =
  tc_conflict_id :: string
  tc_thread_id :: string
  tc_title :: string
  tc_kind :: thread_conflict_kind
  tc_base :: "thread_conflict_version option"
  tc_local :: "thread_conflict_version option"
  tc_remote :: "thread_conflict_version option"

datatype thread_resolution_choice = ChooseLocal | ChooseRemote

record thread_conflict_resolution =
  res_conflict_id :: string
  res_thread_id :: string
  res_choice :: thread_resolution_choice

record thread_merge_outcome =
  merged_threads :: "thread_bundle list"
  merge_conflicts :: "thread_conflict list"

definition conflict_kind_text :: "thread_conflict_kind \<Rightarrow> string" where
  "conflict_kind_text k = (case k of
      BothModified \<Rightarrow> ''both_modified''
    | LocalDeletedRemoteModified \<Rightarrow> ''local_deleted_remote_modified''
    | RemoteDeletedLocalModified \<Rightarrow> ''remote_deleted_local_modified'')"

definition conflict_fingerprint ::
  "(json \<Rightarrow> bytes) \<Rightarrow> (bytes \<Rightarrow> string) \<Rightarrow> string \<Rightarrow> thread_conflict_kind \<Rightarrow> thread_conflict_version option \<Rightarrow>
     thread_conflict_version option \<Rightarrow> thread_conflict_version option \<Rightarrow> string" where
  "conflict_fingerprint to_vec H tid kind base local remote =
     (let bs = to_vec (JArray [JString tid, JString (conflict_kind_text kind),
        json_option JString (map_option cv_semantic_hash base),
        json_option JString (map_option cv_semantic_hash local),
        json_option JString (map_option cv_semantic_hash remote)])
      in ''sha256:'' @ H bs)"

definition conflict_version ::
  "(json \<Rightarrow> bytes) \<Rightarrow> (bytes \<Rightarrow> string) \<Rightarrow> thread_bundle option \<Rightarrow> thread_conflict_version option" where
  "conflict_version to_vec H thread = map_option (\<lambda>t.
     \<lparr>cv_title = tb_title t, cv_archived = archived t, cv_updated_at_ms = updated_at_ms t,
      cv_model_provider = model_provider t, cv_workspace_source_path = ws_source_path (workspace t),
      cv_semantic_hash = semantic_thread_hash to_vec H t\<rparr>) thread"

definition semantic_option_eq ::
  "(json \<Rightarrow> bytes) \<Rightarrow> (bytes \<Rightarrow> string) \<Rightarrow> thread_bundle option \<Rightarrow> thread_bundle option \<Rightarrow> bool" where
  "semantic_option_eq to_vec H left right = (case (left, right) of
      (None, None) \<Rightarrow> True
    | (Some l, Some r) \<Rightarrow> semantic_thread_hash to_vec H l = semantic_thread_hash to_vec H r
    | _ \<Rightarrow> False)"

definition thread_map :: "thread_bundle list \<Rightarrow> string + (string, thread_bundle) btree_map" where
  "thread_map threads = bt.index_from (\<lambda>_. Inr ()) thread_id (\<lambda>t. t)
     (\<lambda>t. ''duplicate thread ID '' @ thread_id t) threads []"

definition option_or :: "'a option \<Rightarrow> 'a option \<Rightarrow> 'a option" where
  "option_or a b = (case a of Some x \<Rightarrow> Some x | None \<Rightarrow> b)"

text \<open>The body of the loop: a selection, or a conflict.\<close>

definition merge_one ::
  "(json \<Rightarrow> bytes) \<Rightarrow> (bytes \<Rightarrow> string) \<Rightarrow> string \<Rightarrow> thread_bundle option \<Rightarrow> thread_bundle option \<Rightarrow>
     thread_bundle option \<Rightarrow> thread_conflict + thread_bundle option" where
  "merge_one to_vec H tid base_thread local_thread remote_thread =
     (let local_changed = \<not> semantic_option_eq to_vec H local_thread base_thread;
          remote_changed = \<not> semantic_option_eq to_vec H remote_thread base_thread
      in if \<not> local_changed \<and> \<not> remote_changed then Inr (option_or local_thread remote_thread)
         else if local_changed \<and> \<not> remote_changed then Inr local_thread
         else if \<not> local_changed \<and> remote_changed then Inr remote_thread
         else if semantic_option_eq to_vec H local_thread remote_thread then Inr local_thread
         else let kind = (case (local_thread, remote_thread) of
                    (None, Some _) \<Rightarrow> LocalDeletedRemoteModified
                  | (Some _, None) \<Rightarrow> RemoteDeletedLocalModified
                  | _ \<Rightarrow> BothModified);
                title = (case option_or (option_or local_thread remote_thread) base_thread of
                    Some t \<Rightarrow> tb_title t | None \<Rightarrow> tid);
                base = conflict_version to_vec H base_thread;
                local = conflict_version to_vec H local_thread;
                remote = conflict_version to_vec H remote_thread
           in Inl \<lparr>tc_conflict_id = conflict_fingerprint to_vec H tid kind base local remote,
                 tc_thread_id = tid, tc_title = title, tc_kind = kind, tc_base = base,
                 tc_local = local, tc_remote = remote\<rparr>)"

definition merge_step ::
  "(json \<Rightarrow> bytes) \<Rightarrow> (bytes \<Rightarrow> string) \<Rightarrow> (string, thread_bundle) btree_map \<Rightarrow> (string, thread_bundle) btree_map \<Rightarrow>
     (string, thread_bundle) btree_map \<Rightarrow> thread_bundle list \<times> thread_conflict list \<Rightarrow> string \<Rightarrow>
     thread_bundle list \<times> thread_conflict list" where
  "merge_step to_vec H base local remote acc tid =
     (case merge_one to_vec H tid (bt_get base tid) (bt_get local tid) (bt_get remote tid) of
        Inl c \<Rightarrow> (fst acc, snd acc @ [c])
      | Inr None \<Rightarrow> acc
      | Inr (Some t) \<Rightarrow> (fst acc @ [t], snd acc))"

definition merge_thread_sets ::
  "(json \<Rightarrow> bytes) \<Rightarrow> (bytes \<Rightarrow> string) \<Rightarrow> thread_bundle list \<Rightarrow> thread_bundle list \<Rightarrow> thread_bundle list \<Rightarrow>
     string + thread_merge_outcome" where
  "merge_thread_sets to_vec H base0 local0 remote0 =
     bindr (thread_map base0) (\<lambda>base.
     bindr (thread_map local0) (\<lambda>local.
     bindr (thread_map remote0) (\<lambda>remote.
     let ids = btree_set (bt_keys base @ bt_keys local @ bt_keys remote);
         acc = foldl (merge_step to_vec H base local remote) ([], []) ids
     in Inr \<lparr>merged_threads = sort_key thread_id (fst acc), merge_conflicts = snd acc\<rparr>)))"

definition resolution_index ::
  "thread_conflict_resolution list \<Rightarrow> string + (string, thread_conflict_resolution) btree_map" where
  "resolution_index resolutions = bt.index_from (\<lambda>_. Inr ()) res_thread_id (\<lambda>r. r)
     (\<lambda>r. ''duplicate conflict resolution for thread '' @ res_thread_id r) resolutions []"

definition resolve_step ::
  "(string, thread_conflict_resolution) btree_map \<Rightarrow> (string, thread_bundle) btree_map \<Rightarrow>
     (string, thread_bundle) btree_map \<Rightarrow> thread_conflict \<Rightarrow> thread_bundle list \<Rightarrow> string + thread_bundle list" where
  "resolve_step selected local remote conflict threads =
     bindr (ok_or (''conflict set changed: missing resolution for thread '' @ tc_thread_id conflict)
              (bt_get selected (tc_thread_id conflict))) (\<lambda>resolution.
     bindr (ensure (\<not> res_conflict_id resolution \<noteq> tc_conflict_id conflict)
              (''conflict '' @ tc_thread_id conflict @ '' changed after it was displayed; pull again before resolving'')) (\<lambda>_.
     let thread = (case res_choice resolution of
           ChooseLocal \<Rightarrow> bt_get local (tc_thread_id conflict)
         | ChooseRemote \<Rightarrow> bt_get remote (tc_thread_id conflict))
     in Inr (case thread of Some t \<Rightarrow> threads @ [t] | None \<Rightarrow> threads)))"

definition resolve_thread_sets ::
  "(json \<Rightarrow> bytes) \<Rightarrow> (bytes \<Rightarrow> string) \<Rightarrow> thread_bundle list \<Rightarrow> thread_bundle list \<Rightarrow> thread_bundle list \<Rightarrow>
     thread_conflict_resolution list \<Rightarrow> string + thread_bundle list" where
  "resolve_thread_sets to_vec H base0 local0 remote0 resolutions =
     bindr (merge_thread_sets to_vec H base0 local0 remote0) (\<lambda>outcome.
     bindr (thread_map local0) (\<lambda>local.
     bindr (thread_map remote0) (\<lambda>remote.
     bindr (resolution_index resolutions) (\<lambda>selected.
     bindr (ensure (\<not> length selected \<noteq> length (merge_conflicts outcome)) ''conflict set changed'') (\<lambda>_.
     bindr (foldr_res (resolve_step selected local remote) (merge_conflicts outcome) (merged_threads outcome)) (\<lambda>threads.
       Inr (sort_key thread_id threads)))))))"

end
