(* ===== verification/MergeFacts.thy ===== *)
theory MergeFacts
  imports Merge
begin

text \<open>
  The merge against its specification: which version of every thread it keeps, when it reports a
  conflict, and what a resolution adds. \<open>find_thread\<close> is the thread of an identifier in a list.
\<close>

definition find_thread :: "thread_bundle list \<Rightarrow> string \<Rightarrow> thread_bundle option" where
  "find_thread ts tid = find (\<lambda>t. thread_id t = tid) ts"

lemma find_thread_simps [simp]:
  "find_thread [] tid = None"
  "find_thread (t # ts) tid = (if thread_id t = tid then Some t else find_thread ts tid)"
  by (simp_all add: find_thread_def)

lemma find_thread_append:
  "find_thread (xs @ ys) tid = (case find_thread xs tid of Some t \<Rightarrow> Some t | None \<Rightarrow> find_thread ys tid)"
  by (induction xs) simp_all

lemma find_thread_Some: "find_thread ts tid = Some t \<Longrightarrow> t \<in> set ts \<and> thread_id t = tid"
  by (induction ts) (auto split: if_splits)

lemma find_thread_None: "find_thread ts tid = None \<longleftrightarrow> tid \<notin> thread_id ` set ts"
  by (induction ts) auto

lemma find_thread_distinct:
  "distinct (map thread_id ts) \<Longrightarrow> find_thread ts tid = Some t \<longleftrightarrow> t \<in> set ts \<and> thread_id t = tid"
  by (induction ts) (auto split: if_splits)

lemma find_thread_perm:
  assumes "mset xs = mset ys" "distinct (map thread_id xs)"
  shows "find_thread xs tid = find_thread ys tid"
proof -
  have "distinct (map thread_id ys)" using assms by (metis mset_eq_imp_distinct_iff mset_map)
  with assms find_thread_distinct[of xs tid] find_thread_distinct[of ys tid] mset_eq_setD[OF assms(1)]
  show ?thesis by (metis not_None_eq)
qed

lemma find_thread_map_of: "map_of (map (\<lambda>t. (thread_id t, t)) ts) tid = find_thread ts tid"
  by (induction ts) simp_all

section \<open>The index\<close>

lemma thread_map_Inr:
  assumes "thread_map ts = Inr m"
  shows "bt_ok m" "bt_get m tid = find_thread ts tid" "distinct (map thread_id ts)"
    "set (bt_keys m) = thread_id ` set ts"
proof -
  from assms have i: "bt.index_from (\<lambda>_. Inr ()) thread_id (\<lambda>t. t)
     (\<lambda>t. ''duplicate thread ID '' @ thread_id t) ts [] = Inr m" by (simp add: thread_map_def)
  show "bt_ok m" using bt.index_from_ok[OF _ i] by simp
  have g: "bt_get m k = find_thread ts k" for k
    using bt.index_from_get[OF _ i, of k] by (simp add: find_thread_map_of split: option.splits)
  show "bt_get m tid = find_thread ts tid" by (rule g)
  show "distinct (map thread_id ts)" using bt.index_from_get[OF _ i] by simp
  show "set (bt_keys m) = thread_id ` set ts"
  proof (rule set_eqI)
    show "k \<in> set (bt_keys m) \<longleftrightarrow> k \<in> thread_id ` set ts" for k
      unfolding bt_get_keys[symmetric] g find_thread_None by simp
  qed
qed

lemma thread_map_is_ok: "is_ok (thread_map ts) \<longleftrightarrow> distinct (map thread_id ts)"
  unfolding thread_map_def by (subst bt.index_from_is_ok_iff) auto

section \<open>One thread\<close>

lemma semantic_eq_hash:
  "semantic_option_eq to_vec H a b \<longleftrightarrow>
     map_option (semantic_thread_hash to_vec H) a = map_option (semantic_thread_hash to_vec H) b"
  by (simp add: semantic_option_eq_def split: option.splits)

text \<open>
  The specification: \<open>B\<close>, \<open>L\<close> and \<open>R\<close> are what base, local and remote have of a thread and
  \<open>h\<close> decides equality. An unchanged side yields to the other; equal changes keep the local
  copy; different changes are a conflict (None).
\<close>

definition three_way :: "('a \<Rightarrow> 'h) \<Rightarrow> 'a option \<Rightarrow> 'a option \<Rightarrow> 'a option \<Rightarrow> 'a option option" where
  "three_way h B L R =
     (if map_option h R = map_option h B then Some L
      else if map_option h L = map_option h B then Some R
      else if map_option h L = map_option h R then Some L
      else None)"

lemma merge_one_three_way:
  "three_way (semantic_thread_hash to_vec H) B L R =
     (case merge_one to_vec H tid B L R of Inl c \<Rightarrow> None | Inr s \<Rightarrow> Some s)"
proof -
  let ?e = "semantic_option_eq to_vec H"
  have "option_or L R = L" if "?e L B" "?e R B"
    using that by (cases L; cases R; cases B) (auto simp: option_or_def semantic_option_eq_def)
  then show ?thesis
    unfolding merge_one_def three_way_def semantic_eq_hash[symmetric] Let_def
    by (simp only: if_split sum.case split: if_split) auto
qed

lemma merge_one_conflict:
  "merge_one to_vec H tid B L R = Inl c \<Longrightarrow>
     tc_thread_id c = tid \<and> tc_base c = conflict_version to_vec H B
     \<and> tc_local c = conflict_version to_vec H L \<and> tc_remote c = conflict_version to_vec H R
     \<and> tc_conflict_id c = conflict_fingerprint to_vec H tid (tc_kind c) (tc_base c) (tc_local c) (tc_remote c)"
  by (auto simp: merge_one_def Let_def split: if_splits)

lemma three_way_origin: "three_way h B L R = Some (Some t) \<Longrightarrow> L = Some t \<or> R = Some t"
  by (auto simp: three_way_def split: if_splits)

section \<open>The loop\<close>

lemma merge_fold:
  fixes to_vec H base local remote
  defines "one \<equiv> \<lambda>tid. merge_one to_vec H tid (bt_get base tid) (bt_get local tid) (bt_get remote tid)"
  shows "foldl (merge_step to_vec H base local remote) (ts, cs) ids =
    (ts @ List.map_filter (\<lambda>tid. case one tid of Inr s \<Rightarrow> s | Inl _ \<Rightarrow> None) ids,
     cs @ List.map_filter (\<lambda>tid. case one tid of Inl c \<Rightarrow> Some c | Inr _ \<Rightarrow> None) ids)"
  unfolding one_def
  by (induction ids arbitrary: ts cs)
    (auto simp: merge_step_def map_filter_simps split: sum.splits option.splits)

lemma find_map_filter:
  assumes "\<And>j t. j \<in> set ids \<Longrightarrow> f j = Some t \<Longrightarrow> thread_id t = j"
  shows "find_thread (List.map_filter f ids) tid = (if tid \<in> set ids then f tid else None)"
  using assms
proof (induction ids)
  case (Cons j ids)
  have IH: "find_thread (List.map_filter f ids) tid = (if tid \<in> set ids then f tid else None)"
    using Cons.IH Cons.prems by simp
  show ?case
  proof (cases "f j")
    case (Some t)
    then have "thread_id t = j" using Cons.prems by simp
    with IH Some show ?thesis by (auto simp: map_filter_simps)
  qed (use IH in \<open>auto simp: map_filter_simps\<close>)
qed (simp add: map_filter_simps)

lemma sorted_map_filter:
  assumes "\<And>j t. j \<in> set ids \<Longrightarrow> f j = Some t \<Longrightarrow> g t = j" "sorted_wrt (<) ids"
  shows "sorted_wrt (<) (map g (List.map_filter f ids))"
  using assms
proof (induction ids)
  case (Cons j ids)
  have "g ` set (List.map_filter f ids) \<subseteq> set ids"
    using Cons.prems(1) by (force simp: List.map_filter_def)
  then have lt: "\<forall>x \<in> g ` set (List.map_filter f ids). j < x" using Cons.prems(2) by auto
  have IH: "sorted_wrt (<) (map g (List.map_filter f ids))" using Cons by simp
  show ?case
  proof (cases "f j")
    case (Some t)
    then have "g t = j" using Cons.prems(1) by simp
    with IH lt Some show ?thesis by (simp add: map_filter_simps)
  qed (use IH in \<open>simp add: map_filter_simps\<close>)
qed (simp add: map_filter_simps)

lemma merge_run:
  assumes "merge_thread_sets to_vec H base local remote = Inr out"
  obtains ids where "sorted_wrt (<) ids"
    "set ids = thread_id ` (set base \<union> set local \<union> set remote)"
    "merged_threads out = List.map_filter (\<lambda>tid. case merge_one to_vec H tid (find_thread base tid)
       (find_thread local tid) (find_thread remote tid) of Inr s \<Rightarrow> s | Inl _ \<Rightarrow> None) ids"
    "merge_conflicts out = List.map_filter (\<lambda>tid. case merge_one to_vec H tid (find_thread base tid)
       (find_thread local tid) (find_thread remote tid) of Inl c \<Rightarrow> Some c | Inr _ \<Rightarrow> None) ids"
    "distinct (map thread_id base)" "distinct (map thread_id local)" "distinct (map thread_id remote)"
    "sorted_wrt (<) (map thread_id (merged_threads out))"
proof -
  from assms obtain b l r where m: "thread_map base = Inr b" "thread_map local = Inr l" "thread_map remote = Inr r"
    and out: "out = (let ids = btree_set (bt_keys b @ bt_keys l @ bt_keys r);
         acc = foldl (merge_step to_vec H b l r) ([], []) ids
       in \<lparr>merged_threads = sort_key thread_id (fst acc), merge_conflicts = snd acc\<rparr>)"
    by (auto simp: merge_thread_sets_def bindr_eq_Inr_iff Let_def)
  note b = thread_map_Inr[OF m(1)] and l = thread_map_Inr[OF m(2)] and r = thread_map_Inr[OF m(3)]
  define ids where "ids = btree_set (bt_keys b @ bt_keys l @ bt_keys r)"
  let ?one = "\<lambda>tid. merge_one to_vec H tid (find_thread base tid) (find_thread local tid) (find_thread remote tid)"
  let ?ts = "List.map_filter (\<lambda>tid. case ?one tid of Inr s \<Rightarrow> s | Inl _ \<Rightarrow> None) ids"
  have ids: "sorted_wrt (<) ids" by (simp add: ids_def btree_set_strict)
  have "thread_id t = tid" if "(case ?one tid of Inr s \<Rightarrow> s | Inl _ \<Rightarrow> None) = Some t" for tid t
  proof -
    from that have "three_way (semantic_thread_hash to_vec H) (find_thread base tid) (find_thread local tid)
        (find_thread remote tid) = Some (Some t)"
      by (subst merge_one_three_way[where tid = tid]) (auto split: sum.splits)
    from three_way_origin[OF this] show ?thesis by (auto dest: find_thread_Some)
  qed
  then have sorted: "sorted_wrt (<) (map thread_id ?ts)" by (intro sorted_map_filter[OF _ ids])
  then have "sort_key thread_id ?ts = ?ts" by (intro sort_key_id_if_sorted) (simp add: strict_sorted_iff)
  with out have o: "merged_threads out = ?ts"
    "merge_conflicts out = List.map_filter (\<lambda>tid. case ?one tid of Inl c \<Rightarrow> Some c | Inr _ \<Rightarrow> None) ids"
    unfolding ids_def[symmetric] Let_def merge_fold b(2) l(2) r(2) by simp_all
  have "set ids = thread_id ` (set base \<union> set local \<union> set remote)"
    using b(4) l(4) r(4) by (auto simp: ids_def)
  from that[OF ids this o b(3) l(3) r(3)] sorted o(1) show thesis by simp
qed

lemma merge_outcome:
  assumes "merge_thread_sets to_vec H base local remote = Inr out"
  shows "sorted_wrt (<) (map thread_id (merged_threads out))"
    and "find_thread (merged_threads out) tid = (case merge_one to_vec H tid (find_thread base tid)
       (find_thread local tid) (find_thread remote tid) of Inr s \<Rightarrow> s | Inl _ \<Rightarrow> None)"
    and "c \<in> set (merge_conflicts out) \<longleftrightarrow> merge_one to_vec H (tc_thread_id c) (find_thread base (tc_thread_id c))
       (find_thread local (tc_thread_id c)) (find_thread remote (tc_thread_id c)) = Inl c"
    and "sorted_wrt (<) (map tc_thread_id (merge_conflicts out))"
proof -
  let ?one = "\<lambda>tid. merge_one to_vec H tid (find_thread base tid) (find_thread local tid) (find_thread remote tid)"
  from assms show "sorted_wrt (<) (map thread_id (merged_threads out))" by (rule merge_run)
  from assms obtain ids where ids: "sorted_wrt (<) ids"
    "set ids = thread_id ` (set base \<union> set local \<union> set remote)"
    and ts: "merged_threads out = List.map_filter (\<lambda>tid. case ?one tid of Inr s \<Rightarrow> s | Inl _ \<Rightarrow> None) ids"
    and cs: "merge_conflicts out = List.map_filter (\<lambda>tid. case ?one tid of Inl c \<Rightarrow> Some c | Inr _ \<Rightarrow> None) ids"
    by (rule merge_run)
  have out: "?one tid = Inr None" if "tid \<notin> set ids" for tid
  proof -
    from that ids(2) have "tid \<notin> thread_id ` set base" "tid \<notin> thread_id ` set local" "tid \<notin> thread_id ` set remote"
      by auto
    then have "find_thread base tid = None" "find_thread local tid = None" "find_thread remote tid = None"
      by (simp_all only: find_thread_None not_False_eq_True)
    then show ?thesis by (simp add: merge_one_def semantic_option_eq_def option_or_def)
  qed
  have "thread_id t = tid" if "(case ?one tid of Inr s \<Rightarrow> s | Inl _ \<Rightarrow> None) = Some t" for tid t
  proof -
    from that have "three_way (semantic_thread_hash to_vec H) (find_thread base tid) (find_thread local tid)
        (find_thread remote tid) = Some (Some t)"
      by (subst merge_one_three_way[where tid = tid]) (auto split: sum.splits)
    from three_way_origin[OF this] show ?thesis by (auto dest: find_thread_Some)
  qed
  then have "find_thread (merged_threads out) tid =
      (if tid \<in> set ids then case ?one tid of Inr s \<Rightarrow> s | Inl _ \<Rightarrow> None else None)"
    unfolding ts by (rule find_map_filter)
  then show "find_thread (merged_threads out) tid = (case ?one tid of Inr s \<Rightarrow> s | Inl _ \<Rightarrow> None)"
    using out[of tid] by auto
  have key: "tc_thread_id c = tid" if "(case ?one tid of Inl c \<Rightarrow> Some c | Inr _ \<Rightarrow> None) = Some c" for tid c
    using that by (auto dest: merge_one_conflict split: sum.splits)
  then show "sorted_wrt (<) (map tc_thread_id (merge_conflicts out))"
    unfolding cs by (intro sorted_map_filter ids(1)) blast
  show "c \<in> set (merge_conflicts out) \<longleftrightarrow> ?one (tc_thread_id c) = Inl c"
  proof
    assume "c \<in> set (merge_conflicts out)"
    then obtain tid where "(case ?one tid of Inl c \<Rightarrow> Some c | Inr _ \<Rightarrow> None) = Some c"
      unfolding cs by (auto simp: List.map_filter_def)
    with key[OF this] show "?one (tc_thread_id c) = Inl c" by (auto split: sum.splits)
  next
    assume c: "?one (tc_thread_id c) = Inl c"
    with out have "tc_thread_id c \<in> set ids" by force
    with c show "c \<in> set (merge_conflicts out)"
      unfolding cs by (force simp: List.map_filter_def)
  qed
qed

lemma merge_is_ok:
  "is_ok (merge_thread_sets to_vec H base local remote) \<longleftrightarrow> distinct (map thread_id base)
     \<and> distinct (map thread_id local) \<and> distinct (map thread_id remote)"
  unfolding thread_map_is_ok[symmetric]
  by (auto simp: merge_thread_sets_def is_ok_iff bindr_eq_Inr_iff Let_def)

end
