(* ===== verification/Resolve.thy ===== *)
theory Resolve
  imports MergeFacts
begin

text \<open>What \<open>resolve_thread_sets\<close> adds to a merge: one chosen version per conflict.\<close>

lemma resolution_index_Inr:
  assumes "resolution_index rs = Inr m"
  shows "bt_ok m" "bt_get m tid = find (\<lambda>r. res_thread_id r = tid) rs"
    "distinct (map res_thread_id rs)" "set (bt_keys m) = res_thread_id ` set rs"
proof -
  from assms have i: "bt.index_from (\<lambda>_. Inr ()) res_thread_id (\<lambda>r. r)
     (\<lambda>r. ''duplicate conflict resolution for thread '' @ res_thread_id r) rs [] = Inr m"
    by (simp add: resolution_index_def)
  show "bt_ok m" using bt.index_from_ok[OF _ i] by simp
  have mo: "map_of (map (\<lambda>r. (res_thread_id r, r)) rs) k = find (\<lambda>r. res_thread_id r = k) rs" for k
    by (induction rs) auto
  have g: "bt_get m k = find (\<lambda>r. res_thread_id r = k) rs" for k
    using bt.index_from_get[OF _ i, of k] by (simp add: mo split: option.splits)
  show "bt_get m tid = find (\<lambda>r. res_thread_id r = tid) rs" by (rule g)
  show "distinct (map res_thread_id rs)" using bt.index_from_get[OF _ i] by simp
  show "set (bt_keys m) = res_thread_id ` set rs"
  proof (rule set_eqI)
    show "k \<in> set (bt_keys m) \<longleftrightarrow> k \<in> res_thread_id ` set rs" for k
      unfolding bt_get_keys[symmetric] g by (auto simp: find_None_iff find_Some_iff)
  qed
qed

definition chosen_thread ::
  "thread_bundle list \<Rightarrow> thread_bundle list \<Rightarrow> thread_conflict_resolution list \<Rightarrow> string \<Rightarrow> thread_bundle option" where
  "chosen_thread local remote rs tid = (case find (\<lambda>r. res_thread_id r = tid) rs of
      None \<Rightarrow> None
    | Some r \<Rightarrow> (case res_choice r of
        ChooseLocal \<Rightarrow> find_thread local tid | ChooseRemote \<Rightarrow> find_thread remote tid))"

lemma resolve_fold:
  assumes sel: "\<And>k. bt_get sel k = find (\<lambda>r. res_thread_id r = k) rs"
    and l: "\<And>k. bt_get l k = find_thread local k" and r: "\<And>k. bt_get r k = find_thread remote k"
  shows "foldr_res (resolve_step sel l r) cs ts = Inr ts' \<Longrightarrow>
    ts' = ts @ List.map_filter (\<lambda>c. chosen_thread local remote rs (tc_thread_id c)) cs
    \<and> (\<forall>c \<in> set cs. \<exists>x. find (\<lambda>r. res_thread_id r = tc_thread_id c) rs = Some x
         \<and> res_conflict_id x = tc_conflict_id c)"
proof (induction cs arbitrary: ts)
  case Nil
  then show ?case by (simp add: map_filter_simps)
next
  case (Cons c cs)
  let ?th = "chosen_thread local remote rs (tc_thread_id c)"
  let ?ts = "case ?th of Some t \<Rightarrow> ts @ [t] | None \<Rightarrow> ts"
  from Cons.prems obtain t1 where t1: "resolve_step sel l r c ts = Inr t1"
    and rest: "foldr_res (resolve_step sel l r) cs t1 = Inr ts'"
    by (auto simp: bindr_eq_Inr_iff)
  from t1 obtain x where x: "find (\<lambda>r. res_thread_id r = tc_thread_id c) rs = Some x"
      "res_conflict_id x = tc_conflict_id c"
    and t1': "t1 = ?ts"
    unfolding resolve_step_def chosen_thread_def l r sel Let_def
    by (auto simp: bindr_eq_Inr_iff)
  from Cons.IH[OF rest] x show ?case
    unfolding t1' by (auto simp: map_filter_simps split: option.splits)
qed

lemma resolve_run:
  assumes "resolve_thread_sets to_vec H base local remote rs = Inr ts"
    and "merge_thread_sets to_vec H base local remote = Inr out"
  shows "distinct (map res_thread_id rs)"
    and "res_thread_id ` set rs = tc_thread_id ` set (merge_conflicts out)"
    and "\<And>c. c \<in> set (merge_conflicts out) \<Longrightarrow> \<exists>x \<in> set rs. res_thread_id x = tc_thread_id c
           \<and> res_conflict_id x = tc_conflict_id c"
    and "ts = sort_key thread_id (merged_threads out @
           List.map_filter (\<lambda>c. chosen_thread local remote rs (tc_thread_id c)) (merge_conflicts out))"
proof -
  from assms obtain l r sel us where m: "thread_map local = Inr l" "thread_map remote = Inr r"
    "resolution_index rs = Inr sel" "length sel = length (merge_conflicts out)"
    "foldr_res (resolve_step sel l r) (merge_conflicts out) (merged_threads out) = Inr us"
    "ts = sort_key thread_id us"
    by (auto simp: resolve_thread_sets_def bindr_eq_Inr_iff)
  note sel = resolution_index_Inr[OF m(3)]
  note f = resolve_fold[OF sel(2) thread_map_Inr(2)[OF m(1)] thread_map_Inr(2)[OF m(2)] m(5)]
  show "distinct (map res_thread_id rs)" by (rule sel(3))
  show ts: "ts = sort_key thread_id (merged_threads out @
       List.map_filter (\<lambda>c. chosen_thread local remote rs (tc_thread_id c)) (merge_conflicts out))"
    using f m(6) by simp
  show ex: "\<exists>x \<in> set rs. res_thread_id x = tc_thread_id c \<and> res_conflict_id x = tc_conflict_id c"
    if "c \<in> set (merge_conflicts out)" for c
    using f that by (fastforce simp: find_Some_iff)
  let ?ids = "map tc_thread_id (merge_conflicts out)"
  have "distinct ?ids" using merge_outcome(4)[OF assms(2)] by (simp add: strict_sorted_iff)
  then have "card (set ?ids) = length (merge_conflicts out)" by (simp add: distinct_card del: set_map)
  moreover have "card (set (bt_keys sel)) = length sel"
    using bt_ok_distinct[OF sel(1)] by (simp add: distinct_card bt_keys_def del: set_map)
  moreover have "set ?ids \<subseteq> set (bt_keys sel)" using ex sel(4) by force
  ultimately have "set ?ids = set (bt_keys sel)" using m(4) by (intro card_subset_eq) simp_all
  then show "res_thread_id ` set rs = tc_thread_id ` set (merge_conflicts out)" using sel(4) by simp
qed

lemma chosen_thread_id: "chosen_thread local remote rs tid = Some t \<Longrightarrow> thread_id t = tid"
  by (auto simp: chosen_thread_def dest: find_thread_Some split: option.splits thread_resolution_choice.splits)

lemma chosen_map: "List.map_filter (\<lambda>c. chosen_thread local remote rs (tc_thread_id c)) cs
    = List.map_filter (chosen_thread local remote rs) (map tc_thread_id cs)"
  by (induction cs) (auto simp: map_filter_simps split: option.splits)

lemma find_chosen:
  "find_thread (List.map_filter (\<lambda>c. chosen_thread local remote rs (tc_thread_id c)) cs) tid =
    (if tid \<in> tc_thread_id ` set cs then chosen_thread local remote rs tid else None)"
  unfolding chosen_map
  by (subst find_map_filter) (simp_all add: chosen_thread_id)

lemma resolve_find:
  assumes "resolve_thread_sets to_vec H base local remote rs = Inr ts"
    and "merge_thread_sets to_vec H base local remote = Inr out"
  shows "sorted_wrt (<) (map thread_id ts)"
    and "find_thread ts tid = (if tid \<in> tc_thread_id ` set (merge_conflicts out)
      then chosen_thread local remote rs tid else find_thread (merged_threads out) tid)"
proof -
  let ?cs = "merge_conflicts out"
  define new where "new = List.map_filter (\<lambda>c. chosen_thread local remote rs (tc_thread_id c)) ?cs"
  have ts: "ts = sort_key thread_id (merged_threads out @ new)"
    unfolding new_def by (rule resolve_run(4)[OF assms])
  have gone: "find_thread (merged_threads out) k = None" if k: "k \<in> tc_thread_id ` set ?cs" for k
  proof -
    from k obtain c where "c \<in> set ?cs" "tc_thread_id c = k" by blast
    then have "merge_one to_vec H k (find_thread base k) (find_thread local k) (find_thread remote k) = Inl c"
      using merge_outcome(3)[OF assms(2)] by blast
    then show ?thesis by (simp add: merge_outcome(2)[OF assms(2)])
  qed
  have new: "find_thread new k = (if k \<in> tc_thread_id ` set ?cs then chosen_thread local remote rs k else None)" for k
    unfolding new_def by (rule find_chosen)
  have dn: "distinct (map thread_id new)"
    using sorted_map_filter[OF _ merge_outcome(4)[OF assms(2)], of "chosen_thread local remote rs" thread_id]
    unfolding new_def chosen_map by (simp add: chosen_thread_id strict_sorted_iff)
  have "thread_id ` set new \<inter> thread_id ` set (merged_threads out) = {}"
    using new gone by (metis disjoint_iff find_thread_None)
  then have d: "distinct (map thread_id (merged_threads out @ new))"
    using dn merge_outcome(1)[OF assms(2)] by (auto simp: strict_sorted_iff)
  have p: "mset ts = mset (merged_threads out @ new)" unfolding ts by (rule mset_sort)
  have "distinct (map thread_id ts)" using d p by (metis mset_eq_imp_distinct_iff mset_map)
  then show "sorted_wrt (<) (map thread_id ts)" by (simp add: strict_sorted_iff ts)
  have "find_thread ts tid = find_thread (merged_threads out @ new) tid"
    using find_thread_perm[OF p[symmetric] d] by simp
  then show "find_thread ts tid = (if tid \<in> tc_thread_id ` set ?cs
      then chosen_thread local remote rs tid else find_thread (merged_threads out) tid)"
    using gone[of tid] new[of tid] by (simp add: find_thread_append split: option.splits)
qed

end
