(* ===== verification/MergeProps.thy ===== *)
theory MergeProps
  imports Resolve
begin

text \<open>The properties of sync.rs: the common view, the merge and its resolution.\<close>

definition conflict_ids :: "thread_merge_outcome \<Rightarrow> string set" where
  "conflict_ids out = tc_thread_id ` set (merge_conflicts out)"

lemma conflict_ids_iff:
  assumes "merge_thread_sets to_vec H base local remote = Inr out"
  shows "tid \<in> conflict_ids out \<longleftrightarrow> three_way (semantic_thread_hash to_vec H)
    (find_thread base tid) (find_thread local tid) (find_thread remote tid) = None"
proof -
  let ?one = "merge_one to_vec H tid (find_thread base tid) (find_thread local tid) (find_thread remote tid)"
  have "tid \<in> conflict_ids out \<longleftrightarrow> (\<exists>c. ?one = Inl c)"
  proof
    assume "tid \<in> conflict_ids out"
    then show "\<exists>c. ?one = Inl c" unfolding conflict_ids_def using merge_outcome(3)[OF assms] by blast
  next
    assume "\<exists>c. ?one = Inl c"
    then obtain c where c: "?one = Inl c" by blast
    then have "tc_thread_id c = tid" using merge_one_conflict by blast
    with c show "tid \<in> conflict_ids out"
      unfolding conflict_ids_def using merge_outcome(3)[OF assms, of c] by blast
  qed
  then show ?thesis
    by (subst merge_one_three_way[where tid = tid]) (auto split: sum.splits)
qed

lemma merged_iff:
  assumes "merge_thread_sets to_vec H base local remote = Inr out"
  shows "find_thread (merged_threads out) tid = (case three_way (semantic_thread_hash to_vec H)
    (find_thread base tid) (find_thread local tid) (find_thread remote tid) of Some s \<Rightarrow> s | None \<Rightarrow> None)"
  unfolding merge_outcome(2)[OF assms]
  by (subst merge_one_three_way[where tid = tid]) (auto split: sum.splits)

definition toy_vec :: "json \<Rightarrow> bytes" where
  "toy_vec v = (case v of
      JArray (JString t # JString k # vs) \<Rightarrow> t @ ''/'' @ k @ concat (map (\<lambda>v. case v of JString s \<Rightarrow> ''='' @ s | _ \<Rightarrow> ''-'') vs)
    | JObject m \<Rightarrow> (case map_of m ''title'' of Some (JString s) \<Rightarrow> s | _ \<Rightarrow> [])
    | _ \<Rightarrow> [])"

definition toy_thread :: "string \<Rightarrow> string \<Rightarrow> thread_bundle" where
  "toy_thread tid title = \<lparr>tb_schema_version = 1, thread_id = tid, tb_title = title, archived = False,
     created_at_ms = None, updated_at_ms = None, model_provider = None,
     workspace = \<lparr>ws_logical_id = None, ws_source_path = None\<rparr>,
     rollout = \<lparr>co_sha256 = [], co_byte_length = 0, co_media_type = [], co_logical_path = None,
       co_source_path = None, co_storage = None\<rparr>,
     related = \<lparr>rr_source_database = None, rr_tables = []\<rparr>, attachments = []\<rparr>"

lemma toy_hash_title:
  "semantic_thread_hash toy_vec (\<lambda>x. x) (toy_thread tid title) = ''sha256:'' @ title"
  by (simp add: semantic_thread_hash_def toy_vec_def thread_json_def remote_thread_view_def toy_thread_def)

lemma toy_thread_id [simp]: "thread_id (toy_thread tid title) = tid"
  by (simp add: toy_thread_def)

lemma toy_not_blank: "\<not> blank ''a''" "\<not> blank ''b''" "\<not> blank ''c''" "\<not> blank ''d''"
  by code_simp+

definition toy_base :: "thread_bundle list" where
  "toy_base = [toy_thread ''a'' ''1'', toy_thread ''b'' ''1'', toy_thread ''c'' ''1'']"

definition toy_local :: "thread_bundle list" where
  "toy_local = [toy_thread ''a'' ''2'', toy_thread ''b'' ''2'', toy_thread ''c'' ''1'', toy_thread ''d'' ''1'']"

definition toy_remote :: "thread_bundle list" where
  "toy_remote = [toy_thread ''b'' ''3'', toy_thread ''a'' ''1'']"

lemma toy_merge_ok: "is_ok (merge_thread_sets toy_vec (\<lambda>x. x) toy_base toy_local toy_remote)"
  by (simp add: merge_is_ok toy_base_def toy_local_def toy_remote_def)

text \<open>
  the semantic hash ignores what differs between machines. It does not change when a thread
  is moved to another provider, workspace path, rollout file, physical storage or source
  database, or when the machine columns of its database rows are dropped.
\<close>
theorem semantic_hash_machine_neutral:
  "semantic_thread_hash to_vec H (relocated provider cwd source stored database t)
     = semantic_thread_hash to_vec H t"
  by (simp add: semantic_thread_hash_def view_relocated)

text \<open>
  the common view is a normal form. Viewing a thread twice changes nothing more, so the hash
  of a thread that came back from the server is the hash of the thread that was sent, including
  the rows of the threads table whose derived defaults the view drops.
\<close>
theorem remote_view_normal_form:
  "remote_thread_view (remote_thread_view t) = remote_thread_view t
   \<and> semantic_thread_hash to_vec H (remote_thread_view t) = semantic_thread_hash to_vec H t"
  by (simp add: remote_view_idem hash_of_view)

text \<open>
  C3: the merge is the three-way merge. For every thread identifier the merged set holds exactly
  what the three-way table says for the versions in base, local and remote, and the identifier
  is reported as a conflict exactly when both sides changed it differently. The merged threads
  and the conflicts are in strictly increasing identifier order.
\<close>
theorem merge_is_three_way:
  assumes "merge_thread_sets to_vec H base local remote = Inr out"
  shows "sorted_wrt (<) (map thread_id (merged_threads out))
    \<and> sorted_wrt (<) (map tc_thread_id (merge_conflicts out))
    \<and> (\<forall>tid. case three_way (semantic_thread_hash to_vec H)
          (find_thread base tid) (find_thread local tid) (find_thread remote tid) of
        Some s \<Rightarrow> find_thread (merged_threads out) tid = s \<and> tid \<notin> conflict_ids out
      | None \<Rightarrow> find_thread (merged_threads out) tid = None \<and> tid \<in> conflict_ids out)"
  using merge_outcome(1,4)[OF assms] by (simp add: conflict_ids_iff[OF assms] merged_iff[OF assms] split: option.splits)

theorem merge_is_three_way_witness:
  "\<exists>out. merge_thread_sets toy_vec (\<lambda>x. x) toy_base toy_local toy_remote = Inr out
     \<and> find_thread (merged_threads out) ''a'' = Some (toy_thread ''a'' ''2'')
     \<and> find_thread (merged_threads out) ''c'' = None \<and> ''b'' \<in> conflict_ids out \<and> ''c'' \<notin> conflict_ids out"
proof -
  from toy_merge_ok obtain out where out: "merge_thread_sets toy_vec (\<lambda>x. x) toy_base toy_local toy_remote = Inr out"
    by (auto simp: is_ok_iff)
  note t = merge_is_three_way[OF out, THEN conjunct2, THEN conjunct2, rule_format]
  from t[of "''a''"] t[of "''b''"] t[of "''c''"] out show ?thesis
    by (simp add: toy_base_def toy_local_def toy_remote_def three_way_def toy_hash_title)
qed

text \<open>
  a merge fails only on a repeated identifier. It succeeds on every three lists in which no
  thread identifier occurs twice, and on no others.
\<close>
theorem merge_succeeds_iff:
  "is_ok (merge_thread_sets to_vec H base local remote) \<longleftrightarrow>
     distinct (map thread_id base) \<and> distinct (map thread_id local) \<and> distinct (map thread_id remote)"
  by (rule merge_is_ok)

text \<open>
  the merge does not depend on which side is called local. Exchanging local and remote gives
  the same conflicts and, for every identifier, a thread with the same semantic hash.
\<close>
theorem merge_symmetric:
  assumes "merge_thread_sets to_vec H base local remote = Inr out"
    and "merge_thread_sets to_vec H base remote local = Inr out'"
  shows "conflict_ids out' = conflict_ids out
    \<and> map_option (semantic_thread_hash to_vec H) (find_thread (merged_threads out') tid)
      = map_option (semantic_thread_hash to_vec H) (find_thread (merged_threads out) tid)"
  using conflict_ids_iff[OF assms(1)] conflict_ids_iff[OF assms(2)]
  by (auto simp: merged_iff[OF assms(1)] merged_iff[OF assms(2)] three_way_def split: if_splits)

theorem merge_symmetric_witness:
  "\<exists>out out'. merge_thread_sets toy_vec (\<lambda>x. x) toy_base toy_local toy_remote = Inr out
     \<and> merge_thread_sets toy_vec (\<lambda>x. x) toy_base toy_remote toy_local = Inr out'
     \<and> conflict_ids out' = conflict_ids out"
proof -
  have "is_ok (merge_thread_sets toy_vec (\<lambda>x. x) toy_base toy_remote toy_local)"
    by (simp add: merge_is_ok toy_base_def toy_local_def toy_remote_def)
  with toy_merge_ok obtain out out' where
    "merge_thread_sets toy_vec (\<lambda>x. x) toy_base toy_local toy_remote = Inr out"
    "merge_thread_sets toy_vec (\<lambda>x. x) toy_base toy_remote toy_local = Inr out'"
    by (auto simp: is_ok_iff)
  with merge_symmetric[OF this] show ?thesis by blast
qed

text \<open>
  a merge without conflicts is stable. Merging the result again, as the local side of the
  same merge, gives no conflict and the same threads; so a synchronization that is repeated after
  an interruption does not change its outcome.
\<close>
theorem merge_stable:
  assumes "merge_thread_sets to_vec H base local remote = Inr out" and "merge_conflicts out = []"
    and "merge_thread_sets to_vec H base (merged_threads out) remote = Inr out'"
  shows "merge_conflicts out' = [] \<and>
    map_option (semantic_thread_hash to_vec H) (find_thread (merged_threads out') tid)
      = map_option (semantic_thread_hash to_vec H) (find_thread (merged_threads out) tid)"
proof -
  let ?h = "semantic_thread_hash to_vec H"
  have none: "three_way ?h (find_thread base k) (find_thread local k) (find_thread remote k) \<noteq> None" for k
    using conflict_ids_iff[OF assms(1), of k] assms(2) by (auto simp: conflict_ids_def)
  have again: "\<exists>s. three_way ?h (find_thread base k) (find_thread (merged_threads out) k) (find_thread remote k) = Some s
      \<and> map_option ?h s = map_option ?h (find_thread (merged_threads out) k)" for k
    using none[of k] by (auto simp: merged_iff[OF assms(1)] three_way_def split: if_splits)
  have "tid \<notin> conflict_ids out'" for tid
    using again[of tid] conflict_ids_iff[OF assms(3), of tid] by auto
  then have "merge_conflicts out' = []" by (cases "merge_conflicts out'") (auto simp: conflict_ids_def)
  moreover from again[of tid] obtain s where
    "three_way ?h (find_thread base tid) (find_thread (merged_threads out) tid) (find_thread remote tid) = Some s"
    "map_option ?h s = map_option ?h (find_thread (merged_threads out) tid)" by blast
  ultimately show ?thesis using merged_iff[OF assms(3), of tid] by simp
qed

theorem merge_stable_witness:
  "\<exists>out out'. merge_thread_sets toy_vec (\<lambda>x. x) toy_base toy_base toy_remote = Inr out
     \<and> merge_thread_sets toy_vec (\<lambda>x. x) toy_base (merged_threads out) toy_remote = Inr out'
     \<and> merge_conflicts out' = []"
proof -
  have "is_ok (merge_thread_sets toy_vec (\<lambda>x. x) toy_base toy_base toy_remote)"
    by (simp add: merge_is_ok toy_base_def toy_remote_def)
  then obtain out where out: "merge_thread_sets toy_vec (\<lambda>x. x) toy_base toy_base toy_remote = Inr out"
    by (auto simp: is_ok_iff)
  have "tid \<notin> conflict_ids out" for tid by (simp add: conflict_ids_iff[OF out] three_way_def)
  then have none: "merge_conflicts out = []" by (cases "merge_conflicts out") (auto simp: conflict_ids_def)
  have "distinct (map thread_id (merged_threads out))"
    using merge_outcome(1)[OF out] by (simp add: strict_sorted_iff)
  then have "is_ok (merge_thread_sets toy_vec (\<lambda>x. x) toy_base (merged_threads out) toy_remote)"
    by (simp add: merge_is_ok toy_base_def toy_remote_def)
  then obtain out' where "merge_thread_sets toy_vec (\<lambda>x. x) toy_base (merged_threads out) toy_remote = Inr out'"
    by (auto simp: is_ok_iff)
  with merge_stable[OF out none this] out show ?thesis by blast
qed

text \<open>
  C22: a resolution adds exactly the chosen versions. When \<open>resolve_thread_sets\<close> succeeds there is
  one resolution for each conflict and none for anything else, every conflicting thread is the
  version its resolution names (or absent if that side deleted it), and every other thread is the
  one of the merge. The result is in identifier order, each identifier once.
\<close>
theorem resolve_applies_choices:
  assumes "resolve_thread_sets to_vec H base local remote rs = Inr ts"
    and "merge_thread_sets to_vec H base local remote = Inr out"
  shows "distinct (map res_thread_id rs) \<and> res_thread_id ` set rs = conflict_ids out
    \<and> sorted_wrt (<) (map thread_id ts)
    \<and> find_thread ts tid = (if tid \<in> conflict_ids out then chosen_thread local remote rs tid
        else find_thread (merged_threads out) tid)"
  using resolve_run(1,2)[OF assms] resolve_find[OF assms] by (simp add: conflict_ids_def)

definition toy_fp :: string where
  "toy_fp = ''sha256:b/both_modified=sha256:1=sha256:2=sha256:3''"

definition toy_resolution :: thread_conflict_resolution where
  "toy_resolution = \<lparr>res_conflict_id = toy_fp, res_thread_id = ''b'', res_choice = ChooseRemote\<rparr>"

lemma toy_resolve_ok:
  "is_ok (resolve_thread_sets toy_vec (\<lambda>x. x) toy_base toy_local toy_remote [toy_resolution])"
  by code_simp

theorem resolve_applies_choices_witness:
  "\<exists>ts. resolve_thread_sets toy_vec (\<lambda>x. x) toy_base toy_local toy_remote [toy_resolution] = Inr ts
     \<and> find_thread ts ''b'' = Some (toy_thread ''b'' ''3'')"
proof -
  from toy_resolve_ok toy_merge_ok obtain ts out where
    r: "resolve_thread_sets toy_vec (\<lambda>x. x) toy_base toy_local toy_remote [toy_resolution] = Inr ts"
    and o: "merge_thread_sets toy_vec (\<lambda>x. x) toy_base toy_local toy_remote = Inr out"
    by (auto simp: is_ok_iff)
  note p = resolve_applies_choices[OF r o, of "''b''"]
  then have "''b'' \<in> conflict_ids out" by (auto simp: toy_resolution_def)
  with p r show ?thesis by (auto simp: chosen_thread_def toy_resolution_def toy_remote_def)
qed

text \<open>What the fingerprint of a conflict is the hash of.\<close>

definition fingerprint_json :: "thread_conflict \<Rightarrow> json" where
  "fingerprint_json c = JArray [JString (tc_thread_id c), JString (conflict_kind_text (tc_kind c)),
     json_option JString (map_option cv_semantic_hash (tc_base c)),
     json_option JString (map_option cv_semantic_hash (tc_local c)),
     json_option JString (map_option cv_semantic_hash (tc_remote c))]"

lemma fingerprint_json_eq:
  assumes "fingerprint_json c = fingerprint_json d"
  shows "map_option cv_semantic_hash (tc_base c) = map_option cv_semantic_hash (tc_base d)"
    "map_option cv_semantic_hash (tc_local c) = map_option cv_semantic_hash (tc_local d)"
    "map_option cv_semantic_hash (tc_remote c) = map_option cv_semantic_hash (tc_remote d)"
proof -
  have inj: "json_option JString x = json_option JString y \<Longrightarrow> x = y" for x y :: "string option"
    by (cases x; cases y) (simp_all add: json_option_def)
  from assms show "map_option cv_semantic_hash (tc_base c) = map_option cv_semantic_hash (tc_base d)"
    "map_option cv_semantic_hash (tc_local c) = map_option cv_semantic_hash (tc_local d)"
    "map_option cv_semantic_hash (tc_remote c) = map_option cv_semantic_hash (tc_remote d)"
    unfolding fingerprint_json_def by (blast intro: inj)+
qed

text \<open>
  a stale resolution is refused. If resolutions taken from the conflicts of one merge are
  accepted for another, then for every resolved thread the three versions have the same hashes
  in both: what the user saw is what is resolved. (The fingerprints of the two merges' conflicts
  are not to collide.)
\<close>
theorem stale_resolution_refused:
  assumes "merge_thread_sets to_vec H base local remote = Inr out"
    and "merge_thread_sets to_vec H base' local' remote' = Inr out'"
    and "resolve_thread_sets to_vec H base' local' remote' rs = Inr ts"
    and "\<And>r. r \<in> set rs \<Longrightarrow> \<exists>c \<in> set (merge_conflicts out). tc_thread_id c = res_thread_id r
           \<and> tc_conflict_id c = res_conflict_id r"
    and "inj_on (\<lambda>v. H (to_vec v)) (fingerprint_json ` (set (merge_conflicts out) \<union> set (merge_conflicts out')))"
    and "r \<in> set rs"
  shows "map (\<lambda>ts. map_option (semantic_thread_hash to_vec H) (find_thread ts (res_thread_id r))) [base, local, remote]
    = map (\<lambda>ts. map_option (semantic_thread_hash to_vec H) (find_thread ts (res_thread_id r))) [base', local', remote']"
proof -
  have version: "map_option cv_semantic_hash (conflict_version to_vec H t) = map_option (semantic_thread_hash to_vec H) t"
    for t by (cases t) (simp_all add: conflict_version_def)
  from assms(4,6) obtain c where c: "c \<in> set (merge_conflicts out)" "tc_thread_id c = res_thread_id r"
    "tc_conflict_id c = res_conflict_id r" by blast
  note run = resolve_run[OF assms(3,2)]
  from run(2) assms(6) obtain d where d: "d \<in> set (merge_conflicts out')" "tc_thread_id d = res_thread_id r"
    by (metis image_iff)
  from run(3)[OF d(1)] obtain x where x: "x \<in> set rs" "res_thread_id x = res_thread_id r"
    "res_conflict_id x = tc_conflict_id d" using d(2) by metis
  with run(1) assms(6) have "x = r" by (simp add: distinct_map inj_on_def)
  with x c have ids: "tc_conflict_id c = tc_conflict_id d" by simp
  note vc = merge_one_conflict[OF iffD1[OF merge_outcome(3)[OF assms(1)] c(1)]]
    and vd = merge_one_conflict[OF iffD1[OF merge_outcome(3)[OF assms(2)] d(1)]]
  from vc have "tc_conflict_id c = ''sha256:'' @ H (to_vec (fingerprint_json c))"
    by (simp only: conflict_fingerprint_def fingerprint_json_def Let_def)
  moreover from vd have "tc_conflict_id d = ''sha256:'' @ H (to_vec (fingerprint_json d))"
    by (simp only: conflict_fingerprint_def fingerprint_json_def Let_def)
  ultimately have "H (to_vec (fingerprint_json c)) = H (to_vec (fingerprint_json d))" using ids by simp
  with assms(5) c(1) d(1) have "fingerprint_json c = fingerprint_json d"
    by (metis (no_types, lifting) UnCI image_eqI inj_onD)
  from fingerprint_json_eq[OF this] vc vd c(2) d(2) show ?thesis by (simp add: version)
qed

theorem stale_resolution_refused_witness:
  "map_option (semantic_thread_hash toy_vec (\<lambda>x. x)) (find_thread toy_local ''b'')
     = map_option (semantic_thread_hash toy_vec (\<lambda>x. x)) (find_thread (tl toy_local) ''b'')"
proof -
  have "is_ok (resolve_thread_sets toy_vec (\<lambda>x. x) toy_base (tl toy_local) toy_remote [toy_resolution])"
    by code_simp
  moreover from this have "is_ok (merge_thread_sets toy_vec (\<lambda>x. x) toy_base (tl toy_local) toy_remote)"
    by (auto simp: resolve_thread_sets_def)
  moreover note toy_merge_ok toy_resolve_ok
  ultimately obtain ts out out' ts0 where
    r: "resolve_thread_sets toy_vec (\<lambda>x. x) toy_base (tl toy_local) toy_remote [toy_resolution] = Inr ts"
    and o': "merge_thread_sets toy_vec (\<lambda>x. x) toy_base (tl toy_local) toy_remote = Inr out'"
    and o: "merge_thread_sets toy_vec (\<lambda>x. x) toy_base toy_local toy_remote = Inr out"
    and r0: "resolve_thread_sets toy_vec (\<lambda>x. x) toy_base toy_local toy_remote [toy_resolution] = Inr ts0"
    unfolding is_ok_iff by blast
  have from_out: "\<exists>c \<in> set (merge_conflicts out). tc_thread_id c = res_thread_id r
      \<and> tc_conflict_id c = res_conflict_id r" if "r \<in> set [toy_resolution]" for r
  proof -
    from resolve_run(2)[OF r0 o] have "res_thread_id ` set [toy_resolution] = tc_thread_id ` set (merge_conflicts out)" .
    then have "res_thread_id toy_resolution \<in> tc_thread_id ` set (merge_conflicts out)"
      by (rule subst) simp
    then obtain c where c: "c \<in> set (merge_conflicts out)" "res_thread_id toy_resolution = tc_thread_id c"
      by (rule imageE)
    from that have r: "r = toy_resolution" by simp
    from resolve_run(3)[OF r0 o c(1)] have "res_conflict_id toy_resolution = tc_conflict_id c" by simp
    with c show ?thesis unfolding r by (intro bexI[of _ c]) simp_all
  qed
  have one: "fingerprint_json c = JArray [JString ''b'', JString ''both_modified'', JString ''sha256:1'',
      JString ''sha256:2'', JString ''sha256:3'']"
    if "c \<in> set (merge_conflicts out) \<union> set (merge_conflicts out')" for c
  proof -
    have "tc_thread_id c \<in> res_thread_id ` set [toy_resolution]"
      using that resolve_run(2)[OF r0 o] resolve_run(2)[OF r o'] by auto
    then have b: "tc_thread_id c = ''b''" by (simp add: toy_resolution_def)
    from that have "merge_one toy_vec (\<lambda>x. x) ''b'' (Some (toy_thread ''b'' ''1'')) (Some (toy_thread ''b'' ''2''))
        (Some (toy_thread ''b'' ''3'')) = Inl c"
      using merge_outcome(3)[OF o, of c] merge_outcome(3)[OF o', of c]
      by (auto simp: b toy_base_def toy_local_def toy_remote_def)
    then have "c = projl (merge_one toy_vec (\<lambda>x. x) ''b'' (Some (toy_thread ''b'' ''1'')) (Some (toy_thread ''b'' ''2''))
        (Some (toy_thread ''b'' ''3'')))" by simp
    then show ?thesis
      by (simp add: merge_one_def semantic_option_eq_def toy_hash_title Let_def fingerprint_json_def
          conflict_kind_text_def json_option_def conflict_version_def)
  qed
  let ?fp = "JArray [JString ''b'', JString ''both_modified'', JString ''sha256:1'',
      JString ''sha256:2'', JString ''sha256:3'']"
  have "fingerprint_json ` (set (merge_conflicts out) \<union> set (merge_conflicts out')) \<subseteq> {?fp}"
    by (rule image_subsetI, drule one) (simp only: singleton_iff)
  moreover have "inj_on (\<lambda>v. toy_vec v) {?fp}" by (rule inj_onI) (simp only: singleton_iff)
  ultimately have inj: "inj_on (\<lambda>v. toy_vec v) (fingerprint_json ` (set (merge_conflicts out) \<union> set (merge_conflicts out')))"
    by (rule inj_on_subset[rotated])
  from stale_resolution_refused[OF o o' r from_out inj, of toy_resolution]
  show ?thesis by (simp add: toy_resolution_def)
qed

end
