(* ===== verification/Tracking.thy ===== *)
theory Tracking
  imports Bundles
begin

text \<open>
  \<open>TrackingStore\<close> of sync.rs, the optimistic-concurrency record of which revision a Codex home has
  integrated. The database is its two tables; a transaction that fails leaves it as it was, so an
  operation returns the new database with its result. SQLite's INTEGER is an i64, onto which
  \<open>as\<close> casts of u64 are the identity on words.
\<close>

record uuid_lib =
  uuid_text :: "uuid \<Rightarrow> string"
  parse_uuid :: "string \<Rightarrow> uuid option"

record tracking_row =
  row_head :: "string option"
  row_epoch :: i64
  row_generation :: i64
  row_updated_at :: string

record active_row =
  act_remote :: string
  act_namespace :: string
  act_updated_at :: string

type_synonym tracking_key = "string \<times> string \<times> string"

record tracking_db =
  schema_info :: "i64 option"
  has_epoch_column :: bool
  namespace_tracking :: "(tracking_key, tracking_row) btree_map"
  active_namespace :: "(string, active_row) btree_map"

record tracking_record =
  tr_remote_id :: uuid
  tr_namespace_id :: uuid
  tr_codex_home_key :: string
  tr_integrated_head :: "string option"
  tr_remote_epoch :: u64
  tr_generation :: u64
  tr_updated_at :: string

record active_namespace_binding =
  ab_remote_id :: uuid
  ab_namespace_id :: uuid
  ab_codex_home_key :: string
  ab_updated_at :: string

definition backslash :: char where "backslash = char_of (92 :: nat)"
definition slash :: char where "slash = char_of (47 :: nat)"

definition codex_home_key :: "(string \<Rightarrow> string option) \<Rightarrow> string \<Rightarrow> string + string" where
  "codex_home_key canonicalize path =
     bindr (ok_or (''failed to resolve Codex home '' @ path) (canonicalize path)) (\<lambda>p.
       Inr (map (\<lambda>c. if c = backslash then slash else c) p))"

definition TRACKING_SCHEMA_VERSION :: i64 where "TRACKING_SCHEMA_VERSION = 2"

text \<open>Creating and migrating the tables; an absent table is an empty one.\<close>

definition initialize_tracking :: "tracking_db \<Rightarrow> string + tracking_db" where
  "initialize_tracking db =
     (case schema_info db of
        Some actual \<Rightarrow>
          if TRACKING_SCHEMA_VERSION <s actual then Inl ''unsupported tracking schema version''
          else if actual = 1 then
            (if has_epoch_column db then Inl ''duplicate column name: remote_epoch''
             else Inr (db\<lparr>has_epoch_column := True, schema_info := Some 2,
               namespace_tracking := map (\<lambda>(k, r). (k, r\<lparr>row_epoch := 0\<rparr>)) (namespace_tracking db)\<rparr>))
          else Inr db
      | None \<Rightarrow> Inr (db\<lparr>has_epoch_column := True, schema_info := Some TRACKING_SCHEMA_VERSION\<rparr>))"

definition tracking_key :: "uuid_lib \<Rightarrow> string \<Rightarrow> uuid \<Rightarrow> uuid \<Rightarrow> tracking_key" where
  "tracking_key U key remote_id namespace_id = (key, uuid_text U remote_id, uuid_text U namespace_id)"

definition load_tracking ::
  "uuid_lib \<Rightarrow> (string \<Rightarrow> string option) \<Rightarrow> string \<Rightarrow> uuid \<Rightarrow> uuid \<Rightarrow> tracking_db \<Rightarrow> string + tracking_record option" where
  "load_tracking U canonicalize codex_home remote_id namespace_id db =
     bindr (codex_home_key canonicalize codex_home) (\<lambda>key.
       Inr (map_option (\<lambda>r. \<lparr>tr_remote_id = remote_id, tr_namespace_id = namespace_id,
              tr_codex_home_key = key, tr_integrated_head = row_head r, tr_remote_epoch = row_epoch r,
              tr_generation = row_generation r, tr_updated_at = row_updated_at r\<rparr>)
            (bt_get (namespace_tracking db) (tracking_key U key remote_id namespace_id))))"

text \<open>\<open>validate_sha256\<close> of protocol.rs, which carries no message of its own.\<close>

definition validate_sha256 :: "string \<Rightarrow> unit + unit" where
  "validate_sha256 value =
     (case strip_prefix ''sha256:'' value of
        None \<Rightarrow> Inl ()
      | Some digest \<Rightarrow>
          if length digest = 64 \<and> list_all is_lower_hex digest then Inr () else Inl ())"

lemma validate_sha256_v4_same: "is_ok (validate_sha256 s) = is_ok (validate_sha256_v4 s)"
  by (auto simp: validate_sha256_def validate_sha256_v4_def Let_def split: option.splits)

definition check_head :: "string option \<Rightarrow> string + unit" where
  "check_head head = (case head of
      None \<Rightarrow> Inr ()
    | Some h \<Rightarrow> map_err (\<lambda>_. ''invalid integrated head '' @ h) (validate_sha256 h))"

definition row_of_record :: "string option \<Rightarrow> i64 \<Rightarrow> i64 \<Rightarrow> string \<Rightarrow> tracking_row" where
  "row_of_record head epoch generation now =
     \<lparr>row_head = head, row_epoch = epoch, row_generation = generation, row_updated_at = now\<rparr>"

definition compare_and_set ::
  "uuid_lib \<Rightarrow> (string \<Rightarrow> string option) \<Rightarrow> string \<Rightarrow> string \<Rightarrow> uuid \<Rightarrow> uuid \<Rightarrow> u64 option \<Rightarrow> string option \<Rightarrow>
     tracking_db \<Rightarrow> string + (tracking_record \<times> tracking_db)" where
  "compare_and_set U canonicalize now codex_home remote_id namespace_id expected_generation integrated_head db =
     bindr (check_head integrated_head) (\<lambda>_.
     bindr (codex_home_key canonicalize codex_home) (\<lambda>key.
     let k = tracking_key U key remote_id namespace_id;
         current = bt_get (namespace_tracking db) k in
     bindr (ensure (\<not> map_option row_generation current \<noteq> expected_generation)
              ''tracking state changed concurrently'') (\<lambda>_.
     let generation = (case current of Some r \<Rightarrow> row_generation r | None \<Rightarrow> 0) + 1;
         remote_epoch = (case current of Some r \<Rightarrow> row_epoch r | None \<Rightarrow> 0)
     in Inr (\<lparr>tr_remote_id = remote_id, tr_namespace_id = namespace_id, tr_codex_home_key = key,
              tr_integrated_head = integrated_head, tr_remote_epoch = remote_epoch,
              tr_generation = generation, tr_updated_at = now\<rparr>,
            db\<lparr>namespace_tracking := bt_insert k (row_of_record integrated_head remote_epoch generation now)
                 (namespace_tracking db)\<rparr>))))"

definition i64_try_from :: "u64 \<Rightarrow> i64 option" where
  "i64_try_from x = (if unat x < 2 ^ 63 then Some x else None)"

definition i64_checked_add :: "i64 \<Rightarrow> i64 \<Rightarrow> i64 option" where
  "i64_checked_add a b =
     (let s = sint a + sint b in if - (2 ^ 63) \<le> s \<and> s < 2 ^ 63 then Some (a + b) else None)"

definition reconcile_checkout ::
  "uuid_lib \<Rightarrow> (string \<Rightarrow> string option) \<Rightarrow> string \<Rightarrow> string \<Rightarrow> uuid \<Rightarrow> uuid \<Rightarrow> u64 option \<Rightarrow> string option \<Rightarrow> bool \<Rightarrow>
     tracking_db \<Rightarrow> string + (tracking_record \<times> tracking_db)" where
  "reconcile_checkout U canonicalize now codex_home remote_id namespace_id expected_generation
       integrated_head activate_namespace db =
     bindr (check_head integrated_head) (\<lambda>_.
     bindr (codex_home_key canonicalize codex_home) (\<lambda>key.
     bindr (case expected_generation of
              None \<Rightarrow> Inr None
            | Some g \<Rightarrow> bindr (ok_or ''tracking generation exceeds SQLite integer range'' (i64_try_from g))
                (\<lambda>g. Inr (Some g))) (\<lambda>expected.
     bindr (ok_or ''tracking generation overflow''
              (i64_checked_add (case expected of Some g \<Rightarrow> g | None \<Rightarrow> 0) 1)) (\<lambda>next_generation.
     let k = tracking_key U key remote_id namespace_id;
         current = bt_get (namespace_tracking db) k;
         already_applied = (case current of None \<Rightarrow> False
           | Some r \<Rightarrow> row_generation r = next_generation \<and> row_head r = integrated_head)
     in if already_applied then
          bindr (if activate_namespace then
                   ensure (map_option (\<lambda>a. (act_remote a, act_namespace a)) (bt_get (active_namespace db) key)
                            = Some (uuid_text U remote_id, uuid_text U namespace_id))
                     ''tracking checkout was committed without the expected active namespace''
                 else Inr ()) (\<lambda>_.
          case current of
            None \<Rightarrow> Inl ''checked above''
          | Some r \<Rightarrow> Inr (\<lparr>tr_remote_id = remote_id, tr_namespace_id = namespace_id, tr_codex_home_key = key,
              tr_integrated_head = row_head r, tr_remote_epoch = row_epoch r,
              tr_generation = row_generation r, tr_updated_at = row_updated_at r\<rparr>, db))
        else
          bindr (ensure (\<not> map_option row_generation current \<noteq> expected)
                   ''tracking state changed concurrently'') (\<lambda>_.
          let epoch = (case current of Some r \<Rightarrow> row_epoch r | None \<Rightarrow> 0);
              db = db\<lparr>namespace_tracking :=
                bt_insert k (row_of_record integrated_head epoch next_generation now) (namespace_tracking db)\<rparr>;
              db = (if activate_namespace
                    then db\<lparr>active_namespace := bt_insert key
                      \<lparr>act_remote = uuid_text U remote_id, act_namespace = uuid_text U namespace_id,
                       act_updated_at = now\<rparr> (active_namespace db)\<rparr>
                    else db)
          in Inr (\<lparr>tr_remote_id = remote_id, tr_namespace_id = namespace_id, tr_codex_home_key = key,
                 tr_integrated_head = integrated_head, tr_remote_epoch = epoch,
                 tr_generation = next_generation, tr_updated_at = now\<rparr>, db))))))"

definition update_remote_epoch ::
  "uuid_lib \<Rightarrow> (string \<Rightarrow> string option) \<Rightarrow> string \<Rightarrow> string \<Rightarrow> uuid \<Rightarrow> uuid \<Rightarrow> u64 \<Rightarrow> u64 \<Rightarrow>
     tracking_db \<Rightarrow> string + (tracking_record \<times> tracking_db)" where
  "update_remote_epoch U canonicalize now codex_home remote_id namespace_id expected_generation remote_epoch db =
     bindr (codex_home_key canonicalize codex_home) (\<lambda>key.
     let k = tracking_key U key remote_id namespace_id in
     case bt_get (namespace_tracking db) k of
       None \<Rightarrow> Inl ''tracking state changed before remote epoch reconciliation''
     | Some r \<Rightarrow>
         if row_generation r \<noteq> expected_generation
         then Inl ''tracking state changed before remote epoch reconciliation''
         else let db = db\<lparr>namespace_tracking := bt_insert k (r\<lparr>row_epoch := remote_epoch, row_updated_at := now\<rparr>)
                    (namespace_tracking db)\<rparr>
              in bindr (load_tracking U canonicalize codex_home remote_id namespace_id db) (\<lambda>found.
                 bindr (ok_or ''tracking record disappeared'' found) (\<lambda>r. Inr (r, db))))"

definition active_binding ::
  "uuid_lib \<Rightarrow> (string \<Rightarrow> string option) \<Rightarrow> string \<Rightarrow> tracking_db \<Rightarrow> string + active_namespace_binding option" where
  "active_binding U canonicalize codex_home db =
     bindr (codex_home_key canonicalize codex_home) (\<lambda>key.
     case bt_get (active_namespace db) key of
       None \<Rightarrow> Inr None
     | Some a \<Rightarrow>
         bindr (ok_or ''tracking database contains an invalid remote ID'' (parse_uuid U (act_remote a))) (\<lambda>remote_id.
         bindr (ok_or ''tracking database contains an invalid namespace ID'' (parse_uuid U (act_namespace a))) (\<lambda>namespace_id.
           Inr (Some \<lparr>ab_remote_id = remote_id, ab_namespace_id = namespace_id, ab_codex_home_key = key,
             ab_updated_at = act_updated_at a\<rparr>))))"

definition set_active ::
  "uuid_lib \<Rightarrow> (string \<Rightarrow> string option) \<Rightarrow> string \<Rightarrow> string \<Rightarrow> uuid \<Rightarrow> uuid \<Rightarrow> tracking_db \<Rightarrow>
     string + (active_namespace_binding \<times> tracking_db)" where
  "set_active U canonicalize now codex_home remote_id namespace_id db =
     bindr (codex_home_key canonicalize codex_home) (\<lambda>key.
       Inr (\<lparr>ab_remote_id = remote_id, ab_namespace_id = namespace_id, ab_codex_home_key = key,
             ab_updated_at = now\<rparr>,
            db\<lparr>active_namespace := bt_insert key \<lparr>act_remote = uuid_text U remote_id,
                 act_namespace = uuid_text U namespace_id, act_updated_at = now\<rparr> (active_namespace db)\<rparr>))"

section \<open>What a successful update leaves\<close>

lemma compare_and_set_Inr:
  assumes "compare_and_set U canon now home rid nid e head db = Inr (rec, db')"
  obtains key row where "codex_home_key canon home = Inr key"
    "map_option row_generation (bt_get (namespace_tracking db) (tracking_key U key rid nid)) = e"
    "row_generation row = (case e of Some g \<Rightarrow> g | None \<Rightarrow> 0) + 1" "row_head row = head"
    "row_epoch row = (case bt_get (namespace_tracking db) (tracking_key U key rid nid) of
        Some r \<Rightarrow> row_epoch r | None \<Rightarrow> 0)"
    "db' = db\<lparr>namespace_tracking := bt_insert (tracking_key U key rid nid) row (namespace_tracking db)\<rparr>"
    "rec = \<lparr>tr_remote_id = rid, tr_namespace_id = nid, tr_codex_home_key = key,
       tr_integrated_head = row_head row, tr_remote_epoch = row_epoch row,
       tr_generation = row_generation row, tr_updated_at = row_updated_at row\<rparr>"
proof -
  from assms obtain key where key: "codex_home_key canon home = Inr key"
    unfolding compare_and_set_def by (elim bindrE)
  let ?cur = "bt_get (namespace_tracking db) (tracking_key U key rid nid)"
  let ?row = "row_of_record head (case ?cur of Some r \<Rightarrow> row_epoch r | None \<Rightarrow> 0)
      ((case ?cur of Some r \<Rightarrow> row_generation r | None \<Rightarrow> 0) + 1) now"
  from assms have r: "map_option row_generation ?cur = e"
    "rec = \<lparr>tr_remote_id = rid, tr_namespace_id = nid, tr_codex_home_key = key,
       tr_integrated_head = row_head ?row, tr_remote_epoch = row_epoch ?row,
       tr_generation = row_generation ?row, tr_updated_at = row_updated_at ?row\<rparr>"
    "db' = db\<lparr>namespace_tracking := bt_insert (tracking_key U key rid nid) ?row (namespace_tracking db)\<rparr>"
    by (auto simp: compare_and_set_def bindr_eq_Inr_iff key Let_def row_of_record_def)
  have "row_generation ?row = (case e of Some g \<Rightarrow> g | None \<Rightarrow> 0) + 1"
    using r(1) by (cases ?cur) (auto simp: row_of_record_def)
  with that[OF key r(1) _ _ _ r(3,2)] show thesis by (simp add: row_of_record_def)
qed

lemma load_tracking_row:
  "codex_home_key canon home = Inr key \<Longrightarrow> load_tracking U canon home rid nid db =
     Inr (map_option (\<lambda>r. \<lparr>tr_remote_id = rid, tr_namespace_id = nid, tr_codex_home_key = key,
       tr_integrated_head = row_head r, tr_remote_epoch = row_epoch r,
       tr_generation = row_generation r, tr_updated_at = row_updated_at r\<rparr>)
       (bt_get (namespace_tracking db) (tracking_key U key rid nid)))"
  by (simp add: load_tracking_def)

end
