(* ===== verification/TrackingProps.thy ===== *)
theory TrackingProps
  imports Tracking
begin

text \<open>The properties of the tracking store.\<close>

definition toy_uuid :: uuid_lib where
  "toy_uuid = \<lparr>uuid_text = \<lambda>u. replicate (unat u) (CHR ''u''), parse_uuid = \<lambda>s. Some (of_nat (length s))\<rparr>"

definition toy_db :: tracking_db where
  "toy_db = \<lparr>schema_info = Some 2, has_epoch_column = True, namespace_tracking = [], active_namespace = []\<rparr>"

text \<open>
  an update of the tracking record is seen. After a successful compare-and-set, loading the
  same namespace returns the record it returned, whose generation is one more than the expected
  one and whose head is the new one, with the remote epoch kept; every other namespace, remote
  and Codex home keeps its record. Uuid texts are distinct.
\<close>
theorem compare_and_set_updates:
  assumes "compare_and_set U canon now home rid nid e head db = Inr (rec, db')"
    and "inj (uuid_text U)"
  shows "load_tracking U canon home rid nid db' = Inr (Some rec)
    \<and> tr_generation rec = (case e of Some g \<Rightarrow> g | None \<Rightarrow> 0) + 1 \<and> tr_integrated_head rec = head
    \<and> (\<forall>home' rid' nid'. codex_home_key canon home' \<noteq> codex_home_key canon home \<or> (rid', nid') \<noteq> (rid, nid)
         \<longrightarrow> load_tracking U canon home' rid' nid' db' = load_tracking U canon home' rid' nid' db)"
proof -
  from compare_and_set_Inr[OF assms(1)] obtain key row where k: "codex_home_key canon home = Inr key"
    "row_generation row = (case e of Some g \<Rightarrow> g | None \<Rightarrow> 0) + 1" "row_head row = head"
    "db' = db\<lparr>namespace_tracking := bt_insert (tracking_key U key rid nid) row (namespace_tracking db)\<rparr>"
    "rec = \<lparr>tr_remote_id = rid, tr_namespace_id = nid, tr_codex_home_key = key,
       tr_integrated_head = row_head row, tr_remote_epoch = row_epoch row,
       tr_generation = row_generation row, tr_updated_at = row_updated_at row\<rparr>" by metis
  have "load_tracking U canon home' rid' nid' db' = load_tracking U canon home' rid' nid' db"
    if "codex_home_key canon home' \<noteq> codex_home_key canon home \<or> (rid', nid') \<noteq> (rid, nid)" for home' rid' nid'
  proof (cases "codex_home_key canon home'")
    case (Inr key')
    with that k(1) have "tracking_key U key' rid' nid' \<noteq> tracking_key U key rid nid"
      using assms(2) by (auto simp: tracking_key_def inj_def)
    then show ?thesis by (simp add: load_tracking_row[OF Inr] k(4) bt_get_insert)
  qed (simp add: load_tracking_def)
  then show ?thesis
    by (simp add: load_tracking_row[OF k(1)] k(4) bt_get_insert) (simp add: k(2,3,5))
qed

theorem compare_and_set_updates_witness:
  "\<exists>rec db'. compare_and_set toy_uuid Some ''t'' ''/h'' 1 2 None None toy_db = Inr (rec, db')
     \<and> load_tracking toy_uuid Some ''/h'' 1 2 db' = Inr (Some rec) \<and> tr_generation rec = 1"
proof -
  have "is_ok (compare_and_set toy_uuid Some ''t'' ''/h'' 1 2 None None toy_db)"
    by (simp add: compare_and_set_def check_head_def codex_home_key_def Let_def toy_db_def)
  then obtain rec db' where c: "compare_and_set toy_uuid Some ''t'' ''/h'' 1 2 None None toy_db = Inr (rec, db')"
    by (auto simp: is_ok_iff)
  have "inj (uuid_text toy_uuid)" by (auto simp: inj_def toy_uuid_def word_unat_eq_iff)
  from compare_and_set_updates[OF c this] c show ?thesis by simp
qed

text \<open>
  of two writers that read the same state one wins. After a successful compare-and-set every
  other compare-and-set with the same expected generation is refused, whatever head it writes, so
  no integrated head is silently overwritten.
\<close>
theorem compare_and_set_one_winner:
  assumes "compare_and_set U canon now home rid nid e head db = Inr (rec, db')"
  shows "\<not> is_ok (compare_and_set U canon now' home rid nid e head' db')"
proof -
  from compare_and_set_Inr[OF assms] obtain key row where k: "codex_home_key canon home = Inr key"
    "row_generation row = (case e of Some g \<Rightarrow> g | None \<Rightarrow> 0) + 1"
    "db' = db\<lparr>namespace_tracking := bt_insert (tracking_key U key rid nid) row (namespace_tracking db)\<rparr>" by metis
  have new: "map_option row_generation (bt_get (namespace_tracking db') (tracking_key U key rid nid)) \<noteq> e"
    using k(2) by (cases e) (auto simp: k(3) bt_get_insert)
  show ?thesis
  proof
    assume "is_ok (compare_and_set U canon now' home rid nid e head' db')"
    then obtain rec2 db2 where "compare_and_set U canon now' home rid nid e head' db' = Inr (rec2, db2)"
      by (auto simp: is_ok_iff)
    from compare_and_set_Inr[OF this] k(1) new show False by (metis Inr_inject)
  qed
qed

theorem compare_and_set_one_winner_witness:
  "\<exists>rec db'. compare_and_set toy_uuid Some ''t'' ''/h'' 1 2 None None toy_db = Inr (rec, db')
     \<and> \<not> is_ok (compare_and_set toy_uuid Some ''u'' ''/h'' 1 2 None None db')"
proof -
  have "is_ok (compare_and_set toy_uuid Some ''t'' ''/h'' 1 2 None None toy_db)"
    by (simp add: compare_and_set_def check_head_def codex_home_key_def Let_def toy_db_def)
  then obtain rec db' where c: "compare_and_set toy_uuid Some ''t'' ''/h'' 1 2 None None toy_db = Inr (rec, db')"
    by (auto simp: is_ok_iff)
  from compare_and_set_one_winner[OF c] c show ?thesis by blast
qed

text \<open>
  reconciling a checkout can be retried. If \<open>reconcile_checkout\<close> succeeded and is called
  again with the same arguments, at any later time, it returns the same record and changes
  nothing: a crash between the commit and its acknowledgement is harmless.
\<close>
theorem reconcile_checkout_retry:
  assumes "reconcile_checkout U canon now home rid nid e head activate db = Inr (rec, db')"
  shows "reconcile_checkout U canon now' home rid nid e head activate db' = Inr (rec, db')"
proof -
  let ?exp = "case e of None \<Rightarrow> Inr None
            | Some g \<Rightarrow> bindr (ok_or ''tracking generation exceeds SQLite integer range'' (i64_try_from g))
                (\<lambda>g. Inr (Some g))"
  from assms obtain key x n where h: "check_head head = Inr ()" "codex_home_key canon home = Inr key"
    "?exp = Inr x" "i64_checked_add (case x of Some g \<Rightarrow> g | None \<Rightarrow> 0) 1 = Some n"
    unfolding reconcile_checkout_def by (elim bindrE) auto
  let ?k = "tracking_key U key rid nid"
  let ?cur = "\<lambda>db. bt_get (namespace_tracking db) ?k"
  let ?applied = "\<lambda>db. case ?cur db of None \<Rightarrow> False
           | Some r \<Rightarrow> row_generation r = n \<and> row_head r = head"
  let ?active = "\<lambda>db. activate \<longrightarrow> map_option (\<lambda>a. (act_remote a, act_namespace a)) (bt_get (active_namespace db) key)
      = Some (uuid_text U rid, uuid_text U nid)"
  let ?rec = "\<lambda>r. \<lparr>tr_remote_id = rid, tr_namespace_id = nid, tr_codex_home_key = key,
      tr_integrated_head = row_head r, tr_remote_epoch = row_epoch r,
      tr_generation = row_generation r, tr_updated_at = row_updated_at r\<rparr>"
  have again: "reconcile_checkout U canon now' home rid nid e head activate d = Inr (?rec r, d)"
    if "?cur d = Some r" "row_generation r = n" "row_head r = head" "?active d" for d r
    using that h by (simp add: reconcile_checkout_def Let_def)
  show ?thesis
  proof (cases "?applied db")
    case True
    then obtain r where r: "?cur db = Some r" "row_generation r = n" "row_head r = head"
      by (auto split: option.splits)
    from assms r h have "rec = ?rec r" "db' = db" "?active db"
      by (auto simp: reconcile_checkout_def Let_def bindr_eq_Inr_iff split: if_splits)
    with again[OF r] show ?thesis by simp
  next
    case False
    let ?row = "row_of_record head (case ?cur db of Some r \<Rightarrow> row_epoch r | None \<Rightarrow> 0) n now"
    from assms False h have "rec = ?rec ?row"
      "namespace_tracking db' = bt_insert ?k ?row (namespace_tracking db)"
      "active_namespace db' = (if activate then bt_insert key \<lparr>act_remote = uuid_text U rid,
          act_namespace = uuid_text U nid, act_updated_at = now\<rparr> (active_namespace db) else active_namespace db)"
      by (auto simp: reconcile_checkout_def Let_def bindr_eq_Inr_iff row_of_record_def split: if_splits)
    then show ?thesis
      using again[of db' ?row] by (simp add: bt_get_insert row_of_record_def)
  qed
qed

theorem reconcile_checkout_retry_witness:
  "\<exists>rec db'. reconcile_checkout toy_uuid Some ''t'' ''/h'' 1 2 None None True toy_db = Inr (rec, db')
     \<and> reconcile_checkout toy_uuid Some ''u'' ''/h'' 1 2 None None True db' = Inr (rec, db')"
proof -
  have "is_ok (reconcile_checkout toy_uuid Some ''t'' ''/h'' 1 2 None None True toy_db)"
    by (simp add: reconcile_checkout_def check_head_def codex_home_key_def Let_def toy_db_def i64_checked_add_def)
  then obtain rec db' where c: "reconcile_checkout toy_uuid Some ''t'' ''/h'' 1 2 None None True toy_db = Inr (rec, db')"
    by (auto simp: is_ok_iff)
  from reconcile_checkout_retry[OF c] c show ?thesis by blast
qed

end
