(* ===== verification/Staging.thy ===== *)
theory Staging
  imports MergeFacts
begin

text \<open>
  staging.rs: the plan of local changes against the baseline, the selection of a part of it, and
  the composition of the selection onto the complete remote tree, over threads and over the
  lightweight references of a revision root.
\<close>

datatype change_kind = Added | Modified | ArchiveChanged | Deleted | Unchanged

record change_candidate =
  cc_thread_id :: string
  cc_kind :: change_kind
  cc_archived :: "bool option"
  cc_local :: "thread_bundle option"
  cc_baseline :: "thread_bundle option"
  cc_local_fingerprint :: "string option"
  cc_baseline_fingerprint :: "string option"

record change_plan =
  cp_base_revision_id :: "string option"
  candidates :: "change_candidate list"

record staged_change_set =
  sc_base_revision_id :: "string option"
  selected_thread_ids :: "string list"

definition changed :: "change_plan \<Rightarrow> change_candidate list" where
  "changed plan = filter (\<lambda>c. cc_kind c \<noteq> Unchanged) (candidates plan)"

definition candidate :: "change_plan \<Rightarrow> string \<Rightarrow> change_candidate option" where
  "candidate plan tid = find (\<lambda>c. cc_thread_id c = tid) (candidates plan)"

definition from_selected :: "change_plan \<Rightarrow> string list \<Rightarrow> string + staged_change_set" where
  "from_selected plan selected =
     (let selected = btree_set selected in
      bindr (foldr_res (\<lambda>tid (_ :: unit).
        bindr (ok_or (''selected thread is not in the change plan: '' @ tid) (candidate plan tid)) (\<lambda>c.
          ensure (\<not> cc_kind c = Unchanged) (''unchanged thread cannot be staged: '' @ tid))) selected ()) (\<lambda>_.
        Inr \<lparr>sc_base_revision_id = cp_base_revision_id plan, selected_thread_ids = selected\<rparr>))"

definition staging_thread_map :: "thread_bundle list \<Rightarrow> string \<Rightarrow> string + (string, thread_bundle) btree_map" where
  "staging_thread_map threads label = bt.index_from
     (\<lambda>t. ensure (\<not> blank (thread_id t)) (label @ '' contains an empty thread ID''))
     thread_id (\<lambda>t. t) (\<lambda>t. label @ '' contains duplicate thread ID '' @ thread_id t) threads []"

definition archive_independent_fingerprint ::
  "(json \<Rightarrow> bytes) \<Rightarrow> (bytes \<Rightarrow> string) \<Rightarrow> thread_bundle \<Rightarrow> string" where
  "archive_independent_fingerprint to_vec H t = semantic_thread_hash to_vec H (t\<lparr>archived := False\<rparr>)"

definition plan_candidate ::
  "(json \<Rightarrow> bytes) \<Rightarrow> (bytes \<Rightarrow> string) \<Rightarrow> string \<Rightarrow> thread_bundle option \<Rightarrow> thread_bundle option \<Rightarrow> change_candidate" where
  "plan_candidate to_vec H tid base local =
     (let local_fingerprint = map_option (semantic_thread_hash to_vec H) local;
          baseline_fingerprint = map_option (semantic_thread_hash to_vec H) base;
          (kind, arch) = (case (base, local) of
              (None, Some _) \<Rightarrow> (Added, None)
            | (Some _, None) \<Rightarrow> (Deleted, None)
            | (Some b, Some l) \<Rightarrow>
                if local_fingerprint = baseline_fingerprint then (Unchanged, None)
                else if archive_independent_fingerprint to_vec H b = archive_independent_fingerprint to_vec H l
                then (ArchiveChanged, Some (archived l))
                else (Modified, None)
            | (None, None) \<Rightarrow> (Unchanged, None))
      in \<lparr>cc_thread_id = tid, cc_kind = kind, cc_archived = arch, cc_local = local, cc_baseline = base,
          cc_local_fingerprint = local_fingerprint, cc_baseline_fingerprint = baseline_fingerprint\<rparr>)"

definition build_change_plan ::
  "(json \<Rightarrow> bytes) \<Rightarrow> (bytes \<Rightarrow> string) \<Rightarrow> string option \<Rightarrow> thread_bundle list \<Rightarrow> thread_bundle list \<Rightarrow>
     string + change_plan" where
  "build_change_plan to_vec H base_revision_id baseline0 workspace0 =
     bindr (staging_thread_map baseline0 ''baseline'') (\<lambda>baseline.
     bindr (staging_thread_map workspace0 ''workspace'') (\<lambda>workspace.
     let ids = btree_set (bt_keys baseline @ bt_keys workspace)
     in Inr \<lparr>cp_base_revision_id = base_revision_id,
          candidates = map (\<lambda>tid. plan_candidate to_vec H tid (bt_get baseline tid) (bt_get workspace tid)) ids\<rparr>))"

definition compose_step ::
  "change_plan \<Rightarrow> string \<Rightarrow> (string, thread_bundle) btree_map \<Rightarrow> string + (string, thread_bundle) btree_map" where
  "compose_step plan tid result =
     bindr (ok_or (''staged thread is not in the change plan: '' @ tid) (candidate plan tid)) (\<lambda>c.
     case cc_kind c of
       Deleted \<Rightarrow> Inr (bt_remove tid result)
     | Unchanged \<Rightarrow> Inl (''unchanged thread cannot be staged: '' @ tid)
     | _ \<Rightarrow> bindr (ok_or (''staged local thread is missing: '' @ tid) (cc_local c)) (\<lambda>l.
              Inr (bt_insert tid l result)))"

definition compose_staged_thread_set ::
  "thread_bundle list \<Rightarrow> change_plan \<Rightarrow> staged_change_set \<Rightarrow> string + thread_bundle list" where
  "compose_staged_thread_set remote plan staged =
     bindr (ensure (\<not> sc_base_revision_id staged \<noteq> cp_base_revision_id plan)
              ''staged change set was created from a different baseline'') (\<lambda>_.
     bindr (staging_thread_map remote ''remote'') (\<lambda>result.
     bindr (foldr_res (compose_step plan) (selected_thread_ids staged) result) (\<lambda>result.
       Inr (bt_values result))))"

definition compose_ref_step ::
  "change_plan \<Rightarrow> (string, thread_ref_v4) btree_map \<Rightarrow> string \<Rightarrow> (string, thread_ref_v4) btree_map \<Rightarrow>
     string + (string, thread_ref_v4) btree_map" where
  "compose_ref_step plan selected_refs tid result =
     bindr (ok_or (''staged thread is not in the change plan: '' @ tid) (candidate plan tid)) (\<lambda>c.
     case cc_kind c of
       Deleted \<Rightarrow>
         if bt_contains selected_refs tid
         then Inl (''a deleted thread must not have a staged descriptor: '' @ tid)
         else Inr (bt_remove tid result)
     | Unchanged \<Rightarrow> Inl (''unchanged thread cannot be staged: '' @ tid)
     | _ \<Rightarrow> bindr (ok_or (''staged descriptor is missing: '' @ tid) (bt_get selected_refs tid)) (\<lambda>r.
              Inr (bt_insert tid r result)))"

definition compose_staged_thread_refs ::
  "thread_ref_v4 list \<Rightarrow> change_plan \<Rightarrow> staged_change_set \<Rightarrow> thread_ref_v4 list \<Rightarrow> string + thread_ref_v4 list" where
  "compose_staged_thread_refs remote plan staged selected_refs0 =
     bindr (ensure (\<not> sc_base_revision_id staged \<noteq> cp_base_revision_id plan)
              ''staged change set was created from a different baseline'') (\<lambda>_.
     bindr (bt.index_from (\<lambda>_. Inr ()) tref_thread_id (\<lambda>r. r)
              (\<lambda>r. ''remote contains duplicate thread ID '' @ tref_thread_id r) remote []) (\<lambda>result.
     let selected_refs = bt_of_list (map (\<lambda>r. (tref_thread_id r, r)) selected_refs0) in
     bindr (foldr_res (compose_ref_step plan selected_refs) (selected_thread_ids staged) result) (\<lambda>result.
       Inr (bt_values result))))"

end
