(* ===== verification/StagingProps.thy ===== *)
theory StagingProps
  imports Staging MergeProps
begin

text \<open>The properties of staging: the plan is the semantic difference, a composition changes
  exactly the selected threads, and the reference version agrees with the thread version.\<close>

section \<open>Tables of threads\<close>

definition keyed_by_id :: "(string, thread_bundle) btree_map \<Rightarrow> bool" where
  "keyed_by_id m \<longleftrightarrow> bt_ok m \<and> (\<forall>e \<in> set m. thread_id (snd e) = fst e)"

lemma keyed_values: "keyed_by_id m \<Longrightarrow> map thread_id (bt_values m) = bt_keys m"
  by (auto simp: keyed_by_id_def bt_values_def bt_keys_def)

lemma keyed_sorted: "keyed_by_id m \<Longrightarrow> sorted_wrt (<) (map thread_id (bt_values m))"
  by (simp add: keyed_values) (simp add: keyed_by_id_def bt_ok_def bt_keys_def)

lemma find_bt_values:
  assumes "keyed_by_id m"
  shows "find_thread (bt_values m) tid = bt_get m tid"
proof -
  have "\<forall>e \<in> set m. thread_id (snd e) = fst e" using assms by (simp add: keyed_by_id_def)
  then show ?thesis by (induction m) (auto simp: bt_values_def bt_get_def)
qed

lemma set_bt_insert: "set (bt_insert k v m) \<subseteq> insert (k, v) (set m)"
  by (induction m) auto

lemma keyed_insert: "keyed_by_id m \<Longrightarrow> thread_id t = k \<Longrightarrow> keyed_by_id (bt_insert k t m)"
  using set_bt_insert[of k t m] by (auto simp: keyed_by_id_def)

lemma keyed_remove: "keyed_by_id m \<Longrightarrow> keyed_by_id (bt_remove k m)"
  by (simp add: keyed_by_id_def) (simp add: bt_remove_def)

lemma staging_map_Inr:
  assumes "staging_thread_map ts label = Inr m"
  shows "keyed_by_id m" "bt_get m tid = find_thread ts tid" "set (bt_keys m) = thread_id ` set ts"
    "distinct (map thread_id ts)" "list_all (\<lambda>t. \<not> blank (thread_id t)) ts"
proof -
  have i: "bt.index_from (\<lambda>t. ensure (\<not> blank (thread_id t)) (label @ '' contains an empty thread ID''))
     thread_id (\<lambda>t. t) (\<lambda>t. label @ '' contains duplicate thread ID '' @ thread_id t) ts [] = Inr m"
    using assms by (simp add: staging_thread_map_def)
  have ok: "bt_ok m" using bt.index_from_ok[OF _ i] by simp
  have g: "bt_get m k = find_thread ts k" for k
    using bt.index_from_get[OF _ i, of k] by (simp add: find_thread_map_of split: option.splits)
  show "bt_get m tid = find_thread ts tid" by (rule g)
  have "thread_id (snd e) = fst e" if "e \<in> set m" for e
  proof -
    from that ok have "bt_get m (fst e) = Some (snd e)" by (simp add: bt_get_in_set)
    then show ?thesis by (auto simp: g dest: find_thread_Some)
  qed
  with ok show "keyed_by_id m" by (simp add: keyed_by_id_def)
  show "set (bt_keys m) = thread_id ` set ts"
  proof (rule set_eqI)
    show "k \<in> set (bt_keys m) \<longleftrightarrow> k \<in> thread_id ` set ts" for k
      unfolding bt_get_keys[symmetric] g find_thread_None by simp
  qed
  show "distinct (map thread_id ts)" using bt.index_from_get[OF _ i] by simp
  show "list_all (\<lambda>t. \<not> blank (thread_id t)) ts"
    using bt.index_from_get[OF _ i] by (simp add: list_all_iff)
qed

lemma staging_map_is_ok:
  "is_ok (staging_thread_map ts label) \<longleftrightarrow> distinct (map thread_id ts) \<and> list_all (\<lambda>t. \<not> blank (thread_id t)) ts"
  unfolding staging_thread_map_def by (subst bt.index_from_is_ok_iff) (auto simp: list_all_iff)

section \<open>The plan\<close>

lemma find_map_key:
  "find (\<lambda>c. g c = tid) (map f ids) = (if tid \<in> set ids then Some (f tid) else None)"
  if "\<And>j. g (f j) = j"
  using that by (induction ids) auto

lemma plan_candidate_id [simp]: "cc_thread_id (plan_candidate to_vec H tid b l) = tid"
  by (simp add: plan_candidate_def Let_def case_prod_unfold)

lemma plan_candidate_sides [simp]:
  "cc_local (plan_candidate to_vec H tid b l) = l" "cc_baseline (plan_candidate to_vec H tid b l) = b"
  by (simp_all add: plan_candidate_def Let_def case_prod_unfold)

lemma plan_Inr:
  assumes "build_change_plan to_vec H base baseline work = Inr plan"
  shows "candidate plan tid = (if find_thread baseline tid = None \<and> find_thread work tid = None then None
      else Some (plan_candidate to_vec H tid (find_thread baseline tid) (find_thread work tid)))"
    and "sorted_wrt (<) (map cc_thread_id (candidates plan))"
    and "cp_base_revision_id plan = base"
    and "c \<in> set (candidates plan) \<Longrightarrow> candidate plan (cc_thread_id c) = Some c"
proof -
  from assms obtain b w where m: "staging_thread_map baseline ''baseline'' = Inr b"
    "staging_thread_map work ''workspace'' = Inr w"
    and plan: "plan = \<lparr>cp_base_revision_id = base, candidates = map (\<lambda>tid. plan_candidate to_vec H tid
       (find_thread baseline tid) (find_thread work tid)) (btree_set (bt_keys b @ bt_keys w))\<rparr>"
    by (auto simp: build_change_plan_def bindr_eq_Inr_iff Let_def staging_map_Inr(2))
  have ids: "set (btree_set (bt_keys b @ bt_keys w)) = thread_id ` set baseline \<union> thread_id ` set work"
    using staging_map_Inr(3)[OF m(1)] staging_map_Inr(3)[OF m(2)] by simp
  have c: "candidate plan k = (if find_thread baseline k = None \<and> find_thread work k = None then None
      else Some (plan_candidate to_vec H k (find_thread baseline k) (find_thread work k)))" for k
    unfolding candidate_def plan change_plan.select_convs
    by (subst find_map_key) (simp_all add: ids find_thread_None del: btree_set_set)
  show "candidate plan tid = (if find_thread baseline tid = None \<and> find_thread work tid = None then None
      else Some (plan_candidate to_vec H tid (find_thread baseline tid) (find_thread work tid)))"
    by (rule c)
  show "sorted_wrt (<) (map cc_thread_id (candidates plan))"
    by (simp add: plan comp_def btree_set_strict)
  show "cp_base_revision_id plan = base" by (simp add: plan)
  assume "c \<in> set (candidates plan)"
  then obtain k where k: "k \<in> thread_id ` set baseline \<union> thread_id ` set work"
    "c = plan_candidate to_vec H k (find_thread baseline k) (find_thread work k)"
    unfolding plan change_plan.select_convs set_map ids by blast
  from k(1) have "\<not> (find_thread baseline k = None \<and> find_thread work k = None)"
    unfolding find_thread_None by blast
  then show "candidate plan (cc_thread_id c) = Some c"
    using k(2) c[of k] by (simp only: plan_candidate_id if_False)
qed

lemma plan_kind:
  defines "h \<equiv> \<lambda>to_vec H. semantic_thread_hash to_vec H"
  assumes "\<not> (b = None \<and> l = None)"
  shows "cc_kind (plan_candidate to_vec H tid b l) = Unchanged \<longleftrightarrow>
      map_option (h to_vec H) b = map_option (h to_vec H) l"
    and "cc_kind (plan_candidate to_vec H tid b l) = Added \<longleftrightarrow> b = None"
    and "cc_kind (plan_candidate to_vec H tid b l) = Deleted \<longleftrightarrow> l = None"
  using assms by (cases b; cases l; auto simp: plan_candidate_def Let_def)+

section \<open>Compositions\<close>

text \<open>What a selected change makes of a thread.\<close>

definition staged_version :: "change_plan \<Rightarrow> string \<Rightarrow> thread_bundle option" where
  "staged_version plan tid = (case candidate plan tid of
      Some c \<Rightarrow> (if cc_kind c = Deleted then None else cc_local c) | None \<Rightarrow> None)"

definition plan_ok :: "change_plan \<Rightarrow> bool" where
  "plan_ok plan \<longleftrightarrow> (\<forall>tid c l. candidate plan tid = Some c \<longrightarrow> cc_local c = Some l \<longrightarrow> thread_id l = tid)"

lemma compose_step_Inr:
  assumes "compose_step plan tid m = Inr m'" "keyed_by_id m" "plan_ok plan"
  shows "keyed_by_id m'" and "bt_get m' k = (if k = tid then staged_version plan tid else bt_get m k)"
    and "\<exists>c. candidate plan tid = Some c \<and> cc_kind c \<noteq> Unchanged"
proof -
  from assms(1) obtain c where c: "candidate plan tid = Some c" "cc_kind c \<noteq> Unchanged"
    and m': "if cc_kind c = Deleted then m' = bt_remove tid m
       else \<exists>l. cc_local c = Some l \<and> m' = bt_insert tid l m"
  proof -
    from assms(1) obtain c where "candidate plan tid = Some c"
      by (auto simp: compose_step_def bindr_eq_Inr_iff)
    with assms(1) that show thesis
      by (cases "cc_kind c") (auto simp: compose_step_def bindr_eq_Inr_iff)
  qed
  have id: "thread_id l = tid" if "cc_local c = Some l" for l
    using that c(1) assms(3) by (auto simp: plan_ok_def)
  show "keyed_by_id m'"
    using m' assms(2) by (auto simp: id intro: keyed_insert keyed_remove split: if_splits)
  show "bt_get m' k = (if k = tid then staged_version plan tid else bt_get m k)"
    using m' c(1) by (auto simp: staged_version_def bt_get_insert bt_get_remove split: if_splits)
  show "\<exists>c. candidate plan tid = Some c \<and> cc_kind c \<noteq> Unchanged" using c by blast
qed

lemma compose_fold:
  "foldr_res (compose_step plan) sel m = Inr m' \<Longrightarrow> keyed_by_id m \<Longrightarrow> plan_ok plan \<Longrightarrow>
     keyed_by_id m' \<and> (\<forall>k. bt_get m' k = (if k \<in> set sel then staged_version plan k else bt_get m k))"
proof (induction sel arbitrary: m)
  case (Cons tid sel)
  from Cons.prems(1) obtain m1 where m1: "compose_step plan tid m = Inr m1"
    "foldr_res (compose_step plan) sel m1 = Inr m'" by (auto simp: bindr_eq_Inr_iff)
  note st = compose_step_Inr[OF m1(1) Cons.prems(2,3)]
  from Cons.IH[OF m1(2) st(1) Cons.prems(3)] st(2) show ?case by auto
qed simp

lemma built_plan_ok:
  assumes "build_change_plan to_vec H base baseline work = Inr plan"
  shows "plan_ok plan"
    and "staged_version plan tid = find_thread work tid"
  using plan_Inr(1)[OF assms]
  by (auto simp: plan_ok_def staged_version_def plan_kind dest: find_thread_Some split: if_splits)

lemma compose_Inr:
  assumes "compose_staged_thread_set remote plan staged = Inr out" "plan_ok plan"
  shows "sorted_wrt (<) (map thread_id out)"
    and "find_thread out tid = (if tid \<in> set (selected_thread_ids staged) then staged_version plan tid
      else find_thread remote tid)"
proof -
  from assms(1) obtain m m' where m: "staging_thread_map remote ''remote'' = Inr m"
    "foldr_res (compose_step plan) (selected_thread_ids staged) m = Inr m'" "out = bt_values m'"
    by (auto simp: compose_staged_thread_set_def bindr_eq_Inr_iff)
  note map = staging_map_Inr(1,2)[OF m(1)]
  from compose_fold[OF m(2) map(1) assms(2)] have f: "keyed_by_id m'"
    "\<forall>k. bt_get m' k = (if k \<in> set (selected_thread_ids staged) then staged_version plan k else bt_get m k)" by auto
  show "sorted_wrt (<) (map thread_id out)" using keyed_sorted[OF f(1)] m(3) by simp
  show "find_thread out tid = (if tid \<in> set (selected_thread_ids staged) then staged_version plan tid
      else find_thread remote tid)"
    using f(2) map(2) by (simp add: m(3) find_bt_values[OF f(1)])
qed

lemma compose_fold_ok:
  assumes "\<And>tid. tid \<in> set sel \<Longrightarrow> \<exists>c. candidate plan tid = Some c \<and> cc_kind c \<noteq> Unchanged
      \<and> (cc_kind c \<noteq> Deleted \<longrightarrow> cc_local c \<noteq> None)"
  shows "is_ok (foldr_res (compose_step plan) sel m)"
  using assms
proof (induction sel arbitrary: m)
  case (Cons tid sel)
  from Cons.prems[of tid] obtain c where "candidate plan tid = Some c" "cc_kind c \<noteq> Unchanged"
    "cc_kind c \<noteq> Deleted \<longrightarrow> cc_local c \<noteq> None" by (meson list.set_intros(1))
  then have "\<exists>m1. compose_step plan tid m = Inr m1"
    by (auto simp: compose_step_def split: change_kind.splits)
  with Cons show ?case by auto
qed simp

lemma compose_ok:
  assumes "\<And>m. is_ok (foldr_res (compose_step plan) (selected_thread_ids staged) m)"
    and "is_ok (staging_thread_map remote ''remote'')" "sc_base_revision_id staged = cp_base_revision_id plan"
  shows "is_ok (compose_staged_thread_set remote plan staged)"
proof -
  from assms(2) obtain m where m: "staging_thread_map remote ''remote'' = Inr m" by (auto simp: is_ok_iff)
  from assms(1)[of m] obtain m' where "foldr_res (compose_step plan) (selected_thread_ids staged) m = Inr m'"
    by (auto simp: is_ok_iff)
  with m assms(3) show ?thesis by (simp add: compose_staged_thread_set_def)
qed

lemma from_selected_Inr:
  assumes "from_selected plan sel = Inr staged"
  shows "sc_base_revision_id staged = cp_base_revision_id plan"
    and "set (selected_thread_ids staged) = set sel"
    and "tid \<in> set sel \<Longrightarrow> \<exists>c. candidate plan tid = Some c \<and> cc_kind c \<noteq> Unchanged"
proof -
  let ?chk = "\<lambda>tid (_ :: unit). bindr (ok_or (''selected thread is not in the change plan: '' @ tid) (candidate plan tid))
     (\<lambda>c. ensure (\<not> cc_kind c = Unchanged) (''unchanged thread cannot be staged: '' @ tid))"
  have fold: "foldr_res ?chk xs () = Inr u \<Longrightarrow> tid \<in> set xs \<Longrightarrow>
      \<exists>c. candidate plan tid = Some c \<and> cc_kind c \<noteq> Unchanged" for xs u tid
    by (induction xs) (auto simp: bindr_eq_Inr_iff)
  from assms obtain u where u: "foldr_res ?chk (btree_set sel) () = Inr u"
    and s: "staged = \<lparr>sc_base_revision_id = cp_base_revision_id plan, selected_thread_ids = btree_set sel\<rparr>"
    by (auto simp: from_selected_def bindr_eq_Inr_iff Let_def)
  show "sc_base_revision_id staged = cp_base_revision_id plan" "set (selected_thread_ids staged) = set sel"
    by (simp_all add: s)
  show "\<exists>c. candidate plan tid = Some c \<and> cc_kind c \<noteq> Unchanged" if "tid \<in> set sel"
    using fold[OF u, of tid] that by simp
qed

section \<open>Properties\<close>

definition toy_work :: "thread_bundle list" where
  "toy_work = [toy_thread ''a'' ''2'', toy_thread ''c'' ''1'', toy_thread ''d'' ''1'']"

lemma toy_plan_ok: "is_ok (build_change_plan toy_vec (\<lambda>x. x) None toy_base toy_work)"
proof -
  have "is_ok (staging_thread_map toy_base ''baseline'')" "is_ok (staging_thread_map toy_work ''workspace'')"
    by (simp_all add: staging_map_is_ok toy_base_def toy_work_def toy_not_blank)
  then show ?thesis unfolding is_ok_iff by (auto simp: build_change_plan_def Let_def)
qed

text \<open>
  the change plan is the semantic difference. Every thread of the baseline or the workspace
  has one candidate, in identifier order, that carries both versions; it is Added or Deleted when
  one side lacks it, Unchanged exactly when the semantic hashes agree, and a candidate is only
  called an archive change when the threads agree once the archive flag is set aside.
\<close>
theorem plan_is_semantic_diff:
  assumes "build_change_plan to_vec H base baseline work = Inr plan"
  shows "sorted_wrt (<) (map cc_thread_id (candidates plan))
    \<and> (case candidate plan tid of
        None \<Rightarrow> find_thread baseline tid = None \<and> find_thread work tid = None
      | Some c \<Rightarrow> cc_baseline c = find_thread baseline tid \<and> cc_local c = find_thread work tid
          \<and> (cc_kind c = Added \<longleftrightarrow> find_thread baseline tid = None)
          \<and> (cc_kind c = Deleted \<longleftrightarrow> find_thread work tid = None)
          \<and> (cc_kind c = Unchanged \<longleftrightarrow> map_option (semantic_thread_hash to_vec H) (find_thread baseline tid)
                = map_option (semantic_thread_hash to_vec H) (find_thread work tid))
          \<and> (cc_kind c = ArchiveChanged \<longrightarrow>
                map_option (archive_independent_fingerprint to_vec H) (find_thread baseline tid)
                = map_option (archive_independent_fingerprint to_vec H) (find_thread work tid)))"
proof -
  let ?b = "find_thread baseline tid" and ?w = "find_thread work tid"
  have "cc_kind (plan_candidate to_vec H tid ?b ?w) = ArchiveChanged \<Longrightarrow>
      map_option (archive_independent_fingerprint to_vec H) ?b = map_option (archive_independent_fingerprint to_vec H) ?w"
    by (auto simp: plan_candidate_def Let_def split: option.splits if_splits)
  then show ?thesis
    using plan_Inr(1,2)[OF assms] plan_kind[of ?b ?w to_vec H tid]
    by (simp split: option.splits)
qed

theorem plan_is_semantic_diff_witness:
  "\<exists>plan. build_change_plan toy_vec (\<lambda>x. x) None toy_base toy_work = Inr plan
     \<and> sorted_wrt (<) (map cc_thread_id (candidates plan))"
proof -
  from toy_plan_ok obtain plan where p: "build_change_plan toy_vec (\<lambda>x. x) None toy_base toy_work = Inr plan"
    by (auto simp: is_ok_iff)
  from plan_is_semantic_diff[OF p] p show ?thesis by blast
qed

text \<open>
  C18: a partial push changes exactly what was selected. Composing a staged selection of the plan
  onto the remote tree gives, for every selected thread, the version of the workspace (absent if
  it was deleted there), and leaves every other remote thread as it is: an unselected local
  change is never pushed and never becomes a remote deletion.
\<close>
theorem compose_changes_selected_only:
  assumes "build_change_plan to_vec H base baseline work = Inr plan"
    and "compose_staged_thread_set remote plan staged = Inr out"
  shows "sorted_wrt (<) (map thread_id out)
    \<and> find_thread out tid = (if tid \<in> set (selected_thread_ids staged) then find_thread work tid
        else find_thread remote tid)"
  using compose_Inr[OF assms(2) built_plan_ok(1)[OF assms(1)]] by (simp add: built_plan_ok(2)[OF assms(1)])

definition toy_selection :: staged_change_set where
  "toy_selection = \<lparr>sc_base_revision_id = None, selected_thread_ids = [''a'']\<rparr>"

theorem compose_changes_selected_only_witness:
  "\<exists>plan out. build_change_plan toy_vec (\<lambda>x. x) None toy_base toy_work = Inr plan
     \<and> compose_staged_thread_set toy_base plan toy_selection = Inr out
     \<and> find_thread out ''a'' = Some (toy_thread ''a'' ''2'') \<and> find_thread out ''b'' = Some (toy_thread ''b'' ''1'')"
proof -
  from toy_plan_ok obtain plan where p: "build_change_plan toy_vec (\<lambda>x. x) None toy_base toy_work = Inr plan"
    by (auto simp: is_ok_iff)
  have "is_ok (foldr_res (compose_step plan) (selected_thread_ids toy_selection) m)" for m
    by (intro compose_fold_ok) (simp add: toy_selection_def plan_Inr(1)[OF p] plan_kind toy_base_def toy_work_def toy_hash_title)
  moreover have "is_ok (staging_thread_map toy_base ''remote'')"
    by (simp add: staging_map_is_ok toy_base_def toy_not_blank)
  moreover have "sc_base_revision_id toy_selection = cp_base_revision_id plan"
    by (simp add: toy_selection_def plan_Inr(3)[OF p])
  ultimately have "is_ok (compose_staged_thread_set toy_base plan toy_selection)"
    by (rule compose_ok)
  then obtain out where o: "compose_staged_thread_set toy_base plan toy_selection = Inr out"
    by (auto simp: is_ok_iff)
  from compose_changes_selected_only[OF p o, of "''a''"] compose_changes_selected_only[OF p o, of "''b''"] p o
  show ?thesis by (auto simp: toy_selection_def toy_base_def toy_work_def)
qed

lemma full_push:
  assumes "build_change_plan to_vec H base baseline work = Inr plan"
  shows "\<exists>staged out. from_selected plan (map cc_thread_id (changed plan)) = Inr staged
    \<and> compose_staged_thread_set baseline plan staged = Inr out
    \<and> (\<forall>tid. map_option (semantic_thread_hash to_vec H) (find_thread out tid)
         = map_option (semantic_thread_hash to_vec H) (find_thread work tid))"
proof -
  let ?sel = "map cc_thread_id (changed plan)"
  have sel: "tid \<in> set ?sel \<longleftrightarrow> (\<exists>c. candidate plan tid = Some c \<and> cc_kind c \<noteq> Unchanged)" for tid
  proof
    assume "tid \<in> set ?sel"
    then show "\<exists>c. candidate plan tid = Some c \<and> cc_kind c \<noteq> Unchanged"
      using plan_Inr(4)[OF assms] by (auto simp: changed_def)
  next
    assume "\<exists>c. candidate plan tid = Some c \<and> cc_kind c \<noteq> Unchanged"
    then show "tid \<in> set ?sel"
      by (force simp: changed_def candidate_def find_Some_iff)
  qed
  have "is_ok (foldr_res (\<lambda>tid (_ :: unit). bindr (ok_or (''selected thread is not in the change plan: '' @ tid)
      (candidate plan tid)) (\<lambda>c. ensure (\<not> cc_kind c = Unchanged) (''unchanged thread cannot be staged: '' @ tid))) xs ())"
    if "set xs \<subseteq> set ?sel" for xs
    using that
  proof (induction xs)
    case (Cons x xs)
    then have "x \<in> set ?sel" by simp
    with sel obtain c where "candidate plan x = Some c" "cc_kind c \<noteq> Unchanged" by blast
    with Cons show ?case by simp
  qed simp
  from this[of "btree_set ?sel"] obtain staged where staged: "from_selected plan ?sel = Inr staged"
    by (auto simp: from_selected_def is_ok_iff Let_def)
  note st = from_selected_Inr[OF staged]
  from assms obtain b where b: "staging_thread_map baseline ''baseline'' = Inr b"
    by (auto simp: build_change_plan_def bindr_eq_Inr_iff)
  have rem: "is_ok (staging_thread_map baseline ''remote'')"
    using staging_map_Inr(4,5)[OF b] by (simp add: staging_map_is_ok)
  have "is_ok (foldr_res (compose_step plan) (selected_thread_ids staged) m)" for m
  proof (rule compose_fold_ok)
    fix tid assume "tid \<in> set (selected_thread_ids staged)"
    with st(2) sel obtain c where c: "candidate plan tid = Some c" "cc_kind c \<noteq> Unchanged" by blast
    then have "cc_kind c \<noteq> Deleted \<longrightarrow> cc_local c \<noteq> None"
      using plan_Inr(1)[OF assms, of tid] plan_kind(3)[of "find_thread baseline tid" "find_thread work tid" to_vec H tid]
      by (auto split: if_splits)
    with c show "\<exists>c. candidate plan tid = Some c \<and> cc_kind c \<noteq> Unchanged \<and> (cc_kind c \<noteq> Deleted \<longrightarrow> cc_local c \<noteq> None)"
      by blast
  qed
  from compose_ok[OF this rem st(1)] obtain out where out: "compose_staged_thread_set baseline plan staged = Inr out"
    by (auto simp: is_ok_iff)
  have "map_option (semantic_thread_hash to_vec H) (find_thread out tid)
      = map_option (semantic_thread_hash to_vec H) (find_thread work tid)" for tid
  proof (cases "tid \<in> set ?sel")
    case True
    with st(2) show ?thesis
      by (simp add: compose_Inr(2)[OF out built_plan_ok(1)[OF assms]] built_plan_ok(2)[OF assms])
  next
    case False
    with sel[of tid] plan_Inr(1)[OF assms, of tid]
      plan_kind(1)[of "find_thread baseline tid" "find_thread work tid" to_vec H tid] st(2)
    show ?thesis
      by (auto simp: compose_Inr(2)[OF out built_plan_ok(1)[OF assms]] split: if_splits)
  qed
  with staged out show ?thesis by blast
qed

lemma full_push_runs:
  "\<exists>plan staged out. build_change_plan toy_vec (\<lambda>x. x) None toy_base toy_work = Inr plan
     \<and> compose_staged_thread_set toy_base plan staged = Inr out"
proof -
  from toy_plan_ok obtain plan where p: "build_change_plan toy_vec (\<lambda>x. x) None toy_base toy_work = Inr plan"
    by (auto simp: is_ok_iff)
  from full_push[OF p] p show ?thesis by blast
qed

text \<open>
  pushing everything publishes the workspace. Selecting every changed thread of the plan is
  accepted, composing that selection onto the baseline succeeds, and the tree it gives has, for
  every thread, the semantic hash of the workspace.
\<close>
theorem full_push_publishes_workspace:
  assumes "build_change_plan to_vec H base baseline work = Inr plan"
  shows "\<exists>staged out. from_selected plan (map cc_thread_id (changed plan)) = Inr staged
    \<and> compose_staged_thread_set baseline plan staged = Inr out
    \<and> (\<forall>tid. map_option (semantic_thread_hash to_vec H) (find_thread out tid)
         = map_option (semantic_thread_hash to_vec H) (find_thread work tid))"
  using full_push[OF assms] .

theorem full_push_publishes_workspace_witness:
  "\<exists>plan staged out. build_change_plan toy_vec (\<lambda>x. x) None toy_base toy_work = Inr plan
     \<and> from_selected plan (map cc_thread_id (changed plan)) = Inr staged
     \<and> compose_staged_thread_set toy_base plan staged = Inr out"
proof -
  from toy_plan_ok obtain plan where p: "build_change_plan toy_vec (\<lambda>x. x) None toy_base toy_work = Inr plan"
    by (auto simp: is_ok_iff)
  from full_push_publishes_workspace[OF p] p show ?thesis by blast
qed

end
