(* ===== verification/StagingRefs.thy ===== *)
theory StagingRefs
  imports StagingProps
begin

text \<open>
  \<open>compose_staged_thread_refs\<close> is \<open>compose_staged_thread_set\<close> on references: composing the
  references of a tree gives the references of the composed tree.
\<close>

definition bt_map :: "('v \<Rightarrow> 'w) \<Rightarrow> ('k, 'v) btree_map \<Rightarrow> ('k, 'w) btree_map" where
  "bt_map g m = map (\<lambda>e. (fst e, g (snd e))) m"

lemma bt_map_insert: "bt_insert k (g v) (bt_map g m) = bt_map g (bt_insert k v m)"
  by (induction m) (auto simp: bt_map_def)

lemma bt_map_remove: "bt_remove k (bt_map g m) = bt_map g (bt_remove k m)"
  by (induction m) (auto simp: bt_map_def bt_remove_def)

lemma bt_map_get: "bt_get (bt_map g m) k = map_option g (bt_get m k)"
  by (induction m) (auto simp: bt_map_def bt_get_def)

lemma bt_map_ok: "bt_ok m \<Longrightarrow> bt_ok (bt_map g m)"
  by (simp add: bt_ok_def bt_map_def comp_def)

lemma bt_map_values: "bt_values (bt_map g m) = map g (bt_values m)"
  by (simp add: bt_map_def bt_values_def)

definition thread_ref :: "(thread_bundle \<Rightarrow> string) \<Rightarrow> thread_bundle \<Rightarrow> thread_ref_v4" where
  "thread_ref f t = \<lparr>tref_thread_id = thread_id t, tref_descriptor_sha256 = f t\<rparr>"

lemma thread_ref_id [simp]: "tref_thread_id (thread_ref f t) = thread_id t"
  by (simp add: thread_ref_def)

lemma map_of_threads:
  assumes "\<And>t. t \<in> set ts \<Longrightarrow> v (thread_id t) = Some t"
  shows "map_of (rev (map (\<lambda>t. (thread_id t, g t)) ts)) k = (if k \<in> thread_id ` set ts then map_option g (v k) else None)"
  using assms by (induction ts) (auto simp: map_add_def split: option.splits)

lemma ref_index:
  assumes "staging_thread_map remote label = Inr m"
  shows "bt.index_from (\<lambda>_. Inr ()) tref_thread_id (\<lambda>r. r) dup (map (thread_ref f) remote) []
    = Inr (bt_map (thread_ref f) m)"
proof -
  note m = staging_map_Inr[OF assms]
  have "is_ok (bt.index_from (\<lambda>_. Inr ()) tref_thread_id (\<lambda>r. r) dup (map (thread_ref f) remote) [])"
    using m(4) by (subst bt.index_from_is_ok_iff) (simp_all add: comp_def)
  then obtain m2 where m2: "bt.index_from (\<lambda>_. Inr ()) tref_thread_id (\<lambda>r. r) dup (map (thread_ref f) remote) [] = Inr m2"
    unfolding is_ok_iff by blast
  have mo: "map_of (map (\<lambda>x. (tref_thread_id x, x)) (map (thread_ref f) remote)) k
      = map_option (thread_ref f) (find_thread remote k)" for k
    by (induction remote) auto
  have "bt_ok m2" using bt.index_from_ok[OF _ m2] by simp
  moreover have "bt_ok (bt_map (thread_ref f) m)" using m(1) by (simp add: keyed_by_id_def bt_map_ok)
  moreover have "bt_get m2 k = bt_get (bt_map (thread_ref f) m) k" for k
    using bt.index_from_get[OF _ m2, of k] m(2)[of k] mo[of k] by (simp add: bt_map_get split: option.splits)
  ultimately have "m2 = bt_map (thread_ref f) m" by (rule bt_ext)
  with m2 show ?thesis by simp
qed

lemma set_map_filter: "set (List.map_filter g xs) = {y. \<exists>x \<in> set xs. g x = Some y}"
  by (induction xs) (auto simp: map_filter_simps split: option.splits)

lemma compose_ref_fold:
  assumes refs: "\<And>tid. tid \<in> set sel \<Longrightarrow> bt_get refs tid = map_option g (staged_version plan tid)"
  shows "foldr_res (compose_step plan) sel m = Inr m' \<Longrightarrow>
    foldr_res (compose_ref_step plan refs) sel (bt_map g m) = Inr (bt_map g m')"
  using refs
proof (induction sel arbitrary: m)
  case (Cons tid sel)
  from Cons.prems(1) obtain m1 where m1: "compose_step plan tid m = Inr m1"
    "foldr_res (compose_step plan) sel m1 = Inr m'" by (auto simp: bindr_eq_Inr_iff)
  from m1(1) obtain c where c: "candidate plan tid = Some c"
    by (auto simp: compose_step_def bindr_eq_Inr_iff)
  have r: "bt_get refs tid = map_option g (staged_version plan tid)" using Cons.prems(2) by simp
  have "compose_ref_step plan refs tid (bt_map g m) = Inr (bt_map g m1)"
    using m1(1) c r
    by (cases "cc_kind c") (auto simp: compose_step_def compose_ref_step_def staged_version_def bindr_eq_Inr_iff
        bt_contains_def bt_map_insert bt_map_remove)
  with Cons.IH[OF m1(2)] Cons.prems(2) show ?case by simp
qed simp

text \<open>
  C24: composing references agrees with composing threads. If the staged selection composes onto
  the remote threads, then composing it onto their references, with the references of the
  selected local threads, succeeds and gives the references of the composed threads, whatever
  descriptor hash each thread has.
\<close>
theorem refs_compose_like_threads:
  assumes "build_change_plan to_vec H base baseline work = Inr plan"
    and "compose_staged_thread_set remote plan staged = Inr out"
    and "chosen = List.map_filter (staged_version plan) (selected_thread_ids staged)"
  shows "compose_staged_thread_refs (map (thread_ref f) remote) plan staged (map (thread_ref f) chosen)
    = Inr (map (thread_ref f) out)"
proof -
  note plan = built_plan_ok[OF assms(1)]
  have ids: "thread_id t = tid" if "staged_version plan tid = Some t" for tid t
    using that by (auto simp: plan(2) dest: find_thread_Some)
  have chosen: "set chosen = {t. \<exists>tid \<in> set (selected_thread_ids staged). staged_version plan tid = Some t}"
    unfolding assms(3) by (rule set_map_filter)
  let ?refs = "bt_of_list (map (\<lambda>r. (tref_thread_id r, r)) (map (thread_ref f) chosen))"
  have refs: "bt_get ?refs tid = map_option (thread_ref f) (staged_version plan tid)"
    if tid: "tid \<in> set (selected_thread_ids staged)" for tid
  proof -
    have v: "staged_version plan (thread_id t) = Some t" if "t \<in> set chosen" for t
      using that ids unfolding chosen by blast
    have "bt_get ?refs tid = (if tid \<in> thread_id ` set chosen then map_option (thread_ref f) (staged_version plan tid) else None)"
      using map_of_threads[of chosen "staged_version plan" "thread_ref f" tid] v
      by (simp add: bt_of_list_get comp_def)
    moreover have "staged_version plan tid = None" if "tid \<notin> thread_id ` set chosen"
      using that tid ids unfolding chosen by (cases "staged_version plan tid") force+
    ultimately show ?thesis by auto
  qed
  from assms(2) obtain m m' where m: "sc_base_revision_id staged = cp_base_revision_id plan"
    "staging_thread_map remote ''remote'' = Inr m"
    "foldr_res (compose_step plan) (selected_thread_ids staged) m = Inr m'" "out = bt_values m'"
    by (auto simp: compose_staged_thread_set_def bindr_eq_Inr_iff)
  from compose_ref_fold[OF refs m(3)] have
    "foldr_res (compose_ref_step plan ?refs) (selected_thread_ids staged) (bt_map (thread_ref f) m)
      = Inr (bt_map (thread_ref f) m')" .
  then show ?thesis
    unfolding compose_staged_thread_refs_def ref_index[OF m(2)] Let_def
    by (simp add: m(1,4) bt_map_values)
qed

theorem refs_compose_like_threads_witness:
  "\<exists>plan staged out. build_change_plan toy_vec (\<lambda>x. x) None toy_base toy_work = Inr plan
     \<and> compose_staged_thread_set toy_base plan staged = Inr out
     \<and> compose_staged_thread_refs (map (thread_ref tb_title) toy_base) plan staged
         (map (thread_ref tb_title) (List.map_filter (staged_version plan) (selected_thread_ids staged)))
       = Inr (map (thread_ref tb_title) out)"
proof -
  from full_push_runs obtain plan staged out where
    p: "build_change_plan toy_vec (\<lambda>x. x) None toy_base toy_work = Inr plan"
    and o: "compose_staged_thread_set toy_base plan staged = Inr out" by blast
  from refs_compose_like_threads[OF p o refl, of tb_title] p o show ?thesis by blast
qed

end
