(* ===== verification/Descriptors.thy ===== *)
theory Descriptors
  imports Bundles ContentLive
begin

text \<open>
  The semantic graph of storage\_v4.rs: thread descriptors and their conversion from and to
  bundles, snapshot overlays, snapshot and revision roots, and how they are stored and loaded. The
  derived parsers are the parameter record \<open>parsers\<close>.
\<close>

record semantic_workspace_v4 =
  sw_logical_id :: "string option"
  sw_canonical_hint :: "string option"

record semantic_thread_descriptor_v4 =
  sd_schema_version :: u32
  sd_normalization_schema_version :: u32
  sd_thread_id :: string
  sd_title :: string
  sd_archived :: bool
  sd_created_at_ms :: "i64 option"
  sd_updated_at_ms :: "i64 option"
  sd_workspace :: semantic_workspace_v4
  sd_rollout :: content_ref_v4
  sd_related_records :: "(string, json list) btree_map"
  sd_attachments :: "content_ref_v4 list"

record local_thread_overlay_v4 =
  lo_observed_provider :: "string option"
  lo_workspace_path :: "string option"
  lo_rollout_path :: "string option"
  lo_database_hints :: "string list"
  lo_local_fields :: "(string, json) btree_map"

record snapshot_overlay_v4 =
  so_schema_version :: u32
  so_normalization_schema_version :: u32
  so_threads :: "(string, local_thread_overlay_v4) btree_map"

record snapshot_root_v4 =
  sr_schema_version :: u32
  sr_normalization_schema_version :: u32
  sr_snapshot_id :: string
  sr_created_at :: string
  sr_threads :: "thread_ref_v4 list"
  sr_overlay_sha256 :: string
  sr_warning_count :: u64

record revision_root_v4 =
  rv_schema_version :: u32
  rv_normalization_schema_version :: u32
  rv_namespace_id :: uuid
  rv_parent_revision :: "string option"
  rv_created_at :: string
  rv_threads :: "thread_ref_v4 list"
  rv_warning_count :: u64

record local_snapshot =
  ls_schema_version :: u32
  ls_snapshot_id :: string
  ls_created_at :: string
  ls_threads :: "thread_bundle list"
  ls_warning_count :: u64

record parsers =
  parse_manifest :: manifest_parser
  parse_descriptor :: "bytes \<Rightarrow> semantic_thread_descriptor_v4 option"
  parse_overlay :: "bytes \<Rightarrow> snapshot_overlay_v4 option"
  parse_snapshot_root :: "bytes \<Rightarrow> snapshot_root_v4 option"
  parse_revision_root :: "bytes \<Rightarrow> revision_root_v4 option"

definition LOCAL_SNAPSHOT_SCHEMA_VERSION :: u32 where "LOCAL_SNAPSHOT_SCHEMA_VERSION = 1"

section \<open>Conversions\<close>

definition content_ref_from_object_v4 :: "content_object \<Rightarrow> string + content_ref_v4" where
  "content_ref_from_object_v4 obj =
     bindr (ok_or ''v4 content object has no physical storage reference'' (co_storage obj)) (\<lambda>s.
       Inr \<lparr>logical_sha256 = co_sha256 obj, content_byte_length = co_byte_length obj, storage = s,
            media_type = co_media_type obj, logical_path = co_logical_path obj\<rparr>)"

definition content_object_from_ref_v4 :: "content_ref_v4 \<Rightarrow> content_object" where
  "content_object_from_ref_v4 content =
     \<lparr>co_sha256 = logical_sha256 content, co_byte_length = content_byte_length content,
      co_media_type = media_type content, co_logical_path = logical_path content,
      co_source_path = None, co_storage = Some (storage content)\<rparr>"

definition project_related_records_v4 :: "related_records \<Rightarrow> (string, json list) btree_map" where
  "project_related_records_v4 records =
     map (\<lambda>(table, rows). (table, map project_value_v4 rows))
       (filter (\<lambda>(table, rows). table \<noteq> ''thread_timeline_ledger'') (rr_tables records))"

definition descriptor_from_bundle :: "thread_bundle \<Rightarrow> content_ref_v4 \<Rightarrow> string + semantic_thread_descriptor_v4" where
  "descriptor_from_bundle bundle content =
     bindr (ensure (\<not> (logical_sha256 content \<noteq> co_sha256 (rollout bundle)
                   \<or> content_byte_length content \<noteq> co_byte_length (rollout bundle)))
              ''v4 rollout reference does not match thread bundle'') (\<lambda>_.
     bindr (map_res content_ref_from_object_v4 (attachments bundle)) (\<lambda>refs.
       Inr \<lparr>sd_schema_version = 4, sd_normalization_schema_version = NORMALIZATION_SCHEMA_VERSION_V4,
            sd_thread_id = thread_id bundle, sd_title = tb_title bundle, sd_archived = archived bundle,
            sd_created_at_ms = created_at_ms bundle, sd_updated_at_ms = updated_at_ms bundle,
            sd_workspace = \<lparr>sw_logical_id = ws_logical_id (workspace bundle),
                            sw_canonical_hint = ws_logical_id (workspace bundle)\<rparr>,
            sd_rollout = content, sd_related_records = project_related_records_v4 (related bundle),
            sd_attachments = refs\<rparr>))"

definition validate_descriptor :: "semantic_thread_descriptor_v4 \<Rightarrow> string + unit" where
  "validate_descriptor d =
     bindr (ensure (\<not> (sd_schema_version d \<noteq> 4
                   \<or> sd_normalization_schema_version d \<noteq> NORMALIZATION_SCHEMA_VERSION_V4))
              ''unsupported v4 semantic descriptor schema'') (\<lambda>_.
     bindr (ensure (\<not> blank (sd_thread_id d)) ''v4 semantic descriptor has an empty thread ID'') (\<lambda>_.
     bindr (ensure (\<not> blank (media_type (sd_rollout d)))
              ''v4 semantic descriptor has an empty rollout media type'') (\<lambda>_.
     bindr (validate_content_ref_v4 (sd_rollout d)) (\<lambda>_.
     bindr (foldr_res (\<lambda>c (_ :: unit). validate_content_ref_v4 c) (sd_attachments d) ()) (\<lambda>_.
       ensure (\<not> bt_contains (sd_related_records d) ''thread_timeline_ledger'')
         ''thread_timeline_ledger is not part of the v4 semantic model'')))))"

definition descriptor_into_bundle ::
  "semantic_thread_descriptor_v4 \<Rightarrow> local_thread_overlay_v4 option \<Rightarrow> thread_bundle" where
  "descriptor_into_bundle d overlay =
     (let provider = Option.bind overlay lo_observed_provider;
          source_path = (case Option.bind overlay lo_workspace_path of
              Some p \<Rightarrow> Some p | None \<Rightarrow> sw_canonical_hint (sd_workspace d))
      in \<lparr>tb_schema_version = LOCAL_SNAPSHOT_SCHEMA_VERSION, thread_id = sd_thread_id d, tb_title = sd_title d,
          archived = sd_archived d, created_at_ms = sd_created_at_ms d, updated_at_ms = sd_updated_at_ms d,
          model_provider = provider,
          workspace = \<lparr>ws_logical_id = sw_logical_id (sd_workspace d), ws_source_path = source_path\<rparr>,
          rollout = content_object_from_ref_v4 (sd_rollout d),
          related = \<lparr>rr_source_database = Option.bind overlay (\<lambda>ov. case lo_database_hints ov of [] \<Rightarrow> None | h # _ \<Rightarrow> Some h),
            rr_tables = sd_related_records d\<rparr>,
          attachments = map content_object_from_ref_v4 (sd_attachments d)\<rparr>)"

section \<open>Serialized forms\<close>

definition content_ref_json :: "content_ref_v4 \<Rightarrow> json" where
  "content_ref_json c = JObject (bt_of_list
     [(''logicalSha256'', JString (logical_sha256 c)),
      (''byteLength'', json_u64 (content_byte_length c)),
      (''storage'', storage_ref_json (storage c)),
      (''mediaType'', JString (media_type c)),
      (''logicalPath'', json_option JString (logical_path c))])"

definition rows_json :: "(string, json list) btree_map \<Rightarrow> json" where
  "rows_json tables = JObject (map (\<lambda>(table, rows). (table, JArray rows)) tables)"

definition descriptor_json :: "semantic_thread_descriptor_v4 \<Rightarrow> json" where
  "descriptor_json d = JObject (bt_of_list
     [(''schemaVersion'', json_u64 (ucast (sd_schema_version d))),
      (''normalizationSchemaVersion'', json_u64 (ucast (sd_normalization_schema_version d))),
      (''threadId'', JString (sd_thread_id d)),
      (''title'', JString (sd_title d)),
      (''archived'', JBool (sd_archived d)),
      (''createdAtMs'', json_option json_i64 (sd_created_at_ms d)),
      (''updatedAtMs'', json_option json_i64 (sd_updated_at_ms d)),
      (''semanticWorkspace'', JObject
         [(''canonicalHint'', json_option JString (sw_canonical_hint (sd_workspace d))),
          (''logicalId'', json_option JString (sw_logical_id (sd_workspace d)))]),
      (''rollout'', content_ref_json (sd_rollout d)),
      (''relatedRecords'', rows_json (sd_related_records d)),
      (''attachments'', JArray (map content_ref_json (sd_attachments d)))])"

definition overlay_thread_json :: "local_thread_overlay_v4 \<Rightarrow> json" where
  "overlay_thread_json x = JObject (bt_of_list
     [(''observedProvider'', json_option JString (lo_observed_provider x)),
      (''localWorkspacePath'', json_option JString (lo_workspace_path x)),
      (''localRolloutPath'', json_option JString (lo_rollout_path x)),
      (''sourceDatabaseHints'', JArray (map JString (lo_database_hints x))),
      (''localFields'', JObject (lo_local_fields x))])"

definition overlay_json :: "snapshot_overlay_v4 \<Rightarrow> json" where
  "overlay_json x = JObject (bt_of_list
     [(''schemaVersion'', json_u64 (ucast (so_schema_version x))),
      (''normalizationSchemaVersion'', json_u64 (ucast (so_normalization_schema_version x))),
      (''threads'', JObject (map (\<lambda>(k, t). (k, overlay_thread_json t)) (so_threads x)))])"

definition thread_ref_json :: "thread_ref_v4 \<Rightarrow> json" where
  "thread_ref_json r = JObject
     [(''descriptorSha256'', JString (tref_descriptor_sha256 r)), (''threadId'', JString (tref_thread_id r))]"

definition snapshot_root_json :: "snapshot_root_v4 \<Rightarrow> json" where
  "snapshot_root_json r = JObject (bt_of_list
     [(''schemaVersion'', json_u64 (ucast (sr_schema_version r))),
      (''normalizationSchemaVersion'', json_u64 (ucast (sr_normalization_schema_version r))),
      (''snapshotId'', JString (sr_snapshot_id r)),
      (''createdAt'', JString (sr_created_at r)),
      (''threads'', JArray (map thread_ref_json (sr_threads r))),
      (''overlaySha256'', JString (sr_overlay_sha256 r)),
      (''warningCount'', json_u64 (sr_warning_count r))])"

definition revision_root_json :: "(uuid \<Rightarrow> string) \<Rightarrow> revision_root_v4 \<Rightarrow> json" where
  "revision_root_json uuid_str r = JObject (bt_of_list
     [(''schemaVersion'', json_u64 (ucast (rv_schema_version r))),
      (''normalizationSchemaVersion'', json_u64 (ucast (rv_normalization_schema_version r))),
      (''namespaceId'', JString (uuid_str (rv_namespace_id r))),
      (''parentRevision'', json_option JString (rv_parent_revision r)),
      (''createdAt'', JString (rv_created_at r)),
      (''threads'', JArray (map thread_ref_json (rv_threads r))),
      (''warningCount'', json_u64 (rv_warning_count r))])"

end
