(* ===== verification/Snapshots.thy ===== *)
theory Snapshots
  imports Descriptors
begin

text \<open>
  The operations of storage\_v4.rs on the semantic graph: storing and loading descriptors,
  overlays and roots, building and loading a snapshot, deriving a revision root, and collecting
  the objects a revision or a set of threads needs.
\<close>

section \<open>Roots\<close>

definition validate_thread_refs_v4 :: "thread_ref_v4 list \<Rightarrow> string + unit" where
  "validate_thread_refs_v4 threads =
     bindr (bt.index_from
       (\<lambda>t. bindr (ensure (\<not> blank (tref_thread_id t)) ''thread ID must not be empty'') (\<lambda>_.
          validate_sha256_v4 (tref_descriptor_sha256 t)))
       tref_thread_id (\<lambda>_. ()) (\<lambda>t. ''duplicate thread ID '' @ tref_thread_id t) threads []) (\<lambda>_. Inr ())"

definition validate_snapshot_root :: "snapshot_root_v4 \<Rightarrow> string + unit" where
  "validate_snapshot_root r =
     bindr (ensure (\<not> (sr_schema_version r \<noteq> 4
                   \<or> sr_normalization_schema_version r \<noteq> NORMALIZATION_SCHEMA_VERSION_V4))
              ''unsupported v4 snapshot root schema'') (\<lambda>_.
       validate_thread_refs_v4 (sr_threads r))"

text \<open>The version number of a UUID is its bits 76 to 79.\<close>

definition uuid_version :: "uuid \<Rightarrow> nat" where
  "uuid_version u = unat (drop_bit 76 u) mod 16"

definition validate_revision_root :: "revision_root_v4 \<Rightarrow> string + unit" where
  "validate_revision_root r =
     bindr (ensure (\<not> (rv_schema_version r \<noteq> 4
                   \<or> rv_normalization_schema_version r \<noteq> NORMALIZATION_SCHEMA_VERSION_V4))
              ''unsupported v4 revision root schema'') (\<lambda>_.
     bindr (ensure (\<not> uuid_version (rv_namespace_id r) \<noteq> 7) ''namespace ID must be UUIDv7'') (\<lambda>_.
     bindr (case rv_parent_revision r of None \<Rightarrow> Inr () | Some p \<Rightarrow> validate_sha256_v4 p) (\<lambda>_.
       validate_thread_refs_v4 (rv_threads r))))"

definition revision_id ::
  "json_lib \<Rightarrow> (bytes \<Rightarrow> string) \<Rightarrow> (uuid \<Rightarrow> string) \<Rightarrow> revision_root_v4 \<Rightarrow> string + string" where
  "revision_id J H uuid_str r =
     bindr (validate_revision_root r) (\<lambda>_.
       Inr (digest_bytes_v4 H (write_canonical_json_v4 J (revision_root_json uuid_str r))))"

definition snapshot_root_id :: "json_lib \<Rightarrow> (bytes \<Rightarrow> string) \<Rightarrow> snapshot_root_v4 \<Rightarrow> string + string" where
  "snapshot_root_id J H r =
     bindr (validate_snapshot_root r) (\<lambda>_.
       Inr (digest_bytes_v4 H (write_canonical_json_v4 J (snapshot_root_json r))))"

section \<open>Descriptors and overlays\<close>

definition store_descriptor ::
  "json_lib \<Rightarrow> (bytes \<Rightarrow> string) \<Rightarrow> os \<Rightarrow> content_store_v4 \<Rightarrow> thread_bundle \<Rightarrow> content_ref_v4 \<Rightarrow> world \<Rightarrow>
     string + (thread_ref_v4 \<times> world)" where
  "store_descriptor J H os st bundle content w =
     bindr (descriptor_from_bundle bundle content) (\<lambda>descriptor.
     bindr (validate_descriptor descriptor) (\<lambda>_.
     bindr (store_json J H os st Thread (descriptor_json descriptor) w) (\<lambda>(obj, w).
       Inr (\<lparr>tref_thread_id = thread_id bundle, tref_descriptor_sha256 = ref_sha256 obj\<rparr>, w))))"

definition load_descriptor ::
  "parsers \<Rightarrow> (bytes \<Rightarrow> string) \<Rightarrow> content_store_v4 \<Rightarrow> thread_ref_v4 \<Rightarrow> world \<Rightarrow>
     string + semantic_thread_descriptor_v4" where
  "load_descriptor P H st reference w =
     bindr (validate_sha256_v4 (tref_descriptor_sha256 reference)) (\<lambda>_.
     bindr (read_json (parse_descriptor P) H st Thread (tref_descriptor_sha256 reference) w) (\<lambda>descriptor.
     bindr (validate_descriptor descriptor) (\<lambda>_.
     bindr (ensure (\<not> sd_thread_id descriptor \<noteq> tref_thread_id reference)
              ''v4 thread reference ID does not match descriptor'') (\<lambda>_.
       Inr descriptor))))"

definition validate_overlay :: "snapshot_overlay_v4 \<Rightarrow> string + unit" where
  "validate_overlay x =
     ensure (\<not> (so_schema_version x \<noteq> 4 \<or> so_normalization_schema_version x \<noteq> NORMALIZATION_SCHEMA_VERSION_V4))
       ''unsupported v4 snapshot overlay schema''"

definition store_overlay ::
  "json_lib \<Rightarrow> (bytes \<Rightarrow> string) \<Rightarrow> os \<Rightarrow> content_store_v4 \<Rightarrow> snapshot_overlay_v4 \<Rightarrow> world \<Rightarrow>
     string + (storage_object_ref_v4 \<times> world)" where
  "store_overlay J H os st x w =
     bindr (validate_overlay x) (\<lambda>_. store_json J H os st SnapshotOverlay (overlay_json x) w)"

definition load_overlay ::
  "parsers \<Rightarrow> (bytes \<Rightarrow> string) \<Rightarrow> content_store_v4 \<Rightarrow> string \<Rightarrow> world \<Rightarrow> string + snapshot_overlay_v4" where
  "load_overlay P H st sha256 w =
     bindr (read_json (parse_overlay P) H st SnapshotOverlay sha256 w) (\<lambda>x.
     bindr (validate_overlay x) (\<lambda>_. Inr x))"

definition store_revision_root ::
  "json_lib \<Rightarrow> (bytes \<Rightarrow> string) \<Rightarrow> (uuid \<Rightarrow> string) \<Rightarrow> os \<Rightarrow> content_store_v4 \<Rightarrow> revision_root_v4 \<Rightarrow> world \<Rightarrow>
     string + (storage_object_ref_v4 \<times> world)" where
  "store_revision_root J H uuid_str os st r w =
     bindr (validate_revision_root r) (\<lambda>_. store_json J H os st RevisionRoot (revision_root_json uuid_str r) w)"

section \<open>Snapshots\<close>

text \<open>The atomic write of a root: a temporary file beside it, then a rename.\<close>

definition write_v4_root :: "json_lib \<Rightarrow> path \<Rightarrow> json \<Rightarrow> world \<Rightarrow> world" where
  "write_v4_root J path value w = w\<lparr>files := (files w)(path \<mapsto> write_canonical_json_v4 J value)\<rparr>"

definition read_bounded_v4 :: "(bytes \<Rightarrow> 'a option) \<Rightarrow> path \<Rightarrow> u64 \<Rightarrow> world \<Rightarrow> string + 'a" where
  "read_bounded_v4 decode path max_bytes_read w =
     bindr (read_file w path) (\<lambda>bs.
     bindr (ensure (\<not> length bs > unat max_bytes_read) ''object exceeds size limit'') (\<lambda>_.
       ok_or ''invalid JSON'' (decode bs)))"

definition thread_overlay :: "thread_bundle \<Rightarrow> local_thread_overlay_v4" where
  "thread_overlay t =
     \<lparr>lo_observed_provider = model_provider t, lo_workspace_path = ws_source_path (workspace t),
      lo_rollout_path = co_logical_path (rollout t),
      lo_database_hints = (case rr_source_database (related t) of None \<Rightarrow> [] | Some p \<Rightarrow> [p]),
      lo_local_fields = []\<rparr>"

definition snapshot_thread_step ::
  "json_lib \<Rightarrow> (bytes \<Rightarrow> string) \<Rightarrow> os \<Rightarrow> content_store_v4 \<Rightarrow> (string, content_ref_v4) btree_map \<Rightarrow> thread_bundle \<Rightarrow>
     (thread_ref_v4 list \<times> (string, local_thread_overlay_v4) btree_map \<times> world) \<Rightarrow>
     string + (thread_ref_v4 list \<times> (string, local_thread_overlay_v4) btree_map \<times> world)" where
  "snapshot_thread_step J H os st contents t acc =
     (case acc of (references, overlays, w) \<Rightarrow>
       bindr (ok_or (''missing v4 content for thread '' @ thread_id t) (bt_get contents (thread_id t))) (\<lambda>content.
       bindr (store_descriptor J H os st t content w) (\<lambda>(reference, w).
         Inr (references @ [reference], bt_insert (thread_id t) (thread_overlay t) overlays, w))))"

definition build_v4_snapshot_root ::
  "json_lib \<Rightarrow> (bytes \<Rightarrow> string) \<Rightarrow> os \<Rightarrow> content_store_v4 \<Rightarrow> local_snapshot \<Rightarrow> (string, content_ref_v4) btree_map \<Rightarrow>
     world \<Rightarrow> string + (snapshot_root_v4 \<times> world)" where
  "build_v4_snapshot_root J H os st snapshot contents w =
     bindr (foldr_res (snapshot_thread_step J H os st contents) (ls_threads snapshot) ([], [], w))
       (\<lambda>(references, overlays, w).
     let references = sort_key tref_thread_id references;
         overlay = \<lparr>so_schema_version = 4, so_normalization_schema_version = NORMALIZATION_SCHEMA_VERSION_V4,
           so_threads = overlays\<rparr> in
     bindr (store_overlay J H os st overlay w) (\<lambda>(overlay_object, w).
     let root = \<lparr>sr_schema_version = 4, sr_normalization_schema_version = NORMALIZATION_SCHEMA_VERSION_V4,
           sr_snapshot_id = ls_snapshot_id snapshot, sr_created_at = ls_created_at snapshot,
           sr_threads = references, sr_overlay_sha256 = ref_sha256 overlay_object,
           sr_warning_count = ls_warning_count snapshot\<rparr> in
     bindr (validate_snapshot_root root) (\<lambda>_. Inr (root, w))))"

definition write_v4_snapshot ::
  "json_lib \<Rightarrow> (bytes \<Rightarrow> string) \<Rightarrow> os \<Rightarrow> content_store_v4 \<Rightarrow> local_snapshot \<Rightarrow> (string, content_ref_v4) btree_map \<Rightarrow>
     world \<Rightarrow> string + (path \<times> world)" where
  "write_v4_snapshot J H os st snapshot contents w =
     bindr (build_v4_snapshot_root J H os st snapshot contents w) (\<lambda>(root, w).
     let path = store_root st @ [''snapshots'', ls_snapshot_id snapshot @ ''.json'']
     in Inr (path, write_v4_root J path (snapshot_root_json root) w))"

definition load_thread_step ::
  "parsers \<Rightarrow> (bytes \<Rightarrow> string) \<Rightarrow> content_store_v4 \<Rightarrow> world \<Rightarrow> snapshot_overlay_v4 \<Rightarrow> thread_ref_v4 \<Rightarrow>
     (thread_bundle list \<times> (string, content_ref_v4) btree_map) \<Rightarrow>
     string + (thread_bundle list \<times> (string, content_ref_v4) btree_map)" where
  "load_thread_step P H st w overlay reference acc =
     bindr (load_descriptor P H st reference w) (\<lambda>descriptor.
     let previous = bt_get (snd acc) (tref_thread_id reference);
         contents = bt_insert (tref_thread_id reference) (sd_rollout descriptor) (snd acc) in
     bindr (ensure (\<not> (case previous of None \<Rightarrow> False
                    | Some p \<Rightarrow> logical_sha256 p \<noteq> logical_sha256 (sd_rollout descriptor)))
              ''v4 snapshot contains conflicting content references'') (\<lambda>_.
       Inr (fst acc @ [descriptor_into_bundle descriptor (bt_get (so_threads overlay) (tref_thread_id reference))],
            contents)))"

definition MANIFEST_LIMIT :: u64 where "MANIFEST_LIMIT = 16777216"

definition load_v4_snapshot ::
  "parsers \<Rightarrow> (bytes \<Rightarrow> string) \<Rightarrow> content_store_v4 \<Rightarrow> path \<Rightarrow> world \<Rightarrow>
     string + (local_snapshot \<times> (string, content_ref_v4) btree_map)" where
  "load_v4_snapshot P H st root_path w =
     bindr (read_bounded_v4 (parse_snapshot_root P) root_path MANIFEST_LIMIT w) (\<lambda>root.
     bindr (validate_snapshot_root root) (\<lambda>_.
     bindr (load_overlay P H st (sr_overlay_sha256 root) w) (\<lambda>overlay.
     bindr (foldr_res (load_thread_step P H st w overlay) (sr_threads root) ([], [])) (\<lambda>(threads, contents).
       Inr (\<lparr>ls_schema_version = LOCAL_SNAPSHOT_SCHEMA_VERSION, ls_snapshot_id = sr_snapshot_id root,
             ls_created_at = sr_created_at root, ls_threads = threads,
             ls_warning_count = sr_warning_count root\<rparr>, contents)))))"

definition revision_thread_step ::
  "json_lib \<Rightarrow> (bytes \<Rightarrow> string) \<Rightarrow> os \<Rightarrow> content_store_v4 \<Rightarrow> (string, content_ref_v4) btree_map \<Rightarrow> thread_bundle \<Rightarrow>
     (thread_ref_v4 list \<times> world) \<Rightarrow> string + (thread_ref_v4 list \<times> world)" where
  "revision_thread_step J H os st contents t acc =
     bindr (ok_or (''missing v4 content for thread '' @ thread_id t) (bt_get contents (thread_id t))) (\<lambda>content.
     bindr (descriptor_from_bundle t content) (\<lambda>descriptor.
     bindr (validate_descriptor descriptor) (\<lambda>_.
     bindr (store_json J H os st Thread (descriptor_json descriptor) (snd acc)) (\<lambda>(obj, w).
       Inr (fst acc @ [\<lparr>tref_thread_id = thread_id t, tref_descriptor_sha256 = ref_sha256 obj\<rparr>], w)))))"

definition snapshot_to_revision_root_v4 ::
  "json_lib \<Rightarrow> (bytes \<Rightarrow> string) \<Rightarrow> (uuid \<Rightarrow> string) \<Rightarrow> os \<Rightarrow> content_store_v4 \<Rightarrow> local_snapshot \<Rightarrow> uuid \<Rightarrow>
     string option \<Rightarrow> (string, content_ref_v4) btree_map \<Rightarrow> world \<Rightarrow>
     string + ((revision_root_v4 \<times> storage_object_ref_v4) \<times> world)" where
  "snapshot_to_revision_root_v4 J H uuid_str os st snapshot namespace_id parent_revision contents w =
     bindr (foldr_res (revision_thread_step J H os st contents) (ls_threads snapshot) ([], w)) (\<lambda>(threads, w).
     let root = \<lparr>rv_schema_version = 4, rv_normalization_schema_version = NORMALIZATION_SCHEMA_VERSION_V4,
           rv_namespace_id = namespace_id, rv_parent_revision = parent_revision,
           rv_created_at = ls_created_at snapshot, rv_threads = sort_key tref_thread_id threads,
           rv_warning_count = ls_warning_count snapshot\<rparr> in
     bindr (store_revision_root J H uuid_str os st root w) (\<lambda>(obj, w).
       Inr ((root, obj), w)))"

section \<open>Object graphs\<close>

definition GRAPH_LIMIT :: nat where "GRAPH_LIMIT = 500000"

definition file_length :: "world \<Rightarrow> path \<Rightarrow> string + u64" where
  "file_length w path = bindr (read_file w path) (\<lambda>bs. Inr (of_nat (length bs)))"

text \<open>The loop counts every reference it follows; the set of objects is kept in order at the end.\<close>

definition graph_objects_step ::
  "storage_object_ref_v4 \<Rightarrow> (nat \<times> storage_object_ref_v4 list) \<Rightarrow> string + (nat \<times> storage_object_ref_v4 list)" where
  "graph_objects_step obj acc =
     bindr (ensure (\<not> Suc (fst acc) > GRAPH_LIMIT) ''v4 revision graph exceeds object-reference limit'') (\<lambda>_.
       Inr (Suc (fst acc), snd acc @ [obj]))"

definition graph_content_step ::
  "json_lib \<Rightarrow> parsers \<Rightarrow> (bytes \<Rightarrow> string) \<Rightarrow> content_store_v4 \<Rightarrow> world \<Rightarrow> content_ref_v4 \<Rightarrow>
     (nat \<times> storage_object_ref_v4 list) \<Rightarrow> string + (nat \<times> storage_object_ref_v4 list)" where
  "graph_content_step J P H st w content acc =
     bindr (content_objects J (parse_manifest P) H st content w) (\<lambda>objs. foldr_res graph_objects_step objs acc)"

definition graph_thread_step ::
  "json_lib \<Rightarrow> parsers \<Rightarrow> (bytes \<Rightarrow> string) \<Rightarrow> content_store_v4 \<Rightarrow> world \<Rightarrow> thread_ref_v4 \<Rightarrow>
     (nat \<times> storage_object_ref_v4 list) \<Rightarrow> string + (nat \<times> storage_object_ref_v4 list)" where
  "graph_thread_step J P H st w reference acc =
     bindr (ensure (\<not> Suc (fst acc) > GRAPH_LIMIT) ''v4 revision graph exceeds object-reference limit'') (\<lambda>_.
     bindr (typed_object_path_v4 (store_root st) Thread (tref_descriptor_sha256 reference)) (\<lambda>path.
     bindr (file_length w path) (\<lambda>len.
     let acc = (Suc (fst acc), snd acc @
       [\<lparr>ref_kind = Thread, ref_sha256 = tref_descriptor_sha256 reference, ref_byte_length = len\<rparr>]) in
     bindr (load_descriptor P H st reference w) (\<lambda>descriptor.
       foldr_res (graph_content_step J P H st w) (sd_rollout descriptor # sd_attachments descriptor) acc))))"

definition collect_thread_graph_v4 ::
  "json_lib \<Rightarrow> parsers \<Rightarrow> (bytes \<Rightarrow> string) \<Rightarrow> content_store_v4 \<Rightarrow> thread_ref_v4 list \<Rightarrow> world \<Rightarrow>
     string + storage_object_ref_v4 list" where
  "collect_thread_graph_v4 J P H st refs w =
     bindr (foldr_res (graph_thread_step J P H st w) refs (0, [])) (\<lambda>(_, objs). Inr (ref_set objs))"

definition collect_revision_graph_v4 ::
  "json_lib \<Rightarrow> parsers \<Rightarrow> (bytes \<Rightarrow> string) \<Rightarrow> (uuid \<Rightarrow> string) \<Rightarrow> content_store_v4 \<Rightarrow> revision_root_v4 \<Rightarrow> world \<Rightarrow>
     string + storage_object_ref_v4 list" where
  "collect_revision_graph_v4 J P H uuid_str st root w =
     bindr (validate_revision_root root) (\<lambda>_.
     bindr (revision_id J H uuid_str root) (\<lambda>root_id.
     bindr (typed_object_path_v4 (store_root st) RevisionRoot root_id) (\<lambda>root_path.
     bindr (file_length w root_path) (\<lambda>len.
     bindr (collect_thread_graph_v4 J P H st (rv_threads root) w) (\<lambda>objs.
       Inr (ref_set (\<lparr>ref_kind = RevisionRoot, ref_sha256 = root_id, ref_byte_length = len\<rparr> # objs)))))))"

end
