(* ===== verification/SnapshotFacts.thy ===== *)
theory SnapshotFacts
  imports Snapshots MergeFacts
begin

text \<open>
  A snapshot that was written can be read back: each thread comes back as its descriptor and its
  overlay restore it, with the semantic hash it had.
\<close>

definition thread_content :: "(string, content_ref_v4) btree_map \<Rightarrow> thread_bundle \<Rightarrow> content_ref_v4" where
  "thread_content contents t = the (bt_get contents (thread_id t))"

definition described :: "(string, content_ref_v4) btree_map \<Rightarrow> thread_bundle \<Rightarrow> semantic_thread_descriptor_v4" where
  "described contents t = projr (descriptor_from_bundle t (thread_content contents t))"

definition described_text :: "json_lib \<Rightarrow> (string, content_ref_v4) btree_map \<Rightarrow> thread_bundle \<Rightarrow> bytes" where
  "described_text J contents t = write_canonical_json_v4 J (descriptor_json (described contents t))"

definition described_ref ::
  "json_lib \<Rightarrow> (bytes \<Rightarrow> string) \<Rightarrow> (string, content_ref_v4) btree_map \<Rightarrow> thread_bundle \<Rightarrow> thread_ref_v4" where
  "described_ref J H contents t =
     \<lparr>tref_thread_id = thread_id t, tref_descriptor_sha256 = digest_bytes_v4 H (described_text J contents t)\<rparr>"

definition restored :: "(string, content_ref_v4) btree_map \<Rightarrow> thread_bundle \<Rightarrow> thread_bundle" where
  "restored contents t = descriptor_into_bundle (described contents t) (Some (thread_overlay t))"

lemma from_bundle_id: "descriptor_from_bundle t c = Inr d \<Longrightarrow> sd_thread_id d = thread_id t"
  by (auto simp: descriptor_from_bundle_def bindr_eq_Inr_iff)

lemma from_bundle_rollout: "descriptor_from_bundle t c = Inr d \<Longrightarrow> sd_rollout d = c"
  by (auto simp: descriptor_from_bundle_def bindr_eq_Inr_iff)

lemma store_descriptor_Inr:
  assumes "store_descriptor J H os st t c w = Inr (r, w')"
  obtains d where "descriptor_from_bundle t c = Inr d" "validate_descriptor d = Inr ()"
    "r = \<lparr>tref_thread_id = thread_id t,
       tref_descriptor_sha256 = digest_bytes_v4 H (write_canonical_json_v4 J (descriptor_json d))\<rparr>"
    "object_at st w' Thread (tref_descriptor_sha256 r) = Some (write_canonical_json_v4 J (descriptor_json d))"
    "\<not> of_nat (length (write_canonical_json_v4 J (descriptor_json d))) > max_bytes Thread"
    "\<forall>k h b. object_at st w k h = Some b \<longrightarrow> object_at st w' k h = Some b"
proof -
  from assms obtain d obj where d: "descriptor_from_bundle t c = Inr d" "validate_descriptor d = Inr ()"
    and s: "store_json J H os st Thread (descriptor_json d) w = Inr (obj, w')"
    and r: "r = \<lparr>tref_thread_id = thread_id t, tref_descriptor_sha256 = ref_sha256 obj\<rparr>"
    unfolding store_descriptor_def by (auto simp: bindr_eq_Inr_iff simp del: max_bytes.simps)
  note f = store_json_stored[OF s]
  show thesis
    by (rule that[OF d]) (simp_all add: r f(1)[symmetric] f(2) del: max_bytes.simps,
        (use f in \<open>simp_all add: r del: max_bytes.simps\<close>))
qed

text \<open>What storing the threads of a snapshot leaves behind.\<close>

definition thread_stored ::
  "json_lib \<Rightarrow> (bytes \<Rightarrow> string) \<Rightarrow> content_store_v4 \<Rightarrow> (string, content_ref_v4) btree_map \<Rightarrow> world \<Rightarrow> thread_bundle \<Rightarrow> bool" where
  "thread_stored J H st contents w t \<longleftrightarrow>
     bt_get contents (thread_id t) \<noteq> None
     \<and> descriptor_from_bundle t (thread_content contents t) = Inr (described contents t)
     \<and> validate_descriptor (described contents t) = Inr ()
     \<and> object_at st w Thread (digest_bytes_v4 H (described_text J contents t)) = Some (described_text J contents t)
     \<and> \<not> of_nat (length (described_text J contents t)) > max_bytes Thread"

lemma thread_stored_keep:
  assumes "thread_stored J H st contents w t"
    and "\<And>k h b. object_at st w k h = Some b \<Longrightarrow> object_at st w' k h = Some b"
  shows "thread_stored J H st contents w' t"
  using assms(1) assms(2)[of Thread] unfolding thread_stored_def by blast

lemma store_thread_stored:
  assumes "bt_get contents (thread_id t) = Some c" "store_descriptor J H os st t c w = Inr (r, w')"
  shows "thread_stored J H st contents w' t" "r = described_ref J H contents t"
    "\<And>k h b. object_at st w k h = Some b \<Longrightarrow> object_at st w' k h = Some b"
proof -
  from assms(1) have c: "thread_content contents t = c" by (simp add: thread_content_def)
  from assms(2) obtain d where d: "descriptor_from_bundle t c = Inr d"
    "validate_descriptor d = Inr ()" "r = \<lparr>tref_thread_id = thread_id t,
       tref_descriptor_sha256 = digest_bytes_v4 H (write_canonical_json_v4 J (descriptor_json d))\<rparr>"
    "object_at st w' Thread (tref_descriptor_sha256 r) = Some (write_canonical_json_v4 J (descriptor_json d))"
    "\<not> of_nat (length (write_canonical_json_v4 J (descriptor_json d))) > max_bytes Thread"
    and keep: "\<forall>k h b. object_at st w k h = Some b \<longrightarrow> object_at st w' k h = Some b"
    by (rule store_descriptor_Inr)
  have dd: "described contents t = d" by (simp add: described_def c d(1))
  show "r = described_ref J H contents t" by (simp add: d(3) described_ref_def described_text_def dd)
  from d(3) have h: "tref_descriptor_sha256 r = digest_bytes_v4 H (write_canonical_json_v4 J (descriptor_json d))"
    by simp
  show "thread_stored J H st contents w' t"
    unfolding thread_stored_def described_text_def dd c assms(1)
    by (intro conjI option.distinct(2) d(1,2,5) d(4)[unfolded h])
  show "\<And>k h b. object_at st w k h = Some b \<Longrightarrow> object_at st w' k h = Some b" using keep by blast
qed

lemma snapshot_fold:
  "foldr_res (snapshot_thread_step J H os st contents) ts (refs, ovs, w) = Inr (refs', ovs', w') \<Longrightarrow>
     refs' = refs @ map (described_ref J H contents) ts
     \<and> ovs' = foldl (\<lambda>m e. bt_insert (fst e) (snd e) m) ovs (map (\<lambda>t. (thread_id t, thread_overlay t)) ts)
     \<and> (\<forall>t \<in> set ts. thread_stored J H st contents w' t)
     \<and> (\<forall>k h b. object_at st w k h = Some b \<longrightarrow> object_at st w' k h = Some b)"
proof (induction ts arbitrary: refs ovs w)
  case (Cons t ts)
  from Cons.prems obtain acc where step: "snapshot_thread_step J H os st contents t (refs, ovs, w) = Inr acc"
    and rest0: "foldr_res (snapshot_thread_step J H os st contents) ts acc = Inr (refs', ovs', w')"
    unfolding foldr_res.simps by (elim bindrE)
  from step obtain c r w1 where c: "bt_get contents (thread_id t) = Some c"
    and s: "store_descriptor J H os st t c w = Inr (r, w1)"
    and acc: "acc = (refs @ [r], bt_insert (thread_id t) (thread_overlay t) ovs, w1)"
    by (auto simp: snapshot_thread_step_def bindr_eq_Inr_iff)
  note rest = rest0[unfolded acc]
  note f = store_thread_stored[OF c s] and IH = Cons.IH[OF rest]
  have "thread_stored J H st contents w' t" using thread_stored_keep[OF f(1)] IH by blast
  then show ?case
    using IH f(2,3) by (auto simp: bt_get_insert map_add_def split: option.splits)
qed simp

section \<open>Reading back\<close>

lemma load_described:
  assumes "thread_stored J H st contents w t"
    and "hex_digest H"
    and "parse_descriptor P (described_text J contents t) = Some (described contents t)"
  shows "load_descriptor P H st (described_ref J H contents t) w = Inr (described contents t)"
proof -
  note t = assms(1)[unfolded thread_stored_def]
  have v: "validate_sha256_v4 (digest_bytes_v4 H (described_text J contents t)) = Inr ()"
    by (simp add: valid_id_digest[OF assms(2)])
  have "read_json (parse_descriptor P) H st Thread (digest_bytes_v4 H (described_text J contents t)) w
      = Inr (described contents t)"
    using t assms(3) by (intro read_json_stored) auto
  moreover have "sd_thread_id (described contents t) = thread_id t"
    using t from_bundle_id by blast
  ultimately show ?thesis
    using t unfolding load_descriptor_def described_ref_def thread_ref_v4.select_convs v by simp
qed

lemma load_fold:
  assumes "\<And>t. t \<in> set ts \<Longrightarrow> load_descriptor P H st (described_ref J H contents t) w = Inr (described contents t)"
    and "distinct (map thread_id ts)" "\<And>t. t \<in> set ts \<Longrightarrow> bt_get (snd acc) (thread_id t) = None"
  shows "\<exists>cs. foldr_res (load_thread_step P H st w ov) (map (described_ref J H contents) ts) acc
    = Inr (fst acc @ map (\<lambda>t. descriptor_into_bundle (described contents t) (bt_get (so_threads ov) (thread_id t))) ts, cs)
    \<and> (\<forall>k. bt_get cs k = (case find_thread ts k of Some t \<Rightarrow> Some (sd_rollout (described contents t)) | None \<Rightarrow> bt_get (snd acc) k))"
  using assms
proof (induction ts arbitrary: acc)
  case (Cons t ts)
  define acc1 where "acc1 = (fst acc @ [descriptor_into_bundle (described contents t) (bt_get (so_threads ov) (thread_id t))],
      bt_insert (thread_id t) (sd_rollout (described contents t)) (snd acc))"
  have ref: "tref_thread_id (described_ref J H contents t) = thread_id t" by (simp add: described_ref_def)
  have step: "load_thread_step P H st w ov (described_ref J H contents t) acc = Inr acc1"
    using Cons.prems by (simp add: load_thread_step_def ref Let_def acc1_def)
  have "bt_get (snd acc1) (thread_id x) = None" if "x \<in> set ts" for x
  proof -
    from that Cons.prems(2) have "thread_id x \<noteq> thread_id t" by (auto simp: image_iff)
    with that Cons.prems(3) show ?thesis by (simp add: acc1_def bt_get_insert)
  qed
  then obtain cs where cs: "foldr_res (load_thread_step P H st w ov) (map (described_ref J H contents) ts) acc1
      = Inr (fst acc1 @ map (\<lambda>t. descriptor_into_bundle (described contents t) (bt_get (so_threads ov) (thread_id t))) ts, cs)"
    "\<And>k. bt_get cs k = (case find_thread ts k of Some t \<Rightarrow> Some (sd_rollout (described contents t)) | None \<Rightarrow> bt_get (snd acc1) k)"
    using Cons.IH[of acc1] Cons.prems(1,2) by auto
  have none: "find_thread ts (thread_id t) = None" using Cons.prems(2) by (simp add: find_thread_None)
  have "bt_get cs k = (case find_thread (t # ts) k of Some t \<Rightarrow> Some (sd_rollout (described contents t))
      | None \<Rightarrow> bt_get (snd acc) k)" for k
    using cs(2)[of k] none
    by (cases "k = thread_id t") (simp_all add: acc1_def bt_get_insert split: option.splits)
  moreover have "foldr_res (load_thread_step P H st w ov) (map (described_ref J H contents) (t # ts)) acc
      = Inr (fst acc @ map (\<lambda>t. descriptor_into_bundle (described contents t) (bt_get (so_threads ov) (thread_id t))) (t # ts), cs)"
    using cs(1) by (simp add: step) (simp add: acc1_def)
  ultimately show ?case by blast
next
  case Nil
  show ?case by (intro exI[of _ "snd acc"]) simp
qed

lemma insort_key_map: "insort_key f (g x) (map g xs) = map g (insort_key (\<lambda>x. f (g x)) x xs)"
  by (induction xs) auto

lemma sort_key_map: "sort_key f (map g xs) = map g (sort_key (\<lambda>x. f (g x)) xs)"
  by (induction xs) (simp_all add: insort_key_map)

lemma thread_refs_Inr:
  assumes "validate_thread_refs_v4 rs = Inr u"
  shows "distinct (map tref_thread_id rs)"
    and "r \<in> set rs \<Longrightarrow> \<not> blank (tref_thread_id r) \<and> valid_id (tref_descriptor_sha256 r)"
proof -
  let ?chk = "\<lambda>t. bindr (ensure (\<not> blank (tref_thread_id t)) ''thread ID must not be empty'') (\<lambda>_.
      validate_sha256_v4 (tref_descriptor_sha256 t))"
  from assms obtain m where "bt.index_from ?chk tref_thread_id (\<lambda>_. ())
      (\<lambda>t. ''duplicate thread ID '' @ tref_thread_id t) rs [] = Inr m"
    by (auto simp: validate_thread_refs_v4_def bindr_eq_Inr_iff)
  from bt.index_from_get[OF _ this] have i: "distinct (map tref_thread_id rs)" "\<forall>x \<in> set rs. is_ok (?chk x)"
    by auto
  show "distinct (map tref_thread_id rs)" by (rule i(1))
  show "r \<in> set rs \<Longrightarrow> \<not> blank (tref_thread_id r) \<and> valid_id (tref_descriptor_sha256 r)"
    using i(2) by (auto simp: valid_id_def)
qed

lemma described_rollout:
  "thread_stored J H st contents w t \<Longrightarrow> sd_rollout (described contents t) = thread_content contents t"
  unfolding thread_stored_def using from_bundle_rollout by blast

definition snapshot_overlay_of :: "local_snapshot \<Rightarrow> snapshot_overlay_v4" where
  "snapshot_overlay_of snapshot = \<lparr>so_schema_version = 4, so_normalization_schema_version = NORMALIZATION_SCHEMA_VERSION_V4,
     so_threads = bt_of_list (map (\<lambda>t. (thread_id t, thread_overlay t)) (ls_threads snapshot))\<rparr>"

lemma build_snapshot_Inr:
  assumes "build_v4_snapshot_root J H os st snapshot contents w = Inr (root, w')"
  shows "\<forall>t \<in> set (ls_threads snapshot). thread_stored J H st contents w' t"
    and "sr_threads root = map (described_ref J H contents) (sort_key thread_id (ls_threads snapshot))"
    and "sr_snapshot_id root = ls_snapshot_id snapshot \<and> sr_created_at root = ls_created_at snapshot
       \<and> sr_warning_count root = ls_warning_count snapshot"
    and "object_at st w' SnapshotOverlay (sr_overlay_sha256 root)
       = Some (write_canonical_json_v4 J (overlay_json (snapshot_overlay_of snapshot)))"
    and "sr_overlay_sha256 root = digest_bytes_v4 H (write_canonical_json_v4 J (overlay_json (snapshot_overlay_of snapshot)))"
    and "\<not> of_nat (length (write_canonical_json_v4 J (overlay_json (snapshot_overlay_of snapshot)))) > max_bytes SnapshotOverlay"
    and "validate_snapshot_root root = Inr ()"
    and "distinct (map thread_id (ls_threads snapshot))"
proof -
  from assms obtain acc where fold0: "foldr_res (snapshot_thread_step J H os st contents) (ls_threads snapshot) ([], [], w) = Inr acc"
    and rest: "(case acc of (references, overlays, w) \<Rightarrow>
     let references = sort_key tref_thread_id references;
         overlay = \<lparr>so_schema_version = 4, so_normalization_schema_version = NORMALIZATION_SCHEMA_VERSION_V4,
           so_threads = overlays\<rparr> in
     bindr (store_overlay J H os st overlay w) (\<lambda>(overlay_object, w).
     let root = \<lparr>sr_schema_version = 4, sr_normalization_schema_version = NORMALIZATION_SCHEMA_VERSION_V4,
           sr_snapshot_id = ls_snapshot_id snapshot, sr_created_at = ls_created_at snapshot,
           sr_threads = references, sr_overlay_sha256 = ref_sha256 overlay_object,
           sr_warning_count = ls_warning_count snapshot\<rparr> in
     bindr (validate_snapshot_root root) (\<lambda>_. Inr (root, w)))) = Inr (root, w')"
    unfolding build_v4_snapshot_root_def by (elim bindrE)
  obtain refs ovs w1 where acc: "acc = (refs, ovs, w1)" by (cases acc)
  note fold = snapshot_fold[OF fold0[unfolded acc]]
  then have ov: "\<lparr>so_schema_version = 4, so_normalization_schema_version = NORMALIZATION_SCHEMA_VERSION_V4,
      so_threads = ovs\<rparr> = snapshot_overlay_of snapshot"
    by (simp add: snapshot_overlay_of_def bt_of_list_def)
  from rest obtain obj where so: "store_overlay J H os st (snapshot_overlay_of snapshot) w1 = Inr (obj, w')"
    and root: "root = \<lparr>sr_schema_version = 4, sr_normalization_schema_version = NORMALIZATION_SCHEMA_VERSION_V4,
           sr_snapshot_id = ls_snapshot_id snapshot, sr_created_at = ls_created_at snapshot,
           sr_threads = sort_key tref_thread_id refs, sr_overlay_sha256 = ref_sha256 obj,
           sr_warning_count = ls_warning_count snapshot\<rparr>"
    and v: "validate_snapshot_root root = Inr ()"
    unfolding acc prod.case Let_def ov by (elim bindrE) (auto simp: bindr_eq_Inr_iff)
  from so have sj: "store_json J H os st SnapshotOverlay (overlay_json (snapshot_overlay_of snapshot)) w1 = Inr (obj, w')"
    unfolding store_overlay_def by (elim bindrE)
  note s = store_json_stored[OF sj]
  show "\<forall>t \<in> set (ls_threads snapshot). thread_stored J H st contents w' t"
    using fold thread_stored_keep s(4) by blast
  have refs: "refs = map (described_ref J H contents) (ls_threads snapshot)" using fold by simp
  have key: "(\<lambda>t. tref_thread_id (described_ref J H contents t)) = thread_id" by (simp add: described_ref_def)
  show thr: "sr_threads root = map (described_ref J H contents) (sort_key thread_id (ls_threads snapshot))"
    by (simp add: root refs sort_key_map key)
  show "sr_snapshot_id root = ls_snapshot_id snapshot \<and> sr_created_at root = ls_created_at snapshot
       \<and> sr_warning_count root = ls_warning_count snapshot" by (simp add: root)
  show "object_at st w' SnapshotOverlay (sr_overlay_sha256 root)
       = Some (write_canonical_json_v4 J (overlay_json (snapshot_overlay_of snapshot)))"
    using s(1) by (simp add: root)
  show "sr_overlay_sha256 root = digest_bytes_v4 H (write_canonical_json_v4 J (overlay_json (snapshot_overlay_of snapshot)))"
    using s(2) by (simp add: root)
  show "\<not> of_nat (length (write_canonical_json_v4 J (overlay_json (snapshot_overlay_of snapshot)))) > max_bytes SnapshotOverlay"
    by (rule s(3))
  show "validate_snapshot_root root = Inr ()" by (rule v)
  then obtain u where "validate_thread_refs_v4 (sr_threads root) = Inr u"
    unfolding validate_snapshot_root_def by (elim bindrE)
  from thread_refs_Inr(1)[OF this] have "distinct (map thread_id (sort_key thread_id (ls_threads snapshot)))"
    by (simp add: thr comp_def key)
  then show "distinct (map thread_id (ls_threads snapshot))"
    by (metis mset_eq_imp_distinct_iff mset_map mset_sort)
qed

end
