(* ===== verification/SnapshotProps.thy ===== *)
theory SnapshotProps
  imports SnapshotFacts ContentProps MergeProps
begin

text \<open>The properties of snapshots: they restore what they stored, with its semantic hash.\<close>

lemma object_at_root_write:
  assumes "path = store_root st @ [''snapshots'', name]"
  shows "object_at st (write_v4_root J path value w) k h = object_at st w k h"
proof (cases "typed_object_path_v4 (store_root st) k h")
  case (Inr p)
  then have "p \<noteq> path" using assms
    by (auto simp: typed_object_path_v4_def bindr_eq_Inr_iff Let_def)
  with Inr show ?thesis by (simp add: object_at_def write_v4_root_def)
qed (simp add: object_at_def)

lemma overlay_lookup:
  assumes "distinct (map thread_id ts)" "t \<in> set ts"
  shows "bt_get (bt_of_list (map (\<lambda>t. (thread_id t, thread_overlay t)) ts)) (thread_id t) = Some (thread_overlay t)"
proof -
  have "distinct (map fst (rev (map (\<lambda>t. (thread_id t, thread_overlay t)) ts)))"
    using assms(1) by (simp add: rev_map[symmetric] comp_def)
  moreover have "(thread_id t, thread_overlay t) \<in> set (rev (map (\<lambda>t. (thread_id t, thread_overlay t)) ts))"
    using assms(2) by auto
  ultimately show ?thesis unfolding bt_of_list_get by (rule map_of_is_SomeI)
qed

lemma read_back_snapshot:
  assumes build: "build_v4_snapshot_root J H os st snapshot contents w = Inr (root, w1)"
    and path: "path = store_root st @ [''snapshots'', name]"
    and hex: "hex_digest H"
    and pd: "\<And>t. t \<in> set (ls_threads snapshot) \<Longrightarrow>
       parse_descriptor P (described_text J contents t) = Some (described contents t)"
    and po: "parse_overlay P (write_canonical_json_v4 J (overlay_json (snapshot_overlay_of snapshot)))
       = Some (snapshot_overlay_of snapshot)"
    and pr: "parse_snapshot_root P (write_canonical_json_v4 J (snapshot_root_json root)) = Some root"
    and small: "length (write_canonical_json_v4 J (snapshot_root_json root)) \<le> unat MANIFEST_LIMIT"
  shows "\<exists>cs. load_v4_snapshot P H st path (write_v4_root J path (snapshot_root_json root) w1)
      = Inr (\<lparr>ls_schema_version = LOCAL_SNAPSHOT_SCHEMA_VERSION, ls_snapshot_id = ls_snapshot_id snapshot,
             ls_created_at = ls_created_at snapshot,
             ls_threads = map (restored contents) (sort_key thread_id (ls_threads snapshot)),
             ls_warning_count = ls_warning_count snapshot\<rparr>, cs)
    \<and> (\<forall>t \<in> set (ls_threads snapshot). bt_get cs (thread_id t) = bt_get contents (thread_id t))"
proof -
  let ?w = "write_v4_root J path (snapshot_root_json root) w1"
  let ?ts = "sort_key thread_id (ls_threads snapshot)"
  let ?ov = "snapshot_overlay_of snapshot"
  note b = build_snapshot_Inr[OF build]
  have obj: "object_at st ?w k h = object_at st w1 k h" for k h by (rule object_at_root_write[OF path])
  have stored: "thread_stored J H st contents ?w t" if "t \<in> set (ls_threads snapshot)" for t
    using b(1) that thread_stored_keep[of J H st contents w1 t ?w] by (simp add: obj)
  have root: "read_bounded_v4 (parse_snapshot_root P) path MANIFEST_LIMIT ?w = Inr root"
    using pr small by (simp add: read_bounded_v4_def read_file_def write_v4_root_def)
  have "read_json (parse_overlay P) H st SnapshotOverlay (sr_overlay_sha256 root) ?w = Inr ?ov"
    using b(4,5,6) po by (intro read_json_stored) (auto simp: obj)
  then have ov: "load_overlay P H st (sr_overlay_sha256 root) ?w = Inr ?ov"
    by (simp add: load_overlay_def validate_overlay_def snapshot_overlay_of_def)
  have load: "load_descriptor P H st (described_ref J H contents t) ?w = Inr (described contents t)"
    if "t \<in> set ?ts" for t
    using that stored pd by (intro load_described[OF _ hex]) simp_all
  have dist: "distinct (map thread_id ?ts)" using b(8) by (metis mset_eq_imp_distinct_iff mset_map mset_sort)
  obtain cs where fold: "foldr_res (load_thread_step P H st ?w ?ov) (map (described_ref J H contents) ?ts) ([], [])
      = Inr (map (\<lambda>t. descriptor_into_bundle (described contents t) (bt_get (so_threads ?ov) (thread_id t))) ?ts, cs)"
    and cs: "\<And>k. bt_get cs k = (case find_thread ?ts k of Some t \<Rightarrow> Some (sd_rollout (described contents t)) | None \<Rightarrow> None)"
    using load_fold[of ?ts P H st J contents ?w "([], [])" ?ov, OF load dist] by (auto simp only: fst_conv snd_conv bt_get_Nil append_Nil)
  have "map (\<lambda>t. descriptor_into_bundle (described contents t) (bt_get (so_threads ?ov) (thread_id t))) ?ts
      = map (restored contents) ?ts"
    using overlay_lookup[OF b(8)] by (intro map_cong) (simp_all add: restored_def snapshot_overlay_of_def)
  with fold root b(2,3,7) ov have "load_v4_snapshot P H st path ?w
      = Inr (\<lparr>ls_schema_version = LOCAL_SNAPSHOT_SCHEMA_VERSION, ls_snapshot_id = ls_snapshot_id snapshot,
             ls_created_at = ls_created_at snapshot, ls_threads = map (restored contents) ?ts,
             ls_warning_count = ls_warning_count snapshot\<rparr>, cs)"
    by (simp add: load_v4_snapshot_def)
  moreover have "bt_get cs (thread_id t) = bt_get contents (thread_id t)" if t: "t \<in> set (ls_threads snapshot)" for t
  proof -
    have "find_thread ?ts (thread_id t) = Some t" using find_thread_distinct[OF dist] t by simp
    with cs described_rollout[OF stored[OF t]] stored[OF t] show ?thesis
      by (auto simp: thread_content_def thread_stored_def)
  qed
  ultimately show ?thesis by blast
qed

section \<open>Semantics of a restored thread\<close>

text \<open>Rows whose nested values name no machine key, in tables the v4 model keeps.\<close>

fun flat_clean :: "json \<Rightarrow> bool" where
  "flat_clean (JObject m) = list_all (\<lambda>e. \<not> mentions_machine_key (snd e)) m"
| "flat_clean v = (\<not> mentions_machine_key v)"

definition clean_records :: "related_records \<Rightarrow> bool" where
  "clean_records r \<longleftrightarrow> list_all (\<lambda>e. fst e \<noteq> ''thread_timeline_ledger'' \<and> list_all flat_clean (snd e)) (rr_tables r)"

lemma view_row_projected:
  assumes "flat_clean v"
  shows "view_row table (project_value_v4 v) = view_row table v"
proof (cases v)
  case (JObject m)
  have "map (\<lambda>(k, v). (k, project_value_v4 v)) (filter (\<lambda>(k, v). \<not> machine_key_v4 k) m)
      = filter (\<lambda>(k, v). \<not> machine_key_v4 k) m"
    using assms JObject by (intro map_idI) (auto simp: list_all_iff project_value_clean_id)
  moreover have "filter (\<lambda>e. \<not> local_column (fst e) \<and> snd e \<noteq> JNull) (filter (\<lambda>(k, v). \<not> machine_key_v4 k) m)
      = filter (\<lambda>e. \<not> local_column (fst e) \<and> snd e \<noteq> JNull) m"
    by (auto simp: machine_key_v4_def local_column_def intro!: filter_cong)
  ultimately show ?thesis using JObject by (simp add: view_row_object)
next
  case (JArray vs)
  with assms have "project_value_v4 v = v" by (intro project_value_clean_id) simp
  then show ?thesis by simp
qed simp_all

lemma content_ref_view:
  "content_ref_from_object_v4 a = Inr c \<Longrightarrow> remote_content_view (content_object_from_ref_v4 c) = remote_content_view a"
  by (auto simp: content_ref_from_object_v4_def content_object_from_ref_v4_def remote_content_view_def bindr_eq_Inr_iff)

lemma content_refs_view:
  "map_res content_ref_from_object_v4 xs = Inr cs \<Longrightarrow>
     map (\<lambda>c. remote_content_view (content_object_from_ref_v4 c)) cs = map remote_content_view xs"
  by (induction xs arbitrary: cs) (auto simp: bindr_eq_Inr_iff content_ref_view)

lemma into_bundle_view:
  assumes "descriptor_from_bundle t c = Inr d"
    and "tb_schema_version t = LOCAL_SNAPSHOT_SCHEMA_VERSION" "clean_records (related t)"
    and "media_type c = co_media_type (rollout t)" "logical_path c = co_logical_path (rollout t)"
  shows "remote_thread_view (descriptor_into_bundle d ov) = remote_thread_view t"
proof -
  from assms(1) obtain refs where refs: "map_res content_ref_from_object_v4 (attachments t) = Inr refs"
    and roll: "logical_sha256 c = co_sha256 (rollout t)" "content_byte_length c = co_byte_length (rollout t)"
    and d: "d = \<lparr>sd_schema_version = 4, sd_normalization_schema_version = NORMALIZATION_SCHEMA_VERSION_V4,
            sd_thread_id = thread_id t, sd_title = tb_title t, sd_archived = archived t,
            sd_created_at_ms = created_at_ms t, sd_updated_at_ms = updated_at_ms t,
            sd_workspace = \<lparr>sw_logical_id = ws_logical_id (workspace t),
                            sw_canonical_hint = ws_logical_id (workspace t)\<rparr>,
            sd_rollout = c, sd_related_records = project_related_records_v4 (related t),
            sd_attachments = refs\<rparr>"
    by (auto simp: descriptor_from_bundle_def bindr_eq_Inr_iff)
  have rollout: "remote_content_view (content_object_from_ref_v4 c) = remote_content_view (rollout t)"
    using roll assms(4,5) by (simp add: content_object_from_ref_v4_def remote_content_view_def)
  have keep: "filter (\<lambda>(table, rows). table \<noteq> ''thread_timeline_ledger'') (rr_tables (related t)) = rr_tables (related t)"
    using assms(3) by (auto simp: clean_records_def list_all_iff filter_id_conv)
  have rows: "map (view_row table) (map project_value_v4 rows) = map (view_row table) rows"
    if "(table, rows) \<in> set (rr_tables (related t))" for table rows
    using that assms(3) by (auto simp: clean_records_def list_all_iff view_row_projected)
  have tables: "map (\<lambda>(table, rows). (table, map (view_row table) rows)) (project_related_records_v4 (related t))
      = map (\<lambda>(table, rows). (table, map (view_row table) rows)) (rr_tables (related t))"
    unfolding project_related_records_v4_def keep map_map
    by (rule map_cong[OF refl]) (auto simp: rows simp del: map_map)
  show ?thesis
    using rollout tables content_refs_view[OF refs] assms(2)
    by (simp add: d descriptor_into_bundle_def Let_def remote_thread_view_def comp_def)
qed

text \<open>
  C14: a snapshot reads back. A snapshot that was built and written under snapshots/ loads with
  the same identity, with every thread restored from its descriptor and its overlay, in
  identifier order, and with the content references it was built from. The three parsers are to
  read back the texts that were written.
\<close>
theorem snapshot_round_trip:
  assumes "build_v4_snapshot_root J H os st snapshot contents w = Inr (root, w1)"
    and "write_v4_snapshot J H os st snapshot contents w = Inr (path, w')"
    and "hex_digest H"
    and "\<And>t. t \<in> set (ls_threads snapshot) \<Longrightarrow>
       parse_descriptor P (described_text J contents t) = Some (described contents t)"
    and "parse_overlay P (write_canonical_json_v4 J (overlay_json (snapshot_overlay_of snapshot)))
       = Some (snapshot_overlay_of snapshot)"
    and "parse_snapshot_root P (write_canonical_json_v4 J (snapshot_root_json root)) = Some root"
    and "length (write_canonical_json_v4 J (snapshot_root_json root)) \<le> unat MANIFEST_LIMIT"
  shows "\<exists>cs. load_v4_snapshot P H st path w'
      = Inr (\<lparr>ls_schema_version = LOCAL_SNAPSHOT_SCHEMA_VERSION, ls_snapshot_id = ls_snapshot_id snapshot,
             ls_created_at = ls_created_at snapshot,
             ls_threads = map (restored contents) (sort_key thread_id (ls_threads snapshot)),
             ls_warning_count = ls_warning_count snapshot\<rparr>, cs)
    \<and> (\<forall>t \<in> set (ls_threads snapshot). bt_get cs (thread_id t) = bt_get contents (thread_id t))"
proof -
  from assms(1,2) have p: "path = store_root st @ [''snapshots'', ls_snapshot_id snapshot @ ''.json'']"
    "w' = write_v4_root J path (snapshot_root_json root) w1"
    by (auto simp: write_v4_snapshot_def Let_def)
  show ?thesis unfolding p(2) by (rule read_back_snapshot[OF assms(1) p(1) assms(3-7)])
qed

definition stored_content :: content_ref_v4 where
  "stored_content = \<lparr>logical_sha256 = digest_bytes_v4 toy_hash [], content_byte_length = 0,
     storage = WholeRef (digest_bytes_v4 toy_hash []), media_type = ''m'', logical_path = None\<rparr>"

definition stored_thread :: thread_bundle where
  "stored_thread = (toy_thread ''a'' ''1'')\<lparr>rollout := content_object_from_ref_v4 stored_content\<rparr>"

definition stored_snapshot :: local_snapshot where
  "stored_snapshot = \<lparr>ls_schema_version = 1, ls_snapshot_id = ''s'', ls_created_at = ''t'',
     ls_threads = [stored_thread], ls_warning_count = 0\<rparr>"

definition stored_contents :: "(string, content_ref_v4) btree_map" where
  "stored_contents = [(''a'', stored_content)]"

lemma stored_snapshot_builds:
  "case build_v4_snapshot_root toy_text toy_hash no_os toy_store stored_snapshot stored_contents empty_world of
     Inl _ \<Rightarrow> False
   | Inr (root, w) \<Rightarrow> length (write_canonical_json_v4 toy_text (snapshot_root_json root)) \<le> 16777216"
  by code_simp

theorem snapshot_round_trip_witness:
  "\<exists>P path w' snapshot' cs. write_v4_snapshot toy_text toy_hash no_os toy_store stored_snapshot stored_contents empty_world
       = Inr (path, w')
     \<and> load_v4_snapshot P toy_hash toy_store path w' = Inr (snapshot', cs)
     \<and> ls_threads snapshot' = [restored stored_contents stored_thread]"
proof -
  from stored_snapshot_builds obtain root w1 where
    b: "build_v4_snapshot_root toy_text toy_hash no_os toy_store stored_snapshot stored_contents empty_world = Inr (root, w1)"
    and len: "length (write_canonical_json_v4 toy_text (snapshot_root_json root)) \<le> 16777216"
    by (cases "build_v4_snapshot_root toy_text toy_hash no_os toy_store stored_snapshot stored_contents empty_world")
      (auto split: prod.splits)
  obtain path w' where wr: "write_v4_snapshot toy_text toy_hash no_os toy_store stored_snapshot stored_contents empty_world
      = Inr (path, w')"
    by (simp add: write_v4_snapshot_def b Let_def)
  define P where "P = \<lparr>parse_manifest = \<lambda>_. None, parse_descriptor = \<lambda>_. Some (described stored_contents stored_thread),
    parse_overlay = \<lambda>_. Some (snapshot_overlay_of stored_snapshot), parse_snapshot_root = \<lambda>_. Some root,
    parse_revision_root = \<lambda>_. None\<rparr>"
  have "\<exists>cs. load_v4_snapshot P toy_hash toy_store path w'
      = Inr (\<lparr>ls_schema_version = LOCAL_SNAPSHOT_SCHEMA_VERSION, ls_snapshot_id = ls_snapshot_id stored_snapshot,
             ls_created_at = ls_created_at stored_snapshot,
             ls_threads = map (restored stored_contents) (sort_key thread_id (ls_threads stored_snapshot)),
             ls_warning_count = ls_warning_count stored_snapshot\<rparr>, cs)
    \<and> (\<forall>t \<in> set (ls_threads stored_snapshot). bt_get cs (thread_id t) = bt_get stored_contents (thread_id t))"
    using len by (intro snapshot_round_trip[OF b wr toy_hash_hex])
      (simp_all add: P_def stored_snapshot_def MANIFEST_LIMIT_def)
  then show ?thesis using wr by (force simp: stored_snapshot_def)
qed

text \<open>
  what a snapshot or a revision restores is semantically the thread that was stored. A
  descriptor made from a thread, turned back into a bundle with any overlay, has the semantic
  hash of the thread, for threads of the current schema whose content reference describes the
  rollout and whose related records name machine fields only at the top level of a row.
\<close>
theorem descriptor_keeps_semantics:
  assumes "descriptor_from_bundle t c = Inr d"
    and "tb_schema_version t = LOCAL_SNAPSHOT_SCHEMA_VERSION" "clean_records (related t)"
    and "media_type c = co_media_type (rollout t)" "logical_path c = co_logical_path (rollout t)"
  shows "semantic_thread_hash to_vec H (descriptor_into_bundle d ov) = semantic_thread_hash to_vec H t"
  by (simp add: semantic_thread_hash_def into_bundle_view[OF assms])

definition toy_content :: content_ref_v4 where
  "toy_content = \<lparr>logical_sha256 = [], content_byte_length = 0, storage = WholeRef (digest_bytes_v4 toy_hash []),
     media_type = [], logical_path = None\<rparr>"

theorem descriptor_keeps_semantics_witness:
  "\<exists>d. descriptor_from_bundle (toy_thread ''a'' ''1'') toy_content = Inr d
     \<and> semantic_thread_hash toy_vec (\<lambda>x. x) (descriptor_into_bundle d None) = ''sha256:1''"
proof -
  have "is_ok (descriptor_from_bundle (toy_thread ''a'' ''1'') toy_content)"
    by (simp add: descriptor_from_bundle_def toy_content_def toy_thread_def)
  then obtain d where d: "descriptor_from_bundle (toy_thread ''a'' ''1'') toy_content = Inr d" by (auto simp: is_ok_iff)
  have "semantic_thread_hash toy_vec (\<lambda>x. x) (descriptor_into_bundle d None)
      = semantic_thread_hash toy_vec (\<lambda>x. x) (toy_thread ''a'' ''1'')"
    by (rule descriptor_keeps_semantics[OF d])
      (simp_all add: toy_thread_def toy_content_def LOCAL_SNAPSHOT_SCHEMA_VERSION_def clean_records_def)
  with d show ?thesis by (simp add: toy_hash_title)
qed

end
