(* ===== verification/GraphProps.thy ===== *)
theory GraphProps
  imports SnapshotProps
begin

text \<open>
  The object graph of a revision is complete: a store that has the objects of the graph loads
  every descriptor and materialize every content of the revision.
\<close>

lemma graph_objects_fold:
  "foldr_res graph_objects_step objs acc = Inr acc' \<Longrightarrow> snd acc' = snd acc @ objs \<and> fst acc' = fst acc + length objs"
  by (induction objs arbitrary: acc) (auto simp: graph_objects_step_def bindr_eq_Inr_iff)

lemma graph_content_fold:
  "foldr_res (graph_content_step J P H st w) cs acc = Inr acc' \<Longrightarrow>
     set (snd acc) \<subseteq> set (snd acc') \<and>
     (\<forall>c \<in> set cs. \<exists>objs. content_objects J (parse_manifest P) H st c w = Inr objs \<and> set objs \<subseteq> set (snd acc'))"
proof (induction cs arbitrary: acc)
  case (Cons c cs)
  from Cons.prems obtain acc1 where s: "graph_content_step J P H st w c acc = Inr acc1"
    and rest: "foldr_res (graph_content_step J P H st w) cs acc1 = Inr acc'"
    by (auto simp: bindr_eq_Inr_iff)
  from s obtain objs where o: "content_objects J (parse_manifest P) H st c w = Inr objs"
    "foldr_res graph_objects_step objs acc = Inr acc1"
    unfolding graph_content_step_def by (elim bindrE)
  from graph_objects_fold[OF o(2)] Cons.IH[OF rest] o(1) show ?case by auto
qed simp

lemma graph_thread_Inr:
  assumes "graph_thread_step J P H st w r acc = Inr acc'"
  obtains d len where "load_descriptor P H st r w = Inr d"
    "\<lparr>ref_kind = Thread, ref_sha256 = tref_descriptor_sha256 r, ref_byte_length = len\<rparr> \<in> set (snd acc')"
    "set (snd acc) \<subseteq> set (snd acc')"
    "\<forall>c \<in> set (sd_rollout d # sd_attachments d). \<exists>objs. content_objects J (parse_manifest P) H st c w = Inr objs
       \<and> set objs \<subseteq> set (snd acc')"
proof -
  from assms obtain d len where d: "load_descriptor P H st r w = Inr d"
    and f: "foldr_res (graph_content_step J P H st w) (sd_rollout d # sd_attachments d) (Suc (fst acc), snd acc @
       [\<lparr>ref_kind = Thread, ref_sha256 = tref_descriptor_sha256 r, ref_byte_length = len\<rparr>]) = Inr acc'"
    unfolding graph_thread_step_def Let_def by (elim bindrE)
  from graph_content_fold[OF f] that[OF d, of len] show thesis by auto
qed

lemma graph_threads_fold:
  "foldr_res (graph_thread_step J P H st w) rs acc = Inr acc' \<Longrightarrow> set (snd acc) \<subseteq> set (snd acc') \<and>
     (\<forall>r \<in> set rs. \<exists>d len. load_descriptor P H st r w = Inr d
       \<and> \<lparr>ref_kind = Thread, ref_sha256 = tref_descriptor_sha256 r, ref_byte_length = len\<rparr> \<in> set (snd acc')
       \<and> (\<forall>c \<in> set (sd_rollout d # sd_attachments d). \<exists>objs. content_objects J (parse_manifest P) H st c w = Inr objs
            \<and> set objs \<subseteq> set (snd acc')))"
proof (induction rs arbitrary: acc)
  case (Cons r rs)
  from Cons.prems obtain acc1 where s: "graph_thread_step J P H st w r acc = Inr acc1"
    and rest: "foldr_res (graph_thread_step J P H st w) rs acc1 = Inr acc'"
    by (auto simp: bindr_eq_Inr_iff)
  note IH = Cons.IH[OF rest]
  from s obtain d len where d: "load_descriptor P H st r w = Inr d"
    "\<lparr>ref_kind = Thread, ref_sha256 = tref_descriptor_sha256 r, ref_byte_length = len\<rparr> \<in> set (snd acc1)"
    "set (snd acc) \<subseteq> set (snd acc1)"
    "\<forall>c \<in> set (sd_rollout d # sd_attachments d). \<exists>objs. content_objects J (parse_manifest P) H st c w = Inr objs
       \<and> set objs \<subseteq> set (snd acc1)" by (rule graph_thread_Inr)
  have "\<exists>d len. load_descriptor P H st r w = Inr d
       \<and> \<lparr>ref_kind = Thread, ref_sha256 = tref_descriptor_sha256 r, ref_byte_length = len\<rparr> \<in> set (snd acc')
       \<and> (\<forall>c \<in> set (sd_rollout d # sd_attachments d). \<exists>objs. content_objects J (parse_manifest P) H st c w = Inr objs
            \<and> set objs \<subseteq> set (snd acc'))"
    using d IH by (intro exI[of _ d] exI[of _ len]) (meson subset_iff)
  with IH d(3) show ?case by auto
qed simp

section \<open>Reading from another store\<close>

text \<open>An object of the graph as a transfer leaves it: the file is there, with the digest and the length the
  graph states. \<open>same_bytes\<close> says that two stores which both have an object have the same file, as they do
  unless the digest has a collision.\<close>

definition object_verified ::
  "(bytes \<Rightarrow> string) \<Rightarrow> content_store_v4 \<Rightarrow> world \<Rightarrow> storage_object_ref_v4 \<Rightarrow> bool" where
  "object_verified H st w r \<longleftrightarrow> (case object_at st w (ref_kind r) (ref_sha256 r) of
     None \<Rightarrow> False
   | Some b \<Rightarrow> digest_bytes_v4 H b = ref_sha256 r \<and> of_nat (length b) = ref_byte_length r)"

definition same_bytes ::
  "content_store_v4 \<Rightarrow> world \<Rightarrow> content_store_v4 \<Rightarrow> world \<Rightarrow> storage_object_ref_v4 \<Rightarrow> bool" where
  "same_bytes st w st2 w2 r \<longleftrightarrow>
     (case (object_at st w (ref_kind r) (ref_sha256 r), object_at st2 w2 (ref_kind r) (ref_sha256 r)) of
        (Some b, Some b2) \<Rightarrow> b = b2
      | _ \<Rightarrow> True)"

lemma object_verifiedE:
  assumes "object_verified H st w r"
  obtains b where "object_at st w (ref_kind r) (ref_sha256 r) = Some b" "digest_bytes_v4 H b = ref_sha256 r"
    "of_nat (length b) = ref_byte_length r"
  using assms by (auto simp: object_verified_def split: option.splits)

lemma same_bytesD:
  "same_bytes st w st2 w2 r \<Longrightarrow> object_at st w (ref_kind r) (ref_sha256 r) = Some b \<Longrightarrow>
     object_at st2 w2 (ref_kind r) (ref_sha256 r) = Some b2 \<Longrightarrow> b2 = b"
  by (simp add: same_bytes_def)

text \<open>What the source read, the other store has.\<close>

lemma verified_moves:
  assumes "object_verified H st2 w2 r" "same_bytes st w st2 w2 r"
    and "object_at st w (ref_kind r) (ref_sha256 r) = Some b"
  shows "object_at st2 w2 (ref_kind r) (ref_sha256 r) = Some b"
  using assms by (auto elim!: object_verifiedE dest: same_bytesD)

lemma read_json_object:
  "read_json decode H st k h w = Inr x \<longleftrightarrow> (\<exists>b. object_at st w k h = Some b
     \<and> \<not> of_nat (length b) > max_bytes k \<and> digest_bytes_v4 H b = h \<and> decode b = Some x)"
proof (cases "typed_object_path_v4 (store_root st) k h")
  case (Inr p)
  then show ?thesis
    by (cases "files w p") (auto simp: read_json_def object_at_def read_file_def bindr_eq_Inr_iff simp del: max_bytes.simps)
qed (simp add: read_json_def object_at_def)

lemma read_chunk_object:
  "read_chunk H st w c = Inr b \<longleftrightarrow> object_at st w Chunk (chunk_sha256 c) = Some b
     \<and> of_nat (length b) = chunk_byte_length c \<and> digest_bytes_v4 H b = chunk_sha256 c"
proof (cases "typed_object_path_v4 (store_root st) Chunk (chunk_sha256 c)")
  case (Inr p)
  then show ?thesis
    by (cases "files w p") (auto simp: read_chunk_def object_at_def read_file_def bindr_eq_Inr_iff)
qed (simp add: read_chunk_def object_at_def)

lemma read_json_moves:
  assumes "read_json decode H st k h w = Inr x" and "object_verified H st2 w2 \<lparr>ref_kind = k, ref_sha256 = h, ref_byte_length = n\<rparr>"
    and "same_bytes st w st2 w2 \<lparr>ref_kind = k, ref_sha256 = h, ref_byte_length = n\<rparr>"
  shows "read_json decode H st2 k h w2 = Inr x"
  using assms(1) verified_moves [OF assms(2,3)] by (auto simp: read_json_object simp del: max_bytes.simps)

lemma load_descriptor_moves:
  assumes "load_descriptor P H st r w = Inr d"
    and "object_verified H st2 w2 \<lparr>ref_kind = Thread, ref_sha256 = tref_descriptor_sha256 r, ref_byte_length = n\<rparr>"
    and "same_bytes st w st2 w2 \<lparr>ref_kind = Thread, ref_sha256 = tref_descriptor_sha256 r, ref_byte_length = n\<rparr>"
  shows "load_descriptor P H st2 r w2 = Inr d"
  using assms(1) read_json_moves [OF _ assms(2,3)] unfolding load_descriptor_def
  by (auto simp: bindr_eq_Inr_iff)

lemma map_res_cong_ok:
  "map_res f xs = Inr ys \<Longrightarrow> (\<And>x y. x \<in> set xs \<Longrightarrow> f x = Inr y \<Longrightarrow> g x = Inr y) \<Longrightarrow> map_res g xs = Inr ys"
  by (induction xs arbitrary: ys) (auto simp: bindr_eq_Inr_iff)

lemma map_res_total: "(\<And>x. x \<in> set xs \<Longrightarrow> \<exists>y. f x = Inr y) \<Longrightarrow> \<exists>ys. map_res f xs = Inr ys"
  by (induction xs) (auto simp: bindr_eq_Inr_iff)

lemma map_res_agree:
  "map_res f xs = Inr ys \<Longrightarrow> map_res g xs = Inr zs \<Longrightarrow> (\<And>x y z. x \<in> set xs \<Longrightarrow> f x = Inr y \<Longrightarrow> g x = Inr z \<Longrightarrow> y = z) \<Longrightarrow> ys = zs"
  by (induction xs arbitrary: ys zs) (fastforce simp: bindr_eq_Inr_iff)+

lemma map_res_concat_length:
  assumes "map_res f xs = Inr ys" and "\<And>x y. f x = Inr y \<Longrightarrow> of_nat (length y) = n x"
  shows "of_nat (length (concat ys)) = sum_list (map n xs)"
  using assms(1) by (induction xs arbitrary: ys) (auto simp: bindr_eq_Inr_iff assms(2))

lemma manifest_length_sum:
  assumes "validate_chunk_manifest_v4 m = Inr u"
  shows "sum_list (map chunk_byte_length (cm_chunks m)) = cm_byte_length m"
proof -
  have "of_nat (sum_list (map (\<lambda>c. unat (chunk_byte_length c)) cs)) = sum_list (map chunk_byte_length cs)" for cs
    by (induction cs) simp_all
  moreover have "unat (cm_byte_length m) = sum_list (map (\<lambda>c. unat (chunk_byte_length c)) (cm_chunks m))"
    using assms by (simp add: validate_chunk_manifest_iff)
  ultimately show ?thesis by (metis of_nat_unat ucast_id)
qed

lemma whole_materializes:
  assumes "storage c = WholeRef s"
  shows "materialize_content decode H st c w = Inr bs \<longleftrightarrow> object_at st w Whole s = Some bs"
proof (cases "typed_object_path_v4 (store_root st) Whole s")
  case (Inr p)
  then show ?thesis using assms by (simp add: materialize_content_def object_at_def read_file_def)
qed (simp add: materialize_content_def object_at_def assms)

lemma content_complete:
  assumes objs: "content_objects J (parse_manifest P) H st c w = Inr objs"
    and ver: "\<And>r. r \<in> set objs \<Longrightarrow> object_verified H st2 w2 r"
    and same: "\<And>r. r \<in> set objs \<Longrightarrow> same_bytes st w st2 w2 r"
  shows "\<exists>bs. materialize_content (parse_manifest P) H st2 c w2 = Inr bs \<and> of_nat (length bs) = content_byte_length c
    \<and> (\<forall>bs'. materialize_content (parse_manifest P) H st c w = Inr bs' \<longrightarrow> bs' = bs)"
proof (cases "storage c")
  case (WholeRef s)
  let ?r = "\<lparr>ref_kind = Whole, ref_sha256 = s, ref_byte_length = content_byte_length c\<rparr>"
  have r: "?r \<in> set objs" using objs WholeRef by (auto simp: content_objects_def bindr_eq_Inr_iff)
  from ver [OF r] obtain b where b: "object_at st2 w2 Whole s = Some b" "of_nat (length b) = content_byte_length c"
    by (auto elim: object_verifiedE)
  then show ?thesis using same [OF r] unfolding whole_materializes [OF WholeRef] by (auto simp: same_bytes_def)
next
  case (ChunkedRef s)
  from objs ChunkedRef obtain m n where m: "read_json (parse_manifest P) H st ChunkManifest s w = Inr m"
    and v: "validate_chunk_manifest_v4 m = Inr ()" and len: "cm_byte_length m = content_byte_length c"
    and set: "objs = \<lparr>ref_kind = ChunkManifest, ref_sha256 = s, ref_byte_length = n\<rparr>
       # map (\<lambda>x. \<lparr>ref_kind = Chunk, ref_sha256 = chunk_sha256 x, ref_byte_length = chunk_byte_length x\<rparr>) (cm_chunks m)"
    by (auto simp: content_objects_def bindr_eq_Inr_iff Let_def)
  have m2: "read_json (parse_manifest P) H st2 ChunkManifest s w2 = Inr m"
    using read_json_moves [OF m ver same] unfolding set by (meson list.set_intros(1))
  have chunk: "\<lparr>ref_kind = Chunk, ref_sha256 = chunk_sha256 x, ref_byte_length = chunk_byte_length x\<rparr> \<in> set objs"
    if "x \<in> set (cm_chunks m)" for x using that by (auto simp: set)
  have "\<exists>b. read_chunk H st2 w2 x = Inr b" if "x \<in> set (cm_chunks m)" for x
    using ver [OF chunk [OF that]] by (auto simp: read_chunk_object elim!: object_verifiedE)
  then obtain parts where parts: "map_res (read_chunk H st2 w2) (cm_chunks m) = Inr parts" using map_res_total by meson
  have "parts' = parts" if p: "map_res (read_chunk H st w) (cm_chunks m) = Inr parts'" for parts'
    using same [OF chunk] by (intro map_res_agree [OF p parts]) (fastforce simp: read_chunk_object same_bytes_def)
  moreover have "of_nat (length (concat parts)) = content_byte_length c"
    using map_res_concat_length [OF parts, of chunk_byte_length] manifest_length_sum [OF v] len
    by (simp add: read_chunk_object)
  ultimately show ?thesis using ChunkedRef m m2 v parts by (auto simp: materialize_content_def bindr_eq_Inr_iff)
qed

text \<open>
  C25: the graph of a revision is complete. If the graph of a revision root is collected from a store,
  then another store that has every object of the graph, each with the digest and the length the graph
  states (the server after an upload, a desktop after a download), and that agrees with the first one on
  the objects both have (the digests do not collide), has the root under the id of the revision, loads for
  each of its threads the descriptor the first store loads, and materializes every rollout and attachment: to
  bytes of the length of the content, and to those of the first store if that one has all of them itself.
\<close>
theorem revision_graph_complete:
  assumes "collect_revision_graph_v4 J P H uuid_str st root w = Inr graph"
    and "list_all (object_verified H st2 w2) graph"
    and "list_all (same_bytes st w st2 w2) graph"
  shows "\<exists>rid. revision_id J H uuid_str root = Inr rid
    \<and> (\<exists>b. object_at st2 w2 RevisionRoot rid = Some b \<and> digest_bytes_v4 H b = rid)
    \<and> (\<forall>r \<in> set (rv_threads root). \<exists>d. load_descriptor P H st r w = Inr d \<and> load_descriptor P H st2 r w2 = Inr d
        \<and> (\<forall>c \<in> set (sd_rollout d # sd_attachments d).
            \<exists>bs. materialize_content (parse_manifest P) H st2 c w2 = Inr bs
              \<and> of_nat (length bs) = content_byte_length c
              \<and> (\<forall>bs'. materialize_content (parse_manifest P) H st c w = Inr bs' \<longrightarrow> bs' = bs)))"
proof -
  from assms(1) obtain rid len acc where rid: "revision_id J H uuid_str root = Inr rid"
    and f: "foldr_res (graph_thread_step J P H st w) (rv_threads root) (0, []) = Inr acc"
    and g: "set graph = insert \<lparr>ref_kind = RevisionRoot, ref_sha256 = rid, ref_byte_length = len\<rparr> (set (snd acc))"
    by (auto simp: collect_revision_graph_v4_def collect_thread_graph_v4_def bindr_eq_Inr_iff)
  note threads = graph_threads_fold[OF f, THEN conjunct2, rule_format]
  have ver: "object_verified H st2 w2 r" and same: "same_bytes st w st2 w2 r" if "r \<in> set graph" for r
    using assms(2,3) that by (auto simp: list_all_iff)
  have sub: "r \<in> set graph" if "r \<in> set (snd acc)" for r using that g by simp
  have "\<exists>d. load_descriptor P H st r w = Inr d \<and> load_descriptor P H st2 r w2 = Inr d
        \<and> (\<forall>c \<in> set (sd_rollout d # sd_attachments d).
            \<exists>bs. materialize_content (parse_manifest P) H st2 c w2 = Inr bs
              \<and> of_nat (length bs) = content_byte_length c
              \<and> (\<forall>bs'. materialize_content (parse_manifest P) H st c w = Inr bs' \<longrightarrow> bs' = bs))"
    if "r \<in> set (rv_threads root)" for r
  proof -
    from threads[OF that] obtain d n where d: "load_descriptor P H st r w = Inr d"
      "\<lparr>ref_kind = Thread, ref_sha256 = tref_descriptor_sha256 r, ref_byte_length = n\<rparr> \<in> set (snd acc)"
      and c: "\<forall>c \<in> set (sd_rollout d # sd_attachments d). \<exists>objs. content_objects J (parse_manifest P) H st c w = Inr objs
            \<and> set objs \<subseteq> set (snd acc)" by blast
    have "load_descriptor P H st2 r w2 = Inr d" using load_descriptor_moves[OF d(1) ver same] d(2) sub by blast
    moreover have "\<exists>bs. materialize_content (parse_manifest P) H st2 c w2 = Inr bs \<and> of_nat (length bs) = content_byte_length c
        \<and> (\<forall>bs'. materialize_content (parse_manifest P) H st c w = Inr bs' \<longrightarrow> bs' = bs)"
      if "c \<in> set (sd_rollout d # sd_attachments d)" for c
    proof -
      from c that obtain objs where o: "content_objects J (parse_manifest P) H st c w = Inr objs" "set objs \<subseteq> set (snd acc)"
        by blast
      show ?thesis by (rule content_complete [OF o(1)]) (use o(2) sub ver same in blast)+
    qed
    ultimately show ?thesis using d(1) by blast
  qed
  moreover have "\<exists>b. object_at st2 w2 RevisionRoot rid = Some b \<and> digest_bytes_v4 H b = rid"
    using ver [of "\<lparr>ref_kind = RevisionRoot, ref_sha256 = rid, ref_byte_length = len\<rparr>"] g
    by (auto simp: object_verified_def split: option.splits)
  ultimately show ?thesis using rid by blast
qed

definition toy_parsers :: parsers where
  "toy_parsers = \<lparr>parse_manifest = \<lambda>_. None, parse_descriptor = \<lambda>_. Some (described stored_contents stored_thread),
    parse_overlay = \<lambda>_. None, parse_snapshot_root = \<lambda>_. None, parse_revision_root = \<lambda>_. None\<rparr>"

definition toy_namespace :: uuid where
  "toy_namespace = 528905046081400263933952"

lemma toy_namespace_version: "uuid_version toy_namespace = 7"
  by (simp add: uuid_version_def toy_namespace_def drop_bit_eq_div unat_div)

definition toy_digest :: string where
  "toy_digest = digest_bytes_v4 toy_hash []"

lemma toy_digest_any: "digest_bytes_v4 toy_hash b = toy_digest"
  by (simp add: toy_digest_def digest_bytes_v4_def toy_hash_def)

lemma toy_digest_valid: "valid_id toy_digest"
  unfolding toy_digest_def by (rule valid_id_digest[OF toy_hash_hex])

definition toy_ref :: thread_ref_v4 where
  "toy_ref = \<lparr>tref_thread_id = ''a'', tref_descriptor_sha256 = toy_digest\<rparr>"

definition toy_root :: revision_root_v4 where
  "toy_root = \<lparr>rv_schema_version = 4, rv_normalization_schema_version = 1, rv_namespace_id = toy_namespace,
     rv_parent_revision = None, rv_created_at = ''t'', rv_threads = [toy_ref], rv_warning_count = 0\<rparr>"

lemma toy_digest_ok: "validate_sha256_v4 toy_digest = Inr ()"
  by (simp add: toy_digest_valid)

lemma toy_root_valid: "validate_revision_root toy_root = Inr ()"
  by (simp add: toy_digest_ok validate_revision_root_def toy_root_def NORMALIZATION_SCHEMA_VERSION_V4_def toy_namespace_version
      validate_thread_refs_v4_def index_with_def toy_ref_def toy_not_blank toy_digest_valid)

text \<open>A revision with one thread whose rollout is stored in two chunks of one byte. The source has the root,
  the descriptor and the manifest and lost the chunk; the other store, in another directory, has all.\<close>

definition chunked_content :: content_ref_v4 where
  "chunked_content = \<lparr>logical_sha256 = toy_digest, content_byte_length = 2, storage = ChunkedRef toy_digest,
     media_type = ''m'', logical_path = None\<rparr>"

definition chunked_contents :: "(string, content_ref_v4) btree_map" where
  "chunked_contents = [(''a'', chunked_content)]"

definition chunked_thread :: thread_bundle where
  "chunked_thread = (toy_thread ''a'' ''1'')\<lparr>rollout := content_object_from_ref_v4 chunked_content\<rparr>"

definition chunked_manifest :: chunk_manifest_v4 where
  "chunked_manifest = \<lparr>cm_schema_version = 4, cm_logical_sha256 = toy_digest, cm_byte_length = 2, cm_chunk_size = 1,
     cm_chunks = replicate 2 \<lparr>chunk_sha256 = toy_digest, chunk_byte_length = 1\<rparr>\<rparr>"

definition graph_parsers :: parsers where
  "graph_parsers = \<lparr>parse_manifest = \<lambda>_. Some chunked_manifest,
    parse_descriptor = \<lambda>_. Some (described chunked_contents chunked_thread),
    parse_overlay = \<lambda>_. None, parse_snapshot_root = \<lambda>_. None, parse_revision_root = \<lambda>_. None\<rparr>"

definition graph_files :: "(storage_object_kind_v4 \<times> bytes) list" where
  "graph_files = [(RevisionRoot, ''root''), (Thread, ''thread''),
     (ChunkManifest, write_canonical_json_v4 toy_text (chunk_manifest_json chunked_manifest)), (Chunk, ''x'')]"

definition graph_world :: "content_store_v4 \<Rightarrow> (storage_object_kind_v4 \<times> bytes) list \<Rightarrow> world" where
  "graph_world st objs = \<lparr>files = map_of (map (\<lambda>(k, b). (projr (typed_object_path_v4 (store_root st) k toy_digest), b)) objs),
     ticks = 0\<rparr>"

definition other_store :: content_store_v4 where
  "other_store = toy_store\<lparr>store_root := [''q'']\<rparr>"

lemma graph_instance:
  "case collect_revision_graph_v4 toy_text graph_parsers toy_hash (\<lambda>_. ''u'') toy_store toy_root
       (graph_world toy_store (butlast graph_files)) of
     Inl _ \<Rightarrow> False
   | Inr graph \<Rightarrow> list_all (object_verified toy_hash other_store (graph_world other_store graph_files)) graph
       \<and> list_all (same_bytes toy_store (graph_world toy_store (butlast graph_files))
           other_store (graph_world other_store graph_files)) graph"
  by code_simp

lemma chunked_described:
  "sd_rollout (described chunked_contents chunked_thread) = chunked_content"
  "load_descriptor graph_parsers toy_hash toy_store toy_ref (graph_world toy_store (butlast graph_files))
     = Inr (described chunked_contents chunked_thread)"
  "\<not> is_ok (materialize_content (parse_manifest graph_parsers) toy_hash toy_store chunked_content
     (graph_world toy_store (butlast graph_files)))"
  by code_simp+

theorem revision_graph_complete_witness:
  "\<exists>bs. \<not> is_ok (materialize_content (parse_manifest graph_parsers) toy_hash toy_store chunked_content
       (graph_world toy_store (butlast graph_files)))
     \<and> load_descriptor graph_parsers toy_hash other_store toy_ref (graph_world other_store graph_files)
         = Inr (described chunked_contents chunked_thread)
     \<and> materialize_content (parse_manifest graph_parsers) toy_hash other_store chunked_content
         (graph_world other_store graph_files) = Inr bs
     \<and> of_nat (length bs) = (2 :: u64)"
proof -
  from graph_instance obtain graph where
    g: "collect_revision_graph_v4 toy_text graph_parsers toy_hash (\<lambda>_. ''u'') toy_store toy_root
      (graph_world toy_store (butlast graph_files)) = Inr graph"
    "list_all (object_verified toy_hash other_store (graph_world other_store graph_files)) graph"
    "list_all (same_bytes toy_store (graph_world toy_store (butlast graph_files))
      other_store (graph_world other_store graph_files)) graph"
    by (auto split: sum.splits)
  have r: "toy_ref \<in> set (rv_threads toy_root)" "content_byte_length chunked_content = 2"
    by (simp_all add: toy_root_def chunked_content_def)
  from revision_graph_complete[OF g] r chunked_described show ?thesis by fastforce
qed

end
