(* ===== verification/Disk.thy ===== *)
theory Disk
  imports ContentOps
begin

text \<open>
  The file system as \<open>std::fs\<close> shows it to the repository's maintenance code: a volume lists the
  entries under their paths in directory order, a disk adds a clock that advances with every call.
  Every call may fail at its tick, after a partial effect where the call is not atomic (a write, a
  recursive removal); a crash is an environment in which all calls from some tick on fail. An
  operation of type \<open>'a io\<close> returns its result together with the disk it leaves, also when it fails.
\<close>

section \<open>Volumes\<close>

datatype entry = FileEntry bytes | DirEntry

type_synonym volume = "(path \<times> entry) list"

definition entry_at :: "volume \<Rightarrow> path \<Rightarrow> entry option" where
  "entry_at v p = map_of v p"

definition exists_at :: "volume \<Rightarrow> path \<Rightarrow> bool" where
  "exists_at v p \<longleftrightarrow> p = [] \<or> entry_at v p \<noteq> None"

definition dir_at :: "volume \<Rightarrow> path \<Rightarrow> bool" where
  "dir_at v p \<longleftrightarrow> p = [] \<or> entry_at v p = Some DirEntry"

definition file_at :: "volume \<Rightarrow> path \<Rightarrow> bytes option" where
  "file_at v p = (case entry_at v p of Some (FileEntry b) \<Rightarrow> Some b | _ \<Rightarrow> None)"

definition under :: "path \<Rightarrow> path \<Rightarrow> bool" where
  "under p q \<longleftrightarrow> take (length p) q = p"

definition read_dir :: "volume \<Rightarrow> path \<Rightarrow> string + string list" where
  "read_dir v p =
     bindr (ensure (dir_at v p) ''Not a directory'') (\<lambda>_.
       Inr (remdups (map (\<lambda>(q, _). last q) (filter (\<lambda>(q, _). q \<noteq> [] \<and> butlast q = p) v))))"

definition set_entry :: "path \<Rightarrow> entry \<Rightarrow> volume \<Rightarrow> volume" where
  "set_entry p e v = (p, e) # filter (\<lambda>(q, _). q \<noteq> p) v"

definition drop_under :: "path \<Rightarrow> volume \<Rightarrow> volume" where
  "drop_under p v = filter (\<lambda>(q, _). \<not> under p q) v"

definition move_entry :: "path \<Rightarrow> path \<Rightarrow> path \<times> entry \<Rightarrow> path \<times> entry" where
  "move_entry s d x = (if under s (fst x) then d @ drop (length s) (fst x) else fst x, snd x)"

definition world_of :: "volume \<Rightarrow> world" where
  "world_of v = \<lparr>files = file_at v, ticks = 0\<rparr>"

text \<open>The calls: each is the change of a volume or an error.\<close>

definition fs_write :: "path \<Rightarrow> bytes \<Rightarrow> volume \<Rightarrow> string + volume" where
  "fs_write p b v =
     bindr (ensure (dir_at v (butlast p)) ''No such file or directory'') (\<lambda>_.
     bindr (ensure (\<not> dir_at v p) ''Is a directory'') (\<lambda>_.
       Inr (set_entry p (FileEntry b) v)))"

definition fs_create_new :: "path \<Rightarrow> volume \<Rightarrow> string + volume" where
  "fs_create_new p v =
     bindr (ensure (\<not> exists_at v p) ''File exists'') (\<lambda>_. fs_write p [] v)"

definition make_dir :: "path \<Rightarrow> volume \<Rightarrow> string + volume" where
  "make_dir p v =
     (case entry_at v p of
        None \<Rightarrow> Inr (set_entry p DirEntry v)
      | Some DirEntry \<Rightarrow> Inr v
      | Some (FileEntry _) \<Rightarrow> Inl ''Not a directory'')"

definition fs_create_dir_all :: "path \<Rightarrow> volume \<Rightarrow> string + volume" where
  "fs_create_dir_all p v = foldr_res make_dir (map (\<lambda>n. take (Suc n) p) [0..<length p]) v"

definition fs_rename :: "path \<Rightarrow> path \<Rightarrow> volume \<Rightarrow> string + volume" where
  "fs_rename s d v =
     bindr (ensure (s \<noteq> [] \<and> d \<noteq> []) ''Device or resource busy'') (\<lambda>_.
     bindr (ok_or ''No such file or directory'' (entry_at v s)) (\<lambda>e.
     bindr (ensure (dir_at v (butlast d)) ''No such file or directory'') (\<lambda>_.
     if s = d then Inr v
     else
       bindr (ensure (\<not> under s d) ''Invalid argument'') (\<lambda>_.
       bindr (case entry_at v d of
                None \<Rightarrow> Inr ()
              | Some (FileEntry _) \<Rightarrow> ensure (e \<noteq> DirEntry) ''Not a directory''
              | Some DirEntry \<Rightarrow> bindr (ensure (e = DirEntry) ''Is a directory'') (\<lambda>_.
                  ensure (\<not> list_ex (\<lambda>(q, _). under d q \<and> q \<noteq> d) v) ''Directory not empty'')) (\<lambda>_.
         Inr (map (move_entry s d) (drop_under d v)))))))"

definition fs_remove_file :: "path \<Rightarrow> volume \<Rightarrow> string + volume" where
  "fs_remove_file p v =
     bindr (ensure (file_at v p \<noteq> None) ''No such file'') (\<lambda>_. Inr (filter (\<lambda>(q, _). q \<noteq> p) v))"

definition fs_remove_dir :: "path \<Rightarrow> volume \<Rightarrow> string + volume" where
  "fs_remove_dir p v =
     bindr (ensure (p \<noteq> [] \<and> dir_at v p) ''Not a directory'') (\<lambda>_.
     bindr (ensure (\<not> list_ex (\<lambda>(q, _). under p q \<and> q \<noteq> p) v) ''Directory not empty'') (\<lambda>_.
       Inr (filter (\<lambda>(q, _). q \<noteq> p) v)))"

definition fs_remove_dir_all :: "path \<Rightarrow> volume \<Rightarrow> string + volume" where
  "fs_remove_dir_all p v =
     bindr (ensure (p \<noteq> [] \<and> dir_at v p) ''Not a directory'') (\<lambda>_. Inr (drop_under p v))"

text \<open>A recursive removal interrupted after \<open>n\<close> deletions has removed the deepest entries first.\<close>

definition remove_some :: "path \<Rightarrow> nat \<Rightarrow> volume \<Rightarrow> volume" where
  "remove_some p n v =
     (let victims = take n (rev (sort_key length (filter (under p) (map fst v))))
      in filter (\<lambda>(q, _). q \<notin> set victims) v)"

section \<open>Operations with effects\<close>

record disk =
  volume_of :: volume
  clock :: nat

type_synonym faults = "nat \<Rightarrow> (string \<times> nat) option"
type_synonym 'a io = "faults \<Rightarrow> disk \<Rightarrow> (string + 'a) \<times> disk"

definition lift_res :: "string + 'a \<Rightarrow> 'a io" where
  "lift_res r F d = (r, d)"

abbreviation return_io :: "'a \<Rightarrow> 'a io" where
  "return_io a \<equiv> lift_res (Inr a)"

definition bind_io :: "'a io \<Rightarrow> ('a \<Rightarrow> 'b io) \<Rightarrow> 'b io" where
  "bind_io m f F d = (case m F d of (Inl e, d') \<Rightarrow> (Inl e, d') | (Inr a, d') \<Rightarrow> f a F d')"

text \<open>A handler sees the error and the disk the failing operation left.\<close>

definition catch_io :: "'a io \<Rightarrow> (string \<Rightarrow> 'a io) \<Rightarrow> 'a io" where
  "catch_io m h F d = (case m F d of (Inl e, d') \<Rightarrow> h e F d' | (Inr a, d') \<Rightarrow> (Inr a, d'))"

definition perform :: "(volume \<Rightarrow> string + ('a \<times> volume)) \<Rightarrow> (nat \<Rightarrow> volume \<Rightarrow> volume) \<Rightarrow> 'a io" where
  "perform op partial_effect F d =
     (case F (clock d) of
        Some (e, n) \<Rightarrow> (Inl e, \<lparr>volume_of = partial_effect n (volume_of d), clock = Suc (clock d)\<rparr>)
      | None \<Rightarrow> (case op (volume_of d) of
            Inl e \<Rightarrow> (Inl e, \<lparr>volume_of = volume_of d, clock = Suc (clock d)\<rparr>)
          | Inr (a, v) \<Rightarrow> (Inr a, \<lparr>volume_of = v, clock = Suc (clock d)\<rparr>)))"

definition atomic_io :: "(volume \<Rightarrow> string + volume) \<Rightarrow> unit io" where
  "atomic_io op = perform (\<lambda>v. bindr (op v) (\<lambda>v'. Inr ((), v'))) (\<lambda>_ v. v)"

definition read_io :: "(volume \<Rightarrow> string + 'a) \<Rightarrow> 'a io" where
  "read_io f = perform (\<lambda>v. bindr (f v) (\<lambda>a. Inr (a, v))) (\<lambda>_ v. v)"

definition write_io :: "path \<Rightarrow> bytes \<Rightarrow> unit io" where
  "write_io p b = perform (\<lambda>v. bindr (fs_write p b v) (\<lambda>v'. Inr ((), v')))
     (\<lambda>n v. case fs_write p (take n b) v of Inl _ \<Rightarrow> v | Inr v' \<Rightarrow> v')"

definition create_dir_all_io :: "path \<Rightarrow> unit io" where
  "create_dir_all_io p = perform (\<lambda>v. bindr (fs_create_dir_all p v) (\<lambda>v'. Inr ((), v')))
     (\<lambda>n v. case fs_create_dir_all (take n p) v of Inl _ \<Rightarrow> v | Inr v' \<Rightarrow> v')"

definition remove_dir_all_io :: "path \<Rightarrow> unit io" where
  "remove_dir_all_io p = perform (\<lambda>v. bindr (fs_remove_dir_all p v) (\<lambda>v'. Inr ((), v'))) (remove_some p)"

text \<open>What the clock decides: the time stamp or the fresh identifier taken at a tick.\<close>

definition ask_io :: "(nat \<Rightarrow> 'a) \<Rightarrow> 'a io" where
  "ask_io f F d = (Inr (f (clock d)), d\<lparr>clock := Suc (clock d)\<rparr>)"

fun foreach_io :: "('a \<Rightarrow> 's \<Rightarrow> 's io) \<Rightarrow> 'a list \<Rightarrow> 's \<Rightarrow> 's io" where
  "foreach_io f [] s = return_io s"
| "foreach_io f (x # xs) s = bind_io (f x s) (foreach_io f xs)"

section \<open>Lookups after a call\<close>

lemma entry_at_filter: "entry_at (filter (\<lambda>(q, _). P q) v) p = (if P p then entry_at v p else None)"
  by (induction v) (auto simp: entry_at_def)

lemma entry_at_set: "entry_at (set_entry p e v) q = (if q = p then Some e else entry_at v q)"
  using entry_at_filter[of "\<lambda>q. q \<noteq> p" v q] by (auto simp: set_entry_def entry_at_def)

lemma entry_at_drop: "entry_at (drop_under p v) q = (if under p q then None else entry_at v q)"
  unfolding drop_under_def entry_at_filter by simp

lemma entry_at_remove_some:
  "entry_at (remove_some p n v) q = entry_at v q \<or> (under p q \<and> entry_at (remove_some p n v) q = None)"
proof -
  have "set (take n (rev (sort_key length (filter (under p) (map fst v))))) \<subseteq> Collect (under p)"
    by (auto dest!: in_set_takeD)
  then show ?thesis unfolding remove_some_def Let_def entry_at_filter by auto
qed

lemma under_append [simp]: "under p (p @ t)"
  by (simp add: under_def)

lemma under_iff: "under p q \<longleftrightarrow> (\<exists>t. q = p @ t)"
  unfolding under_def by (metis append_eq_conv_conj append_take_drop_id)

lemma under_refl [simp]: "under p p"
  by (simp add: under_def)

lemma entry_at_moved:
  assumes "\<not> under s d" "\<not> under d s"
  shows "entry_at (map (move_entry s d) (drop_under d v)) q =
    (if under d q then entry_at v (s @ drop (length d) q) else if under s q then None else entry_at v q)"
proof (induction v)
  case Nil
  then show ?case by (simp add: entry_at_def drop_under_def)
next
  case (Cons x v)
  obtain p e where x: "x = (p, e)" by (cases x)
  have no: "\<not> (under s p \<and> under d p)" using assms unfolding under_iff by (auto simp: append_eq_append_conv2)
  show ?case
  proof (cases "under d p")
    case True
    then have "drop_under d (x # v) = drop_under d v" by (simp add: drop_under_def x)
    moreover have "q \<noteq> p" if "\<not> under d q" using True that by auto
    moreover have "s @ drop (length d) q \<noteq> p" using no True by (metis under_append)
    ultimately show ?thesis using Cons by (auto simp: entry_at_def x)
  next
    case False
    then have step: "drop_under d (x # v) = x # drop_under d v" by (simp add: drop_under_def x)
    show ?thesis
    proof (cases "under s p")
      case True
      then obtain t where t: "p = s @ t" by (auto simp: under_iff)
      have "move_entry s d x = (d @ t, e)" using True t by (simp add: move_entry_def x)
      moreover have "q = d @ t \<longleftrightarrow> under d q \<and> s @ drop (length d) q = p"
        unfolding under_iff t by auto
      ultimately show ?thesis using Cons t unfolding step by (auto simp: entry_at_def x)
    next
      case ns: False
      then have "move_entry s d x = (p, e)" by (simp add: move_entry_def x)
      moreover have "s @ drop (length d) q \<noteq> p" using ns by (metis under_append)
      ultimately show ?thesis using Cons False ns unfolding step by (auto simp: entry_at_def x)
    qed
  qed
qed

lemma fs_write_entry:
  "fs_write p b v = Inr v' \<Longrightarrow> entry_at v' q = (if q = p then Some (FileEntry b) else entry_at v q)"
  by (auto simp: fs_write_def bindr_eq_Inr_iff entry_at_set)

lemma fs_create_new_entry:
  "fs_create_new p v = Inr v' \<Longrightarrow> entry_at v' q = (if q = p then Some (FileEntry []) else entry_at v q)"
  by (auto simp: fs_create_new_def bindr_eq_Inr_iff fs_write_entry)

lemma make_dir_entry:
  "make_dir p v = Inr v' \<Longrightarrow> entry_at v' q = (if q = p then Some DirEntry else entry_at v q)"
  by (auto simp: make_dir_def entry_at_set split: option.splits entry.splits)

text \<open>\<open>create_dir_all\<close> only adds directories, on the way to its path.\<close>

lemma fs_create_dir_all_entry:
  assumes "fs_create_dir_all p v = Inr v'"
  shows "entry_at v' q = entry_at v q \<or> (entry_at v q = None \<and> entry_at v' q = Some DirEntry \<and> under q p)"
proof -
  have step: "entry_at b q = entry_at a q \<or> (entry_at a q = None \<and> entry_at b q = Some DirEntry \<and> q = x)"
    if "make_dir x a = Inr b" for x a b
    using that by (cases "q = x") (auto simp: make_dir_def entry_at_set split: option.splits entry.splits)
  have "entry_at v' q = entry_at v q \<or> (entry_at v q = None \<and> entry_at v' q = Some DirEntry \<and> q \<in> set xs)"
    if "foldr_res make_dir xs v = Inr v'" for xs
    using that
  proof (induction xs arbitrary: v)
    case (Cons x xs)
    then obtain u where u: "make_dir x v = Inr u" "foldr_res make_dir xs u = Inr v'"
      by (auto simp: bindr_eq_Inr_iff)
    from Cons.IH[OF u(2)] step[OF u(1)] show ?case by auto
  qed simp
  from this[OF assms[unfolded fs_create_dir_all_def]] show ?thesis
    by (auto simp: under_def min_def)
qed

lemma fs_rename_entry:
  assumes "fs_rename s d v = Inr v'" "s \<noteq> d" "\<not> under d s"
  shows "entry_at v' q =
    (if under d q then entry_at v (s @ drop (length d) q) else if under s q then None else entry_at v q)"
proof -
  from assms have "\<not> under s d" "v' = map (move_entry s d) (drop_under d v)"
    by (auto simp: fs_rename_def bindr_eq_Inr_iff)
  with entry_at_moved[OF _ assms(3)] show ?thesis by simp
qed

lemma fs_remove_file_entry:
  "fs_remove_file p v = Inr v' \<Longrightarrow> entry_at v' q = (if q = p then None else entry_at v q)"
  by (auto simp: fs_remove_file_def bindr_eq_Inr_iff entry_at_filter)

lemma fs_remove_dir_entry:
  "fs_remove_dir p v = Inr v' \<Longrightarrow> entry_at v' q = (if q = p then None else entry_at v q)"
  by (auto simp: fs_remove_dir_def bindr_eq_Inr_iff entry_at_filter)

lemma fs_remove_dir_all_entry:
  "fs_remove_dir_all p v = Inr v' \<Longrightarrow> entry_at v' q = (if under p q then None else entry_at v q)"
  by (auto simp: fs_remove_dir_all_def bindr_eq_Inr_iff entry_at_drop)

section \<open>Invariants of operations\<close>

text \<open>\<open>keeps I m\<close>: whatever fails, the operation takes volumes with \<open>I\<close> to volumes with \<open>I\<close>.\<close>

definition keeps :: "(volume \<Rightarrow> bool) \<Rightarrow> 'a io \<Rightarrow> bool" where
  "keeps I m \<longleftrightarrow> (\<forall>F d. I (volume_of d) \<longrightarrow> I (volume_of (snd (m F d))))"

named_theorems keeps_rules \<open>preservation of a volume invariant\<close>

lemma keeps_lift [keeps_rules]: "keeps I (lift_res r)"
  by (simp add: keeps_def lift_res_def)

lemma keeps_ask [keeps_rules]: "keeps I (ask_io f)"
  by (simp add: keeps_def ask_io_def)

lemma keeps_bind [keeps_rules]: "keeps I m \<Longrightarrow> (\<And>a. keeps I (f a)) \<Longrightarrow> keeps I (bind_io m f)"
  unfolding keeps_def bind_io_def
  by (simp split: prod.splits sum.splits) (metis prod.exhaust_sel snd_conv)

lemma keeps_catch [keeps_rules]: "keeps I m \<Longrightarrow> (\<And>e. keeps I (h e)) \<Longrightarrow> keeps I (catch_io m h)"
  unfolding keeps_def catch_io_def
  by (simp split: prod.splits sum.splits) (metis prod.exhaust_sel snd_conv)

lemma keeps_foreach [keeps_rules]: "(\<And>x s. x \<in> set xs \<Longrightarrow> keeps I (f x s)) \<Longrightarrow> keeps I (foreach_io f xs s)"
  by (induction xs arbitrary: s) (auto intro: keeps_rules)

lemma keeps_if [keeps_rules]: "(b \<Longrightarrow> keeps I m) \<Longrightarrow> (\<not> b \<Longrightarrow> keeps I n) \<Longrightarrow> keeps I (if b then m else n)"
  by simp

lemma keeps_perform:
  "(\<And>v a v'. I v \<Longrightarrow> op v = Inr (a, v') \<Longrightarrow> I v') \<Longrightarrow> (\<And>n v. I v \<Longrightarrow> I (p n v)) \<Longrightarrow> keeps I (perform op p)"
  by (auto simp: keeps_def perform_def split: option.splits sum.splits)

lemma keeps_read [keeps_rules]: "keeps I (read_io f)"
  unfolding read_io_def by (rule keeps_perform) (auto simp: bindr_eq_Inr_iff)

lemma keeps_atomic: "(\<And>v v'. I v \<Longrightarrow> op v = Inr v' \<Longrightarrow> I v') \<Longrightarrow> keeps I (atomic_io op)"
  unfolding atomic_io_def by (rule keeps_perform) (auto simp: bindr_eq_Inr_iff)

lemma keeps_write: "(\<And>v v' c. I v \<Longrightarrow> fs_write p c v = Inr v' \<Longrightarrow> I v') \<Longrightarrow> keeps I (write_io p b)"
  unfolding write_io_def by (rule keeps_perform) (auto simp: bindr_eq_Inr_iff split: sum.splits)

lemma keeps_create_dir_all:
  "(\<And>v v' n. I v \<Longrightarrow> fs_create_dir_all (take n p) v = Inr v' \<Longrightarrow> I v') \<Longrightarrow> keeps I (create_dir_all_io p)"
  unfolding create_dir_all_io_def
  by (rule keeps_perform) (auto simp: bindr_eq_Inr_iff split: sum.splits, metis take_all_iff order_refl)

lemma keeps_remove_dir_all:
  "(\<And>v v'. I v \<Longrightarrow> fs_remove_dir_all p v = Inr v' \<Longrightarrow> I v') \<Longrightarrow> (\<And>n v. I v \<Longrightarrow> I (remove_some p n v)) \<Longrightarrow>
     keeps I (remove_dir_all_io p)"
  unfolding remove_dir_all_io_def by (rule keeps_perform) (auto simp: bindr_eq_Inr_iff)

section \<open>Successful runs\<close>

lemma bind_io_Inr: "bind_io m f F d = (Inr b, d') \<longleftrightarrow> (\<exists>a d1. m F d = (Inr a, d1) \<and> f a F d1 = (Inr b, d'))"
  by (auto simp: bind_io_def split: prod.splits sum.splits)

lemma bind_io_run:
  assumes "bind_io m f F d = (Inr b, d')"
  obtains a d1 where "m F d = (Inr a, d1)" "f a F d1 = (Inr b, d')"
  using assms by (auto simp: bind_io_Inr)

lemma lift_res_run: "lift_res r F d = (Inr a, d') \<longleftrightarrow> r = Inr a \<and> d' = d"
  by (auto simp: lift_res_def)

lemma read_io_run: "read_io f F d = (Inr a, d') \<Longrightarrow> f (volume_of d) = Inr a \<and> volume_of d' = volume_of d"
  by (auto simp: read_io_def perform_def bindr_eq_Inr_iff split: option.splits sum.splits prod.splits)

lemma ask_io_run: "ask_io f F d = (Inr a, d') \<Longrightarrow> volume_of d' = volume_of d"
  by (auto simp: ask_io_def)

end
