(* ===== verification/Repository.thy ===== *)
theory Repository
  imports Disk Snapshots
begin

text \<open>
  The v4 repository directory of storage\_v4.rs: its format marker and layout, the objects it
  lists, the roots that keep objects alive (snapshots, local trash, revision roots), the garbage
  collection plan and the storage summary. Parsers of serde and \<open>Uuid::parse_str\<close> are parameters.
\<close>

record format_marker_v4 =
  fm_format :: string
  fm_storage_protocol_version :: u32
  fm_normalization_schema_version :: u32

record snapshot_trash_entry =
  te_operation_id :: string
  te_snapshot_id :: string
  te_trashed_at :: string
  te_original_manifest_path :: path
  te_trash_manifest_path :: path

record local_trash_purge_plan_v4 =
  pp_schema_version :: u32
  pp_created_at :: string
  pp_operation_ids :: "string list"
  pp_trash_entry_count :: nat
  pp_candidate_objects :: "storage_object_ref_v4 list"
  pp_object_reclaimable_bytes :: u64
  pp_trash_metadata_bytes :: u64
  pp_retained_shared_bytes :: u64
  pp_plan_fingerprint :: string

datatype local_trash_purge_status_v4 =
  Preparing | EntriesStaged | Committed | ObjectsStaged | Completed | RolledBack

record local_trash_purge_journal_v4 =
  pj_schema_version :: u32
  pj_operation_id :: string
  pj_status :: local_trash_purge_status_v4
  pj_repository_root :: path
  pj_staging_root :: path
  pj_plan :: local_trash_purge_plan_v4
  pj_created_at :: string
  pj_updated_at :: string
  pj_error :: "string option"

record repository_lib =
  rl_json :: json_lib
  rl_parsers :: parsers
  rl_hash :: "bytes \<Rightarrow> string"
  rl_format :: "bytes \<Rightarrow> format_marker_v4 option"
  rl_trash_entry :: "bytes \<Rightarrow> snapshot_trash_entry option"
  rl_journal :: "bytes \<Rightarrow> local_trash_purge_journal_v4 option"
  rl_is_uuid :: "string \<Rightarrow> bool"
  rl_now :: "nat \<Rightarrow> string"
  rl_new_uuid :: "nat \<Rightarrow> string"

section \<open>File names\<close>

text \<open>\<open>Path::extension\<close> splits at the last dot that is not the first character.\<close>

definition split_extension :: "string \<Rightarrow> string \<times> string option" where
  "split_extension name =
     (let ext = takeWhile (\<lambda>c. c \<noteq> CHR ''.'') (rev name);
          rest = drop (Suc (length ext)) (rev name)
      in if rest = [] then (name, None) else (rev rest, Some (rev ext)))"

definition with_extension :: "string \<Rightarrow> path \<Rightarrow> path" where
  "with_extension ext p = butlast p @ [fst (split_extension (last p)) @ ''.'' @ ext]"

definition is_json :: "string \<Rightarrow> bool" where
  "is_json name \<longleftrightarrow> snd (split_extension name) = Some ''json''"

section \<open>Roots on disk\<close>

definition write_root_io :: "repository_lib \<Rightarrow> path \<Rightarrow> json \<Rightarrow> unit io" where
  "write_root_io L p value =
     (let bs = write_canonical_json_v4 (rl_json L) value; temp = with_extension ''tmp'' p in
      bind_io (if p = [] then return_io () else create_dir_all_io (butlast p)) (\<lambda>_.
      bind_io (write_io temp bs) (\<lambda>_. atomic_io (fs_rename temp p))))"

definition V4_FORMAT_MARKER :: string where "V4_FORMAT_MARKER = ''codex-session-sync-v4''"

definition format_json :: "format_marker_v4 \<Rightarrow> json" where
  "format_json m = JObject (bt_of_list [(''format'', JString (fm_format m)),
     (''storageProtocolVersion'', json_u64 (ucast (fm_storage_protocol_version m))),
     (''normalizationSchemaVersion'', json_u64 (ucast (fm_normalization_schema_version m)))])"

definition repository_directories :: "path list" where
  "repository_directories =
     [[''objects'', ''whole'', ''sha256''], [''objects'', ''chunks'', ''sha256''],
      [''objects'', ''chunk-manifests'', ''sha256''], [''objects'', ''threads'', ''sha256''],
      [''objects'', ''revision-roots'', ''sha256''], [''objects'', ''snapshot-overlays'', ''sha256''],
      [''objects'', ''tmp''], [''snapshots''], [''metadata'', ''snapshots''], [''index''], [''tracking''],
      [''backups''], [''journal''], [''trash'', ''snapshots''], [''trash'', ''gc''], [''quarantine'']]"

definition initialize_v4_repository :: "repository_lib \<Rightarrow> path \<Rightarrow> unit io" where
  "initialize_v4_repository L root =
     bind_io (create_dir_all_io root) (\<lambda>_.
     let marker_path = root @ [''format.json''] in
     bind_io (read_io (\<lambda>v. Inr (exists_at v marker_path))) (\<lambda>found.
     bind_io
       (if found then
          bind_io (read_io (\<lambda>v. bindr (read_file (world_of v) marker_path) (\<lambda>bs.
            ok_or ''invalid repository format marker'' (rl_format L bs)))) (\<lambda>marker.
            lift_res (ensure (\<not> (fm_format marker \<noteq> V4_FORMAT_MARKER
                  \<or> fm_storage_protocol_version marker \<noteq> STORAGE_PROTOCOL_VERSION_V4
                  \<or> fm_normalization_schema_version marker \<noteq> NORMALIZATION_SCHEMA_VERSION_V4))
              ''repository uses an incompatible storage format; v3 and earlier formats are not supported''))
        else
          (let marker = \<lparr>fm_format = V4_FORMAT_MARKER, fm_storage_protocol_version = STORAGE_PROTOCOL_VERSION_V4,
                 fm_normalization_schema_version = NORMALIZATION_SCHEMA_VERSION_V4\<rparr>;
               temp = root @ [''format.json.tmp''] in
           bind_io (write_io temp (write_canonical_json_v4 (rl_json L) (format_json marker))) (\<lambda>_.
             atomic_io (fs_rename temp marker_path)))) (\<lambda>_.
       foreach_io (\<lambda>dir _. create_dir_all_io (root @ dir)) repository_directories ())))"

definition verify_v4_repository :: "repository_lib \<Rightarrow> path \<Rightarrow> volume \<Rightarrow> string + format_marker_v4" where
  "verify_v4_repository L root v =
     bindr (read_file (world_of v) (root @ [''format.json''])) (\<lambda>bs.
     bindr (ok_or ''missing or invalid v4 format marker'' (rl_format L bs)) (\<lambda>marker.
     bindr (ensure (\<not> (fm_format marker \<noteq> V4_FORMAT_MARKER
              \<or> fm_storage_protocol_version marker \<noteq> STORAGE_PROTOCOL_VERSION_V4))
        ''repository is not a compatible v4 repository'') (\<lambda>_. Inr marker)))"

definition store_at :: "path \<Rightarrow> content_store_v4" where
  "store_at root = \<lparr>store_root = root, store_chunk_size = CHUNK_SIZE_V4\<rparr>"

definition open_store :: "repository_lib \<Rightarrow> path \<Rightarrow> content_store_v4 io" where
  "open_store L root = bind_io (initialize_v4_repository L root) (\<lambda>_. return_io (store_at root))"

definition open_with_chunk_size :: "repository_lib \<Rightarrow> path \<Rightarrow> u32 \<Rightarrow> content_store_v4 io" where
  "open_with_chunk_size L root chunk_size =
     bind_io (lift_res (with_chunk_size root chunk_size)) (\<lambda>st.
     bind_io (open_store L root) (\<lambda>_. return_io st))"

section \<open>Objects a root keeps alive\<close>

definition reference_objects ::
  "repository_lib \<Rightarrow> content_store_v4 \<Rightarrow> world \<Rightarrow> thread_ref_v4 \<Rightarrow> string + storage_object_ref_v4 list" where
  "reference_objects L st w reference =
     bindr (read_json (parse_descriptor (rl_parsers L)) (rl_hash L) st Thread (tref_descriptor_sha256 reference) w)
       (\<lambda>descriptor.
     bindr (validate_descriptor descriptor) (\<lambda>_.
     bindr (typed_object_path_v4 (store_root st) Thread (tref_descriptor_sha256 reference)) (\<lambda>descriptor_path.
     bindr (file_length w descriptor_path) (\<lambda>len.
     bindr (map_res (\<lambda>c. content_objects (rl_json L) (parse_manifest (rl_parsers L)) (rl_hash L) st c w)
              (sd_rollout descriptor # sd_attachments descriptor)) (\<lambda>objs.
       Inr (\<lparr>ref_kind = Thread, ref_sha256 = tref_descriptor_sha256 reference, ref_byte_length = len\<rparr>
            # concat objs))))))"

definition collect_snapshot_graph_objects_v4 ::
  "repository_lib \<Rightarrow> content_store_v4 \<Rightarrow> snapshot_root_v4 \<Rightarrow> world \<Rightarrow> string + storage_object_ref_v4 list" where
  "collect_snapshot_graph_objects_v4 L st root w =
     bindr (validate_snapshot_root root) (\<lambda>_.
     bindr (typed_object_path_v4 (store_root st) SnapshotOverlay (sr_overlay_sha256 root)) (\<lambda>overlay_path.
     bindr (map_err (\<lambda>_. ''missing snapshot overlay'') (file_length w overlay_path)) (\<lambda>len.
     bindr (map_res (reference_objects L st w) (sr_threads root)) (\<lambda>objs.
       Inr (ref_set (\<lparr>ref_kind = SnapshotOverlay, ref_sha256 = sr_overlay_sha256 root, ref_byte_length = len\<rparr>
            # concat objs))))))"

definition collect_revision_graph_objects_v4 ::
  "repository_lib \<Rightarrow> content_store_v4 \<Rightarrow> string \<Rightarrow> world \<Rightarrow> string + storage_object_ref_v4 list" where
  "collect_revision_graph_objects_v4 L st rid w =
     bindr (read_json (parse_revision_root (rl_parsers L)) (rl_hash L) st RevisionRoot rid w) (\<lambda>root.
     bindr (validate_revision_root root) (\<lambda>_.
     bindr (typed_object_path_v4 (store_root st) RevisionRoot rid) (\<lambda>root_path.
     bindr (file_length w root_path) (\<lambda>len.
     bindr (map_res (reference_objects L st w) (rv_threads root)) (\<lambda>objs.
       Inr (ref_set (\<lparr>ref_kind = RevisionRoot, ref_sha256 = rid, ref_byte_length = len\<rparr> # concat objs)))))))"

section \<open>Listing the repository\<close>

definition enumerate_entry ::
  "volume \<Rightarrow> storage_object_kind_v4 \<Rightarrow> path \<Rightarrow> string \<Rightarrow> string \<Rightarrow> string + storage_object_ref_v4" where
  "enumerate_entry v kind directory_path prefix_name name =
     bindr (ok_or ''v4 object store contains a non-regular object'' (file_at v (directory_path @ [name]))) (\<lambda>bs.
     let sha256 = ''sha256:'' @ prefix_name @ name in
     bindr (validate_sha256_v4 sha256) (\<lambda>_.
       Inr \<lparr>ref_kind = kind, ref_sha256 = sha256, ref_byte_length = of_nat (length bs)\<rparr>))"

definition enumerate_prefix ::
  "volume \<Rightarrow> storage_object_kind_v4 \<Rightarrow> path \<Rightarrow> string \<Rightarrow> string + storage_object_ref_v4 list" where
  "enumerate_prefix v kind objects_path prefix_name =
     (if \<not> dir_at v (objects_path @ [prefix_name]) then Inr []
      else bindr (ensure (length prefix_name = 2) ''invalid v4 object prefix directory'') (\<lambda>_.
           bindr (read_dir v (objects_path @ [prefix_name])) (\<lambda>names.
             map_res (enumerate_entry v kind (objects_path @ [prefix_name]) prefix_name) names)))"

definition enumerate_kind ::
  "volume \<Rightarrow> path \<Rightarrow> storage_object_kind_v4 \<Rightarrow> string + storage_object_ref_v4 list" where
  "enumerate_kind v root kind =
     (let objects_path = root @ [''objects'', directory kind, ''sha256''] in
      if \<not> exists_at v objects_path then Inr []
      else bindr (read_dir v objects_path) (\<lambda>prefixes.
           bindr (map_res (enumerate_prefix v kind objects_path) prefixes) (\<lambda>objs. Inr (concat objs))))"

definition enumerate_repository_objects_v4 ::
  "volume \<Rightarrow> path \<Rightarrow> storage_object_kind_v4 list \<Rightarrow> string + storage_object_ref_v4 list" where
  "enumerate_repository_objects_v4 v root kinds =
     bindr (map_res (enumerate_kind v root) kinds) (\<lambda>objs. Inr (ref_set (concat objs)))"

definition trash_root_step ::
  "repository_lib \<Rightarrow> volume \<Rightarrow> path \<Rightarrow> string \<Rightarrow> (string, path \<times> snapshot_root_v4) btree_map \<Rightarrow>
     string + (string, path \<times> snapshot_root_v4) btree_map" where
  "trash_root_step L v trash_path operation_id roots =
     (let path = trash_path @ [operation_id] in
      bindr (ensure (rl_is_uuid L operation_id) ''invalid local trash operation ID'') (\<lambda>_.
      bindr (ensure (dir_at v path) ''local trash entry must be a regular directory'') (\<lambda>_.
      bindr (read_bounded_v4 (rl_trash_entry L) (path @ [''entry.json'']) MANIFEST_LIMIT (world_of v)) (\<lambda>trash_entry.
      bindr (ensure (\<not> te_operation_id trash_entry \<noteq> operation_id) ''local trash entry operation ID mismatch'') (\<lambda>_.
      bindr (read_bounded_v4 (parse_snapshot_root (rl_parsers L)) (path @ [''snapshot.json'']) MANIFEST_LIMIT
               (world_of v)) (\<lambda>root.
      bindr (validate_snapshot_root root) (\<lambda>_.
      bindr (ensure (\<not> sr_snapshot_id root \<noteq> te_snapshot_id trash_entry) ''local trash snapshot ID mismatch'') (\<lambda>_.
        Inr (bt_insert operation_id (path, root) roots)))))))))"

definition load_local_trash_roots_v4 ::
  "repository_lib \<Rightarrow> path \<Rightarrow> volume \<Rightarrow> string + (string, path \<times> snapshot_root_v4) btree_map" where
  "load_local_trash_roots_v4 L root v =
     (let trash_path = root @ [''trash'', ''snapshots''] in
      if \<not> exists_at v trash_path then Inr []
      else bindr (read_dir v trash_path) (\<lambda>names. foldr_res (trash_root_step L v trash_path) names []))"

definition to_ascii_lowercase :: "string \<Rightarrow> string" where
  "to_ascii_lowercase s =
     map (\<lambda>c. if CHR ''A'' \<le> c \<and> c \<le> CHR ''Z'' then char_of ((of_char c :: nat) + 32) else c) s"

definition starts_with :: "string \<Rightarrow> string \<Rightarrow> bool" where
  "starts_with p s \<longleftrightarrow> strip_prefix p s \<noteq> None"

definition ends_with :: "string \<Rightarrow> string \<Rightarrow> bool" where
  "ends_with q s \<longleftrightarrow> strip_suffix q s \<noteq> None"

definition PURGE_PREFIX :: string where "PURGE_PREFIX = ''local-trash-purge-''"

definition journal_step ::
  "repository_lib \<Rightarrow> volume \<Rightarrow> path \<Rightarrow> string \<Rightarrow> path list \<Rightarrow> string + path list" where
  "journal_step L v journal_path name journals =
     (let path = journal_path @ [name] in
      if \<not> is_json name then Inr journals
      else case file_at v path of
        None \<Rightarrow> Inr journals
      | Some bs \<Rightarrow>
          if of_nat (length bs) > MANIFEST_LIMIT then Inr journals
          else bindr (read_bounded_v4 (parse_value (rl_json L)) path MANIFEST_LIMIT (world_of v)) (\<lambda>value.
            case Option.bind (json_get value ''status'') as_str of
              None \<Rightarrow> Inr journals
            | Some status \<Rightarrow>
                if starts_with PURGE_PREFIX name then Inr journals
                else if to_ascii_lowercase status \<in> {''completed'', ''rolled_back'', ''rolledback''} then Inr journals
                else Inr (journals @ [path])))"

definition non_terminal_repository_journals_v4 ::
  "repository_lib \<Rightarrow> path \<Rightarrow> volume \<Rightarrow> string + path list" where
  "non_terminal_repository_journals_v4 L root v =
     (let journal_path = root @ [''journal''] in
      if \<not> exists_at v journal_path then Inr []
      else bindr (read_dir v journal_path) (\<lambda>names. foldr_res (journal_step L v journal_path) names []))"

section \<open>Reachability\<close>

definition snapshot_objects ::
  "repository_lib \<Rightarrow> path \<Rightarrow> volume \<Rightarrow> string \<Rightarrow> string + storage_object_ref_v4 list" where
  "snapshot_objects L root v name =
     (if \<not> is_json name then Inr []
      else bindr (read_bounded_v4 (parse_snapshot_root (rl_parsers L)) (root @ [''snapshots'', name]) MANIFEST_LIMIT
                   (world_of v)) (\<lambda>r.
           collect_snapshot_graph_objects_v4 L (store_at root) r (world_of v)))"

definition revision_prefix_objects ::
  "repository_lib \<Rightarrow> path \<Rightarrow> volume \<Rightarrow> string \<Rightarrow> string + storage_object_ref_v4 list" where
  "revision_prefix_objects L root v prefix_name =
     (let prefix_path = root @ [''objects'', ''revision-roots'', ''sha256'', prefix_name] in
      if \<not> dir_at v prefix_path then Inr []
      else bindr (read_dir v prefix_path) (\<lambda>names.
           bindr (map_res (\<lambda>name. if file_at v (prefix_path @ [name]) = None then Inr []
                      else collect_revision_graph_objects_v4 L (store_at root) (''sha256:'' @ prefix_name @ name)
                             (world_of v)) names) (\<lambda>objs. Inr (concat objs))))"

definition dir_objects ::
  "(string \<Rightarrow> string + storage_object_ref_v4 list) \<Rightarrow> path \<Rightarrow> volume \<Rightarrow> string + storage_object_ref_v4 list" where
  "dir_objects f p v =
     (if \<not> exists_at v p then Inr []
      else bindr (read_dir v p) (\<lambda>names. bindr (map_res f names) (\<lambda>objs. Inr (concat objs))))"

definition reachable_objects ::
  "repository_lib \<Rightarrow> path \<Rightarrow> string list \<Rightarrow> volume \<Rightarrow> string + storage_object_ref_v4 list" where
  "reachable_objects L root excluded v =
     bindr (dir_objects (snapshot_objects L root v) (root @ [''snapshots'']) v) (\<lambda>snaps.
     bindr (load_local_trash_roots_v4 L root v) (\<lambda>roots.
     bindr (map_res (\<lambda>(operation_id, _, r). if operation_id \<in> set excluded then Inr []
              else collect_snapshot_graph_objects_v4 L (store_at root) r (world_of v)) roots) (\<lambda>trash.
     bindr (dir_objects (revision_prefix_objects L root v) (root @ [''objects'', ''revision-roots'', ''sha256'']) v)
       (\<lambda>revisions.
       Inr (ref_set (snaps @ concat trash @ revisions))))))"

definition collect_reachable_objects_v4 ::
  "repository_lib \<Rightarrow> path \<Rightarrow> string list \<Rightarrow> storage_object_ref_v4 list io" where
  "collect_reachable_objects_v4 L root excluded =
     bind_io (open_store L root) (\<lambda>_. read_io (reachable_objects L root excluded))"

definition difference :: "storage_object_ref_v4 list \<Rightarrow> storage_object_ref_v4 list \<Rightarrow> storage_object_ref_v4 list" where
  "difference xs ys = filter (\<lambda>x. x \<notin> set ys) xs"

section \<open>The garbage collection plan\<close>

datatype storage_object_kind_v3 = Whole3 | Chunk3 | ChunkManifest3 | Thread3 | RevisionRoot3

fun storage_kind_v3 :: "storage_object_kind_v4 \<Rightarrow> storage_object_kind_v3 option" where
  "storage_kind_v3 Whole = Some Whole3"
| "storage_kind_v3 Chunk = Some Chunk3"
| "storage_kind_v3 ChunkManifest = Some ChunkManifest3"
| "storage_kind_v3 Thread = Some Thread3"
| "storage_kind_v3 RevisionRoot = Some RevisionRoot3"
| "storage_kind_v3 SnapshotOverlay = None"

fun kind_v3_index :: "storage_object_kind_v3 \<Rightarrow> nat" where
  "kind_v3_index Whole3 = 0"
| "kind_v3_index Chunk3 = 1"
| "kind_v3_index ChunkManifest3 = 2"
| "kind_v3_index Thread3 = 3"
| "kind_v3_index RevisionRoot3 = 4"

record storage_object_ref_v3 =
  ref3_kind :: storage_object_kind_v3
  ref3_sha256 :: string
  ref3_byte_length :: u64

record gc_plan =
  gp_schema_version :: u32
  gp_created_at :: string
  gp_reachable_objects :: nat
  gp_unreachable_objects :: "storage_object_ref_v3 list"
  gp_reclaimable_bytes :: u64

definition ref_v3 :: "storage_object_ref_v4 \<Rightarrow> storage_object_ref_v3 option" where
  "ref_v3 r = map_option (\<lambda>k. \<lparr>ref3_kind = k, ref3_sha256 = ref_sha256 r, ref3_byte_length = ref_byte_length r\<rparr>)
     (storage_kind_v3 (ref_kind r))"

definition plan_local_gc_v4 :: "repository_lib \<Rightarrow> path \<Rightarrow> gc_plan io" where
  "plan_local_gc_v4 L root =
     bind_io (collect_reachable_objects_v4 L root []) (\<lambda>reachable.
     bind_io (read_io (\<lambda>v. enumerate_repository_objects_v4 v root REMOTE_kinds)) (\<lambda>all_objects.
     let unreachable = sort_key (\<lambda>r. (kind_v3_index (ref3_kind r), ref3_sha256 r, ref3_byte_length r))
           (List.map_filter ref_v3 (difference all_objects reachable)) in
     bind_io (lift_res (ok_or ''GC byte count overflow'' (checked_sum 0 (map ref3_byte_length unreachable))))
       (\<lambda>reclaimable.
     bind_io (ask_io (rl_now L)) (\<lambda>now.
       return_io \<lparr>gp_schema_version = 4, gp_created_at = now, gp_reachable_objects = length reachable,
         gp_unreachable_objects = unreachable, gp_reclaimable_bytes = reclaimable\<rparr>))))"

end
