(* ===== verification/Purge.thy ===== *)
theory Purge
  imports Repository
begin

text \<open>
  The permanent deletion of local trash (storage\_v4.rs): the size of a directory, the purge plan
  with its fingerprint, the journalled purge, its rollback, its completion and the recovery that a
  restart runs. The journal on disk names the phase; before \<open>Committed\<close> a purge is rolled back,
  after it the purge is completed.
\<close>

section \<open>The size of a directory\<close>

definition dir_bytes_step :: "volume \<Rightarrow> path \<Rightarrow> string \<Rightarrow> path list \<times> u64 \<Rightarrow> string + (path list \<times> u64)" where
  "dir_bytes_step v p name acc =
     (case entry_at v (p @ [name]) of
        None \<Rightarrow> Inl ''No such file or directory''
      | Some DirEntry \<Rightarrow> Inr ((p @ [name]) # fst acc, snd acc)
      | Some (FileEntry bs) \<Rightarrow>
          bindr (ok_or ''storage byte count overflow'' (checked_add (snd acc) (of_nat (length bs)))) (\<lambda>t.
            Inr (fst acc, t)))"

definition below :: "volume \<Rightarrow> path \<Rightarrow> nat" where
  "below v p = length (filter (\<lambda>(q, _). under p q \<and> q \<noteq> p) v)"

definition pending_size :: "volume \<Rightarrow> path list \<Rightarrow> nat" where
  "pending_size v ps = sum_list (map (\<lambda>p. Suc (below v p)) ps)"

lemma child_below:
  assumes "distinct names" "\<forall>n \<in> set names. \<exists>e. (p @ [n], e) \<in> set v"
  shows "sum_list (map (\<lambda>n. Suc (below v (p @ [n]))) names) \<le> below v p"
proof -
  have one: "Suc (below v (p @ [n])) \<le> length (filter (\<lambda>(q, _). under (p @ [n]) q) v)" if "n \<in> set names" for n
  proof -
    from assms(2) that obtain e where e: "(p @ [n], e) \<in> set v" by blast
    have "filter (\<lambda>(q, _). under (p @ [n]) q \<and> q \<noteq> p @ [n]) v
        = filter (\<lambda>(q, _). q \<noteq> p @ [n]) (filter (\<lambda>(q, _). under (p @ [n]) q) v)"
      by (induction v) auto
    also have "length \<dots> < length (filter (\<lambda>(q, _). under (p @ [n]) q) v)"
      using e by (intro length_filter_less[of "(p @ [n], e)"]) auto
    finally show ?thesis by (simp add: below_def)
  qed
  have "sum_list (map (\<lambda>n. Suc (below v (p @ [n]))) names)
      \<le> sum_list (map (\<lambda>n. length (filter (\<lambda>(q, _). under (p @ [n]) q) v)) names)"
    by (rule sum_list_mono) (simp add: one)
  also have "\<dots> \<le> below v p"
    using assms(1)
  proof (induction v)
    case (Cons x v)
    obtain q e where x: "x = (q, e)" by (cases x)
    have "sum_list (map (\<lambda>n. if under (p @ [n]) q then 1 else (0::nat)) names)
        \<le> (if under p q \<and> q \<noteq> p then 1 else 0)"
      using Cons.prems
    proof (induction names)
      case (Cons n names)
      show ?case
      proof (cases "under (p @ [n]) q")
        case True
        then obtain t where t: "q = p @ n # t" by (auto simp: under_iff)
        have "\<not> under (p @ [m]) q" if "m \<in> set names" for m
          using Cons.prems that unfolding t by (auto simp: under_iff)
        then have "sum_list (map (\<lambda>n. if under (p @ [n]) q then 1 else (0::nat)) names) = 0" by auto
        with True t show ?thesis by simp
      next
        case False
        with Cons show ?thesis by simp
      qed
    qed simp
    moreover have "sum_list (map (\<lambda>n. length (filter (\<lambda>(q, _). under (p @ [n]) q) (x # v))) names)
        = sum_list (map (\<lambda>n. if under (p @ [n]) q then 1 else (0::nat)) names)
          + sum_list (map (\<lambda>n. length (filter (\<lambda>(q, _). under (p @ [n]) q) v)) names)"
      unfolding sum_list_addf[symmetric] by (rule arg_cong[of _ _ sum_list]) (simp add: x)
    moreover have "below (x # v) p = (if under p q \<and> q \<noteq> p then 1 else 0) + below v p"
      by (simp add: below_def x)
    ultimately show ?case using Cons.IH[OF Cons.prems] by linarith
  qed (simp add: below_def)
  finally show ?thesis .
qed

lemma dir_bytes_fold:
  assumes "foldr_res (dir_bytes_step v p) names acc = Inr acc'"
  shows "\<exists>dirs. fst acc' = rev (map (\<lambda>n. p @ [n]) dirs) @ fst acc \<and> set dirs \<subseteq> set names
    \<and> (distinct names \<longrightarrow> distinct dirs) \<and> (\<forall>n \<in> set dirs. entry_at v (p @ [n]) = Some DirEntry)"
  using assms
proof (induction names arbitrary: acc)
  case (Cons n names)
  then obtain a where a: "dir_bytes_step v p n acc = Inr a" "foldr_res (dir_bytes_step v p) names a = Inr acc'"
    by (auto simp: bindr_eq_Inr_iff)
  from Cons.IH[OF a(2)] obtain dirs where IH: "fst acc' = rev (map (\<lambda>n. p @ [n]) dirs) @ fst a"
    "set dirs \<subseteq> set names" "distinct names \<longrightarrow> distinct dirs" "\<forall>n \<in> set dirs. entry_at v (p @ [n]) = Some DirEntry" by blast
  from a(1) consider "fst a = fst acc" | "fst a = (p @ [n]) # fst acc" "entry_at v (p @ [n]) = Some DirEntry"
    by (auto simp: dir_bytes_step_def bindr_eq_Inr_iff split: option.splits entry.splits)
  then show ?case
  proof cases
    case 1
    with IH show ?thesis by (intro exI[of _ dirs]) auto
  next
    case 2
    with IH show ?thesis by (intro exI[of _ "n # dirs"]) auto
  qed
qed auto

lemma read_dir_distinct: "read_dir v p = Inr names \<Longrightarrow> distinct names"
  by (auto simp: read_dir_def bindr_eq_Inr_iff)

function dir_bytes_loop :: "volume \<Rightarrow> path list \<Rightarrow> u64 \<Rightarrow> string + u64" where
  "dir_bytes_loop v [] acc = Inr acc"
| "dir_bytes_loop v (p # rest) acc =
     (case read_dir v p of
        Inl e \<Rightarrow> Inl e
      | Inr names \<Rightarrow> (case foldr_res (dir_bytes_step v p) names (rest, acc) of
            Inl e \<Rightarrow> Inl e
          | Inr (rest', acc') \<Rightarrow> dir_bytes_loop v rest' acc'))"
  by pat_completeness auto
termination
proof (relation "measure (\<lambda>(v, ps, _). pending_size v ps)", simp, goal_cases)
  case (1 v p rest acc names r rest' acc')
  from dir_bytes_fold[of v p names "(rest, acc)" "(rest', acc')"] 1 obtain dirs where
    d: "rest' = rev (map (\<lambda>n. p @ [n]) dirs) @ rest" "distinct dirs"
      "\<forall>n \<in> set dirs. entry_at v (p @ [n]) = Some DirEntry"
    using read_dir_distinct by auto
  have "sum_list (map (\<lambda>n. Suc (below v (p @ [n]))) dirs) \<le> below v p"
    using d(2,3) by (intro child_below) (auto simp: entry_at_def dest: map_of_SomeD)
  then show ?case unfolding d(1) by (simp add: pending_size_def rev_map[symmetric] sum_list_rev o_def)
qed

definition directory_bytes_v4 :: "path \<Rightarrow> volume \<Rightarrow> string + u64" where
  "directory_bytes_v4 root v = (if \<not> exists_at v root then Inr 0 else dir_bytes_loop v [root] 0)"

section \<open>Serialized forms\<close>

definition object_ref_json :: "storage_object_ref_v4 \<Rightarrow> json" where
  "object_ref_json r = JObject (bt_of_list
     [(''kind'', JString (wire_name (ref_kind r))), (''sha256'', JString (ref_sha256 r)),
      (''byteLength'', json_u64 (ref_byte_length r))])"

definition path_json :: "path \<Rightarrow> json" where
  "path_json p = JString (concat (map (\<lambda>c. ''/'' @ c) p))"

fun purge_status_name :: "local_trash_purge_status_v4 \<Rightarrow> string" where
  "purge_status_name Preparing = ''preparing''"
| "purge_status_name EntriesStaged = ''entries_staged''"
| "purge_status_name Committed = ''committed''"
| "purge_status_name ObjectsStaged = ''objects_staged''"
| "purge_status_name Completed = ''completed''"
| "purge_status_name RolledBack = ''rolled_back''"

definition purge_plan_json :: "local_trash_purge_plan_v4 \<Rightarrow> json" where
  "purge_plan_json p = JObject (bt_of_list
     [(''schemaVersion'', json_u64 (ucast (pp_schema_version p))),
      (''createdAt'', JString (pp_created_at p)),
      (''operationIds'', JArray (map JString (pp_operation_ids p))),
      (''trashEntryCount'', json_u64 (of_nat (pp_trash_entry_count p))),
      (''candidateObjects'', JArray (map object_ref_json (pp_candidate_objects p))),
      (''objectReclaimableBytes'', json_u64 (pp_object_reclaimable_bytes p)),
      (''trashMetadataBytes'', json_u64 (pp_trash_metadata_bytes p)),
      (''retainedSharedBytes'', json_u64 (pp_retained_shared_bytes p)),
      (''planFingerprint'', JString (pp_plan_fingerprint p))])"

definition purge_journal_json :: "local_trash_purge_journal_v4 \<Rightarrow> json" where
  "purge_journal_json j = JObject (bt_of_list
     [(''schemaVersion'', json_u64 (ucast (pj_schema_version j))),
      (''operationId'', JString (pj_operation_id j)),
      (''status'', JString (purge_status_name (pj_status j))),
      (''repositoryRoot'', path_json (pj_repository_root j)),
      (''stagingRoot'', path_json (pj_staging_root j)),
      (''plan'', purge_plan_json (pj_plan j)),
      (''createdAt'', JString (pj_created_at j)),
      (''updatedAt'', JString (pj_updated_at j)),
      (''error'', json_option JString (pj_error j))])"

section \<open>Rollback\<close>

definition trash_entry_path :: "path \<Rightarrow> string \<Rightarrow> path" where
  "trash_entry_path root op_id = root @ [''trash'', ''snapshots'', op_id]"

definition staged_entry_path :: "path \<Rightarrow> string \<Rightarrow> path" where
  "staged_entry_path staging op_id = staging @ [''entries'', op_id]"

definition rollback_step :: "path \<Rightarrow> path \<Rightarrow> string \<Rightarrow> unit io" where
  "rollback_step root staging op_id =
     (let staged = staged_entry_path staging op_id; original = trash_entry_path root op_id in
      bind_io (read_io (\<lambda>v. Inr (exists_at v staged, exists_at v original))) (\<lambda>(is_staged, is_original).
      if is_staged \<and> \<not> is_original then atomic_io (fs_rename staged original)
      else if is_staged \<and> is_original
      then lift_res (Inl ''cannot roll back local trash purge because both entry paths exist'')
      else return_io ()))"

definition rollback_local_trash_purge_v4 ::
  "repository_lib \<Rightarrow> path \<Rightarrow> path \<Rightarrow> local_trash_purge_journal_v4 \<Rightarrow> unit io" where
  "rollback_local_trash_purge_v4 L root journal_path j =
     bind_io (foreach_io (\<lambda>op_id _. rollback_step root (pj_staging_root j) op_id)
                (rev (pp_operation_ids (pj_plan j))) ()) (\<lambda>_.
     bind_io (ask_io (rl_now L)) (\<lambda>now.
     bind_io (write_root_io L journal_path
                (purge_journal_json (j\<lparr>pj_status := RolledBack, pj_updated_at := now\<rparr>))) (\<lambda>_.
     bind_io (read_io (\<lambda>v. Inr (exists_at v (pj_staging_root j)))) (\<lambda>found.
       if found then remove_dir_all_io (pj_staging_root j) else return_io ()))))"

section \<open>Completion\<close>

definition staged_object_path :: "path \<Rightarrow> storage_object_ref_v4 \<Rightarrow> path" where
  "staged_object_path staging obj =
     staging @ [''objects'', directory (ref_kind obj), drop 7 (ref_sha256 obj)]"

definition delete_staged :: "path \<Rightarrow> nat \<times> u64 \<Rightarrow> (nat \<times> u64) io" where
  "delete_staged destination acc =
     bind_io (read_io (\<lambda>v. Inr (file_at v destination))) (\<lambda>observed.
     case observed of
       None \<Rightarrow> return_io acc
     | Some bs \<Rightarrow>
         bind_io (atomic_io (fs_remove_file destination)) (\<lambda>_.
         bind_io (lift_res (ok_or ''local purge result byte count overflow''
                    (checked_add (snd acc) (of_nat (length bs))))) (\<lambda>freed.
           return_io (Suc (fst acc), freed))))"

definition finish_step ::
  "path \<Rightarrow> path \<Rightarrow> storage_object_ref_v4 list \<Rightarrow> storage_object_ref_v4 \<Rightarrow> nat \<times> u64 \<Rightarrow> (nat \<times> u64) io" where
  "finish_step root staging reachable obj acc =
     bind_io (lift_res (typed_object_path_v4 root (ref_kind obj) (ref_sha256 obj))) (\<lambda>source.
     let destination = staged_object_path staging obj in
     bind_io (read_io (\<lambda>v. Inr (exists_at v source, file_at v source))) (\<lambda>(present, observed).
     if present then
       bind_io (lift_res (ensure (\<not> (observed = None \<or> map_option (\<lambda>bs. of_nat (length bs)) observed
                    \<noteq> Some (ref_byte_length obj)))
                  (''local purge object changed after planning: '' @ ref_sha256 obj))) (\<lambda>_.
       if obj \<in> set reachable then return_io acc
       else
         bind_io (create_dir_all_io (butlast destination)) (\<lambda>_.
         bind_io (atomic_io (fs_rename source destination)) (\<lambda>_.
           delete_staged destination acc)))
     else delete_staged destination acc))"

definition remove_if_exists :: "path \<Rightarrow> unit io" where
  "remove_if_exists p =
     bind_io (read_io (\<lambda>v. Inr (exists_at v p))) (\<lambda>found. if found then remove_dir_all_io p else return_io ())"

definition invalidate_source_object_index :: "path \<Rightarrow> unit io" where
  "invalidate_source_object_index root =
     (let p = root @ [''index'', ''source-objects-v4.json''] in
      bind_io (read_io (\<lambda>v. Inr (exists_at v p))) (\<lambda>found.
        if found then atomic_io (fs_remove_file p) else return_io ()))"

definition finish_cleanup :: "repository_lib \<Rightarrow> path \<Rightarrow> local_trash_purge_journal_v4 \<Rightarrow> unit io" where
  "finish_cleanup L journal_path j =
     bind_io (write_root_io L journal_path (purge_journal_json j)) (\<lambda>_.
     bind_io (remove_if_exists (pj_staging_root j @ [''entries''])) (\<lambda>_.
     bind_io (remove_if_exists (pj_staging_root j @ [''objects''])) (\<lambda>_.
     bind_io (bind_io (read_io (\<lambda>v. Inr (exists_at v (pj_staging_root j)))) (\<lambda>found.
                if found then atomic_io (fs_remove_dir (pj_staging_root j)) else return_io ())) (\<lambda>_.
       invalidate_source_object_index (pj_repository_root j)))))"

definition finish_objects ::
  "repository_lib \<Rightarrow> local_trash_purge_journal_v4 \<Rightarrow> (nat \<times> u64) io" where
  "finish_objects L j =
     bind_io (collect_reachable_objects_v4 L (pj_repository_root j) []) (\<lambda>reachable.
       foreach_io (finish_step (pj_repository_root j) (pj_staging_root j) reachable)
         (pp_candidate_objects (pj_plan j)) (0, 0))"

text \<open>
  The journal is a mutable borrow in the source: the result comes with the journal as the function
  leaves it, also when it fails.
\<close>

definition attempt_io :: "'a io \<Rightarrow> (string + 'a) io" where
  "attempt_io m F d = (case m F d of (r, d') \<Rightarrow> (Inr r, d'))"

definition complete_purge ::
  "repository_lib \<Rightarrow> path \<Rightarrow> local_trash_purge_journal_v4 \<Rightarrow> nat \<times> u64 \<Rightarrow>
     (local_trash_purge_journal_v4 \<times> (string + (nat \<times> u64))) io" where
  "complete_purge L journal_path j acc =
     bind_io (ask_io (rl_now L)) (\<lambda>now.
     let j1 = j\<lparr>pj_status := ObjectsStaged, pj_updated_at := now\<rparr> in
     bind_io (attempt_io (finish_cleanup L journal_path j1)) (\<lambda>cleaned. case cleaned of Inl e \<Rightarrow> return_io (j1, Inl e) | Inr _ \<Rightarrow>
     bind_io (ask_io (rl_now L)) (\<lambda>now.
     let j2 = j1\<lparr>pj_status := Completed, pj_updated_at := now, pj_error := None\<rparr> in
     bind_io (attempt_io (write_root_io L journal_path (purge_journal_json j2))) (\<lambda>written.
       return_io (j2, bindr written (\<lambda>_. Inr acc))))))"

definition finish_local_trash_purge_v4 ::
  "repository_lib \<Rightarrow> path \<Rightarrow> local_trash_purge_journal_v4 \<Rightarrow>
     (local_trash_purge_journal_v4 \<times> (string + (nat \<times> u64))) io" where
  "finish_local_trash_purge_v4 L journal_path j =
     bind_io (attempt_io (finish_objects L j)) (\<lambda>deleted. case deleted of
       Inl e \<Rightarrow> return_io (j, Inl e)
     | Inr acc \<Rightarrow> complete_purge L journal_path j acc)"

section \<open>Recovery\<close>

definition recover_journal ::
  "repository_lib \<Rightarrow> path \<Rightarrow> path \<Rightarrow> local_trash_purge_journal_v4 \<Rightarrow> unit io" where
  "recover_journal L root path j =
     (case pj_status j of
        Preparing \<Rightarrow> rollback_local_trash_purge_v4 L root path j
      | EntriesStaged \<Rightarrow> rollback_local_trash_purge_v4 L root path j
      | Committed \<Rightarrow> bind_io (finish_local_trash_purge_v4 L path j) (\<lambda>(_, r). lift_res (bindr r (\<lambda>_. Inr ())))
      | ObjectsStaged \<Rightarrow> bind_io (finish_local_trash_purge_v4 L path j) (\<lambda>(_, r). lift_res (bindr r (\<lambda>_. Inr ())))
      | Completed \<Rightarrow> return_io ()
      | RolledBack \<Rightarrow> return_io ())"

definition recover_step :: "repository_lib \<Rightarrow> path \<Rightarrow> string \<Rightarrow> unit io" where
  "recover_step L root name =
     (let path = root @ [''journal'', name] in
      if \<not> starts_with PURGE_PREFIX name \<or> \<not> ends_with ''.json'' name then return_io ()
      else
        bind_io (read_io (\<lambda>v. read_bounded_v4 (rl_journal L) path MANIFEST_LIMIT (world_of v))) (\<lambda>j.
        bind_io (lift_res (ensure (\<not> (pj_schema_version j \<noteq> 1 \<or> pj_repository_root j \<noteq> root))
                   ''invalid local trash purge recovery journal'')) (\<lambda>_.
          recover_journal L root path j)))"

definition recover_local_trash_purges_v4 :: "repository_lib \<Rightarrow> path \<Rightarrow> unit io" where
  "recover_local_trash_purges_v4 L root =
     bind_io (read_io (\<lambda>v. if \<not> exists_at v (root @ [''journal'']) then Inr []
                           else read_dir v (root @ [''journal'']))) (\<lambda>names.
       foreach_io (\<lambda>name _. recover_step L root name) names ())"

section \<open>Planning and purging\<close>

definition select_operations ::
  "repository_lib \<Rightarrow> (string, path \<times> snapshot_root_v4) btree_map \<Rightarrow> string list \<Rightarrow> bool \<Rightarrow> string + string list" where
  "select_operations L trash_roots requested purge_all =
     (let operation_ids = btree_set (if purge_all then bt_keys trash_roots else requested) in
      bindr (ensure (operation_ids \<noteq> []) ''local snapshot trash is empty'') (\<lambda>_.
      bindr (ensure (\<not> (length operation_ids \<noteq> length requested \<and> \<not> purge_all))
               ''local trash purge request contains duplicate operation IDs'') (\<lambda>_.
      bindr (foldr_res (\<lambda>op_id _.
                bindr (ensure (rl_is_uuid L op_id) ''invalid local trash operation ID'') (\<lambda>_.
                  ensure (bt_contains trash_roots op_id) (''local trash operation not found: '' @ op_id)))
               operation_ids ()) (\<lambda>_.
        Inr operation_ids))))"

definition selected_step ::
  "repository_lib \<Rightarrow> path \<Rightarrow> (string, path \<times> snapshot_root_v4) btree_map \<Rightarrow> volume \<Rightarrow> string \<Rightarrow>
     (storage_object_ref_v4 list \<times> (string, snapshot_root_v4) btree_map \<times> u64) \<Rightarrow>
     string + (storage_object_ref_v4 list \<times> (string, snapshot_root_v4) btree_map \<times> u64)" where
  "selected_step L root trash_roots v op_id acc =
     (case acc of (objs, roots, metadata_bytes) \<Rightarrow>
      bindr (ok_or ''selected local trash operation disappeared'' (bt_get trash_roots op_id)) (\<lambda>(directory_path, r).
      bindr (collect_snapshot_graph_objects_v4 L (store_at root) r (world_of v)) (\<lambda>graph.
      bindr (directory_bytes_v4 directory_path v) (\<lambda>size.
      bindr (ok_or ''local trash metadata byte count overflow'' (checked_add metadata_bytes size)) (\<lambda>metadata_bytes'.
        Inr (objs @ graph, bt_insert op_id r roots, metadata_bytes'))))))"

definition purge_fingerprint ::
  "repository_lib \<Rightarrow> string list \<Rightarrow> (string, snapshot_root_v4) btree_map \<Rightarrow> storage_object_ref_v4 list \<Rightarrow> u64 \<Rightarrow>
     u64 \<Rightarrow> string" where
  "purge_fingerprint L operation_ids roots candidates metadata_bytes retained =
     digest_bytes_v4 (rl_hash L) (write_canonical_json_v4 (rl_json L)
       (JArray [JArray (map JString operation_ids),
          JObject (map (\<lambda>(k, r). (k, snapshot_root_json r)) roots),
          JArray (map object_ref_json candidates), json_u64 metadata_bytes, json_u64 retained]))"

definition plan_local_trash_purge_v4 ::
  "repository_lib \<Rightarrow> path \<Rightarrow> string list \<Rightarrow> bool \<Rightarrow> local_trash_purge_plan_v4 io" where
  "plan_local_trash_purge_v4 L root requested purge_all =
     bind_io (read_io (\<lambda>v. ensure (file_at v (root @ [''format.json'']) \<noteq> None)
                ''permanent local trash deletion requires a v4 repository'')) (\<lambda>_.
     bind_io (recover_local_trash_purges_v4 L root) (\<lambda>_.
     bind_io (read_io (non_terminal_repository_journals_v4 L root)) (\<lambda>active_journals.
     bind_io (lift_res (ensure (active_journals = []) ''local trash cannot be permanently deleted'')) (\<lambda>_.
     bind_io (lift_res (ensure (\<not> (purge_all \<and> requested \<noteq> []))
                ''purge-all cannot be combined with explicit trash operation IDs'')) (\<lambda>_.
     bind_io (lift_res (ensure (\<not> (\<not> purge_all \<and> requested = []))
                ''at least one local trash operation ID is required'')) (\<lambda>_.
     bind_io (read_io (load_local_trash_roots_v4 L root)) (\<lambda>trash_roots.
     bind_io (lift_res (select_operations L trash_roots requested purge_all)) (\<lambda>operation_ids.
     bind_io (open_store L root) (\<lambda>_.
     bind_io (read_io (\<lambda>v. foldr_res (selected_step L root trash_roots v) operation_ids ([], [], 0)))
       (\<lambda>(selected_objects, selected_roots, trash_metadata_bytes).
     bind_io (collect_reachable_objects_v4 L root operation_ids) (\<lambda>reachable.
     bind_io (read_io (\<lambda>v. enumerate_repository_objects_v4 v root ALL_kinds)) (\<lambda>all_objects.
     let candidate_objects = difference all_objects reachable in
     bind_io (lift_res (ok_or ''local purge byte count overflow''
                (checked_sum 0 (map ref_byte_length candidate_objects)))) (\<lambda>object_reclaimable_bytes.
     bind_io (lift_res (ok_or ''shared local purge byte count overflow''
                (checked_sum 0 (map ref_byte_length (filter (\<lambda>r. r \<in> set reachable) (ref_set selected_objects))))))
       (\<lambda>retained_shared_bytes.
     bind_io (ask_io (rl_now L)) (\<lambda>now.
       return_io \<lparr>pp_schema_version = 1, pp_created_at = now, pp_operation_ids = operation_ids,
         pp_trash_entry_count = length operation_ids, pp_candidate_objects = candidate_objects,
         pp_object_reclaimable_bytes = object_reclaimable_bytes, pp_trash_metadata_bytes = trash_metadata_bytes,
         pp_retained_shared_bytes = retained_shared_bytes,
         pp_plan_fingerprint = purge_fingerprint L operation_ids selected_roots candidate_objects
           trash_metadata_bytes retained_shared_bytes\<rparr>)))))))))))))))"

record local_trash_purge_result_v4 =
  pr_operation_id :: string
  pr_deleted_trash_entries :: nat
  pr_deleted_object_count :: nat
  pr_freed_bytes :: u64
  pr_retained_shared_bytes :: u64
  pr_journal_path :: path

definition purge_staging :: "path \<Rightarrow> string \<Rightarrow> path" where
  "purge_staging root op_id = root @ [''quarantine'', ''trash-purge'', op_id]"

definition purge_journal_path :: "path \<Rightarrow> string \<Rightarrow> path" where
  "purge_journal_path root op_id = root @ [''journal'', PURGE_PREFIX @ op_id @ ''.json'']"

definition stage_entry :: "path \<Rightarrow> path \<Rightarrow> string \<Rightarrow> unit io" where
  "stage_entry root staging op_id =
     catch_io (atomic_io (fs_rename (trash_entry_path root op_id) (staged_entry_path staging op_id)))
       (\<lambda>e. lift_res (Inl (''failed to stage local trash entry '' @ op_id)))"

definition stage_entries :: "repository_lib \<Rightarrow> path \<Rightarrow> path \<Rightarrow> local_trash_purge_journal_v4 \<Rightarrow> unit io" where
  "stage_entries L root journal_path j =
     bind_io (foreach_io (\<lambda>op_id _. stage_entry root (pj_staging_root j) op_id) (pp_operation_ids (pj_plan j)) ()) (\<lambda>_.
     bind_io (ask_io (rl_now L)) (\<lambda>now.
       write_root_io L journal_path (purge_journal_json (j\<lparr>pj_status := EntriesStaged, pj_updated_at := now\<rparr>))))"

text \<open>What \<open>purge_local_trash_v4\<close> does with a current plan: staging, commit, completion.\<close>

definition purge_with_plan ::
  "repository_lib \<Rightarrow> path \<Rightarrow> local_trash_purge_plan_v4 \<Rightarrow> string \<Rightarrow> local_trash_purge_result_v4 io" where
  "purge_with_plan L root current op_id =
     (let staging = purge_staging root op_id; journal_path = purge_journal_path root op_id in
     bind_io (create_dir_all_io (staging @ [''entries''])) (\<lambda>_.
     bind_io (create_dir_all_io (staging @ [''objects''])) (\<lambda>_.
     bind_io (ask_io (rl_now L)) (\<lambda>now.
     let j = \<lparr>pj_schema_version = 1, pj_operation_id = op_id, pj_status = Preparing, pj_repository_root = root,
           pj_staging_root = staging, pj_plan = current, pj_created_at = now, pj_updated_at = now, pj_error = None\<rparr> in
     bind_io (write_root_io L journal_path (purge_journal_json j)) (\<lambda>_.
     bind_io (catch_io (stage_entries L root journal_path j)
                (\<lambda>e. bind_io (rollback_local_trash_purge_v4 L root journal_path j) (\<lambda>_. lift_res (Inl e)))) (\<lambda>_.
     bind_io (ask_io (rl_now L)) (\<lambda>now.
     let jc = j\<lparr>pj_status := Committed, pj_updated_at := now\<rparr> in
     bind_io (write_root_io L journal_path (purge_journal_json jc)) (\<lambda>_.
     bind_io (finish_local_trash_purge_v4 L journal_path jc) (\<lambda>(j', r).
     case r of
       Inr (deleted, freed) \<Rightarrow> return_io
         \<lparr>pr_operation_id = op_id, pr_deleted_trash_entries = pp_trash_entry_count (pj_plan j'),
          pr_deleted_object_count = deleted,
          pr_freed_bytes = saturating_add freed (pp_trash_metadata_bytes (pj_plan j')),
          pr_retained_shared_bytes = pp_retained_shared_bytes (pj_plan j'), pr_journal_path = journal_path\<rparr>
     | Inl e \<Rightarrow>
         bind_io (ask_io (rl_now L)) (\<lambda>now.
         bind_io (attempt_io (write_root_io L journal_path
                    (purge_journal_json (j'\<lparr>pj_error := Some e, pj_updated_at := now\<rparr>)))) (\<lambda>_.
           lift_res (Inl e))))))))))))"

definition purge_local_trash_v4 ::
  "repository_lib \<Rightarrow> path \<Rightarrow> local_trash_purge_plan_v4 \<Rightarrow> local_trash_purge_result_v4 io" where
  "purge_local_trash_v4 L root expected =
     bind_io (recover_local_trash_purges_v4 L root) (\<lambda>_.
     bind_io (plan_local_trash_purge_v4 L root (pp_operation_ids expected) False) (\<lambda>current.
     bind_io (lift_res (ensure (\<not> pp_plan_fingerprint current \<noteq> pp_plan_fingerprint expected)
                ''local trash purge plan became stale'')) (\<lambda>_.
     bind_io (ask_io (rl_new_uuid L)) (purge_with_plan L root current))))"

end
