(* ===== verification/PurgeFacts.thy ===== *)
theory PurgeFacts
  imports Purge
begin

text \<open>
  What the purge leaves alone: frames of files that no failing or succeeding call touches, for
  each operation of the purge.
\<close>

section \<open>Frames\<close>

definition same_files :: "path set \<Rightarrow> volume \<Rightarrow> volume \<Rightarrow> bool" where
  "same_files S v0 v \<longleftrightarrow> (\<forall>p \<in> S. file_at v p = file_at v0 p)"

lemma same_files_refl [simp]: "same_files S v v"
  by (simp add: same_files_def)

lemma moved_elsewhere:
  assumes "\<not> under s q" "\<not> under d q"
  shows "entry_at (map (move_entry s d) (drop_under d v)) q = entry_at v q"
proof (induction v)
  case (Cons x v)
  obtain k e where x: "x = (k, e)" by (cases x)
  have "fst (move_entry s d x) = q \<longleftrightarrow> k = q" "snd (move_entry s d x) = e"
    using assms by (auto simp: move_entry_def x under_iff)
  with Cons assms show ?case
    by (cases "move_entry s d x") (auto simp: entry_at_def drop_under_def x)
qed (simp add: drop_under_def)

lemma fs_rename_elsewhere:
  "fs_rename s d v = Inr v' \<Longrightarrow> \<not> under s q \<Longrightarrow> \<not> under d q \<Longrightarrow> entry_at v' q = entry_at v q"
  by (auto simp: fs_rename_def bindr_eq_Inr_iff moved_elsewhere split: if_splits)

lemma same_entry_file: "entry_at v' q = entry_at v q \<Longrightarrow> file_at v' q = file_at v q"
  by (simp add: file_at_def)

lemma frame_write [keeps_rules]: "p \<notin> S \<Longrightarrow> keeps (same_files S v0) (write_io p b)"
  by (rule keeps_write) (auto simp: same_files_def file_at_def fs_write_entry)

lemma frame_create_dir_all [keeps_rules]: "keeps (same_files S v0) (create_dir_all_io p)"
proof (rule keeps_create_dir_all)
  fix v v' n assume "same_files S v0 v" "fs_create_dir_all (take n p) v = Inr v'"
  have "file_at v' q = file_at v q" for q
    using fs_create_dir_all_entry[OF \<open>fs_create_dir_all (take n p) v = Inr v'\<close>, of q]
    by (auto simp: file_at_def)
  with \<open>same_files S v0 v\<close> show "same_files S v0 v'" by (simp add: same_files_def)
qed

lemma frame_rename [keeps_rules]:
  "(\<And>q. q \<in> S \<Longrightarrow> \<not> under s q \<and> \<not> under d q) \<Longrightarrow> keeps (same_files S v0) (atomic_io (fs_rename s d))"
  by (rule keeps_atomic) (auto simp: same_files_def fs_rename_elsewhere[THEN same_entry_file])

lemma frame_remove_file [keeps_rules]: "p \<notin> S \<Longrightarrow> keeps (same_files S v0) (atomic_io (fs_remove_file p))"
  by (rule keeps_atomic) (auto simp: same_files_def file_at_def fs_remove_file_entry)

lemma frame_remove_dir [keeps_rules]: "p \<notin> S \<Longrightarrow> keeps (same_files S v0) (atomic_io (fs_remove_dir p))"
  by (rule keeps_atomic) (auto simp: same_files_def file_at_def fs_remove_dir_entry)

lemma frame_remove_dir_all [keeps_rules]:
  assumes "\<And>q. q \<in> S \<Longrightarrow> \<not> under p q"
  shows "keeps (same_files S v0) (remove_dir_all_io p)"
proof (rule keeps_remove_dir_all)
  fix v n assume s: "same_files S v0 v"
  { fix q assume "q \<in> S"
    with assms entry_at_remove_some[of p n v q] have "entry_at (remove_some p n v) q = entry_at v q" by blast
    with s \<open>q \<in> S\<close> have "file_at (remove_some p n v) q = file_at v0 q" by (simp add: same_files_def file_at_def) }
  then show "same_files S v0 (remove_some p n v)" by (simp add: same_files_def)
qed (use assms in \<open>auto simp: same_files_def file_at_def fs_remove_dir_all_entry\<close>)

text \<open>A later step may depend on what was read.\<close>

lemma keeps_read_bind:
  assumes "\<And>v a. I v \<Longrightarrow> f v = Inr a \<Longrightarrow> keeps I (g a)"
  shows "keeps I (bind_io (read_io f) g)"
  unfolding keeps_def
proof (intro allI impI)
  fix F :: faults and d :: disk assume I: "I (volume_of d)"
  show "I (volume_of (snd (bind_io (read_io f) g F d)))"
  proof (cases "F (clock d)")
    case None
    then show ?thesis
    proof (cases "f (volume_of d)")
      case (Inr a)
      with assms[OF I Inr] I None show ?thesis
        by (simp add: keeps_def bind_io_def read_io_def perform_def)
    qed (simp add: I bind_io_def read_io_def perform_def)
  next
    case (Some x)
    then show ?thesis using I by (cases x) (simp add: bind_io_def read_io_def perform_def)
  qed
qed

lemma keeps_bind_run:
  assumes "keeps I m" "I (volume_of d)" "\<And>a d1. m F d = (Inr a, d1) \<Longrightarrow> keeps I (f a)"
  shows "I (volume_of (snd (bind_io m f F d)))"
proof (cases "m F d")
  case (Pair r d1)
  with assms(1,2) have "I (volume_of d1)" unfolding keeps_def by (metis snd_conv)
  with Pair assms(3) show ?thesis by (cases r) (auto simp: bind_io_def keeps_def)
qed

lemma keeps_attempt [keeps_rules]: "keeps I m \<Longrightarrow> keeps I (attempt_io m)"
  by (auto simp: keeps_def attempt_io_def split: prod.splits) (metis snd_conv)

lemma keeps_sum [keeps_rules]:
  "(\<And>e. x = Inl e \<Longrightarrow> keeps I (f e)) \<Longrightarrow> (\<And>a. x = Inr a \<Longrightarrow> keeps I (g a)) \<Longrightarrow>
     keeps I (case x of Inl e \<Rightarrow> f e | Inr a \<Rightarrow> g a)"
  by (cases x) auto

lemma keeps_option [keeps_rules]:
  "(x = None \<Longrightarrow> keeps I f) \<Longrightarrow> (\<And>a. x = Some a \<Longrightarrow> keeps I (g a)) \<Longrightarrow>
     keeps I (case x of None \<Rightarrow> f | Some a \<Rightarrow> g a)"
  by (cases x) auto

lemma keeps_prod [keeps_rules]: "(\<And>a b. x = (a, b) \<Longrightarrow> keeps I (f a b)) \<Longrightarrow> keeps I (case x of (a, b) \<Rightarrow> f a b)"
  by (cases x) auto

section \<open>The frame of a purge\<close>

text \<open>The parts of a repository that hold user data, beside the objects and the trash.\<close>

definition data_dirs :: "string set" where
  "data_dirs = {''snapshots'', ''metadata'', ''tracking'', ''backups''}"

definition kept_paths :: "path \<Rightarrow> path set" where
  "kept_paths root = {p. (\<exists>k s. typed_object_path_v4 root k s = Inr p) \<or> (\<exists>part \<in> data_dirs. under (root @ [part]) p)
     \<or> under (root @ [''trash'']) p}"

lemma typed_object_path_shape:
  assumes "typed_object_path_v4 root k s = Inr p"
  shows "p = root @ ''objects'' # [directory k, ''sha256'', take 2 (drop 7 s), drop 2 (drop 7 s)]"
  using assms unfolding typed_object_path_v4_def Let_def by (elim bindrE) simp

lemma kept_first:
  assumes "p \<in> kept_paths root"
  obtains part q where "p = root @ part # q" "part \<in> {''objects'', ''snapshots'', ''metadata'', ''tracking'', ''backups'', ''trash''}"
proof -
  from assms consider k s where "typed_object_path_v4 root k s = Inr p" | part where "part \<in> data_dirs" "under (root @ [part]) p"
    | "under (root @ [''trash'']) p" by (auto simp: kept_paths_def)
  then show thesis
  proof cases
    case 1
    then have "p = root @ ''objects'' # [directory k, ''sha256'', take 2 (drop 7 s), drop 2 (drop 7 s)]"
      by (rule typed_object_path_shape)
    then show thesis by (rule that) simp
  next
    case 2
    then obtain q where "p = root @ part # q" by (auto simp only: under_iff append_assoc append_Cons append_Nil)
    then show thesis by (rule that) (use 2 in \<open>auto simp only: data_dirs_def\<close>)
  next
    case 3
    then obtain q where "p = root @ ''trash'' # q" by (auto simp only: under_iff append_assoc append_Cons append_Nil)
    then show thesis by (rule that) simp
  qed
qed

definition work_dirs :: "string set" where
  "work_dirs = {''journal'', ''quarantine'', ''index'', ''format.json'', ''format.json.tmp''}"

lemma work_not_kept:
  assumes "part \<in> work_dirs" "p \<in> kept_paths root"
  shows "\<not> under (root @ part # q) p"
proof -
  from assms(2) obtain other q' where o: "p = root @ other # q'"
    "other \<in> {''objects'', ''snapshots'', ''metadata'', ''tracking'', ''backups'', ''trash''}" by (rule kept_first)
  from assms(1) o(2) have "part \<noteq> other" by (auto simp: work_dirs_def)
  with o(1) show ?thesis by (auto simp: under_iff)
qed

lemma work_not_in:
  assumes "part \<in> work_dirs" "S \<subseteq> kept_paths root"
  shows "root @ part # q \<notin> S"
  using work_not_kept[OF assms(1), of "root @ part # q" root q] assms(2) by auto

lemma frame_initialize [keeps_rules]:
  assumes "S \<subseteq> kept_paths root"
  shows "keeps (same_files S v0) (initialize_v4_repository L root)"
proof -
  have "\<not> under (root @ [''format.json'']) q \<and> \<not> under (root @ [''format.json.tmp'']) q" if "q \<in> S" for q
    using that assms work_not_kept[of _ q root "[]"] by (auto simp: work_dirs_def)
  moreover have "root @ [''format.json.tmp''] \<notin> S"
    using work_not_in[OF _ assms, of "''format.json.tmp''" "[]"] by (simp add: work_dirs_def)
  ultimately show ?thesis
    unfolding initialize_v4_repository_def Let_def by (intro keeps_rules) auto
qed

lemma frame_collect [keeps_rules]:
  "S \<subseteq> kept_paths root \<Longrightarrow> keeps (same_files S v0) (collect_reachable_objects_v4 L root ex)"
  unfolding collect_reachable_objects_v4_def open_store_def by (intro keeps_rules)

lemma with_extension_journal: "with_extension e (root @ [''journal'', name]) = root @ [''journal'', fst (split_extension name) @ ''.'' @ e]"
  by (simp add: with_extension_def butlast_append)

lemma frame_write_root [keeps_rules]:
  assumes "S \<subseteq> kept_paths root"
  shows "keeps (same_files S v0) (write_root_io L (root @ [''journal'', name]) value)"
proof -
  have "\<not> under (root @ [''journal'', x]) q" if "q \<in> S" for q x
    using that assms work_not_kept[of "''journal''" q root "[x]"] by (auto simp: work_dirs_def)
  moreover have "root @ [''journal'', x] \<notin> S" for x
    using work_not_in[OF _ assms, of "''journal''" "[x]"] by (simp add: work_dirs_def)
  ultimately show ?thesis
    unfolding write_root_io_def Let_def with_extension_journal by (intro keeps_rules) auto
qed

end
