(* ===== verification/PurgeProps.thy ===== *)
theory PurgeProps
  imports PurgeFacts ContentProps
begin

text \<open>
  The properties of the local trash purge: what a completion may delete, what a plan selects, and
  what an interrupted purge gives back.
\<close>

section \<open>Completion deletes only what nothing reaches\<close>

definition spared :: "path \<Rightarrow> storage_object_ref_v4 list \<Rightarrow> storage_object_ref_v4 list \<Rightarrow> volume \<Rightarrow> path set" where
  "spared root cands reached v0 = {p \<in> kept_paths root. \<forall>obj \<in> set cands.
     typed_object_path_v4 root (ref_kind obj) (ref_sha256 obj) = Inr p \<longrightarrow>
     map_option (\<lambda>bs. of_nat (length bs)) (file_at v0 p) = Some (ref_byte_length obj) \<longrightarrow> obj \<in> set reached}"

lemma keeps_lift_bind: "(\<And>a. r = Inr a \<Longrightarrow> keeps I (f a)) \<Longrightarrow> keeps I (bind_io (lift_res r) f)"
  by (cases r) (auto simp: keeps_def bind_io_def lift_res_def)

lemma object_under:
  assumes "typed_object_path_v4 root k s = Inr p" "q \<in> kept_paths root" "under p q"
  shows "q = p"
proof -
  note shape = typed_object_path_shape[OF assms(1)]
  from assms(2) consider l t where "typed_object_path_v4 root l t = Inr q" | part where "part \<in> data_dirs" "under (root @ [part]) q"
    | "under (root @ [''trash'']) q" by (auto simp: kept_paths_def)
  then show ?thesis
  proof cases
    case 1
    from typed_object_path_shape[OF this] shape assms(3) show ?thesis by (auto simp: under_iff)
  next
    case 2
    then have "part \<noteq> ''objects''" by (auto simp: data_dirs_def)
    with 2(2) shape assms(3) show ?thesis by (auto simp: under_iff)
  next
    case 3
    with shape assms(3) show ?thesis by (auto simp: under_iff)
  qed
qed

lemma staging_not_kept: "p \<in> kept_paths root \<Longrightarrow> \<not> under (purge_staging root op_id @ q) p"
  using work_not_kept[of "''quarantine''" p root "[''trash-purge'', op_id] @ q"]
  by (simp add: purge_staging_def work_dirs_def)

lemma staging_not_in: "S \<subseteq> kept_paths root \<Longrightarrow> purge_staging root op_id @ q \<notin> S"
  using staging_not_kept[of "purge_staging root op_id @ q" root op_id q] by auto

lemma frame_finish_step:
  assumes "obj \<in> set cands" and sub: "S \<subseteq> spared root cands reached v0"
  shows "keeps (same_files S v0) (finish_step root (purge_staging root op_id) reached obj acc)"
proof -
  have S: "S \<subseteq> kept_paths root" using sub by (auto simp: spared_def)
  let ?dst = "staged_object_path (purge_staging root op_id) obj"
  have dst: "\<not> under ?dst q" if "q \<in> S" for q
    using that S staging_not_kept[of q root op_id] unfolding staged_object_path_def by auto
  have out: "?dst \<notin> S" using staging_not_in[OF S, of op_id] unfolding staged_object_path_def by auto
  have del: "keeps (same_files S v0) (delete_staged ?dst acc)"
    unfolding delete_staged_def by (intro keeps_rules out)
  show ?thesis
    unfolding finish_step_def Let_def
  proof (intro keeps_lift_bind keeps_read_bind keeps_prod keeps_if del keeps_lift
      keeps_bind[OF frame_create_dir_all] keeps_bind[OF frame_rename])
    fix source v a present observed u q
    assume path: "typed_object_path_v4 root (ref_kind obj) (ref_sha256 obj) = Inr source"
      and I: "same_files S v0 v" and a: "Inr (exists_at v source, file_at v source) = Inr a" "a = (present, observed)"
      and ok: "ensure (\<not> (observed = None \<or> map_option (\<lambda>bs. of_nat (length bs)) observed
            \<noteq> Some (ref_byte_length obj))) (''local purge object changed after planning: '' @ ref_sha256 obj) = Inr u"
      and nr: "obj \<notin> set reached" and q: "q \<in> S"
    have "source \<notin> S"
    proof
      assume s: "source \<in> S"
      with I have "file_at v0 source = file_at v source" by (simp add: same_files_def)
      with ok s sub assms(1) path nr a show False by (auto simp: spared_def)
    qed
    with object_under[OF path] S q dst[OF q] show "\<not> under source q \<and> \<not> under ?dst q" by blast
  qed
qed

lemma frame_cleanup [keeps_rules]:
  assumes "S \<subseteq> kept_paths root" "pj_staging_root j = purge_staging root op_id" "pj_repository_root j = root"
  shows "keeps (same_files S v0) (finish_cleanup L (purge_journal_path root op_id) j)"
proof -
  have st: "\<not> under (purge_staging root op_id @ x) q" if "q \<in> S" for q x
    using that assms(1) staging_not_kept[of q root op_id x] by auto
  have st0: "purge_staging root op_id \<notin> S" using staging_not_in[OF assms(1), of op_id "[]"] by simp
  have idx: "root @ [''index'', ''source-objects-v4.json''] \<notin> S"
    using work_not_in[OF _ assms(1), of "''index''" "[''source-objects-v4.json'']"] by (simp add: work_dirs_def)
  show ?thesis
    unfolding finish_cleanup_def remove_if_exists_def invalidate_source_object_index_def Let_def assms(2,3)
      purge_journal_path_def
    by (intro keeps_rules assms(1) st st0 idx)
qed

text \<open>
  C6: completing a purge deletes only unreachable objects. Whatever call fails and wherever the
  completion stops, a file of the repository's objects, snapshots, metadata, tracking data, backups
  or trash that it changes or removes is an object that the plan lists as a candidate with exactly
  this length, and that the reachability computed in this very run, after the plan was committed,
  does not contain.
\<close>
theorem purge_spares_reachable:
  assumes "finish_local_trash_purge_v4 L (purge_journal_path root op_id) j F d = (res, d')"
    and "pj_staging_root j = purge_staging root op_id" and "pj_repository_root j = root"
    and "p \<in> kept_paths root" and "file_at (volume_of d') p \<noteq> file_at (volume_of d) p"
  shows "\<exists>obj bs reachable d1. obj \<in> set (pp_candidate_objects (pj_plan j))
    \<and> typed_object_path_v4 root (ref_kind obj) (ref_sha256 obj) = Inr p
    \<and> file_at (volume_of d) p = Some bs \<and> of_nat (length bs) = ref_byte_length obj
    \<and> collect_reachable_objects_v4 L root [] F d = (Inr reachable, d1) \<and> obj \<notin> set reachable"
proof (rule ccontr)
  assume no: "\<not> ?thesis"
  let ?c = "pp_candidate_objects (pj_plan j)" and ?I = "same_files {p} (volume_of d)"
  have S: "{p} \<subseteq> kept_paths root" using assms(4) by simp
  have spared: "{p} \<subseteq> spared root ?c reached (volume_of d)"
    if "collect_reachable_objects_v4 L root [] F d = (Inr reached, d1)" for reached d1
    using no that assms(4) unfolding spared_def by fastforce
  have objects: "?I (volume_of (snd (finish_objects L j F d)))"
    unfolding finish_objects_def assms(2,3)
    by (rule keeps_bind_run[OF frame_collect[OF S]])
      (auto intro: keeps_foreach frame_finish_step dest: spared)
  have rest: "keeps ?I (finish_cleanup L (purge_journal_path root op_id) (j\<lparr>pj_status := st, pj_updated_at := now\<rparr>))"
    for st now by (rule frame_cleanup[OF S]) (simp_all add: assms(2,3))
  have wr: "keeps ?I (write_root_io L (purge_journal_path root op_id) x)" for x
    unfolding purge_journal_path_def by (rule frame_write_root[OF S])
  have complete: "keeps ?I (complete_purge L (purge_journal_path root op_id) j acc)" for acc
    unfolding complete_purge_def Let_def by (intro keeps_rules rest wr)
  obtain r d1 where run: "finish_objects L j F d = (r, d1)" by fastforce
  have "?I (volume_of (snd (finish_local_trash_purge_v4 L (purge_journal_path root op_id) j F d)))"
    using objects complete
    by (cases r) (simp_all add: finish_local_trash_purge_v4_def bind_io_def attempt_io_def lift_res_def run keeps_def)
  with assms(1,5) show False by (simp add: same_files_def)
qed

definition toy_id :: "char \<Rightarrow> string" where
  "toy_id c = ''sha256:'' @ replicate 64 c"

definition toy_object_file :: "path \<Rightarrow> string \<Rightarrow> char \<Rightarrow> bytes \<Rightarrow> volume" where
  "toy_object_file root dir c b =
     [(root @ [''objects'', dir, ''sha256'', [c, c]], DirEntry),
      (root @ [''objects'', dir, ''sha256'', [c, c], replicate 62 c], FileEntry b)]"

definition toy_dirs :: "path list" where
  "toy_dirs = [''r''] # map (\<lambda>p. ''r'' # p) ([''objects''] # [''objects'', ''whole''] # [''objects'', ''chunks''] # [''objects'', ''chunk-manifests''] #
     [''objects'', ''threads''] # [''objects'', ''revision-roots''] # [''objects'', ''snapshot-overlays''] # [''metadata''] # [''trash''] # repository_directories)"

definition toy_snapshot_root :: snapshot_root_v4 where
  "toy_snapshot_root = \<lparr>sr_schema_version = 4, sr_normalization_schema_version = 1, sr_snapshot_id = ''s'', sr_created_at = ''t'',
     sr_threads = [], sr_overlay_sha256 = toy_id (CHR ''a''), sr_warning_count = 0\<rparr>"

definition toy_repository :: volume where
  "toy_repository = map (\<lambda>p. (p, DirEntry)) toy_dirs
     @ [([''r'', ''format.json''], FileEntry ''f'')]
     @ toy_object_file [''r''] ''snapshot-overlays'' (CHR ''a'') ''xyz''
     @ toy_object_file [''r''] ''whole'' (CHR ''b'') ''uv''
     @ [([''r'', ''snapshots'', ''k.json''], FileEntry ''x''),
        ([''r'', ''trash'', ''snapshots'', ''o''], DirEntry),
        ([''r'', ''trash'', ''snapshots'', ''o'', ''entry.json''], FileEntry ''x''),
        ([''r'', ''trash'', ''snapshots'', ''o'', ''snapshot.json''], FileEntry ''x'')]"

definition toy_lib :: repository_lib where
  "toy_lib = \<lparr>rl_json = toy_text, rl_parsers = \<lparr>parse_manifest = \<lambda>_. None, parse_descriptor = \<lambda>_. None, parse_overlay = \<lambda>_. None,
       parse_snapshot_root = \<lambda>_. Some toy_snapshot_root, parse_revision_root = \<lambda>_. None\<rparr>, rl_hash = toy_hash,
     rl_format = \<lambda>_. Some \<lparr>fm_format = V4_FORMAT_MARKER, fm_storage_protocol_version = 4, fm_normalization_schema_version = 1\<rparr>,
     rl_trash_entry = \<lambda>_. Some \<lparr>te_operation_id = ''o'', te_snapshot_id = ''s'', te_trashed_at = ''t'',
        te_original_manifest_path = [], te_trash_manifest_path = []\<rparr>,
     rl_journal = \<lambda>_. None, rl_is_uuid = \<lambda>_. True, rl_now = \<lambda>_. ''t'', rl_new_uuid = \<lambda>_. ''u''\<rparr>"

definition toy_disk :: disk where "toy_disk = \<lparr>volume_of = toy_repository, clock = 0\<rparr>"


definition toy_purge_journal :: local_trash_purge_journal_v4 where
  "toy_purge_journal = \<lparr>pj_schema_version = 1, pj_operation_id = ''u'', pj_status = Committed, pj_repository_root = [''r''],
     pj_staging_root = purge_staging [''r''] ''u'', pj_plan = \<lparr>pp_schema_version = 1, pp_created_at = ''t'', pp_operation_ids = [''o''],
       pp_trash_entry_count = 1, pp_candidate_objects =
         [\<lparr>ref_kind = Whole, ref_sha256 = toy_id (CHR ''b''), ref_byte_length = 2\<rparr>,
          \<lparr>ref_kind = SnapshotOverlay, ref_sha256 = toy_id (CHR ''a''), ref_byte_length = 3\<rparr>],
       pp_object_reclaimable_bytes = 2, pp_trash_metadata_bytes = 2, pp_retained_shared_bytes = 3, pp_plan_fingerprint = ''f''\<rparr>,
     pj_created_at = ''t'', pj_updated_at = ''t'', pj_error = None\<rparr>"


theorem purge_spares_reachable_witness:
  "\<exists>reachable d1. collect_reachable_objects_v4 toy_lib [''r''] [] (\<lambda>_. None) toy_disk = (Inr reachable, d1)
     \<and> \<lparr>ref_kind = Whole, ref_sha256 = toy_id (CHR ''b''), ref_byte_length = 2\<rparr> \<notin> set reachable"
proof -
  let ?p = "[''r'', ''objects'', ''whole'', ''sha256'', ''bb'', replicate 62 (CHR ''b'')]"
  let ?run = "finish_local_trash_purge_v4 toy_lib (purge_journal_path [''r''] ''u'') toy_purge_journal (\<lambda>_. None) toy_disk"
  obtain res d' where run: "?run = (res, d')" by fastforce
  have "file_at (volume_of (snd ?run)) ?p = None" by code_simp
  then have gone: "file_at (volume_of d') ?p = None" by (simp add: run)
  have here: "file_at (volume_of toy_disk) ?p = Some ''uv''" by code_simp
  have path: "typed_object_path_v4 [''r''] Whole (toy_id (CHR ''b'')) = Inr ?p" by code_simp
  have other: "typed_object_path_v4 [''r''] SnapshotOverlay (toy_id (CHR ''a'')) \<noteq> Inr ?p" by code_simp
  have "?p \<in> kept_paths [''r'']" using path by (auto simp: kept_paths_def)
  moreover have "pj_staging_root toy_purge_journal = purge_staging [''r''] ''u''" "pj_repository_root toy_purge_journal = [''r'']"
    by (simp_all add: toy_purge_journal_def)
  ultimately obtain obj where "obj \<in> set (pp_candidate_objects (pj_plan toy_purge_journal))"
    "typed_object_path_v4 [''r''] (ref_kind obj) (ref_sha256 obj) = Inr ?p"
    "\<exists>reachable d1. collect_reachable_objects_v4 toy_lib [''r''] [] (\<lambda>_. None) toy_disk = (Inr reachable, d1) \<and> obj \<notin> set reachable"
    using purge_spares_reachable[OF run] gone here by fastforce
  with other show ?thesis by (auto simp: toy_purge_journal_def)
qed

section \<open>What a plan selects\<close>

lemma check_all:
  "foldr_res (\<lambda>x _. c x) xs () = Inr u \<Longrightarrow> x \<in> set xs \<Longrightarrow> c x = Inr ()"
  by (induction xs) (auto simp: bindr_eq_Inr_iff)

lemma select_operations_Inr:
  assumes "select_operations L roots requested False = Inr ids"
  shows "ids = btree_set requested" "length ids = length requested" "\<forall>x \<in> set ids. bt_contains roots x"
proof -
  from assms obtain u where ids: "ids = btree_set requested" and len: "length ids = length requested"
    and all_in: "foldr_res (\<lambda>x _. bindr (ensure (rl_is_uuid L x) ''invalid local trash operation ID'') (\<lambda>_.
        ensure (bt_contains roots x) (''local trash operation not found: '' @ x))) ids () = Inr u"
    by (auto simp: select_operations_def Let_def bindr_eq_Inr_iff)
  from ids len show "ids = btree_set requested" "length ids = length requested" by simp_all
  show "\<forall>x \<in> set ids. bt_contains roots x"
    using check_all[OF all_in] by (auto simp: bindr_eq_Inr_iff)
qed

text \<open>
  the purge plan selects exactly the garbage. A plan that is built lists, of the objects the
  repository holds, those that no snapshot, no revision root and no trash entry outside the
  selection reaches; the selected operations are the requested ones, each once and in order, and
  all of them are in the trash; the reclaimable bytes are the sum of the candidates' lengths
  without wrapping around.
\<close>
theorem purge_plan_exact:
  assumes "plan_local_trash_purge_v4 L root requested False F d = (Inr plan, d')"
  shows "\<exists>objs reachable v roots. enumerate_repository_objects_v4 (volume_of d') root ALL_kinds = Inr objs
    \<and> reachable_objects L root (pp_operation_ids plan) (volume_of d') = Inr reachable
    \<and> set (pp_candidate_objects plan) = set objs - set reachable
    \<and> unat (pp_object_reclaimable_bytes plan) = sum_list (map (\<lambda>r. unat (ref_byte_length r)) (pp_candidate_objects plan))
    \<and> pp_operation_ids plan = btree_set requested \<and> length requested = length (pp_operation_ids plan)
    \<and> load_local_trash_roots_v4 L root v = Inr roots \<and> (\<forall>x \<in> set requested. bt_contains roots x)"
proof -
  from assms obtain trash_roots operation_ids d0 reachable d1 objs d2 n d3 d4 where
    loaded: "read_io (load_local_trash_roots_v4 L root) F d3 = (Inr trash_roots, d4)"
    and sel: "select_operations L trash_roots requested False = Inr operation_ids"
    and reach: "collect_reachable_objects_v4 L root operation_ids F d0 = (Inr reachable, d1)"
    and enum: "read_io (\<lambda>v. enumerate_repository_objects_v4 v root ALL_kinds) F d1 = (Inr objs, d2)"
    and tot: "checked_sum 0 (map ref_byte_length (difference objs reachable)) = Some n"
    and ask: "ask_io (rl_now L) F d2 = (Inr (pp_created_at plan), d')"
    and plan: "pp_operation_ids plan = operation_ids" "pp_candidate_objects plan = difference objs reachable"
      "pp_object_reclaimable_bytes plan = n"
    unfolding plan_local_trash_purge_v4_def Let_def
    by (auto elim!: bind_io_run simp: lift_res_run)
  from reach obtain d5 st where "read_io (reachable_objects L root operation_ids) F d5 = (Inr reachable, d1)"
    unfolding collect_reachable_objects_v4_def by (elim bind_io_run)
  from read_io_run[OF this] read_io_run[OF enum] ask_io_run[OF ask]
  have "reachable_objects L root operation_ids (volume_of d') = Inr reachable"
    "enumerate_repository_objects_v4 (volume_of d') root ALL_kinds = Inr objs" by simp_all
  moreover have "unat n = sum_list (map (\<lambda>r. unat (ref_byte_length r)) (difference objs reachable))"
    using checked_sum_unat[OF tot] by (simp add: o_def)
  moreover have "set (difference objs reachable) = set objs - set reachable" by (auto simp: difference_def)
  moreover from read_io_run[OF loaded] have "load_local_trash_roots_v4 L root (volume_of d3) = Inr trash_roots" by simp
  moreover have "\<forall>x \<in> set requested. bt_contains trash_roots x" using select_operations_Inr(1,3)[OF sel] by simp
  ultimately show ?thesis using select_operations_Inr[OF sel] plan
    by (intro exI[of _ objs] exI[of _ reachable] exI[of _ "volume_of d3"] exI[of _ trash_roots]) simp
qed

theorem purge_plan_exact_witness:
  "\<exists>reachable (d' :: disk). reachable_objects toy_lib [''r''] [''o''] (volume_of d') = Inr reachable
     \<and> \<lparr>ref_kind = Whole, ref_sha256 = toy_id (CHR ''b''), ref_byte_length = 2\<rparr> \<notin> set reachable"
proof -
  let ?run = "plan_local_trash_purge_v4 toy_lib [''r''] [''o''] False (\<lambda>_. None) toy_disk"
  obtain r d' where run: "?run = (r, d')" by fastforce
  have "map_sum id pp_candidate_objects (fst ?run)
      = Inr [\<lparr>ref_kind = Whole, ref_sha256 = toy_id (CHR ''b''), ref_byte_length = 2\<rparr>]" by code_simp
  then obtain plan where plan: "r = Inr plan" "pp_candidate_objects plan
      = [\<lparr>ref_kind = Whole, ref_sha256 = toy_id (CHR ''b''), ref_byte_length = 2\<rparr>]"
    by (cases r) (auto simp: run)
  have sorted: "btree_set [''o''] = [''o'']" by code_simp
  from purge_plan_exact[OF run[unfolded plan(1)]] obtain objs reachable where
    r: "reachable_objects toy_lib [''r''] (pp_operation_ids plan) (volume_of d') = Inr reachable"
    "set (pp_candidate_objects plan) = set objs - set reachable" "pp_operation_ids plan = btree_set [''o'']" by blast
  have "\<lparr>ref_kind = Whole, ref_sha256 = toy_id (CHR ''b''), ref_byte_length = 2\<rparr> \<in> set (pp_candidate_objects plan)"
    by (simp add: plan(2))
  then have "\<lparr>ref_kind = Whole, ref_sha256 = toy_id (CHR ''b''), ref_byte_length = 2\<rparr> \<notin> set reachable"
    unfolding r(2) Diff_iff by blast
  with r(1) show ?thesis unfolding r(3) sorted by blast
qed

end
