(* ===== verification/PurgeRollback.thy ===== *)
theory PurgeRollback
  imports PurgeProps
begin

text \<open>
  An interrupted purge gives the trash back: a purge that stops before its commit leaves every
  selected entry whole, either in the trash or in its staging directory, and so does an
  interrupted rollback; an undisturbed recovery moves all of them home.
\<close>

section \<open>Frames of entries\<close>

definition same_entries :: "path set \<Rightarrow> volume \<Rightarrow> volume \<Rightarrow> bool" where
  "same_entries S v0 v \<longleftrightarrow> (\<forall>p \<in> S. entry_at v p = entry_at v0 p)"

lemma entries_write: "p \<notin> S \<Longrightarrow> keeps (same_entries S v0) (write_io p b)"
  by (rule keeps_write) (auto simp: same_entries_def fs_write_entry)

lemma entries_create_dir_all:
  assumes "\<And>q. q \<in> S \<Longrightarrow> \<not> under q p"
  shows "keeps (same_entries S v0) (create_dir_all_io p)"
proof (rule keeps_create_dir_all)
  fix v v' n assume s: "same_entries S v0 v" and c: "fs_create_dir_all (take n p) v = Inr v'"
  { fix q assume q: "q \<in> S"
    have "\<not> under q (take n p)"
    proof
      assume "under q (take n p)"
      then obtain t where "take n p = q @ t" by (auto simp: under_iff)
      then have "p = q @ (t @ drop n p)" by (metis append_assoc append_take_drop_id)
      with assms[OF q] show False by (auto simp: under_iff)
    qed
    with fs_create_dir_all_entry[OF c, of q] s q have "entry_at v' q = entry_at v0 q" by (auto simp: same_entries_def) }
  then show "same_entries S v0 v'" by (simp add: same_entries_def)
qed

lemma entries_rename:
  "(\<And>q. q \<in> S \<Longrightarrow> \<not> under s q \<and> \<not> under d q) \<Longrightarrow> keeps (same_entries S v0) (atomic_io (fs_rename s d))"
  by (rule keeps_atomic) (auto simp: same_entries_def fs_rename_elsewhere)

section \<open>Whole entries, at home or staged\<close>

definition at_home :: "path \<Rightarrow> path \<Rightarrow> volume \<Rightarrow> string \<Rightarrow> volume \<Rightarrow> bool" where
  "at_home root staging v0 x v \<longleftrightarrow>
     (\<forall>t. entry_at v (trash_entry_path root x @ t) = entry_at v0 (trash_entry_path root x @ t)
       \<and> entry_at v (staged_entry_path staging x @ t) = None)"

definition staged_away :: "path \<Rightarrow> path \<Rightarrow> volume \<Rightarrow> string \<Rightarrow> volume \<Rightarrow> bool" where
  "staged_away root staging v0 x v \<longleftrightarrow>
     (\<forall>t. entry_at v (trash_entry_path root x @ t) = None
       \<and> entry_at v (staged_entry_path staging x @ t) = entry_at v0 (trash_entry_path root x @ t))"

definition other_trash :: "path \<Rightarrow> string list \<Rightarrow> path set" where
  "other_trash root ids = {p. under (root @ [''trash'']) p \<and> (\<forall>x \<in> set ids. \<not> under (trash_entry_path root x) p)}"

definition whole_entries :: "path \<Rightarrow> path \<Rightarrow> volume \<Rightarrow> string list \<Rightarrow> string set \<Rightarrow> volume \<Rightarrow> bool" where
  "whole_entries root staging v0 ids A v \<longleftrightarrow>
     same_entries (other_trash root ids) v0 v
     \<and> (\<forall>x \<in> set ids. at_home root staging v0 x v \<or> (x \<notin> A \<and> staged_away root staging v0 x v))"

definition purge_start :: "path \<Rightarrow> path \<Rightarrow> string list \<Rightarrow> volume \<Rightarrow> bool" where
  "purge_start root staging ids v0 \<longleftrightarrow> dir_at v0 (root @ [''trash'', ''snapshots''])
     \<and> (\<forall>x \<in> set ids. entry_at v0 (trash_entry_path root x) \<noteq> None
        \<and> (\<forall>t. entry_at v0 (staged_entry_path staging x @ t) = None))"

lemma paths_differ:
  "\<not> under (trash_entry_path root x) (staged_entry_path (purge_staging root op_id) y @ t)"
  "\<not> under (staged_entry_path (purge_staging root op_id) y) (trash_entry_path root x @ t)"
  "under (trash_entry_path root x) (trash_entry_path root y @ t) \<longleftrightarrow> x = y"
  "under (staged_entry_path (purge_staging root op_id) x) (staged_entry_path (purge_staging root op_id) y @ t) \<longleftrightarrow> x = y"
  "trash_entry_path root x \<noteq> staged_entry_path (purge_staging root op_id) y"
  by (auto simp: under_iff trash_entry_path_def staged_entry_path_def purge_staging_def)

lemma whole_mono: "whole_entries root (purge_staging root op_id) v0 ids B v \<Longrightarrow> A \<subseteq> B \<Longrightarrow> whole_entries root (purge_staging root op_id) v0 ids A v"
  by (auto simp: whole_entries_def)

lemma whole_frame:
  assumes "\<And>v1. keeps (same_entries {p. under (root @ [''trash'']) p
      \<or> (\<exists>x. under (staged_entry_path (purge_staging root op_id) x) p)} v1) m"
  shows "keeps (whole_entries root (purge_staging root op_id) v0 ids A) m"
  unfolding keeps_def
proof (intro allI impI)
  fix F :: faults and d :: disk
  let ?S = "{p. under (root @ [''trash'']) p \<or> (\<exists>x. under (staged_entry_path (purge_staging root op_id) x) p)}"
  assume w: "whole_entries root (purge_staging root op_id) v0 ids A (volume_of d)"
  have "same_entries ?S (volume_of d) (volume_of (snd (m F d)))"
    using assms unfolding keeps_def by (simp add: same_entries_def)
  then have e: "entry_at (volume_of (snd (m F d))) p = entry_at (volume_of d) p" if "p \<in> ?S" for p
    using that unfolding same_entries_def by blast
  have t: "entry_at (volume_of (snd (m F d))) (trash_entry_path root x @ t) = entry_at (volume_of d) (trash_entry_path root x @ t)"
    "entry_at (volume_of (snd (m F d))) (staged_entry_path (purge_staging root op_id) x @ t) = entry_at (volume_of d) (staged_entry_path (purge_staging root op_id) x @ t)" for x t
    by (rule e, simp add: trash_entry_path_def under_iff) (rule e, use under_append in blast)
  have "entry_at (volume_of (snd (m F d))) p = entry_at (volume_of d) p" if "p \<in> other_trash root ids" for p
    using that by (intro e) (simp add: other_trash_def)
  with w t show "whole_entries root (purge_staging root op_id) v0 ids A (volume_of (snd (m F d)))"
    unfolding whole_entries_def at_home_def staged_away_def same_entries_def by simp
qed

text \<open>Renames between an entry's two places.\<close>

lemma move_keeps_others:
  assumes "fs_rename s d v = Inr v'" and "s = trash_entry_path root x \<and> d = staged_entry_path (purge_staging root op_id) x
    \<or> s = staged_entry_path (purge_staging root op_id) x \<and> d = trash_entry_path root x" and "x \<in> set ids"
  shows "y \<noteq> x \<Longrightarrow> at_home root (purge_staging root op_id) v0 y v' = at_home root (purge_staging root op_id) v0 y v"
    and "y \<noteq> x \<Longrightarrow> staged_away root (purge_staging root op_id) v0 y v' = staged_away root (purge_staging root op_id) v0 y v"
    and "same_entries (other_trash root ids) v0 v' = same_entries (other_trash root ids) v0 v"
proof -
  have other: "entry_at v' (trash_entry_path root y @ t) = entry_at v (trash_entry_path root y @ t)"
    "entry_at v' (staged_entry_path (purge_staging root op_id) y @ t) = entry_at v (staged_entry_path (purge_staging root op_id) y @ t)" if "y \<noteq> x" for y t
    using fs_rename_elsewhere[OF assms(1)] assms(2) that paths_differ by metis+
  show "y \<noteq> x \<Longrightarrow> at_home root (purge_staging root op_id) v0 y v' = at_home root (purge_staging root op_id) v0 y v"
    "y \<noteq> x \<Longrightarrow> staged_away root (purge_staging root op_id) v0 y v' = staged_away root (purge_staging root op_id) v0 y v"
    by (simp_all add: at_home_def staged_away_def other)
  have "\<not> under (staged_entry_path (purge_staging root op_id) x) p" if "p \<in> other_trash root ids" for p
    using that by (auto simp: other_trash_def under_iff staged_entry_path_def purge_staging_def)
  then have "entry_at v' p = entry_at v p" if "p \<in> other_trash root ids" for p
    using that fs_rename_elsewhere[OF assms(1)] assms(2,3) by (auto simp: other_trash_def)
  then show "same_entries (other_trash root ids) v0 v' = same_entries (other_trash root ids) v0 v"
    by (simp add: same_entries_def)
qed

lemma move_whole:
  assumes "fs_rename s d v = Inr v'" and "s = trash_entry_path root x \<and> d = staged_entry_path (purge_staging root op_id) x
    \<or> s = staged_entry_path (purge_staging root op_id) x \<and> d = trash_entry_path root x" and "x \<in> set ids"
    and "whole_entries root (purge_staging root op_id) v0 ids A v"
    and "at_home root (purge_staging root op_id) v0 x v' \<or> (x \<notin> A \<and> staged_away root (purge_staging root op_id) v0 x v')"
  shows "whole_entries root (purge_staging root op_id) v0 ids A v'"
  unfolding whole_entries_def
proof (intro conjI ballI)
  show "same_entries (other_trash root ids) v0 v'"
    using move_keeps_others(3)[OF assms(1-3)] assms(4) by (simp add: whole_entries_def)
next
  fix y assume "y \<in> set ids"
  with move_keeps_others(1,2)[OF assms(1-3), of y] assms(4,5)
  show "at_home root (purge_staging root op_id) v0 y v' \<or> (y \<notin> A \<and> staged_away root (purge_staging root op_id) v0 y v')"
    by (cases "y = x") (auto simp: whole_entries_def)
qed

lemma stage_moves:
  assumes "fs_rename (trash_entry_path root x) (staged_entry_path (purge_staging root op_id) x) v = Inr v'" "at_home root (purge_staging root op_id) v0 x v"
  shows "staged_away root (purge_staging root op_id) v0 x v'"
  using fs_rename_entry[OF assms(1) paths_differ(5)] assms(2) paths_differ
  unfolding staged_away_def at_home_def by (metis append_Nil2 append_eq_conv_conj under_append)

lemma back_moves:
  assumes "fs_rename (staged_entry_path (purge_staging root op_id) x) (trash_entry_path root x) v = Inr v'" "staged_away root (purge_staging root op_id) v0 x v"
  shows "at_home root (purge_staging root op_id) v0 x v'"
  using fs_rename_entry[OF assms(1) paths_differ(5)[symmetric]] assms(2) paths_differ
  unfolding staged_away_def at_home_def by (metis append_Nil2 append_eq_conv_conj under_append)

lemma whole_stage_entry:
  assumes "x \<in> set ids"
  shows "keeps (whole_entries root (purge_staging root op_id) v0 ids {}) (stage_entry root (purge_staging root op_id) x)"
  unfolding stage_entry_def
proof (intro keeps_catch keeps_lift keeps_atomic)
  fix v v' assume w: "whole_entries root (purge_staging root op_id) v0 ids {} v"
    and mv: "fs_rename (trash_entry_path root x) (staged_entry_path (purge_staging root op_id) x) v = Inr v'"
  from mv have "entry_at v (trash_entry_path root x @ []) \<noteq> None" by (auto simp: fs_rename_def bindr_eq_Inr_iff)
  then have "\<not> staged_away root (purge_staging root op_id) v0 x v" unfolding staged_away_def by metis
  with w assms have "at_home root (purge_staging root op_id) v0 x v" by (auto simp: whole_entries_def)
  from stage_moves[OF mv this] w
  show "whole_entries root (purge_staging root op_id) v0 ids {} v'" by (intro move_whole[OF mv _ assms]) simp_all
qed

lemma exists_in_whole:
  assumes start: "purge_start root (purge_staging root op_id) ids v0" and "x \<in> set ids"
  shows "at_home root (purge_staging root op_id) v0 x v \<Longrightarrow> \<not> exists_at v (staged_entry_path (purge_staging root op_id) x)"
    and "staged_away root (purge_staging root op_id) v0 x v \<Longrightarrow> exists_at v (staged_entry_path (purge_staging root op_id) x)
      \<and> \<not> exists_at v (trash_entry_path root x)"
proof -
  have ne: "staged_entry_path (purge_staging root op_id) x \<noteq> []" "trash_entry_path root x \<noteq> []"
    by (simp_all add: staged_entry_path_def trash_entry_path_def)
  show "at_home root (purge_staging root op_id) v0 x v \<Longrightarrow> \<not> exists_at v (staged_entry_path (purge_staging root op_id) x)"
    unfolding at_home_def exists_at_def using ne by (metis append_Nil2)
  show "staged_away root (purge_staging root op_id) v0 x v \<Longrightarrow> exists_at v (staged_entry_path (purge_staging root op_id) x)
      \<and> \<not> exists_at v (trash_entry_path root x)"
    unfolding staged_away_def exists_at_def using ne assms unfolding purge_start_def by (metis append_Nil2)
qed

lemma whole_rollback_step:
  assumes "x \<in> set ids"
  shows "keeps (whole_entries root (purge_staging root op_id) v0 ids A) (rollback_step root (purge_staging root op_id) x)"
  unfolding rollback_step_def Let_def
proof (intro keeps_read_bind keeps_prod keeps_if keeps_lift keeps_atomic)
  fix v v'
  assume w: "whole_entries root (purge_staging root op_id) v0 ids A v"
    and mv: "fs_rename (staged_entry_path (purge_staging root op_id) x) (trash_entry_path root x) v = Inr v'"
  from mv have "entry_at v (staged_entry_path (purge_staging root op_id) x @ []) \<noteq> None" by (auto simp: fs_rename_def bindr_eq_Inr_iff)
  then have "\<not> at_home root (purge_staging root op_id) v0 x v" unfolding at_home_def by metis
  with w assms have "staged_away root (purge_staging root op_id) v0 x v" by (auto simp: whole_entries_def)
  from back_moves[OF mv this] w
  show "whole_entries root (purge_staging root op_id) v0 ids A v'" by (intro move_whole[OF mv _ assms]) simp_all
qed

lemma rollback_step_home:
  assumes start: "purge_start root (purge_staging root op_id) ids v0" and "x \<in> set ids" "whole_entries root (purge_staging root op_id) v0 ids A (volume_of d)"
    and "rollback_step root (purge_staging root op_id) x F d = (Inr u, d')"
  shows "at_home root (purge_staging root op_id) v0 x (volume_of d')"
proof (cases "at_home root (purge_staging root op_id) v0 x (volume_of d)")
  case True
  with exists_in_whole(1)[OF assms(1,2)] assms(4) show ?thesis
    by (auto simp: rollback_step_def Let_def bind_io_Inr lift_res_run dest!: read_io_run)
next
  case False
  with assms(2,3) have s: "staged_away root (purge_staging root op_id) v0 x (volume_of d)" by (auto simp: whole_entries_def)
  with exists_in_whole(2)[OF assms(1,2)] assms(4) obtain d1 where
    "volume_of d1 = volume_of d"
    "atomic_io (fs_rename (staged_entry_path (purge_staging root op_id) x) (trash_entry_path root x)) F d1 = (Inr u, d')"
    by (auto simp: rollback_step_def Let_def bind_io_Inr lift_res_run dest!: read_io_run)
  then have "fs_rename (staged_entry_path (purge_staging root op_id) x) (trash_entry_path root x) (volume_of d) = Inr (volume_of d')"
    by (auto simp: atomic_io_def perform_def bindr_eq_Inr_iff split: option.splits sum.splits prod.splits)
  from back_moves[OF this s] show ?thesis .
qed

lemma rollback_fold_home:
  assumes start: "purge_start root (purge_staging root op_id) ids v0" and "set xs \<subseteq> set ids" "whole_entries root (purge_staging root op_id) v0 ids A (volume_of d)"
    and "foreach_io (\<lambda>x _. rollback_step root (purge_staging root op_id) x) xs () F d = (Inr u, d')"
  shows "whole_entries root (purge_staging root op_id) v0 ids (A \<union> set xs) (volume_of d')"
  using assms(2-)
proof (induction xs arbitrary: A d)
  case Nil
  then show ?case by (simp add: lift_res_run)
next
  case (Cons x xs)
  then obtain d1 where d1: "rollback_step root (purge_staging root op_id) x F d = (Inr (), d1)"
    "foreach_io (\<lambda>x _. rollback_step root (purge_staging root op_id) x) xs () F d1 = (Inr u, d')"
    by (auto simp: bind_io_Inr)
  have "whole_entries root (purge_staging root op_id) v0 ids A (volume_of d1)"
    using whole_rollback_step[of x ids root op_id v0 A] Cons.prems(1,2) d1(1) unfolding keeps_def by (metis list.set_intros(1) snd_conv subsetD)
  with rollback_step_home[OF start _ Cons.prems(2) d1(1)] Cons.prems(1)
  have "whole_entries root (purge_staging root op_id) v0 ids (insert x A) (volume_of d1)" by (auto simp: whole_entries_def)
  from Cons.IH[OF _ this d1(2)] Cons.prems(1) show ?case by simp
qed

section \<open>The phases of a purge before its commit\<close>

lemma keeps_bind_post:
  assumes "keeps I m" and "\<And>F d a d'. I (volume_of d) \<Longrightarrow> m F d = (Inr a, d') \<Longrightarrow> Q (volume_of d')"
    and "\<And>a. keeps Q (f a)" and "\<And>v. Q v \<Longrightarrow> I v"
  shows "keeps I (bind_io m f)"
  unfolding keeps_def
proof (intro allI impI)
  fix F :: faults and d :: disk assume I: "I (volume_of d)"
  obtain r d1 where r: "m F d = (r, d1)" by fastforce
  with assms(1) I have I1: "I (volume_of d1)" unfolding keeps_def by (metis snd_conv)
  show "I (volume_of (snd (bind_io m f F d)))"
  proof (cases r)
    case (Inr a)
    from assms(2)[OF I] r Inr have "Q (volume_of d1)" by simp
    with assms(3,4) r Inr show ?thesis by (simp add: bind_io_def keeps_def)
  qed (use r I1 in \<open>simp add: bind_io_def\<close>)
qed

lemma whole_write_root:
  "keeps (whole_entries root (purge_staging root op_id) v0 ids A) (write_root_io L (purge_journal_path root op_id) x)"
proof (rule whole_frame)
  fix v1
  let ?S = "{p. under (root @ [''trash'']) p \<or> (\<exists>x. under (staged_entry_path (purge_staging root op_id) x) p)}"
  have j: "\<not> under (root @ ''journal'' # t) q \<and> \<not> under q (root @ [''journal''])" if "q \<in> ?S" for q t
  proof -
    from that consider u where "q = root @ ''trash'' # u" | u where "q = root @ ''quarantine'' # u"
      by (auto simp: under_iff staged_entry_path_def purge_staging_def)
    then show ?thesis by cases (auto simp: under_iff)
  qed
  then have "root @ ''journal'' # t \<notin> ?S" for t using under_refl by blast
  with j show "keeps (same_entries ?S v1) (write_root_io L (purge_journal_path root op_id) x)"
    unfolding write_root_io_def Let_def purge_journal_path_def with_extension_journal
    by (intro keeps_bind keeps_if keeps_lift entries_create_dir_all entries_write entries_rename)
      (simp_all add: butlast_append)
qed

lemma whole_remove_staging:
  "keeps (whole_entries root (purge_staging root op_id) v0 ids (set ids)) (remove_dir_all_io (purge_staging root op_id))"
proof -
  let ?st = "purge_staging root op_id"
  have out: "\<not> under ?st (trash_entry_path root x @ t)" "p \<in> other_trash root ids \<Longrightarrow> \<not> under ?st p" for x t p
    by (auto simp: under_iff purge_staging_def trash_entry_path_def other_trash_def)
  have "whole_entries root ?st v0 ids (set ids) v'"
    if w: "whole_entries root ?st v0 ids (set ids) v"
      and e: "\<And>q. entry_at v' q = entry_at v q \<or> (under ?st q \<and> entry_at v' q = None)" for v v'
    unfolding whole_entries_def
  proof (intro conjI ballI disjI1)
    from w e out(2) show "same_entries (other_trash root ids) v0 v'"
      unfolding whole_entries_def same_entries_def by metis
  next
    fix x assume "x \<in> set ids"
    with w have h: "at_home root ?st v0 x v" by (auto simp: whole_entries_def)
    show "at_home root ?st v0 x v'"
      unfolding at_home_def
    proof (intro allI conjI)
      fix t
      from h e[of "trash_entry_path root x @ t"] out(1)
      show "entry_at v' (trash_entry_path root x @ t) = entry_at v0 (trash_entry_path root x @ t)"
        by (auto simp: at_home_def)
      from h e[of "staged_entry_path ?st x @ t"] show "entry_at v' (staged_entry_path ?st x @ t) = None"
        by (auto simp: at_home_def)
    qed
  qed
  note drop = this
  show ?thesis
    by (rule keeps_remove_dir_all; rule drop, assumption)
      (simp add: fs_remove_dir_all_entry, rule entry_at_remove_some)
qed

lemma whole_rollback:
  assumes "purge_start root (purge_staging root op_id) (pp_operation_ids (pj_plan j)) v0"
    and "pj_staging_root j = purge_staging root op_id"
  shows "keeps (whole_entries root (purge_staging root op_id) v0 (pp_operation_ids (pj_plan j)) {})
    (rollback_local_trash_purge_v4 L root (purge_journal_path root op_id) j)"
  unfolding rollback_local_trash_purge_v4_def assms(2)
proof (rule keeps_bind_post)
  let ?ids = "pp_operation_ids (pj_plan j)" and ?st = "purge_staging root op_id"
  show "keeps (whole_entries root ?st v0 ?ids {}) (foreach_io (\<lambda>x _. rollback_step root ?st x) (rev ?ids) ())"
    by (intro keeps_foreach whole_rollback_step) simp
  show "whole_entries root ?st v0 ?ids (set ?ids) (volume_of d')"
    if "whole_entries root ?st v0 ?ids {} (volume_of d)"
      "foreach_io (\<lambda>x _. rollback_step root ?st x) (rev ?ids) () F d = (Inr a, d')" for F d a d'
    using rollback_fold_home[OF assms(1) _ that] by simp
qed (auto intro!: keeps_rules whole_write_root whole_remove_staging dest: whole_mono)

lemma whole_staging:
  assumes "purge_start root (purge_staging root op_id) (pp_operation_ids (pj_plan j)) v0"
    and "pj_staging_root j = purge_staging root op_id"
  shows "keeps (whole_entries root (purge_staging root op_id) v0 (pp_operation_ids (pj_plan j)) {})
    (catch_io (stage_entries L root (purge_journal_path root op_id) j)
      (\<lambda>e. bind_io (rollback_local_trash_purge_v4 L root (purge_journal_path root op_id) j) (\<lambda>_. lift_res (Inl e))))"
  unfolding stage_entries_def assms(2)
  by (intro keeps_rules whole_rollback[OF assms] whole_stage_entry whole_write_root)

lemma purge_start_whole:
  "purge_start root (purge_staging root op_id) ids v \<Longrightarrow> whole_entries root (purge_staging root op_id) v ids {} v"
  by (simp add: purge_start_def whole_entries_def same_entries_def at_home_def)

lemma rollback_step_clean:
  assumes start: "purge_start root (purge_staging root op_id) ids v0" and x: "x \<in> set ids"
    and w: "whole_entries root (purge_staging root op_id) v0 ids A (volume_of d)"
  shows "\<exists>d'. rollback_step root (purge_staging root op_id) x (\<lambda>_. None) d = (Inr (), d')"
proof (cases "at_home root (purge_staging root op_id) v0 x (volume_of d)")
  case True
  with exists_in_whole(1)[OF start x True] show ?thesis
    by (simp add: rollback_step_def Let_def bind_io_def read_io_def perform_def lift_res_def)
next
  case False
  with w x have s: "staged_away root (purge_staging root op_id) v0 x (volume_of d)" by (auto simp: whole_entries_def)
  let ?E = "staged_entry_path (purge_staging root op_id) x" and ?T = "trash_entry_path root x" and ?v = "volume_of d"
  note ex = exists_in_whole(2)[OF start x s]
  have here: "root @ [''trash'', ''snapshots''] \<in> other_trash root ids"
    by (auto simp: other_trash_def under_iff trash_entry_path_def)
  with w start have "dir_at ?v (root @ [''trash'', ''snapshots''])"
    by (auto simp: whole_entries_def same_entries_def purge_start_def dir_at_def)
  then have parent: "dir_at ?v (butlast ?T)" by (simp add: trash_entry_path_def butlast_append)
  from ex have "entry_at ?v ?T = None" "\<exists>e. entry_at ?v ?E = Some e"
    by (auto simp: exists_at_def staged_entry_path_def trash_entry_path_def)
  moreover have "\<not> under ?E ?T" "?E \<noteq> ?T" "?E \<noteq> []" "?T \<noteq> []"
    using paths_differ(2)[of root op_id x x "[]"] paths_differ(5)[of root x op_id x]
    by (auto simp: staged_entry_path_def trash_entry_path_def)
  ultimately have "\<exists>v'. fs_rename ?E ?T ?v = Inr v'" using parent by (auto simp: fs_rename_def)
  with ex show ?thesis
    by (auto simp: rollback_step_def Let_def bind_io_def read_io_def perform_def lift_res_def atomic_io_def)
qed

lemma rollback_fold_clean:
  assumes start: "purge_start root (purge_staging root op_id) ids v0" and "set xs \<subseteq> set ids"
    and "whole_entries root (purge_staging root op_id) v0 ids A (volume_of d)"
  shows "\<exists>d'. foreach_io (\<lambda>x _. rollback_step root (purge_staging root op_id) x) xs () (\<lambda>_. None) d = (Inr (), d')
    \<and> whole_entries root (purge_staging root op_id) v0 ids (A \<union> set xs) (volume_of d')"
proof -
  have "\<exists>d'. foreach_io (\<lambda>x _. rollback_step root (purge_staging root op_id) x) xs () (\<lambda>_. None) d = (Inr (), d')"
    using assms(2,3)
  proof (induction xs arbitrary: d)
    case (Cons x xs)
    from rollback_step_clean[OF start _ Cons.prems(2), of x] Cons.prems(1) obtain d1 where
      d1: "rollback_step root (purge_staging root op_id) x (\<lambda>_. None) d = (Inr (), d1)" by auto
    have "whole_entries root (purge_staging root op_id) v0 ids A (volume_of d1)"
      using whole_rollback_step[of x ids root op_id v0 A] Cons.prems d1
      unfolding keeps_def by (metis list.set_intros(1) snd_conv subsetD)
    with Cons.IH[of d1] Cons.prems(1) d1 show ?case by (simp add: bind_io_def)
  qed (simp add: lift_res_def)
  with rollback_fold_home[OF assms] show ?thesis by blast
qed

lemma whole_all_home:
  assumes "whole_entries root (purge_staging root op_id) v0 ids (set ids) v" "under (root @ [''trash'']) p"
  shows "entry_at v p = entry_at v0 p"
proof (cases "\<exists>x \<in> set ids. under (trash_entry_path root x) p")
  case True
  then obtain x t where "x \<in> set ids" "p = trash_entry_path root x @ t" by (auto simp: under_iff)
  with assms(1) show ?thesis by (auto simp: whole_entries_def at_home_def)
next
  case False
  with assms show ?thesis by (auto simp: whole_entries_def same_entries_def other_trash_def)
qed

text \<open>
  C13: an uncommitted purge is undone. Start from a repository whose selected entries are in the
  trash, stage them with arbitrary failing calls (including the rollback that a failure triggers),
  crash, run a first recovery that may itself fail anywhere, and then an undisturbed recovery of
  the journal, which still says \<open>Preparing\<close> or \<open>EntriesStaged\<close>: everything below the trash
  is again exactly what it was before the purge.
\<close>
theorem uncommitted_purge_undone:
  assumes "pj_staging_root j = purge_staging root op_id"
    and "purge_start root (purge_staging root op_id) (pp_operation_ids (pj_plan j)) (volume_of d)"
    and "catch_io (stage_entries L root (purge_journal_path root op_id) j)
          (\<lambda>e. bind_io (rollback_local_trash_purge_v4 L root (purge_journal_path root op_id) j) (\<lambda>_. lift_res (Inl e)))
          F1 d = (r1, d1)"
    and "pj_status j' \<in> {Preparing, EntriesStaged}" "pj_plan j' = pj_plan j" "pj_staging_root j' = pj_staging_root j"
    and "recover_journal L root (purge_journal_path root op_id) j' F2 d1 = (r2, d2)"
    and "recover_journal L root (purge_journal_path root op_id) j' (\<lambda>_. None) d2 = (r3, d3)"
    and "under (root @ [''trash'']) p"
  shows "entry_at (volume_of d3) p = entry_at (volume_of d) p"
proof -
  let ?ids = "pp_operation_ids (pj_plan j)" and ?st = "purge_staging root op_id"
  let ?W = "whole_entries root ?st (volume_of d) ?ids"
  have st': "pj_staging_root j' = ?st" "pp_operation_ids (pj_plan j') = ?ids" using assms(1,5,6) by simp_all
  have start': "purge_start root ?st (pp_operation_ids (pj_plan j')) (volume_of d)" using assms(2,5) by simp
  have rec: "recover_journal L root (purge_journal_path root op_id) j'
      = rollback_local_trash_purge_v4 L root (purge_journal_path root op_id) j'"
    using assms(4) by (auto simp: recover_journal_def)
  have "?W {} (volume_of d1)"
    using whole_staging[OF assms(2,1), of L] purge_start_whole[OF assms(2)] assms(3)
    unfolding keeps_def by (metis snd_conv)
  with whole_rollback[OF start' st'(1), of L] assms(7) have w2: "?W {} (volume_of d2)"
    unfolding rec st'(2) keeps_def by (metis snd_conv)
  from rollback_fold_clean[OF assms(2) _ w2, of "rev ?ids"] obtain e where
    e: "foreach_io (\<lambda>x _. rollback_step root ?st x) (rev ?ids) () (\<lambda>_. None) d2 = (Inr (), e)"
    and we: "?W (set ?ids) (volume_of e)" by auto
  let ?rest = "bind_io (ask_io (rl_now L)) (\<lambda>now.
     bind_io (write_root_io L (purge_journal_path root op_id)
                (purge_journal_json (j'\<lparr>pj_status := RolledBack, pj_updated_at := now\<rparr>))) (\<lambda>_.
     bind_io (read_io (\<lambda>v. Inr (exists_at v ?st))) (\<lambda>found. if found then remove_dir_all_io ?st else return_io ())))"
  have "keeps (?W (set ?ids)) ?rest"
    by (intro keeps_rules whole_write_root whole_remove_staging)
  with we have "?W (set ?ids) (volume_of (snd (?rest (\<lambda>_. None) e)))" by (simp add: keeps_def)
  moreover have "rollback_local_trash_purge_v4 L root (purge_journal_path root op_id) j' (\<lambda>_. None) d2 = ?rest (\<lambda>_. None) e"
    unfolding rollback_local_trash_purge_v4_def st' bind_io_def[of "foreach_io _ _ _"] e by simp
  ultimately have "?W (set ?ids) (volume_of d3)" using assms(8) by (simp add: rec)
  from whole_all_home[OF this assms(9)] show ?thesis .
qed

definition toy_crash :: "nat \<Rightarrow> faults" where
  "toy_crash n t = (if t < n then None else Some (''crash'', 0))"

definition toy_prepared :: local_trash_purge_journal_v4 where
  "toy_prepared = toy_purge_journal\<lparr>pj_status := Preparing\<rparr>"

definition toy_staging_disk :: disk where
  "toy_staging_disk = \<lparr>volume_of = toy_repository @ [([''r'', ''quarantine'', ''trash-purge''], DirEntry),
     ([''r'', ''quarantine'', ''trash-purge'', ''u''], DirEntry),
     ([''r'', ''quarantine'', ''trash-purge'', ''u'', ''entries''], DirEntry)], clock = 0\<rparr>"

theorem uncommitted_purge_undone_witness:
  "file_at (volume_of (snd (stage_entries toy_lib [''r''] (purge_journal_path [''r''] ''u'') toy_prepared (toy_crash 1)
       toy_staging_disk))) [''r'', ''trash'', ''snapshots'', ''o'', ''entry.json''] = None \<and>
   (\<exists>d3 :: disk. file_at (volume_of d3) [''r'', ''trash'', ''snapshots'', ''o'', ''entry.json''] = Some ''x'')"
proof
  show "file_at (volume_of (snd (stage_entries toy_lib [''r''] (purge_journal_path [''r''] ''u'') toy_prepared (toy_crash 1)
       toy_staging_disk))) [''r'', ''trash'', ''snapshots'', ''o'', ''entry.json''] = None" by code_simp
  let ?p = "[''r'', ''trash'', ''snapshots'', ''o'', ''entry.json'']"
  have st: "pj_staging_root toy_prepared = purge_staging [''r''] ''u''"
    by (simp add: toy_prepared_def toy_purge_journal_def)
  have ids: "pp_operation_ids (pj_plan toy_prepared) = [''o'']" by (simp add: toy_prepared_def toy_purge_journal_def)
  have empty: "entry_at (volume_of toy_staging_disk) (staged_entry_path (purge_staging [''r''] ''u'') ''o'' @ t) = None" for t
  proof -
    have "list_all (\<lambda>(q, _). \<not> under (staged_entry_path (purge_staging [''r''] ''u'') ''o'') q) (volume_of toy_staging_disk)"
      by code_simp
    then show ?thesis unfolding entry_at_def by (force simp: list_all_iff map_of_eq_None_iff)
  qed
  have "dir_at (volume_of toy_staging_disk) ([''r''] @ [''trash'', ''snapshots''])"
    "entry_at (volume_of toy_staging_disk) (trash_entry_path [''r''] ''o'') \<noteq> None" by code_simp+
  with empty have start: "purge_start [''r''] (purge_staging [''r''] ''u'') (pp_operation_ids (pj_plan toy_prepared))
      (volume_of toy_staging_disk)" by (simp add: purge_start_def ids)
  obtain r1 d1 where 1: "catch_io (stage_entries toy_lib [''r''] (purge_journal_path [''r''] ''u'') toy_prepared)
      (\<lambda>e. bind_io (rollback_local_trash_purge_v4 toy_lib [''r''] (purge_journal_path [''r''] ''u'') toy_prepared)
        (\<lambda>_. lift_res (Inl e))) (toy_crash 1) toy_staging_disk = (r1, d1)" by fastforce
  obtain r2 d2 where 2: "recover_journal toy_lib [''r''] (purge_journal_path [''r''] ''u'') toy_prepared (toy_crash 5) d1
      = (r2, d2)" by fastforce
  obtain r3 d3 where 3: "recover_journal toy_lib [''r''] (purge_journal_path [''r''] ''u'') toy_prepared (\<lambda>_. None) d2
      = (r3, d3)" by fastforce
  have "pj_status toy_prepared \<in> {Preparing, EntriesStaged}" "under ([''r''] @ [''trash'']) ?p"
    by (simp_all add: toy_prepared_def under_def)
  from uncommitted_purge_undone[OF st start 1 this(1) refl refl 2 3 this(2)]
  have "entry_at (volume_of d3) ?p = entry_at (volume_of toy_staging_disk) ?p" .
  moreover have "entry_at (volume_of toy_staging_disk) ?p = Some (FileEntry ''x'')" by code_simp
  ultimately show "\<exists>d3 :: disk. file_at (volume_of d3) ?p = Some ''x''" by (intro exI[of _ d3]) (simp add: file_at_def)
qed

end
