(* ===== verification/DirSize.thy ===== *)
theory DirSize
  imports Purge
begin

text \<open>The directory walk terminates with the sum of the file lengths below its root.\<close>

definition wf_volume :: "volume \<Rightarrow> bool" where
  "wf_volume v \<longleftrightarrow> distinct (map fst v) \<and> list_all (\<lambda>(q, _). q \<noteq> [] \<and> dir_at v (butlast q)) v"

definition entry_size :: "entry \<Rightarrow> nat" where
  "entry_size e = (case e of FileEntry b \<Rightarrow> length b | DirEntry \<Rightarrow> 0)"

definition file_sizes :: "volume \<Rightarrow> path \<Rightarrow> nat" where
  "file_sizes v p = sum_list (map (\<lambda>(q, e). if under p q then entry_size e else 0) v)"

lemma wf_dir_above:
  assumes "wf_volume v"
  shows "(p @ t, e) \<in> set v \<Longrightarrow> t \<noteq> [] \<Longrightarrow> dir_at v p"
proof (induction t arbitrary: e rule: rev_induct)
  case (snoc x t)
  from assms snoc.prems(1) have d: "dir_at v (p @ t)"
    by (auto simp: wf_volume_def list_all_iff butlast_append)
  show ?case
  proof (cases "t = []")
    case False
    with d have "(p @ t, DirEntry) \<in> set v" by (auto simp: dir_at_def entry_at_def dest: map_of_SomeD)
    with snoc.IH False show ?thesis by blast
  qed (use d in simp)
qed simp

lemma wf_file_leaf:
  assumes "wf_volume v" "entry_at v p = Some (FileEntry b)" "(q, e) \<in> set v" "under p q"
  shows "q = p \<and> e = FileEntry b"
proof -
  from assms(4) obtain t where t: "q = p @ t" by (auto simp: under_iff)
  have p: "p \<noteq> []" using assms(1,2) by (auto simp: wf_volume_def list_all_iff entry_at_def dest: map_of_SomeD)
  have "t = []"
  proof (rule ccontr)
    assume "t \<noteq> []"
    with wf_dir_above[OF assms(1), of p t e] assms(3) t have "dir_at v p" by simp
    with assms(2) p show False by (simp add: dir_at_def)
  qed
  moreover from this t assms(1,3) have "entry_at v p = Some e"
    by (auto simp: entry_at_def wf_volume_def map_of_eq_Some_iff)
  ultimately show ?thesis using t assms(2) by simp
qed

lemma file_sizes_file:
  assumes "wf_volume v" "entry_at v p = Some (FileEntry b)"
  shows "file_sizes v p = length b"
proof -
  have mem: "(p, FileEntry b) \<in> set v" using assms(2) by (auto simp: entry_at_def dest: map_of_SomeD)
  have "distinct v" using assms(1) by (simp add: wf_volume_def distinct_map)
  have "file_sizes v p = (\<Sum>x \<in> set v. case x of (q, e) \<Rightarrow> if under p q then entry_size e else 0)"
    unfolding file_sizes_def by (rule sum_list_distinct_conv_sum_set[OF \<open>distinct v\<close>])
  also have "\<dots> = (\<Sum>x \<in> {(p, FileEntry b)}. case x of (q, e) \<Rightarrow> if under p q then entry_size e else 0)"
  proof (rule sum.mono_neutral_right)
    show "\<forall>x \<in> set v - {(p, FileEntry b)}. (case x of (q, e) \<Rightarrow> if under p q then entry_size e else 0) = 0"
      using wf_file_leaf[OF assms] by fastforce
  qed (use mem in simp_all)
  finally show ?thesis by (simp add: entry_size_def)
qed

lemma read_dir_names:
  "read_dir v p = Inr names \<Longrightarrow> n \<in> set names \<longleftrightarrow> (\<exists>e. (p @ [n], e) \<in> set v)"
proof -
  assume "read_dir v p = Inr names"
  then have names: "names = remdups (map (\<lambda>(q, _). last q) (filter (\<lambda>(q, _). q \<noteq> [] \<and> butlast q = p) v))"
    by (simp add: read_dir_def bindr_eq_Inr_iff)
  have shape: "(q \<noteq> [] \<and> butlast q = p \<and> last q = n) = (q = p @ [n])" for q
    by (metis append_butlast_last_id butlast_snoc last_snoc snoc_eq_iff_butlast)
  have "n \<in> set names \<longleftrightarrow> (\<exists>q e. (q, e) \<in> set v \<and> q \<noteq> [] \<and> butlast q = p \<and> last q = n)"
    unfolding names set_remdups set_map set_filter by force
  then show "n \<in> set names \<longleftrightarrow> (\<exists>e. (p @ [n], e) \<in> set v)" unfolding shape by simp
qed

lemma file_sizes_children:
  assumes wf: "wf_volume v" and dir: "dir_at v p" and names: "read_dir v p = Inr names"
  shows "file_sizes v p = sum_list (map (\<lambda>n. file_sizes v (p @ [n])) names)"
proof -
  have one: "(if under p q then entry_size e else 0)
      = sum_list (map (\<lambda>n. if under (p @ [n]) q then entry_size e else 0) names)" if x: "(q, e) \<in> set v" for q e
  proof (cases "under p q \<and> q \<noteq> p")
    case True
    then obtain u where u: "q = p @ u" "u \<noteq> []" by (auto simp: under_iff)
    then obtain n t where t: "q = p @ n # t" by (cases u) auto
    have "n \<in> set names"
    proof (cases "t = []")
      case True
      with x t read_dir_names[OF names, of n] show ?thesis by auto
    next
      case False
      with wf_dir_above[OF wf, of "p @ [n]" t e] x t have "dir_at v (p @ [n])" by simp
      then have "(p @ [n], DirEntry) \<in> set v" by (auto simp: dir_at_def entry_at_def dest: map_of_SomeD)
      with read_dir_names[OF names, of n] show ?thesis by blast
    qed
    have other: "under (p @ [m]) q \<longleftrightarrow> m = n" for m by (auto simp: under_iff t)
    have "sum_list (map (\<lambda>m. if m = n then entry_size e else 0) names) = entry_size e"
      using \<open>n \<in> set names\<close> read_dir_distinct[OF names]
      by (simp add: sum_list_distinct_conv_sum_set)
    with True show ?thesis by (simp add: other)
  next
    case False
    have "entry_size e = 0" if "q = p"
    proof -
      have "q \<noteq> []" using wf x by (auto simp: wf_volume_def list_all_iff)
      with dir that have "entry_at v q = Some DirEntry" by (simp add: dir_at_def)
      moreover have "entry_at v q = Some e"
        using wf x by (simp add: entry_at_def wf_volume_def map_of_eq_Some_iff)
      ultimately show ?thesis by (simp add: entry_size_def)
    qed
    moreover have "\<not> under (p @ [n]) q" if "\<not> under p q" for n using that by (auto simp: under_iff)
    ultimately show ?thesis using False by (cases "q = p") auto
  qed
  have "sum_list (map (\<lambda>(q, e). if under p q then entry_size e else 0) u)
      = sum_list (map (\<lambda>n. sum_list (map (\<lambda>(q, e). if under (p @ [n]) q then entry_size e else 0) u)) names)"
    if "set u \<subseteq> set v" for u
    using that
  proof (induction u)
    case (Cons x u)
    obtain q e where x: "x = (q, e)" by (cases x)
    with Cons one[of q e] show ?case by (simp add: sum_list_addf)
  qed simp
  then show ?thesis unfolding file_sizes_def by blast
qed

definition files_fit :: "volume \<Rightarrow> bool" where
  "files_fit v \<longleftrightarrow> list_all (\<lambda>(_, e). entry_size e < 2 ^ 64) v"

lemma add_len_u64:
  fixes acc :: u64
  assumes "n < 2 ^ 64"
  shows "checked_add acc (of_nat n) = (if unat acc + n < 2 ^ 64 then Some (acc + of_nat n) else None)"
  using assms by (simp add: checked_add_def unat_of_nat)

lemma unat_add_len:
  fixes acc :: u64
  assumes "unat acc + n < 2 ^ 64"
  shows "unat (acc + of_nat n) = unat acc + n"
  using assms by (simp add: unat_word_ariths unat_of_nat)

definition size_result :: "u64 \<Rightarrow> nat \<Rightarrow> string + u64" where
  "size_result acc n =
     (if unat acc + n < 2 ^ 64 then Inr (acc + of_nat n) else Inl ''storage byte count overflow'')"

lemma size_result_step:
  assumes "n < 2 ^ 64"
  shows "(case checked_add acc (of_nat n) of None \<Rightarrow> Inl ''storage byte count overflow''
      | Some t \<Rightarrow> size_result t m) = size_result acc (n + m)"
  using assms unat_add_len[of acc n] by (auto simp: add_len_u64 size_result_def add.assoc)

lemma dir_bytes_fold_value:
  assumes wf: "wf_volume v" "files_fit v" and "\<forall>n \<in> set names. \<exists>e. entry_at v (p @ [n]) = Some e"
  shows "(case foldr_res (dir_bytes_step v p) names (rest, acc) of
        Inl e \<Rightarrow> Inl e | Inr (rest', acc') \<Rightarrow> size_result acc' (sum_list (map (file_sizes v) rest')))
      = size_result acc (sum_list (map (\<lambda>n. file_sizes v (p @ [n])) names) + sum_list (map (file_sizes v) rest))"
  using assms(3)
proof (induction names arbitrary: rest acc)
  case (Cons n names)
  from Cons.prems obtain e where e: "entry_at v (p @ [n]) = Some e" by auto
  show ?case
  proof (cases e)
    case DirEntry
    with e Cons show ?thesis by (simp add: dir_bytes_step_def ac_simps)
  next
    case (FileEntry b)
    have len: "length b < 2 ^ 64"
      using wf(2) e FileEntry by (force simp: files_fit_def list_all_iff entry_at_def entry_size_def dest: map_of_SomeD)
    let ?m = "sum_list (map (\<lambda>n. file_sizes v (p @ [n])) names) + sum_list (map (file_sizes v) rest)"
    have "(case foldr_res (dir_bytes_step v p) (n # names) (rest, acc) of
        Inl e \<Rightarrow> Inl e | Inr (rest', acc') \<Rightarrow> size_result acc' (sum_list (map (file_sizes v) rest')))
      = (case checked_add acc (of_nat (length b)) of None \<Rightarrow> Inl ''storage byte count overflow''
         | Some t \<Rightarrow> size_result t ?m)"
      using e FileEntry Cons by (cases "checked_add acc (of_nat (length b))") (simp_all add: dir_bytes_step_def[of v p n])
    with file_sizes_file[OF wf(1), of "p @ [n]" b] e FileEntry size_result_step[OF len, where acc = acc and m = ?m]
    show ?thesis by (simp add: ac_simps)
  qed
qed simp

lemma dir_bytes_loop_value:
  assumes "wf_volume v" "files_fit v"
  shows "\<forall>p \<in> set ps. dir_at v p \<Longrightarrow> dir_bytes_loop v ps acc = size_result acc (sum_list (map (file_sizes v) ps))"
  using assms
proof (induction v ps acc rule: dir_bytes_loop.induct)
  case (1 v acc)
  then show ?case using unsigned_less[of acc, where ?'a = nat] by (simp add: size_result_def)
next
  case (2 v p rest acc)
  then obtain names where names: "read_dir v p = Inr names" by (simp add: read_dir_def)
  have present: "\<forall>n \<in> set names. \<exists>e. entry_at v (p @ [n]) = Some e"
    using read_dir_names[OF names] by (auto simp: entry_at_def) (metis option.exhaust_sel map_of_eq_None_iff image_eqI fst_conv)
  note total_eq = dir_bytes_fold_value[OF "2.prems"(2,3) present, of rest acc]
  have sum: "sum_list (map (file_sizes v) (p # rest))
      = sum_list (map (\<lambda>n. file_sizes v (p @ [n])) names) + sum_list (map (file_sizes v) rest)"
    using file_sizes_children[OF "2.prems"(2) _ names] "2.prems"(1) by simp
  show ?case
  proof (cases "foldr_res (dir_bytes_step v p) names (rest, acc)")
    case (Inl e)
    with total_eq sum names show ?thesis by simp
  next
    case (Inr r)
    obtain rest' acc' where r: "r = (rest', acc')" by (cases r)
    from dir_bytes_fold[OF Inr] r "2.prems"(1) have "\<forall>q \<in> set rest'. dir_at v q" by (auto simp: dir_at_def)
    with "2.IH"[OF names Inr r[symmetric]] "2.prems"(2,3) have
      "dir_bytes_loop v rest' acc' = size_result acc' (sum_list (map (file_sizes v) rest'))" by blast
    with total_eq sum names Inr r show ?thesis by simp
  qed
qed

text \<open>
  C39: measuring a directory terminates with the exact size. On a well-formed volume the walk with
  its explicit stack returns the sum of the lengths of all files below the directory, in whatever
  order it visits them, and the overflow error exactly when that sum does not fit 64 bits.
\<close>
theorem directory_bytes_exact:
  assumes "wf_volume v" and "files_fit v" and "dir_at v root"
  shows "directory_bytes_v4 root v =
    (if file_sizes v root < 2 ^ 64 then Inr (of_nat (file_sizes v root)) else Inl ''storage byte count overflow'')"
proof -
  have "exists_at v root" using assms(3) by (auto simp: dir_at_def exists_at_def)
  with dir_bytes_loop_value[OF assms(1,2), of "[root]" 0] assms(3) show ?thesis
    by (simp add: directory_bytes_v4_def size_result_def)
qed

definition toy_volume :: volume where
  "toy_volume = [([''r''], DirEntry), ([''r'', ''a''], FileEntry ''xyz''), ([''r'', ''d''], DirEntry),
     ([''r'', ''d'', ''b''], FileEntry ''uv''), ([''r'', ''d'', ''e''], DirEntry)]"

theorem directory_bytes_exact_witness: "directory_bytes_v4 [''r''] toy_volume = Inr 5"
proof -
  have "wf_volume toy_volume" "files_fit toy_volume" "dir_at toy_volume [''r'']" by code_simp+
  from directory_bytes_exact[OF this] show ?thesis by (simp add: file_sizes_def toy_volume_def under_def entry_size_def)
qed

end
