(* ===== verification/Summary.thy ===== *)
theory Summary
  imports Purge
begin

text \<open>
  The read-only reports of storage\_v4.rs over a repository: its storage summary, the list of local
  snapshots and the plan of a snapshot's deletion.
\<close>

record repository_storage_summary =
  rs_logical_bytes :: u64
  rs_repository_physical_bytes :: u64
  rs_active_physical_bytes :: u64
  rs_shared_physical_bytes :: u64
  rs_exclusive_physical_bytes :: u64
  rs_trash_bytes :: u64
  rs_gc_quarantine_bytes :: u64
  rs_reclaimable_bytes :: u64
  rs_protected_by_journal_bytes :: u64

definition saturating_sub :: "'w::len word \<Rightarrow> 'w word \<Rightarrow> 'w word" where
  "saturating_sub a b = (if b \<le> a then a - b else 0)"

definition read_root :: "repository_lib \<Rightarrow> path \<Rightarrow> volume \<Rightarrow> string + snapshot_root_v4" where
  "read_root L p v =
     bindr (read_file (world_of v) p) (\<lambda>bs. ok_or ''invalid JSON'' (parse_snapshot_root (rl_parsers L) bs))"

definition logical_step ::
  "repository_lib \<Rightarrow> content_store_v4 \<Rightarrow> volume \<Rightarrow> thread_ref_v4 \<Rightarrow> u64 \<Rightarrow> string + u64" where
  "logical_step L st v reference acc =
     bindr (load_descriptor (rl_parsers L) (rl_hash L) st reference (world_of v)) (\<lambda>d.
       ok_or ''logical storage byte count overflow''
         (checked_sum acc (content_byte_length (sd_rollout d) # map content_byte_length (sd_attachments d))))"

definition summary_step ::
  "repository_lib \<Rightarrow> path \<Rightarrow> volume \<Rightarrow> string \<Rightarrow> u64 \<Rightarrow> string + u64" where
  "summary_step L root v name acc =
     (if \<not> is_json name then Inr acc
      else bindr (read_root L (root @ [''snapshots'', name]) v) (\<lambda>r.
             foldr_res (logical_step L (store_at root) v) (sr_threads r) acc))"

definition snapshot_names :: "path \<Rightarrow> volume \<Rightarrow> string + string list" where
  "snapshot_names root v =
     (if \<not> exists_at v (root @ [''snapshots'']) then Inr [] else read_dir v (root @ [''snapshots'']))"

definition repository_storage_summary_v4 :: "repository_lib \<Rightarrow> path \<Rightarrow> repository_storage_summary io" where
  "repository_storage_summary_v4 L root =
     bind_io (plan_local_gc_v4 L root) (\<lambda>plan.
     bind_io (open_store L root) (\<lambda>_.
     read_io (\<lambda>v.
       bindr (snapshot_names root v) (\<lambda>names.
       bindr (foldr_res (summary_step L root v) names 0) (\<lambda>logical_bytes.
       bindr (directory_bytes_v4 (root @ [''objects'']) v) (\<lambda>physical.
       bindr (directory_bytes_v4 (root @ [''trash'']) v) (\<lambda>trash.
       bindr (directory_bytes_v4 (root @ [''quarantine'']) v) (\<lambda>quarantine.
       bindr (directory_bytes_v4 (root @ [''backups'']) v) (\<lambda>backups.
       let reclaimable = gp_reclaimable_bytes plan; active = saturating_sub physical reclaimable in
         Inr \<lparr>rs_logical_bytes = logical_bytes, rs_repository_physical_bytes = physical,
           rs_active_physical_bytes = active, rs_shared_physical_bytes = 0,
           rs_exclusive_physical_bytes = active, rs_trash_bytes = trash, rs_gc_quarantine_bytes = quarantine,
           rs_reclaimable_bytes = reclaimable, rs_protected_by_journal_bytes = backups\<rparr>)))))))))"

section \<open>Snapshot lists and deletion plans\<close>

datatype snapshot_scope = Full | Selection

record snapshot_metadata =
  sm_description :: string
  sm_tags :: "string list"
  sm_pinned :: bool
  sm_automatic :: bool
  sm_scope :: snapshot_scope
  sm_base_revision_id :: "string option"
  sm_selected_thread_ids :: "string list"
  sm_deleted_thread_ids :: "string list"

definition default_metadata :: snapshot_metadata where
  "default_metadata = \<lparr>sm_description = [], sm_tags = [], sm_pinned = False, sm_automatic = False, sm_scope = Full,
     sm_base_revision_id = None, sm_selected_thread_ids = [], sm_deleted_thread_ids = []\<rparr>"

record local_snapshot_list_item =
  li_snapshot_id :: string
  li_created_at :: string
  li_manifest_path :: path
  li_thread_count :: nat
  li_object_count :: nat
  li_logical_bytes :: u64
  li_physical_referenced_bytes :: u64
  li_warning_count :: u64
  li_metadata :: snapshot_metadata

definition item_thread_step ::
  "repository_lib \<Rightarrow> content_store_v4 \<Rightarrow> volume \<Rightarrow> thread_ref_v4 \<Rightarrow> storage_object_ref_v4 list \<times> u64 \<Rightarrow>
     string + (storage_object_ref_v4 list \<times> u64)" where
  "item_thread_step L st v reference acc =
     bindr (load_descriptor (rl_parsers L) (rl_hash L) st reference (world_of v)) (\<lambda>d.
     bindr (typed_object_path_v4 (store_root st) Thread (tref_descriptor_sha256 reference)) (\<lambda>p.
     bindr (file_length (world_of v) p) (\<lambda>len.
     bindr (ok_or ''snapshot logical byte count overflow''
              (checked_add (snd acc) (content_byte_length (sd_rollout d)))) (\<lambda>logical_bytes.
     bindr (map_res (\<lambda>c. content_objects (rl_json L) (parse_manifest (rl_parsers L)) (rl_hash L) st c (world_of v))
              (sd_rollout d # sd_attachments d)) (\<lambda>objs.
       Inr (fst acc @ \<lparr>ref_kind = Thread, ref_sha256 = tref_descriptor_sha256 reference, ref_byte_length = len\<rparr>
              # concat objs, logical_bytes))))))"

definition snapshot_item ::
  "repository_lib \<Rightarrow> (bytes \<Rightarrow> snapshot_metadata option) \<Rightarrow> path \<Rightarrow> volume \<Rightarrow> string \<Rightarrow> string + local_snapshot_list_item" where
  "snapshot_item L parse_metadata root v name =
     (let path = root @ [''snapshots'', name]; st = store_at root in
      bindr (read_root L path v) (\<lambda>r.
      bindr (validate_snapshot_root r) (\<lambda>_.
      bindr (foldr_res (item_thread_step L st v) (sr_threads r) ([], 0)) (\<lambda>(objs, logical_bytes).
      bindr (typed_object_path_v4 root SnapshotOverlay (sr_overlay_sha256 r)) (\<lambda>overlay_path.
      bindr (file_length (world_of v) overlay_path) (\<lambda>overlay_bytes.
      let objects = ref_set objs; metadata_path = root @ [''metadata'', ''snapshots'', sr_snapshot_id r @ ''.json''] in
      bindr (ok_or ''snapshot physical byte count overflow''
               (checked_sum overlay_bytes (map ref_byte_length objects))) (\<lambda>physical.
      bindr (case file_at v metadata_path of
               None \<Rightarrow> Inr default_metadata
             | Some bs \<Rightarrow> ok_or ''invalid JSON'' (parse_metadata bs)) (\<lambda>metadata.
        Inr \<lparr>li_snapshot_id = sr_snapshot_id r, li_created_at = sr_created_at r, li_manifest_path = path,
          li_thread_count = length (sr_threads r), li_object_count = length objects + 1,
          li_logical_bytes = logical_bytes, li_physical_referenced_bytes = physical,
          li_warning_count = sr_warning_count r, li_metadata = metadata\<rparr>))))))))"

text \<open>The stable sort with the newest first: by creation time, then by identifier, both descending.\<close>

definition newest_first :: "local_snapshot_list_item list \<Rightarrow> local_snapshot_list_item list" where
  "newest_first items = rev (sort_key (\<lambda>i. (li_created_at i, li_snapshot_id i)) (rev items))"

definition list_local_snapshots_v4 ::
  "repository_lib \<Rightarrow> (bytes \<Rightarrow> snapshot_metadata option) \<Rightarrow> path \<Rightarrow> local_snapshot_list_item list io" where
  "list_local_snapshots_v4 L parse_metadata root =
     bind_io (open_store L root) (\<lambda>_.
     read_io (\<lambda>v. bindr (snapshot_names root v) (\<lambda>names.
       bindr (map_res (snapshot_item L parse_metadata root v) (filter is_json names)) (\<lambda>items.
         Inr (newest_first items)))))"

record snapshot_deletion_plan =
  dp_snapshot_id :: string
  dp_manifest_path :: path
  dp_pinned :: bool
  dp_protected_by_operations :: "string list"
  dp_shared_object_count :: nat
  dp_exclusive_object_count :: nat
  dp_estimated_reclaimable_bytes :: u64
  dp_plan_fingerprint :: string

definition plan_snapshot_deletion_v4 ::
  "repository_lib \<Rightarrow> (bytes \<Rightarrow> snapshot_metadata option) \<Rightarrow> path \<Rightarrow> string \<Rightarrow> snapshot_deletion_plan io" where
  "plan_snapshot_deletion_v4 L parse_metadata root sid =
     (let manifest_path = root @ [''snapshots'', sid @ ''.json''] in
      bind_io (read_io (\<lambda>v. ensure (file_at v manifest_path \<noteq> None) (''snapshot not found: '' @ sid))) (\<lambda>_.
      bind_io (list_local_snapshots_v4 L parse_metadata root) (\<lambda>snapshots.
      bind_io (lift_res (ok_or ''snapshot not found'' (find (\<lambda>i. li_snapshot_id i = sid) snapshots))) (\<lambda>target.
        return_io \<lparr>dp_snapshot_id = sid, dp_manifest_path = manifest_path, dp_pinned = sm_pinned (li_metadata target),
          dp_protected_by_operations = [], dp_shared_object_count = 0,
          dp_exclusive_object_count = li_object_count target,
          dp_estimated_reclaimable_bytes = li_physical_referenced_bytes target,
          dp_plan_fingerprint = digest_bytes_v4 (rl_hash L) (write_canonical_json_v4 (rl_json L)
            (JArray [JString sid, json_u64 (li_physical_referenced_bytes target), JArray []]))\<rparr>))))"

end
