(* ===== verification/ServerDb.thy ===== *)
theory ServerDb
  imports Repository Tracking
begin

text \<open>
  The metadata database of the sync server (apps/sync-server/src/metadata.rs): the tables as lists
  of rows, the queries the handlers run, and the recursive reachability query as a worklist. A
  handler is a transaction: it returns its result with the new database, or an error and leaves the
  database alone. SQLite's 64-bit integers are read and written as the code does; identifiers are
  compared as their canonical texts order them. Time stamps, fresh identifiers and chrono's parser
  are the parameter \<open>request_env\<close>. The foreign keys the schema declares hold by the invariant in
  ServerHistory, so no statement of a handler can fail on them.
\<close>

datatype metadata_error =
    NotFound string string
  | HeadMismatch "string option"
  | EpochMismatch u64
  | RevisionConflict string
  | TooManyObjects nat
  | TooManyObjectReferences nat
  | InvalidName
  | UnsupportedSchema u64
  | RevisionValidation string
  | SqliteError string

definition MAX_NAMESPACE_NAME_CHARS :: nat where "MAX_NAMESPACE_NAME_CHARS = 128"
definition REVISION_ROOT_V3_SCHEMA_VERSION :: u32 where "REVISION_ROOT_V3_SCHEMA_VERSION = 3"

record request_env =
  rq_now :: "nat \<Rightarrow> string"
  rq_expiry :: string
  rq_hour_ago :: string
  rq_instant :: nat
  rq_parse_time :: "string \<Rightarrow> nat option"
  rq_uuid :: "nat \<Rightarrow> uuid"
  rq_uuid_text :: "uuid \<Rightarrow> string"

section \<open>Tables\<close>

record namespace_row =
  nr_id :: uuid
  nr_display_name :: string
  nr_head :: "string option"
  nr_epoch :: u64
  nr_created_at :: string
  nr_updated_at :: string

record revision_row =
  rw_id :: string
  rw_namespace :: uuid
  rw_parent :: "string option"
  rw_created_at :: string
  rw_manifest_bytes :: u64
  rw_thread_count :: u64
  rw_object_count :: u64
  rw_total_bytes :: u64
  rw_state :: string
  rw_trash_op :: "uuid option"

record object_descriptor =
  ob_sha256 :: string
  ob_byte_length :: u64

record storage_row =
  st_kind :: string
  st_sha256 :: string
  st_byte_length :: u64
  st_created_at :: string

record root_row =
  rt_revision :: string
  rt_root :: string
  rt_schema_version :: u32

record trash_row =
  tr_id :: uuid
  tr_namespace :: uuid
  tr_old_head :: "string option"
  tr_new_head :: "string option"
  tr_epoch_before :: u64
  tr_epoch_after :: u64
  tr_created_at :: string
  tr_expires_at :: string
  tr_revision_count :: nat
  tr_state :: string

record gc_row =
  gq_id :: uuid
  gq_operation :: uuid
  gq_kind :: string
  gq_sha256 :: string
  gq_length :: u64
  gq_state :: string
  gq_created_at :: string
  gq_quarantined_at :: "string option"
  gq_delete :: bool
  gq_purged_at :: "string option"
  gq_last_error :: "string option"

type_synonym node = "string \<times> string"

record server_db =
  db_namespaces :: "namespace_row list"
  db_revisions :: "revision_row list"
  db_revision_objects :: "(string \<times> object_descriptor) list"
  db_storage :: "storage_row list"
  db_edges :: "(node \<times> node) list"
  db_roots :: "root_row list"
  db_trash :: "trash_row list"
  db_gc :: "gc_row list"

type_synonym 'a handler = "server_db \<Rightarrow> metadata_error + ('a \<times> server_db)"

section \<open>Kinds on the wire\<close>

fun wire_name_v3 :: "storage_object_kind_v3 \<Rightarrow> string" where
  "wire_name_v3 Whole3 = ''whole''"
| "wire_name_v3 Chunk3 = ''chunk''"
| "wire_name_v3 ChunkManifest3 = ''chunkManifest''"
| "wire_name_v3 Thread3 = ''thread''"
| "wire_name_v3 RevisionRoot3 = ''revisionRoot''"

definition parse_kind_v3 :: "string \<Rightarrow> storage_object_kind_v3 option" where
  "parse_kind_v3 s =
     (if s = ''whole'' then Some Whole3
      else if s = ''chunk'' then Some Chunk3
      else if s = ''chunkManifest'' \<or> s = ''chunk-manifest'' then Some ChunkManifest3
      else if s = ''thread'' then Some Thread3
      else if s = ''revisionRoot'' \<or> s = ''revision-root'' then Some RevisionRoot3
      else None)"

definition node_of :: "storage_object_ref_v3 \<Rightarrow> node" where
  "node_of r = (wire_name_v3 (ref3_kind r), ref3_sha256 r)"

definition ref3_key :: "storage_object_ref_v3 \<Rightarrow> nat \<times> string \<times> u64" where
  "ref3_key r = (kind_v3_index (ref3_kind r), ref3_sha256 r, ref3_byte_length r)"

lemma parse_wire_name: "parse_kind_v3 (wire_name_v3 k) = Some k"
  by (cases k) (simp_all add: parse_kind_v3_def)

section \<open>Errors and small helpers\<close>

definition conflict :: "string \<Rightarrow> metadata_error" where
  "conflict rid = RevisionConflict rid"

definition not_found :: "string \<Rightarrow> string \<Rightarrow> metadata_error" where
  "not_found kind name = NotFound kind name"

definition sql_integer :: "u64 \<Rightarrow> string \<Rightarrow> metadata_error + u64" where
  "sql_integer n rid = (if unat n < 2 ^ 63 then Inr n else Inl (conflict rid))"

definition normalize_name :: "string \<Rightarrow> metadata_error + string" where
  "normalize_name display_name =
     (let name = trim display_name in
      bindr (ensure (\<not> (name = [] \<or> char_count name > MAX_NAMESPACE_NAME_CHARS \<or> has_control name)) InvalidName) (\<lambda>_.
        Inr name))"

section \<open>Queries\<close>

definition find_namespace :: "server_db \<Rightarrow> uuid \<Rightarrow> namespace_row option" where
  "find_namespace db u = find (\<lambda>r. nr_id r = u) (db_namespaces db)"

definition find_revision :: "server_db \<Rightarrow> string \<Rightarrow> revision_row option" where
  "find_revision db rid = find (\<lambda>r. rw_id r = rid) (db_revisions db)"

definition update_namespace :: "uuid \<Rightarrow> (namespace_row \<Rightarrow> namespace_row) \<Rightarrow> server_db \<Rightarrow> server_db" where
  "update_namespace u f db =
     db\<lparr>db_namespaces := map (\<lambda>r. if nr_id r = u then f r else r) (db_namespaces db)\<rparr>"

definition update_revisions :: "(revision_row \<Rightarrow> bool) \<Rightarrow> (revision_row \<Rightarrow> revision_row) \<Rightarrow> server_db \<Rightarrow> server_db" where
  "update_revisions p f db = db\<lparr>db_revisions := map (\<lambda>r. if p r then f r else r) (db_revisions db)\<rparr>"

definition update_trash :: "(trash_row \<Rightarrow> bool) \<Rightarrow> string \<Rightarrow> server_db \<Rightarrow> server_db" where
  "update_trash p s db = db\<lparr>db_trash := map (\<lambda>r. if p r then r\<lparr>tr_state := s\<rparr> else r) (db_trash db)\<rparr>"

definition read_namespace :: "request_env \<Rightarrow> server_db \<Rightarrow> uuid \<Rightarrow> metadata_error + namespace_row" where
  "read_namespace R db u = ok_or (not_found ''namespace'' (rq_uuid_text R u)) (find_namespace db u)"

record revision_metadata =
  rm_id :: string
  rm_namespace :: uuid
  rm_parent :: "string option"
  rm_created_at :: string
  rm_manifest_bytes :: u64
  rm_thread_count :: u64
  rm_object_count :: u64
  rm_total_bytes :: u64
  rm_objects :: "object_descriptor list"
  rm_root_schema_version :: u32

definition read_revision :: "server_db \<Rightarrow> string \<Rightarrow> revision_metadata option" where
  "read_revision db rid =
     (case find_revision db rid of
        None \<Rightarrow> None
      | Some r \<Rightarrow> Some
          \<lparr>rm_id = rw_id r, rm_namespace = rw_namespace r, rm_parent = rw_parent r, rm_created_at = rw_created_at r,
           rm_manifest_bytes = rw_manifest_bytes r, rm_thread_count = rw_thread_count r,
           rm_object_count = rw_object_count r, rm_total_bytes = rw_total_bytes r,
           rm_objects = sort_key ob_sha256 (map snd (filter (\<lambda>(x, _). x = rid) (db_revision_objects db))),
           rm_root_schema_version = (case find (\<lambda>x. rt_revision x = rid) (db_roots db) of
               None \<Rightarrow> REVISION_ROOT_V3_SCHEMA_VERSION | Some x \<Rightarrow> rt_schema_version x)\<rparr>)"

section \<open>The recursive queries\<close>

definition successors :: "(node \<times> node) list \<Rightarrow> node list \<Rightarrow> node list" where
  "successors edges seen =
     remdups (filter (\<lambda>t. t \<notin> set seen) (map snd (filter (\<lambda>e. fst e \<in> set seen) edges)))"

lemma successors_set: "set (successors edges seen) = (set edges `` set seen) - set seen"
  by (force simp: successors_def Image_iff)

function closure :: "(node \<times> node) list \<Rightarrow> node list \<Rightarrow> node list" where
  "closure edges seen =
     (if successors edges seen = [] then seen else closure edges (seen @ successors edges seen))"
  by pat_completeness auto
termination
proof (relation "measure (\<lambda>(edges, seen). card (snd ` set edges - set seen))", simp, goal_cases)
  case (1 edges seen)
  then obtain t where t: "t \<in> set (successors edges seen)" by (cases "successors edges seen") auto
  then have "t \<in> snd ` set edges - set seen" unfolding successors_set by (force simp: image_iff)
  with t show ?case by (auto intro!: psubset_card_mono)
qed

declare closure.simps [simp del]

lemma closure_reaches:
  "set (closure edges seen) = {y. \<exists>x \<in> set seen. (x, y) \<in> (set edges)\<^sup>*}"
proof (induction edges seen rule: closure.induct)
  case (1 edges seen)
  show ?case
  proof (cases "successors edges seen = []")
    case True
    then have "set edges `` set seen \<subseteq> set seen" using successors_set[of edges seen] by auto
    then have "(set edges)\<^sup>* `` set seen = set seen" by (simp add: Image_closed_trancl)
    with True show ?thesis by (subst closure.simps) auto
  next
    case False
    let ?new = "set edges `` set seen"
    have "set (closure edges seen) = {y. \<exists>x \<in> set (seen @ successors edges seen). (x, y) \<in> (set edges)\<^sup>*}"
      using 1[OF False] False by (subst closure.simps) simp
    also have "\<dots> = {y. \<exists>x \<in> set seen \<union> ?new. (x, y) \<in> (set edges)\<^sup>*}"
      using successors_set[of edges seen] by auto
    also have "\<dots> = {y. \<exists>x \<in> set seen. (x, y) \<in> (set edges)\<^sup>*}"
      by (auto simp: Image_iff intro: converse_rtrancl_into_rtrancl)
    finally show ?thesis .
  qed
qed

text \<open>The roots that keep objects: of active revisions, and of trashed ones until their trash expires.\<close>

definition keeps_root :: "request_env \<Rightarrow> server_db \<Rightarrow> root_row \<Rightarrow> bool" where
  "keeps_root R db rr =
     list_ex (\<lambda>r. rw_id r = rt_revision rr \<and>
       (rw_state r = ''active'' \<or>
        (rw_state r = ''trashed'' \<and>
         list_ex (\<lambda>t. Some (tr_id t) = rw_trash_op r \<and> tr_state t = ''active'' \<and> tr_expires_at t > rq_now R 0)
           (db_trash db)))) (db_revisions db)"

definition server_reachable :: "request_env \<Rightarrow> server_db \<Rightarrow> node list" where
  "server_reachable R db =
     closure (db_edges db) (remdups (map (\<lambda>rr. (''revisionRoot'', rt_root rr)) (filter (keeps_root R db) (db_roots db))))"

end
