(* ===== verification/ServerMeta.thy ===== *)
theory ServerMeta
  imports ServerDb
begin

text \<open>
  The operations of \<open>MetadataStore\<close> in apps/sync-server/src/metadata.rs: namespaces, storage
  records and edges, commits, history truncation and restoration, the purge of trashed history and
  the garbage collection queue.
\<close>

section \<open>Namespaces\<close>

definition create_namespace :: "request_env \<Rightarrow> string \<Rightarrow> namespace_row handler" where
  "create_namespace R display_name db =
     bindr (normalize_name display_name) (\<lambda>name.
     let u = rq_uuid R 0; now = rq_now R 0 in
     bindr (ensure (find_namespace db u = None) (SqliteError ''UNIQUE constraint failed: namespaces.id'')) (\<lambda>_.
     let db' = db\<lparr>db_namespaces := db_namespaces db @
           [\<lparr>nr_id = u, nr_display_name = name, nr_head = None, nr_epoch = 0, nr_created_at = now, nr_updated_at = now\<rparr>]\<rparr> in
     bindr (read_namespace R db' u) (\<lambda>row. Inr (row, db'))))"

definition list_namespaces :: "request_env \<Rightarrow> server_db \<Rightarrow> metadata_error + namespace_row list" where
  "list_namespaces R db = Inr (sort_key (\<lambda>r. (nr_created_at r, rq_uuid_text R (nr_id r))) (db_namespaces db))"

definition rename_namespace :: "request_env \<Rightarrow> uuid \<Rightarrow> string \<Rightarrow> namespace_row handler" where
  "rename_namespace R u display_name db =
     bindr (normalize_name display_name) (\<lambda>name.
     let db' = update_namespace u (\<lambda>r. r\<lparr>nr_display_name := name, nr_updated_at := rq_now R 0\<rparr>) db in
     bindr (ensure (find_namespace db u \<noteq> None) (not_found ''namespace'' (rq_uuid_text R u))) (\<lambda>_.
     bindr (read_namespace R db' u) (\<lambda>row. Inr (row, db'))))"

definition get_head :: "request_env \<Rightarrow> uuid \<Rightarrow> server_db \<Rightarrow> metadata_error + string option" where
  "get_head R u db = bindr (read_namespace R db u) (\<lambda>r. Inr (nr_head r))"

definition get_head_state :: "request_env \<Rightarrow> uuid \<Rightarrow> server_db \<Rightarrow> metadata_error + (string option \<times> u64)" where
  "get_head_state R u db = bindr (read_namespace R db u) (\<lambda>r. Inr (nr_head r, nr_epoch r))"

definition get_revision_metadata :: "string \<Rightarrow> server_db \<Rightarrow> metadata_error + revision_metadata" where
  "get_revision_metadata rid db = ok_or (NotFound ''revision'' rid) (read_revision db rid)"

datatype revision_state = Active | Trashed

record revision_summary =
  rv_id :: string
  rv_namespace :: uuid
  rv_parent :: "string option"
  rv_created :: string
  rv_thread_count :: u64
  rv_object_count :: u64
  rv_logical_bytes :: u64
  rv_physical_bytes :: u64
  rv_state :: revision_state

definition summary_of :: "revision_row \<Rightarrow> revision_summary" where
  "summary_of r =
     \<lparr>rv_id = rw_id r, rv_namespace = rw_namespace r, rv_parent = rw_parent r, rv_created = rw_created_at r,
      rv_thread_count = rw_thread_count r, rv_object_count = rw_object_count r, rv_logical_bytes = rw_total_bytes r,
      rv_physical_bytes = rw_total_bytes r, rv_state = (if rw_state r = ''active'' then Active else Trashed)\<rparr>"

definition list_revisions ::
  "request_env \<Rightarrow> uuid \<Rightarrow> nat \<Rightarrow> server_db \<Rightarrow> metadata_error + revision_summary list" where
  "list_revisions R u limit db =
     bindr (ensure (find_namespace db u \<noteq> None) (not_found ''namespace'' (rq_uuid_text R u))) (\<lambda>_.
       Inr (map summary_of (take (Orderings.max 1 (Orderings.min limit 500))
         (rev (sort_key (\<lambda>r. (rw_created_at r, rw_id r))
           (filter (\<lambda>r. rw_namespace r = u \<and> rw_state r = ''active'') (db_revisions db)))))))"

section \<open>Storage records and edges\<close>

definition record_storage_object :: "request_env \<Rightarrow> storage_object_ref_v3 \<Rightarrow> unit handler" where
  "record_storage_object R obj db =
     bindr (sql_integer (ref3_byte_length obj) (ref3_sha256 obj)) (\<lambda>len.
       if list_ex (\<lambda>r. (st_kind r, st_sha256 r) = node_of obj) (db_storage db)
       then Inr ((), db\<lparr>db_storage := map (\<lambda>r. if (st_kind r, st_sha256 r) = node_of obj \<and> st_byte_length r = len
                then r\<lparr>st_byte_length := len\<rparr> else r) (db_storage db)\<rparr>)
       else Inr ((), db\<lparr>db_storage := db_storage db @ [\<lparr>st_kind = wire_name_v3 (ref3_kind obj),
              st_sha256 = ref3_sha256 obj, st_byte_length = len, st_created_at = rq_now R 0\<rparr>]\<rparr>))"

definition insert_edge :: "node \<Rightarrow> storage_object_ref_v3 \<Rightarrow> (node \<times> node) list \<Rightarrow> metadata_error + (node \<times> node) list" where
  "insert_edge owner target edges =
     bindr (ensure ((owner, node_of target) \<notin> set edges) (SqliteError ''UNIQUE constraint failed: object_edges'')) (\<lambda>_.
       Inr (edges @ [(owner, node_of target)]))"

definition replace_object_edges :: "storage_object_ref_v3 \<Rightarrow> storage_object_ref_v3 list \<Rightarrow> unit handler" where
  "replace_object_edges owner targets db =
     bindr (foldr_res (insert_edge (node_of owner)) targets (filter (\<lambda>e. fst e \<noteq> node_of owner) (db_edges db))) (\<lambda>edges.
       Inr ((), db\<lparr>db_edges := edges\<rparr>))"

section \<open>Commits\<close>

record new_revision_metadata =
  nm_id :: string
  nm_namespace :: uuid
  nm_parent :: "string option"
  nm_created_at :: string
  nm_manifest_bytes :: u64
  nm_thread_count :: u64
  nm_objects :: "object_descriptor list"
  nm_object_count_override :: "u64 option"
  nm_total_bytes_override :: "u64 option"
  nm_root_schema_version :: u32

definition from_revision_root_v4 ::
  "json_lib \<Rightarrow> (bytes \<Rightarrow> string) \<Rightarrow> (uuid \<Rightarrow> string) \<Rightarrow> revision_root_v4 \<Rightarrow> u64 \<Rightarrow> storage_object_ref_v3 list \<Rightarrow>
     metadata_error + new_revision_metadata" where
  "from_revision_root_v4 J H uuid_str root root_byte_length graph =
     bindr (map_err (\<lambda>_. conflict ''invalid-v4-revision-root'') (validate_revision_root root)) (\<lambda>_.
     bindr (map_err (\<lambda>_. conflict ''invalid-v4-revision-root'') (revision_id J H uuid_str root)) (\<lambda>rid.
     bindr (ok_or (conflict rid) (checked_sum 0 (map ref3_byte_length graph))) (\<lambda>total_bytes.
       Inr \<lparr>nm_id = rid, nm_namespace = rv_namespace_id root, nm_parent = rv_parent_revision root,
         nm_created_at = rv_created_at root, nm_manifest_bytes = root_byte_length,
         nm_thread_count = of_nat (length (rv_threads root)), nm_objects = [],
         nm_object_count_override = Some (of_nat (length graph)), nm_total_bytes_override = Some total_bytes,
         nm_root_schema_version = 4\<rparr>)))"

definition normalize_object ::
  "string \<Rightarrow> object_descriptor \<Rightarrow> (string, u64) btree_map \<Rightarrow> metadata_error + (string, u64) btree_map" where
  "normalize_object rid obj objects =
     bindr (map_err (\<lambda>_. conflict rid) (validate_sha256 (ob_sha256 obj))) (\<lambda>_.
     let previous = bt_get objects (ob_sha256 obj) in
     bindr (ensure (previous = None \<or> previous = Some (ob_byte_length obj)) (conflict rid)) (\<lambda>_.
       Inr (bt_insert (ob_sha256 obj) (ob_byte_length obj) objects)))"

definition normalize_revision :: "request_env \<Rightarrow> new_revision_metadata \<Rightarrow> metadata_error + revision_metadata" where
  "normalize_revision R x =
     bindr (map_err (\<lambda>_. conflict (nm_id x)) (validate_sha256 (nm_id x))) (\<lambda>_.
     bindr (ensure (\<not> uuid_version (nm_namespace x) \<noteq> 7) (conflict (nm_id x))) (\<lambda>_.
     bindr (case nm_parent x of None \<Rightarrow> Inr () | Some p \<Rightarrow> map_err (\<lambda>_. conflict (nm_id x)) (validate_sha256 p)) (\<lambda>_.
     bindr (ok_or (conflict (nm_id x)) (rq_parse_time R (nm_created_at x))) (\<lambda>_.
     bindr (foldr_res (normalize_object (nm_id x)) (nm_objects x) []) (\<lambda>objects.
     bindr (ok_or (conflict (nm_id x)) (checked_sum 0 (bt_values objects))) (\<lambda>calculated.
       Inr \<lparr>rm_id = nm_id x, rm_namespace = nm_namespace x, rm_parent = nm_parent x, rm_created_at = nm_created_at x,
         rm_manifest_bytes = nm_manifest_bytes x, rm_thread_count = nm_thread_count x,
         rm_object_count = (case nm_object_count_override x of None \<Rightarrow> of_nat (length objects) | Some n \<Rightarrow> n),
         rm_total_bytes = (case nm_total_bytes_override x of None \<Rightarrow> calculated | Some n \<Rightarrow> n),
         rm_objects = map (\<lambda>(h, n). \<lparr>ob_sha256 = h, ob_byte_length = n\<rparr>) objects,
         rm_root_schema_version = nm_root_schema_version x\<rparr>))))))"

datatype commit_revision_outcome = Created | AlreadyCommitted

definition parent_in_namespace :: "server_db \<Rightarrow> revision_metadata \<Rightarrow> metadata_error + unit" where
  "parent_in_namespace db x =
     (case rm_parent x of
        None \<Rightarrow> Inr ()
      | Some p \<Rightarrow> ensure (map_option rw_namespace (find_revision db p) = Some (rm_namespace x)) (conflict (rm_id x)))"

definition insert_revision :: "revision_metadata \<Rightarrow> unit handler" where
  "insert_revision x db =
     bindr (sql_integer (rm_manifest_bytes x) (rm_id x)) (\<lambda>manifest_bytes.
     bindr (sql_integer (rm_thread_count x) (rm_id x)) (\<lambda>threads.
     bindr (sql_integer (rm_object_count x) (rm_id x)) (\<lambda>objects.
     bindr (sql_integer (rm_total_bytes x) (rm_id x)) (\<lambda>total_bytes.
       Inr ((), db\<lparr>db_revisions := db_revisions db @
         [\<lparr>rw_id = rm_id x, rw_namespace = rm_namespace x, rw_parent = rm_parent x, rw_created_at = rm_created_at x,
           rw_manifest_bytes = manifest_bytes, rw_thread_count = threads, rw_object_count = objects,
           rw_total_bytes = total_bytes, rw_state = ''active'', rw_trash_op = None\<rparr>]\<rparr>)))))"

text \<open>The conditional update of the head: it changes the row only while the head is the expected one.\<close>

definition advance_head :: "request_env \<Rightarrow> uuid \<Rightarrow> string option \<Rightarrow> string \<Rightarrow> unit handler" where
  "advance_head R u expected_head rid db =
     (case find_namespace db u of
        None \<Rightarrow> Inl (HeadMismatch None)
      | Some ns \<Rightarrow>
          bindr (ensure (nr_head ns = expected_head) (HeadMismatch (nr_head ns))) (\<lambda>_.
            Inr ((), update_namespace u (\<lambda>r. r\<lparr>nr_head := Some rid, nr_updated_at := rq_now R 1\<rparr>) db)))"

definition commit_revision ::
  "request_env \<Rightarrow> string option \<Rightarrow> new_revision_metadata \<Rightarrow> commit_revision_outcome handler" where
  "commit_revision R expected_head new_revision db =
     bindr (normalize_revision R new_revision) (\<lambda>x.
     bindr (ok_or (not_found ''namespace'' (rq_uuid_text R (rm_namespace x))) (find_namespace db (rm_namespace x))) (\<lambda>ns.
     case read_revision db (rm_id x) of
       Some existing \<Rightarrow>
         bindr (ensure (existing = x) (conflict (rm_id x))) (\<lambda>_.
         if nr_head ns = Some (rm_id x) then Inr (AlreadyCommitted, db)
         else bindr (ensure (nr_head ns = expected_head) (HeadMismatch (nr_head ns))) (\<lambda>_. Inl (conflict (rm_id x))))
     | None \<Rightarrow>
         bindr (ensure (nr_head ns = expected_head) (HeadMismatch (nr_head ns))) (\<lambda>_.
         bindr (ensure (rm_parent x = expected_head) (conflict (rm_id x))) (\<lambda>_.
         bindr (parent_in_namespace db x) (\<lambda>_.
         bindr (insert_revision x db) (\<lambda>(_, db1).
         bindr (map_res (\<lambda>obj. bindr (sql_integer (ob_byte_length obj) (rm_id x)) (\<lambda>n. Inr (rm_id x, obj\<lparr>ob_byte_length := n\<rparr>)))
                  (rm_objects x)) (\<lambda>rows.
         bindr (advance_head R (rm_namespace x) expected_head (rm_id x)
                  (db1\<lparr>db_revision_objects := db_revision_objects db1 @ rows\<rparr>)) (\<lambda>(_, db2).
           Inr (Created, db2)))))))))"

definition commit_revision_root ::
  "request_env \<Rightarrow> string option \<Rightarrow> u64 \<Rightarrow> new_revision_metadata \<Rightarrow> (commit_revision_outcome \<times> u64) handler" where
  "commit_revision_root R expected_head expected_epoch new_revision db =
     bindr (normalize_revision R new_revision) (\<lambda>x.
     bindr (ok_or (not_found ''namespace'' (rq_uuid_text R (rm_namespace x))) (find_namespace db (rm_namespace x))) (\<lambda>ns.
     bindr (ensure (nr_epoch ns = expected_epoch) (EpochMismatch (nr_epoch ns))) (\<lambda>_.
     case read_revision db (rm_id x) of
       Some existing \<Rightarrow>
         bindr (ensure (existing = x) (conflict (rm_id x))) (\<lambda>_.
         if nr_head ns = Some (rm_id x) then Inr ((AlreadyCommitted, nr_epoch ns), db)
         else Inl (conflict (rm_id x)))
     | None \<Rightarrow>
         bindr (ensure (nr_head ns = expected_head) (HeadMismatch (nr_head ns))) (\<lambda>_.
         bindr (ensure (rm_parent x = expected_head) (conflict (rm_id x))) (\<lambda>_.
         bindr (parent_in_namespace db x) (\<lambda>_.
         bindr (insert_revision x db) (\<lambda>(_, db1).
         bindr (advance_head R (rm_namespace x) expected_head (rm_id x) db1) (\<lambda>(_, db2).
         bindr (ensure (\<not> list_ex (\<lambda>r. rt_revision r = rm_id x) (db_roots db2))
                  (SqliteError ''UNIQUE constraint failed: revision_roots.revision_id'')) (\<lambda>_.
           Inr ((Created, nr_epoch ns), db2\<lparr>db_roots := db_roots db2 @
             [\<lparr>rt_revision = rm_id x, rt_root = rm_id x, rt_schema_version = rm_root_schema_version x\<rparr>]\<rparr>))))))))))"

section \<open>History\<close>

definition HISTORY_DEPTH :: nat where "HISTORY_DEPTH = 100000"

definition active_parent :: "server_db \<Rightarrow> uuid \<Rightarrow> string \<Rightarrow> string option option" where
  "active_parent db u rid =
     map_option rw_parent (find (\<lambda>r. rw_id r = rid \<and> rw_namespace r = u \<and> rw_state r = ''active'') (db_revisions db))"

function walk_history ::
  "server_db \<Rightarrow> uuid \<Rightarrow> string option \<Rightarrow> string option \<Rightarrow> string list \<Rightarrow> metadata_error + string list" where
  "walk_history db u new_head cursor removed =
     (if cursor = new_head then Inr removed
      else case cursor of
        None \<Rightarrow> Inl (conflict ''history-ancestor'')
      | Some rid \<Rightarrow> (case active_parent db u rid of
            None \<Rightarrow> Inl (conflict rid)
          | Some parent \<Rightarrow>
              if length (removed @ [rid]) > HISTORY_DEPTH then Inl (conflict ''history-depth'')
              else walk_history db u new_head parent (removed @ [rid])))"
  by pat_completeness auto
termination
  by (relation "measure (\<lambda>(db, u, new_head, cursor, removed). Suc HISTORY_DEPTH - length removed)") auto

declare walk_history.simps [simp del]

definition truncate_history ::
  "request_env \<Rightarrow> uuid \<Rightarrow> string option \<Rightarrow> u64 \<Rightarrow> string option \<Rightarrow> trash_row handler" where
  "truncate_history R u expected_head expected_epoch new_head db =
     bindr (read_namespace R db u) (\<lambda>ns.
     bindr (ensure (nr_head ns = expected_head) (HeadMismatch (nr_head ns))) (\<lambda>_.
     bindr (ensure (nr_epoch ns = expected_epoch) (EpochMismatch (nr_epoch ns))) (\<lambda>_.
     bindr (ensure (nr_head ns \<noteq> new_head)
              (conflict (case nr_head ns of None \<Rightarrow> ''empty-history'' | Some h \<Rightarrow> h))) (\<lambda>_.
     bindr (walk_history db u new_head (nr_head ns) []) (\<lambda>removed.
     let op_id = rq_uuid R 0 in
     bindr (ok_or (conflict ''epoch-overflow'') (checked_add (nr_epoch ns) 1)) (\<lambda>epoch_after.
     bindr (ensure (\<not> list_ex (\<lambda>t. tr_id t = op_id) (db_trash db))
              (SqliteError ''UNIQUE constraint failed: revision_trash_operations.id'')) (\<lambda>_.
     let row = \<lparr>tr_id = op_id, tr_namespace = u, tr_old_head = nr_head ns, tr_new_head = new_head,
             tr_epoch_before = nr_epoch ns, tr_epoch_after = epoch_after, tr_created_at = rq_now R 0,
             tr_expires_at = rq_expiry R, tr_revision_count = length removed, tr_state = ''active''\<rparr>;
         db1 = update_revisions (\<lambda>r. rw_id r \<in> set removed \<and> rw_state r = ''active'')
             (\<lambda>r. r\<lparr>rw_state := ''trashed'', rw_trash_op := Some op_id\<rparr>) db;
         db2 = db1\<lparr>db_trash := db_trash db1 @ [row]\<rparr> in
       Inr (row, update_namespace u (\<lambda>r. r\<lparr>nr_head := new_head, nr_epoch := epoch_after, nr_updated_at := rq_now R 1\<rparr>) db2))))))))"

definition list_history_trash :: "uuid \<Rightarrow> server_db \<Rightarrow> metadata_error + trash_row list" where
  "list_history_trash u db = Inr (rev (sort_key tr_created_at (filter (\<lambda>t. tr_namespace t = u) (db_trash db))))"

definition restore_history_trash ::
  "request_env \<Rightarrow> uuid \<Rightarrow> uuid \<Rightarrow> string option \<Rightarrow> u64 \<Rightarrow> trash_row handler" where
  "restore_history_trash R u op_id expected_head expected_epoch db =
     bindr (read_namespace R db u) (\<lambda>ns.
     bindr (ensure (nr_head ns = expected_head) (HeadMismatch (nr_head ns))) (\<lambda>_.
     bindr (ensure (nr_epoch ns = expected_epoch) (EpochMismatch (nr_epoch ns))) (\<lambda>_.
     bindr (ok_or (not_found ''history trash operation'' (rq_uuid_text R op_id))
              (find (\<lambda>t. tr_id t = op_id \<and> tr_namespace t = u) (db_trash db))) (\<lambda>op_row.
     bindr (ok_or (conflict (rq_uuid_text R op_id)) (rq_parse_time R (tr_expires_at op_row))) (\<lambda>expires_at.
     bindr (ensure (\<not> (tr_state op_row \<noteq> ''active'' \<or> tr_new_head op_row \<noteq> nr_head ns \<or> expires_at \<le> rq_instant R))
              (conflict (rq_uuid_text R op_id))) (\<lambda>_.
     let db1 = update_revisions (\<lambda>r. rw_trash_op r = Some op_id) (\<lambda>r. r\<lparr>rw_state := ''active'', rw_trash_op := None\<rparr>) db in
     bindr (ok_or (conflict ''epoch-overflow'') (checked_add expected_epoch 1)) (\<lambda>next_epoch.
     let db2 = update_namespace u (\<lambda>r. r\<lparr>nr_head := tr_old_head op_row, nr_epoch := next_epoch, nr_updated_at := rq_now R 0\<rparr>) db1 in
       Inr (op_row\<lparr>tr_state := ''restored''\<rparr>, update_trash (\<lambda>t. tr_id t = op_id) ''restored'' db2))))))))"

section \<open>Purging trashed history\<close>

record history_trash_purge_plan =
  hp_operation_ids :: "uuid list"
  hp_revision_count :: nat
  hp_candidate_objects :: "storage_object_ref_v3 list"

definition trash_graph :: "server_db \<Rightarrow> string \<Rightarrow> metadata_error + storage_object_ref_v3 list" where
  "trash_graph db root =
     map_res (\<lambda>row.
       bindr (ok_or (conflict (st_sha256 row)) (parse_kind_v3 (st_kind row))) (\<lambda>kind.
       bindr (ensure (unat (st_byte_length row) < 2 ^ 63) (conflict (st_sha256 row))) (\<lambda>_.
         Inr \<lparr>ref3_kind = kind, ref3_sha256 = st_sha256 row, ref3_byte_length = st_byte_length row\<rparr>)))
       (filter (\<lambda>row. (st_kind row, st_sha256 row) \<in> set (closure (db_edges db) [(''revisionRoot'', root)])) (db_storage db))"

definition in_selected_trash :: "uuid \<Rightarrow> uuid list \<Rightarrow> revision_row \<Rightarrow> bool" where
  "in_selected_trash u selected r \<longleftrightarrow> rw_namespace r = u \<and> rw_state r = ''trashed''
     \<and> (case rw_trash_op r of None \<Rightarrow> False | Some x \<Rightarrow> x \<in> set selected)"

definition build_history_trash_purge_plan ::
  "request_env \<Rightarrow> server_db \<Rightarrow> uuid \<Rightarrow> uuid list \<Rightarrow> bool \<Rightarrow> metadata_error + history_trash_purge_plan" where
  "build_history_trash_purge_plan R db u requested purge_all =
     bindr (ensure (\<not> (purge_all \<and> requested \<noteq> [])) (conflict ''history-purge-selection'')) (\<lambda>_.
     bindr (ensure (\<not> (\<not> purge_all \<and> requested = [])) (conflict ''history-purge-selection'')) (\<lambda>_.
     bindr (ensure (find_namespace db u \<noteq> None) (not_found ''namespace'' (rq_uuid_text R u))) (\<lambda>_.
     let active = filter (\<lambda>t. tr_namespace t = u \<and> tr_state t = ''active'') (db_trash db);
         active_ids = btree_set (map tr_id active) in
     bindr (ensure (distinct requested) (conflict ''duplicate-history-purge-operation'')) (\<lambda>_.
     bindr (ensure (purge_all \<or> set requested \<subseteq> set active_ids) (conflict ''history-trash-operation-not-active'')) (\<lambda>_.
     let selected = (if purge_all then active_ids else btree_set requested) in
     bindr (ensure (selected \<noteq> []) (conflict ''history-trash-empty'')) (\<lambda>_.
     let selected_revisions = btree_set (map rw_id (filter (in_selected_trash u selected) (db_revisions db))) in
     bindr (ensure (list_all (\<lambda>t. tr_id t \<in> set selected \<or>
                (case tr_new_head t of None \<Rightarrow> True | Some h \<Rightarrow> h \<notin> set selected_revisions)) active)
              (conflict ''history-purge-has-dependent-trash'')) (\<lambda>_.
     let root_hashes = btree_set (map rt_root (filter (\<lambda>rr. list_ex (\<lambda>r. rw_id r = rt_revision rr
                \<and> in_selected_trash u selected r) (db_revisions db)) (db_roots db))) in
     bindr (map_res (trash_graph db) root_hashes) (\<lambda>graphs.
       Inr \<lparr>hp_operation_ids = selected, hp_revision_count = length selected_revisions,
         hp_candidate_objects = bt_values (bt_of_list (map (\<lambda>x. (node_of x, x)) (concat graphs)))\<rparr>))))))))"

record gc_queue_entry =
  ge_id :: uuid
  ge_operation :: uuid
  ge_object :: storage_object_ref_v3
  ge_state :: string
  ge_delete :: bool

definition gc_row_of :: "gc_queue_entry \<Rightarrow> string \<Rightarrow> gc_row" where
  "gc_row_of e now =
     \<lparr>gq_id = ge_id e, gq_operation = ge_operation e, gq_kind = wire_name_v3 (ref3_kind (ge_object e)),
      gq_sha256 = ref3_sha256 (ge_object e), gq_length = ref3_byte_length (ge_object e), gq_state = ge_state e,
      gq_created_at = now, gq_quarantined_at = None, gq_delete = ge_delete e, gq_purged_at = None, gq_last_error = None\<rparr>"

definition enqueue_entry ::
  "request_env \<Rightarrow> uuid \<Rightarrow> bool \<Rightarrow> storage_object_ref_v3 \<Rightarrow> gc_queue_entry list \<times> gc_row list \<Rightarrow>
     metadata_error + (gc_queue_entry list \<times> gc_row list)" where
  "enqueue_entry R op_id delete_after obj acc =
     (let entry = \<lparr>ge_id = rq_uuid R (Suc (Suc (length (fst acc)))), ge_operation = op_id, ge_object = obj,
           ge_state = ''pending'', ge_delete = delete_after\<rparr> in
      bindr (sql_integer (ref3_byte_length obj) (ref3_sha256 obj)) (\<lambda>_.
      bindr (ensure (\<not> list_ex (\<lambda>r. gq_id r = ge_id entry) (snd acc))
               (SqliteError ''UNIQUE constraint failed: gc_queue.id'')) (\<lambda>_.
        Inr (fst acc @ [entry], snd acc @ [gc_row_of entry (rq_now R 0)]))))"

definition enqueue_purge_step ::
  "request_env \<Rightarrow> server_db \<Rightarrow> uuid \<Rightarrow> node list \<Rightarrow> storage_object_ref_v3 \<Rightarrow> gc_queue_entry list \<times> gc_row list \<Rightarrow>
     metadata_error + (gc_queue_entry list \<times> gc_row list)" where
  "enqueue_purge_step R db op_id reachable obj acc =
     (if node_of obj \<in> set reachable then Inr acc
      else case find (\<lambda>r. (st_kind r, st_sha256 r) = node_of obj) (db_storage db) of
        None \<Rightarrow> Inr acc
      | Some row \<Rightarrow>
          bindr (ensure (unat (st_byte_length row) < 2 ^ 63 \<and> st_byte_length row = ref3_byte_length obj)
                   (conflict (ref3_sha256 obj))) (\<lambda>_.
            enqueue_entry R op_id True obj acc))"

definition enqueue_gc_objects_for_purge ::
  "request_env \<Rightarrow> uuid \<Rightarrow> storage_object_ref_v3 list \<Rightarrow> gc_queue_entry list handler" where
  "enqueue_gc_objects_for_purge R op_id objects db =
     (let unique = bt_values (bt_of_list (map (\<lambda>x. (node_of x, x)) objects)) in
      bindr (foldr_res (enqueue_purge_step R db op_id (server_reachable R db)) unique ([], db_gc db)) (\<lambda>(entries, rows).
        Inr (entries, db\<lparr>db_gc := rows\<rparr>)))"

definition purge_operation :: "uuid \<Rightarrow> uuid \<Rightarrow> server_db \<Rightarrow> server_db" where
  "purge_operation u op_id db =
     (let gone = (\<lambda>r. rw_namespace r = u \<and> rw_trash_op r = Some op_id \<and> rw_state r = ''trashed'');
          db1 = db\<lparr>db_roots := filter (\<lambda>rr. \<not> list_ex (\<lambda>r. rw_id r = rt_revision rr \<and> gone r) (db_revisions db))
                (db_roots db)\<rparr>;
          db2 = update_revisions gone (\<lambda>r. r\<lparr>rw_state := ''purged''\<rparr>) db1
      in update_trash (\<lambda>t. tr_namespace t = u \<and> tr_id t = op_id \<and> tr_state t = ''active'') ''purged'' db2)"

definition commit_history_trash_purge ::
  "request_env \<Rightarrow> uuid \<Rightarrow> history_trash_purge_plan \<Rightarrow> (history_trash_purge_plan \<times> gc_queue_entry list) handler" where
  "commit_history_trash_purge R u expected db =
     bindr (build_history_trash_purge_plan R db u (hp_operation_ids expected) False) (\<lambda>current.
     bindr (ensure (current = expected) (conflict ''stale-history-trash-purge'')) (\<lambda>_.
     let db1 = foldl (\<lambda>db x. purge_operation u x db) db (hp_operation_ids current) in
     bindr (enqueue_gc_objects_for_purge R (rq_uuid R 0) (hp_candidate_objects current) db1) (\<lambda>(entries, db2).
       Inr ((current, entries), db2))))"

section \<open>Garbage collection\<close>

record server_gc_plan =
  sg_created_at :: string
  sg_reachable_object_count :: nat
  sg_candidates :: "storage_object_ref_v3 list"
  sg_reclaimable_bytes :: u64
  sg_plan_fingerprint :: string

text \<open>\<open>serde_json::to_vec\<close> of the candidates: the fields in declaration order.\<close>

definition candidate_text :: "json_lib \<Rightarrow> storage_object_ref_v3 \<Rightarrow> string" where
  "candidate_text J r =
     ''{'' @ string_text J ''kind'' @ '':'' @ string_text J (wire_name_v3 (ref3_kind r))
     @ '','' @ string_text J ''sha256'' @ '':'' @ string_text J (ref3_sha256 r)
     @ '','' @ string_text J ''byteLength'' @ '':'' @ number_text J (PosInt (ref3_byte_length r)) @ ''}''"

definition candidates_text :: "json_lib \<Rightarrow> storage_object_ref_v3 list \<Rightarrow> string" where
  "candidates_text J rs = ''['' @ comma_join (map (candidate_text J) rs) @ '']''"

definition gc_candidate_step ::
  "node list \<Rightarrow> storage_row \<Rightarrow> storage_object_ref_v3 list \<times> u64 \<Rightarrow> metadata_error + (storage_object_ref_v3 list \<times> u64)" where
  "gc_candidate_step reachable row acc =
     (if (st_kind row, st_sha256 row) \<in> set reachable then Inr acc
      else
        bindr (ok_or (conflict (st_sha256 row)) (parse_kind_v3 (st_kind row))) (\<lambda>kind.
        bindr (ensure (unat (st_byte_length row) < 2 ^ 63) (conflict (st_sha256 row))) (\<lambda>_.
        bindr (ok_or (conflict ''gc-byte-overflow'') (checked_add (snd acc) (st_byte_length row))) (\<lambda>t.
          Inr (fst acc @ [\<lparr>ref3_kind = kind, ref3_sha256 = st_sha256 row, ref3_byte_length = st_byte_length row\<rparr>], t)))))"

definition build_gc_plan ::
  "json_lib \<Rightarrow> (bytes \<Rightarrow> string) \<Rightarrow> request_env \<Rightarrow> server_db \<Rightarrow> metadata_error + server_gc_plan" where
  "build_gc_plan J H R db =
     (let reachable = server_reachable R db;
          rows = sort_key (\<lambda>r. (st_kind r, st_sha256 r)) (filter (\<lambda>r. st_created_at r \<le> rq_hour_ago R) (db_storage db)) in
      bindr (foldr_res (gc_candidate_step reachable) rows ([], 0)) (\<lambda>(cands, reclaimable).
      let sorted_cands = sort_key ref3_key cands in
        Inr \<lparr>sg_created_at = rq_now R 1, sg_reachable_object_count = length reachable, sg_candidates = sorted_cands,
          sg_reclaimable_bytes = reclaimable,
          sg_plan_fingerprint = digest_bytes_v4 H (candidates_text J sorted_cands)\<rparr>))"

definition plan_gc ::
  "json_lib \<Rightarrow> (bytes \<Rightarrow> string) \<Rightarrow> request_env \<Rightarrow> server_db \<Rightarrow> metadata_error + server_gc_plan" where
  "plan_gc J H R db = build_gc_plan J H R db"

definition enqueue_gc ::
  "json_lib \<Rightarrow> (bytes \<Rightarrow> string) \<Rightarrow> request_env \<Rightarrow> string \<Rightarrow> (uuid \<times> gc_queue_entry list) handler" where
  "enqueue_gc J H R expected_fingerprint db =
     bindr (build_gc_plan J H R db) (\<lambda>plan.
     bindr (ensure (sg_plan_fingerprint plan = expected_fingerprint) (conflict ''stale-gc-plan'')) (\<lambda>_.
     let op_id = rq_uuid R 0 in
     bindr (foldr_res (enqueue_entry R op_id False) (sg_candidates plan) ([], db_gc db)) (\<lambda>(entries, rows).
       Inr ((op_id, entries), db\<lparr>db_gc := rows\<rparr>))))"

definition gc_entry_of :: "gc_row \<Rightarrow> metadata_error + gc_queue_entry" where
  "gc_entry_of r =
     bindr (ok_or (SqliteError ''object_kind'') (parse_kind_v3 (gq_kind r))) (\<lambda>kind.
       Inr \<lparr>ge_id = gq_id r, ge_operation = gq_operation r,
         ge_object = \<lparr>ref3_kind = kind, ref3_sha256 = gq_sha256 r, ref3_byte_length = gq_length r\<rparr>,
         ge_state = gq_state r, ge_delete = gq_delete r\<rparr>)"

definition pending_gc_entries :: "request_env \<Rightarrow> server_db \<Rightarrow> metadata_error + gc_queue_entry list" where
  "pending_gc_entries R db =
     map_res gc_entry_of (sort_key (\<lambda>r. (gq_created_at r, rq_uuid_text R (gq_id r)))
       (filter (\<lambda>r. gq_state r = ''pending'') (db_gc db)))"

definition quarantined_gc_entries_for_purge :: "request_env \<Rightarrow> server_db \<Rightarrow> metadata_error + gc_queue_entry list" where
  "quarantined_gc_entries_for_purge R db =
     map_res gc_entry_of (sort_key (\<lambda>r. ((case gq_quarantined_at r of None \<Rightarrow> (0::nat, []) | Some t \<Rightarrow> (1, t)), rq_uuid_text R (gq_id r)))
       (filter (\<lambda>r. gq_state r = ''quarantined'' \<and> gq_delete r) (db_gc db)))"

definition gc_object_is_reachable :: "request_env \<Rightarrow> storage_object_ref_v3 \<Rightarrow> server_db \<Rightarrow> bool" where
  "gc_object_is_reachable R obj db \<longleftrightarrow> node_of obj \<in> set (server_reachable R db)"

definition update_gc :: "(gc_row \<Rightarrow> bool) \<Rightarrow> (gc_row \<Rightarrow> gc_row) \<Rightarrow> server_db \<Rightarrow> server_db" where
  "update_gc p f db = db\<lparr>db_gc := map (\<lambda>r. if p r then f r else r) (db_gc db)\<rparr>"

definition complete_gc_entry :: "request_env \<Rightarrow> gc_queue_entry \<Rightarrow> unit handler" where
  "complete_gc_entry R e db =
     (let x = node_of (ge_object e);
          db1 = db\<lparr>db_edges := filter (\<lambda>(s, t). \<not> (s = x \<or> t = x)) (db_edges db),
                   db_storage := filter (\<lambda>r. (st_kind r, st_sha256 r) \<noteq> x) (db_storage db)\<rparr>
      in Inr ((), update_gc (\<lambda>r. gq_id r = ge_id e \<and> gq_state r = ''pending'')
           (\<lambda>r. r\<lparr>gq_state := ''quarantined'', gq_quarantined_at := Some (rq_now R 0), gq_last_error := None\<rparr>) db1))"

definition cancel_gc_entry :: "uuid \<Rightarrow> string \<Rightarrow> unit handler" where
  "cancel_gc_entry entry_id reason db =
     Inr ((), update_gc (\<lambda>r. gq_id r = entry_id \<and> gq_state r = ''pending'')
       (\<lambda>r. r\<lparr>gq_state := ''cancelled'', gq_last_error := Some reason\<rparr>) db)"

definition mark_gc_entry_purged :: "request_env \<Rightarrow> uuid \<Rightarrow> unit handler" where
  "mark_gc_entry_purged R entry_id db =
     Inr ((), update_gc (\<lambda>r. gq_id r = entry_id \<and> gq_state r = ''quarantined'' \<and> gq_delete r)
       (\<lambda>r. r\<lparr>gq_state := ''purged'', gq_purged_at := Some (rq_now R 0), gq_last_error := None\<rparr>) db)"

end
