(* ===== verification/ServerHistory.thy ===== *)
theory ServerHistory
  imports ServerMeta
begin

text \<open>
  The histories of the metadata database. A namespace's active revisions are exactly the chain of
  parents from its head, and an active trash operation keeps the chain it removed, from its old head
  down to its new head. The chains are preserved by every handler; the facts on chains are proved on
  a row list, so that a handler's update of the table is one application of the transfer lemma.
\<close>

section \<open>Chains of parents\<close>

fun chain :: "revision_row list \<Rightarrow> (revision_row \<Rightarrow> bool) \<Rightarrow> string option \<Rightarrow> string list \<Rightarrow> string option \<Rightarrow> bool" where
  "chain rs P h [] t \<longleftrightarrow> h = t"
| "chain rs P h (x # xs) t \<longleftrightarrow> h = Some x \<and> (\<exists>r \<in> set rs. rw_id r = x \<and> P r \<and> chain rs P (rw_parent r) xs t)"

definition ids_where :: "revision_row list \<Rightarrow> (revision_row \<Rightarrow> bool) \<Rightarrow> string set" where
  "ids_where rs P = rw_id ` {r \<in> set rs. P r}"

named_theorems chain_intros

lemma ids_whereI [chain_intros]: "r \<in> set rs \<Longrightarrow> P r \<Longrightarrow> rw_id r \<in> ids_where rs P"
  by (auto simp: ids_where_def)

lemma ids_whereE: assumes "x \<in> ids_where rs P" obtains r where "r \<in> set rs" "rw_id r = x" "P r"
  using assms by (auto simp: ids_where_def)

lemma chain_transfer:
  assumes "chain rs P h xs t"
    and "\<And>r. r \<in> set rs \<Longrightarrow> P r \<Longrightarrow> rw_id r \<in> set xs \<Longrightarrow>
          \<exists>r' \<in> set rs'. rw_id r' = rw_id r \<and> rw_parent r' = rw_parent r \<and> P' r'"
  shows "chain rs' P' h xs t"
  using assms
proof (induction xs arbitrary: h)
  case (Cons x xs)
  from Cons.prems(1) obtain r where r: "h = Some x" "r \<in> set rs" "rw_id r = x" "P r" "chain rs P (rw_parent r) xs t"
    by auto
  have "chain rs' P' (rw_parent r) xs t" by (rule Cons.IH[OF r(5)]) (auto intro: Cons.prems(2))
  with Cons.prems(2)[of r] r show ?case by fastforce
qed simp

lemma chain_append: "chain rs P h xs m \<Longrightarrow> chain rs P m ys t \<Longrightarrow> chain rs P h (xs @ ys) t"
  by (induction xs arbitrary: h) fastforce+

lemma chain_ids: "chain rs P h xs t \<Longrightarrow> set xs \<subseteq> ids_where rs P"
  by (induction xs arbitrary: h) (auto intro: ids_whereI)

lemma chain_head: "chain rs P h xs t \<Longrightarrow> h \<noteq> t \<Longrightarrow> \<exists>x. h = Some x \<and> x \<in> set xs"
  by (cases xs) auto

lemma chain_prefix:
  assumes ids: "distinct (map rw_id rs)" and ys: "chain rs P h ys m" and xs: "chain rs P h xs None"
  shows "\<exists>zs. xs = ys @ zs \<and> chain rs P m zs None"
  using ys xs
proof (induction ys arbitrary: h xs)
  case (Cons y ys)
  from Cons.prems(1) obtain r where r: "h = Some y" "r \<in> set rs" "rw_id r = y" "chain rs P (rw_parent r) ys m" by auto
  with Cons.prems(2) obtain xs' r' where x: "xs = y # xs'" "r' \<in> set rs" "rw_id r' = y" "chain rs P (rw_parent r') xs' None"
    by (cases xs) auto
  from ids r(2,3) x(2,3) have "r' = r" by (auto simp: distinct_map dest: inj_onD)
  with Cons.IH[OF r(4)] x show ?case by auto
qed simp

lemma same_row: "distinct (map rw_id rs) \<Longrightarrow> r \<in> set rs \<Longrightarrow> r' \<in> set rs \<Longrightarrow> rw_id r = rw_id r' \<Longrightarrow> r = r'"
  by (auto simp: distinct_map dest: inj_onD)

section \<open>The invariant\<close>

definition ns_active :: "uuid \<Rightarrow> revision_row \<Rightarrow> bool" where
  "ns_active u r \<longleftrightarrow> rw_namespace r = u \<and> rw_state r = ''active''"

definition op_trashed :: "uuid \<Rightarrow> uuid \<Rightarrow> revision_row \<Rightarrow> bool" where
  "op_trashed u x r \<longleftrightarrow> rw_namespace r = u \<and> rw_state r = ''trashed'' \<and> rw_trash_op r = Some x"

definition linear :: "revision_row list \<Rightarrow> uuid \<Rightarrow> string option \<Rightarrow> bool" where
  "linear rs u h \<longleftrightarrow>
     (\<exists>xs. distinct xs \<and> chain rs (ns_active u) h xs None \<and> set xs = ids_where rs (ns_active u))"

definition restorable :: "revision_row list \<Rightarrow> trash_row \<Rightarrow> bool" where
  "restorable rs t \<longleftrightarrow>
     (\<exists>xs. distinct xs \<and> xs \<noteq> []
       \<and> chain rs (op_trashed (tr_namespace t) (tr_id t)) (tr_old_head t) xs (tr_new_head t)
       \<and> set xs = ids_where rs (\<lambda>r. rw_trash_op r = Some (tr_id t)))
     \<and> (\<forall>h. tr_new_head t = Some h \<longrightarrow>
          h \<in> ids_where rs (\<lambda>r. rw_namespace r = tr_namespace t \<and> rw_state r \<in> {''active'', ''trashed''}))"

definition keys_ok :: "server_db \<Rightarrow> bool" where
  "keys_ok db \<longleftrightarrow> distinct (map nr_id (db_namespaces db)) \<and> distinct (map rw_id (db_revisions db))
     \<and> distinct (map tr_id (db_trash db))
     \<and> rw_namespace ` set (db_revisions db) \<subseteq> nr_id ` set (db_namespaces db)
     \<and> (\<forall>r \<in> set (db_revisions db). (rw_state r = ''active'' \<longrightarrow> rw_trash_op r = None)
          \<and> (\<forall>x. rw_trash_op r = Some x \<longrightarrow> x \<in> tr_id ` set (db_trash db)))"

definition history_ok :: "server_db \<Rightarrow> bool" where
  "history_ok db \<longleftrightarrow> keys_ok db
     \<and> (\<forall>ns \<in> set (db_namespaces db). linear (db_revisions db) (nr_id ns) (nr_head ns))
     \<and> (\<forall>t \<in> set (db_trash db). tr_state t = ''active'' \<longrightarrow> restorable (db_revisions db) t)"

definition empty_db :: server_db where
  "empty_db = \<lparr>db_namespaces = [], db_revisions = [], db_revision_objects = [], db_storage = [], db_edges = [],
     db_roots = [], db_trash = [], db_gc = []\<rparr>"

lemma history_ok_empty: "history_ok empty_db"
  by (simp add: history_ok_def keys_ok_def empty_db_def)

text \<open>Handlers that touch neither the histories nor the keys.\<close>

lemma history_ok_cong:
  assumes "history_ok db" and "db_revisions db' = db_revisions db" and "db_trash db' = db_trash db"
    and "map (\<lambda>r. (nr_id r, nr_head r)) (db_namespaces db') = map (\<lambda>r. (nr_id r, nr_head r)) (db_namespaces db)"
  shows "history_ok db'"
proof -
  have ids: "map nr_id (db_namespaces db') = map nr_id (db_namespaces db)"
    using arg_cong[OF assms(4), of "map fst"] by (simp add: comp_def)
  have "set (map (\<lambda>r. (nr_id r, nr_head r)) (db_namespaces db')) = set (map (\<lambda>r. (nr_id r, nr_head r)) (db_namespaces db))"
    by (simp only: assms(4))
  then have pairs: "\<And>ns'. ns' \<in> set (db_namespaces db') \<Longrightarrow> \<exists>ns \<in> set (db_namespaces db). nr_id ns = nr_id ns' \<and> nr_head ns = nr_head ns'"
    by (simp add: set_eq_iff image_iff) (metis (no_types, lifting))
  have img: "nr_id ` set (db_namespaces db') = nr_id ` set (db_namespaces db)"
    using arg_cong[OF ids, of set] by simp
  show ?thesis
    using assms(1) pairs unfolding history_ok_def keys_ok_def assms(2,3) ids img by metis
qed

section \<open>Changes of the tables\<close>

lemma namespace_changed:
  assumes "\<And>r. nr_id (f r) = nr_id r"
  shows "map nr_id (map (\<lambda>r. if nr_id r = u then f r else r) rs) = map nr_id rs"
  using assms by (induction rs) auto

lemma namespace_changed_set:
  assumes "\<And>r. nr_id (f r) = nr_id r"
  shows "nr_id ` set (map (\<lambda>r. if nr_id r = u then f r else r) rs) = nr_id ` set rs"
proof -
  have "set (map nr_id (map (\<lambda>r. if nr_id r = u then f r else r) rs)) = set (map nr_id rs)"
    by (simp only: namespace_changed[OF assms])
  then show ?thesis by (simp only: set_map)
qed

lemma linear_transfer:
  assumes "linear rs u h" and "rw_id ` {r \<in> set rs'. ns_active u r} = rw_id ` {r \<in> set rs. ns_active u r}"
    and "\<And>r. r \<in> set rs \<Longrightarrow> ns_active u r \<Longrightarrow>
          \<exists>r' \<in> set rs'. rw_id r' = rw_id r \<and> rw_parent r' = rw_parent r \<and> ns_active u r'"
  shows "linear rs' u h"
proof -
  from assms(1) obtain xs where xs: "distinct xs" "chain rs (ns_active u) h xs None" "set xs = ids_where rs (ns_active u)"
    unfolding linear_def by blast
  have "chain rs' (ns_active u) h xs None" by (rule chain_transfer[OF xs(2)]) (rule assms(3))
  with xs assms(2) show ?thesis unfolding linear_def ids_where_def by auto
qed

lemma restorable_transfer:
  assumes "restorable rs t"
    and "ids_where rs' (\<lambda>r. rw_trash_op r = Some (tr_id t)) = ids_where rs (\<lambda>r. rw_trash_op r = Some (tr_id t))"
    and "\<And>r. r \<in> set rs \<Longrightarrow> op_trashed (tr_namespace t) (tr_id t) r \<Longrightarrow> rw_id r \<in> ids_where rs (\<lambda>r. rw_trash_op r = Some (tr_id t)) \<Longrightarrow>
          \<exists>r' \<in> set rs'. rw_id r' = rw_id r \<and> rw_parent r' = rw_parent r \<and> op_trashed (tr_namespace t) (tr_id t) r'"
    and "\<And>r. r \<in> set rs \<Longrightarrow> rw_namespace r = tr_namespace t \<Longrightarrow> rw_state r \<in> {''active'', ''trashed''} \<Longrightarrow> tr_new_head t = Some (rw_id r) \<Longrightarrow>
          \<exists>r' \<in> set rs'. rw_id r' = rw_id r \<and> rw_namespace r' = tr_namespace t \<and> rw_state r' \<in> {''active'', ''trashed''}"
  shows "restorable rs' t"
proof -
  from assms(1) obtain xs where xs: "distinct xs" "xs \<noteq> []"
      "chain rs (op_trashed (tr_namespace t) (tr_id t)) (tr_old_head t) xs (tr_new_head t)"
      "set xs = ids_where rs (\<lambda>r. rw_trash_op r = Some (tr_id t))"
    and h: "\<And>h. tr_new_head t = Some h \<Longrightarrow>
          h \<in> ids_where rs (\<lambda>r. rw_namespace r = tr_namespace t \<and> rw_state r \<in> {''active'', ''trashed''})"
    unfolding restorable_def by blast
  have "chain rs' (op_trashed (tr_namespace t) (tr_id t)) (tr_old_head t) xs (tr_new_head t)"
    by (rule chain_transfer[OF xs(3)]) (auto simp: xs(4) intro: assms(3))
  moreover have "h \<in> ids_where rs' (\<lambda>r. rw_namespace r = tr_namespace t \<and> rw_state r \<in> {''active'', ''trashed''})"
    if n: "tr_new_head t = Some h" for h
  proof -
    from h[OF n] obtain r where "r \<in> set rs" "rw_id r = h" "rw_namespace r = tr_namespace t" "rw_state r \<in> {''active'', ''trashed''}"
      by (rule ids_whereE) blast
    with assms(4)[of r] n obtain r' where "r' \<in> set rs'" "rw_id r' = h" "rw_namespace r' = tr_namespace t"
      "rw_state r' \<in> {''active'', ''trashed''}" by blast
    then show ?thesis by (auto simp: ids_where_def)
  qed
  ultimately show ?thesis unfolding restorable_def assms(2) using xs by blast
qed

lemma history_ok_extend:
  assumes ok: "history_ok db" and ns: "ns \<in> set (db_namespaces db)"
    and row: "rw_namespace row = nr_id ns" "rw_state row = ''active''" "rw_trash_op row = None"
      "rw_parent row = nr_head ns" "rw_id row \<notin> rw_id ` set (db_revisions db)"
    and db': "db_revisions db' = db_revisions db @ [row]" "db_trash db' = db_trash db"
      "db_namespaces db' = map (\<lambda>r. if nr_id r = nr_id ns then f r else r) (db_namespaces db)"
    and f: "\<And>r. nr_id (f r) = nr_id r" "\<And>r. nr_head (f r) = Some (rw_id row)"
  shows "history_ok db'"
proof -
  let ?rs = "db_revisions db"
  have keys: "keys_ok db'"
    using ok ns row unfolding history_ok_def keys_ok_def db'(1,2) db'(3) namespace_changed[OF f(1)]
      namespace_changed_set[OF f(1)] by auto
  have lin: "linear (?rs @ [row]) (nr_id n) h" if "linear ?rs (nr_id n) h" "nr_id n \<noteq> nr_id ns" for n h
    by (rule linear_transfer[OF that(1)]) (use that(2) row in \<open>auto simp: ns_active_def\<close>)
  have "linear (?rs @ [row]) (nr_id ns) (Some (rw_id row))"
  proof -
    from ok ns obtain xs where xs: "distinct xs" "chain ?rs (ns_active (nr_id ns)) (nr_head ns) xs None"
        "set xs = ids_where ?rs (ns_active (nr_id ns))" unfolding history_ok_def linear_def by blast
    have "chain (?rs @ [row]) (ns_active (nr_id ns)) (nr_head ns) xs None" by (rule chain_transfer[OF xs(2)]) auto
    then have "chain (?rs @ [row]) (ns_active (nr_id ns)) (Some (rw_id row)) (rw_id row # xs) None"
      using row by (auto simp: ns_active_def)
    moreover have "set (rw_id row # xs) = ids_where (?rs @ [row]) (ns_active (nr_id ns))"
      using xs(3) row by (auto simp: ids_where_def ns_active_def)
    moreover have "distinct (rw_id row # xs)" using xs row by (auto simp: ids_where_def)
    ultimately show ?thesis unfolding linear_def by blast
  qed
  then have "\<forall>n \<in> set (db_namespaces db'). linear (db_revisions db') (nr_id n) (nr_head n)"
    using lin ok unfolding history_ok_def db'(1,3) by (auto simp: f)
  moreover have "restorable (?rs @ [row]) t" if "restorable ?rs t" for t
    by (rule restorable_transfer[OF that]) (use row in \<open>auto simp: ids_where_def\<close>)
  ultimately show ?thesis using keys ok unfolding history_ok_def db'(1,2) by blast
qed

text \<open>
  An update of the revision rows that keeps identifiers, parents and namespaces: the form of every
  update of the trash handlers.
\<close>

definition keeps_rows :: "(revision_row \<Rightarrow> revision_row) \<Rightarrow> bool" where
  "keeps_rows g \<longleftrightarrow> (\<forall>r. rw_id (g r) = rw_id r \<and> rw_parent (g r) = rw_parent r \<and> rw_namespace (g r) = rw_namespace r)"

lemma keeps_rowsD:
  assumes "keeps_rows g" shows "rw_id (g r) = rw_id r" "rw_parent (g r) = rw_parent r" "rw_namespace (g r) = rw_namespace r"
  using assms by (auto simp: keeps_rows_def)

lemma keeps_rows_ids: "keeps_rows g \<Longrightarrow> map rw_id (map g rs) = map rw_id rs"
  by (simp add: keeps_rowsD)

lemma ids_where_map: "keeps_rows g \<Longrightarrow> ids_where (map g rs) P = ids_where rs (\<lambda>r. P (g r))"
  by (auto simp: ids_where_def keeps_rowsD) (metis (mono_tags, lifting) image_iff keeps_rowsD(1) mem_Collect_eq)

lemma chain_map:
  assumes "keeps_rows g" and "chain rs P h xs t"
    and "\<And>r. r \<in> set rs \<Longrightarrow> P r \<Longrightarrow> rw_id r \<in> set xs \<Longrightarrow> P' (g r)"
  shows "chain (map g rs) P' h xs t"
  by (rule chain_transfer[OF assms(2)]) (use assms(1,3) in \<open>auto simp: keeps_rowsD intro!: bexI\<close>)

lemma linear_map:
  assumes "keeps_rows g" and "linear rs u h" and "\<And>r. r \<in> set rs \<Longrightarrow> ns_active u (g r) \<longleftrightarrow> ns_active u r"
  shows "linear (map g rs) u h"
proof -
  from assms(2) obtain xs where xs: "distinct xs" "chain rs (ns_active u) h xs None" "set xs = ids_where rs (ns_active u)"
    unfolding linear_def by blast
  have "chain (map g rs) (ns_active u) h xs None" by (rule chain_map[OF assms(1) xs(2)]) (simp add: assms(3))
  moreover have "ids_where (map g rs) (ns_active u) = ids_where rs (ns_active u)"
    unfolding ids_where_map[OF assms(1)] using assms(3) by (auto simp: ids_where_def)
  ultimately show ?thesis using xs unfolding linear_def by auto
qed

lemma restorable_map:
  assumes g: "keeps_rows g" and "restorable rs t"
    and op: "\<And>r. r \<in> set rs \<Longrightarrow> rw_trash_op (g r) = Some (tr_id t) \<longleftrightarrow> rw_trash_op r = Some (tr_id t)"
    and st: "\<And>r. r \<in> set rs \<Longrightarrow> op_trashed (tr_namespace t) (tr_id t) r \<Longrightarrow> op_trashed (tr_namespace t) (tr_id t) (g r)"
    and nh: "\<And>r. r \<in> set rs \<Longrightarrow> rw_namespace r = tr_namespace t \<Longrightarrow> rw_state r \<in> {''active'', ''trashed''} \<Longrightarrow>
          tr_new_head t = Some (rw_id r) \<Longrightarrow> rw_state (g r) \<in> {''active'', ''trashed''}"
  shows "restorable (map g rs) t"
proof (rule restorable_transfer[OF assms(2)])
  show "ids_where (map g rs) (\<lambda>r. rw_trash_op r = Some (tr_id t)) = ids_where rs (\<lambda>r. rw_trash_op r = Some (tr_id t))"
    unfolding ids_where_map[OF g] using op by (auto simp: ids_where_def)
  show "\<exists>r' \<in> set (map g rs). rw_id r' = rw_id r \<and> rw_parent r' = rw_parent r \<and> op_trashed (tr_namespace t) (tr_id t) r'"
    if "r \<in> set rs" "op_trashed (tr_namespace t) (tr_id t) r" for r
    by (rule bexI[of _ "g r"]) (use st[OF that] that(1) in \<open>auto simp: keeps_rowsD[OF g]\<close>)
  show "\<exists>r' \<in> set (map g rs). rw_id r' = rw_id r \<and> rw_namespace r' = tr_namespace t \<and> rw_state r' \<in> {''active'', ''trashed''}"
    if "r \<in> set rs" "rw_namespace r = tr_namespace t" "rw_state r \<in> {''active'', ''trashed''}" "tr_new_head t = Some (rw_id r)" for r
    by (rule bexI[of _ "g r"]) (use nh[OF that] that in \<open>auto simp: keeps_rowsD[OF g]\<close>)
qed

lemma history_ok_update:
  assumes keys: "keys_ok db" and g: "keeps_rows g"
    and db': "db_revisions db' = map g (db_revisions db)"
      "db_namespaces db' = map (\<lambda>r. if nr_id r = u then f r else r) (db_namespaces db)"
    and f: "\<And>r. nr_id (f r) = nr_id r" "\<And>r. nr_head (f r) = h"
    and trash: "distinct (map tr_id (db_trash db'))"
    and ops: "\<And>r. r \<in> set (db_revisions db) \<Longrightarrow> rw_state (g r) = ''active'' \<Longrightarrow> rw_trash_op (g r) = None"
      "\<And>r x. r \<in> set (db_revisions db) \<Longrightarrow> rw_trash_op (g r) = Some x \<Longrightarrow> x \<in> tr_id ` set (db_trash db')"
    and lin: "u \<in> nr_id ` set (db_namespaces db) \<Longrightarrow> linear (map g (db_revisions db)) u h"
      "\<And>n. n \<in> set (db_namespaces db) \<Longrightarrow> nr_id n \<noteq> u \<Longrightarrow> linear (map g (db_revisions db)) (nr_id n) (nr_head n)"
    and res: "\<And>t. t \<in> set (db_trash db') \<Longrightarrow> tr_state t = ''active'' \<Longrightarrow> restorable (map g (db_revisions db)) t"
  shows "history_ok db'"
proof -
  have ns: "rw_namespace ` set (map g (db_revisions db)) \<subseteq> nr_id ` set (db_namespaces db')"
    unfolding db'(2) namespace_changed_set[OF f(1)] using keys by (auto simp: keys_ok_def keeps_rowsD[OF g])
  have keys': "keys_ok db'"
    unfolding keys_ok_def db'(1) db'(2) namespace_changed[OF f(1)] keeps_rows_ids[OF g]
    by (intro conjI ballI allI impI; (elim imageE)?)
      (use keys trash ns ops in \<open>auto simp: keys_ok_def db'(2)\<close>)
  have "linear (map g (db_revisions db)) (nr_id n) (nr_head n)" if n: "n \<in> set (db_namespaces db')" for n
  proof -
    from n obtain m where m: "m \<in> set (db_namespaces db)" "n = (if nr_id m = u then f m else m)" by (auto simp: db'(2))
    show ?thesis
    proof (cases "nr_id m = u")
      case True
      with m lin(1) show ?thesis by (metis f imageI)
    next
      case False
      with m lin(2) show ?thesis by metis
    qed
  qed
  with keys' res show ?thesis unfolding history_ok_def db'(1) by blast
qed

section \<open>Truncation and restoration of a history\<close>

definition trash_row_update :: "string list \<Rightarrow> uuid \<Rightarrow> revision_row \<Rightarrow> revision_row" where
  "trash_row_update ys x r =
     (if rw_id r \<in> set ys \<and> rw_state r = ''active'' then r\<lparr>rw_state := ''trashed'', rw_trash_op := Some x\<rparr> else r)"

definition restore_row_update :: "uuid \<Rightarrow> revision_row \<Rightarrow> revision_row" where
  "restore_row_update x r =
     (if rw_trash_op r = Some x then r\<lparr>rw_state := ''active'', rw_trash_op := None\<rparr> else r)"

lemma keeps_trash [chain_intros]: "keeps_rows (trash_row_update ys x)"
  by (simp add: keeps_rows_def trash_row_update_def)

lemma keeps_restore [chain_intros]: "keeps_rows (restore_row_update x)"
  by (simp add: keeps_rows_def restore_row_update_def)

lemma chain_rows:
  assumes "distinct (map rw_id rs)" and "chain rs P h ys m" and "r \<in> set rs" and "rw_id r \<in> set ys"
  shows "P r"
proof -
  from chain_ids[OF assms(2)] assms(4) obtain r' where "r' \<in> set rs" "rw_id r' = rw_id r" "P r'"
    by (auto elim: ids_whereE)
  with same_row[OF assms(1,3)] show ?thesis by metis
qed

lemma trash_linear:
  assumes ids: "distinct (map rw_id rs)" and ys: "chain rs (ns_active u) h ys m" and lin: "linear rs u h"
  shows "\<exists>zs. chain rs (ns_active u) m zs None \<and> distinct (ys @ zs) \<and> set (ys @ zs) = ids_where rs (ns_active u)"
    and "linear (map (trash_row_update ys x) rs) u m"
proof -
  let ?g = "trash_row_update ys x"
  from lin obtain xs where xs: "distinct xs" "chain rs (ns_active u) h xs None" "set xs = ids_where rs (ns_active u)"
    unfolding linear_def by blast
  from chain_prefix[OF ids ys xs(2)] obtain zs where zs: "xs = ys @ zs" "chain rs (ns_active u) m zs None" by blast
  with xs show "\<exists>zs. chain rs (ns_active u) m zs None \<and> distinct (ys @ zs) \<and> set (ys @ zs) = ids_where rs (ns_active u)"
    by blast
  have "chain (map ?g rs) (ns_active u) m zs None"
    by (rule chain_map[OF keeps_trash zs(2)]) (use xs(1) zs(1) in \<open>auto simp: trash_row_update_def ns_active_def\<close>)
  moreover have "set zs = ids_where rs (ns_active u) - set ys" using xs zs(1) by auto
  then have "set zs = ids_where (map ?g rs) (ns_active u)"
    unfolding ids_where_map[OF keeps_trash] using chain_rows[OF ids ys]
    by (auto simp: ids_where_def trash_row_update_def ns_active_def split: if_splits)
  ultimately show "linear (map ?g rs) u m" unfolding linear_def using xs(1) zs(1) by (metis distinct_append)
qed

lemma trash_restorable:
  assumes ids: "distinct (map rw_id rs)" and lin: "linear rs (tr_namespace t) (tr_old_head t)"
    and ys: "chain rs (ns_active (tr_namespace t)) (tr_old_head t) ys (tr_new_head t)" "tr_old_head t \<noteq> tr_new_head t"
    and known: "\<And>r. r \<in> set rs \<Longrightarrow> rw_trash_op r \<noteq> Some (tr_id t)"
  shows "restorable (map (trash_row_update ys (tr_id t)) rs) t"
proof -
  let ?g = "trash_row_update ys (tr_id t)"
  let ?u = "tr_namespace t"
  have c: "chain (map ?g rs) (op_trashed ?u (tr_id t)) (tr_old_head t) ys (tr_new_head t)"
    by (rule chain_map[OF keeps_trash ys(1)]) (auto simp: trash_row_update_def op_trashed_def ns_active_def)
  have "rw_trash_op (?g r) = Some (tr_id t) \<longleftrightarrow> rw_id r \<in> set ys" if "r \<in> set rs" for r
    using known[OF that] chain_rows[OF ids ys(1) that] by (auto simp: trash_row_update_def ns_active_def)
  then have "ids_where (map ?g rs) (\<lambda>r. rw_trash_op r = Some (tr_id t)) = ids_where rs (\<lambda>r. rw_id r \<in> set ys)"
    unfolding ids_where_map[OF keeps_trash] by (auto simp: ids_where_def)
  also have "\<dots> = set ys" using chain_ids[OF ys(1)] by (auto simp: ids_where_def)
  finally have i: "set ys = ids_where (map ?g rs) (\<lambda>r. rw_trash_op r = Some (tr_id t))" ..
  from trash_linear(1)[OF ids ys(1) lin] obtain zs where zs: "chain rs (ns_active ?u) (tr_new_head t) zs None"
      "distinct (ys @ zs)" "set (ys @ zs) = ids_where rs (ns_active ?u)" by blast
  have n: "h \<in> ids_where (map ?g rs) (\<lambda>r. rw_namespace r = ?u \<and> rw_state r \<in> {''active'', ''trashed''})"
    if "tr_new_head t = Some h" for h
  proof -
    have "h \<in> set zs" using zs(1) that by (cases zs) auto
    then have "h \<in> ids_where rs (ns_active ?u)" using zs(3) by auto
    then show ?thesis unfolding ids_where_map[OF keeps_trash]
      by (auto simp: ids_where_def ns_active_def keeps_rowsD[OF keeps_trash]) (auto simp: trash_row_update_def)
  qed
  have "ys \<noteq> []" using ys by (cases ys) auto
  moreover have "distinct ys" using zs(2) by simp
  ultimately show ?thesis unfolding restorable_def using c i n by blast
qed

lemma history_ok_truncate:
  assumes ok: "history_ok db" and ns: "ns \<in> set (db_namespaces db)"
    and ys: "chain (db_revisions db) (ns_active (nr_id ns)) (nr_head ns) ys (tr_new_head t)" "nr_head ns \<noteq> tr_new_head t"
    and t: "tr_id t \<notin> tr_id ` set (db_trash db)" "tr_namespace t = nr_id ns" "tr_old_head t = nr_head ns"
    and db': "db_revisions db' = map (trash_row_update ys (tr_id t)) (db_revisions db)"
      "db_trash db' = db_trash db @ [t]"
      "db_namespaces db' = map (\<lambda>r. if nr_id r = nr_id ns then f r else r) (db_namespaces db)"
    and f: "\<And>r. nr_id (f r) = nr_id r" "\<And>r. nr_head (f r) = tr_new_head t"
  shows "history_ok db'"
proof (rule history_ok_update[OF _ keeps_trash db'(1,3) f])
  let ?rs = "db_revisions db"
  let ?g = "trash_row_update ys (tr_id t)"
  from ok have keys: "keys_ok db" and ids: "distinct (map rw_id ?rs)" and lin: "linear ?rs (nr_id ns) (nr_head ns)"
    using ns by (simp_all add: history_ok_def keys_ok_def)
  then show "keys_ok db" by simp
  have known: "rw_trash_op r \<noteq> Some (tr_id t)" if "r \<in> set ?rs" for r
    using keys t(1) that unfolding keys_ok_def by blast
  have idle: "rw_trash_op r = None" if "r \<in> set ?rs" "rw_state r = ''active''" for r
    using keys that unfolding keys_ok_def by blast
  show "distinct (map tr_id (db_trash db'))" using keys t(1) by (simp add: db'(2) keys_ok_def)
  show "rw_trash_op (?g r) = None" if "r \<in> set ?rs" "rw_state (?g r) = ''active''" for r
    using idle[OF that(1)] that(2) by (auto simp: trash_row_update_def split: if_splits)
  show "x \<in> tr_id ` set (db_trash db')" if "r \<in> set ?rs" "rw_trash_op (?g r) = Some x" for r x
  proof (cases "rw_id r \<in> set ys \<and> rw_state r = ''active''")
    case True
    with that(2) show ?thesis by (simp add: trash_row_update_def db'(2))
  next
    case False
    with that(2) have "rw_trash_op r = Some x" by (simp add: trash_row_update_def)
    with keys that(1) show ?thesis unfolding keys_ok_def db'(2) by simp
  qed
  show "linear (map ?g ?rs) (nr_id ns) (tr_new_head t)" by (rule trash_linear(2)[OF ids ys(1) lin])
  show "linear (map ?g ?rs) (nr_id n) (nr_head n)" if "n \<in> set (db_namespaces db)" "nr_id n \<noteq> nr_id ns" for n
  proof (rule linear_map[OF keeps_trash])
    show "linear ?rs (nr_id n) (nr_head n)" using ok that(1) by (simp add: history_ok_def)
    show "ns_active (nr_id n) (?g r) \<longleftrightarrow> ns_active (nr_id n) r" if "r \<in> set ?rs" for r
      using chain_rows[OF ids ys(1) that] \<open>nr_id n \<noteq> nr_id ns\<close> by (auto simp: trash_row_update_def ns_active_def)
  qed
  have old: "restorable (map ?g ?rs) s" if s: "s \<in> set (db_trash db)" "tr_state s = ''active''" for s
  proof (rule restorable_map[OF keeps_trash])
    show "restorable ?rs s" using ok s by (simp add: history_ok_def)
    have "tr_id s \<noteq> tr_id t" using s(1) t(1) by (metis imageI)
    then show "rw_trash_op (?g r) = Some (tr_id s) \<longleftrightarrow> rw_trash_op r = Some (tr_id s)" if "r \<in> set ?rs" for r
      using idle[OF that] by (auto simp: trash_row_update_def)
  qed (auto simp: trash_row_update_def op_trashed_def)
  have new: "restorable (map ?g ?rs) t" by (rule trash_restorable[OF ids]) (use ys t lin known in simp_all)
  show "restorable (map ?g ?rs) s" if "s \<in> set (db_trash db')" "tr_state s = ''active''" for s
    using that old new by (auto simp: db'(2))
qed

lemma trash_row_unique:
  "keys_ok db \<Longrightarrow> t \<in> set (db_trash db) \<Longrightarrow> s \<in> set (db_trash db) \<Longrightarrow> tr_id t = tr_id s \<Longrightarrow> t = s"
  by (auto simp: keys_ok_def distinct_map dest: inj_onD)

lemma trash_changed_ids: "map tr_id (map (\<lambda>r. if p r then r\<lparr>tr_state := s\<rparr> else r) ts) = map tr_id ts"
  by simp

lemma trash_changed_set: "tr_id ` set (map (\<lambda>r. if p r then r\<lparr>tr_state := s\<rparr> else r) ts) = tr_id ` set ts"
proof -
  have "set (map tr_id (map (\<lambda>r. if p r then r\<lparr>tr_state := s\<rparr> else r) ts)) = set (map tr_id ts)"
    by (simp only: trash_changed_ids)
  then show ?thesis by (simp only: set_map)
qed

lemma restorable_rows:
  assumes ids: "distinct (map rw_id rs)" and t: "restorable rs t" and r: "r \<in> set rs" "rw_trash_op r = Some (tr_id t)"
  shows "op_trashed (tr_namespace t) (tr_id t) r"
proof -
  from t obtain ys where ys: "chain rs (op_trashed (tr_namespace t) (tr_id t)) (tr_old_head t) ys (tr_new_head t)"
      "set ys = ids_where rs (\<lambda>r. rw_trash_op r = Some (tr_id t))" unfolding restorable_def by blast
  have "rw_id r \<in> set ys" unfolding ys(2) using r by (auto simp: ids_where_def)
  then show ?thesis by (rule chain_rows[OF ids ys(1) r(1)])
qed

lemma restore_linear:
  assumes ids: "distinct (map rw_id rs)" and t: "restorable rs t" and lin: "linear rs (tr_namespace t) (tr_new_head t)"
  shows "linear (map (restore_row_update (tr_id t)) rs) (tr_namespace t) (tr_old_head t)"
proof -
  let ?g = "restore_row_update (tr_id t)"
  let ?u = "tr_namespace t"
  from t obtain ys where ys: "distinct ys" "chain rs (op_trashed ?u (tr_id t)) (tr_old_head t) ys (tr_new_head t)"
      "set ys = ids_where rs (\<lambda>r. rw_trash_op r = Some (tr_id t))" unfolding restorable_def by blast
  note row = restorable_rows[OF ids t]
  from lin obtain xs where xs: "distinct xs" "chain rs (ns_active ?u) (tr_new_head t) xs None"
      "set xs = ids_where rs (ns_active ?u)" unfolding linear_def by blast
  have "chain (map ?g rs) (ns_active ?u) (tr_old_head t) ys (tr_new_head t)"
    by (rule chain_map[OF keeps_restore ys(2)]) (auto simp: restore_row_update_def op_trashed_def ns_active_def)
  moreover have "chain (map ?g rs) (ns_active ?u) (tr_new_head t) xs None"
    by (rule chain_map[OF keeps_restore xs(2)]) (auto simp: restore_row_update_def ns_active_def)
  ultimately have "chain (map ?g rs) (ns_active ?u) (tr_old_head t) (ys @ xs) None" by (rule chain_append)
  moreover have "set (ys @ xs) = ids_where (map ?g rs) (ns_active ?u)"
    unfolding ids_where_map[OF keeps_restore] set_append ys(3) xs(3) using row
    by (auto simp: ids_where_def restore_row_update_def ns_active_def op_trashed_def)
  moreover have "set ys \<inter> set xs = {}"
  proof -
    have False if r: "r \<in> set rs" "rw_trash_op r = Some (tr_id t)" "r' \<in> set rs" "ns_active ?u r'" "rw_id r = rw_id r'" for r r'
      using row[OF r(1,2)] r(4) same_row[OF ids r(1,3,5)] by (simp add: op_trashed_def ns_active_def)
    then show ?thesis unfolding ys(3) xs(3) ids_where_def by blast
  qed
  ultimately show ?thesis unfolding linear_def using ys(1) xs(1) by (metis distinct_append)
qed

lemma history_ok_restore:
  assumes ok: "history_ok db" and ns: "ns \<in> set (db_namespaces db)" and t: "t \<in> set (db_trash db)"
    and op: "tr_namespace t = nr_id ns" "tr_state t = ''active''" "tr_new_head t = nr_head ns"
    and s: "s \<noteq> ''active''"
    and db': "db_revisions db' = map (restore_row_update (tr_id t)) (db_revisions db)"
      "db_trash db' = map (\<lambda>r. if tr_id r = tr_id t then r\<lparr>tr_state := s\<rparr> else r) (db_trash db)"
      "db_namespaces db' = map (\<lambda>r. if nr_id r = nr_id ns then f r else r) (db_namespaces db)"
    and f: "\<And>r. nr_id (f r) = nr_id r" "\<And>r. nr_head (f r) = tr_old_head t"
  shows "history_ok db'"
proof (rule history_ok_update[OF _ keeps_restore db'(1,3) f])
  let ?rs = "db_revisions db"
  let ?g = "restore_row_update (tr_id t)"
  from ok have keys: "keys_ok db" and ids: "distinct (map rw_id ?rs)" and lin: "linear ?rs (nr_id ns) (nr_head ns)"
    and res: "restorable ?rs t" using ns t op(2) by (simp_all add: history_ok_def keys_ok_def)
  then show "keys_ok db" by simp
  show "distinct (map tr_id (db_trash db'))" using keys unfolding db'(2) trash_changed_ids by (simp add: keys_ok_def)
  show "rw_trash_op (?g r) = None" if "r \<in> set ?rs" "rw_state (?g r) = ''active''" for r
    using keys that unfolding keys_ok_def by (cases "rw_trash_op r = Some (tr_id t)") (simp_all add: restore_row_update_def)
  show "x \<in> tr_id ` set (db_trash db')" if "r \<in> set ?rs" "rw_trash_op (?g r) = Some x" for r x
  proof -
    have "x \<in> tr_id ` set (db_trash db)" using keys that unfolding keys_ok_def
      by (cases "rw_trash_op r = Some (tr_id t)") (simp_all add: restore_row_update_def)
    then show ?thesis by (simp only: trash_changed_set db'(2))
  qed
  show "linear (map ?g ?rs) (nr_id ns) (tr_old_head t)"
    using restore_linear[OF ids res] lin by (simp add: op)
  show "linear (map ?g ?rs) (nr_id n) (nr_head n)" if n: "n \<in> set (db_namespaces db)" "nr_id n \<noteq> nr_id ns" for n
  proof (rule linear_map[OF keeps_restore])
    show "linear ?rs (nr_id n) (nr_head n)" using ok n(1) by (simp add: history_ok_def)
    show "ns_active (nr_id n) (?g r) \<longleftrightarrow> ns_active (nr_id n) r" if "r \<in> set ?rs" for r
      using restorable_rows[OF ids res that] n(2) op(1) by (auto simp: restore_row_update_def ns_active_def op_trashed_def)
  qed
  show "restorable (map ?g ?rs) q" if q: "q \<in> set (db_trash db')" "tr_state q = ''active''" for q
  proof -
    from q(1) obtain q0 where q0: "q0 \<in> set (db_trash db)" "q = (if tr_id q0 = tr_id t then q0\<lparr>tr_state := s\<rparr> else q0)"
      by (auto simp: db'(2))
    from q(2) q0(2) s have neq: "tr_id q0 \<noteq> tr_id t" by (cases "tr_id q0 = tr_id t") simp_all
    with q0 q(2) show ?thesis by (intro restorable_map[OF keeps_restore])
        (use ok in \<open>auto simp: history_ok_def restore_row_update_def op_trashed_def\<close>)
  qed
qed

section \<open>Purge of trashed history\<close>

definition purge_row_update :: "uuid \<Rightarrow> uuid list \<Rightarrow> revision_row \<Rightarrow> revision_row" where
  "purge_row_update u ops r = (if in_selected_trash u ops r then r\<lparr>rw_state := ''purged''\<rparr> else r)"

definition purge_trash_update :: "uuid \<Rightarrow> uuid list \<Rightarrow> trash_row \<Rightarrow> trash_row" where
  "purge_trash_update u ops t =
     (if tr_namespace t = u \<and> tr_id t \<in> set ops \<and> tr_state t = ''active'' then t\<lparr>tr_state := ''purged''\<rparr> else t)"

lemma keeps_purge [chain_intros]: "keeps_rows (purge_row_update u ops)"
  by (simp add: keeps_rows_def purge_row_update_def)

lemma selected_Cons:
  "in_selected_trash u (x # ops) r \<longleftrightarrow>
     (rw_namespace r = u \<and> rw_trash_op r = Some x \<and> rw_state r = ''trashed'') \<or> in_selected_trash u ops r"
  by (auto simp: in_selected_trash_def split: option.splits)

lemma purge_row_Cons:
  "purge_row_update u ops (if rw_namespace r = u \<and> rw_trash_op r = Some x \<and> rw_state r = ''trashed'' then r\<lparr>rw_state := ''purged''\<rparr> else r)
     = purge_row_update u (x # ops) r"
  unfolding purge_row_update_def selected_Cons
  by (cases "rw_namespace r = u \<and> rw_trash_op r = Some x \<and> rw_state r = ''trashed''") (simp_all add: in_selected_trash_def)

lemma purge_trash_Cons:
  "purge_trash_update u ops (if tr_namespace t = u \<and> tr_id t = x \<and> tr_state t = ''active'' then t\<lparr>tr_state := ''purged''\<rparr> else t)
     = purge_trash_update u (x # ops) t"
  unfolding purge_trash_update_def
  by (cases "tr_namespace t = u \<and> tr_id t = x \<and> tr_state t = ''active''") simp_all

lemma purge_tables:
  "db_revisions (foldl (\<lambda>db x. purge_operation u x db) db ops) = map (purge_row_update u ops) (db_revisions db)"
  "db_trash (foldl (\<lambda>db x. purge_operation u x db) db ops) = map (purge_trash_update u ops) (db_trash db)"
  "db_namespaces (foldl (\<lambda>db x. purge_operation u x db) db ops) = db_namespaces db"
  "db_storage (foldl (\<lambda>db x. purge_operation u x db) db ops) = db_storage db"
  "db_edges (foldl (\<lambda>db x. purge_operation u x db) db ops) = db_edges db"
  "db_gc (foldl (\<lambda>db x. purge_operation u x db) db ops) = db_gc db"
proof (induction ops arbitrary: db)
  case Nil
  { case 1 show ?case by (simp add: purge_row_update_def in_selected_trash_def cong: option.case_cong) (auto split: option.splits intro!: map_idI[symmetric]) }
  { case 2 show ?case by (simp add: purge_trash_update_def) }
qed (simp_all add: purge_operation_def update_revisions_def update_trash_def purge_row_Cons[symmetric] purge_trash_Cons[symmetric])

lemma history_ok_purge:
  assumes ok: "history_ok db"
    and free: "\<And>t h. t \<in> set (db_trash db) \<Longrightarrow> tr_namespace t = u \<Longrightarrow> tr_state t = ''active'' \<Longrightarrow> tr_id t \<notin> set ops \<Longrightarrow>
          tr_new_head t = Some h \<Longrightarrow> h \<notin> ids_where (db_revisions db) (in_selected_trash u ops)"
    and db': "db_revisions db' = map (purge_row_update u ops) (db_revisions db)"
      "db_trash db' = map (purge_trash_update u ops) (db_trash db)" "db_namespaces db' = db_namespaces db"
  shows "history_ok db'"
proof -
  let ?rs = "db_revisions db"
  let ?g = "purge_row_update u ops"
  from ok have keys: "keys_ok db" and ids: "distinct (map rw_id ?rs)" by (simp_all add: history_ok_def keys_ok_def)
  have tids: "map tr_id (db_trash db') = map tr_id (db_trash db)" by (simp add: db'(2) purge_trash_update_def)
  then have tset: "tr_id ` set (db_trash db') = tr_id ` set (db_trash db)" by (metis list.set_map)
  have op: "rw_trash_op (?g r) = rw_trash_op r" and act: "rw_state (?g r) = ''active'' \<longleftrightarrow> rw_state r = ''active''" for r
    by (simp_all add: purge_row_update_def in_selected_trash_def)
  have keys': "keys_ok db'"
    using keys unfolding keys_ok_def tids tset db'(3) unfolding db'(1) keeps_rows_ids[OF keeps_purge]
    by (simp add: op act keeps_rowsD[OF keeps_purge] image_image)
  have lin: "linear (map ?g ?rs) v h" if "linear ?rs v h" for v h
    by (rule linear_map[OF keeps_purge that]) (simp add: ns_active_def act keeps_rowsD[OF keeps_purge])
  have res: "restorable (map ?g ?rs) t" if t: "t \<in> set (db_trash db)" "tr_state t = ''active''" "\<not> (tr_namespace t = u \<and> tr_id t \<in> set ops)" for t
  proof (rule restorable_map[OF keeps_purge])
    show rt: "restorable ?rs t" using ok t by (simp add: history_ok_def)
    show "op_trashed (tr_namespace t) (tr_id t) (?g r)" if "op_trashed (tr_namespace t) (tr_id t) r" for r
      using that t(3) by (auto simp: op_trashed_def purge_row_update_def in_selected_trash_def)
    show "rw_state (?g r) \<in> {''active'', ''trashed''}"
      if r: "r \<in> set ?rs" "rw_namespace r = tr_namespace t" "rw_state r \<in> {''active'', ''trashed''}" "tr_new_head t = Some (rw_id r)" for r
    proof -
      have "\<not> in_selected_trash u ops r"
      proof
        assume s: "in_selected_trash u ops r"
        then have "tr_namespace t = u" using r(2) by (simp add: in_selected_trash_def)
        with free[OF t(1) _ t(2) _ r(4)] t(3) ids_whereI[of r ?rs "in_selected_trash u ops", OF r(1) s] show False by blast
      qed
      with r(3) show ?thesis by (simp add: purge_row_update_def)
    qed
  qed (simp add: op)
  have "restorable (map ?g ?rs) t" if t: "t \<in> set (db_trash db')" "tr_state t = ''active''" for t
  proof -
    from t(1) obtain t0 where t0: "t0 \<in> set (db_trash db)" "t = purge_trash_update u ops t0" by (auto simp: db'(2))
    show ?thesis
    proof (cases "tr_namespace t0 = u \<and> tr_id t0 \<in> set ops \<and> tr_state t0 = ''active''")
      case True
      with t0(2) t(2) show ?thesis by (simp add: purge_trash_update_def)
    next
      case False
      then have "t = t0" using t0(2) by (simp add: purge_trash_update_def)
      with res t0(1) t(2) False show ?thesis by blast
    qed
  qed
  with keys' lin ok show ?thesis unfolding history_ok_def db'(1,3) by blast
qed

end
