(* ===== verification/ServerSteps.thy ===== *)
theory ServerSteps
  imports ServerHistory
begin

text \<open>
  The metadata store as a state machine: a step is one successful transaction of a handler, with the
  clock, the identifiers and the time parser of that request. A failed transaction leaves the
  database alone and is no step.
\<close>

section \<open>Every handler keeps the histories\<close>

lemma find_namespace_Some: "find_namespace db u = Some ns \<Longrightarrow> ns \<in> set (db_namespaces db) \<and> nr_id ns = u"
  by (auto simp: find_namespace_def find_Some_iff)

lemma find_namespace_None: "find_namespace db u = None \<longleftrightarrow> u \<notin> nr_id ` set (db_namespaces db)"
  by (auto simp: find_namespace_def find_None_iff)

lemma find_revision_None: "find_revision db rid = None \<longleftrightarrow> rid \<notin> rw_id ` set (db_revisions db)"
  by (auto simp: find_revision_def find_None_iff)

lemma read_revision_None: "read_revision db rid = None \<longleftrightarrow> rid \<notin> rw_id ` set (db_revisions db)"
  by (simp add: read_revision_def find_revision_None[symmetric] split: option.splits)

lemma read_namespace_Inr: "read_namespace R db u = Inr ns \<longleftrightarrow> find_namespace db u = Some ns"
  by (simp add: read_namespace_def)

lemma create_namespace_ok:
  assumes "create_namespace R name db = Inr (row, db')" and ok: "history_ok db"
  shows "history_ok db'"
proof -
  from assms(1) obtain n where new: "rq_uuid R 0 \<notin> nr_id ` set (db_namespaces db)"
    and db': "db' = db\<lparr>db_namespaces := db_namespaces db @ [\<lparr>nr_id = rq_uuid R 0, nr_display_name = n, nr_head = None,
        nr_epoch = 0, nr_created_at = rq_now R 0, nr_updated_at = rq_now R 0\<rparr>]\<rparr>"
    by (auto simp: create_namespace_def Let_def res_simps find_namespace_None)
  have "ns_active (rq_uuid R 0) r = False" if "r \<in> set (db_revisions db)" for r
  proof -
    have "rw_namespace r \<in> nr_id ` set (db_namespaces db)" using ok that by (auto simp: history_ok_def keys_ok_def)
    with new show ?thesis by (auto simp: ns_active_def)
  qed
  then have "linear (db_revisions db) (rq_uuid R 0) None"
    by (auto simp: linear_def ids_where_def intro!: exI[of _ "[]"])
  with ok new show ?thesis unfolding db' by (auto simp: history_ok_def keys_ok_def)
qed

lemma rename_namespace_ok:
  assumes "rename_namespace R u name db = Inr (row, db')" and ok: "history_ok db"
  shows "history_ok db'"
  by (rule history_ok_cong[OF ok])
    (use assms(1) in \<open>auto simp: rename_namespace_def Let_def res_simps update_namespace_def\<close>)

lemma insert_revision_Inr:
  "insert_revision x db = Inr (v, db1) \<Longrightarrow> \<exists>row. db1 = db\<lparr>db_revisions := db_revisions db @ [row]\<rparr> \<and> rw_id row = rm_id x
     \<and> rw_namespace row = rm_namespace x \<and> rw_parent row = rm_parent x \<and> rw_state row = ''active'' \<and> rw_trash_op row = None"
  by (auto simp: insert_revision_def res_simps)

lemma advance_head_Inr:
  "advance_head R u h rid db = Inr (v, db1) \<longleftrightarrow> (\<exists>ns. find_namespace db u = Some ns \<and> nr_head ns = h) \<and>
     db1 = update_namespace u (\<lambda>r. r\<lparr>nr_head := Some rid, nr_updated_at := rq_now R 1\<rparr>) db"
  by (auto simp: advance_head_def res_simps split: option.splits)

lemma commit_tables_ok:
  assumes ok: "history_ok db" and ns: "find_namespace db (rm_namespace x) = Some ns"
    and new: "read_revision db (rm_id x) = None" and parent: "rm_parent x = nr_head ns"
    and ins: "insert_revision x db = Inr (v, db1)"
    and db': "db_revisions db' = db_revisions db1" "db_trash db' = db_trash db1"
      "db_namespaces db' = db_namespaces (update_namespace (rm_namespace x) (\<lambda>r. r\<lparr>nr_head := Some (rm_id x), nr_updated_at := now\<rparr>) db1)"
  shows "history_ok db'"
proof -
  from insert_revision_Inr[OF ins] obtain row where row: "db1 = db\<lparr>db_revisions := db_revisions db @ [row]\<rparr>"
      "rw_id row = rm_id x" "rw_namespace row = rm_namespace x" "rw_parent row = rm_parent x"
      "rw_state row = ''active''" "rw_trash_op row = None" by blast
  from find_namespace_Some[OF ns] have n: "ns \<in> set (db_namespaces db)" "nr_id ns = rm_namespace x" by simp_all
  show ?thesis
    by (rule history_ok_extend[OF ok n(1), of row db' "\<lambda>r. r\<lparr>nr_head := Some (rm_id x), nr_updated_at := now\<rparr>"])
      (use row n new parent db' in \<open>simp_all add: read_revision_None update_namespace_def\<close>)
qed

lemma commit_revision_cases:
  assumes "commit_revision R h y db = Inr (c, db')"
  obtains (same) "db' = db"
    | (created) x ns v db1 rows where "find_namespace db (rm_namespace x) = Some ns" "read_revision db (rm_id x) = None"
      "rm_parent x = nr_head ns" "insert_revision x db = Inr (v, db1)"
      "map_res (\<lambda>obj. bindr (sql_integer (ob_byte_length obj) (rm_id x)) (\<lambda>n. Inr (rm_id x, obj\<lparr>ob_byte_length := n\<rparr>)))
         (rm_objects x) = Inr rows"
      "db' = update_namespace (rm_namespace x) (\<lambda>r. r\<lparr>nr_head := Some (rm_id x), nr_updated_at := rq_now R 1\<rparr>)
         (db1\<lparr>db_revision_objects := db_revision_objects db1 @ rows\<rparr>)"
proof -
  from assms obtain x ns where x: "normalize_revision R y = Inr x" "find_namespace db (rm_namespace x) = Some ns"
    by (auto simp: commit_revision_def bindr_eq_Inr_iff)
  show thesis
  proof (cases "read_revision db (rm_id x)")
    case None
    with assms x created show thesis by (auto simp: commit_revision_def bindr_eq_Inr_iff advance_head_Inr split: prod.splits)
  next
    case (Some e)
    with assms x same show thesis by (auto simp: commit_revision_def bindr_eq_Inr_iff split: if_splits)
  qed
qed

lemma commit_revision_ok:
  assumes "commit_revision R h y db = Inr (c, db')" and ok: "history_ok db"
  shows "history_ok db'"
  using assms(1)
proof (cases rule: commit_revision_cases)
  case (created x ns v db1 rows)
  with commit_tables_ok[OF ok created(1,2,3,4), of db' "rq_now R 1"] show ?thesis by (simp add: update_namespace_def)
qed (use ok in simp)

lemma commit_revision_root_created:
  assumes "commit_revision_root R h e y db = Inr ((Created, e'), db')"
  obtains x ns v db1 where "normalize_revision R y = Inr x" "find_namespace db (rm_namespace x) = Some ns"
    "nr_epoch ns = e" "e' = e" "nr_head ns = h" "read_revision db (rm_id x) = None" "rm_parent x = h" "parent_in_namespace db x = Inr ()"
    "insert_revision x db = Inr (v, db1)" "\<not> list_ex (\<lambda>r. rt_revision r = rm_id x) (db_roots db)"
    "db' = (update_namespace (rm_namespace x) (\<lambda>r. r\<lparr>nr_head := Some (rm_id x), nr_updated_at := rq_now R 1\<rparr>) db1)
       \<lparr>db_roots := db_roots db @ [\<lparr>rt_revision = rm_id x, rt_root = rm_id x, rt_schema_version = rm_root_schema_version x\<rparr>]\<rparr>"
proof -
  from assms obtain x ns where x: "normalize_revision R y = Inr x" "find_namespace db (rm_namespace x) = Some ns" "nr_epoch ns = e"
    by (auto simp: commit_revision_root_def bindr_eq_Inr_iff)
  show thesis
  proof (cases "read_revision db (rm_id x)")
    case None
    with assms x obtain v db1 where r: "nr_head ns = h" "rm_parent x = h" "parent_in_namespace db x = Inr ()"
      "insert_revision x db = Inr (v, db1)" and e': "e' = e"
      and last: "\<not> list_ex (\<lambda>r. rt_revision r = rm_id x) (db_roots (update_namespace (rm_namespace x) (\<lambda>r. r\<lparr>nr_head := Some (rm_id x), nr_updated_at := rq_now R 1\<rparr>) db1))"
        "db' = (let db2 = update_namespace (rm_namespace x) (\<lambda>r. r\<lparr>nr_head := Some (rm_id x), nr_updated_at := rq_now R 1\<rparr>) db1
           in db2\<lparr>db_roots := db_roots db2 @ [\<lparr>rt_revision = rm_id x, rt_root = rm_id x, rt_schema_version = rm_root_schema_version x\<rparr>]\<rparr>)"
      by (auto simp: commit_revision_root_def bindr_eq_Inr_iff advance_head_Inr Let_def split: prod.splits)
    from insert_revision_Inr[OF r(4)] have "db_roots db1 = db_roots db" by auto
    with that[OF x e' r(1) None r(2-4)] last show thesis by (simp add: Let_def update_namespace_def)
  next
    case (Some z)
    with assms x show thesis by (auto simp: commit_revision_root_def bindr_eq_Inr_iff split: if_splits)
  qed
qed

lemma commit_revision_root_retry:
  assumes "commit_revision_root R h e y db = Inr ((AlreadyCommitted, e'), db')" shows "db' = db"
  using assms by (auto simp: commit_revision_root_def bindr_eq_Inr_iff split: if_splits option.splits)

lemma commit_revision_root_ok:
  assumes "commit_revision_root R h e y db = Inr (c, db')" and ok: "history_ok db"
  shows "history_ok db'"
proof (cases c)
  case (Pair o' e')
  show ?thesis
  proof (cases o')
    case Created
    with assms(1) Pair have "commit_revision_root R h e y db = Inr ((Created, e'), db')" by simp
    then obtain x ns v db1 where x: "find_namespace db (rm_namespace x) = Some ns" "nr_head ns = h" "read_revision db (rm_id x) = None"
      "rm_parent x = h" "insert_revision x db = Inr (v, db1)"
      "db' = (update_namespace (rm_namespace x) (\<lambda>r. r\<lparr>nr_head := Some (rm_id x), nr_updated_at := rq_now R 1\<rparr>) db1)
         \<lparr>db_roots := db_roots db @ [\<lparr>rt_revision = rm_id x, rt_root = rm_id x, rt_schema_version = rm_root_schema_version x\<rparr>]\<rparr>"
      by (rule commit_revision_root_created)
    from commit_tables_ok[OF ok x(1,3) _ x(5), of db' "rq_now R 1"] x(2,4,6) show ?thesis by (simp add: update_namespace_def)
  next
    case AlreadyCommitted
    with assms Pair show ?thesis by (auto dest: commit_revision_root_retry)
  qed
qed

lemma active_parent_Some:
  "active_parent db u rid = Some p \<Longrightarrow> \<exists>r \<in> set (db_revisions db). rw_id r = rid \<and> ns_active u r \<and> rw_parent r = p"
  by (auto simp: active_parent_def find_Some_iff ns_active_def)

lemma walk_history_chain:
  "walk_history db u m c removed = Inr out \<Longrightarrow>
     \<exists>ys. out = removed @ ys \<and> chain (db_revisions db) (ns_active u) c ys m"
proof (induction db u m c removed rule: walk_history.induct)
  case (1 db u m c removed)
  show ?case
  proof (cases "c = m")
    case True
    with 1(2) show ?thesis by (subst (asm) walk_history.simps) (auto intro!: exI[of _ "[]"])
  next
    case False
    with 1(2) obtain rid p where c: "c = Some rid" "active_parent db u rid = Some p" "\<not> length (removed @ [rid]) > HISTORY_DEPTH"
      "walk_history db u m p (removed @ [rid]) = Inr out"
      by (subst (asm) walk_history.simps) (auto split: option.splits if_splits)
    from 1(1)[OF False c] obtain ys where "out = removed @ rid # ys" "chain (db_revisions db) (ns_active u) p ys m" by auto
    with c(1) active_parent_Some[OF c(2)] show ?thesis by (intro exI[of _ "rid # ys"]) auto
  qed
qed

lemma truncate_history_Inr:
  assumes "truncate_history R u h e m db = Inr (t, db')"
  obtains ns ys where "find_namespace db u = Some ns" "nr_head ns = h" "nr_epoch ns = e" "h \<noteq> m"
    "walk_history db u m h [] = Inr ys" "chain (db_revisions db) (ns_active u) h ys m"
    "t = \<lparr>tr_id = rq_uuid R 0, tr_namespace = u, tr_old_head = h, tr_new_head = m, tr_epoch_before = e, tr_epoch_after = e + 1,
       tr_created_at = rq_now R 0, tr_expires_at = rq_expiry R, tr_revision_count = length ys, tr_state = ''active''\<rparr>"
    "rq_uuid R 0 \<notin> tr_id ` set (db_trash db)" "e \<noteq> - 1"
    "db_revisions db' = map (trash_row_update ys (rq_uuid R 0)) (db_revisions db)" "db_trash db' = db_trash db @ [t]"
    "db_namespaces db' = map (\<lambda>r. if nr_id r = u then r\<lparr>nr_head := m, nr_epoch := e + 1, nr_updated_at := rq_now R 1\<rparr> else r) (db_namespaces db)"
    "db_roots db' = db_roots db" "db_edges db' = db_edges db" "db_storage db' = db_storage db" "db_gc db' = db_gc db"
    "db_revision_objects db' = db_revision_objects db"
proof -
  from assms obtain ns ys where n: "find_namespace db u = Some ns" "nr_head ns = h" "nr_epoch ns = e" "h \<noteq> m"
    and w: "walk_history db u m h [] = Inr ys" and a: "checked_add e 1 = Some (tr_epoch_after t)"
    and new: "\<not> list_ex (\<lambda>t. tr_id t = rq_uuid R 0) (db_trash db)"
    and t: "t = \<lparr>tr_id = rq_uuid R 0, tr_namespace = u, tr_old_head = h, tr_new_head = m, tr_epoch_before = e, tr_epoch_after = tr_epoch_after t,
       tr_created_at = rq_now R 0, tr_expires_at = rq_expiry R, tr_revision_count = length ys, tr_state = ''active''\<rparr>"
    and db': "db' = update_namespace u (\<lambda>r. r\<lparr>nr_head := m, nr_epoch := tr_epoch_after t, nr_updated_at := rq_now R 1\<rparr>)
        (let db1 = update_revisions (\<lambda>r. rw_id r \<in> set ys \<and> rw_state r = ''active'') (\<lambda>r. r\<lparr>rw_state := ''trashed'', rw_trash_op := Some (rq_uuid R 0)\<rparr>) db
         in db1\<lparr>db_trash := db_trash db1 @ [t]\<rparr>)"
    by (auto simp: truncate_history_def bindr_eq_Inr_iff read_namespace_Inr Let_def)
  from a have e: "tr_epoch_after t = e + 1" by (simp add: checked_add_Some_iff)
  have m1: "e \<noteq> - 1"
  proof
    assume "e = - 1"
    with checked_add_unat[OF a] show False by (simp add: e)
  qed
  from walk_history_chain[OF w] have c: "chain (db_revisions db) (ns_active u) h ys m" by simp
  have new': "rq_uuid R 0 \<notin> tr_id ` set (db_trash db)" using new by (auto simp: list_ex_iff)
  show thesis
    by (rule that[OF n w c t[unfolded e] new' m1])
      (simp_all add: db' Let_def update_namespace_def update_revisions_def trash_row_update_def[abs_def] e)
qed

lemma truncate_history_ok:
  assumes "truncate_history R u h e m db = Inr (t, db')" and ok: "history_ok db"
  shows "history_ok db'"
proof (rule truncate_history_Inr[OF assms(1)])
  fix ns ys
  assume a: "find_namespace db u = Some ns" "nr_head ns = h" "h \<noteq> m" "chain (db_revisions db) (ns_active u) h ys m"
    "t = \<lparr>tr_id = rq_uuid R 0, tr_namespace = u, tr_old_head = h, tr_new_head = m, tr_epoch_before = e, tr_epoch_after = e + 1,
       tr_created_at = rq_now R 0, tr_expires_at = rq_expiry R, tr_revision_count = length ys, tr_state = ''active''\<rparr>"
    "rq_uuid R 0 \<notin> tr_id ` set (db_trash db)"
    "db_revisions db' = map (trash_row_update ys (rq_uuid R 0)) (db_revisions db)" "db_trash db' = db_trash db @ [t]"
    "db_namespaces db' = map (\<lambda>r. if nr_id r = u then r\<lparr>nr_head := m, nr_epoch := e + 1, nr_updated_at := rq_now R 1\<rparr> else r) (db_namespaces db)"
  from find_namespace_Some[OF a(1)] have n: "ns \<in> set (db_namespaces db)" "nr_id ns = u" by simp_all
  show ?thesis
    by (rule history_ok_truncate[OF ok n(1), of ys t db' "\<lambda>r. r\<lparr>nr_head := m, nr_epoch := e + 1, nr_updated_at := rq_now R 1\<rparr>"])
      (use n a in simp_all)
qed

lemma restore_history_trash_Inr:
  assumes "restore_history_trash R u x h e db = Inr (t', db')"
  obtains ns t expires_at where "find_namespace db u = Some ns" "nr_head ns = h" "nr_epoch ns = e"
    "t \<in> set (db_trash db)" "tr_id t = x" "tr_namespace t = u" "tr_state t = ''active''" "tr_new_head t = h"
    "rq_parse_time R (tr_expires_at t) = Some expires_at" "rq_instant R < expires_at" "t' = t\<lparr>tr_state := ''restored''\<rparr>"
    "db_revisions db' = map (restore_row_update x) (db_revisions db)"
    "db_trash db' = map (\<lambda>r. if tr_id r = x then r\<lparr>tr_state := ''restored''\<rparr> else r) (db_trash db)"
    "db_namespaces db' = map (\<lambda>r. if nr_id r = u then r\<lparr>nr_head := tr_old_head t, nr_epoch := e + 1, nr_updated_at := rq_now R 0\<rparr> else r) (db_namespaces db)"
    "db_roots db' = db_roots db" "db_edges db' = db_edges db" "db_storage db' = db_storage db" "db_gc db' = db_gc db"
    "db_revision_objects db' = db_revision_objects db"
proof -
  from assms obtain ns t expires_at next_epoch where n: "find_namespace db u = Some ns" "nr_head ns = h" "nr_epoch ns = e"
    and f: "find (\<lambda>t. tr_id t = x \<and> tr_namespace t = u) (db_trash db) = Some t"
    and t: "tr_state t = ''active''" "tr_new_head t = h" "rq_parse_time R (tr_expires_at t) = Some expires_at" "\<not> expires_at \<le> rq_instant R"
    and a: "checked_add e 1 = Some next_epoch" and t': "t' = t\<lparr>tr_state := ''restored''\<rparr>"
    and db': "db' = update_trash (\<lambda>t. tr_id t = x) ''restored'' (update_namespace u (\<lambda>r. r\<lparr>nr_head := tr_old_head t, nr_epoch := next_epoch, nr_updated_at := rq_now R 0\<rparr>)
       (update_revisions (\<lambda>r. rw_trash_op r = Some x) (\<lambda>r. r\<lparr>rw_state := ''active'', rw_trash_op := None\<rparr>) db))"
    by (auto simp: restore_history_trash_def bindr_eq_Inr_iff read_namespace_Inr Let_def)
  from a have e: "next_epoch = e + 1" by (simp add: checked_add_Some_iff)
  from f have m: "t \<in> set (db_trash db)" "tr_id t = x" "tr_namespace t = u" by (auto simp: find_Some_iff)
  show thesis
    by (rule that[OF n m t(1-3) _ t'])
      (use t(4) in \<open>simp_all add: db' e update_trash_def update_namespace_def update_revisions_def restore_row_update_def[abs_def]\<close>)
qed

lemma restore_history_ok:
  assumes "restore_history_trash R u x h e db = Inr (t', db')" and ok: "history_ok db"
  shows "history_ok db'"
proof (rule restore_history_trash_Inr[OF assms(1)])
  fix ns t
  assume a: "find_namespace db u = Some ns" "nr_head ns = h" "t \<in> set (db_trash db)" "tr_id t = x" "tr_namespace t = u"
    "tr_state t = ''active''" "tr_new_head t = h"
    "db_revisions db' = map (restore_row_update x) (db_revisions db)"
    "db_trash db' = map (\<lambda>r. if tr_id r = x then r\<lparr>tr_state := ''restored''\<rparr> else r) (db_trash db)"
    "db_namespaces db' = map (\<lambda>r. if nr_id r = u then r\<lparr>nr_head := tr_old_head t, nr_epoch := e + 1, nr_updated_at := rq_now R 0\<rparr> else r) (db_namespaces db)"
  from find_namespace_Some[OF a(1)] have n: "ns \<in> set (db_namespaces db)" "nr_id ns = u" by simp_all
  show ?thesis
    by (rule history_ok_restore[OF ok n(1) a(3), of "''restored''" db'
          "\<lambda>r. r\<lparr>nr_head := tr_old_head t, nr_epoch := e + 1, nr_updated_at := rq_now R 0\<rparr>"])
      (use n a in simp_all)
qed

lemma purge_plan_selection:
  assumes "build_history_trash_purge_plan R db u requested False = Inr plan"
    and "t \<in> set (db_trash db)" and "tr_namespace t = u" and "tr_state t = ''active''" and "tr_id t \<notin> set (hp_operation_ids plan)"
    and "tr_new_head t = Some h"
  shows "h \<notin> ids_where (db_revisions db) (in_selected_trash u (hp_operation_ids plan))"
proof -
  let ?ops = "hp_operation_ids plan"
  from assms(1) have "list_all (\<lambda>t. tr_id t \<in> set ?ops \<or>
      (case tr_new_head t of None \<Rightarrow> True | Some h \<Rightarrow> h \<notin> set (btree_set (map rw_id (filter (in_selected_trash u ?ops) (db_revisions db))))))
      (filter (\<lambda>t. tr_namespace t = u \<and> tr_state t = ''active'') (db_trash db))"
    unfolding build_history_trash_purge_plan_def Let_def
    by (elim bindrE) (simp only: if_False ensure_Inr sum.inject; elim subst; simp only: history_trash_purge_plan.simps if_False)
  with assms(2-6) have "h \<notin> set (btree_set (map rw_id (filter (in_selected_trash u ?ops) (db_revisions db))))"
    by (auto simp: list_all_iff)
  then show ?thesis by (auto simp: ids_where_def)
qed

lemma enqueue_purge_Inr:
  "enqueue_gc_objects_for_purge R x objs db = Inr (es, db') \<Longrightarrow> \<exists>rows. db' = db\<lparr>db_gc := rows\<rparr>
     \<and> foldr_res (enqueue_purge_step R db x (server_reachable R db)) (bt_values (bt_of_list (map (\<lambda>o'. (node_of o', o')) objs)))
         ([], db_gc db) = Inr (es, rows)"
  by (auto simp: enqueue_gc_objects_for_purge_def Let_def bindr_eq_Inr_iff)

lemma commit_history_trash_purge_Inr:
  assumes "commit_history_trash_purge R u expected db = Inr ((plan, es), db')"
  obtains db1 where "build_history_trash_purge_plan R db u (hp_operation_ids expected) False = Inr plan" "plan = expected"
    "db1 = foldl (\<lambda>db x. purge_operation u x db) db (hp_operation_ids plan)"
    "enqueue_gc_objects_for_purge R (rq_uuid R 0) (hp_candidate_objects plan) db1 = Inr (es, db')"
proof -
  let ?db1 = "\<lambda>plan. foldl (\<lambda>db x. purge_operation u x db) db (hp_operation_ids plan)"
  from assms obtain p q where p: "build_history_trash_purge_plan R db u (hp_operation_ids expected) False = Inr p" "p = expected"
    and q: "enqueue_gc_objects_for_purge R (rq_uuid R 0) (hp_candidate_objects p) (?db1 p) = Inr q"
      "(case q of (entries, db2) \<Rightarrow> Inr ((p, entries), db2)) = (Inr ((plan, es), db') :: metadata_error + _)"
    unfolding commit_history_trash_purge_def Let_def by (elim bindrE) (simp only: ensure_Inr)
  from q have "enqueue_gc_objects_for_purge R (rq_uuid R 0) (hp_candidate_objects p) (?db1 p) = Inr (es, db')" "plan = p"
    by (auto split: prod.splits)
  with p that show thesis by blast
qed

lemma commit_history_trash_purge_ok:
  assumes "commit_history_trash_purge R u expected db = Inr (c, db')" and ok: "history_ok db"
  shows "history_ok db'"
proof (cases c)
  case (Pair plan es)
  with assms(1) have "commit_history_trash_purge R u expected db = Inr ((plan, es), db')" by simp
  then obtain db1 where p: "build_history_trash_purge_plan R db u (hp_operation_ids expected) False = Inr plan" "plan = expected"
    "db1 = foldl (\<lambda>db x. purge_operation u x db) db (hp_operation_ids plan)"
    "enqueue_gc_objects_for_purge R (rq_uuid R 0) (hp_candidate_objects plan) db1 = Inr (es, db')"
    by (rule commit_history_trash_purge_Inr)
  have "history_ok db1"
    by (rule history_ok_purge[OF ok, of u "hp_operation_ids plan"])
      (rule purge_plan_selection[OF p(1)] | simp add: p(3) purge_tables)+
  then show ?thesis by (rule history_ok_cong) (use enqueue_purge_Inr[OF p(4)] in auto)
qed

lemma queue_handlers_ok:
  "record_storage_object R ob db = Inr (v, db') \<Longrightarrow> history_ok db \<Longrightarrow> history_ok db'"
  "replace_object_edges ob targets db = Inr (v, db') \<Longrightarrow> history_ok db \<Longrightarrow> history_ok db'"
  "enqueue_gc J H R fp db = Inr (es, db') \<Longrightarrow> history_ok db \<Longrightarrow> history_ok db'"
  "complete_gc_entry R e db = Inr (v, db') \<Longrightarrow> history_ok db \<Longrightarrow> history_ok db'"
  "cancel_gc_entry i reason db = Inr (v, db') \<Longrightarrow> history_ok db \<Longrightarrow> history_ok db'"
  "mark_gc_entry_purged R i db = Inr (v, db') \<Longrightarrow> history_ok db \<Longrightarrow> history_ok db'"
       apply (erule history_ok_cong; auto simp: record_storage_object_def bindr_eq_Inr_iff split: if_splits)
      apply (erule history_ok_cong; auto simp: replace_object_edges_def bindr_eq_Inr_iff)
     apply (erule history_ok_cong; auto simp: enqueue_gc_def Let_def bindr_eq_Inr_iff)
    apply (erule history_ok_cong; auto simp: complete_gc_entry_def Let_def update_gc_def)
   apply (erule history_ok_cong; auto simp: cancel_gc_entry_def update_gc_def)
  apply (erule history_ok_cong; auto simp: mark_gc_entry_purged_def update_gc_def)
  done

section \<open>Reachable databases\<close>

inductive server_step :: "json_lib \<Rightarrow> (bytes \<Rightarrow> string) \<Rightarrow> server_db \<Rightarrow> server_db \<Rightarrow> bool" for J H where
  "create_namespace R name db = Inr (row, db') \<Longrightarrow> server_step J H db db'"
| "rename_namespace R u name db = Inr (row, db') \<Longrightarrow> server_step J H db db'"
| "record_storage_object R ob db = Inr (v, db') \<Longrightarrow> server_step J H db db'"
| "replace_object_edges ob targets db = Inr (v, db') \<Longrightarrow> server_step J H db db'"
| "commit_revision R h y db = Inr (c, db') \<Longrightarrow> server_step J H db db'"
| "commit_revision_root R h e y db = Inr (c', db') \<Longrightarrow> server_step J H db db'"
| "truncate_history R u h e m db = Inr (t, db') \<Longrightarrow> server_step J H db db'"
| "restore_history_trash R u x h e db = Inr (t, db') \<Longrightarrow> server_step J H db db'"
| "commit_history_trash_purge R u expected db = Inr (plan, db') \<Longrightarrow> server_step J H db db'"
| "enqueue_gc J H R fp db = Inr (es, db') \<Longrightarrow> server_step J H db db'"
| "complete_gc_entry R entry db = Inr (v, db') \<Longrightarrow> server_step J H db db'"
| "cancel_gc_entry i reason db = Inr (v, db') \<Longrightarrow> server_step J H db db'"
| "mark_gc_entry_purged R i db = Inr (v, db') \<Longrightarrow> server_step J H db db'"

inductive server_run :: "json_lib \<Rightarrow> (bytes \<Rightarrow> string) \<Rightarrow> server_db \<Rightarrow> bool" for J H where
  start: "server_run J H empty_db"
| step: "server_run J H db \<Longrightarrow> server_step J H db db' \<Longrightarrow> server_run J H db'"

lemma server_step_ok: "server_step J H db db' \<Longrightarrow> history_ok db \<Longrightarrow> history_ok db'"
  by (induction rule: server_step.induct)
    (erule create_namespace_ok rename_namespace_ok commit_revision_ok commit_revision_root_ok truncate_history_ok
      restore_history_ok commit_history_trash_purge_ok queue_handlers_ok; assumption)+

lemma server_run_ok: "server_run J H db \<Longrightarrow> history_ok db"
  by (induction rule: server_run.induct) (rule history_ok_empty, erule (1) server_step_ok)

section \<open>The objects of a revision belong to a revision\<close>

definition grows :: "server_db \<Rightarrow> server_db \<Rightarrow> bool" where
  "grows db db' \<longleftrightarrow> rw_id ` set (db_revisions db) \<subseteq> rw_id ` set (db_revisions db')
     \<and> fst ` set (db_revision_objects db') \<subseteq> fst ` set (db_revision_objects db) \<union> rw_id ` set (db_revisions db')"

definition objects_owned :: "server_db \<Rightarrow> bool" where
  "objects_owned db \<longleftrightarrow> fst ` set (db_revision_objects db) \<subseteq> rw_id ` set (db_revisions db)"

lemma grows_same: "db_revisions db' = db_revisions db \<Longrightarrow> db_revision_objects db' = db_revision_objects db \<Longrightarrow> grows db db'"
  by (simp add: grows_def)

lemma grows_map: "db_revisions db' = map g (db_revisions db) \<Longrightarrow> keeps_rows g \<Longrightarrow> db_revision_objects db' = db_revision_objects db \<Longrightarrow> grows db db'"
  by (simp add: grows_def image_image keeps_rowsD)

lemma map_res_owner:
  "map_res (\<lambda>obj. bindr (f obj) (\<lambda>n. Inr (rid, g obj n))) objs = Inr rows \<Longrightarrow> r \<in> set rows \<Longrightarrow> fst r = rid"
  by (induction objs arbitrary: rows) (auto simp: bindr_eq_Inr_iff)

lemma commit_revision_grows:
  assumes "commit_revision R h y db = Inr (c, db')" shows "grows db db'"
  using assms
proof (cases rule: commit_revision_cases)
  case (created x ns v db1 rows)
  from insert_revision_Inr[OF created(4)] map_res_owner[OF created(5)] show ?thesis
    by (auto simp: created(6) grows_def update_namespace_def)
qed (simp add: grows_same)

lemma commit_revision_root_grows:
  assumes "commit_revision_root R h e y db = Inr ((c, e'), db')" shows "grows db db'"
proof (cases c)
  case Created
  with assms have "commit_revision_root R h e y db = Inr ((Created, e'), db')" by simp
  then obtain x v db1 where "insert_revision x db = Inr (v, db1)" "db' = (update_namespace (rm_namespace x) (\<lambda>r. r\<lparr>nr_head := Some (rm_id x), nr_updated_at := rq_now R 1\<rparr>) db1)
       \<lparr>db_roots := db_roots db @ [\<lparr>rt_revision = rm_id x, rt_root = rm_id x, rt_schema_version = rm_root_schema_version x\<rparr>]\<rparr>"
    by (rule commit_revision_root_created)
  with insert_revision_Inr[of x db v db1] show ?thesis by (auto simp: grows_def update_namespace_def)
next
  case AlreadyCommitted
  with assms commit_revision_root_retry show ?thesis by (metis grows_same)
qed

lemma commit_history_trash_purge_grows:
  assumes "commit_history_trash_purge R u expected db = Inr ((plan, es), db')" shows "grows db db'"
proof (rule commit_history_trash_purge_Inr[OF assms])
  fix db1
  assume db1: "db1 = foldl (\<lambda>db x. purge_operation u x db) db (hp_operation_ids plan)"
    and es: "enqueue_gc_objects_for_purge R (rq_uuid R 0) (hp_candidate_objects plan) db1 = Inr (es, db')"
  have "db_revision_objects (foldl (\<lambda>db x. purge_operation u x db) db ops) = db_revision_objects db" for ops
    by (induction ops arbitrary: db) (simp_all add: purge_operation_def update_revisions_def update_trash_def)
  with enqueue_purge_Inr[OF es] show "grows db db'"
    by (intro grows_map[of _ "purge_row_update u (hp_operation_ids plan)"]) (auto simp: db1 purge_tables keeps_purge)
qed

lemma other_handlers_grow:
  "create_namespace R name db = Inr (row, db') \<Longrightarrow> grows db db'"
  "rename_namespace R u name db = Inr (row, db') \<Longrightarrow> grows db db'"
  "record_storage_object R ob db = Inr (v, db') \<Longrightarrow> grows db db'"
  "replace_object_edges ob targets db = Inr (v, db') \<Longrightarrow> grows db db'"
  "enqueue_gc J H R fp db = Inr (es, db') \<Longrightarrow> grows db db'"
  "complete_gc_entry R e db = Inr (v, db') \<Longrightarrow> grows db db'"
  "cancel_gc_entry i reason db = Inr (v, db') \<Longrightarrow> grows db db'"
  "mark_gc_entry_purged R i db = Inr (v, db') \<Longrightarrow> grows db db'"
         apply (rule grows_same; auto simp: create_namespace_def Let_def bindr_eq_Inr_iff)
        apply (rule grows_same; auto simp: rename_namespace_def Let_def bindr_eq_Inr_iff update_namespace_def)
       apply (rule grows_same; auto simp: record_storage_object_def bindr_eq_Inr_iff split: if_splits)
      apply (rule grows_same; auto simp: replace_object_edges_def bindr_eq_Inr_iff)
     apply (rule grows_same; auto simp: enqueue_gc_def Let_def bindr_eq_Inr_iff)
    apply (rule grows_same; auto simp: complete_gc_entry_def Let_def update_gc_def)
   apply (rule grows_same; auto simp: cancel_gc_entry_def update_gc_def)
  apply (rule grows_same; auto simp: mark_gc_entry_purged_def update_gc_def)
  done

lemma truncate_history_grows: "truncate_history R u h e m db = Inr (t, db') \<Longrightarrow> grows db db'"
  by (erule truncate_history_Inr) (rule grows_map[OF _ keeps_trash])

lemma restore_history_grows: "restore_history_trash R u x h e db = Inr (t, db') \<Longrightarrow> grows db db'"
  by (erule restore_history_trash_Inr) (rule grows_map[OF _ keeps_restore])

lemma server_step_grows: "server_step J H db db' \<Longrightarrow> grows db db'"
proof (induction rule: server_step.induct)
  case (6 R h e y db c' db')
  then show ?case by (cases c') (simp add: commit_revision_root_grows)
next
  case (9 R u expected db plan db')
  then show ?case by (cases plan) (simp add: commit_history_trash_purge_grows)
qed (erule other_handlers_grow commit_revision_grows truncate_history_grows restore_history_grows)+

lemma grows_owned: "grows db db' \<Longrightarrow> objects_owned db \<Longrightarrow> objects_owned db'"
  unfolding grows_def objects_owned_def by blast

lemma server_run_owned: "server_run J H db \<Longrightarrow> objects_owned db"
proof (induction rule: server_run.induct)
  case start
  show ?case by (simp add: objects_owned_def empty_db_def)
next
  case (step db db')
  from server_step_grows[OF step(2)] step.IH show ?case by (rule grows_owned)
qed

section \<open>Storage records carry the wire names\<close>

definition wire_kinds :: "storage_row list \<Rightarrow> bool" where
  "wire_kinds rows \<longleftrightarrow> (\<forall>r \<in> set rows. st_kind r \<in> range wire_name_v3)"

lemma record_storage_kinds: "record_storage_object R ob db = Inr (v, db') \<Longrightarrow> wire_kinds (db_storage db) \<Longrightarrow> wire_kinds (db_storage db')"
  by (auto simp: record_storage_object_def bindr_eq_Inr_iff wire_kinds_def split: if_splits)

lemma commit_storage:
  assumes "commit_revision R h y db = Inr (c, db')" shows "db_storage db' = db_storage db"
  using assms
proof (cases rule: commit_revision_cases)
  case (created x ns v db1 rows)
  from insert_revision_Inr[OF created(4)] show ?thesis by (auto simp: created(6) update_namespace_def)
qed simp

lemma commit_root_storage:
  assumes "commit_revision_root R h e y db = Inr (c, db')" shows "db_storage db' = db_storage db"
proof (cases c)
  case (Pair o' e')
  show ?thesis
  proof (cases o')
    case Created
    with assms Pair have "commit_revision_root R h e y db = Inr ((Created, e'), db')" by simp
    then obtain x v db1 where "insert_revision x db = Inr (v, db1)"
      "db' = (update_namespace (rm_namespace x) (\<lambda>r. r\<lparr>nr_head := Some (rm_id x), nr_updated_at := rq_now R 1\<rparr>) db1)
         \<lparr>db_roots := db_roots db @ [\<lparr>rt_revision = rm_id x, rt_root = rm_id x, rt_schema_version = rm_root_schema_version x\<rparr>]\<rparr>"
      by (rule commit_revision_root_created)
    with insert_revision_Inr[of x db v db1] show ?thesis by (auto simp: update_namespace_def)
  next
    case AlreadyCommitted
    with assms Pair show ?thesis by (auto dest: commit_revision_root_retry)
  qed
qed

lemma other_storage:
  "create_namespace R name db = Inr (row, db') \<Longrightarrow> db_storage db' = db_storage db"
  "rename_namespace R u name db = Inr (row, db') \<Longrightarrow> db_storage db' = db_storage db"
  "replace_object_edges ob targets db = Inr (v, db') \<Longrightarrow> db_storage db' = db_storage db"
  "truncate_history R u h e m db = Inr (t, db') \<Longrightarrow> db_storage db' = db_storage db"
  "restore_history_trash R u x h e db = Inr (t, db') \<Longrightarrow> db_storage db' = db_storage db"
  "enqueue_gc J H R fp db = Inr (es, db') \<Longrightarrow> db_storage db' = db_storage db"
  "cancel_gc_entry i reason db = Inr (v, db') \<Longrightarrow> db_storage db' = db_storage db"
  "mark_gc_entry_purged R i db = Inr (v, db') \<Longrightarrow> db_storage db' = db_storage db"
         apply (auto simp: create_namespace_def Let_def bindr_eq_Inr_iff)[1]
        apply (auto simp: rename_namespace_def Let_def bindr_eq_Inr_iff update_namespace_def)[1]
       apply (auto simp: replace_object_edges_def bindr_eq_Inr_iff)[1]
      apply (erule truncate_history_Inr, assumption)
     apply (erule restore_history_trash_Inr, assumption)
    apply (auto simp: enqueue_gc_def Let_def bindr_eq_Inr_iff)[1]
   apply (auto simp: cancel_gc_entry_def update_gc_def)[1]
  apply (auto simp: mark_gc_entry_purged_def update_gc_def)[1]
  done

lemma purge_storage: "commit_history_trash_purge R u expected db = Inr ((plan, es), db') \<Longrightarrow> db_storage db' = db_storage db"
  by (erule commit_history_trash_purge_Inr) (auto dest!: enqueue_purge_Inr simp: purge_tables)

lemma server_run_kinds: "server_run J H db \<Longrightarrow> wire_kinds (db_storage db)"
proof (induction rule: server_run.induct)
  case start
  show ?case by (simp add: wire_kinds_def empty_db_def)
next
  case (step db db')
  from step(2) step.IH show ?case
  proof (induction rule: server_step.induct)
    case (3 R ob db v db')
    then show ?case by (rule record_storage_kinds)
  next
    case (9 R u expected db plan db')
    then show ?case by (cases plan) (simp add: purge_storage)
  next
    case (11 R entry db v db')
    then show ?case by (auto simp: complete_gc_entry_def Let_def update_gc_def wire_kinds_def)
  qed (simp_all only: commit_storage commit_root_storage other_storage)
qed

end
