(* ===== verification/ServerProps.thy ===== *)
theory ServerProps
  imports ServerSteps GraphProps PurgeProps
begin

text \<open>
  The properties of the sync server's metadata: histories as chains, truncation and restoration,
  commits under optimistic concurrency, and the garbage collection queue.
\<close>

section \<open>A concrete server\<close>

definition toy_request :: request_env where
  "toy_request = \<lparr>rq_now = \<lambda>_. ''2'', rq_expiry = ''9'', rq_hour_ago = ''3'', rq_instant = 2,
     rq_parse_time = \<lambda>_. Some 9, rq_uuid = \<lambda>_. toy_namespace, rq_uuid_text = \<lambda>_. ''u''\<rparr>"

definition toy_revision :: "char \<Rightarrow> string option \<Rightarrow> new_revision_metadata" where
  "toy_revision c parent = \<lparr>nm_id = toy_id c, nm_namespace = toy_namespace, nm_parent = parent, nm_created_at = ''2'',
     nm_manifest_bytes = 7, nm_thread_count = 1, nm_objects = [], nm_object_count_override = Some 1,
     nm_total_bytes_override = Some 7, nm_root_schema_version = 4\<rparr>"

definition toy_namespace_row :: "string option \<Rightarrow> u64 \<Rightarrow> namespace_row" where
  "toy_namespace_row h e = \<lparr>nr_id = toy_namespace, nr_display_name = ''n'', nr_head = h, nr_epoch = e,
     nr_created_at = ''2'', nr_updated_at = ''2''\<rparr>"

definition toy_revision_row :: "string \<Rightarrow> uuid option \<Rightarrow> revision_row" where
  "toy_revision_row state x = \<lparr>rw_id = toy_id (CHR ''a''), rw_namespace = toy_namespace, rw_parent = None,
     rw_created_at = ''2'', rw_manifest_bytes = 7, rw_thread_count = 1, rw_object_count = 1, rw_total_bytes = 7,
     rw_state = state, rw_trash_op = x\<rparr>"

definition toy_root_row :: root_row where
  "toy_root_row = \<lparr>rt_revision = toy_id (CHR ''a''), rt_root = toy_id (CHR ''a''), rt_schema_version = 4\<rparr>"

definition toy_named :: server_db where
  "toy_named = empty_db\<lparr>db_namespaces := [toy_namespace_row None 0]\<rparr>"

definition toy_committed :: server_db where
  "toy_committed = empty_db\<lparr>db_namespaces := [toy_namespace_row (Some (toy_id (CHR ''a''))) 0],
     db_revisions := [toy_revision_row ''active'' None], db_roots := [toy_root_row]\<rparr>"

definition toy_operation :: trash_row where
  "toy_operation = \<lparr>tr_id = toy_namespace, tr_namespace = toy_namespace, tr_old_head = Some (toy_id (CHR ''a'')), tr_new_head = None,
     tr_epoch_before = 0, tr_epoch_after = 1, tr_created_at = ''2'', tr_expires_at = ''9'', tr_revision_count = 1, tr_state = ''active''\<rparr>"

definition toy_truncated :: server_db where
  "toy_truncated = empty_db\<lparr>db_namespaces := [toy_namespace_row None 1],
     db_revisions := [toy_revision_row ''trashed'' (Some toy_namespace)], db_trash := [toy_operation], db_roots := [toy_root_row]\<rparr>"

lemma toy_id_ok: "is_lower_hex c \<Longrightarrow> validate_sha256 (toy_id c) = Inr ()"
  by (simp add: validate_sha256_def toy_id_def strip_prefix_def list_all_iff)

lemma toy_request_simps [simp]: "rq_now toy_request i = ''2''" "rq_uuid toy_request i = toy_namespace" "rq_expiry toy_request = ''9''"
  "rq_parse_time toy_request t = Some 9" "rq_instant toy_request = 2" "rq_hour_ago toy_request = ''3''"
  by (simp_all add: toy_request_def)

lemma toy_name: "normalize_name ''n'' = Inr ''n''"
  by code_simp

lemma toy_create: "create_namespace toy_request ''n'' empty_db = Inr (toy_namespace_row None 0, toy_named)"
  by (simp add: create_namespace_def toy_name Let_def empty_db_def find_namespace_def
      read_namespace_def toy_named_def toy_namespace_row_def)

lemma toy_normalized:
  "is_lower_hex c \<Longrightarrow> normalize_revision toy_request (toy_revision c None) = Inr \<lparr>rm_id = toy_id c, rm_namespace = toy_namespace, rm_parent = None,
     rm_created_at = ''2'', rm_manifest_bytes = 7, rm_thread_count = 1, rm_object_count = 1, rm_total_bytes = 7, rm_objects = [],
     rm_root_schema_version = 4\<rparr>"
  by (simp add: normalize_revision_def toy_revision_def toy_id_ok toy_namespace_version bt_values_def)

lemma toy_commit: "commit_revision_root toy_request None 0 (toy_revision (CHR ''a'') None) toy_named = Inr ((Created, 0), toy_committed)"
  by (simp add: commit_revision_root_def toy_normalized is_lower_hex_def toy_named_def find_namespace_def toy_namespace_row_def empty_db_def
      read_revision_def find_revision_def parent_in_namespace_def insert_revision_def sql_integer_def advance_head_def
      update_namespace_def toy_committed_def toy_revision_row_def toy_root_row_def)

lemma toy_truncate: "truncate_history toy_request toy_namespace (Some (toy_id (CHR ''a''))) 0 None toy_committed = Inr (toy_operation, toy_truncated)"
proof -
  have "walk_history toy_committed toy_namespace None (Some (toy_id (CHR ''a''))) [] = Inr [toy_id (CHR ''a'')]"
    by (simp add: walk_history.simps active_parent_def toy_committed_def toy_revision_row_def HISTORY_DEPTH_def)
  then show ?thesis
    by (simp add: truncate_history_def Let_def read_namespace_def find_namespace_def toy_committed_def toy_namespace_row_def
      checked_add_def empty_db_def toy_operation_def toy_truncated_def update_revisions_def update_namespace_def toy_revision_row_def)
qed

lemma toy_server: "server_run toy_text toy_hash toy_truncated" "server_run toy_text toy_hash toy_committed"
  "server_run toy_text toy_hash toy_named"
proof -
  show n: "server_run toy_text toy_hash toy_named"
    by (rule server_run.step[OF server_run.start]) (rule server_step.intros(1)[OF toy_create])
  show c: "server_run toy_text toy_hash toy_committed"
    by (rule server_run.step[OF n]) (rule server_step.intros(6)[OF toy_commit])
  show "server_run toy_text toy_hash toy_truncated"
    by (rule server_run.step[OF c]) (rule server_step.intros(7)[OF toy_truncate])
qed

section \<open>Histories\<close>

text \<open>
  C4: In every database the handlers can reach from an empty one, the active revisions of a namespace
  are exactly the revisions on the chain of parents from its head, and every active trash operation
  still holds, trashed, the whole chain from its old head down to its new head, whose revision is not
  purged: whatever the order of commits, truncations, restorations and purges, no head dangles and
  every operation listed in the trash can be brought back.
\<close>
theorem histories_are_chains:
  assumes "server_run J H db"
  shows "(\<forall>ns \<in> set (db_namespaces db). linear (db_revisions db) (nr_id ns) (nr_head ns))
    \<and> (\<forall>t \<in> set (db_trash db). tr_state t = ''active'' \<longrightarrow> restorable (db_revisions db) t)"
  using server_run_ok[OF assms] by (simp add: history_ok_def)

theorem histories_are_chains_witness:
  "linear (db_revisions toy_truncated) toy_namespace None \<and> restorable (db_revisions toy_truncated) toy_operation"
  using histories_are_chains[OF toy_server(1)] by (simp add: toy_truncated_def toy_namespace_row_def toy_operation_def)

lemma restore_undoes_trash:
  assumes "keys_ok db" and "x \<notin> tr_id ` set (db_trash db)"
  shows "map (restore_row_update x) (map (trash_row_update ys x) (db_revisions db)) = db_revisions db"
proof -
  have "restore_row_update x (trash_row_update ys x r) = r" if r: "r \<in> set (db_revisions db)" for r
  proof -
    from assms r have "rw_trash_op r \<noteq> Some x" unfolding keys_ok_def by blast
    moreover from assms(1) r have "rw_state r = ''active'' \<Longrightarrow> rw_trash_op r = None" unfolding keys_ok_def by blast
    ultimately show ?thesis by (cases r) (auto simp: restore_row_update_def trash_row_update_def)
  qed
  then show ?thesis by (simp add: map_idI)
qed

lemma checked_add_succ: "(e :: u64) + 1 \<noteq> - 1 \<Longrightarrow> checked_add (e + 1) 1 = Some (e + 2)"
proof -
  assume "e + 1 \<noteq> - 1"
  then have "unat (e + 1) \<noteq> 18446744073709551615"
    unfolding word_unat_eq_iff[of "e + 1"] by (simp add: unsigned_minus_1_eq_mask mask_eq_exp_minus_1)
  moreover have "unat (e + 1) < 18446744073709551616" using unsigned_less[of "e + 1"] by simp
  ultimately have "unat (e + 1) + unat (1 :: u64) < 18446744073709551616" by simp
  from checked_add_u64_ok[OF this] show ?thesis by (simp add: add.assoc)
qed

lemma find_append: "find P (xs @ ys) = (case find P xs of None \<Rightarrow> find P ys | Some x \<Rightarrow> Some x)"
  by (induction xs) simp_all

lemma find_updated:
  assumes "\<And>r. nr_id (f r) = nr_id r"
    and "db_namespaces db' = map (\<lambda>r. if nr_id r = u then f r else r) (db_namespaces db)"
  shows "find_namespace db' v = map_option (\<lambda>r. if nr_id r = u then f r else r) (find_namespace db v)"
proof -
  have "find (\<lambda>r. nr_id r = v) (map (\<lambda>r. if nr_id r = u then f r else r) rs)
      = map_option (\<lambda>r. if nr_id r = u then f r else r) (find (\<lambda>r. nr_id r = v) rs)" for rs
    by (induction rs) (auto simp: assms(1))
  then show ?thesis by (simp add: find_namespace_def assms(2))
qed

lemma same_namespace:
  "keys_ok db \<Longrightarrow> find_namespace db u = Some ns \<Longrightarrow> n \<in> set (db_namespaces db) \<Longrightarrow> nr_id n = u \<Longrightarrow> n = ns"
  using find_namespace_Some[of db u ns] by (auto simp: keys_ok_def distinct_map dest: inj_onD)

text \<open>
  C15: Truncating a history and restoring the operation before it expires gives the database back: the
  revision table and the registered roots are the ones before the truncation, the namespace has its
  old head again, every other namespace and every other trash operation is untouched, and only the
  epoch, two higher, shows that something happened.
\<close>
theorem truncate_restore:
  assumes "server_run J H db"
    and "truncate_history R u h e m db = Inr (t, db1)"
    and "rq_parse_time R' (tr_expires_at t) = Some x" and "rq_instant R' < x" and "e + 1 \<noteq> - 1"
  shows "\<exists>db2. restore_history_trash R' u (tr_id t) m (e + 1) db1 = Inr (t\<lparr>tr_state := ''restored''\<rparr>, db2)
    \<and> db_revisions db2 = db_revisions db \<and> db_roots db2 = db_roots db
    \<and> db_trash db2 = db_trash db @ [t\<lparr>tr_state := ''restored''\<rparr>]
    \<and> map (\<lambda>n. (nr_id n, nr_head n)) (db_namespaces db2) = map (\<lambda>n. (nr_id n, nr_head n)) (db_namespaces db)
    \<and> map_option nr_epoch (find_namespace db2 u) = Some (e + 2)
    \<and> (\<forall>v. v \<noteq> u \<longrightarrow> find_namespace db2 v = find_namespace db v)"
proof (rule truncate_history_Inr[OF assms(2)])
  fix ns ys
  assume a: "find_namespace db u = Some ns" "nr_head ns = h" "nr_epoch ns = e"
    "t = \<lparr>tr_id = rq_uuid R 0, tr_namespace = u, tr_old_head = h, tr_new_head = m, tr_epoch_before = e, tr_epoch_after = e + 1,
       tr_created_at = rq_now R 0, tr_expires_at = rq_expiry R, tr_revision_count = length ys, tr_state = ''active''\<rparr>"
    "rq_uuid R 0 \<notin> tr_id ` set (db_trash db)"
    "db_revisions db1 = map (trash_row_update ys (rq_uuid R 0)) (db_revisions db)" "db_trash db1 = db_trash db @ [t]"
    "db_namespaces db1 = map (\<lambda>r. if nr_id r = u then r\<lparr>nr_head := m, nr_epoch := e + 1, nr_updated_at := rq_now R 1\<rparr> else r) (db_namespaces db)"
    "db_roots db1 = db_roots db"
  have keys: "keys_ok db" using server_run_ok[OF assms(1)] by (simp add: history_ok_def)
  define f where "f = (\<lambda>r :: namespace_row. r\<lparr>nr_head := m, nr_epoch := e + 1, nr_updated_at := rq_now R 1\<rparr>)"
  define g where "g = (\<lambda>r :: namespace_row. r\<lparr>nr_head := h, nr_epoch := e + 2, nr_updated_at := rq_now R' 0\<rparr>)"
  have ids: "nr_id (f r) = nr_id r" "nr_id (g r) = nr_id r" for r by (simp_all add: f_def g_def)
  have ns: "nr_id ns = u" using find_namespace_Some[OF a(1)] by simp
  have found: "find_namespace db1 u = Some (f ns)"
    using find_updated[of f db1 u db u] a(1) ns by (simp add: a(8) f_def)
  have op: "find (\<lambda>s. tr_id s = tr_id t \<and> tr_namespace s = u) (db_trash db1) = Some t"
  proof -
    have "find (\<lambda>s. tr_id s = tr_id t \<and> tr_namespace s = u) (db_trash db) = None"
      using a(5) by (auto simp: a(4) find_None_iff image_iff)
    then show ?thesis by (simp add: a(7) find_append a(4))
  qed
  have succ: "checked_add (e + 1) 1 = Some (e + 2)" using assms(5) by (rule checked_add_succ)
  let ?db2 = "update_trash (\<lambda>s. tr_id s = tr_id t) ''restored'' (update_namespace u g
       (update_revisions (\<lambda>r. rw_trash_op r = Some (tr_id t)) (\<lambda>r. r\<lparr>rw_state := ''active'', rw_trash_op := None\<rparr>) db1))"
  have run: "restore_history_trash R' u (tr_id t) m (e + 1) db1 = Inr (t\<lparr>tr_state := ''restored''\<rparr>, ?db2)"
    using assms(3,4) by (simp add: restore_history_trash_def read_namespace_def found op f_def succ Let_def)
      (simp add: a(4) g_def)
  have names: "db_namespaces ?db2 = map (\<lambda>r. if nr_id r = u then g (f r) else r) (db_namespaces db)"
    by (simp add: update_trash_def update_namespace_def update_revisions_def a(8) f_def ids cong: if_cong)
  have "map (\<lambda>n. (nr_id n, nr_head n)) (db_namespaces ?db2) = map (\<lambda>n. (nr_id n, nr_head n)) (db_namespaces db)"
    unfolding names map_map using same_namespace[OF keys a(1)] a(2) by (auto simp: ids g_def f_def)
  moreover have upd: "find_namespace ?db2 v = map_option (\<lambda>r. if nr_id r = u then g (f r) else r) (find_namespace db v)" for v
    by (rule find_updated[OF _ names]) (simp add: ids)
  have "map_option nr_epoch (find_namespace ?db2 u) = Some (e + 2)"
    unfolding upd by (simp add: a(1) ns g_def)
  moreover have "find_namespace ?db2 v = find_namespace db v" if "v \<noteq> u" for v
    unfolding upd using find_namespace_Some[of db v] that by (cases "find_namespace db v") auto
  moreover have "db_revisions ?db2 = db_revisions db"
    using restore_undoes_trash[OF keys a(5), of ys]
    by (simp add: update_trash_def update_namespace_def update_revisions_def a(6) restore_row_update_def[abs_def] a(4))
  moreover have "db_trash ?db2 = db_trash db @ [t\<lparr>tr_state := ''restored''\<rparr>]"
  proof -
    have "tr_id s \<noteq> rq_uuid R 0" if "s \<in> set (db_trash db)" for s using a(5) that by (metis imageI)
    then show ?thesis by (simp add: update_trash_def update_namespace_def update_revisions_def a(7) a(4) cong: map_cong)
  qed
  moreover have "db_roots ?db2 = db_roots db"
    by (simp add: update_trash_def update_namespace_def update_revisions_def a(9))
  ultimately show ?thesis using run by blast
qed

theorem truncate_restore_witness:
  "\<exists>db2. restore_history_trash toy_request toy_namespace toy_namespace None 1 toy_truncated = Inr (toy_operation\<lparr>tr_state := ''restored''\<rparr>, db2)
    \<and> db_revisions db2 = db_revisions toy_committed \<and> map_option nr_epoch (find_namespace db2 toy_namespace) = Some 2"
  using truncate_restore[OF toy_server(2) toy_truncate, of toy_request 9] by (auto simp: toy_operation_def)

section \<open>Commits\<close>

lemma normalize_revision_fields:
  assumes "normalize_revision R y = Inr x"
  shows "rm_id x = nm_id y" "rm_namespace x = nm_namespace y" "rm_parent x = nm_parent y" "rm_created_at x = nm_created_at y"
    "nm_objects y = [] \<Longrightarrow> rm_objects x = []" "rm_root_schema_version x = nm_root_schema_version y"
  using assms by (auto simp: normalize_revision_def Let_def bindr_eq_Inr_iff)

lemma normalize_revision_env:
  "normalize_revision R y = Inr x \<Longrightarrow> rq_parse_time R' (nm_created_at y) \<noteq> None \<Longrightarrow> normalize_revision R' y = Inr x"
  by (auto simp: normalize_revision_def Let_def bindr_eq_Inr_iff)

lemma insert_revision_read:
  assumes "insert_revision x db = Inr (v, db1)" and "rm_id x \<notin> rw_id ` set (db_revisions db)"
  shows "find_revision db1 (rm_id x) = Some \<lparr>rw_id = rm_id x, rw_namespace = rm_namespace x, rw_parent = rm_parent x,
      rw_created_at = rm_created_at x, rw_manifest_bytes = rm_manifest_bytes x, rw_thread_count = rm_thread_count x,
      rw_object_count = rm_object_count x, rw_total_bytes = rm_total_bytes x, rw_state = ''active'', rw_trash_op = None\<rparr>"
proof -
  have "find (\<lambda>r. rw_id r = rm_id x) (db_revisions db) = None" using assms(2) unfolding find_None_iff by (metis imageI)
  with assms(1) show ?thesis
    by (auto simp: insert_revision_def bindr_eq_Inr_iff sql_integer_def find_revision_def find_append split: if_splits)
qed

lemma committed_reads_back:
  assumes run: "server_run J H db" and "insert_revision x db = Inr (v, db1)" and "read_revision db (rm_id x) = None"
    and "rm_objects x = []" and roots: "\<not> list_ex (\<lambda>r. rt_revision r = rm_id x) (db_roots db)"
    and db': "db_revisions db' = db_revisions db1" "db_revision_objects db' = db_revision_objects db"
      "db_roots db' = db_roots db @ [\<lparr>rt_revision = rm_id x, rt_root = rm_id x, rt_schema_version = rm_root_schema_version x\<rparr>]"
  shows "read_revision db' (rm_id x) = Some x"
proof -
  have new: "rm_id x \<notin> rw_id ` set (db_revisions db)" using assms(3) by (simp add: read_revision_None)
  with server_run_owned[OF run] have "fst r \<noteq> rm_id x" if "r \<in> set (db_revision_objects db)" for r
    using that unfolding objects_owned_def by (metis imageI subsetD)
  then have "filter (\<lambda>(y, _). y = rm_id x) (db_revision_objects db) = []" by (fastforce simp: filter_empty_conv)
  moreover have "find_revision db' (rm_id x) = find_revision db1 (rm_id x)" by (simp add: find_revision_def db'(1))
  moreover have "find (\<lambda>r. rt_revision r = rm_id x) (db_roots db) = None" using roots by (auto simp: find_None_iff list_ex_iff)
  ultimately show ?thesis using assms(4)
    by (simp add: read_revision_def insert_revision_read[OF assms(2) new] db'(2,3) find_append)
qed

text \<open>
  C19: A commit that creates a revision makes it the head of its namespace, child of the head the
  client expected, and leaves the epoch; and a client that lost the reply can send the very same
  request again: it is recognised as committed, with the same epoch, whatever head the retry expects,
  and the database does not change.
\<close>
theorem commit_then_retry:
  assumes "server_run J H db" and "commit_revision_root R h e y db = Inr ((Created, e'), db')"
    and "nm_objects y = []" and "rq_parse_time R' (nm_created_at y) \<noteq> None"
  shows "map_option (\<lambda>n. (nr_head n, nr_epoch n)) (find_namespace db (nm_namespace y)) = Some (h, e)
    \<and> map_option (\<lambda>n. (nr_head n, nr_epoch n)) (find_namespace db' (nm_namespace y)) = Some (Some (nm_id y), e)
    \<and> map_option (\<lambda>r. (rw_parent r, rw_state r)) (find_revision db' (nm_id y)) = Some (h, ''active'')
    \<and> commit_revision_root R' h' e y db' = Inr ((AlreadyCommitted, e'), db')"
proof (rule commit_revision_root_created[OF assms(2)])
  fix x ns v db1
  assume a: "normalize_revision R y = Inr x" "find_namespace db (rm_namespace x) = Some ns" "nr_epoch ns = e" "e' = e" "nr_head ns = h"
    "read_revision db (rm_id x) = None" "rm_parent x = h" "insert_revision x db = Inr (v, db1)"
    "\<not> list_ex (\<lambda>r. rt_revision r = rm_id x) (db_roots db)"
    and db': "db' = (update_namespace (rm_namespace x) (\<lambda>r. r\<lparr>nr_head := Some (rm_id x), nr_updated_at := rq_now R 1\<rparr>) db1)
       \<lparr>db_roots := db_roots db @ [\<lparr>rt_revision = rm_id x, rt_root = rm_id x, rt_schema_version = rm_root_schema_version x\<rparr>]\<rparr>"
  note f = normalize_revision_fields[OF a(1)]
  obtain row where db1: "db1 = db\<lparr>db_revisions := db_revisions db @ [row]\<rparr>" using insert_revision_Inr[OF a(8)] by blast
  have rr: "read_revision db' (rm_id x) = Some x"
    by (rule committed_reads_back[OF assms(1) a(8,6) f(5)[OF assms(3)] a(9)]) (simp_all add: db' update_namespace_def db1)
  have "find_namespace db' (rm_namespace x) = map_option (\<lambda>r. if nr_id r = rm_namespace x then r\<lparr>nr_head := Some (rm_id x), nr_updated_at := rq_now R 1\<rparr> else r)
      (find_namespace db (rm_namespace x))"
    by (rule find_updated) (simp_all add: db' update_namespace_def db1)
  with a(2) find_namespace_Some[OF a(2)]
  have ns: "find_namespace db' (rm_namespace x) = Some (ns\<lparr>nr_head := Some (rm_id x), nr_updated_at := rq_now R 1\<rparr>)" by simp
  have new: "rm_id x \<notin> rw_id ` set (db_revisions db)" using a(6) by (simp add: read_revision_None)
  have "find_revision db' (rm_id x) = find_revision db1 (rm_id x)" by (simp add: find_revision_def db' update_namespace_def)
  with insert_revision_read[OF a(8) new] a(7) have "map_option (\<lambda>r. (rw_parent r, rw_state r)) (find_revision db' (rm_id x)) = Some (h, ''active'')"
    by simp
  moreover have "commit_revision_root R' h' e y db' = Inr ((AlreadyCommitted, e), db')"
    by (simp add: commit_revision_root_def normalize_revision_env[OF a(1) assms(4)] ns a(3) rr)
  ultimately show ?thesis using ns a(2-5) by (simp add: f)
qed

theorem commit_then_retry_witness:
  "commit_revision_root toy_request (Some ''x'') 0 (toy_revision (CHR ''a'') None) toy_committed
    = Inr ((AlreadyCommitted, 0), toy_committed)"
  using commit_then_retry[OF toy_server(3) toy_commit, of toy_request "Some ''x''"] by (simp add: toy_revision_def)

text \<open>
  Of the clients that all read the same head and epoch, at most one commits: once a revision is
  created, every commit of another revision to the namespace that expects the old head is refused.
\<close>
theorem commit_one_winner:
  assumes "server_run J H db" and "commit_revision_root R h e y db = Inr ((Created, e'), db')"
    and "nm_namespace z = nm_namespace y" and "nm_id z \<noteq> nm_id y"
  shows "\<exists>err. commit_revision_root R' h e2 z db' = Inl err"
proof (rule commit_revision_root_created[OF assms(2)])
  fix x ns v db1
  assume a: "normalize_revision R y = Inr x" "find_namespace db (rm_namespace x) = Some ns" "nr_head ns = h"
    "read_revision db (rm_id x) = None" "insert_revision x db = Inr (v, db1)"
    and db': "db' = (update_namespace (rm_namespace x) (\<lambda>r. r\<lparr>nr_head := Some (rm_id x), nr_updated_at := rq_now R 1\<rparr>) db1)
       \<lparr>db_roots := db_roots db @ [\<lparr>rt_revision = rm_id x, rt_root = rm_id x, rt_schema_version = rm_root_schema_version x\<rparr>]\<rparr>"
  note f = normalize_revision_fields[OF a(1)]
  obtain row where db1: "db1 = db\<lparr>db_revisions := db_revisions db @ [row]\<rparr>" using insert_revision_Inr[OF a(5)] by blast
  have "find_namespace db' (rm_namespace x) = map_option (\<lambda>r. if nr_id r = rm_namespace x then r\<lparr>nr_head := Some (rm_id x), nr_updated_at := rq_now R 1\<rparr> else r)
      (find_namespace db (rm_namespace x))"
    by (rule find_updated) (simp_all add: db' update_namespace_def db1)
  with a(2) find_namespace_Some[OF a(2)]
  have ns: "find_namespace db' (nm_namespace z) = Some (ns\<lparr>nr_head := Some (nm_id y), nr_updated_at := rq_now R 1\<rparr>)"
    by (simp add: f assms(3))
  have "linear (db_revisions db) (nr_id ns) h"
    using server_run_ok[OF assms(1)] find_namespace_Some[OF a(2)] a(3) by (auto simp: history_ok_def)
  then have "h \<noteq> Some (nm_id y)"
    using a(4) chain_head[of "db_revisions db" "ns_active (nr_id ns)" h _ None]
    by (auto simp: linear_def read_revision_None f ids_where_def)
  with ns assms(4) show ?thesis
    by (cases "commit_revision_root R' h e2 z db'")
      (auto simp: commit_revision_root_def bindr_eq_Inr_iff normalize_revision_fields split: option.splits if_splits)
qed

theorem commit_one_winner_witness:
  "\<exists>err. commit_revision_root toy_request None 0 (toy_revision (CHR ''b'') None) toy_committed = Inl err"
  using commit_one_winner[OF toy_server(3) toy_commit, of "toy_revision (CHR ''b'') None" toy_request 0]
  by (simp add: toy_revision_def toy_id_def)

section \<open>Reachability and the garbage collection queue\<close>

definition root_node :: "root_row \<Rightarrow> node" where
  "root_node rr = (''revisionRoot'', rt_root rr)"

text \<open>
  The recursive query that guards every deletion on the server returns exactly the nodes that the
  edges lead to, in any number of steps, from the root of a revision that is active or in a trash
  operation that is active and has not expired.
\<close>
theorem server_reachable_exact:
  "set (server_reachable R db) = {n. \<exists>rr \<in> set (db_roots db). keeps_root R db rr \<and> (root_node rr, n) \<in> (set (db_edges db))\<^sup>*}"
  by (auto simp: server_reachable_def closure_reaches root_node_def)

lemma server_reachable_rtrancl:
  assumes "rr \<in> set (db_roots db)" and "keeps_root R db rr" and "(root_node rr, n) \<in> (set (db_edges db))\<^sup>*"
  shows "n \<in> set (server_reachable R db)"
  using assms by (auto simp: server_reachable_def closure_reaches root_node_def)

lemma enqueue_purge_unreachable:
  assumes "foldr_res (enqueue_purge_step R db x reachable) objs (es0, rows0) = Inr (es, rows)"
    and "\<forall>e \<in> set es0. node_of (ge_object e) \<notin> set reachable"
  shows "\<forall>e \<in> set es. node_of (ge_object e) \<notin> set reachable"
proof -
  have "\<forall>e \<in> set (fst (es, rows)). node_of (ge_object e) \<notin> set reachable"
    by (rule foldr_res_invariant[OF assms(1), where P = "\<lambda>acc. \<forall>e \<in> set (fst acc). node_of (ge_object e) \<notin> set reachable"])
      (use assms(2) in \<open>auto simp: enqueue_purge_step_def enqueue_entry_def Let_def bindr_eq_Inr_iff split: if_splits option.splits\<close>)
  then show ?thesis by simp
qed

lemma enqueue_entries_objects:
  "foldr_res (enqueue_entry R x b) objs (es0, rows0) = Inr (es, rows) \<Longrightarrow> map ge_object es = map ge_object es0 @ objs"
proof (induction objs arbitrary: es0 rows0)
  case (Cons ob objs)
  from Cons.prems obtain es1 rows1 where s: "enqueue_entry R x b ob (es0, rows0) = Inr (es1, rows1)"
    "foldr_res (enqueue_entry R x b) objs (es1, rows1) = Inr (es, rows)" by (auto simp: bindr_eq_Inr_iff)
  from s(1) have "map ge_object es1 = map ge_object es0 @ [ob]" by (auto simp: enqueue_entry_def Let_def bindr_eq_Inr_iff)
  with Cons.IH[OF s(2)] show ?case by simp
qed simp

lemma parse_wire_kind: "k \<in> range wire_name_v3 \<Longrightarrow> parse_kind_v3 k = Some kind \<Longrightarrow> wire_name_v3 kind = k"
  by (auto simp: parse_wire_name)

lemma gc_candidates_fold:
  assumes "foldr_res (gc_candidate_step reachable) rows (cs0, t0) = Inr (cs, t)" and "wire_kinds rows"
  shows "\<exists>new. cs = cs0 @ new \<and> map (\<lambda>c. (node_of c, ref3_byte_length c)) new
       = map (\<lambda>r. ((st_kind r, st_sha256 r), st_byte_length r)) (filter (\<lambda>r. (st_kind r, st_sha256 r) \<notin> set reachable) rows)
     \<and> unat t = unat t0 + sum_list (map (\<lambda>c. unat (ref3_byte_length c)) new)"
  using assms
proof (induction rows arbitrary: cs0 t0)
  case (Cons r rows)
  from Cons.prems(2) have w: "st_kind r \<in> range wire_name_v3" "wire_kinds rows" by (auto simp: wire_kinds_def)
  from Cons.prems(1) obtain cs1 t1 where s: "gc_candidate_step reachable r (cs0, t0) = Inr (cs1, t1)"
    "foldr_res (gc_candidate_step reachable) rows (cs1, t1) = Inr (cs, t)" by (auto simp: bindr_eq_Inr_iff)
  from Cons.IH[OF s(2) w(2)] obtain new where new: "cs = cs1 @ new" "map (\<lambda>c. (node_of c, ref3_byte_length c)) new
       = map (\<lambda>r. ((st_kind r, st_sha256 r), st_byte_length r)) (filter (\<lambda>r. (st_kind r, st_sha256 r) \<notin> set reachable) rows)"
    "unat t = unat t1 + sum_list (map (\<lambda>c. unat (ref3_byte_length c)) new)" by blast
  show ?case
  proof (cases "(st_kind r, st_sha256 r) \<in> set reachable")
    case True
    with s(1) new show ?thesis by (auto simp: gc_candidate_step_def)
  next
    case False
    with s(1) obtain kind where k: "parse_kind_v3 (st_kind r) = Some kind" "checked_add t0 (st_byte_length r) = Some t1"
      "cs1 = cs0 @ [\<lparr>ref3_kind = kind, ref3_sha256 = st_sha256 r, ref3_byte_length = st_byte_length r\<rparr>]"
      by (auto simp: gc_candidate_step_def bindr_eq_Inr_iff)
    from k new False parse_wire_kind[OF w(1) k(1)] checked_add_unat[OF k(2)] show ?thesis
      by (intro exI[of _ "\<lparr>ref3_kind = kind, ref3_sha256 = st_sha256 r, ref3_byte_length = st_byte_length r\<rparr> # new"])
        (simp add: node_of_def)
  qed
qed simp

lemma keeps_root_queue: "keeps_root R (db\<lparr>db_gc := rows\<rparr>) rr = keeps_root R db rr"
  by (simp add: keeps_root_def)

lemma unreachable_iff:
  "n \<notin> set (server_reachable R db) \<longleftrightarrow>
     (\<nexists>rr. rr \<in> set (db_roots db) \<and> keeps_root R db rr \<and> (root_node rr, n) \<in> (set (db_edges db))\<^sup>*)"
  by (auto simp: server_reachable_def closure_reaches root_node_def)

lemma gc_candidates:
  assumes "server_run J' H' db" and "build_gc_plan J H R db = Inr plan"
  shows "(\<lambda>c. (node_of c, ref3_byte_length c)) ` set (sg_candidates plan)
      = {((st_kind r, st_sha256 r), st_byte_length r) | r. r \<in> set (db_storage db) \<and> st_created_at r \<le> rq_hour_ago R
          \<and> (st_kind r, st_sha256 r) \<notin> set (server_reachable R db)}"
    and "sorted (map ref3_key (sg_candidates plan))"
    and "unat (sg_reclaimable_bytes plan) = sum_list (map (\<lambda>c. unat (ref3_byte_length c)) (sg_candidates plan))"
proof -
  let ?rows = "sort_key (\<lambda>r. (st_kind r, st_sha256 r)) (filter (\<lambda>r. st_created_at r \<le> rq_hour_ago R) (db_storage db))"
  let ?key = "\<lambda>r. (st_kind r, st_sha256 r)"
  from assms(2) obtain cs t where f: "foldr_res (gc_candidate_step (server_reachable R db)) ?rows ([], 0) = Inr (cs, t)"
    and plan: "sg_candidates plan = sort_key ref3_key cs" "sg_reclaimable_bytes plan = t"
    by (auto simp: build_gc_plan_def Let_def bindr_eq_Inr_iff)
  have "wire_kinds ?rows" using server_run_kinds[OF assms(1)] by (auto simp: wire_kinds_def)
  from gc_candidates_fold[OF f this] have m: "map (\<lambda>c. (node_of c, ref3_byte_length c)) cs
       = map (\<lambda>r. (?key r, st_byte_length r)) (filter (\<lambda>r. ?key r \<notin> set (server_reachable R db)) ?rows)"
    and t: "unat t = sum_list (map (\<lambda>c. unat (ref3_byte_length c)) cs)" by auto
  have "mset (map (\<lambda>c. unat (ref3_byte_length c)) (sort_key ref3_key cs)) = mset (map (\<lambda>c. unat (ref3_byte_length c)) cs)"
    by (simp only: mset_map mset_sort)
  then have "sum_list (map (\<lambda>c. unat (ref3_byte_length c)) (sort_key ref3_key cs)) = sum_list (map (\<lambda>c. unat (ref3_byte_length c)) cs)"
    by (simp only: sum_mset_sum_list[symmetric])
  with t show "unat (sg_reclaimable_bytes plan) = sum_list (map (\<lambda>c. unat (ref3_byte_length c)) (sg_candidates plan))"
    by (simp add: plan)
  show "sorted (map ref3_key (sg_candidates plan))" by (simp add: plan)
  from arg_cong[OF m, of set] have "(\<lambda>c. (node_of c, ref3_byte_length c)) ` set cs
      = (\<lambda>r. (?key r, st_byte_length r)) ` {r. (r \<in> set (db_storage db) \<and> st_created_at r \<le> rq_hour_ago R) \<and> ?key r \<notin> set (server_reachable R db)}"
    by (simp only: set_map set_filter set_sort mem_Collect_eq)
  then show "(\<lambda>c. (node_of c, ref3_byte_length c)) ` set (sg_candidates plan)
      = {((st_kind r, st_sha256 r), st_byte_length r) | r. r \<in> set (db_storage db) \<and> st_created_at r \<le> rq_hour_ago R
          \<and> (st_kind r, st_sha256 r) \<notin> set (server_reachable R db)}"
    unfolding plan(1) set_sort by blast
qed

text \<open>
  A garbage collection plan lists exactly the stored objects that are an hour old and that
  nothing kept leads to, each with its recorded length and in the candidates' order, counts every
  reachable node once, and promises exactly the sum of the lengths, without overflow.
\<close>
theorem gc_plan_exact:
  assumes "server_run J' H' db" and "build_gc_plan J H R db = Inr plan"
  shows "(\<lambda>c. (node_of c, ref3_byte_length c)) ` set (sg_candidates plan)
      = {((st_kind r, st_sha256 r), st_byte_length r) | r. r \<in> set (db_storage db) \<and> st_created_at r \<le> rq_hour_ago R
          \<and> (\<nexists>rr. rr \<in> set (db_roots db) \<and> keeps_root R db rr \<and> (root_node rr, (st_kind r, st_sha256 r)) \<in> (set (db_edges db))\<^sup>*)}
    \<and> sorted (map ref3_key (sg_candidates plan))
    \<and> unat (sg_reclaimable_bytes plan) = sum_list (map (\<lambda>c. unat (ref3_byte_length c)) (sg_candidates plan))"
  using gc_candidates[OF assms] unfolding unreachable_iff by simp

text \<open>
  Neither the garbage collector nor a purge of trashed history ever queues an object for deletion
  that a kept revision still needs: in the database the handler leaves, no chain of edges leads from a
  kept root to any queued object.
\<close>
theorem queued_objects_unreachable:
  assumes "server_run J' H' db"
    and "enqueue_gc J H R fp db = Inr ((x, es), db') \<or> commit_history_trash_purge R u expected db = Inr ((plan, es), db')"
    and "e \<in> set es" and "rr \<in> set (db_roots db')" and "keeps_root R db' rr"
  shows "(root_node rr, node_of (ge_object e)) \<notin> (set (db_edges db'))\<^sup>*"
  using assms(2)
proof
  assume "enqueue_gc J H R fp db = Inr ((x, es), db')"
  then obtain p rows where p: "build_gc_plan J H R db = Inr p" "db' = db\<lparr>db_gc := rows\<rparr>"
    "foldr_res (enqueue_entry R x False) (sg_candidates p) ([], db_gc db) = Inr (es, rows)"
    by (auto simp: enqueue_gc_def Let_def bindr_eq_Inr_iff)
  have "ge_object e \<in> set (map ge_object es)" using assms(3) by simp
  then have c: "ge_object e \<in> set (sg_candidates p)" by (simp only: enqueue_entries_objects[OF p(3)] list.map append_Nil)
  have "(node_of (ge_object e), ref3_byte_length (ge_object e)) \<in> (\<lambda>c. (node_of c, ref3_byte_length c)) ` set (sg_candidates p)"
    using c by (rule imageI)
  then have "node_of (ge_object e) \<notin> set (server_reachable R db)" unfolding gc_candidates(1)[OF assms(1) p(1)] by auto
  moreover have "rr \<in> set (db_roots db)" "keeps_root R db rr" using assms(4,5) by (simp_all add: p(2) keeps_root_queue)
  ultimately show ?thesis unfolding p(2) using server_reachable_rtrancl by fastforce
next
  assume "commit_history_trash_purge R u expected db = Inr ((plan, es), db')"
  then obtain db1 where es: "enqueue_gc_objects_for_purge R (rq_uuid R 0) (hp_candidate_objects plan) db1 = Inr (es, db')"
    by (rule commit_history_trash_purge_Inr)
  from enqueue_purge_Inr[OF es] obtain rows where r: "db' = db1\<lparr>db_gc := rows\<rparr>" "foldr_res (enqueue_purge_step R db1 (rq_uuid R 0) (server_reachable R db1))
       (bt_values (bt_of_list (map (\<lambda>o'. (node_of o', o')) (hp_candidate_objects plan)))) ([], db_gc db1) = Inr (es, rows)" by blast
  from enqueue_purge_unreachable[OF r(2)] assms(3) have "node_of (ge_object e) \<notin> set (server_reachable R db1)" by simp
  moreover have "rr \<in> set (db_roots db1)" "keeps_root R db1 rr" using assms(4,5) by (simp_all add: r(1) keeps_root_queue)
  ultimately show ?thesis unfolding r(1) using server_reachable_rtrancl by fastforce
qed

definition toy_stored :: storage_row where
  "toy_stored = \<lparr>st_kind = ''whole'', st_sha256 = toy_id (CHR ''c''), st_byte_length = 5, st_created_at = ''2''\<rparr>"

definition toy_object_ref :: storage_object_ref_v3 where
  "toy_object_ref = \<lparr>ref3_kind = Whole3, ref3_sha256 = toy_id (CHR ''c''), ref3_byte_length = 5\<rparr>"

definition toy_collectable :: server_db where
  "toy_collectable = toy_committed\<lparr>db_storage := [toy_stored]\<rparr>"

lemma toy_collectable_run: "server_run toy_text toy_hash toy_collectable"
proof -
  have "record_storage_object toy_request toy_object_ref toy_committed = Inr ((), toy_collectable)"
    by (simp add: record_storage_object_def sql_integer_def toy_object_ref_def toy_committed_def empty_db_def toy_collectable_def toy_stored_def)
  from server_run.step[OF toy_server(2) server_step.intros(3)[OF this]] show ?thesis .
qed

lemma toy_collectable_tables:
  "db_storage toy_collectable = [toy_stored]" "db_edges toy_collectable = []" "db_roots toy_collectable = [toy_root_row]"
  "db_gc toy_collectable = []" "db_revisions toy_collectable = [toy_revision_row ''active'' None]"
  by (simp_all add: toy_collectable_def toy_committed_def empty_db_def)

lemma toy_keeps: "keeps_root toy_request toy_collectable toy_root_row"
  by (simp add: keeps_root_def toy_collectable_tables toy_revision_row_def toy_root_row_def)

lemma toy_reached: "server_reachable toy_request toy_collectable = [(''revisionRoot'', toy_id (CHR ''a''))]"
proof -
  have "map (\<lambda>rr. (''revisionRoot'', rt_root rr)) (filter (keeps_root toy_request toy_collectable) (db_roots toy_collectable))
      = [(''revisionRoot'', toy_id (CHR ''a''))]"
    by (simp add: toy_collectable_tables toy_keeps) (simp add: toy_root_row_def)
  then show ?thesis by (simp add: server_reachable_def toy_collectable_tables closure.simps successors_def)
qed

lemma toy_plan:
  "build_gc_plan toy_text toy_hash toy_request toy_collectable = Inr
     \<lparr>sg_created_at = ''2'', sg_reachable_object_count = 1, sg_candidates = [toy_object_ref], sg_reclaimable_bytes = 5,
      sg_plan_fingerprint = toy_digest\<rparr>"
proof -
  have "(''2'' :: string) \<le> ''3''" by code_simp
  then have "filter (\<lambda>r. st_created_at r \<le> ''3'') [toy_stored] = [toy_stored]" by (simp add: toy_stored_def)
  then show ?thesis unfolding build_gc_plan_def toy_reached
    by (simp add: toy_collectable_tables gc_candidate_step_def toy_stored_def parse_kind_v3_def checked_add_def
        toy_object_ref_def toy_digest_any)
qed

theorem gc_plan_exact_witness:
  "(\<lambda>c. (node_of c, ref3_byte_length c)) ` set [toy_object_ref] = {((''whole'', toy_id (CHR ''c'')), 5)}"
  using gc_plan_exact[OF toy_collectable_run toy_plan]
  by (simp add: toy_object_ref_def node_of_def)

theorem queued_objects_unreachable_witness:
  "\<exists>e rows. enqueue_gc toy_text toy_hash toy_request toy_digest toy_collectable = Inr ((toy_namespace, [e]), toy_collectable\<lparr>db_gc := rows\<rparr>)
    \<and> ge_object e = toy_object_ref \<and> keeps_root toy_request toy_collectable toy_root_row
    \<and> (root_node toy_root_row, node_of toy_object_ref) \<notin> (set (db_edges toy_collectable))\<^sup>*"
proof -
  obtain e rows where q: "enqueue_gc toy_text toy_hash toy_request toy_digest toy_collectable = Inr ((toy_namespace, [e]), toy_collectable\<lparr>db_gc := rows\<rparr>)"
    "ge_object e = toy_object_ref"
  proof -
    show thesis using that unfolding enqueue_gc_def toy_plan
      by (simp add: Let_def enqueue_entry_def sql_integer_def toy_object_ref_def toy_collectable_tables)
  qed
  from queued_objects_unreachable[OF toy_collectable_run disjI1[OF q(1)], of e toy_root_row] toy_keeps q show ?thesis
    by (simp add: keeps_root_queue toy_collectable_tables) blast
qed

section \<open>Edges\<close>

lemma insert_edges_ok:
  "foldr_res (insert_edge owner) targets edges = (
     if distinct (map node_of targets) \<and> (\<forall>t \<in> set targets. (owner, node_of t) \<notin> set edges)
     then Inr (edges @ map (\<lambda>t. (owner, node_of t)) targets)
     else Inl (SqliteError ''UNIQUE constraint failed: object_edges''))"
proof (induction targets arbitrary: edges)
  case (Cons t targets)
  show ?case
  proof (cases "(owner, node_of t) \<in> set edges")
    case True
    then show ?thesis by (simp add: insert_edge_def)
  next
    case False
    then have "insert_edge owner t edges = Inr (edges @ [(owner, node_of t)])" by (simp add: insert_edge_def)
    with False show ?thesis by (auto simp: Cons.IH image_iff) metis+
  qed
qed simp

text \<open>
  Recording what an object refers to replaces its outgoing edges and leaves every other edge; and
  it fails, leaving the database as it was, exactly when the list names one node twice. A list with a
  repeated node is what a chunk manifest with two equal chunks gives: the insertion hits the primary
  key of the edge table.
\<close>
theorem replace_object_edges_exact:
  "replace_object_edges owner targets db =
     (if distinct (map node_of targets)
      then Inr ((), db\<lparr>db_edges := filter (\<lambda>e. fst e \<noteq> node_of owner) (db_edges db) @ map (\<lambda>t. (node_of owner, node_of t)) targets\<rparr>)
      else Inl (SqliteError ''UNIQUE constraint failed: object_edges''))"
  by (simp add: replace_object_edges_def insert_edges_ok)

end
