(* ===== verification/ServerStore.thy ===== *)
theory ServerStore
  imports ServerMeta
begin

text \<open>
  The object files of the sync server (\<open>ObjectStore\<close> in apps/sync-server/src/object_store.rs), on the
  volume of Disk. Every call of the file system may fail at its tick; a failed call becomes the
  \<open>Io\<close> error of the operation that made it, so the operations here return an \<open>object_store_error\<close>
  as a value together with the disk they leave. An upload is the list of what its stream yields.
  The sync metrics and log lines are not modelled; volumes hold no symbolic links, and a read of a file
  fills the 64 KiB buffer while the file lasts.
\<close>

datatype object_store_error =
    InvalidDigest string
  | Stream string
  | ObjectTooLarge u64 u64
  | LengthMismatch u64 u64
  | HashMismatch string string
  | ObjectNotFound string
  | Io string path string

datatype put_object_result = ObjectCreated | AlreadyPresent

record object_store =
  os_sha256_dir :: path
  os_tmp_dir :: path
  os_max_object_bytes :: u64

record object_download =
  od_file :: bytes
  od_byte_length :: u64

type_synonym 'a store_io = "(object_store_error + 'a) io"

section \<open>Store operations as disk operations\<close>

definition return_st :: "'a \<Rightarrow> 'a store_io" where
  "return_st a = return_io (Inr a)"

definition fail_st :: "object_store_error \<Rightarrow> 'a store_io" where
  "fail_st e = return_io (Inl e)"

definition bind_st :: "'a store_io \<Rightarrow> ('a \<Rightarrow> 'b store_io) \<Rightarrow> 'b store_io" where
  "bind_st m f = bind_io m (\<lambda>r. case r of Inl e \<Rightarrow> fail_st e | Inr a \<Rightarrow> f a)"

definition ensure_st :: "bool \<Rightarrow> object_store_error \<Rightarrow> unit store_io" where
  "ensure_st b e = (if b then return_st () else fail_st e)"

text \<open>\<open>call.await.map_err(|error| io_error(operation, path, error))\<close>.\<close>

definition call_st :: "string \<Rightarrow> path \<Rightarrow> 'a io \<Rightarrow> 'a store_io" where
  "call_st operation p m = catch_io (bind_io m return_st) (\<lambda>e. fail_st (Io operation p e))"

text \<open>A step whose own error is handled by the caller.\<close>

definition try_st :: "'a store_io \<Rightarrow> (object_store_error + 'a) store_io" where
  "try_st m = bind_io m return_st"

fun foreach_st :: "('a \<Rightarrow> 's \<Rightarrow> 's store_io) \<Rightarrow> 'a list \<Rightarrow> 's \<Rightarrow> 's store_io" where
  "foreach_st f [] s = return_st s"
| "foreach_st f (x # xs) s = bind_st (f x s) (foreach_st f xs)"

definition not_a_file :: "path \<Rightarrow> object_store_error" where
  "not_a_file p = Io ''use non-file object path'' p ''path is not a regular file''"

section \<open>Paths and small calls\<close>

definition object_path :: "object_store \<Rightarrow> string \<Rightarrow> object_store_error + path" where
  "object_path st digest =
     bindr (map_err (\<lambda>_. InvalidDigest digest) (validate_sha256 digest)) (\<lambda>_.
     let hex_digest = drop (length ''sha256:'') digest in
       Inr (os_sha256_dir st @ [take 2 hex_digest, drop 2 hex_digest]))"

definition object_path_st :: "object_store \<Rightarrow> string \<Rightarrow> path store_io" where
  "object_path_st st digest = lift_res (Inr (object_path st digest))"

definition create_dir_all_st :: "path \<Rightarrow> unit store_io" where
  "create_dir_all_st p = call_st ''create directory'' p (create_dir_all_io p)"

definition file_exists :: "path \<Rightarrow> bool store_io" where
  "file_exists p =
     bind_st (call_st ''read metadata for'' p (read_io (\<lambda>v. Inr (if dir_at v p then Some DirEntry else entry_at v p)))) (\<lambda>m.
       case m of
         None \<Rightarrow> return_st False
       | Some DirEntry \<Rightarrow> fail_st (not_a_file p)
       | Some (FileEntry _) \<Rightarrow> return_st True)"

definition remove_temp :: "path \<Rightarrow> unit store_io" where
  "remove_temp p = catch_io (bind_io (atomic_io (fs_remove_file p)) return_st) (\<lambda>_. return_st ())"

definition sync_directory :: "path \<Rightarrow> unit store_io" where
  "sync_directory p = call_st ''sync directory'' p (read_io (\<lambda>v. ensure (dir_at v p) ''No such file or directory''))"

definition cleanup_entry :: "path \<Rightarrow> string \<Rightarrow> unit \<Rightarrow> unit store_io" where
  "cleanup_entry dir name _ =
     bind_st (call_st ''read temporary file type'' (dir @ [name]) (read_io (\<lambda>v. ok_or ''No such file or directory'' (entry_at v (dir @ [name]))))) (\<lambda>e.
     bind_st (ensure_st (e \<noteq> DirEntry) (not_a_file (dir @ [name]))) (\<lambda>_.
       call_st ''remove stale temporary file'' (dir @ [name]) (atomic_io (fs_remove_file (dir @ [name])))))"

definition cleanup_temp_dir :: "path \<Rightarrow> unit store_io" where
  "cleanup_temp_dir dir =
     bind_st (call_st ''read temporary directory'' dir (read_io (\<lambda>v. read_dir v dir))) (\<lambda>names.
       foreach_st (cleanup_entry dir) names ())"

definition object_store_open :: "path \<Rightarrow> u64 \<Rightarrow> object_store store_io" where
  "object_store_open data_dir max_object_bytes =
     (let objects_dir = data_dir @ [''objects'']; sha256_dir = objects_dir @ [''sha256'']; tmp_dir = objects_dir @ [''tmp''] in
      bind_st (create_dir_all_st sha256_dir) (\<lambda>_.
      bind_st (create_dir_all_st tmp_dir) (\<lambda>_.
      bind_st (cleanup_temp_dir tmp_dir) (\<lambda>_.
        return_st \<lparr>os_sha256_dir = sha256_dir, os_tmp_dir = tmp_dir, os_max_object_bytes = max_object_bytes\<rparr>))))"

section \<open>Verified writes\<close>

definition fs_append :: "path \<Rightarrow> bytes \<Rightarrow> volume \<Rightarrow> string + volume" where
  "fs_append p b v =
     bindr (ok_or ''No such file'' (file_at v p)) (\<lambda>old. Inr (set_entry p (FileEntry (old @ b)) v))"

definition append_io :: "path \<Rightarrow> bytes \<Rightarrow> unit io" where
  "append_io p b = perform (\<lambda>v. bindr (fs_append p b v) (\<lambda>v'. Inr ((), v')))
     (\<lambda>n v. case fs_append p (take n b) v of Inl _ \<Rightarrow> v | Inr v' \<Rightarrow> v')"

definition write_chunk ::
  "object_store \<Rightarrow> path \<Rightarrow> u64 \<Rightarrow> string + bytes \<Rightarrow> bytes \<times> u64 \<Rightarrow> (bytes \<times> u64) store_io" where
  "write_chunk st temp_path expected_length item acc =
     (case item of
        Inl message \<Rightarrow> fail_st (Stream message)
      | Inr chunk \<Rightarrow>
          (case checked_add (snd acc) (of_nat (length chunk)) of
             None \<Rightarrow> fail_st (ObjectTooLarge (os_max_object_bytes st) (- 1))
           | Some actual_length \<Rightarrow>
               bind_st (ensure_st (\<not> actual_length > os_max_object_bytes st) (ObjectTooLarge (os_max_object_bytes st) actual_length)) (\<lambda>_.
               bind_st (ensure_st (\<not> actual_length > expected_length) (LengthMismatch expected_length actual_length)) (\<lambda>_.
               bind_st (call_st ''write'' temp_path (append_io temp_path chunk)) (\<lambda>_.
                 return_st (fst acc @ chunk, actual_length))))))"

definition write_verified_temp ::
  "(bytes \<Rightarrow> string) \<Rightarrow> object_store \<Rightarrow> path \<Rightarrow> string \<Rightarrow> u64 \<Rightarrow> (string + bytes) list \<Rightarrow> unit store_io" where
  "write_verified_temp H st temp_path expected_digest expected_length stream =
     bind_st (call_st ''create'' temp_path (atomic_io (fs_create_new temp_path))) (\<lambda>_.
     bind_st (foreach_st (write_chunk st temp_path expected_length) stream ([], 0)) (\<lambda>(hashed_bytes, actual_length).
     bind_st (ensure_st (actual_length = expected_length) (LengthMismatch expected_length actual_length)) (\<lambda>_.
     bind_st (ensure_st (digest_bytes_v4 H hashed_bytes = expected_digest) (HashMismatch expected_digest (digest_bytes_v4 H hashed_bytes))) (\<lambda>_.
     bind_st (call_st ''flush'' temp_path (read_io (\<lambda>_. Inr ()))) (\<lambda>_.
       call_st ''sync'' temp_path (read_io (\<lambda>_. Inr ())))))))"

definition READ_BUFFER :: nat where "READ_BUFFER = 64 * 1024"

function verify_loop :: "u64 \<Rightarrow> bytes \<Rightarrow> u64 \<Rightarrow> object_store_error + u64" where
  "verify_loop limit rest actual_length =
     (if rest = [] then Inr actual_length
      else case checked_add actual_length (of_nat (length (take READ_BUFFER rest))) of
             None \<Rightarrow> Inl (ObjectTooLarge limit (- 1))
           | Some n \<Rightarrow> if n > limit then Inl (ObjectTooLarge limit n)
               else verify_loop limit (drop READ_BUFFER rest) n)"
  by pat_completeness auto
termination
  by (relation "measure (\<lambda>(m, rest, n). length rest)") (auto simp: READ_BUFFER_def)

declare verify_loop.simps [simp del]

definition verify_file :: "(bytes \<Rightarrow> string) \<Rightarrow> object_store \<Rightarrow> path \<Rightarrow> string \<Rightarrow> u64 option \<Rightarrow> u64 store_io" where
  "verify_file H st p expected_digest expected_length =
     bind_st (call_st ''open'' p (read_io (\<lambda>v. ok_or ''No such file or directory'' (file_at v p)))) (\<lambda>b.
     bind_st (call_st ''read'' p (read_io (\<lambda>_. Inr ()))) (\<lambda>_.
     bind_st (lift_res (Inr (verify_loop (os_max_object_bytes st) b 0))) (\<lambda>actual_length.
     bind_st (case expected_length of None \<Rightarrow> return_st ()
                | Some n \<Rightarrow> ensure_st (actual_length = n) (LengthMismatch n actual_length)) (\<lambda>_.
     bind_st (ensure_st (digest_bytes_v4 H b = expected_digest) (HashMismatch expected_digest (digest_bytes_v4 H b))) (\<lambda>_.
       return_st actual_length)))))"

text \<open>Another writer's file at the target: it has to be the same object.\<close>

definition accept_existing :: "(bytes \<Rightarrow> string) \<Rightarrow> object_store \<Rightarrow> path \<Rightarrow> path \<Rightarrow> string \<Rightarrow> u64 \<Rightarrow> put_object_result store_io" where
  "accept_existing H st temp_path target_path expected_digest expected_length =
     bind_st (try_st (verify_file H st target_path expected_digest (Some expected_length))) (\<lambda>r.
     bind_st (remove_temp temp_path) (\<lambda>_.
     bind_st (lift_res (Inr r)) (\<lambda>_. return_st AlreadyPresent)))"

text \<open>The installation once the temporary file is verified; the flag says that the guard is disarmed.\<close>

definition install_temp ::
  "(bytes \<Rightarrow> string) \<Rightarrow> object_store \<Rightarrow> path \<Rightarrow> path \<Rightarrow> string \<Rightarrow> u64 \<Rightarrow> (bool \<times> put_object_result) store_io" where
  "install_temp H st temp_path target_path expected_digest expected_length =
     bind_st (try_st (file_exists target_path)) (\<lambda>present.
       case present of
         Inr True \<Rightarrow> bind_st (accept_existing H st temp_path target_path expected_digest expected_length) (\<lambda>r. return_st (False, r))
       | Inl e \<Rightarrow> bind_st (remove_temp temp_path) (\<lambda>_. fail_st e)
       | Inr False \<Rightarrow>
           bind_st (try_st (call_st ''atomically install'' target_path (atomic_io (fs_rename temp_path target_path)))) (\<lambda>renamed.
             case renamed of
               Inr _ \<Rightarrow> return_st (True, ObjectCreated)
             | Inl rename_error \<Rightarrow>
                 bind_st (try_st (file_exists target_path)) (\<lambda>again.
                   case again of
                     Inr True \<Rightarrow> bind_st (accept_existing H st temp_path target_path expected_digest expected_length) (\<lambda>r. return_st (False, r))
                   | Inr False \<Rightarrow> bind_st (remove_temp temp_path) (\<lambda>_. fail_st rename_error)
                   | Inl e \<Rightarrow> bind_st (remove_temp temp_path) (\<lambda>_. fail_st e))))"

text \<open>Leaving the function drops the guard, which removes the temporary file unless it was installed.\<close>

definition drop_guard :: "path \<Rightarrow> (bool \<times> 'a) store_io \<Rightarrow> 'a store_io" where
  "drop_guard temp_path m =
     bind_st (try_st m) (\<lambda>r.
       case r of
         Inr (True, a) \<Rightarrow> return_st a
       | Inr (False, a) \<Rightarrow> bind_st (remove_temp temp_path) (\<lambda>_. return_st a)
       | Inl e \<Rightarrow> bind_st (remove_temp temp_path) (\<lambda>_. fail_st e))"

definition put_stream ::
  "(bytes \<Rightarrow> string) \<Rightarrow> (nat \<Rightarrow> string) \<Rightarrow> object_store \<Rightarrow> string \<Rightarrow> u64 \<Rightarrow> (string + bytes) list \<Rightarrow> put_object_result store_io" where
  "put_stream H fresh st expected_digest expected_length stream =
     bind_st (object_path_st st expected_digest) (\<lambda>target_path.
     bind_st (ensure_st (\<not> expected_length > os_max_object_bytes st) (ObjectTooLarge (os_max_object_bytes st) expected_length)) (\<lambda>_.
     bind_st (create_dir_all_st (butlast target_path)) (\<lambda>_.
     bind_st (bind_io (ask_io fresh) (\<lambda>u. return_st (os_tmp_dir st @ [u @ ''.part'']))) (\<lambda>temp_path.
       drop_guard temp_path
         (bind_st (try_st (write_verified_temp H st temp_path expected_digest expected_length stream)) (\<lambda>written.
            case written of
              Inl e \<Rightarrow> bind_st (remove_temp temp_path) (\<lambda>_. fail_st e)
            | Inr _ \<Rightarrow> install_temp H st temp_path target_path expected_digest expected_length))))))"

section \<open>Queries\<close>

definition contains :: "object_store \<Rightarrow> string \<Rightarrow> bool store_io" where
  "contains st digest = bind_st (object_path_st st digest) file_exists"

definition missing_step :: "object_store \<Rightarrow> object_descriptor \<Rightarrow> string list \<Rightarrow> string list store_io" where
  "missing_step st obj missing =
     bind_st (object_path_st st (ob_sha256 obj)) (\<lambda>p.
     bind_st (ensure_st (\<not> ob_byte_length obj > os_max_object_bytes st) (ObjectTooLarge (os_max_object_bytes st) (ob_byte_length obj))) (\<lambda>_.
     bind_st (call_st ''read metadata for'' p (read_io (\<lambda>v. Inr (entry_at v p)))) (\<lambda>m.
       case m of
         Some (FileEntry b) \<Rightarrow>
           bind_st (ensure_st (of_nat (length b) = ob_byte_length obj) (LengthMismatch (ob_byte_length obj) (of_nat (length b)))) (\<lambda>_.
             return_st missing)
       | Some DirEntry \<Rightarrow> fail_st (not_a_file p)
       | None \<Rightarrow> return_st (missing @ [ob_sha256 obj]))))"

definition missing_objects :: "object_store \<Rightarrow> object_descriptor list \<Rightarrow> string list store_io" where
  "missing_objects st objects = foreach_st (missing_step st) objects []"

definition open_download :: "object_store \<Rightarrow> string \<Rightarrow> object_download store_io" where
  "open_download st digest =
     bind_st (object_path_st st digest) (\<lambda>p.
     bind_st (call_st ''open'' p (read_io (\<lambda>v. Inr (entry_at v p)))) (\<lambda>m.
       case m of
         None \<Rightarrow> fail_st (ObjectNotFound digest)
       | Some e \<Rightarrow>
           bind_st (call_st ''read metadata for'' p (read_io (\<lambda>_. Inr ()))) (\<lambda>_.
             case e of
               DirEntry \<Rightarrow> fail_st (not_a_file p)
             | FileEntry b \<Rightarrow>
                 bind_st (ensure_st (\<not> of_nat (length b) > os_max_object_bytes st) (ObjectTooLarge (os_max_object_bytes st) (of_nat (length b)))) (\<lambda>_.
                   return_st \<lparr>od_file = b, od_byte_length = of_nat (length b)\<rparr>))))"

definition sync_object_directories :: "object_store \<Rightarrow> string list \<Rightarrow> nat store_io" where
  "sync_object_directories st digests =
     bind_st (foreach_st (\<lambda>digest dirs. bind_st (object_path_st st digest) (\<lambda>p. return_st (dirs @ [butlast p]))) digests []) (\<lambda>parents.
     let directories = btree_set parents in
     bind_st (foreach_st (\<lambda>dir _. sync_directory dir) directories ()) (\<lambda>_.
     bind_st (if directories = [] then return_st () else sync_directory (os_sha256_dir st)) (\<lambda>_.
       return_st (length directories + (if directories = [] then 0 else 1)))))"

section \<open>Quarantine\<close>

definition quarantine :: "object_store \<Rightarrow> string \<Rightarrow> path \<Rightarrow> bool store_io" where
  "quarantine st digest destination =
     bind_st (object_path_st st digest) (\<lambda>source.
     bind_st (file_exists source) (\<lambda>present.
     if \<not> present then file_exists destination
     else
       bind_st (create_dir_all_st (butlast destination)) (\<lambda>_.
       bind_st (try_st (call_st ''quarantine object'' source (atomic_io (fs_rename source destination)))) (\<lambda>renamed.
         case renamed of
           Inr _ \<Rightarrow>
             bind_st (sync_directory (butlast source)) (\<lambda>_.
             bind_st (sync_directory (butlast destination)) (\<lambda>_. return_st True))
         | Inl e \<Rightarrow>
             if e = Io ''quarantine object'' source ''No such file or directory'' then file_exists destination
             else fail_st e))))"

definition purge_quarantined :: "object_store \<Rightarrow> path \<Rightarrow> u64 \<Rightarrow> bool store_io" where
  "purge_quarantined st p expected_length =
     bind_st (call_st ''inspect quarantined'' p (read_io (\<lambda>v. Inr (entry_at v p)))) (\<lambda>m.
       case m of
         None \<Rightarrow> return_st False
       | Some DirEntry \<Rightarrow> fail_st (not_a_file p)
       | Some (FileEntry b) \<Rightarrow>
           bind_st (ensure_st (of_nat (length b) = expected_length) (LengthMismatch expected_length (of_nat (length b)))) (\<lambda>_.
           bind_st (call_st ''purge quarantined'' p (atomic_io (fs_remove_file p))) (\<lambda>_.
           bind_st (sync_directory (butlast p)) (\<lambda>_.
             return_st True))))"

end
