(* ===== verification/Protocol.thy ===== *)
theory Protocol
  imports Snapshots Tracking ServerMeta
begin

text \<open>
  crates/sync-core/src/protocol.rs: the requests the server accepts and their validation, and the
  manifest form of a revision with \<open>NewRevisionMetadata::from_manifest\<close> of the server.
  \<open>chrono\<close>'s RFC 3339 parser is the parameter \<open>is_rfc3339\<close>, \<open>Uuid::to_string\<close> is \<open>uuid_str\<close>.
\<close>

section \<open>Version 4 requests\<close>

datatype revision_validation_error_v4 =
    InvalidRoot string
  | InvalidExpectedHead4 string
  | ExpectedHeadParentMismatch4 "string option" "string option"
  | OverlayNotRemote

record revision_commit_request_v4 =
  rc_expected_head :: "string option"
  rc_expected_namespace_epoch :: u64
  rc_revision :: revision_root_v4

definition validate_commit_request_v4 ::
  "json_lib \<Rightarrow> (bytes \<Rightarrow> string) \<Rightarrow> (uuid \<Rightarrow> string) \<Rightarrow> revision_commit_request_v4 \<Rightarrow>
     revision_validation_error_v4 + string" where
  "validate_commit_request_v4 J H uuid_str r =
     bindr (map_err InvalidRoot (validate_revision_root (rc_revision r))) (\<lambda>_.
     bindr (map_err InvalidRoot (revision_id J H uuid_str (rc_revision r))) (\<lambda>actual.
     bindr (ensure (rc_expected_head r = rv_parent_revision (rc_revision r))
              (ExpectedHeadParentMismatch4 (rc_expected_head r) (rv_parent_revision (rc_revision r)))) (\<lambda>_.
     bindr (case rc_expected_head r of None \<Rightarrow> Inr ()
              | Some head \<Rightarrow> map_err (\<lambda>_. InvalidExpectedHead4 head) (validate_sha256_v4 head)) (\<lambda>_.
       Inr actual))))"

definition validate_v4_remote_object :: "storage_object_ref_v4 \<Rightarrow> revision_validation_error_v4 + unit" where
  "validate_v4_remote_object obj =
     bindr (ensure (ref_kind obj \<noteq> SnapshotOverlay) OverlayNotRemote) (\<lambda>_.
     bindr (map_err (\<lambda>_. InvalidRoot ''invalid object hash'') (validate_sha256_v4 (ref_sha256 obj))) (\<lambda>_.
       ensure (\<not> (ref_kind obj = Chunk \<and> ref_byte_length obj > ucast CHUNK_SIZE_V4)) (InvalidRoot ''chunk exceeds v4 chunk size'')))"

record protocol_capabilities_v4 =
  pc_namespaces :: bool
  pc_immutable_objects :: bool
  pc_revision_roots :: bool
  pc_chunk_manifests :: bool
  pc_history_epochs :: bool
  pc_gc :: bool

record protocol_limits_v4 =
  pl_chunk_size :: u32
  pl_max_chunks_per_content :: nat
  pl_max_threads_per_revision :: nat
  pl_max_object_references :: nat
  pl_max_structured_object_bytes :: u64

record protocol_info_response_v4 =
  pi_service :: string
  pi_version :: string
  pi_protocol_version :: u32
  pi_storage_protocol_version :: u32
  pi_normalization_schema_version :: u32
  pi_capabilities :: protocol_capabilities_v4
  pi_limits :: protocol_limits_v4

definition default_limits_v4 :: protocol_limits_v4 where
  "default_limits_v4 = \<lparr>pl_chunk_size = CHUNK_SIZE_V4, pl_max_chunks_per_content = MAX_CHUNKS_PER_CONTENT_V4,
     pl_max_threads_per_revision = 100000, pl_max_object_references = 500000,
     pl_max_structured_object_bytes = 16 * 1024 * 1024\<rparr>"

definition protocol_info_v4 :: "string \<Rightarrow> protocol_info_response_v4" where
  "protocol_info_v4 version =
     \<lparr>pi_service = ''codex-session-sync'', pi_version = version, pi_protocol_version = 4, pi_storage_protocol_version = 4,
      pi_normalization_schema_version = NORMALIZATION_SCHEMA_VERSION_V4,
      pi_capabilities = \<lparr>pc_namespaces = True, pc_immutable_objects = True, pc_revision_roots = True,
        pc_chunk_manifests = True, pc_history_epochs = True, pc_gc = True\<rparr>,
      pi_limits = default_limits_v4\<rparr>"

section \<open>Revision manifests\<close>

datatype revision_validation_error =
    UnsupportedRevisionSchema u32
  | InvalidNamespaceId string
  | InvalidParentRevision string
  | InvalidExpectedHead string
  | InvalidRevisionId string
  | InvalidCreatedAt string
  | EmptyThreadId
  | DuplicateThreadId string
  | UnsupportedThreadSchema string u32
  | InvalidObjectHash string string string
  | EmptyObjectMediaType string string
  | RevisionIdMismatch string string
  | ExpectedHeadParentMismatch "string option" "string option"

record revision_payload =
  py_schema_version :: u32
  py_namespace_id :: uuid
  py_parent_revision :: "string option"
  py_created_at :: string
  py_threads :: "thread_bundle list"
  py_warning_count :: nat

record revision_manifest =
  ma_revision_id :: string
  ma_payload :: revision_payload

record commit_revision_request =
  cr_expected_head :: "string option"
  cr_revision :: revision_manifest

record commit_revision_root_request =
  cq_expected_head :: "string option"
  cq_expected_namespace_epoch :: u64
  cq_revision_root_sha256 :: string

definition REVISION_SCHEMA_VERSION :: u32 where "REVISION_SCHEMA_VERSION = 1"
definition THREAD_BUNDLE_SCHEMA_VERSION :: u32 where "THREAD_BUNDLE_SCHEMA_VERSION = 1"

definition validate_content_object :: "thread_bundle \<Rightarrow> string \<Rightarrow> content_object \<Rightarrow> revision_validation_error + unit" where
  "validate_content_object t object_kind obj =
     bindr (map_err (\<lambda>_. InvalidObjectHash (thread_id t) object_kind (co_sha256 obj)) (validate_sha256 (co_sha256 obj))) (\<lambda>_.
       ensure (trim (co_media_type obj) \<noteq> []) (EmptyObjectMediaType (thread_id t) object_kind))"

definition validate_thread :: "(nat \<Rightarrow> string) \<Rightarrow> thread_bundle \<Rightarrow> revision_validation_error + unit" where
  "validate_thread nat_text t =
     bindr (ensure (trim (thread_id t) \<noteq> []) EmptyThreadId) (\<lambda>_.
     bindr (ensure (tb_schema_version t = THREAD_BUNDLE_SCHEMA_VERSION) (UnsupportedThreadSchema (thread_id t) (tb_schema_version t))) (\<lambda>_.
     bindr (validate_content_object t ''rollout'' (rollout t)) (\<lambda>_.
       foldr_res (\<lambda>(index, attachment) _. validate_content_object t (''attachment['' @ nat_text index @ '']'') attachment)
         (zip [0..<length (attachments t)] (attachments t)) ())))"

definition validate_payload_thread ::
  "(nat \<Rightarrow> string) \<Rightarrow> thread_bundle \<Rightarrow> string list \<Rightarrow> revision_validation_error + string list" where
  "validate_payload_thread nat_text t thread_ids =
     bindr (validate_thread nat_text t) (\<lambda>_.
     bindr (ensure (thread_id t \<notin> set thread_ids) (DuplicateThreadId (thread_id t))) (\<lambda>_.
       Inr (thread_ids @ [thread_id t])))"

definition validate_payload ::
  "(uuid \<Rightarrow> string) \<Rightarrow> (nat \<Rightarrow> string) \<Rightarrow> (string \<Rightarrow> bool) \<Rightarrow> revision_payload \<Rightarrow> revision_validation_error + unit" where
  "validate_payload uuid_str nat_text is_rfc3339 p =
     bindr (ensure (py_schema_version p = REVISION_SCHEMA_VERSION) (UnsupportedRevisionSchema (py_schema_version p))) (\<lambda>_.
     bindr (ensure (uuid_version (py_namespace_id p) = 7) (InvalidNamespaceId (uuid_str (py_namespace_id p)))) (\<lambda>_.
     bindr (case py_parent_revision p of None \<Rightarrow> Inr ()
              | Some parent \<Rightarrow> map_err (\<lambda>_. InvalidParentRevision parent) (validate_sha256 parent)) (\<lambda>_.
     bindr (ensure (is_rfc3339 (py_created_at p)) (InvalidCreatedAt (py_created_at p))) (\<lambda>_.
     bindr (foldr_res (validate_payload_thread nat_text) (py_threads p) []) (\<lambda>_.
       Inr ())))))"

definition normalized_payload ::
  "(uuid \<Rightarrow> string) \<Rightarrow> (nat \<Rightarrow> string) \<Rightarrow> (string \<Rightarrow> bool) \<Rightarrow> revision_payload \<Rightarrow> revision_validation_error + revision_payload" where
  "normalized_payload uuid_str nat_text is_rfc3339 p =
     bindr (validate_payload uuid_str nat_text is_rfc3339 p) (\<lambda>_.
       Inr (p\<lparr>py_threads := sort_key thread_id (py_threads p)\<rparr>))"

text \<open>The derived serializer of \<open>RevisionPayload\<close>, members in declaration order.\<close>

definition payload_json :: "(uuid \<Rightarrow> string) \<Rightarrow> revision_payload \<Rightarrow> json" where
  "payload_json uuid_str p = JObject
     [(''schemaVersion'', JNumber (PosInt (ucast (py_schema_version p)))),
      (''namespaceId'', JString (uuid_str (py_namespace_id p))),
      (''parentRevision'', json_option JString (py_parent_revision p)),
      (''createdAt'', JString (py_created_at p)),
      (''threads'', JArray (map thread_json (py_threads p))),
      (''warningCount'', JNumber (PosInt (of_nat (py_warning_count p))))]"

definition canonical_revision_json ::
  "json_lib \<Rightarrow> (uuid \<Rightarrow> string) \<Rightarrow> (nat \<Rightarrow> string) \<Rightarrow> (string \<Rightarrow> bool) \<Rightarrow> revision_payload \<Rightarrow> revision_validation_error + bytes" where
  "canonical_revision_json J uuid_str nat_text is_rfc3339 p =
     bindr (normalized_payload uuid_str nat_text is_rfc3339 p) (\<lambda>n. Inr (write_canonical_json J (payload_json uuid_str n)))"

definition payload_revision_id ::
  "json_lib \<Rightarrow> (bytes \<Rightarrow> string) \<Rightarrow> (uuid \<Rightarrow> string) \<Rightarrow> (nat \<Rightarrow> string) \<Rightarrow> (string \<Rightarrow> bool) \<Rightarrow> revision_payload \<Rightarrow>
     revision_validation_error + string" where
  "payload_revision_id J H uuid_str nat_text is_rfc3339 p =
     bindr (canonical_revision_json J uuid_str nat_text is_rfc3339 p) (\<lambda>canonical. Inr (''sha256:'' @ H canonical))"

definition manifest_from_payload ::
  "json_lib \<Rightarrow> (bytes \<Rightarrow> string) \<Rightarrow> (uuid \<Rightarrow> string) \<Rightarrow> (nat \<Rightarrow> string) \<Rightarrow> (string \<Rightarrow> bool) \<Rightarrow> revision_payload \<Rightarrow>
     revision_validation_error + revision_manifest" where
  "manifest_from_payload J H uuid_str nat_text is_rfc3339 p =
     bindr (payload_revision_id J H uuid_str nat_text is_rfc3339 p) (\<lambda>rid. Inr \<lparr>ma_revision_id = rid, ma_payload = p\<rparr>)"

definition validate_manifest ::
  "json_lib \<Rightarrow> (bytes \<Rightarrow> string) \<Rightarrow> (uuid \<Rightarrow> string) \<Rightarrow> (nat \<Rightarrow> string) \<Rightarrow> (string \<Rightarrow> bool) \<Rightarrow> revision_manifest \<Rightarrow>
     revision_validation_error + unit" where
  "validate_manifest J H uuid_str nat_text is_rfc3339 m =
     bindr (map_err (\<lambda>_. InvalidRevisionId (ma_revision_id m)) (validate_sha256 (ma_revision_id m))) (\<lambda>_.
     bindr (payload_revision_id J H uuid_str nat_text is_rfc3339 (ma_payload m)) (\<lambda>actual.
       ensure (actual = ma_revision_id m) (RevisionIdMismatch (ma_revision_id m) actual)))"

definition validate_commit_request ::
  "json_lib \<Rightarrow> (bytes \<Rightarrow> string) \<Rightarrow> (uuid \<Rightarrow> string) \<Rightarrow> (nat \<Rightarrow> string) \<Rightarrow> (string \<Rightarrow> bool) \<Rightarrow> commit_revision_request \<Rightarrow>
     revision_validation_error + unit" where
  "validate_commit_request J H uuid_str nat_text is_rfc3339 r =
     bindr (case cr_expected_head r of None \<Rightarrow> Inr ()
              | Some head \<Rightarrow> map_err (\<lambda>_. InvalidExpectedHead head) (validate_sha256 head)) (\<lambda>_.
     bindr (validate_manifest J H uuid_str nat_text is_rfc3339 (cr_revision r)) (\<lambda>_.
       ensure (cr_expected_head r = py_parent_revision (ma_payload (cr_revision r)))
         (ExpectedHeadParentMismatch (cr_expected_head r) (py_parent_revision (ma_payload (cr_revision r))))))"

definition validate_commit_root_request :: "commit_revision_root_request \<Rightarrow> revision_validation_error + unit" where
  "validate_commit_root_request r =
     bindr (case cq_expected_head r of None \<Rightarrow> Inr ()
              | Some head \<Rightarrow> map_err (\<lambda>_. InvalidExpectedHead head) (validate_sha256 head)) (\<lambda>_.
       map_err (\<lambda>_. InvalidRevisionId (cq_revision_root_sha256 r)) (validate_sha256 (cq_revision_root_sha256 r)))"

section \<open>The metadata of a manifest\<close>

definition MAX_REVISION_OBJECTS :: nat where "MAX_REVISION_OBJECTS = 10000"
definition MAX_REVISION_OBJECT_REFERENCES :: nat where "MAX_REVISION_OBJECT_REFERENCES = 20000"

definition object_length_step ::
  "string \<Rightarrow> nat \<times> content_object \<Rightarrow> (string, u64) btree_map \<Rightarrow> metadata_error + (string, u64) btree_map" where
  "object_length_step rid x lengths =
     bindr (ensure (\<not> fst x \<ge> MAX_REVISION_OBJECT_REFERENCES) (TooManyObjectReferences MAX_REVISION_OBJECT_REFERENCES)) (\<lambda>_.
     case bt_get lengths (co_sha256 (snd x)) of
       Some existing \<Rightarrow> if existing \<noteq> co_byte_length (snd x) then Inl (conflict rid) else Inr lengths
     | None \<Rightarrow>
         if length lengths \<ge> MAX_REVISION_OBJECTS then Inl (TooManyObjects MAX_REVISION_OBJECTS)
         else Inr (bt_insert (co_sha256 (snd x)) (co_byte_length (snd x)) lengths))"

definition from_manifest ::
  "json_lib \<Rightarrow> (bytes \<Rightarrow> string) \<Rightarrow> (uuid \<Rightarrow> string) \<Rightarrow> (nat \<Rightarrow> string) \<Rightarrow> (string \<Rightarrow> bool) \<Rightarrow>
     (revision_validation_error \<Rightarrow> string) \<Rightarrow> revision_manifest \<Rightarrow> metadata_error + new_revision_metadata" where
  "from_manifest J H uuid_str nat_text is_rfc3339 show_error m =
     (let p = ma_payload m; references = concat (map (\<lambda>t. rollout t # attachments t) (py_threads p)) in
      bindr (foldr_res (object_length_step (ma_revision_id m)) (zip [0..<length references] references) []) (\<lambda>lengths.
      bindr (map_err (RevisionValidation \<circ> show_error) (validate_manifest J H uuid_str nat_text is_rfc3339 m)) (\<lambda>_.
      bindr (map_err (RevisionValidation \<circ> show_error) (canonical_revision_json J uuid_str nat_text is_rfc3339 p)) (\<lambda>canonical.
        Inr \<lparr>nm_id = ma_revision_id m, nm_namespace = py_namespace_id p, nm_parent = py_parent_revision p,
          nm_created_at = py_created_at p, nm_manifest_bytes = of_nat (length canonical),
          nm_thread_count = of_nat (length (py_threads p)),
          nm_objects = map (\<lambda>(h, n). \<lparr>ob_sha256 = h, ob_byte_length = n\<rparr>) lengths,
          nm_object_count_override = None, nm_total_bytes_override = None,
          nm_root_schema_version = REVISION_ROOT_V3_SCHEMA_VERSION\<rparr>))))"

end
