(* ===== verification/ServerApi.thy ===== *)
theory ServerApi
  imports ServerStore Protocol
begin

text \<open>
  The request handlers of the sync server (apps/sync-server/src/api.rs, error.rs): a server is its
  disk and its database; a handler makes one file-system or database call after another and stops at
  the first error, keeping what the calls before it did. The environment of a run decides which
  calls fail and what the clock, the identifier source and the parsers of the libraries return. The
  handlers are modelled from their parsed arguments on, messages without their formatted numbers, one request at a time (the \<open>gc_gate\<close> lets
  no garbage collection run beside another request); routing, JSON extraction and response headers
  are axum's.
\<close>

section \<open>Errors\<close>

datatype status_code = BadRequest | PayloadTooLarge | NotFoundStatus | Conflict | UnprocessableEntity | InternalServerError

datatype api_error_code =
    InvalidRequest | InvalidDigestCode | HashMismatchCode | LengthMismatchCode | ObjectTooLargeCode
  | ObjectNotFoundCode | MissingObjects | NamespaceNotFound | RevisionNotFound | HeadMismatchCode | InternalError

record http_error =
  he_status :: status_code
  he_code :: api_error_code
  he_message :: string
  he_current_head :: "string option"
  he_missing_objects :: "string list"

definition new_error :: "status_code \<Rightarrow> api_error_code \<Rightarrow> string \<Rightarrow> http_error" where
  "new_error status code message =
     \<lparr>he_status = status, he_code = code, he_message = message, he_current_head = None, he_missing_objects = []\<rparr>"

definition invalid_request :: "string \<Rightarrow> http_error" where
  "invalid_request = new_error BadRequest InvalidRequest"

definition invalid_digest :: "string \<Rightarrow> http_error" where
  "invalid_digest = new_error BadRequest InvalidDigestCode"

definition payload_too_large :: "string \<Rightarrow> http_error" where
  "payload_too_large = new_error PayloadTooLarge ObjectTooLargeCode"

definition missing_objects_error :: "string list \<Rightarrow> http_error" where
  "missing_objects_error missing =
     (new_error UnprocessableEntity MissingObjects ''revision references objects that are not present'')\<lparr>he_missing_objects := missing\<rparr>"

definition internal :: http_error where
  "internal = new_error InternalServerError InternalError ''internal server error''"

fun of_metadata_error :: "metadata_error \<Rightarrow> http_error" where
  "of_metadata_error (NotFound kind _) =
     (if kind = ''namespace'' then new_error NotFoundStatus NamespaceNotFound ''namespace not found''
      else if kind = ''revision'' then new_error NotFoundStatus RevisionNotFound ''revision not found''
      else new_error NotFoundStatus InvalidRequest ''resource not found'')"
| "of_metadata_error (HeadMismatch current) =
     (new_error Conflict HeadMismatchCode ''namespace head changed since the client last synchronized'')\<lparr>he_current_head := current\<rparr>"
| "of_metadata_error (EpochMismatch _) = new_error Conflict HeadMismatchCode ''namespace epoch changed''"
| "of_metadata_error (RevisionConflict _) = new_error Conflict InvalidRequest ''revision conflicts with immutable server metadata''"
| "of_metadata_error (TooManyObjects _) = invalid_request ''revision must reference fewer unique objects''"
| "of_metadata_error (TooManyObjectReferences _) = invalid_request ''revision must contain fewer object references''"
| "of_metadata_error InvalidName = invalid_request ''displayName must contain 1 to 128 non-control characters''"
| "of_metadata_error (RevisionValidation m) = invalid_request m"
| "of_metadata_error (UnsupportedSchema _) = internal"
| "of_metadata_error (SqliteError _) = internal"

text \<open>\<open>MetadataError::to_string\<close>.\<close>

fun show_metadata_error :: "metadata_error \<Rightarrow> string" where
  "show_metadata_error (NotFound kind name) = kind @ '' not found: '' @ name"
| "show_metadata_error (HeadMismatch current) =
     ''namespace head mismatch; current head is '' @ (case current of None \<Rightarrow> ''None'' | Some h \<Rightarrow> ''Some('' @ h @ '')'')"
| "show_metadata_error (EpochMismatch _) = ''namespace epoch mismatch''"
| "show_metadata_error (RevisionConflict rid) = ''revision conflicts with immutable metadata: '' @ rid"
| "show_metadata_error (TooManyObjects _) = ''revision references too many unique objects''"
| "show_metadata_error (TooManyObjectReferences _) = ''revision contains too many object references''"
| "show_metadata_error InvalidName = ''namespace display name must contain 1 to 128 non-control characters''"
| "show_metadata_error (RevisionValidation m) = m"
| "show_metadata_error (UnsupportedSchema _) = ''unsupported metadata schema version''"
| "show_metadata_error (SqliteError m) = m"

fun of_store_error :: "object_store_error \<Rightarrow> http_error" where
  "of_store_error (InvalidDigest _) = invalid_digest ''invalid SHA-256 object identifier''"
| "of_store_error (Stream _) = invalid_request ''request body stream failed''"
| "of_store_error (ObjectTooLarge _ _) = payload_too_large ''object exceeds the configured limit''"
| "of_store_error (LengthMismatch _ _) = new_error UnprocessableEntity LengthMismatchCode ''object length mismatch''"
| "of_store_error (HashMismatch _ _) = new_error UnprocessableEntity HashMismatchCode ''object hash mismatch''"
| "of_store_error (ObjectNotFound _) = new_error NotFoundStatus ObjectNotFoundCode ''object not found''"
| "of_store_error (Io _ _ _) = internal"

section \<open>The server and its calls\<close>

record server =
  sv_disk :: disk
  sv_db :: server_db
  sv_calls :: nat

record server_env =
  se_faults :: faults
  se_request :: "nat \<Rightarrow> request_env"
  se_database_fault :: "nat \<Rightarrow> string option"
  se_json :: json_lib
  se_parsers :: parsers
  se_hash :: "bytes \<Rightarrow> string"
  se_uuid_text :: "uuid \<Rightarrow> string"
  se_temp_name :: "nat \<Rightarrow> string"

record app_state =
  st_typed_objects :: "storage_object_kind_v3 \<Rightarrow> object_store option"
  st_data_dir :: path

type_synonym 'a srv = "server_env \<Rightarrow> server \<Rightarrow> (http_error + 'a) \<times> server"

definition return_sv :: "'a \<Rightarrow> 'a srv" where
  "return_sv a E s = (Inr a, s)"

definition fail_sv :: "http_error \<Rightarrow> 'a srv" where
  "fail_sv e E s = (Inl e, s)"

definition bind_sv :: "'a srv \<Rightarrow> ('a \<Rightarrow> 'b srv) \<Rightarrow> 'b srv" where
  "bind_sv m f E s = (case m E s of (Inl e, s') \<Rightarrow> (Inl e, s') | (Inr a, s') \<Rightarrow> f a E s')"

definition ensure_sv :: "bool \<Rightarrow> http_error \<Rightarrow> unit srv" where
  "ensure_sv b e = (if b then return_sv () else fail_sv e)"

definition lift_sv :: "http_error + 'a \<Rightarrow> 'a srv" where
  "lift_sv r = (case r of Inl e \<Rightarrow> fail_sv e | Inr a \<Rightarrow> return_sv a)"

definition store_sv :: "'a store_io \<Rightarrow> 'a srv" where
  "store_sv m E s =
     (case m (se_faults E) (sv_disk s) of
        (Inl e, d) \<Rightarrow> (Inl internal, s\<lparr>sv_disk := d\<rparr>)
      | (Inr (Inl e), d) \<Rightarrow> (Inl (of_store_error e), s\<lparr>sv_disk := d\<rparr>)
      | (Inr (Inr a), d) \<Rightarrow> (Inr a, s\<lparr>sv_disk := d\<rparr>))"

text \<open>A call of the file system made by the handler itself, with its own error.\<close>

definition io_sv :: "(string \<Rightarrow> http_error) \<Rightarrow> 'a io \<Rightarrow> 'a srv" where
  "io_sv err m E s =
     (case m (se_faults E) (sv_disk s) of
        (Inl e, d) \<Rightarrow> (Inl (err e), s\<lparr>sv_disk := d\<rparr>)
      | (Inr a, d) \<Rightarrow> (Inr a, s\<lparr>sv_disk := d\<rparr>))"

definition metadata_sv :: "(request_env \<Rightarrow> 'a handler) \<Rightarrow> 'a srv" where
  "metadata_sv h E s =
     (let s' = s\<lparr>sv_calls := Suc (sv_calls s)\<rparr> in
      case se_database_fault E (sv_calls s) of
        Some message \<Rightarrow> (Inl (of_metadata_error (SqliteError message)), s')
      | None \<Rightarrow> (case h (se_request E (sv_calls s)) (sv_db s) of
            Inl e \<Rightarrow> (Inl (of_metadata_error e), s')
          | Inr (a, db) \<Rightarrow> (Inr a, s'\<lparr>sv_db := db\<rparr>)))"

definition query_sv :: "(request_env \<Rightarrow> server_db \<Rightarrow> metadata_error + 'a) \<Rightarrow> 'a srv" where
  "query_sv q = metadata_sv (\<lambda>R db. bindr (q R db) (\<lambda>a. Inr (a, db)))"

fun foreach_sv :: "('a \<Rightarrow> 's \<Rightarrow> 's srv) \<Rightarrow> 'a list \<Rightarrow> 's \<Rightarrow> 's srv" where
  "foreach_sv f [] acc = return_sv acc"
| "foreach_sv f (x # xs) acc = bind_sv (f x acc) (foreach_sv f xs)"

section \<open>Kinds and stores\<close>

definition ALL_kinds_v3 :: "storage_object_kind_v3 list" where
  "ALL_kinds_v3 = [Whole3, Chunk3, ChunkManifest3, Thread3, RevisionRoot3]"

fun directory_v3 :: "storage_object_kind_v3 \<Rightarrow> string" where
  "directory_v3 Whole3 = ''whole''"
| "directory_v3 Chunk3 = ''chunks''"
| "directory_v3 ChunkManifest3 = ''chunk-manifests''"
| "directory_v3 Thread3 = ''threads''"
| "directory_v3 RevisionRoot3 = ''revision-roots''"

fun max_bytes_v3 :: "storage_object_kind_v3 \<Rightarrow> u64" where
  "max_bytes_v3 Chunk3 = 8 * 1024 * 1024"
| "max_bytes_v3 ChunkManifest3 = 16 * 1024 * 1024"
| "max_bytes_v3 Thread3 = 16 * 1024 * 1024"
| "max_bytes_v3 RevisionRoot3 = 16 * 1024 * 1024"
| "max_bytes_v3 Whole3 = 64 * 1024 * 1024 * 1024"

definition typed_store :: "app_state \<Rightarrow> storage_object_kind_v3 \<Rightarrow> object_store srv" where
  "typed_store state kind =
     (case st_typed_objects state kind of
        None \<Rightarrow> fail_sv (invalid_request ''unsupported storage object kind'')
      | Some st \<Rightarrow> return_sv st)"

definition object_id_from_path :: "string \<Rightarrow> http_error + string" where
  "object_id_from_path digest =
     (let sha256 = ''sha256:'' @ digest in
      bindr (map_err (\<lambda>_. invalid_digest ''invalid SHA-256 digest'') (validate_sha256 sha256)) (\<lambda>_. Inr sha256))"

definition parse_object_kind :: "string \<Rightarrow> http_error + storage_object_kind_v3" where
  "parse_object_kind value' = ok_or (invalid_request ''unsupported storage object kind'') (parse_kind_v3 value')"

section \<open>Objects\<close>

record put_object_response =
  po_sha256 :: string
  po_byte_length :: u64
  po_created :: bool

definition put_typed_object ::
  "app_state \<Rightarrow> string \<Rightarrow> string \<Rightarrow> http_error + u64 \<Rightarrow> (string + bytes) list \<Rightarrow> put_object_response srv" where
  "put_typed_object state kind_text digest content_length body =
     bind_sv (lift_sv (parse_object_kind kind_text)) (\<lambda>kind.
     bind_sv (lift_sv (object_id_from_path digest)) (\<lambda>sha256.
     bind_sv (lift_sv content_length) (\<lambda>expected_length.
     bind_sv (ensure_sv (\<not> expected_length > max_bytes_v3 kind) (payload_too_large ''typed object exceeds its kind limit'')) (\<lambda>_.
     bind_sv (typed_store state kind) (\<lambda>st.
     bind_sv (\<lambda>E. store_sv (put_stream (se_hash E) (se_temp_name E) st sha256 expected_length body) E) (\<lambda>result.
     bind_sv (metadata_sv (\<lambda>R. record_storage_object R \<lparr>ref3_kind = kind, ref3_sha256 = sha256, ref3_byte_length = expected_length\<rparr>)) (\<lambda>_.
       return_sv \<lparr>po_sha256 = sha256, po_byte_length = expected_length, po_created = (result = ObjectCreated)\<rparr>)))))))"

definition get_typed_object :: "app_state \<Rightarrow> string \<Rightarrow> string \<Rightarrow> object_download srv" where
  "get_typed_object state kind_text digest =
     bind_sv (lift_sv (parse_object_kind kind_text)) (\<lambda>kind.
     bind_sv (lift_sv (object_id_from_path digest)) (\<lambda>sha256.
     bind_sv (typed_store state kind) (\<lambda>st.
       store_sv (open_download st sha256))))"

definition MAX_MISSING_OBJECTS :: nat where "MAX_MISSING_OBJECTS = 10000"

definition missing_unique ::
  "storage_object_ref_v3 \<Rightarrow> (nat \<times> string, storage_object_ref_v3) btree_map \<Rightarrow>
     http_error + (nat \<times> string, storage_object_ref_v3) btree_map" where
  "missing_unique obj unique =
     bindr (ensure (\<not> ref3_byte_length obj > max_bytes_v3 (ref3_kind obj)) (invalid_request ''typed object exceeds its kind limit'')) (\<lambda>_.
     let key = (kind_v3_index (ref3_kind obj), ref3_sha256 obj) in
     bindr (case bt_get unique key of None \<Rightarrow> Inr ()
              | Some existing \<Rightarrow> ensure (ref3_byte_length existing = ref3_byte_length obj)
                  (invalid_request ''the same typed object cannot have different byte lengths'')) (\<lambda>_.
       Inr (bt_insert key obj unique)))"

definition missing_typed_step ::
  "app_state \<Rightarrow> storage_object_ref_v3 \<Rightarrow> storage_object_ref_v3 list \<Rightarrow> storage_object_ref_v3 list srv" where
  "missing_typed_step state obj missing =
     bind_sv (typed_store state (ref3_kind obj)) (\<lambda>st.
     bind_sv (store_sv (missing_objects st [\<lparr>ob_sha256 = ref3_sha256 obj, ob_byte_length = ref3_byte_length obj\<rparr>])) (\<lambda>absent.
       return_sv (if absent \<noteq> [] then missing @ [obj] else missing)))"

definition missing_typed_objects :: "app_state \<Rightarrow> storage_object_ref_v3 list \<Rightarrow> storage_object_ref_v3 list srv" where
  "missing_typed_objects state objects =
     bind_sv (ensure_sv (\<not> length objects > MAX_MISSING_OBJECTS) (invalid_request ''objects must contain no more than 10000 entries'')) (\<lambda>_.
     bind_sv (lift_sv (foldr_res missing_unique objects [])) (\<lambda>unique.
       foreach_sv (missing_typed_step state) (bt_values unique) []))"

definition ensure_typed_object :: "app_state \<Rightarrow> storage_object_ref_v3 \<Rightarrow> unit srv" where
  "ensure_typed_object state obj =
     bind_sv (typed_store state (ref3_kind obj)) (\<lambda>st.
     bind_sv (store_sv (missing_objects st [\<lparr>ob_sha256 = ref3_sha256 obj, ob_byte_length = ref3_byte_length obj\<rparr>])) (\<lambda>missing.
       ensure_sv (missing = []) (missing_objects_error missing)))"

definition read_typed_json ::
  "app_state \<Rightarrow> (server_env \<Rightarrow> bytes \<Rightarrow> 'a option) \<Rightarrow> (server_env \<Rightarrow> 'a \<Rightarrow> json) \<Rightarrow> storage_object_kind_v3 \<Rightarrow> string \<Rightarrow>
     ('a \<times> storage_object_ref_v3) srv" where
  "read_typed_json state parse to_json kind sha256 =
     bind_sv (typed_store state kind) (\<lambda>st.
     bind_sv (store_sv (open_download st sha256)) (\<lambda>download.
     bind_sv (io_sv invalid_request (read_io (\<lambda>_. Inr ()))) (\<lambda>_ E.
       let bs = od_file download in
       bind_sv (ensure_sv (digest_bytes_v4 (se_hash E) bs = sha256) (invalid_request ''typed structured object hash mismatch'')) (\<lambda>_.
       case parse E bs of
         None \<Rightarrow> fail_sv (invalid_request ''invalid JSON'')
       | Some parsed \<Rightarrow>
           bind_sv (ensure_sv (write_canonical_json (se_json E) (to_json E parsed) = bs)
                      (invalid_request ''typed structured object is not canonical JSON'')) (\<lambda>_.
             return_sv (parsed, \<lparr>ref3_kind = kind, ref3_sha256 = sha256, ref3_byte_length = of_nat (length bs)\<rparr>))) E)))"

section \<open>Revision graphs\<close>

definition chunk_ref :: "chunk_descriptor_v4 \<Rightarrow> storage_object_ref_v3" where
  "chunk_ref c = \<lparr>ref3_kind = Chunk3, ref3_sha256 = chunk_sha256 c, ref3_byte_length = chunk_byte_length c\<rparr>"

definition validate_content_graph_v4 :: "app_state \<Rightarrow> content_ref_v4 \<Rightarrow> storage_object_ref_v3 list srv" where
  "validate_content_graph_v4 state content =
     (case storage content of
        WholeRef object_sha256 \<Rightarrow>
          (let obj = \<lparr>ref3_kind = Whole3, ref3_sha256 = object_sha256, ref3_byte_length = content_byte_length content\<rparr> in
           bind_sv (ensure_typed_object state obj) (\<lambda>_. return_sv [obj]))
      | ChunkedRef manifest_sha256 \<Rightarrow>
          bind_sv (read_typed_json state (\<lambda>E. parse_manifest (se_parsers E)) (\<lambda>_. chunk_manifest_json) ChunkManifest3 manifest_sha256)
            (\<lambda>(manifest, manifest_object).
          bind_sv (lift_sv (map_err invalid_request (validate_chunk_manifest_v4 manifest))) (\<lambda>_.
          bind_sv (ensure_sv (\<not> (cm_logical_sha256 manifest \<noteq> logical_sha256 content
                                  \<or> cm_byte_length manifest \<noteq> content_byte_length content))
                     (invalid_request ''v4 chunk manifest identity mismatch'')) (\<lambda>_.
          let chunks = map chunk_ref (cm_chunks manifest) in
          bind_sv (foreach_sv (\<lambda>chunk _. ensure_typed_object state chunk) chunks ()) (\<lambda>_.
          bind_sv (metadata_sv (\<lambda>R. replace_object_edges manifest_object chunks)) (\<lambda>_.
            return_sv (manifest_object # chunks)))))))"

type_synonym object_graph = "(nat \<times> string, storage_object_ref_v3) btree_map"

definition graph_insert :: "storage_object_ref_v3 \<Rightarrow> object_graph \<Rightarrow> object_graph" where
  "graph_insert obj graph = bt_insert (kind_v3_index (ref3_kind obj), ref3_sha256 obj) obj graph"

definition content_step ::
  "app_state \<Rightarrow> content_ref_v4 \<Rightarrow> storage_object_ref_v3 list \<times> object_graph \<Rightarrow> (storage_object_ref_v3 list \<times> object_graph) srv" where
  "content_step state content acc =
     bind_sv (validate_content_graph_v4 state content) (\<lambda>targets.
       return_sv (fst acc @ targets, fold graph_insert targets (snd acc)))"

definition thread_step ::
  "app_state \<Rightarrow> thread_ref_v4 \<Rightarrow> storage_object_ref_v3 list \<times> object_graph \<Rightarrow> (storage_object_ref_v3 list \<times> object_graph) srv" where
  "thread_step state thread_ref acc =
     bind_sv (read_typed_json state (\<lambda>E. parse_descriptor (se_parsers E)) (\<lambda>_. descriptor_json) Thread3 (tref_descriptor_sha256 thread_ref))
       (\<lambda>(descriptor, descriptor_object).
     bind_sv (lift_sv (map_err invalid_request (validate_descriptor descriptor))) (\<lambda>_.
     bind_sv (ensure_sv (sd_thread_id descriptor = tref_thread_id thread_ref)
                (invalid_request ''v4 thread reference ID does not match descriptor'')) (\<lambda>_.
     bind_sv (foreach_sv (content_step state) (sd_rollout descriptor # sd_attachments descriptor)
                ([], graph_insert descriptor_object (snd acc))) (\<lambda>(descriptor_targets, graph).
     bind_sv (metadata_sv (\<lambda>R. replace_object_edges descriptor_object descriptor_targets)) (\<lambda>_.
       return_sv (fst acc @ [descriptor_object], graph))))))"

definition validate_revision_graph_v4 :: "app_state \<Rightarrow> string \<Rightarrow> (revision_root_v4 \<times> storage_object_ref_v3 list) srv" where
  "validate_revision_graph_v4 state rid =
     bind_sv (read_typed_json state (\<lambda>E. parse_revision_root (se_parsers E)) (\<lambda>E. revision_root_json (se_uuid_text E)) RevisionRoot3 rid)
       (\<lambda>(root, root_object).
     bind_sv (lift_sv (map_err invalid_request (validate_revision_root root))) (\<lambda>_.
     bind_sv (\<lambda>E. lift_sv (map_err invalid_request (revision_id (se_json E) (se_hash E) (se_uuid_text E) root)) E) (\<lambda>actual.
     bind_sv (ensure_sv (actual = rid) (invalid_request ''v4 revision root hash is not canonical'')) (\<lambda>_.
     bind_sv (foreach_sv (thread_step state) (rv_threads root) ([], graph_insert root_object [])) (\<lambda>(root_targets, graph).
     bind_sv (metadata_sv (\<lambda>R. replace_object_edges root_object root_targets)) (\<lambda>_.
       return_sv (root, bt_values graph)))))))"

definition sync_revision_graph_directories :: "app_state \<Rightarrow> storage_object_ref_v3 list \<Rightarrow> unit srv" where
  "sync_revision_graph_directories state graph =
     foreach_sv (\<lambda>kind _.
         let digests = map ref3_sha256 (filter (\<lambda>x. ref3_kind x = kind) graph) in
         if digests = [] then return_sv ()
         else bind_sv (typed_store state kind) (\<lambda>st.
              bind_sv (store_sv (sync_object_directories st digests)) (\<lambda>_. return_sv ())))
       ALL_kinds_v3 ()"

record revision_commit_response_v4 =
  re_namespace_id :: uuid
  re_head :: string
  re_created :: bool
  re_namespace_epoch :: u64

fun show_validation_v4 :: "revision_validation_error_v4 \<Rightarrow> string" where
  "show_validation_v4 (InvalidRoot m) = ''invalid v4 revision root: '' @ m"
| "show_validation_v4 (InvalidExpectedHead4 h) = ''invalid v4 expected head: '' @ h"
| "show_validation_v4 (ExpectedHeadParentMismatch4 _ _) = ''expected head must equal revision parent''"
| "show_validation_v4 OverlayNotRemote = ''v4 overlay objects are local-only and cannot be uploaded''"

definition commit_revision_root_v4 ::
  "app_state \<Rightarrow> uuid \<Rightarrow> revision_commit_request_v4 \<Rightarrow> revision_commit_response_v4 srv" where
  "commit_revision_root_v4 state namespace_id payload =
     bind_sv (\<lambda>E. lift_sv (map_err (invalid_request \<circ> show_validation_v4)
                (validate_commit_request_v4 (se_json E) (se_hash E) (se_uuid_text E) payload)) E) (\<lambda>rid.
     bind_sv (ensure_sv (rv_namespace_id (rc_revision payload) = namespace_id)
                (invalid_request ''v4 revision namespaceId must match the namespace route'')) (\<lambda>_.
     bind_sv (validate_revision_graph_v4 state rid) (\<lambda>(root, graph).
     bind_sv (ensure_sv (root = rc_revision payload)
                (invalid_request ''uploaded v4 revision root does not match commit payload'')) (\<lambda>_.
     bind_sv (lift_sv (ok_or (invalid_request ''validated v4 graph has no revision root'')
                (find (\<lambda>x. ref3_kind x = RevisionRoot3) graph))) (\<lambda>root_object.
     bind_sv (sync_revision_graph_directories state graph) (\<lambda>_.
     bind_sv (\<lambda>E. lift_sv (map_err (invalid_request \<circ> show_metadata_error)
                (from_revision_root_v4 (se_json E) (se_hash E) (se_uuid_text E) root (ref3_byte_length root_object) graph)) E) (\<lambda>metadata.
     bind_sv (metadata_sv (\<lambda>R. commit_revision_root R (rc_expected_head payload) (rc_expected_namespace_epoch payload) metadata))
       (\<lambda>(outcome, namespace_epoch).
       return_sv \<lparr>re_namespace_id = namespace_id, re_head = rid, re_created = (outcome = Created),
         re_namespace_epoch = namespace_epoch\<rparr>))))))))"

section \<open>Garbage collection\<close>

definition gc_destination :: "app_state \<Rightarrow> server_env \<Rightarrow> gc_queue_entry \<Rightarrow> http_error + path" where
  "gc_destination state E entry =
     bindr (ok_or (invalid_digest ''invalid queued object digest'') (strip_prefix ''sha256:'' (ref3_sha256 (ge_object entry)))) (\<lambda>digest.
       Inr (st_data_dir state @ [''gc'', se_uuid_text E (ge_operation entry), directory_v3 (ref3_kind (ge_object entry)), digest]))"

definition purge_gc_entry :: "app_state \<Rightarrow> gc_queue_entry \<Rightarrow> unit srv" where
  "purge_gc_entry state entry =
     bind_sv (\<lambda>E. lift_sv (gc_destination state E entry) E) (\<lambda>destination.
     bind_sv (typed_store state (ref3_kind (ge_object entry))) (\<lambda>st.
     bind_sv (store_sv (purge_quarantined st destination (ref3_byte_length (ge_object entry)))) (\<lambda>_.
       metadata_sv (\<lambda>R. mark_gc_entry_purged R (ge_id entry)))))"

definition process_gc_entry :: "app_state \<Rightarrow> gc_queue_entry \<Rightarrow> nat \<times> u64 \<Rightarrow> (nat \<times> u64) srv" where
  "process_gc_entry state entry acc =
     bind_sv (query_sv (\<lambda>R db. Inr (gc_object_is_reachable R (ge_object entry) db))) (\<lambda>reachable.
     if reachable
     then bind_sv (metadata_sv (\<lambda>R. cancel_gc_entry (ge_id entry) ''object became reachable before quarantine'')) (\<lambda>_. return_sv acc)
     else
       bind_sv (\<lambda>E. lift_sv (gc_destination state E entry) E) (\<lambda>destination.
       bind_sv (typed_store state (ref3_kind (ge_object entry))) (\<lambda>st.
       bind_sv (store_sv (quarantine st (ref3_sha256 (ge_object entry)) destination)) (\<lambda>_.
       bind_sv (metadata_sv (\<lambda>R. complete_gc_entry R entry)) (\<lambda>_.
       bind_sv (if ge_delete entry then purge_gc_entry state entry else return_sv ()) (\<lambda>_.
         return_sv (Suc (fst acc), saturating_add (snd acc) (ref3_byte_length (ge_object entry)))))))))"

definition process_gc_entries :: "app_state \<Rightarrow> gc_queue_entry list \<Rightarrow> (nat \<times> u64) srv" where
  "process_gc_entries state entries = foreach_sv (process_gc_entry state) entries (0, 0)"

definition resume_pending_gc :: "app_state \<Rightarrow> unit srv" where
  "resume_pending_gc state =
     bind_sv (query_sv pending_gc_entries) (\<lambda>entries.
     bind_sv (process_gc_entries state entries) (\<lambda>_.
     bind_sv (query_sv quarantined_gc_entries_for_purge) (\<lambda>entries.
       foreach_sv (\<lambda>entry _. purge_gc_entry state entry) entries ())))"

record server_gc_quarantine_response =
  gr_operation_id :: uuid
  gr_quarantined_object_count :: nat
  gr_quarantined_bytes :: u64

definition quarantine_server_gc :: "app_state \<Rightarrow> string \<Rightarrow> server_gc_quarantine_response srv" where
  "quarantine_server_gc state plan_fingerprint =
     bind_sv (lift_sv (map_err (\<lambda>_. invalid_digest ''invalid GC plan fingerprint'') (validate_sha256 plan_fingerprint))) (\<lambda>_.
     bind_sv (\<lambda>E. metadata_sv (\<lambda>R. enqueue_gc (se_json E) (se_hash E) R plan_fingerprint) E) (\<lambda>(operation_id, entries).
     bind_sv (process_gc_entries state entries) (\<lambda>(quarantined_object_count, quarantined_bytes).
       return_sv \<lparr>gr_operation_id = operation_id, gr_quarantined_object_count = quarantined_object_count,
         gr_quarantined_bytes = quarantined_bytes\<rparr>)))"

record purge_history_trash_response =
  ph_purged_operation_count :: nat
  ph_purged_revision_count :: nat
  ph_deleted_object_count :: nat
  ph_reclaimed_bytes :: u64

definition purge_history_trash :: "app_state \<Rightarrow> uuid \<Rightarrow> uuid list \<Rightarrow> bool \<Rightarrow> purge_history_trash_response srv" where
  "purge_history_trash state namespace_id operation_ids purge_all =
     bind_sv (ensure_sv (\<not> (purge_all \<noteq> (operation_ids = [])))
                (invalid_request ''provide operationIds or set purgeAll, but not both'')) (\<lambda>_.
     bind_sv (query_sv (\<lambda>R db. build_history_trash_purge_plan R db namespace_id operation_ids purge_all)) (\<lambda>plan.
     bind_sv (metadata_sv (\<lambda>R. commit_history_trash_purge R namespace_id plan)) (\<lambda>(committed, entries).
     bind_sv (process_gc_entries state entries) (\<lambda>(deleted_object_count, reclaimed_bytes).
       return_sv \<lparr>ph_purged_operation_count = length (hp_operation_ids committed),
         ph_purged_revision_count = hp_revision_count committed,
         ph_deleted_object_count = deleted_object_count, ph_reclaimed_bytes = reclaimed_bytes\<rparr>))))"

section \<open>The other handlers\<close>

definition truncate_history_request ::
  "uuid \<Rightarrow> string option \<Rightarrow> u64 \<Rightarrow> string option \<Rightarrow> trash_row srv" where
  "truncate_history_request namespace_id expected_head expected_epoch new_head =
     bind_sv (lift_sv (case expected_head of None \<Rightarrow> Inr ()
                | Some head \<Rightarrow> map_err (\<lambda>_. invalid_digest ''invalid expected Head'') (validate_sha256 head))) (\<lambda>_.
     bind_sv (lift_sv (case new_head of None \<Rightarrow> Inr ()
                | Some head \<Rightarrow> map_err (\<lambda>_. invalid_digest ''invalid new Head'') (validate_sha256 head))) (\<lambda>_.
       metadata_sv (\<lambda>R. truncate_history R namespace_id expected_head expected_epoch new_head)))"

definition restore_history_request :: "uuid \<Rightarrow> uuid \<Rightarrow> string option \<Rightarrow> u64 \<Rightarrow> trash_row srv" where
  "restore_history_request namespace_id operation_id expected_head expected_epoch =
     bind_sv (lift_sv (case expected_head of None \<Rightarrow> Inr ()
                | Some head \<Rightarrow> map_err (\<lambda>_. invalid_digest ''invalid expected Head'') (validate_sha256 head))) (\<lambda>_.
       metadata_sv (\<lambda>R. restore_history_trash R namespace_id operation_id expected_head expected_epoch))"

definition initialize_store ::
  "path \<Rightarrow> u64 \<Rightarrow> storage_object_kind_v3 \<Rightarrow> (storage_object_kind_v3 \<times> object_store) list \<Rightarrow>
     (storage_object_kind_v3 \<times> object_store) list srv" where
  "initialize_store data_dir max_object_bytes kind stores =
     bind_sv (store_sv (object_store_open (data_dir @ [''typed'', directory_v3 kind])
                (Orderings.min (max_bytes_v3 kind) max_object_bytes))) (\<lambda>st.
       return_sv (stores @ [(kind, st)]))"

definition initialize_state :: "path \<Rightarrow> u64 \<Rightarrow> app_state srv" where
  "initialize_state data_dir max_object_bytes =
     bind_sv (store_sv (create_dir_all_st data_dir)) (\<lambda>_.
     bind_sv (foreach_sv (initialize_store data_dir max_object_bytes) ALL_kinds_v3 []) (\<lambda>stores.
     let state = \<lparr>st_typed_objects = map_of stores, st_data_dir = data_dir\<rparr> in
     bind_sv (resume_pending_gc state) (\<lambda>_. return_sv state)))"

end
