(* ===== verification/ServerCalls.thy ===== *)
theory ServerCalls
  imports ServerApi ServerSteps
begin

text \<open>
  Rules for the server's calls: what a successful run of each combinator says, and preservation of a
  property of the server by a handler whatever call fails.
\<close>

section \<open>Successful runs\<close>

lemma bind_sv_Inr [res_simps]:
  "bind_sv m f E s = (Inr b, s') \<longleftrightarrow> (\<exists>a s1. m E s = (Inr a, s1) \<and> f a E s1 = (Inr b, s'))"
  by (auto simp: bind_sv_def split: prod.splits sum.splits)

lemma bind_sv_run:
  assumes "bind_sv m f E s = (Inr b, s')" obtains a s1 where "m E s = (Inr a, s1)" "f a E s1 = (Inr b, s')"
  using assms by (auto simp: bind_sv_Inr)

lemma return_sv_Inr [res_simps]: "return_sv a E s = (Inr b, s') \<longleftrightarrow> b = a \<and> s' = s"
  by (auto simp: return_sv_def)

lemma fail_sv_Inr [res_simps]: "fail_sv e E s = (Inr b, s') \<longleftrightarrow> False"
  by (simp add: fail_sv_def)

lemma ensure_sv_Inr [res_simps]: "ensure_sv b e E s = (Inr u, s') \<longleftrightarrow> b \<and> s' = s"
  by (auto simp: ensure_sv_def return_sv_def fail_sv_def)

lemma lift_sv_Inr [res_simps]: "lift_sv r E s = (Inr b, s') \<longleftrightarrow> r = Inr b \<and> s' = s"
  by (auto simp: lift_sv_def return_sv_def fail_sv_def split: sum.splits)

lemma store_sv_Inr:
  "store_sv m E s = (Inr b, s') \<longleftrightarrow> (\<exists>d. m (se_faults E) (sv_disk s) = (Inr (Inr b), d) \<and> s' = s\<lparr>sv_disk := d\<rparr>)"
  by (auto simp: store_sv_def split: prod.splits sum.splits)

lemma io_sv_Inr:
  "io_sv err m E s = (Inr b, s') \<longleftrightarrow> (\<exists>d. m (se_faults E) (sv_disk s) = (Inr b, d) \<and> s' = s\<lparr>sv_disk := d\<rparr>)"
  by (auto simp: io_sv_def split: prod.splits sum.splits)

lemma metadata_sv_Inr:
  "metadata_sv h E s = (Inr b, s') \<longleftrightarrow> se_database_fault E (sv_calls s) = None
     \<and> (\<exists>db. h (se_request E (sv_calls s)) (sv_db s) = Inr (b, db) \<and> s' = s\<lparr>sv_calls := Suc (sv_calls s), sv_db := db\<rparr>)"
  by (auto simp: metadata_sv_def Let_def split: option.splits sum.splits prod.splits)

lemma foreach_sv_Cons:
  "foreach_sv f (x # xs) acc E s = (Inr b, s') \<longleftrightarrow> (\<exists>a s1. f x acc E s = (Inr a, s1) \<and> foreach_sv f xs a E s1 = (Inr b, s'))"
  by (simp add: bind_sv_Inr)

lemma bind_st_Inr: "bind_st m f F d = (Inr (Inr b), d') \<longleftrightarrow> (\<exists>a d1. m F d = (Inr (Inr a), d1) \<and> f a F d1 = (Inr (Inr b), d'))"
  by (auto simp: bind_st_def bind_io_def fail_st_def lift_res_def split: prod.splits sum.splits)

lemma return_st_Inr: "return_st a F d = (Inr (Inr b), d') \<longleftrightarrow> b = a \<and> d' = d"
  by (auto simp: return_st_def lift_res_def)

lemma fail_st_Inr: "fail_st e F d = (Inr (Inr b), d') \<longleftrightarrow> False"
  by (simp add: fail_st_def lift_res_def)

lemma ensure_st_Inr: "ensure_st b e F d = (Inr (Inr u), d') \<longleftrightarrow> b \<and> d' = d"
  by (auto simp: ensure_st_def return_st_Inr fail_st_Inr)

lemma call_st_Inr: "call_st op p m F d = (Inr (Inr b), d') \<longleftrightarrow> m F d = (Inr b, d')"
  by (auto simp: call_st_def catch_io_def bind_io_def return_st_def fail_st_def lift_res_def split: prod.splits sum.splits)

lemma object_path_st_Inr: "object_path_st st h F d = (Inr (Inr p), d') \<longleftrightarrow> object_path st h = Inr p \<and> d' = d"
  by (auto simp: object_path_st_def lift_res_def)

lemma try_st_Inr: "try_st m F d = (Inr (Inr r), d') \<longleftrightarrow> m F d = (Inr r, d')"
  by (auto simp: try_st_def bind_io_def return_st_def lift_res_def split: prod.splits sum.splits)

lemmas st_runs = bind_st_Inr return_st_Inr fail_st_Inr ensure_st_Inr call_st_Inr object_path_st_Inr try_st_Inr

lemma read_io_same: "read_io f F d = (Inr a, d') \<Longrightarrow> volume_of d' = volume_of d"
  by (simp add: read_io_run)

section \<open>Preservation\<close>

definition keeps_sv :: "(server \<Rightarrow> bool) \<Rightarrow> 'a srv \<Rightarrow> bool" where
  "keeps_sv I m \<longleftrightarrow> (\<forall>E s. I s \<longrightarrow> I (snd (m E s)))"

named_theorems keeps_sv_rules \<open>preservation of a property of the server\<close>

lemma keeps_return_sv [keeps_sv_rules]: "keeps_sv I (return_sv a)"
  by (simp add: keeps_sv_def return_sv_def)

lemma keeps_fail_sv [keeps_sv_rules]: "keeps_sv I (fail_sv e)"
  by (simp add: keeps_sv_def fail_sv_def)

lemma keeps_ensure_sv [keeps_sv_rules]: "keeps_sv I (ensure_sv b e)"
  by (simp add: ensure_sv_def keeps_return_sv keeps_fail_sv)

lemma keeps_lift_sv [keeps_sv_rules]: "keeps_sv I (lift_sv r)"
  by (simp add: lift_sv_def keeps_return_sv keeps_fail_sv split: sum.splits)

lemma keeps_lift_env [keeps_sv_rules]: "keeps_sv I (\<lambda>E. lift_sv (r E) E)"
  by (simp add: keeps_sv_def lift_sv_def return_sv_def fail_sv_def split: sum.splits)

lemma keeps_bind_sv [keeps_sv_rules]: "keeps_sv I m \<Longrightarrow> (\<And>a. keeps_sv I (f a)) \<Longrightarrow> keeps_sv I (bind_sv m f)"
  unfolding keeps_sv_def bind_sv_def
  by (simp split: prod.splits sum.splits) (metis prod.exhaust_sel snd_conv)

lemma keeps_foreach_sv [keeps_sv_rules]: "(\<And>x acc. x \<in> set xs \<Longrightarrow> keeps_sv I (f x acc)) \<Longrightarrow> keeps_sv I (foreach_sv f xs acc)"
  by (induction xs arbitrary: acc) (auto intro: keeps_sv_rules)

lemma keeps_if_sv [keeps_sv_rules]: "(b \<Longrightarrow> keeps_sv I m) \<Longrightarrow> (\<not> b \<Longrightarrow> keeps_sv I n) \<Longrightarrow> keeps_sv I (if b then m else n)"
  by simp

lemma keeps_typed_store [keeps_sv_rules]: "keeps_sv I (typed_store state kind)"
  by (simp add: typed_store_def keeps_return_sv keeps_fail_sv split: option.splits)

lemma keeps_store_sv:
  assumes "keeps (\<lambda>v. V v) m" and "\<And>s d. I s \<Longrightarrow> V (volume_of d) \<Longrightarrow> I (s\<lparr>sv_disk := d\<rparr>)" and "\<And>s. I s \<Longrightarrow> V (volume_of (sv_disk s))"
  shows "keeps_sv I (store_sv m)"
  unfolding keeps_sv_def
proof (intro allI impI)
  fix E :: server_env and s :: server
  assume i: "I s"
  obtain r d where run: "m (se_faults E) (sv_disk s) = (r, d)" by fastforce
  have "V (volume_of d)" using assms(1) assms(3)[OF i] run unfolding keeps_def by (metis snd_conv)
  from assms(2)[OF i this] show "I (snd (store_sv m E s))"
    by (auto simp: store_sv_def run split: sum.splits)
qed

lemma keeps_metadata_sv:
  assumes "\<And>R s a db. I s \<Longrightarrow> h R (sv_db s) = Inr (a, db) \<Longrightarrow> I (s\<lparr>sv_calls := Suc (sv_calls s), sv_db := db\<rparr>)"
    and "\<And>s. I s \<Longrightarrow> I (s\<lparr>sv_calls := Suc (sv_calls s)\<rparr>)"
  shows "keeps_sv I (metadata_sv h)"
  using assms by (auto simp: keeps_sv_def metadata_sv_def Let_def split: option.splits sum.splits)

lemma keeps_bind_st [keeps_rules]: "keeps V m \<Longrightarrow> (\<And>a. keeps V (f a)) \<Longrightarrow> keeps V (bind_st m f)"
  unfolding bind_st_def by (rule keeps_bind) (auto simp: fail_st_def intro: keeps_rules split: sum.splits)

lemma keeps_small_st [keeps_rules]:
  "keeps V (return_st a)" "keeps V (fail_st e)" "keeps V (ensure_st b e)" "keeps V (object_path_st st h)"
  by (auto simp: return_st_def fail_st_def ensure_st_def object_path_st_def intro: keeps_rules)

lemma keeps_call_st [keeps_rules]: "keeps V m \<Longrightarrow> keeps V (call_st op p m)"
  unfolding call_st_def by (intro keeps_rules)

lemma keeps_try_st [keeps_rules]: "keeps V m \<Longrightarrow> keeps V (try_st m)"
  unfolding try_st_def by (intro keeps_rules)

lemma keeps_foreach_st [keeps_rules]: "(\<And>x s. x \<in> set xs \<Longrightarrow> keeps V (f x s)) \<Longrightarrow> keeps V (foreach_st f xs s)"
  by (induction xs arbitrary: s) (auto intro: keeps_rules)

lemma keeps_entry_case [keeps_rules]:
  "keeps V m \<Longrightarrow> (\<And>b. keeps V (f b)) \<Longrightarrow> keeps V n \<Longrightarrow> keeps V (case x of None \<Rightarrow> n | Some DirEntry \<Rightarrow> m | Some (FileEntry b) \<Rightarrow> f b)"
  by (auto split: option.splits entry.splits)

lemma keeps_file_exists [keeps_rules]: "keeps V (file_exists p)"
  unfolding file_exists_def by (intro keeps_rules)

lemma keeps_sync_directory [keeps_rules]: "keeps V (sync_directory p)"
  unfolding sync_directory_def by (intro keeps_rules)

end
