(* ===== verification/ServerSafety.thy ===== *)
theory ServerSafety
  imports ServerCalls ServerProps
begin

text \<open>
  What garbage collection may touch: the files of objects that an active revision needs stay where
  they are and stay needed, whatever call of the collector fails.
\<close>

section \<open>Typed files\<close>

definition standard_layout :: "app_state \<Rightarrow> bool" where
  "standard_layout state \<longleftrightarrow> (\<forall>k st. st_typed_objects state k = Some st \<longrightarrow>
     os_sha256_dir st = st_data_dir state @ [''typed'', directory_v3 k, ''objects'', ''sha256'']
     \<and> os_tmp_dir st = st_data_dir state @ [''typed'', directory_v3 k, ''objects'', ''tmp''])"

definition typed_path :: "app_state \<Rightarrow> storage_object_kind_v3 \<Rightarrow> string \<Rightarrow> path option" where
  "typed_path state kind sha256 =
     Option.bind (st_typed_objects state kind) (\<lambda>st. case object_path st sha256 of Inl _ \<Rightarrow> None | Inr p \<Rightarrow> Some p)"

definition typed_file :: "app_state \<Rightarrow> volume \<Rightarrow> storage_object_kind_v3 \<Rightarrow> string \<Rightarrow> bytes option" where
  "typed_file state v kind sha256 = Option.bind (typed_path state kind sha256) (file_at v)"

lemma directory_v3_inject: "directory_v3 k = directory_v3 k' \<longleftrightarrow> k = k'"
  by (cases k; cases k') simp_all

lemma wire_name_v3_inject: "wire_name_v3 k = wire_name_v3 k' \<longleftrightarrow> k = k'"
  by (metis parse_wire_name option.inject)

lemma validate_sha256_shape: "validate_sha256 h = Inr u \<Longrightarrow> \<exists>x. h = ''sha256:'' @ x \<and> length x = 64"
  by (auto simp: validate_sha256_def strip_prefix_Some split: option.splits if_splits)

lemma object_path_shape:
  assumes "object_path st h = Inr p"
  shows "\<exists>x. h = ''sha256:'' @ x \<and> length x = 64 \<and> p = os_sha256_dir st @ [take 2 x, drop 2 x]"
proof -
  from assms obtain u where "validate_sha256 h = Inr u" and p: "p = os_sha256_dir st @ [take 2 (drop (length ''sha256:'') h), drop 2 (drop (length ''sha256:'') h)]"
    by (auto simp: object_path_def Let_def bindr_eq_Inr_iff)
  from validate_sha256_shape[OF this(1)] obtain x where "h = ''sha256:'' @ x" "length x = 64" by blast
  with p show ?thesis by simp
qed

lemma typed_path_shape:
  assumes "standard_layout state" and "typed_path state kind h = Some p"
  shows "\<exists>x. h = ''sha256:'' @ x \<and> p = st_data_dir state @ [''typed'', directory_v3 kind, ''objects'', ''sha256'', take 2 x, drop 2 x]"
proof -
  from assms(2) obtain st where "st_typed_objects state kind = Some st" "object_path st h = Inr p"
    unfolding typed_path_def bind_eq_Some_conv by (metis (no_types, lifting) old.sum.simps(5,6) option.distinct(1) option.inject sum.exhaust)
  with assms(1) object_path_shape[of st h p] show ?thesis by (auto simp: standard_layout_def)
qed

lemma typed_path_inject:
  assumes "standard_layout state" and "typed_path state k h = Some p" and "typed_path state k' h' = Some p"
  shows "k' = k \<and> h' = h"
proof -
  from typed_path_shape[OF assms(1,2)] obtain x where x: "h = ''sha256:'' @ x"
    "p = st_data_dir state @ [''typed'', directory_v3 k, ''objects'', ''sha256'', take 2 x, drop 2 x]" by blast
  from typed_path_shape[OF assms(1,3)] obtain y where y: "h' = ''sha256:'' @ y"
    "p = st_data_dir state @ [''typed'', directory_v3 k', ''objects'', ''sha256'', take 2 y, drop 2 y]" by blast
  from x(2) y(2) have "directory_v3 k' = directory_v3 k" "take 2 y = take 2 x" "drop 2 y = drop 2 x" by simp_all
  then have "k' = k" "y = x" by (simp_all add: directory_v3_inject) (metis append_take_drop_id)
  with x(1) y(1) show ?thesis by simp
qed

lemma under_same_length: "under p q \<Longrightarrow> length p = length q \<Longrightarrow> p = q"
  by (auto simp: under_def)

section \<open>What the file operations leave alone\<close>

lemma keeps_create_dirs:
  "keeps (\<lambda>v. entry_at v p = Some (FileEntry b)) (create_dir_all_st q)"
  unfolding create_dir_all_st_def
  by (rule keeps_call_st, rule keeps_create_dir_all) (metis fs_create_dir_all_entry option.distinct(1))

lemma keeps_rename:
  assumes "\<not> under s p" and "\<not> under d p" and "\<not> under d s"
  shows "keeps (\<lambda>v. entry_at v p = Some e) (atomic_io (fs_rename s d))"
proof (rule keeps_atomic)
  fix v v'
  assume v: "entry_at v p = Some e" and r: "fs_rename s d v = Inr v'"
  from assms(3) have "s \<noteq> d" by auto
  with fs_rename_entry[OF r _ assms(3)] assms(1,2) v show "entry_at v' p = Some e" by simp
qed

lemma keeps_bind_path:
  assumes "\<And>p. object_path st h = Inr p \<Longrightarrow> keeps V (f p)"
  shows "keeps V (bind_st (object_path_st st h) f)"
  using assms by (cases "object_path st h") (auto simp: keeps_def bind_st_def object_path_st_def bind_io_def lift_res_def fail_st_def)

lemma keeps_sum_case: "(\<And>a. keeps V (f a)) \<Longrightarrow> (\<And>e. keeps V (g e)) \<Longrightarrow> keeps V (case x of Inl e \<Rightarrow> g e | Inr a \<Rightarrow> f a)"
  by (cases x) simp_all

lemma keeps_quarantine:
  assumes "\<And>source. object_path st h = Inr source \<Longrightarrow> \<not> under source p \<and> \<not> under destination source"
    and "\<not> under destination p"
  shows "keeps (\<lambda>v. entry_at v p = Some (FileEntry b)) (quarantine st h destination)"
  unfolding quarantine_def
proof (rule keeps_bind_path)
  fix source
  assume "object_path st h = Inr source"
  note r = keeps_rename[OF conjunct1[OF assms(1)[OF this]] assms(2) conjunct2[OF assms(1)[OF this]]]
  show "keeps (\<lambda>v. entry_at v p = Some (FileEntry b)) (bind_st (file_exists source) (\<lambda>present.
     if \<not> present then file_exists destination
     else
       bind_st (create_dir_all_st (butlast destination)) (\<lambda>_.
       bind_st (try_st (call_st ''quarantine object'' source (atomic_io (fs_rename source destination)))) (\<lambda>renamed.
         case renamed of
           Inr _ \<Rightarrow>
             bind_st (sync_directory (butlast source)) (\<lambda>_.
             bind_st (sync_directory (butlast destination)) (\<lambda>_. return_st True))
         | Inl e \<Rightarrow>
             if e = Io ''quarantine object'' source ''No such file or directory'' then file_exists destination
             else fail_st e))))"
    by (intro keeps_bind_st keeps_file_exists keeps_if keeps_create_dirs keeps_try_st keeps_call_st r keeps_sum_case
        keeps_small_st keeps_sync_directory)
qed

lemma keeps_purge_quarantined:
  assumes "p \<noteq> q" shows "keeps (\<lambda>v. entry_at v p = Some e) (purge_quarantined st q n)"
  unfolding purge_quarantined_def
  by (intro keeps_bind_st keeps_entry_case keeps_small_st keeps_sync_directory keeps_call_st keeps_read keeps_atomic)
    (simp add: fs_remove_file_entry assms)

section \<open>What active revisions need\<close>

definition active_root :: "server_db \<Rightarrow> root_row \<Rightarrow> bool" where
  "active_root db rr \<longleftrightarrow> rr \<in> set (db_roots db)
     \<and> (\<exists>r \<in> set (db_revisions db). rw_id r = rt_revision rr \<and> rw_state r = ''active'')"

definition needed :: "server_db \<Rightarrow> node \<Rightarrow> bool" where
  "needed db n \<longleftrightarrow> (\<exists>rr. active_root db rr \<and> (root_node rr, n) \<in> (set (db_edges db))\<^sup>*)"

lemma needed_reachable: "needed db n \<Longrightarrow> n \<in> set (server_reachable R db)"
  by (auto simp: needed_def active_root_def server_reachable_exact keeps_root_def list_ex_iff)

lemma needed_cong:
  "db_roots db' = db_roots db \<Longrightarrow> db_revisions db' = db_revisions db \<Longrightarrow> db_edges db' = db_edges db \<Longrightarrow> needed db' = needed db"
  by (simp add: needed_def active_root_def fun_eq_iff)

lemma needed_mono:
  assumes "\<And>rr. active_root db rr \<Longrightarrow> active_root db' rr" and "set (db_edges db) \<subseteq> set (db_edges db')"
  shows "needed db n \<Longrightarrow> needed db' n"
  using assms rtrancl_mono[OF assms(2)] by (auto simp: needed_def)

lemma avoids_unneeded:
  assumes "active_root db rr" and "(root_node rr, n) \<in> (set (db_edges db))\<^sup>*" and "\<not> needed db x"
    and "\<And>e. e \<in> set (db_edges db) \<Longrightarrow> fst e \<noteq> x \<Longrightarrow> snd e \<noteq> x \<Longrightarrow> e \<in> E"
  shows "(root_node rr, n) \<in> E\<^sup>*"
  using assms(2)
proof (induction rule: rtrancl_induct)
  case (step y z)
  from step(1,2) assms(1) have "needed db y" "needed db z" by (auto simp: needed_def intro: rtrancl_into_rtrancl)
  with assms(3) have "y \<noteq> x" "z \<noteq> x" by auto
  with assms(4)[OF step(2)] have "(y, z) \<in> E" by simp
  with step.IH show ?case by (rule rtrancl_into_rtrancl)
qed simp

lemma complete_keeps_needed:
  assumes "complete_gc_entry R e db = Inr (v, db')" and "\<not> needed db (node_of (ge_object e))"
  shows "needed db' n \<longleftrightarrow> needed db n"
proof
  have same: "active_root db' = active_root db" using assms(1)
    by (auto simp: complete_gc_entry_def Let_def update_gc_def active_root_def fun_eq_iff)
  from assms(1) have edges: "set (db_edges db') = {d \<in> set (db_edges db). fst d \<noteq> node_of (ge_object e) \<and> snd d \<noteq> node_of (ge_object e)}"
    by (auto simp: complete_gc_entry_def Let_def update_gc_def)
  show "needed db' n \<Longrightarrow> needed db n"
    by (erule needed_mono[rotated 2]) (auto simp: same edges)
  assume "needed db n"
  then obtain rr where "active_root db rr" "(root_node rr, n) \<in> (set (db_edges db))\<^sup>*" by (auto simp: needed_def)
  with avoids_unneeded[OF this assms(2), of "set (db_edges db')"] show "needed db' n" by (auto simp: needed_def same edges)
qed

lemma purge_operation_needed:
  assumes "distinct (map rw_id (db_revisions db))" and "needed db n"
  shows "needed (purge_operation u x db) n" and "distinct (map rw_id (db_revisions (purge_operation u x db)))"
proof -
  have "active_root (purge_operation u x db) rr" if rr: "active_root db rr" for rr
  proof -
    from rr obtain r where r: "r \<in> set (db_revisions db)" "rw_id r = rt_revision rr" "rw_state r = ''active''" "rr \<in> set (db_roots db)"
      by (auto simp: active_root_def)
    have unique: "r' = r" if "r' \<in> set (db_revisions db)" "rw_id r' = rt_revision rr" for r'
      using assms(1) r that by (metis distinct_map inj_onD)
    define gone where "gone = (\<lambda>r :: revision_row. rw_namespace r = u \<and> rw_trash_op r = Some x \<and> rw_state r = ''trashed'')"
    define f where "f = (\<lambda>r :: revision_row. if gone r then r\<lparr>rw_state := ''purged''\<rparr> else r)"
    have "\<not> gone r" using r(3) by (simp add: gone_def)
    then have "f r = r" by (simp add: f_def)
    with r(1) have "r \<in> f ` set (db_revisions db)" by (metis imageI)
    moreover have "\<not> list_ex (\<lambda>r. rw_id r = rt_revision rr \<and> gone r) (db_revisions db)"
      using \<open>\<not> gone r\<close> unique by (auto simp: list_ex_iff)
    moreover have "db_roots (purge_operation u x db) = filter (\<lambda>rr. \<not> list_ex (\<lambda>r. rw_id r = rt_revision rr \<and> gone r) (db_revisions db)) (db_roots db)"
      "db_revisions (purge_operation u x db) = map f (db_revisions db)"
      by (simp_all only: purge_operation_def Let_def update_revisions_def update_trash_def gone_def f_def) simp_all
    ultimately show ?thesis using r(2-4) by (auto simp only: active_root_def set_map set_filter mem_Collect_eq)
  qed
  from needed_mono[OF this _ assms(2)] show "needed (purge_operation u x db) n"
    by (simp add: purge_operation_def Let_def update_revisions_def update_trash_def)
  have "map rw_id (db_revisions (purge_operation u x db)) = map rw_id (db_revisions db)"
    by (simp add: purge_operation_def Let_def update_revisions_def update_trash_def)
  with assms(1) show "distinct (map rw_id (db_revisions (purge_operation u x db)))" by simp
qed

lemma purge_operations_needed:
  assumes "distinct (map rw_id (db_revisions db))" and "needed db n"
  shows "needed (foldl (\<lambda>db x. purge_operation u x db) db ops) n
     \<and> distinct (map rw_id (db_revisions (foldl (\<lambda>db x. purge_operation u x db) db ops)))"
  using assms by (induction ops arbitrary: db) (simp_all add: purge_operation_needed)

section \<open>The collector\<close>

lemma keeps_bind_lift:
  assumes "\<And>E a. r E = Inr a \<Longrightarrow> keeps_sv I (f a)"
  shows "keeps_sv I (bind_sv (\<lambda>E. lift_sv (r E) E) f)"
  unfolding keeps_sv_def
proof (intro allI impI)
  fix E :: server_env and s :: server
  assume i: "I s"
  show "I (snd (bind_sv (\<lambda>E. lift_sv (r E) E) f E s))"
  proof (cases "r E")
    case (Inl e)
    with i show ?thesis by (simp add: bind_sv_def lift_sv_def fail_sv_def)
  next
    case (Inr a)
    with i assms[OF Inr] show ?thesis by (simp add: bind_sv_def lift_sv_def return_sv_def keeps_sv_def)
  qed
qed

lemma keeps_bind_typed_store:
  assumes "\<And>st. st_typed_objects state kind = Some st \<Longrightarrow> keeps_sv I (f st)"
  shows "keeps_sv I (bind_sv (typed_store state kind) f)"
  using assms by (cases "st_typed_objects state kind")
    (simp_all add: keeps_sv_def bind_sv_def typed_store_def fail_sv_def return_sv_def)

lemma keeps_bind_query:
  assumes "\<And>s n. I (s\<lparr>sv_calls := n\<rparr>) = I s"
    and "\<And>R a s E. q R (sv_db s) = Inr a \<Longrightarrow> I s \<Longrightarrow> I (snd (f a E s))"
  shows "keeps_sv I (bind_sv (query_sv q) f)"
  unfolding keeps_sv_def
proof (intro allI impI)
  fix E :: server_env and s :: server
  assume i: "I s"
  let ?s = "s\<lparr>sv_calls := Suc (sv_calls s)\<rparr>"
  from i assms(1) have i': "I ?s" by simp
  show "I (snd (bind_sv (query_sv q) f E s))"
  proof (cases "se_database_fault E (sv_calls s)")
    case None
    then show ?thesis
      using i' assms(2)[of "se_request E (sv_calls s)" ?s _ E]
      by (cases "q (se_request E (sv_calls s)) (sv_db s)") (simp_all add: bind_sv_def query_sv_def metadata_sv_def Let_def bindr_def)
  next
    case (Some m)
    with i' show ?thesis by (simp add: bind_sv_def query_sv_def metadata_sv_def Let_def)
  qed
qed

lemma keeps_prod_sv: "(\<And>a b. keeps_sv I (f a b)) \<Longrightarrow> keeps_sv I (case x of (a, b) \<Rightarrow> f a b)"
  by (cases x) simp

lemma keeps_svD: "keeps_sv I m \<Longrightarrow> I s \<Longrightarrow> I (snd (m E s))"
  by (simp add: keeps_sv_def)

definition spared :: "path \<Rightarrow> bytes \<Rightarrow> node \<Rightarrow> server \<Rightarrow> bool" where
  "spared p b n s \<longleftrightarrow> distinct (map rw_id (db_revisions (sv_db s))) \<and> needed (sv_db s) n
     \<and> entry_at (volume_of (sv_disk s)) p = Some (FileEntry b)"

definition spared_beside :: "path \<Rightarrow> bytes \<Rightarrow> node \<Rightarrow> node \<Rightarrow> server \<Rightarrow> bool" where
  "spared_beside p b n x s \<longleftrightarrow> spared p b n s \<and> \<not> needed (sv_db s) x"

lemma spared_calls: "spared p b n (s\<lparr>sv_calls := k\<rparr>) = spared p b n s" "spared_beside p b n x (s\<lparr>sv_calls := k\<rparr>) = spared_beside p b n x s"
  by (simp_all add: spared_def spared_beside_def)

lemma spared_same_tables:
  assumes "db_revisions db = db_revisions (sv_db s)" and "db_roots db = db_roots (sv_db s)" and "db_edges db = db_edges (sv_db s)"
  shows "spared p b n (s\<lparr>sv_calls := k, sv_db := db\<rparr>) = spared p b n s"
    "spared_beside p b n x (s\<lparr>sv_calls := k, sv_db := db\<rparr>) = spared_beside p b n x s"
  using needed_cong[OF assms(2,1,3)] assms(1) by (simp_all add: spared_def spared_beside_def)

lemma keeps_spared_store:
  assumes "keeps (\<lambda>v. entry_at v p = Some (FileEntry b)) m"
  shows "keeps_sv (spared p b n) (store_sv m)" "keeps_sv (spared_beside p b n x) (store_sv m)"
  by (rule keeps_store_sv[OF assms]; simp add: spared_def spared_beside_def)+

lemma keeps_spared_queue:
  assumes "\<And>R db a db'. h R db = Inr (a, db') \<Longrightarrow> db_revisions db' = db_revisions db \<and> db_roots db' = db_roots db \<and> db_edges db' = db_edges db"
  shows "keeps_sv (spared p b n) (metadata_sv h)" "keeps_sv (spared_beside p b n x) (metadata_sv h)"
  by (rule keeps_metadata_sv; use assms in \<open>simp add: spared_same_tables spared_calls\<close>)+

lemma queue_only:
  "cancel_gc_entry i reason db = Inr (v, db') \<Longrightarrow> db_revisions db' = db_revisions db \<and> db_roots db' = db_roots db \<and> db_edges db' = db_edges db"
  "mark_gc_entry_purged R i db = Inr (v, db') \<Longrightarrow> db_revisions db' = db_revisions db \<and> db_roots db' = db_roots db \<and> db_edges db' = db_edges db"
  "enqueue_gc J H R fp db = Inr (es, db') \<Longrightarrow> db_revisions db' = db_revisions db \<and> db_roots db' = db_roots db \<and> db_edges db' = db_edges db"
  by (auto simp: cancel_gc_entry_def mark_gc_entry_purged_def update_gc_def enqueue_gc_def Let_def bindr_eq_Inr_iff)

lemma keeps_spared_complete:
  assumes "x = node_of (ge_object entry)"
  shows "keeps_sv (spared_beside p b n x) (metadata_sv (\<lambda>R. complete_gc_entry R entry))"
proof (rule keeps_metadata_sv)
  fix R v db and s :: server
  assume s: "spared_beside p b n x s" and c: "complete_gc_entry R entry (sv_db s) = Inr (v, db)"
  from s have x: "\<not> needed (sv_db s) (node_of (ge_object entry))" by (simp add: spared_beside_def assms)
  note k = complete_keeps_needed[OF c this]
  from c have "db_revisions db = db_revisions (sv_db s)" by (auto simp: complete_gc_entry_def Let_def update_gc_def)
  with s x show "spared_beside p b n x (s\<lparr>sv_calls := Suc (sv_calls s), sv_db := db\<rparr>)"
    by (simp add: spared_beside_def spared_def k assms)
qed (simp add: spared_calls)

lemma gc_destination_shape: "gc_destination state E entry = Inr d \<Longrightarrow> \<exists>x. d = st_data_dir state @ [''gc''] @ x"
  by (auto simp: gc_destination_def bindr_eq_Inr_iff)

lemma gc_beside_typed:
  assumes "standard_layout state" and "typed_path state kind h = Some p" and "gc_destination state E entry = Inr d"
  shows "\<not> under d p" and "d \<noteq> p" and "\<not> under d q \<or> \<not> typed_path state kind' h' = Some q"
proof -
  from gc_destination_shape[OF assms(3)] obtain x where d: "d = st_data_dir state @ [''gc''] @ x" by blast
  have apart: "\<not> under d q" if "typed_path state k g = Some q" for k g q
    using typed_path_shape[OF assms(1) that] by (auto simp: d under_def)
  from apart[OF assms(2)] show "\<not> under d p" "d \<noteq> p" by (auto simp: under_def)
  from apart show "\<not> under d q \<or> \<not> typed_path state kind' h' = Some q" by blast
qed

lemma gc_source_apart:
  assumes "standard_layout state" and "typed_path state kind h = Some p" and "st_typed_objects state kind' = Some st"
    and "object_path st h' = Inr q" and "(wire_name_v3 kind', h') \<noteq> (wire_name_v3 kind, h)"
  shows "\<not> under q p"
proof
  have q: "typed_path state kind' h' = Some q" using assms(3,4) by (simp add: typed_path_def)
  assume "under q p"
  moreover have "length q = length p" using typed_path_shape[OF assms(1,2)] typed_path_shape[OF assms(1) q] by auto
  ultimately have "q = p" by (rule under_same_length)
  with typed_path_inject[OF assms(1,2)] q assms(5) show False by auto
qed

lemma keeps_purge_gc_entry:
  assumes "standard_layout state" and "typed_path state kind h = Some p"
  shows "keeps_sv (spared p b n) (purge_gc_entry state entry)"
    "keeps_sv (spared_beside p b n x) (purge_gc_entry state entry)"
  unfolding purge_gc_entry_def
  by ((rule keeps_bind_lift, frule gc_beside_typed(2)[OF assms]), intro keeps_bind_sv keeps_typed_store
      keeps_spared_store keeps_spared_queue keeps_purge_quarantined queue_only; simp)+

lemma keeps_process_gc_entry:
  assumes "standard_layout state" and "typed_path state kind h = Some p"
  shows "keeps_sv (spared p b (wire_name_v3 kind, h)) (process_gc_entry state entry acc)"
  unfolding process_gc_entry_def
proof (rule keeps_bind_query)
  fix R reachable E and s :: server
  assume r: "Inr (gc_object_is_reachable R (ge_object entry) (sv_db s)) = (Inr reachable :: metadata_error + bool)"
    and s: "spared p b (wire_name_v3 kind, h) s"
  let ?x = "node_of (ge_object entry)" and ?n = "(wire_name_v3 kind, h)"
  show "spared p b ?n (snd ((if reachable
     then bind_sv (metadata_sv (\<lambda>R. cancel_gc_entry (ge_id entry) ''object became reachable before quarantine'')) (\<lambda>_. return_sv acc)
     else
       bind_sv (\<lambda>E. lift_sv (gc_destination state E entry) E) (\<lambda>destination.
       bind_sv (typed_store state (ref3_kind (ge_object entry))) (\<lambda>st.
       bind_sv (store_sv (quarantine st (ref3_sha256 (ge_object entry)) destination)) (\<lambda>_.
       bind_sv (metadata_sv (\<lambda>R. complete_gc_entry R entry)) (\<lambda>_.
       bind_sv (if ge_delete entry then purge_gc_entry state entry else return_sv ()) (\<lambda>_.
         return_sv (Suc (fst acc), saturating_add (snd acc) (ref3_byte_length (ge_object entry))))))))) E s))"
  proof (cases reachable)
    case True
    have "keeps_sv (spared p b ?n)
      (bind_sv (metadata_sv (\<lambda>R. cancel_gc_entry (ge_id entry) ''object became reachable before quarantine'')) (\<lambda>_. return_sv acc))"
      by (intro keeps_bind_sv keeps_return_sv keeps_spared_queue queue_only)
    from keeps_svD[OF this s] True show ?thesis by simp
  next
    case False
    with r needed_reachable[of "sv_db s" ?x R] have x: "\<not> needed (sv_db s) ?x" by (auto simp: gc_object_is_reachable_def)
    with s have i: "spared_beside p b ?n ?x s" and differs: "?x \<noteq> ?n" by (auto simp: spared_beside_def spared_def)
    have q: "keeps (\<lambda>v. entry_at v p = Some (FileEntry b)) (quarantine st (ref3_sha256 (ge_object entry)) d)"
      if d: "gc_destination state E' entry = Inr d" and st: "st_typed_objects state (ref3_kind (ge_object entry)) = Some st" for E' d st
    proof (rule keeps_quarantine)
      fix source
      assume o: "object_path st (ref3_sha256 (ge_object entry)) = Inr source"
      then have "typed_path state (ref3_kind (ge_object entry)) (ref3_sha256 (ge_object entry)) = Some source"
        using st by (simp add: typed_path_def)
      with gc_beside_typed(3)[OF assms d] gc_source_apart[OF assms st o] differs
      show "\<not> under source p \<and> \<not> under d source" by (auto simp: node_of_def)
    qed (rule gc_beside_typed(1)[OF assms d])
    have "keeps_sv (spared_beside p b ?n ?x) (bind_sv (\<lambda>E. lift_sv (gc_destination state E entry) E) (\<lambda>destination.
       bind_sv (typed_store state (ref3_kind (ge_object entry))) (\<lambda>st.
       bind_sv (store_sv (quarantine st (ref3_sha256 (ge_object entry)) destination)) (\<lambda>_.
       bind_sv (metadata_sv (\<lambda>R. complete_gc_entry R entry)) (\<lambda>_.
       bind_sv (if ge_delete entry then purge_gc_entry state entry else return_sv ()) (\<lambda>_.
         return_sv (Suc (fst acc), saturating_add (snd acc) (ref3_byte_length (ge_object entry)))))))))"
      by (intro keeps_bind_lift keeps_bind_typed_store keeps_bind_sv keeps_spared_store keeps_spared_complete keeps_if_sv keeps_return_sv
          keeps_purge_gc_entry[OF assms] refl) (rule q)
    from keeps_svD[OF this i, of E] False show ?thesis by (simp add: spared_beside_def)
  qed
qed (simp add: spared_calls)

lemma keeps_process_gc_entries:
  assumes "standard_layout state" and "typed_path state kind h = Some p"
  shows "keeps_sv (spared p b (wire_name_v3 kind, h)) (process_gc_entries state entries)"
  unfolding process_gc_entries_def by (rule keeps_foreach_sv) (rule keeps_process_gc_entry[OF assms])

lemma keeps_spared_query: "keeps_sv (spared p b n) (query_sv q)"
  unfolding query_sv_def by (rule keeps_spared_queue) (simp add: bindr_eq_Inr_iff)

lemma keeps_spared_purge: "keeps_sv (spared p b n) (metadata_sv (\<lambda>R. commit_history_trash_purge R u plan))"
proof (rule keeps_metadata_sv)
  fix R c db and s :: server
  assume s: "spared p b n s" and run: "commit_history_trash_purge R u plan (sv_db s) = Inr (c, db)"
  obtain plan' es where "c = (plan', es)" by fastforce
  with run have "commit_history_trash_purge R u plan (sv_db s) = Inr ((plan', es), db)" by simp
  then obtain db1 where db1: "db1 = foldl (\<lambda>db x. purge_operation u x db) (sv_db s) (hp_operation_ids plan')"
    "enqueue_gc_objects_for_purge R (rq_uuid R 0) (hp_candidate_objects plan') db1 = Inr (es, db)"
    by (rule commit_history_trash_purge_Inr)
  from s purge_operations_needed[of "sv_db s" n u "hp_operation_ids plan'"]
  have 1: "needed db1 n" "distinct (map rw_id (db_revisions db1))" by (simp_all add: spared_def db1(1))
  from enqueue_purge_Inr[OF db1(2)] obtain rows where db: "db = db1\<lparr>db_gc := rows\<rparr>" by blast
  have "needed db = needed db1" by (rule needed_cong) (simp_all add: db)
  with s 1 show "spared p b n (s\<lparr>sv_calls := Suc (sv_calls s), sv_db := db\<rparr>)" by (simp add: spared_def db)
qed (simp add: spared_calls)

lemma keeps_collectors:
  assumes "standard_layout state" and "typed_path state kind h = Some p"
  shows "keeps_sv (spared p b (wire_name_v3 kind, h)) (resume_pending_gc state)"
    and "keeps_sv (spared p b (wire_name_v3 kind, h)) (quarantine_server_gc state fingerprint)"
    and "keeps_sv (spared p b (wire_name_v3 kind, h)) (purge_history_trash state u ids purge_all)"
proof -
  note r = keeps_bind_sv keeps_spared_query keeps_process_gc_entries[OF assms] keeps_foreach_sv keeps_purge_gc_entry(1)[OF assms]
    keeps_lift_sv keeps_return_sv keeps_ensure_sv keeps_prod_sv keeps_spared_purge
  show "keeps_sv (spared p b (wire_name_v3 kind, h)) (resume_pending_gc state)"
    unfolding resume_pending_gc_def by (intro r)
  have "keeps_sv (spared p b (wire_name_v3 kind, h)) (\<lambda>E. metadata_sv (\<lambda>R. enqueue_gc (se_json E) (se_hash E) R fp) E)" for fp
    unfolding keeps_sv_def
    by (intro allI impI) (rule keeps_svD[OF keeps_spared_queue(1)], erule queue_only(3))
  then show "keeps_sv (spared p b (wire_name_v3 kind, h)) (quarantine_server_gc state fingerprint)"
    unfolding quarantine_server_gc_def by (intro r)
  show "keeps_sv (spared p b (wire_name_v3 kind, h)) (purge_history_trash state u ids purge_all)"
    unfolding purge_history_trash_def by (intro r)
qed

section \<open>The layout of a started server\<close>

lemma store_open_layout:
  assumes "initialize_store dir m kind stores E s = (Inr stores', s')"
  shows "\<exists>st. stores' = stores @ [(kind, st)]
     \<and> os_sha256_dir st = dir @ [''typed'', directory_v3 kind, ''objects'', ''sha256'']
     \<and> os_tmp_dir st = dir @ [''typed'', directory_v3 kind, ''objects'', ''tmp'']"
  using assms
  by (auto simp: initialize_store_def bind_sv_Inr return_sv_Inr store_sv_Inr object_store_open_def Let_def bind_st_Inr return_st_Inr)

lemma initialize_stores_layout:
  assumes "foreach_sv (initialize_store dir m) kinds stores E s = (Inr stores', s')"
    and "\<forall>(k, st) \<in> set stores. os_sha256_dir st = dir @ [''typed'', directory_v3 k, ''objects'', ''sha256'']
       \<and> os_tmp_dir st = dir @ [''typed'', directory_v3 k, ''objects'', ''tmp'']"
  shows "\<forall>(k, st) \<in> set stores'. os_sha256_dir st = dir @ [''typed'', directory_v3 k, ''objects'', ''sha256'']
       \<and> os_tmp_dir st = dir @ [''typed'', directory_v3 k, ''objects'', ''tmp'']"
  using assms
proof (induction kinds arbitrary: stores s)
  case (Cons k kinds)
  from Cons.prems(1) obtain stores1 s1 where 1: "initialize_store dir m k stores E s = (Inr stores1, s1)"
    "foreach_sv (initialize_store dir m) kinds stores1 E s1 = (Inr stores', s')" unfolding foreach_sv_Cons by blast
  from store_open_layout[OF 1(1)] obtain st where "stores1 = stores @ [(k, st)]"
     "os_sha256_dir st = dir @ [''typed'', directory_v3 k, ''objects'', ''sha256'']"
     "os_tmp_dir st = dir @ [''typed'', directory_v3 k, ''objects'', ''tmp'']" by blast
  with Cons.IH[OF 1(2)] Cons.prems(2) show ?case by simp
qed (simp add: return_sv_Inr)

lemma initialize_state_layout:
  assumes "initialize_state dir m E s = (Inr state, s')" shows "standard_layout state"
proof -
  from assms obtain stores s1 s2 where "foreach_sv (initialize_store dir m) ALL_kinds_v3 [] E s1 = (Inr stores, s2)"
    "state = \<lparr>st_typed_objects = map_of stores, st_data_dir = dir\<rparr>"
    by (auto simp: initialize_state_def Let_def bind_sv_Inr return_sv_Inr)
  with initialize_stores_layout[of dir m ALL_kinds_v3 "[]" E s1 stores s2] show ?thesis
    by (auto simp: standard_layout_def dest: map_of_SomeD)
qed

section \<open>Needed objects stay\<close>

definition toy_object_store :: "storage_object_kind_v3 \<Rightarrow> object_store" where
  "toy_object_store k = \<lparr>os_sha256_dir = [''typed'', directory_v3 k, ''objects'', ''sha256''],
     os_tmp_dir = [''typed'', directory_v3 k, ''objects'', ''tmp''], os_max_object_bytes = - 1\<rparr>"

definition toy_app :: app_state where
  "toy_app = \<lparr>st_typed_objects = \<lambda>k. Some (toy_object_store k), st_data_dir = []\<rparr>"

definition toy_env :: server_env where
  "toy_env = \<lparr>se_faults = \<lambda>_. None, se_request = \<lambda>_. toy_request, se_database_fault = \<lambda>_. None, se_json = toy_text,
     se_parsers = toy_parsers, se_hash = toy_hash, se_uuid_text = \<lambda>_. ''u'', se_temp_name = \<lambda>_. ''t''\<rparr>"

definition toy_started :: server where
  "toy_started = \<lparr>sv_disk = \<lparr>volume_of = [([''typed'', ''revision-roots'', ''objects'', ''sha256'', ''aa'', replicate 62 CHR ''a''], FileEntry ''x'')],
     clock = 0\<rparr>, sv_db = toy_committed, sv_calls = 0\<rparr>"

text \<open>
  C1: The garbage collector never takes an object that an active revision needs: whatever calls of the
  file system or the database fail, and however often the collection of the orphans, the purge of
  trashed histories or the resumption of a queue at the start of the server runs, the file of an
  object to which the edges lead from the root of an active revision keeps its bytes under its
  path, and the edges that lead to it stay.
\<close>
theorem gc_spares_needed:
  assumes "server_run J H (sv_db s)" and "standard_layout state"
    and "needed (sv_db s) (wire_name_v3 kind, sha256)" and "typed_file state (volume_of (sv_disk s)) kind sha256 = Some b"
    and "s' \<in> {snd (quarantine_server_gc state fingerprint E s), snd (purge_history_trash state u ids purge_all E s),
      snd (resume_pending_gc state E s)}"
  shows "needed (sv_db s') (wire_name_v3 kind, sha256) \<and> typed_file state (volume_of (sv_disk s')) kind sha256 = Some b"
proof -
  from assms(4) obtain p where p: "typed_path state kind sha256 = Some p" "file_at (volume_of (sv_disk s)) p = Some b"
    by (auto simp: typed_file_def bind_eq_Some_conv)
  have "distinct (map rw_id (db_revisions (sv_db s)))" using server_run_ok[OF assms(1)] by (simp add: history_ok_def keys_ok_def)
  with assms(3) p(2) have i: "spared p b (wire_name_v3 kind, sha256) s"
    by (auto simp: spared_def file_at_def split: option.splits entry.splits)
  from assms(5) have "spared p b (wire_name_v3 kind, sha256) s'"
    using keeps_collectors[OF assms(2) p(1), THEN keeps_svD, OF i] by auto
  then show ?thesis by (simp add: spared_def typed_file_def p(1) file_at_def)
qed

theorem gc_spares_needed_witness:
  "typed_file toy_app (volume_of (sv_disk (snd (purge_history_trash toy_app toy_namespace [] True toy_env toy_started)))) RevisionRoot3 (toy_id (CHR ''a''))
    = Some ''x''"
proof -
  have layout: "standard_layout toy_app" by (simp add: standard_layout_def toy_app_def toy_object_store_def)
  have run: "server_run toy_text toy_hash (sv_db toy_started)" using toy_server(2) by (simp add: toy_started_def)
  have "active_root toy_committed toy_root_row" by (simp add: active_root_def toy_committed_def toy_root_row_def toy_revision_row_def)
  then have needed: "needed (sv_db toy_started) (wire_name_v3 RevisionRoot3, toy_id (CHR ''a''))"
    unfolding needed_def toy_started_def by (auto intro!: exI[of _ toy_root_row] simp: root_node_def toy_root_row_def)
  have "validate_sha256 (toy_id (CHR ''a'')) = Inr ()" by (rule toy_id_ok) (simp add: is_lower_hex_def)
  then have "object_path (toy_object_store RevisionRoot3) (toy_id (CHR ''a''))
     = Inr [''typed'', ''revision-roots'', ''objects'', ''sha256'', ''aa'', replicate 62 CHR ''a'']"
    by (simp add: object_path_def toy_object_store_def toy_id_def numeral_eq_Suc)
  then have "typed_file toy_app (volume_of (sv_disk toy_started)) RevisionRoot3 (toy_id (CHR ''a'')) = Some ''x''"
    by (simp add: typed_file_def typed_path_def toy_app_def toy_started_def file_at_def entry_at_def)
  from gc_spares_needed[OF run layout needed this, of _ "[]" toy_env toy_namespace "[]" True] show ?thesis by simp
qed

end
