(* ===== verification/ServerCommit.thy ===== *)
theory ServerCommit
  imports ServerSafety
begin

text \<open>
  What a committed revision has on the server: the handler that commits a root reads every
  descriptor and manifest it names, and leaves the files and the edges from the root to the last chunk.
\<close>

section \<open>Reading handlers change no file\<close>

definition on_volume :: "volume \<Rightarrow> server \<Rightarrow> bool" where
  "on_volume v s \<longleftrightarrow> volume_of (sv_disk s) = v"

lemma on_volume_store:
  assumes "keeps (\<lambda>w. w = v) m" shows "keeps_sv (on_volume v) (store_sv m)"
  by (rule keeps_store_sv[OF assms]) (simp_all add: on_volume_def)

lemma on_volume_io:
  assumes "keeps (\<lambda>w. w = v) m" shows "keeps_sv (on_volume v) (io_sv f m)"
  using assms unfolding keeps_sv_def keeps_def on_volume_def io_sv_def
  by (auto split: prod.splits sum.splits) (metis snd_conv)+

lemma on_volume_metadata: "keeps_sv (on_volume v) (metadata_sv h)"
  by (rule keeps_metadata_sv) (simp_all add: on_volume_def)

lemma keeps_list_if: "(b \<Longrightarrow> keeps V m) \<Longrightarrow> (\<not> b \<Longrightarrow> keeps V n) \<Longrightarrow> keeps V (if b then m else n)"
  by simp

lemma keeps_missing: "keeps V (missing_objects st objs)"
  unfolding missing_objects_def missing_step_def
  by (intro keeps_foreach_st keeps_bind_st keeps_small_st keeps_call_st keeps_read keeps_entry_case)

lemma keeps_open_download: "keeps V (open_download st h)"
proof -
  have e: "keeps V (case e of DirEntry \<Rightarrow> m | FileEntry b \<Rightarrow> f b)" if "keeps V m" "\<And>b. keeps V (f b)" for e m and f :: "bytes \<Rightarrow> object_download store_io"
    using that by (cases e) simp_all
  have o: "keeps V (case x of None \<Rightarrow> m | Some e \<Rightarrow> f e)" if "keeps V m" "\<And>b. keeps V (f b)" for x m and f :: "entry \<Rightarrow> object_download store_io"
    using that by (cases x) simp_all
  show ?thesis unfolding open_download_def
    by (intro o e keeps_bind_st keeps_small_st keeps_call_st keeps_read)
qed

lemma keeps_sync_directories: "keeps V (sync_object_directories st hs)"
  unfolding sync_object_directories_def Let_def
  by (intro keeps_foreach_st keeps_bind_st keeps_small_st keeps_list_if keeps_sync_directory)

lemma on_volume_read_json: "keeps_sv (on_volume v) (read_typed_json state parse to_json kind h)"
proof -
  have r: "keeps_sv (on_volume v) (\<lambda>E. f E E)" if "\<And>E. keeps_sv (on_volume v) (f E)" for f :: "server_env \<Rightarrow> ('a \<times> storage_object_ref_v3) srv"
    using that unfolding keeps_sv_def by blast
  have o: "keeps_sv (on_volume v) (case x of None \<Rightarrow> m | Some y \<Rightarrow> f y)" if "keeps_sv (on_volume v) m" "\<And>y. keeps_sv (on_volume v) (f y)"
    for x m and f :: "'a \<Rightarrow> ('a \<times> storage_object_ref_v3) srv"
    using that by (cases x) simp_all
  show ?thesis unfolding read_typed_json_def Let_def
    by (rule keeps_bind_sv, rule keeps_typed_store, rule keeps_bind_sv, rule on_volume_store, rule keeps_open_download,
        rule keeps_bind_sv, rule on_volume_io, rule keeps_read, rule r)
      (intro keeps_bind_sv o keeps_ensure_sv keeps_fail_sv keeps_return_sv)
qed

lemma on_volume_ensure_object: "keeps_sv (on_volume v) (ensure_typed_object state obj)"
  unfolding ensure_typed_object_def
  by (intro keeps_bind_sv keeps_typed_store on_volume_store keeps_missing keeps_ensure_sv)

lemma on_volume_content: "keeps_sv (on_volume v) (validate_content_graph_v4 state content)"
proof -
  have s: "keeps_sv (on_volume v) (case x of WholeRef h \<Rightarrow> f h | ChunkedRef m \<Rightarrow> g m)"
    if "\<And>h. keeps_sv (on_volume v) (f h)" "\<And>m. keeps_sv (on_volume v) (g m)" for x f and g :: "string \<Rightarrow> storage_object_ref_v3 list srv"
    using that by (cases x) simp_all
  show ?thesis unfolding validate_content_graph_v4_def Let_def
    by (intro s keeps_bind_sv on_volume_ensure_object keeps_return_sv on_volume_read_json keeps_prod_sv keeps_lift_sv keeps_ensure_sv
        keeps_foreach_sv on_volume_metadata)
qed

lemma on_volume_thread: "keeps_sv (on_volume v) (thread_step state t acc)"
  unfolding thread_step_def content_step_def
  by (intro keeps_bind_sv on_volume_read_json keeps_prod_sv keeps_lift_sv keeps_ensure_sv keeps_foreach_sv on_volume_content
      on_volume_metadata keeps_return_sv)

lemma on_volume_commit: "keeps_sv (on_volume v) (commit_revision_root_v4 state u payload)"
proof -
  have graph: "keeps_sv (on_volume v) (validate_revision_graph_v4 state rid)" for rid
    unfolding validate_revision_graph_v4_def
    by (intro keeps_bind_sv on_volume_read_json keeps_prod_sv keeps_lift_sv keeps_ensure_sv keeps_foreach_sv on_volume_thread
        on_volume_metadata keeps_return_sv keeps_lift_env)
  have sync: "keeps_sv (on_volume v) (sync_revision_graph_directories state g)" for g
    unfolding sync_revision_graph_directories_def Let_def
    by (intro keeps_bind_sv keeps_foreach_sv keeps_if_sv keeps_return_sv keeps_typed_store on_volume_store keeps_sync_directories)
  show ?thesis unfolding commit_revision_root_v4_def
    by (intro keeps_bind_sv graph sync keeps_prod_sv keeps_lift_sv keeps_ensure_sv on_volume_metadata keeps_return_sv keeps_lift_env)
qed

lemma on_volumeD: "keeps_sv (on_volume (volume_of (sv_disk s))) m \<Longrightarrow> m E s = (r, s') \<Longrightarrow> volume_of (sv_disk s') = volume_of (sv_disk s)"
  unfolding keeps_sv_def on_volume_def by (metis snd_conv)

section \<open>What a successful read says\<close>

definition stored_object :: "app_state \<Rightarrow> volume \<Rightarrow> storage_object_ref_v3 \<Rightarrow> bool" where
  "stored_object state v obj \<longleftrightarrow>
     (\<exists>b. typed_file state v (ref3_kind obj) (ref3_sha256 obj) = Some b \<and> of_nat (length b) = ref3_byte_length obj)"

lemma typed_store_Inr: "typed_store state kind E s = (Inr st, s') \<longleftrightarrow> st_typed_objects state kind = Some st \<and> s' = s"
  by (auto simp: typed_store_def fail_sv_def return_sv_def split: option.splits)

lemma open_download_Inr:
  assumes "open_download st h F d = (Inr (Inr od), d')"
  shows "\<exists>p. object_path st h = Inr p \<and> file_at (volume_of d) p = Some (od_file od)"
proof -
  from assms obtain p d1 m where p: "object_path st h = Inr p" "read_io (\<lambda>v. Inr (entry_at v p)) F d = (Inr m, d1)"
    "(case m of None \<Rightarrow> fail_st (ObjectNotFound h)
       | Some e \<Rightarrow>
           bind_st (call_st ''read metadata for'' p (read_io (\<lambda>_. Inr ()))) (\<lambda>_.
             case e of
               DirEntry \<Rightarrow> fail_st (not_a_file p)
             | FileEntry b \<Rightarrow>
                 bind_st (ensure_st (\<not> of_nat (length b) > os_max_object_bytes st) (ObjectTooLarge (os_max_object_bytes st) (of_nat (length b)))) (\<lambda>_.
                   return_st \<lparr>od_file = b, od_byte_length = of_nat (length b)\<rparr>))) F d1 = (Inr (Inr od), d')"
    unfolding open_download_def bind_st_Inr object_path_st_Inr call_st_Inr by blast
  from read_io_run[OF p(2)] have "m = entry_at (volume_of d) p" by simp
  with p(1,3) show ?thesis
    by (auto simp: st_runs file_at_def split: option.splits entry.splits)
qed

lemma missing_none:
  assumes "missing_objects st [ob] F d = (Inr (Inr []), d')"
  shows "\<exists>p b. object_path st (ob_sha256 ob) = Inr p \<and> file_at (volume_of d) p = Some b \<and> of_nat (length b) = ob_byte_length ob"
proof -
  from assms obtain p d1 m where p: "object_path st (ob_sha256 ob) = Inr p" "read_io (\<lambda>v. Inr (entry_at v p)) F d = (Inr m, d1)"
    "(case m of
         Some (FileEntry b) \<Rightarrow>
           bind_st (ensure_st (of_nat (length b) = ob_byte_length ob) (LengthMismatch (ob_byte_length ob) (of_nat (length b)))) (\<lambda>_.
             return_st [])
       | Some DirEntry \<Rightarrow> fail_st (not_a_file p)
       | None \<Rightarrow> return_st ([] @ [ob_sha256 ob])) F d1 = (Inr (Inr []), d')"
    unfolding missing_objects_def missing_step_def foreach_st.simps bind_st_Inr object_path_st_Inr call_st_Inr ensure_st_Inr return_st_Inr by blast
  from read_io_run[OF p(2)] have "m = entry_at (volume_of d) p" by simp
  with p(1,3) show ?thesis
    by (auto simp: st_runs file_at_def split: option.splits entry.splits)
qed

lemma read_json_Inr:
  assumes "read_typed_json state parse to_json kind h E s = (Inr (x, obj), s')"
  shows "sv_db s' = sv_db s \<and> volume_of (sv_disk s') = volume_of (sv_disk s)
    \<and> (\<exists>b. typed_file state (volume_of (sv_disk s)) kind h = Some b \<and> parse E b = Some x
         \<and> obj = \<lparr>ref3_kind = kind, ref3_sha256 = h, ref3_byte_length = of_nat (length b)\<rparr>)"
proof -
  from on_volumeD[OF on_volume_read_json assms] have v: "volume_of (sv_disk s') = volume_of (sv_disk s)" .
  from assms obtain st od s1 u s2 where 1: "st_typed_objects state kind = Some st"
    "store_sv (open_download st h) E s = (Inr od, s1)" "io_sv invalid_request (read_io (\<lambda>_. Inr ())) E s1 = (Inr u, s2)"
    "bind_sv (ensure_sv (digest_bytes_v4 (se_hash E) (od_file od) = h) (invalid_request ''typed structured object hash mismatch'')) (\<lambda>_.
       case parse E (od_file od) of
         None \<Rightarrow> fail_sv (invalid_request ''invalid JSON'')
       | Some parsed \<Rightarrow>
           bind_sv (ensure_sv (write_canonical_json (se_json E) (to_json E parsed) = od_file od)
                      (invalid_request ''typed structured object is not canonical JSON'')) (\<lambda>_.
             return_sv (parsed, \<lparr>ref3_kind = kind, ref3_sha256 = h, ref3_byte_length = of_nat (length (od_file od))\<rparr>))) E s2 = (Inr (x, obj), s')"
    unfolding read_typed_json_def Let_def bind_sv_Inr typed_store_Inr by blast
  from 1(2) open_download_Inr obtain p where p: "object_path st h = Inr p" "file_at (volume_of (sv_disk s)) p = Some (od_file od)"
    unfolding store_sv_Inr by blast
  then have "typed_file state (volume_of (sv_disk s)) kind h = Some (od_file od)"
    by (simp add: typed_file_def typed_path_def 1(1))
  moreover have "parse E (od_file od) = Some x" "obj = \<lparr>ref3_kind = kind, ref3_sha256 = h, ref3_byte_length = of_nat (length (od_file od))\<rparr>" "s' = s2"
    using 1(4) by (auto simp: bind_sv_Inr ensure_sv_Inr fail_sv_Inr return_sv_Inr split: option.splits)
  moreover have "sv_db s2 = sv_db s" using 1(2,3) by (auto simp: store_sv_Inr io_sv_Inr)
  ultimately show ?thesis using v by blast
qed

lemma ensure_object_Inr:
  assumes "ensure_typed_object state obj E s = (Inr u, s')"
  shows "sv_db s' = sv_db s \<and> volume_of (sv_disk s') = volume_of (sv_disk s) \<and> stored_object state (volume_of (sv_disk s)) obj"
proof -
  from on_volumeD[OF on_volume_ensure_object assms] have v: "volume_of (sv_disk s') = volume_of (sv_disk s)" .
  from assms obtain st d where 1: "st_typed_objects state (ref3_kind obj) = Some st"
    "missing_objects st [\<lparr>ob_sha256 = ref3_sha256 obj, ob_byte_length = ref3_byte_length obj\<rparr>] (se_faults E) (sv_disk s) = (Inr (Inr []), d)"
    "s' = s\<lparr>sv_disk := d\<rparr>"
    by (auto simp: ensure_typed_object_def bind_sv_Inr typed_store_Inr store_sv_Inr ensure_sv_Inr)
  from missing_none[OF 1(2)] 1(1) have "stored_object state (volume_of (sv_disk s)) obj"
    by (auto simp: stored_object_def typed_file_def typed_path_def)
  with v 1(3) show ?thesis by simp
qed

lemma ensure_objects_Inr:
  assumes "foreach_sv (\<lambda>obj _. ensure_typed_object state obj) objs () E s = (Inr u, s')"
  shows "sv_db s' = sv_db s \<and> volume_of (sv_disk s') = volume_of (sv_disk s)
    \<and> (\<forall>obj \<in> set objs. stored_object state (volume_of (sv_disk s)) obj)"
  using assms
proof (induction objs arbitrary: s)
  case (Cons obj objs)
  from Cons.prems obtain u1 s1 where 1: "ensure_typed_object state obj E s = (Inr u1, s1)"
    "foreach_sv (\<lambda>obj _. ensure_typed_object state obj) objs () E s1 = (Inr u, s')"
    unfolding foreach_sv_Cons by (metis (full_types) old.unit.exhaust)
  from Cons.IH[OF 1(2)] ensure_object_Inr[OF 1(1)] show ?case by simp
qed (simp add: return_sv_Inr)

section \<open>Edges\<close>

definition edges_from :: "server \<Rightarrow> node \<Rightarrow> node set" where
  "edges_from s x = {y. (x, y) \<in> set (db_edges (sv_db s))}"

lemma insert_edges_set:
  "foldr_res (insert_edge x) ts es0 = Inr es \<Longrightarrow> set es = set es0 \<union> (\<lambda>t. (x, node_of t)) ` set ts"
  by (induction ts arbitrary: es0) (auto simp: insert_edge_def bindr_eq_Inr_iff)

lemma replace_edges_Inr:
  assumes "metadata_sv (\<lambda>R. replace_object_edges ob ts) E s = (Inr u, s')"
  shows "volume_of (sv_disk s') = volume_of (sv_disk s) \<and> edges_from s' (node_of ob) = node_of ` set ts
    \<and> (\<forall>x. x \<noteq> node_of ob \<longrightarrow> edges_from s' x = edges_from s x)"
proof -
  from assms obtain es where "foldr_res (insert_edge (node_of ob)) ts (filter (\<lambda>e. fst e \<noteq> node_of ob) (db_edges (sv_db s))) = Inr es"
    "s' = s\<lparr>sv_calls := Suc (sv_calls s), sv_db := (sv_db s)\<lparr>db_edges := es\<rparr>\<rparr>"
    by (auto simp: metadata_sv_Inr replace_object_edges_def bindr_eq_Inr_iff)
  with insert_edges_set[OF this(1)] show ?thesis by (auto simp: edges_from_def)
qed

section \<open>Contents, threads, roots\<close>

definition content_targets :: "app_state \<Rightarrow> (bytes \<Rightarrow> chunk_manifest_v4 option) \<Rightarrow> volume \<Rightarrow> content_ref_v4 \<Rightarrow> storage_object_ref_v3 list \<Rightarrow> bool" where
  "content_targets state parse v content ts \<longleftrightarrow>
     (case storage content of
        WholeRef h \<Rightarrow> ts = [\<lparr>ref3_kind = Whole3, ref3_sha256 = h, ref3_byte_length = content_byte_length content\<rparr>]
      | ChunkedRef m \<Rightarrow> (\<exists>b manifest. typed_file state v ChunkManifest3 m = Some b \<and> parse b = Some manifest
          \<and> validate_chunk_manifest_v4 manifest = Inr () \<and> cm_logical_sha256 manifest = logical_sha256 content
          \<and> cm_byte_length manifest = content_byte_length content
          \<and> ts = \<lparr>ref3_kind = ChunkManifest3, ref3_sha256 = m, ref3_byte_length = of_nat (length b)\<rparr> # map chunk_ref (cm_chunks manifest)))
     \<and> (\<forall>t \<in> set ts. stored_object state v t)"

lemma validate_content_Inr:
  assumes "validate_content_graph_v4 state content E s = (Inr ts, s')"
  shows "volume_of (sv_disk s') = volume_of (sv_disk s) \<and> content_targets state (parse_manifest (se_parsers E)) (volume_of (sv_disk s)) content ts
    \<and> (\<forall>x. fst x \<noteq> ''chunkManifest'' \<longrightarrow> edges_from s' x = edges_from s x)"
proof (cases "storage content")
  case (WholeRef h)
  with assms obtain u where "ts = [\<lparr>ref3_kind = Whole3, ref3_sha256 = h, ref3_byte_length = content_byte_length content\<rparr>]"
    "ensure_typed_object state \<lparr>ref3_kind = Whole3, ref3_sha256 = h, ref3_byte_length = content_byte_length content\<rparr> E s = (Inr u, s')"
    by (auto simp: validate_content_graph_v4_def Let_def bind_sv_Inr return_sv_Inr)
  with ensure_object_Inr[OF this(2)] WholeRef show ?thesis by (simp add: content_targets_def edges_from_def)
next
  case (ChunkedRef m)
  let ?chunks = "\<lambda>manifest. map chunk_ref (cm_chunks manifest)"
  from assms ChunkedRef obtain manifest obj u s1 s2 u' where 1:
    "read_typed_json state (\<lambda>E. parse_manifest (se_parsers E)) (\<lambda>_. chunk_manifest_json) ChunkManifest3 m E s = (Inr (manifest, obj), s1)"
    "map_err invalid_request (validate_chunk_manifest_v4 manifest) = Inr u'"
    "\<not> (cm_logical_sha256 manifest \<noteq> logical_sha256 content \<or> cm_byte_length manifest \<noteq> content_byte_length content)"
    "foreach_sv (\<lambda>chunk _. ensure_typed_object state chunk) (?chunks manifest) () E s1 = (Inr u, s2)"
    "metadata_sv (\<lambda>R. replace_object_edges obj (?chunks manifest)) E s2 = (Inr (), s')" "ts = obj # ?chunks manifest"
    unfolding validate_content_graph_v4_def
    by (auto simp: bind_sv_Inr lift_sv_Inr ensure_sv_Inr return_sv_Inr Let_def)
  from read_json_Inr[OF 1(1)] obtain b where b: "sv_db s1 = sv_db s" "volume_of (sv_disk s1) = volume_of (sv_disk s)"
    "typed_file state (volume_of (sv_disk s)) ChunkManifest3 m = Some b" "parse_manifest (se_parsers E) b = Some manifest"
    "obj = \<lparr>ref3_kind = ChunkManifest3, ref3_sha256 = m, ref3_byte_length = of_nat (length b)\<rparr>" by blast
  note e = ensure_objects_Inr[OF 1(4)] and r = replace_edges_Inr[OF 1(5)]
  have "stored_object state (volume_of (sv_disk s)) obj" by (simp add: stored_object_def b(3,5))
  moreover have "validate_chunk_manifest_v4 manifest = Inr ()" using 1(2) by (simp add: map_err_def split: sum.splits)
  ultimately have "content_targets state (parse_manifest (se_parsers E)) (volume_of (sv_disk s)) content ts"
    using 1(3) e b ChunkedRef by (auto simp: content_targets_def 1(6))
  moreover have "node_of obj = (''chunkManifest'', m)" by (simp add: node_of_def b(5))
  ultimately show ?thesis using e r b(1,2) by (simp add: edges_from_def)
qed

lemma content_steps_Inr:
  assumes "foreach_sv (content_step state) cs acc E s = (Inr acc', s')"
  shows "volume_of (sv_disk s') = volume_of (sv_disk s)
    \<and> (\<forall>x. fst x \<noteq> ''chunkManifest'' \<longrightarrow> edges_from s' x = edges_from s x)
    \<and> (\<forall>c \<in> set cs. \<exists>ts. content_targets state (parse_manifest (se_parsers E)) (volume_of (sv_disk s)) c ts \<and> set ts \<subseteq> set (fst acc'))
    \<and> set (fst acc) \<subseteq> set (fst acc')"
  using assms
proof (induction cs arbitrary: acc s)
  case (Cons c cs)
  from Cons.prems obtain acc1 s1 where 1: "content_step state c acc E s = (Inr acc1, s1)"
    "foreach_sv (content_step state) cs acc1 E s1 = (Inr acc', s')" unfolding foreach_sv_Cons by blast
  from 1(1) obtain ts where ts: "validate_content_graph_v4 state c E s = (Inr ts, s1)" "fst acc1 = fst acc @ ts"
    by (auto simp: content_step_def bind_sv_Inr return_sv_Inr)
  from Cons.IH[OF 1(2)] validate_content_Inr[OF ts(1)] ts(2) show ?case by auto
qed (simp add: return_sv_Inr)

definition thread_targets :: "app_state \<Rightarrow> server_env \<Rightarrow> server \<Rightarrow> thread_ref_v4 \<Rightarrow> bool" where
  "thread_targets state E s t \<longleftrightarrow>
     (\<exists>b d. typed_file state (volume_of (sv_disk s)) Thread3 (tref_descriptor_sha256 t) = Some b
        \<and> parse_descriptor (se_parsers E) b = Some d \<and> sd_thread_id d = tref_thread_id t
        \<and> (\<forall>c \<in> set (sd_rollout d # sd_attachments d). \<exists>ts. content_targets state (parse_manifest (se_parsers E)) (volume_of (sv_disk s)) c ts
             \<and> node_of ` set ts \<subseteq> edges_from s (''thread'', tref_descriptor_sha256 t)))"

lemma thread_step_Inr:
  assumes "thread_step state t acc E s = (Inr acc', s')"
  shows "volume_of (sv_disk s') = volume_of (sv_disk s) \<and> thread_targets state E s' t
    \<and> (\<forall>x. fst x \<noteq> ''chunkManifest'' \<and> x \<noteq> (''thread'', tref_descriptor_sha256 t) \<longrightarrow> edges_from s' x = edges_from s x)
    \<and> (\<exists>obj. fst acc' = fst acc @ [obj] \<and> node_of obj = (''thread'', tref_descriptor_sha256 t))"
proof -
  from assms obtain d obj s1 ts graph s2 where 1:
    "read_typed_json state (\<lambda>E. parse_descriptor (se_parsers E)) (\<lambda>_. descriptor_json) Thread3 (tref_descriptor_sha256 t) E s = (Inr (d, obj), s1)"
    "sd_thread_id d = tref_thread_id t"
    "foreach_sv (content_step state) (sd_rollout d # sd_attachments d) ([], graph_insert obj (snd acc)) E s1 = (Inr (ts, graph), s2)"
    "metadata_sv (\<lambda>R. replace_object_edges obj ts) E s2 = (Inr (), s')" "acc' = (fst acc @ [obj], graph)"
    unfolding thread_step_def by (auto simp: bind_sv_Inr lift_sv_Inr ensure_sv_Inr return_sv_Inr simp del: foreach_sv.simps)
  from read_json_Inr[OF 1(1)] obtain b where b: "sv_db s1 = sv_db s" "volume_of (sv_disk s1) = volume_of (sv_disk s)"
    "typed_file state (volume_of (sv_disk s)) Thread3 (tref_descriptor_sha256 t) = Some b" "parse_descriptor (se_parsers E) b = Some d"
    "obj = \<lparr>ref3_kind = Thread3, ref3_sha256 = tref_descriptor_sha256 t, ref3_byte_length = of_nat (length b)\<rparr>" by blast
  note c = content_steps_Inr[OF 1(3)] and r = replace_edges_Inr[OF 1(4)]
  have node: "node_of obj = (''thread'', tref_descriptor_sha256 t)" by (simp add: node_of_def b(5))
  have vol: "volume_of (sv_disk s') = volume_of (sv_disk s)" using c r b(2) by simp
  have "\<exists>ts'. content_targets state (parse_manifest (se_parsers E)) (volume_of (sv_disk s')) c ts'
      \<and> node_of ` set ts' \<subseteq> edges_from s' (''thread'', tref_descriptor_sha256 t)" if "c \<in> set (sd_rollout d # sd_attachments d)" for c
    using c that r unfolding vol b(2) node fst_conv by (metis image_mono)
  then have "thread_targets state E s' t" unfolding thread_targets_def vol using b(3,4) 1(2) by blast
  moreover have "edges_from s' x = edges_from s x" if "fst x \<noteq> ''chunkManifest''" "x \<noteq> (''thread'', tref_descriptor_sha256 t)" for x
  proof -
    have "edges_from s1 x = edges_from s x" by (simp add: edges_from_def b(1))
    with c r that show ?thesis unfolding node by metis
  qed
  ultimately show ?thesis using vol 1(5) node by simp
qed

lemma thread_targets_cong:
  assumes "thread_targets state E s t" and "volume_of (sv_disk s') = volume_of (sv_disk s)"
    and "edges_from s' (''thread'', tref_descriptor_sha256 t) = edges_from s (''thread'', tref_descriptor_sha256 t)"
  shows "thread_targets state E s' t"
  using assms by (simp add: thread_targets_def)

lemma same_descriptor_same_id:
  "thread_targets state E s t \<Longrightarrow> thread_targets state E s' t' \<Longrightarrow> volume_of (sv_disk s') = volume_of (sv_disk s)
    \<Longrightarrow> tref_descriptor_sha256 t' = tref_descriptor_sha256 t \<Longrightarrow> tref_thread_id t' = tref_thread_id t"
  unfolding thread_targets_def by (metis option.inject)

lemma thread_steps_Inr:
  assumes "foreach_sv (thread_step state) ts acc E s = (Inr acc', s')" and "distinct (map tref_thread_id ts)"
  shows "volume_of (sv_disk s') = volume_of (sv_disk s) \<and> (\<forall>t \<in> set ts. thread_targets state E s' t)
    \<and> (\<forall>x. fst x \<noteq> ''chunkManifest'' \<and> x \<notin> (\<lambda>t. (''thread'', tref_descriptor_sha256 t)) ` set ts \<longrightarrow> edges_from s' x = edges_from s x)
    \<and> node_of ` set (fst acc') = node_of ` set (fst acc) \<union> (\<lambda>t. (''thread'', tref_descriptor_sha256 t)) ` set ts"
  using assms
proof (induction ts arbitrary: acc s)
  case (Cons t ts)
  from Cons.prems(1) obtain acc1 s1 where 1: "thread_step state t acc E s = (Inr acc1, s1)"
    "foreach_sv (thread_step state) ts acc1 E s1 = (Inr acc', s')" unfolding foreach_sv_Cons by blast
  note t = thread_step_Inr[OF 1(1)]
  have IH: "volume_of (sv_disk s') = volume_of (sv_disk s1)" "\<forall>t \<in> set ts. thread_targets state E s' t"
    "\<forall>x. fst x \<noteq> ''chunkManifest'' \<and> x \<notin> (\<lambda>t. (''thread'', tref_descriptor_sha256 t)) ` set ts \<longrightarrow> edges_from s' x = edges_from s1 x"
    "node_of ` set (fst acc') = node_of ` set (fst acc1) \<union> (\<lambda>t. (''thread'', tref_descriptor_sha256 t)) ` set ts"
    using Cons.IH[OF 1(2)] Cons.prems(2) by simp_all
  have "tref_descriptor_sha256 t' \<noteq> tref_descriptor_sha256 t" if "t' \<in> set ts" for t'
  proof
    assume "tref_descriptor_sha256 t' = tref_descriptor_sha256 t"
    with same_descriptor_same_id[of state E s1 t s' t'] t IH(1,2) that have "tref_thread_id t' = tref_thread_id t" by blast
    with Cons.prems(2) that show False by (metis distinct.simps(2) image_eqI list.set_map list.simps(9))
  qed
  then have apart: "(''thread'', tref_descriptor_sha256 t) \<notin> (\<lambda>t. (''thread'', tref_descriptor_sha256 t)) ` set ts" by (metis (no_types, lifting) image_iff prod.inject)
  with IH(3) have "edges_from s' (''thread'', tref_descriptor_sha256 t) = edges_from s1 (''thread'', tref_descriptor_sha256 t)" by simp
  with t IH(1) have here: "thread_targets state E s' t" by (blast intro: thread_targets_cong)
  have rest: "edges_from s' x = edges_from s x"
    if "fst x \<noteq> ''chunkManifest''" "x \<notin> (\<lambda>t. (''thread'', tref_descriptor_sha256 t)) ` set (t # ts)" for x
  proof -
    from that have "x \<noteq> (''thread'', tref_descriptor_sha256 t)" "x \<notin> (\<lambda>t. (''thread'', tref_descriptor_sha256 t)) ` set ts" by auto
    with t IH(3) that(1) show ?thesis by metis
  qed
  from t obtain obj where "fst acc1 = fst acc @ [obj]" "node_of obj = (''thread'', tref_descriptor_sha256 t)" by blast
  with IH(4) have "node_of ` set (fst acc') = node_of ` set (fst acc) \<union> (\<lambda>t. (''thread'', tref_descriptor_sha256 t)) ` set (t # ts)" by auto
  with t IH(1,2) here rest show ?case by simp
qed (simp add: return_sv_Inr)

lemma revision_graph_Inr:
  assumes "validate_revision_graph_v4 state rid E s = (Inr (root, graph), s')"
  shows "volume_of (sv_disk s') = volume_of (sv_disk s)
    \<and> revision_id (se_json E) (se_hash E) (se_uuid_text E) root = Inr rid
    \<and> (\<forall>t \<in> set (rv_threads root). thread_targets state E s' t
         \<and> (''thread'', tref_descriptor_sha256 t) \<in> edges_from s' (''revisionRoot'', rid))"
proof -
  from assms obtain obj s1 u actual s2 ts g where 1:
    "read_typed_json state (\<lambda>E. parse_revision_root (se_parsers E)) (\<lambda>E. revision_root_json (se_uuid_text E)) RevisionRoot3 rid E s = (Inr (root, obj), s1)"
    "map_err invalid_request (validate_revision_root root) = Inr u"
    "map_err invalid_request (revision_id (se_json E) (se_hash E) (se_uuid_text E) root) = Inr rid"
    "foreach_sv (thread_step state) (rv_threads root) ([], graph_insert obj []) E s1 = (Inr (ts, g), s2)"
    "metadata_sv (\<lambda>R. replace_object_edges obj ts) E s2 = (Inr (), s')"
    unfolding validate_revision_graph_v4_def
    by (auto simp: bind_sv_Inr lift_sv_Inr ensure_sv_Inr return_sv_Inr simp del: foreach_sv.simps)
  from read_json_Inr[OF 1(1)] have v: "volume_of (sv_disk s1) = volume_of (sv_disk s)" "node_of obj = (''revisionRoot'', rid)"
    by (auto simp: node_of_def)
  from 1(2) have "validate_thread_refs_v4 (rv_threads root) = Inr ()"
    by (auto simp: map_err_def validate_revision_root_def bindr_eq_Inr_iff split: sum.splits)
  from thread_steps_Inr[OF 1(4) thread_refs_Inr(1)[OF this]]
  have t: "volume_of (sv_disk s2) = volume_of (sv_disk s1)" "\<forall>t \<in> set (rv_threads root). thread_targets state E s2 t"
    "node_of ` set ts = (\<lambda>t. (''thread'', tref_descriptor_sha256 t)) ` set (rv_threads root)" by simp_all
  note r = replace_edges_Inr[OF 1(5)]
  have "thread_targets state E s' t \<and> (''thread'', tref_descriptor_sha256 t) \<in> edges_from s' (''revisionRoot'', rid)"
    if "t \<in> set (rv_threads root)" for t
  proof
    have "(''thread'', tref_descriptor_sha256 t) \<noteq> node_of obj" by (simp add: v(2))
    with r have "edges_from s' (''thread'', tref_descriptor_sha256 t) = edges_from s2 (''thread'', tref_descriptor_sha256 t)" by blast
    with t(2) that r show "thread_targets state E s' t" by (blast intro: thread_targets_cong)
    have "edges_from s' (''revisionRoot'', rid) = node_of ` set ts" using r v(2) by simp
    with t(3) that show "(''thread'', tref_descriptor_sha256 t) \<in> edges_from s' (''revisionRoot'', rid)" by blast
  qed
  moreover have "revision_id (se_json E) (se_hash E) (se_uuid_text E) root = Inr rid" using 1(3) by (simp add: map_err_def split: sum.splits)
  ultimately show ?thesis using r t(1) v(1) by simp
qed

section \<open>A committed revision\<close>

definition kept :: "app_state \<Rightarrow> server \<Rightarrow> storage_object_ref_v3 \<Rightarrow> bool" where
  "kept state s obj \<longleftrightarrow> stored_object state (volume_of (sv_disk s)) obj \<and> needed (sv_db s) (node_of obj)"

lemma commit_root_edges:
  assumes "commit_revision_root R h e y db = Inr ((Created, e'), db')"
  shows "db_edges db' = db_edges db \<and> active_root db' \<lparr>rt_revision = nm_id y, rt_root = nm_id y, rt_schema_version = nm_root_schema_version y\<rparr>"
proof (rule commit_revision_root_created[OF assms])
  fix x ns v db1
  assume a: "normalize_revision R y = Inr x" "read_revision db (rm_id x) = None" "insert_revision x db = Inr (v, db1)"
    and db': "db' = (update_namespace (rm_namespace x) (\<lambda>r. r\<lparr>nr_head := Some (rm_id x), nr_updated_at := rq_now R 1\<rparr>) db1)
       \<lparr>db_roots := db_roots db @ [\<lparr>rt_revision = rm_id x, rt_root = rm_id x, rt_schema_version = rm_root_schema_version x\<rparr>]\<rparr>"
  from insert_revision_Inr[OF a(3)] obtain row where row: "db1 = db\<lparr>db_revisions := db_revisions db @ [row]\<rparr>"
    "rw_id row = rm_id x" "rw_state row = ''active''" by blast
  show ?thesis using row(2,3) normalize_revision_fields[OF a(1)]
    by (simp add: db' update_namespace_def row(1) active_root_def)
qed

lemma sync_directories_Inr:
  assumes "sync_revision_graph_directories state g E s = (Inr u, s')"
  shows "sv_db s' = sv_db s \<and> volume_of (sv_disk s') = volume_of (sv_disk s)"
proof -
  have "keeps_sv (\<lambda>r. sv_db r = sv_db s \<and> volume_of (sv_disk r) = volume_of (sv_disk s)) (sync_revision_graph_directories state g)"
    unfolding sync_revision_graph_directories_def Let_def
    by (intro keeps_bind_sv keeps_foreach_sv keeps_if_sv keeps_return_sv keeps_typed_store
        keeps_store_sv[where V = "\<lambda>v. v = volume_of (sv_disk s)"] keeps_sync_directories) simp_all
  from keeps_svD[OF this, of s E] assms show ?thesis by simp
qed

lemma commit_v4_created:
  assumes "commit_revision_root_v4 state u payload E s = (Inr resp, s')" and "re_created resp"
  obtains rid graph s1 root_length where "validate_revision_graph_v4 state rid E s = (Inr (rc_revision payload, graph), s1)"
    "volume_of (sv_disk s') = volume_of (sv_disk s1)" "\<And>x. edges_from s' x = edges_from s1 x"
    "active_root (sv_db s') \<lparr>rt_revision = rid, rt_root = rid, rt_schema_version = root_length\<rparr>"
proof -
  from assms obtain rid graph s1 obj u1 s2 metadata epoch where 1:
    "validate_revision_graph_v4 state rid E s = (Inr (rc_revision payload, graph), s1)"
    "sync_revision_graph_directories state graph E s1 = (Inr u1, s2)"
    "map_err (invalid_request \<circ> show_metadata_error) (from_revision_root_v4 (se_json E) (se_hash E) (se_uuid_text E)
       (rc_revision payload) (ref3_byte_length (obj :: storage_object_ref_v3)) graph) = Inr metadata"
    "metadata_sv (\<lambda>R. commit_revision_root R (rc_expected_head payload) (rc_expected_namespace_epoch payload) metadata) E s2
       = (Inr (Created, epoch), s')"
    unfolding commit_revision_root_v4_def by (auto simp: bind_sv_Inr lift_sv_Inr ensure_sv_Inr return_sv_Inr)
  from revision_graph_Inr[OF 1(1)] 1(3) have rid: "nm_id metadata = rid"
    by (auto simp: map_err_def from_revision_root_v4_def bindr_eq_Inr_iff split: sum.splits)
  from 1(4) obtain R db where db: "commit_revision_root R (rc_expected_head payload) (rc_expected_namespace_epoch payload) metadata (sv_db s2) = Inr ((Created, epoch), db)"
    "s' = s2\<lparr>sv_calls := Suc (sv_calls s2), sv_db := db\<rparr>"
    by (auto simp: metadata_sv_Inr)
  from commit_root_edges[OF db(1)] sync_directories_Inr[OF 1(2)]
  show thesis by (intro that[OF 1(1), of "nm_root_schema_version metadata"]) (simp_all add: db(2) edges_from_def rid)
qed

definition content_kept :: "app_state \<Rightarrow> server_env \<Rightarrow> server \<Rightarrow> content_ref_v4 \<Rightarrow> bool" where
  "content_kept state E s content \<longleftrightarrow>
     (case storage content of
        WholeRef h \<Rightarrow> kept state s \<lparr>ref3_kind = Whole3, ref3_sha256 = h, ref3_byte_length = content_byte_length content\<rparr>
      | ChunkedRef m \<Rightarrow> (\<exists>b manifest. typed_file state (volume_of (sv_disk s)) ChunkManifest3 m = Some b
          \<and> parse_manifest (se_parsers E) b = Some manifest \<and> validate_chunk_manifest_v4 manifest = Inr ()
          \<and> cm_logical_sha256 manifest = logical_sha256 content \<and> cm_byte_length manifest = content_byte_length content
          \<and> kept state s \<lparr>ref3_kind = ChunkManifest3, ref3_sha256 = m, ref3_byte_length = of_nat (length b)\<rparr>
          \<and> (\<forall>chunk \<in> set (cm_chunks manifest). kept state s (chunk_ref chunk))))"

lemma content_targets_kept:
  assumes "content_targets state (parse_manifest (se_parsers E)) (volume_of (sv_disk s)) content ts"
    and "\<And>t. t \<in> set ts \<Longrightarrow> needed (sv_db s) (node_of t)"
  shows "content_kept state E s content"
proof (cases "storage content")
  case (ChunkedRef m)
  from assms(1) ChunkedRef obtain b manifest where m: "typed_file state (volume_of (sv_disk s)) ChunkManifest3 m = Some b"
    "parse_manifest (se_parsers E) b = Some manifest" "validate_chunk_manifest_v4 manifest = Inr ()"
    "cm_logical_sha256 manifest = logical_sha256 content" "cm_byte_length manifest = content_byte_length content"
    "ts = \<lparr>ref3_kind = ChunkManifest3, ref3_sha256 = m, ref3_byte_length = of_nat (length b)\<rparr> # map chunk_ref (cm_chunks manifest)"
    by (auto simp: content_targets_def)
  have "kept state s t" if "t \<in> set ts" for t using assms that by (simp add: kept_def content_targets_def)
  with m ChunkedRef show ?thesis by (simp add: content_kept_def)
qed (use assms in \<open>simp add: content_targets_def content_kept_def kept_def\<close>)

section \<open>Contents listed twice\<close>

lemma content_targets_unique:
  "content_targets state P v c ts \<Longrightarrow> content_targets state P v c ts' \<Longrightarrow> ts' = ts"
  by (cases "storage c") (auto simp: content_targets_def)

lemma content_steps_concat:
  assumes "foreach_sv (content_step state) cs acc E s = (Inr acc', s')"
    and "list_all2 (content_targets state (parse_manifest (se_parsers E)) (volume_of (sv_disk s))) cs tss"
  shows "fst acc' = fst acc @ concat tss"
  using assms
proof (induction cs arbitrary: acc s tss)
  case (Cons c cs)
  from Cons.prems(1) obtain acc1 s1 where 1: "content_step state c acc E s = (Inr acc1, s1)"
    "foreach_sv (content_step state) cs acc1 E s1 = (Inr acc', s')" unfolding foreach_sv_Cons by blast
  from 1(1) obtain ts where ts: "validate_content_graph_v4 state c E s = (Inr ts, s1)" "fst acc1 = fst acc @ ts"
    by (auto simp: content_step_def bind_sv_Inr return_sv_Inr)
  from Cons.prems(2) obtain ts' tss' where t: "tss = ts' # tss'" "content_targets state (parse_manifest (se_parsers E)) (volume_of (sv_disk s)) c ts'"
    "list_all2 (content_targets state (parse_manifest (se_parsers E)) (volume_of (sv_disk s))) cs tss'"
    by (auto simp: list_all2_Cons1)
  note v = validate_content_Inr[OF ts(1)]
  from v t(2) have "ts' = ts" by (blast dest: content_targets_unique)
  with Cons.IH[OF 1(2), of tss'] v t(1,3) ts(2) show ?case by simp
qed (simp add: return_sv_Inr)

lemma insert_edges_distinct:
  "foldr_res (insert_edge x) ts es0 = Inr es \<Longrightarrow> distinct (map node_of ts) \<and> (\<forall>t \<in> set ts. (x, node_of t) \<notin> set es0)"
proof (induction ts arbitrary: es0)
  case (Cons t ts)
  from Cons.prems obtain es1 where "insert_edge x t es0 = Inr es1" "foldr_res (insert_edge x) ts es1 = Inr es"
    by (auto simp: bindr_eq_Inr_iff)
  then have "(x, node_of t) \<notin> set es0" "foldr_res (insert_edge x) ts (es0 @ [(x, node_of t)]) = Inr es"
    by (simp_all add: insert_edge_def bindr_eq_Inr_iff)
  with Cons.IH[OF this(2)] show ?case by (auto simp: image_iff)
qed simp

lemma foreach_sv_visits:
  assumes "foreach_sv f xs acc E s = (Inr acc', s')" and "x \<in> set xs" and "\<And>x acc. keeps_sv (on_volume v) (f x acc)" and "on_volume v s"
  shows "\<exists>acc1 s1 acc2 s2. f x acc1 E s1 = (Inr acc2, s2) \<and> on_volume v s1"
  using assms(1,2,4)
proof (induction xs arbitrary: acc s)
  case (Cons y xs)
  from Cons.prems(1) obtain acc1 s1 where 1: "f y acc E s = (Inr acc1, s1)" "foreach_sv f xs acc1 E s1 = (Inr acc', s')"
    unfolding foreach_sv_Cons by blast
  from keeps_svD[OF assms(3)[of y acc] Cons.prems(3), of E] 1(1) have "on_volume v s1" by simp
  with Cons.IH[OF 1(2)] 1(1) Cons.prems(2,3) show ?case by auto
qed simp

lemma thread_step_distinct:
  assumes "thread_step state t acc E s = (Inr acc', s')"
    and "typed_file state (volume_of (sv_disk s)) Thread3 (tref_descriptor_sha256 t) = Some b" and "parse_descriptor (se_parsers E) b = Some d"
    and "list_all2 (content_targets state (parse_manifest (se_parsers E)) (volume_of (sv_disk s))) (sd_rollout d # sd_attachments d) tss"
  shows "distinct (map node_of (concat tss))"
proof -
  from assms(1) obtain d' obj s1 ts graph s2 where 1:
    "read_typed_json state (\<lambda>E. parse_descriptor (se_parsers E)) (\<lambda>_. descriptor_json) Thread3 (tref_descriptor_sha256 t) E s = (Inr (d', obj), s1)"
    "foreach_sv (content_step state) (sd_rollout d' # sd_attachments d') ([], graph_insert obj (snd acc)) E s1 = (Inr (ts, graph), s2)"
    "metadata_sv (\<lambda>R. replace_object_edges obj ts) E s2 = (Inr (), s')"
    unfolding thread_step_def by (auto simp: bind_sv_Inr lift_sv_Inr ensure_sv_Inr return_sv_Inr simp del: foreach_sv.simps)
  from read_json_Inr[OF 1(1)] assms(2,3) have d: "d' = d" "volume_of (sv_disk s1) = volume_of (sv_disk s)" by auto
  from content_steps_concat[OF 1(2), of tss] assms(4) d have "ts = concat tss" by simp
  moreover from 1(3) have "distinct (map node_of ts)"
    by (auto simp: metadata_sv_Inr replace_object_edges_def bindr_eq_Inr_iff dest: insert_edges_distinct)
  ultimately show ?thesis by simp
qed

end
