(* ===== verification/ServerCommitProps.thy ===== *)
theory ServerCommitProps
  imports ServerCommit
begin

text \<open>
  The properties of commits: what a created revision leaves on the server, and the revisions that
  are always refused.
\<close>

section \<open>A commit that succeeds\<close>

definition quiet :: "server_env \<Rightarrow> bool" where
  "quiet E \<longleftrightarrow> se_faults E = (\<lambda>_. None) \<and> se_database_fault E = (\<lambda>_. None)"

text \<open>A call that returns \<open>a\<close> without touching the volume or the database.\<close>

definition reads_as :: "'a srv \<Rightarrow> server_env \<Rightarrow> server \<Rightarrow> 'a \<Rightarrow> bool" where
  "reads_as m E s a \<longleftrightarrow> (\<exists>s'. m E s = (Inr a, s') \<and> sv_db s' = sv_db s \<and> volume_of (sv_disk s') = volume_of (sv_disk s))"

lemma read_quiet: "f (volume_of d) = Inr a \<Longrightarrow> read_io f (\<lambda>_. None) d = (Inr a, d\<lparr>clock := Suc (clock d)\<rparr>)"
  by (cases d) (simp add: read_io_def perform_def)

lemma reads_store: "quiet E \<Longrightarrow> m (\<lambda>_. None) (sv_disk s) = (Inr (Inr a), d) \<Longrightarrow> volume_of d = volume_of (sv_disk s) \<Longrightarrow> reads_as (store_sv m) E s a"
  by (simp add: reads_as_def store_sv_def quiet_def)

lemma object_path_runs: "object_path st h = Inr p \<Longrightarrow> object_path_st st h F d = (Inr (Inr p), d)"
  by (simp add: object_path_st_def lift_res_def)

lemma open_download_runs:
  assumes "object_path st h = Inr p" and "file_at (volume_of d) p = Some b" and "\<not> of_nat (length b) > os_max_object_bytes st"
  shows "\<exists>d'. open_download st h (\<lambda>_. None) d = (Inr (Inr \<lparr>od_file = b, od_byte_length = of_nat (length b)\<rparr>), d') \<and> volume_of d' = volume_of d"
proof -
  from assms(2) have "entry_at (volume_of d) p = Some (FileEntry b)" by (auto simp: file_at_def split: option.splits entry.splits)
  with assms(1,3) show ?thesis
    by (simp add: open_download_def bind_st_def bind_io_def object_path_runs call_st_def catch_io_def read_quiet return_st_def lift_res_def
        ensure_st_def)
qed

lemma missing_none_runs:
  assumes "object_path st (ob_sha256 ob) = Inr p" and "file_at (volume_of d) p = Some b" and "of_nat (length b) = ob_byte_length ob"
    and "\<not> ob_byte_length ob > os_max_object_bytes st"
  shows "\<exists>d'. missing_objects st [ob] (\<lambda>_. None) d = (Inr (Inr []), d') \<and> volume_of d' = volume_of d"
proof -
  from assms(2) have "entry_at (volume_of d) p = Some (FileEntry b)" by (auto simp: file_at_def split: option.splits entry.splits)
  with assms(1,3,4) show ?thesis
    by (simp add: missing_objects_def missing_step_def bind_st_def bind_io_def object_path_runs call_st_def catch_io_def read_quiet return_st_def
        lift_res_def ensure_st_def)
qed

lemma read_json_runs:
  assumes "quiet E" and "st_typed_objects state kind = Some st" and "object_path st h = Inr p"
    and "file_at (volume_of (sv_disk s)) p = Some b" and "\<not> of_nat (length b) > os_max_object_bytes st"
    and "digest_bytes_v4 (se_hash E) b = h" and "parse E b = Some x" and "write_canonical_json (se_json E) (to_json E x) = b"
  shows "reads_as (read_typed_json state parse to_json kind h) E s (x, \<lparr>ref3_kind = kind, ref3_sha256 = h, ref3_byte_length = of_nat (length b)\<rparr>)"
proof -
  from open_download_runs[OF assms(3,4,5)] obtain d where
    d: "open_download st h (\<lambda>_. None) (sv_disk s) = (Inr (Inr \<lparr>od_file = b, od_byte_length = of_nat (length b)\<rparr>), d)" "volume_of d = volume_of (sv_disk s)"
    by blast
  have "read_io (\<lambda>_. Inr ()) (\<lambda>_. None) d = (Inr (), d\<lparr>clock := Suc (clock d)\<rparr>)" by (rule read_quiet) simp
  with d assms(1,2,6-8) show ?thesis
    by (simp add: reads_as_def read_typed_json_def bind_sv_def typed_store_def return_sv_def store_sv_def quiet_def io_sv_def Let_def ensure_sv_def)
qed

lemma ensure_object_runs:
  assumes "quiet E" and "st_typed_objects state (ref3_kind obj) = Some st" and "object_path st (ref3_sha256 obj) = Inr p"
    and "file_at (volume_of (sv_disk s)) p = Some b" and "of_nat (length b) = ref3_byte_length obj" and "\<not> ref3_byte_length obj > os_max_object_bytes st"
  shows "reads_as (ensure_typed_object state obj) E s ()"
proof -
  obtain d where "missing_objects st [\<lparr>ob_sha256 = ref3_sha256 obj, ob_byte_length = ref3_byte_length obj\<rparr>] (\<lambda>_. None) (sv_disk s) = (Inr (Inr []), d)"
    "volume_of d = volume_of (sv_disk s)"
    using missing_none_runs[of st "\<lparr>ob_sha256 = ref3_sha256 obj, ob_byte_length = ref3_byte_length obj\<rparr>" p "sv_disk s" b] assms(3-6) by auto
  with assms(1,2) show ?thesis
    by (simp add: reads_as_def ensure_typed_object_def bind_sv_def typed_store_def return_sv_def store_sv_def quiet_def ensure_sv_def)
qed

lemma metadata_runs: "quiet E \<Longrightarrow> h (se_request E (sv_calls s)) (sv_db s) = Inr (a, db) \<Longrightarrow>
    metadata_sv h E s = (Inr a, s\<lparr>sv_calls := Suc (sv_calls s), sv_db := db\<rparr>)"
  by (simp add: metadata_sv_def quiet_def)

definition toy_file :: "storage_object_kind_v3 \<Rightarrow> path" where
  "toy_file k = [''typed'', directory_v3 k, ''objects'', ''sha256'', ''00'', replicate 62 CHR ''0'']"

definition toy_descriptor :: semantic_thread_descriptor_v4 where
  "toy_descriptor = described stored_contents stored_thread"

definition toy_content_of :: "storage_object_kind_v3 \<Rightarrow> bytes" where
  "toy_content_of k = (case k of
       RevisionRoot3 \<Rightarrow> write_canonical_json toy_text (revision_root_json (\<lambda>_. ''u'') toy_root)
     | Thread3 \<Rightarrow> write_canonical_json toy_text (descriptor_json toy_descriptor)
     | _ \<Rightarrow> [])"

definition toy_upload :: server where
  "toy_upload = \<lparr>sv_disk = \<lparr>volume_of = map (\<lambda>k. (toy_file k, FileEntry (toy_content_of k))) ALL_kinds_v3
       @ map (\<lambda>k. (butlast (toy_file k), DirEntry)) ALL_kinds_v3 @ map (\<lambda>k. (butlast (butlast (toy_file k)), DirEntry)) ALL_kinds_v3,
     clock = 0\<rparr>, sv_db = toy_named, sv_calls = 0\<rparr>"

definition toy_upload_env :: server_env where
  "toy_upload_env = toy_env\<lparr>se_parsers := \<lparr>parse_manifest = \<lambda>_. None, parse_descriptor = \<lambda>_. Some toy_descriptor,
    parse_overlay = \<lambda>_. None, parse_snapshot_root = \<lambda>_. None, parse_revision_root = \<lambda>_. Some toy_root\<rparr>\<rparr>"

definition toy_payload_v4 :: revision_commit_request_v4 where
  "toy_payload_v4 = \<lparr>rc_expected_head = None, rc_expected_namespace_epoch = 0, rc_revision = toy_root\<rparr>"

lemma toy_quiet: "quiet toy_upload_env"
  by (simp add: quiet_def toy_upload_env_def toy_env_def)

lemma toy_files: "file_at (volume_of (sv_disk toy_upload)) (toy_file k) = Some (toy_content_of k)"
  by (cases k) (simp_all add: toy_upload_def ALL_kinds_v3_def file_at_def entry_at_def toy_file_def)

lemma toy_digest_text: "toy_digest = ''sha256:'' @ replicate 64 CHR ''0''"
  by (simp add: toy_digest_def digest_bytes_v4_def toy_hash_def)

lemma toy_paths: "object_path (toy_object_store k) toy_digest = Inr (toy_file k)"
proof -
  have "validate_sha256 toy_digest = Inr ()"
    by (simp add: toy_digest_text validate_sha256_def strip_prefix_def list_all_iff is_lower_hex_def is_ascii_digit_def)
  then show ?thesis
    by (simp add: object_path_def toy_object_store_def toy_file_def toy_digest_text numeral_eq_Suc)
qed

lemma toy_upload_env_simps [simp]: "se_json toy_upload_env = toy_text" "se_hash toy_upload_env = toy_hash" "se_uuid_text toy_upload_env = (\<lambda>_. ''u'')"
  "se_request toy_upload_env i = toy_request" "parse_descriptor (se_parsers toy_upload_env) b = Some toy_descriptor"
  "parse_revision_root (se_parsers toy_upload_env) b = Some toy_root"
  by (simp_all add: toy_upload_env_def toy_env_def)

lemma toy_app_simps: "st_typed_objects toy_app k = Some (toy_object_store k)" "\<not> n > os_max_object_bytes (toy_object_store k)"
  by (simp_all add: toy_app_def toy_object_store_def) 

abbreviation toy_obj :: "storage_object_kind_v3 \<Rightarrow> storage_object_ref_v3" where
  "toy_obj k \<equiv> \<lparr>ref3_kind = k, ref3_sha256 = toy_digest, ref3_byte_length = of_nat (length (toy_content_of k))\<rparr>"

lemma toy_reads:
  assumes "volume_of (sv_disk s) = volume_of (sv_disk toy_upload)"
  shows "reads_as (read_typed_json toy_app (\<lambda>E. parse_revision_root (se_parsers E)) (\<lambda>E. revision_root_json (se_uuid_text E)) RevisionRoot3 toy_digest)
      toy_upload_env s (toy_root, toy_obj RevisionRoot3)"
    and "reads_as (read_typed_json toy_app (\<lambda>E. parse_descriptor (se_parsers E)) (\<lambda>_. descriptor_json) Thread3 toy_digest)
      toy_upload_env s (toy_descriptor, toy_obj Thread3)"
    and "reads_as (ensure_typed_object toy_app (toy_obj k)) toy_upload_env s ()"
proof -
  note r = read_json_runs[OF toy_quiet toy_app_simps(1) toy_paths, of s _ "toy_content_of _"]
  show "reads_as (read_typed_json toy_app (\<lambda>E. parse_revision_root (se_parsers E)) (\<lambda>E. revision_root_json (se_uuid_text E)) RevisionRoot3 toy_digest)
      toy_upload_env s (toy_root, toy_obj RevisionRoot3)"
    "reads_as (read_typed_json toy_app (\<lambda>E. parse_descriptor (se_parsers E)) (\<lambda>_. descriptor_json) Thread3 toy_digest)
      toy_upload_env s (toy_descriptor, toy_obj Thread3)"
    by (rule r; simp add: assms toy_files toy_app_simps toy_digest_any toy_content_of_def)+
  show "reads_as (ensure_typed_object toy_app (toy_obj k)) toy_upload_env s ()"
    by (rule ensure_object_runs[OF toy_quiet toy_app_simps(1), where p = "toy_file k" and b = "toy_content_of k"])
      (simp_all add: assms toy_files toy_app_simps toy_paths)
qed

lemma toy_descriptor_contents: "sd_rollout toy_descriptor = stored_content" "sd_attachments toy_descriptor = []"
    "sd_thread_id toy_descriptor = ''a''" "validate_descriptor toy_descriptor = Inr ()"
  unfolding toy_descriptor_def by code_simp+

lemma toy_content_validated:
  assumes "volume_of (sv_disk s) = volume_of (sv_disk toy_upload)"
  shows "reads_as (validate_content_graph_v4 toy_app stored_content) toy_upload_env s [toy_obj Whole3]"
proof -
  have s: "storage stored_content = WholeRef toy_digest" "content_byte_length stored_content = of_nat (length (toy_content_of Whole3))"
    by (simp_all add: stored_content_def toy_digest_any toy_content_of_def)
  from toy_reads(3)[OF assms, of Whole3] show ?thesis
    by (auto simp: reads_as_def validate_content_graph_v4_def Let_def s bind_sv_def return_sv_def)
qed

lemma toy_thread_validated:
  assumes "volume_of (sv_disk s) = volume_of (sv_disk toy_upload)" and "db_edges (sv_db s) = []"
  shows "\<exists>s'. thread_step toy_app toy_ref ([], g) toy_upload_env s
      = (Inr ([toy_obj Thread3], graph_insert (toy_obj Whole3) (graph_insert (toy_obj Thread3) g)), s')
    \<and> volume_of (sv_disk s') = volume_of (sv_disk toy_upload)
    \<and> sv_db s' = (sv_db s)\<lparr>db_edges := [((''thread'', toy_digest), (''whole'', toy_digest))]\<rparr>"
proof -
  from toy_reads(2)[OF assms(1)] obtain s1 where 1: "read_typed_json toy_app (\<lambda>E. parse_descriptor (se_parsers E)) (\<lambda>_. descriptor_json) Thread3 toy_digest
      toy_upload_env s = (Inr (toy_descriptor, toy_obj Thread3), s1)" "sv_db s1 = sv_db s" "volume_of (sv_disk s1) = volume_of (sv_disk toy_upload)"
    using assms(1) by (auto simp: reads_as_def)
  from toy_content_validated[OF 1(3)] obtain s2 where 2: "validate_content_graph_v4 toy_app stored_content toy_upload_env s1 = (Inr [toy_obj Whole3], s2)"
    "sv_db s2 = sv_db s" "volume_of (sv_disk s2) = volume_of (sv_disk toy_upload)"
    using 1(2,3) by (auto simp: reads_as_def)
  have 3: "metadata_sv (\<lambda>R. replace_object_edges (toy_obj Thread3) [toy_obj Whole3]) toy_upload_env s2
      = (Inr (), s2\<lparr>sv_calls := Suc (sv_calls s2), sv_db := (sv_db s2)\<lparr>db_edges := [((''thread'', toy_digest), (''whole'', toy_digest))]\<rparr>\<rparr>)"
    by (rule metadata_runs[OF toy_quiet]) (simp add: replace_object_edges_def insert_edge_def 2(2) assms(2) node_of_def)
  show ?thesis
    by (simp add: thread_step_def toy_ref_def bind_sv_def 1(1) toy_descriptor_contents lift_sv_def return_sv_def ensure_sv_def content_step_def
        2(1) 3) (simp add: 2)
qed

lemma toy_root_fields: "rv_threads toy_root = [toy_ref]" "rv_namespace_id toy_root = toy_namespace" "rv_parent_revision toy_root = None"
    "rv_created_at toy_root = ''t''"
  by (simp_all add: toy_root_def)

lemma toy_revision_id: "revision_id toy_text toy_hash (\<lambda>_. ''u'') toy_root = Inr toy_digest"
  by (simp add: revision_id_def toy_root_valid toy_digest_any)

definition toy_graph :: "storage_object_ref_v3 list" where
  "toy_graph = [toy_obj Whole3, toy_obj Thread3, toy_obj RevisionRoot3]"

definition toy_linked :: server_db where
  "toy_linked = toy_named\<lparr>db_edges := [((''thread'', toy_digest), (''whole'', toy_digest)), ((''revisionRoot'', toy_digest), (''thread'', toy_digest))]\<rparr>"

lemma toy_named_edges: "db_edges toy_named = []"
  by (simp add: toy_named_def empty_db_def)

lemma toy_graph_order:
  "bt_values (graph_insert (toy_obj Whole3) (graph_insert (toy_obj Thread3) (graph_insert (toy_obj RevisionRoot3) []))) = toy_graph"
  by (simp add: graph_insert_def bt_values_def toy_graph_def)

lemma toy_graph_validated:
  "\<exists>s'. validate_revision_graph_v4 toy_app toy_digest toy_upload_env toy_upload = (Inr (toy_root, toy_graph), s')
     \<and> volume_of (sv_disk s') = volume_of (sv_disk toy_upload) \<and> sv_db s' = toy_linked"
proof -
  from toy_reads(1)[of toy_upload] obtain s1 where 1: "read_typed_json toy_app (\<lambda>E. parse_revision_root (se_parsers E)) (\<lambda>E. revision_root_json (se_uuid_text E))
      RevisionRoot3 toy_digest toy_upload_env toy_upload = (Inr (toy_root, toy_obj RevisionRoot3), s1)" "sv_db s1 = toy_named"
      "volume_of (sv_disk s1) = volume_of (sv_disk toy_upload)"
    by (auto simp: reads_as_def toy_upload_def)
  from toy_thread_validated[OF 1(3), of "graph_insert (toy_obj RevisionRoot3) []"] obtain s2 where
    2: "thread_step toy_app toy_ref ([], graph_insert (toy_obj RevisionRoot3) []) toy_upload_env s1 = (Inr ([toy_obj Thread3],
       graph_insert (toy_obj Whole3) (graph_insert (toy_obj Thread3) (graph_insert (toy_obj RevisionRoot3) []))), s2)"
    "volume_of (sv_disk s2) = volume_of (sv_disk toy_upload)" "sv_db s2 = toy_named\<lparr>db_edges := [((''thread'', toy_digest), (''whole'', toy_digest))]\<rparr>"
    by (auto simp: 1(2) toy_named_edges)
  have 3: "metadata_sv (\<lambda>R. replace_object_edges (toy_obj RevisionRoot3) [toy_obj Thread3]) toy_upload_env s2
      = (Inr (), s2\<lparr>sv_calls := Suc (sv_calls s2), sv_db := toy_linked\<rparr>)"
    by (rule metadata_runs[OF toy_quiet]) (simp add: replace_object_edges_def insert_edge_def 2(3) node_of_def toy_linked_def)
  show ?thesis
    by (simp add: validate_revision_graph_v4_def bind_sv_def 1(1) lift_sv_def return_sv_def ensure_sv_def toy_root_valid toy_revision_id
        toy_root_fields 2(1) 3 toy_graph_order) (simp add: 2)
qed

lemma sync_directory_runs: "dir_at (volume_of d) p \<Longrightarrow> sync_directory p (\<lambda>_. None) d = (Inr (Inr ()), d\<lparr>clock := Suc (clock d)\<rparr>)"
  by (simp add: sync_directory_def call_st_def catch_io_def bind_io_def read_quiet return_st_def lift_res_def)

lemma toy_upload_dirs: "dir_at (volume_of (sv_disk toy_upload)) (butlast (toy_file k))"
    "dir_at (volume_of (sv_disk toy_upload)) (os_sha256_dir (toy_object_store k))"
  by (cases k; simp add: toy_upload_def ALL_kinds_v3_def dir_at_def entry_at_def toy_file_def toy_object_store_def)+

lemma toy_sync_one:
  assumes "volume_of d = volume_of (sv_disk toy_upload)"
  shows "\<exists>d'. sync_object_directories (toy_object_store k) [toy_digest] (\<lambda>_. None) d = (Inr (Inr 2), d') \<and> volume_of d' = volume_of (sv_disk toy_upload)"
proof -
  have "dir_at (volume_of d) (butlast (toy_file k))" "dir_at (volume_of d) (os_sha256_dir (toy_object_store k))" using toy_upload_dirs assms by simp_all
  then show ?thesis
    by (simp add: sync_object_directories_def bind_st_def bind_io_def object_path_runs[OF toy_paths] return_st_def lift_res_def Let_def btree_set_def
      sync_directory_runs assms)
qed

lemma toy_sync: 
  assumes "volume_of (sv_disk s) = volume_of (sv_disk toy_upload)"
  shows "\<exists>s'. sync_revision_graph_directories toy_app toy_graph toy_upload_env s = (Inr (), s') \<and> sv_db s' = sv_db s
    \<and> volume_of (sv_disk s') = volume_of (sv_disk toy_upload)"
proof -
  have one: "\<exists>s'. store_sv (sync_object_directories (toy_object_store k) [toy_digest]) toy_upload_env r = (Inr 2, s') \<and> sv_db s' = sv_db r
      \<and> volume_of (sv_disk s') = volume_of (sv_disk toy_upload)" if "volume_of (sv_disk r) = volume_of (sv_disk toy_upload)" for k r
    using toy_sync_one[OF that, of k] toy_quiet by (auto simp: store_sv_def quiet_def)
  from one[OF assms, of Whole3] obtain s1 where 1: "store_sv (sync_object_directories (toy_object_store Whole3) [toy_digest]) toy_upload_env s = (Inr 2, s1)"
    "sv_db s1 = sv_db s" "volume_of (sv_disk s1) = volume_of (sv_disk toy_upload)" by blast
  from one[OF 1(3), of Thread3] obtain s2 where 2: "store_sv (sync_object_directories (toy_object_store Thread3) [toy_digest]) toy_upload_env s1 = (Inr 2, s2)"
    "sv_db s2 = sv_db s" "volume_of (sv_disk s2) = volume_of (sv_disk toy_upload)" using 1(2) by auto
  from one[OF 2(3), of RevisionRoot3] obtain s3 where 3: "store_sv (sync_object_directories (toy_object_store RevisionRoot3) [toy_digest]) toy_upload_env s2 = (Inr 2, s3)"
    "sv_db s3 = sv_db s" "volume_of (sv_disk s3) = volume_of (sv_disk toy_upload)" using 2(2) by auto
  show ?thesis
    by (simp add: sync_revision_graph_directories_def Let_def ALL_kinds_v3_def toy_graph_def bind_sv_def return_sv_def typed_store_def toy_app_simps
        1(1) 2(1) 3(1)) (simp add: 3)
qed

definition toy_metadata :: new_revision_metadata where
  "toy_metadata = \<lparr>nm_id = toy_digest, nm_namespace = toy_namespace, nm_parent = None, nm_created_at = ''t'',
     nm_manifest_bytes = 245, nm_thread_count = 1, nm_objects = [], nm_object_count_override = Some 3,
     nm_total_bytes_override = Some 743, nm_root_schema_version = 4\<rparr>"

lemma toy_lengths: "length (toy_content_of RevisionRoot3) = 245" "length (toy_content_of Thread3) = 498" "length (toy_content_of Whole3) = 0"
  by code_simp+

lemma toy_from_root: "from_revision_root_v4 toy_text toy_hash (\<lambda>_. ''u'') toy_root (of_nat (length (toy_content_of RevisionRoot3))) toy_graph = Inr toy_metadata"
  by (simp add: from_revision_root_v4_def toy_root_valid toy_revision_id toy_graph_def checked_add_def toy_lengths toy_metadata_def toy_root_fields)

lemma toy_digest_sha: "validate_sha256 toy_digest = Inr ()"
  by (simp add: toy_digest_text validate_sha256_def strip_prefix_def list_all_iff is_lower_hex_def is_ascii_digit_def)

lemma toy_metadata_normalized:
  "normalize_revision toy_request toy_metadata = Inr \<lparr>rm_id = toy_digest, rm_namespace = toy_namespace, rm_parent = None,
     rm_created_at = ''t'', rm_manifest_bytes = 245, rm_thread_count = 1, rm_object_count = 3, rm_total_bytes = 743, rm_objects = [],
     rm_root_schema_version = 4\<rparr>"
  by (simp add: normalize_revision_def toy_metadata_def toy_digest_sha toy_namespace_version bt_values_def)

lemma toy_root_commits: "\<exists>db. commit_revision_root toy_request None 0 toy_metadata toy_linked = Inr ((Created, 0), db)"
  by (simp add: commit_revision_root_def toy_metadata_normalized toy_linked_def toy_named_def find_namespace_def toy_namespace_row_def empty_db_def
      read_revision_def find_revision_def parent_in_namespace_def insert_revision_def sql_integer_def advance_head_def
      update_namespace_def)

lemma toy_commit_succeeds:
  "\<exists>resp s'. commit_revision_root_v4 toy_app toy_namespace toy_payload_v4 toy_upload_env toy_upload = (Inr resp, s') \<and> re_created resp"
proof -
  from toy_graph_validated obtain s1 where 1: "validate_revision_graph_v4 toy_app toy_digest toy_upload_env toy_upload = (Inr (toy_root, toy_graph), s1)"
    "volume_of (sv_disk s1) = volume_of (sv_disk toy_upload)" "sv_db s1 = toy_linked" by blast
  from toy_sync[OF 1(2)] obtain s2 where 2: "sync_revision_graph_directories toy_app toy_graph toy_upload_env s1 = (Inr (), s2)" "sv_db s2 = toy_linked"
    using 1(3) by auto
  from toy_root_commits obtain db where "commit_revision_root toy_request None 0 toy_metadata toy_linked = Inr ((Created, 0), db)" by blast
  then have 3: "metadata_sv (\<lambda>R. commit_revision_root R None 0 toy_metadata) toy_upload_env s2
      = (Inr (Created, 0), s2\<lparr>sv_calls := Suc (sv_calls s2), sv_db := db\<rparr>)"
    by (intro metadata_runs[OF toy_quiet]) (simp add: 2(2))
  have req: "validate_commit_request_v4 toy_text toy_hash (\<lambda>_. ''u'') toy_payload_v4 = Inr toy_digest"
    by (simp add: validate_commit_request_v4_def toy_payload_v4_def toy_root_valid toy_revision_id toy_root_fields)
  have found: "find (\<lambda>x. ref3_kind x = RevisionRoot3) toy_graph = Some (toy_obj RevisionRoot3)" by (simp add: toy_graph_def)
  show ?thesis
    by (simp add: commit_revision_root_v4_def bind_sv_def lift_sv_def return_sv_def ensure_sv_def req 1(1) found 2(1) toy_from_root)
      (simp add: toy_payload_v4_def toy_root_fields 1(1) found 2(1) toy_from_root 3 return_sv_def)
qed

section \<open>The property\<close>

text \<open>
  C2: When the server answers a commit with a newly created revision, everything the revision consists
  of is on its disk and protected: for every thread the root names there is the descriptor, with the
  thread's identifier; for the rollout and every attachment of the descriptor there is the whole file,
  or the chunk manifest with every chunk, each with its declared length; and the edges lead to each
  of them from the root of an active revision, so that the collector spares it.
\<close>
theorem committed_revision_kept:
  assumes "commit_revision_root_v4 state u payload E s = (Inr resp, s')" and "re_created resp"
  shows "\<forall>t \<in> set (rv_threads (rc_revision payload)). \<exists>b d.
      typed_file state (volume_of (sv_disk s')) Thread3 (tref_descriptor_sha256 t) = Some b
      \<and> parse_descriptor (se_parsers E) b = Some d \<and> sd_thread_id d = tref_thread_id t
      \<and> needed (sv_db s') (wire_name_v3 Thread3, tref_descriptor_sha256 t)
      \<and> (\<forall>c \<in> set (sd_rollout d # sd_attachments d). content_kept state E s' c)"
proof (rule commit_v4_created[OF assms], intro ballI)
  fix rid graph s1 n t
  assume g: "validate_revision_graph_v4 state rid E s = (Inr (rc_revision payload, graph), s1)"
    and same: "volume_of (sv_disk s') = volume_of (sv_disk s1)" "\<And>x. edges_from s' x = edges_from s1 x"
    and root: "active_root (sv_db s') \<lparr>rt_revision = rid, rt_root = rid, rt_schema_version = n\<rparr>"
    and t: "t \<in> set (rv_threads (rc_revision payload))"
  from revision_graph_Inr[OF g] t same have tt: "thread_targets state E s' t"
    "(''thread'', tref_descriptor_sha256 t) \<in> edges_from s' (''revisionRoot'', rid)"
    by (auto intro: thread_targets_cong)
  have needs: "needed (sv_db s') y" if "((''revisionRoot'', rid), y) \<in> (set (db_edges (sv_db s')))\<^sup>*" for y
    using root that by (auto simp: needed_def root_node_def intro!: exI[of _ "\<lparr>rt_revision = rid, rt_root = rid, rt_schema_version = n\<rparr>"])
  have e: "((''revisionRoot'', rid), (''thread'', tref_descriptor_sha256 t)) \<in> set (db_edges (sv_db s'))"
    using tt(2) by (simp add: edges_from_def)
  from tt(1) obtain b d where d: "typed_file state (volume_of (sv_disk s')) Thread3 (tref_descriptor_sha256 t) = Some b"
    "parse_descriptor (se_parsers E) b = Some d" "sd_thread_id d = tref_thread_id t"
    and c: "\<forall>c \<in> set (sd_rollout d # sd_attachments d). \<exists>ts. content_targets state (parse_manifest (se_parsers E)) (volume_of (sv_disk s')) c ts
             \<and> node_of ` set ts \<subseteq> edges_from s' (''thread'', tref_descriptor_sha256 t)"
    unfolding thread_targets_def by blast
  have "content_kept state E s' c" if "c \<in> set (sd_rollout d # sd_attachments d)" for c
  proof -
    from c that obtain ts where ts: "content_targets state (parse_manifest (se_parsers E)) (volume_of (sv_disk s')) c ts"
      "node_of ` set ts \<subseteq> edges_from s' (''thread'', tref_descriptor_sha256 t)" by blast
    have "needed (sv_db s') (node_of x)" if "x \<in> set ts" for x
    proof (rule needs)
      have "((''thread'', tref_descriptor_sha256 t), node_of x) \<in> set (db_edges (sv_db s'))"
        using ts(2) that by (auto simp: edges_from_def)
      with e show "((''revisionRoot'', rid), node_of x) \<in> (set (db_edges (sv_db s')))\<^sup>*" by (meson r_into_rtrancl rtrancl_into_rtrancl)
    qed
    with ts(1) show ?thesis by (rule content_targets_kept)
  qed
  moreover from needs[OF r_into_rtrancl[OF e]] have "needed (sv_db s') (wire_name_v3 Thread3, tref_descriptor_sha256 t)" by simp
  ultimately show "\<exists>b d. typed_file state (volume_of (sv_disk s')) Thread3 (tref_descriptor_sha256 t) = Some b
      \<and> parse_descriptor (se_parsers E) b = Some d \<and> sd_thread_id d = tref_thread_id t
      \<and> needed (sv_db s') (wire_name_v3 Thread3, tref_descriptor_sha256 t)
      \<and> (\<forall>c \<in> set (sd_rollout d # sd_attachments d). content_kept state E s' c)"
    using d by blast
qed

theorem committed_revision_kept_witness:
  "\<exists>resp s'. commit_revision_root_v4 toy_app toy_namespace toy_payload_v4 toy_upload_env toy_upload = (Inr resp, s')
     \<and> kept toy_app s' (toy_obj Whole3) \<and> needed (sv_db s') (''thread'', toy_digest)"
proof -
  from toy_commit_succeeds obtain resp s' where run: "commit_revision_root_v4 toy_app toy_namespace toy_payload_v4 toy_upload_env toy_upload = (Inr resp, s')"
    "re_created resp" by blast
  have "toy_ref \<in> set (rv_threads (rc_revision toy_payload_v4))" by (simp add: toy_payload_v4_def toy_root_fields)
  from bspec[OF committed_revision_kept[OF run] this] have "content_kept toy_app toy_upload_env s' stored_content"
    "needed (sv_db s') (''thread'', toy_digest)"
    by (auto simp: toy_descriptor_contents toy_ref_def)
  moreover from this(1) have "kept toy_app s' (toy_obj Whole3)"
    by (simp add: content_kept_def stored_content_def toy_digest_any toy_lengths)
  ultimately show ?thesis using run by blast
qed

section \<open>Contents listed twice, refused\<close>

text \<open>
  C37: A revision in which one object occurs twice in the contents of a thread is never committed,
  even when every file is on the server and every descriptor and manifest is valid: two equal
  attachments, an attachment equal to the rollout, or a manifest with the same chunk at two offsets
  violate the primary key of the edge table, and each commit of the revision ends in an error.
\<close>
theorem repeated_content_refused:
  assumes "t \<in> set (rv_threads (rc_revision payload))"
    and "typed_file state (volume_of (sv_disk s)) Thread3 (tref_descriptor_sha256 t) = Some b"
    and "parse_descriptor (se_parsers E) b = Some d"
    and "list_all2 (content_targets state (parse_manifest (se_parsers E)) (volume_of (sv_disk s))) (sd_rollout d # sd_attachments d) tss"
    and "\<not> distinct (map node_of (concat tss))"
  shows "\<exists>err. fst (commit_revision_root_v4 state u payload E s) = Inl err"
proof (cases "fst (commit_revision_root_v4 state u payload E s)")
  case (Inr resp)
  then obtain s' where "commit_revision_root_v4 state u payload E s = (Inr resp, s')" by (metis prod.collapse)
  then obtain rid graph s1 where "validate_revision_graph_v4 state rid E s = (Inr (rc_revision payload, graph), s1)"
    unfolding commit_revision_root_v4_def by (auto simp: bind_sv_Inr lift_sv_Inr ensure_sv_Inr return_sv_Inr)
  then obtain obj s2 acc s3 where 1:
    "read_typed_json state (\<lambda>E. parse_revision_root (se_parsers E)) (\<lambda>E. revision_root_json (se_uuid_text E)) RevisionRoot3 rid E s = (Inr (rc_revision payload, obj), s2)"
    "foreach_sv (thread_step state) (rv_threads (rc_revision payload)) ([], graph_insert obj []) E s2 = (Inr acc, s3)"
    unfolding validate_revision_graph_v4_def
    by (auto simp: bind_sv_Inr lift_sv_Inr ensure_sv_Inr return_sv_Inr simp del: foreach_sv.simps)
  from read_json_Inr[OF 1(1)] have "on_volume (volume_of (sv_disk s)) s2" by (simp add: on_volume_def)
  from foreach_sv_visits[OF 1(2) assms(1) on_volume_thread this] obtain acc1 r acc2 r' where
    r: "thread_step state t acc1 E r = (Inr acc2, r')" "volume_of (sv_disk r) = volume_of (sv_disk s)"
    by (auto simp: on_volume_def)
  from thread_step_distinct[OF r(1), of b d tss] assms(2-5) r(2) show ?thesis by simp
qed simp

definition toy_twice :: semantic_thread_descriptor_v4 where
  "toy_twice = toy_descriptor\<lparr>sd_attachments := [stored_content]\<rparr>"

theorem repeated_content_refused_witness:
  "validate_descriptor toy_twice = Inr () \<and> (\<exists>err. fst (commit_revision_root_v4 toy_app toy_namespace toy_payload_v4
     (toy_upload_env\<lparr>se_parsers := (se_parsers toy_upload_env)\<lparr>parse_descriptor := \<lambda>_. Some toy_twice\<rparr>\<rparr>) toy_upload) = Inl err)"
proof
  show "validate_descriptor toy_twice = Inr ()" unfolding toy_twice_def toy_descriptor_def by code_simp
  have files: "typed_file toy_app (volume_of (sv_disk toy_upload)) k toy_digest = Some (toy_content_of k)" for k
    by (simp add: typed_file_def typed_path_def toy_app_simps toy_paths toy_files)
  then have "content_targets toy_app P (volume_of (sv_disk toy_upload)) stored_content [toy_obj Whole3]" for P
    by (simp add: content_targets_def stored_content_def toy_digest_any stored_object_def toy_lengths)
  then have "list_all2 (content_targets toy_app P (volume_of (sv_disk toy_upload))) (sd_rollout toy_twice # sd_attachments toy_twice)
      [[toy_obj Whole3], [toy_obj Whole3]]" for P
    by (simp add: toy_twice_def toy_descriptor_contents)
  moreover have "toy_ref \<in> set (rv_threads (rc_revision toy_payload_v4))" by (simp add: toy_payload_v4_def toy_root_fields)
  ultimately show "\<exists>err. fst (commit_revision_root_v4 toy_app toy_namespace toy_payload_v4
     (toy_upload_env\<lparr>se_parsers := (se_parsers toy_upload_env)\<lparr>parse_descriptor := \<lambda>_. Some toy_twice\<rparr>\<rparr>) toy_upload) = Inl err"
    using files[of Thread3]
    by (intro repeated_content_refused[where t = toy_ref and d = toy_twice and b = "toy_content_of Thread3" and tss = "[[toy_obj Whole3], [toy_obj Whole3]]"])
      (simp_all add: toy_ref_def)
qed

end
