(* ===== verification/ServerPut.thy ===== *)
theory ServerPut
  imports ServerCommit
begin

text \<open>
  The upload of an object: a Hoare logic for the store operations, where the invariant holds after a
  failed call too, and what an upload leaves in the object files.
\<close>

section \<open>Triples\<close>

text \<open>\<open>triple P m Q J\<close>: from a volume with \<open>P\<close> the operation leaves a volume with \<open>J\<close>, whatever
  fails, and with \<open>Q\<close> if it returns a value.\<close>

definition triple :: "(volume \<Rightarrow> bool) \<Rightarrow> 'a store_io \<Rightarrow> ('a \<Rightarrow> volume \<Rightarrow> bool) \<Rightarrow> (volume \<Rightarrow> bool) \<Rightarrow> bool" where
  "triple P m Q J \<longleftrightarrow> (\<forall>F d. P (volume_of d) \<longrightarrow> J (volume_of (snd (m F d)))
     \<and> (\<forall>a. fst (m F d) = Inr (Inr a) \<longrightarrow> Q a (volume_of (snd (m F d)))))"

lemma triple_bind:
  assumes "triple P m Q J" and "\<And>a. triple (Q a) (f a) R J" shows "triple P (bind_st m f) R J"
  unfolding triple_def
proof (intro allI impI)
  fix F :: faults and d :: disk
  assume p: "P (volume_of d)"
  obtain r d1 where run: "m F d = (r, d1)" by fastforce
  with p assms(1) have m: "J (volume_of d1)" "\<And>a. r = Inr (Inr a) \<Longrightarrow> Q a (volume_of d1)" unfolding triple_def by (metis fst_conv snd_conv)+
  show "J (volume_of (snd (bind_st m f F d))) \<and> (\<forall>b. fst (bind_st m f F d) = Inr (Inr b) \<longrightarrow> R b (volume_of (snd (bind_st m f F d))))"
  proof (cases "\<exists>a. r = Inr (Inr a)")
    case True
    then obtain a where a: "r = Inr (Inr a)" by blast
    with assms(2)[of a] m(2) have "J (volume_of (snd (f a F d1)))" "\<And>b. fst (f a F d1) = Inr (Inr b) \<Longrightarrow> R b (volume_of (snd (f a F d1)))"
      unfolding triple_def by blast+
    with a run show ?thesis by (simp add: bind_st_def bind_io_def)
  next
    case False
    with m(1) run show ?thesis
      by (cases r) (auto simp: bind_st_def bind_io_def fail_st_def lift_res_def split: sum.splits)
  qed
qed

lemma triple_conseq:
  "triple P' m Q' J' \<Longrightarrow> (\<And>v. P v \<Longrightarrow> P' v) \<Longrightarrow> (\<And>a v. Q' a v \<Longrightarrow> Q a v) \<Longrightarrow> (\<And>v. J' v \<Longrightarrow> J v) \<Longrightarrow> triple P m Q J"
  unfolding triple_def by blast

lemma triple_keeps: "keeps P m \<Longrightarrow> (\<And>v. P v \<Longrightarrow> J v) \<Longrightarrow> triple P m (\<lambda>_. P) J"
  unfolding triple_def keeps_def by blast

lemma triple_return: "(\<And>v. P v \<Longrightarrow> J v \<and> Q a v) \<Longrightarrow> triple P (return_st a) Q J"
  by (auto simp: triple_def return_st_def lift_res_def)

lemma triple_fail: "(\<And>v. P v \<Longrightarrow> J v) \<Longrightarrow> triple P (fail_st e) Q J"
  by (auto simp: triple_def fail_st_def lift_res_def)

lemma triple_lift: "(\<And>v. P v \<Longrightarrow> J v) \<Longrightarrow> triple P (lift_res (Inr r)) (\<lambda>a v. P v \<and> r = Inr a) J"
  by (auto simp: triple_def lift_res_def)

lemma triple_ensure: "(\<And>v. P v \<Longrightarrow> J v) \<Longrightarrow> triple P (ensure_st b e) (\<lambda>_ v. P v \<and> b) J"
  by (auto simp: ensure_st_def triple_def return_st_def fail_st_def lift_res_def)

lemma triple_read:
  "(\<And>v. P v \<Longrightarrow> J v) \<Longrightarrow> triple P (call_st operation p (read_io g)) (\<lambda>a v. P v \<and> g v = Inr a) J"
  unfolding triple_def call_st_def catch_io_def bind_io_def return_st_def fail_st_def lift_res_def read_io_def perform_def
  by (auto simp: bindr_def split: option.splits sum.splits)

lemma triple_try:
  assumes "triple P m Q J" shows "triple P (try_st m) (\<lambda>r v. case r of Inl _ \<Rightarrow> J v | Inr a \<Rightarrow> Q a v) J"
  unfolding triple_def
proof (intro allI impI)
  fix F :: faults and d :: disk
  assume "P (volume_of d)"
  with assms have "J (volume_of (snd (m F d)))" "\<And>a. fst (m F d) = Inr (Inr a) \<Longrightarrow> Q a (volume_of (snd (m F d)))"
    unfolding triple_def by blast+
  then show "J (volume_of (snd (try_st m F d))) \<and> (\<forall>a. fst (try_st m F d) = Inr (Inr a) \<longrightarrow>
      (case a of Inl _ \<Rightarrow> J (volume_of (snd (try_st m F d))) | Inr a \<Rightarrow> Q a (volume_of (snd (try_st m F d)))))"
    by (auto simp: try_st_def bind_io_def return_st_def lift_res_def split: prod.splits sum.splits)
qed

lemma triple_foreach:
  assumes "\<And>x s. x \<in> set xs \<Longrightarrow> triple (I s) (f x s) I J" and "\<And>s v. I s v \<Longrightarrow> J v"
  shows "triple (I s) (foreach_st f xs s) I J"
  using assms(1)
proof (induction xs arbitrary: s)
  case Nil
  show ?case using assms(2) by (simp add: triple_return)
next
  case (Cons x xs)
  have "triple (I s) (f x s) I J" by (rule Cons.prems) simp
  moreover have "triple (I a) (foreach_st f xs a) I J" for a by (rule Cons.IH) (rule Cons.prems, simp)
  ultimately show ?case by (simp add: triple_bind)
qed

lemma triple_path: "(\<And>p. object_path st h = Inr p \<Longrightarrow> triple P (f p) Q J) \<Longrightarrow> (\<And>v. P v \<Longrightarrow> J v)
    \<Longrightarrow> triple P (bind_st (object_path_st st h) f) Q J"
  by (cases "object_path st h") (auto simp: triple_def bind_st_def bind_io_def object_path_st_def lift_res_def fail_st_def)

lemma triple_exists:
  "(\<And>v. P v \<Longrightarrow> J v) \<Longrightarrow> triple P (file_exists p) (\<lambda>r v. P v \<and> (\<not> r \<longrightarrow> entry_at v p = None)) J"
  unfolding file_exists_def
  by (rule triple_bind[OF triple_read]) (auto split: option.splits entry.splits if_splits intro!: triple_return triple_fail)

lemma triple_atomic:
  assumes "\<And>v. P v \<Longrightarrow> J v" and "\<And>v v'. P v \<Longrightarrow> op v = Inr v' \<Longrightarrow> J v' \<and> Q v'"
  shows "triple P (call_st operation p (atomic_io op)) (\<lambda>_. Q) J"
  using assms unfolding triple_def call_st_def catch_io_def bind_io_def return_st_def fail_st_def lift_res_def atomic_io_def perform_def
  by (auto simp: bindr_def split: option.splits sum.splits)

lemma triple_ask: "(\<And>u. triple P (f u) Q J) \<Longrightarrow> triple P (bind_io (ask_io g) f) Q J"
  unfolding triple_def bind_io_def ask_io_def by simp

lemma triple_append:
  assumes "\<And>v c. P v \<Longrightarrow> file_at v p = Some old \<Longrightarrow> J (set_entry p (FileEntry (old @ c)) v)" and "\<And>v. P v \<Longrightarrow> J v \<and> file_at v p = Some old"
    and "\<And>v. P v \<Longrightarrow> Q (set_entry p (FileEntry (old @ b)) v)"
  shows "triple P (call_st operation q (append_io p b)) (\<lambda>_. Q) J"
  using assms unfolding triple_def call_st_def catch_io_def bind_io_def return_st_def fail_st_def lift_res_def append_io_def perform_def
  by (auto simp: bindr_def fs_append_def ok_or_def split: option.splits sum.splits)

section \<open>Honest object files\<close>

definition honest :: "app_state \<Rightarrow> (bytes \<Rightarrow> string) \<Rightarrow> volume \<Rightarrow> bool" where
  "honest state H v \<longleftrightarrow> (\<forall>k h b. typed_file state v k h = Some b \<longrightarrow> digest_bytes_v4 H b = h)"

definition extends :: "app_state \<Rightarrow> volume \<Rightarrow> volume \<Rightarrow> bool" where
  "extends state v0 v \<longleftrightarrow> (\<forall>k h b. typed_file state v0 k h = Some b \<longrightarrow> typed_file state v k h = Some b)"

definition sound_from :: "app_state \<Rightarrow> (bytes \<Rightarrow> string) \<Rightarrow> volume \<Rightarrow> volume \<Rightarrow> bool" where
  "sound_from state H v0 v \<longleftrightarrow> honest state H v \<and> extends state v0 v"

lemma sound_from_cong:
  "(\<And>k h. typed_file state v' k h = typed_file state v k h) \<Longrightarrow> sound_from state H v0 v' = sound_from state H v0 v"
  by (simp add: sound_from_def honest_def extends_def)

lemma file_at_other: "(\<And>q. q \<noteq> p \<Longrightarrow> entry_at v' q = entry_at v q) \<Longrightarrow> q \<noteq> p \<Longrightarrow> file_at v' q = file_at v q"
  by (simp add: file_at_def)

lemma typed_file_other:
  assumes "\<And>k h. typed_path state k h \<noteq> Some p" and "\<And>q. q \<noteq> p \<Longrightarrow> entry_at v' q = entry_at v q"
  shows "typed_file state v' k h = typed_file state v k h"
proof (cases "typed_path state k h")
  case (Some a)
  with assms(1) have "a \<noteq> p" by blast
  with assms(2) Some show ?thesis by (simp add: typed_file_def file_at_def)
qed (simp add: typed_file_def)

lemma sound_create_dirs: "keeps (sound_from state H v0) (create_dir_all_st p)"
  unfolding create_dir_all_st_def
proof (intro keeps_call_st keeps_create_dir_all)
  fix v v' n
  assume "sound_from state H v0 v" and r: "fs_create_dir_all (take n p) v = Inr v'"
  moreover have "file_at v' q = file_at v q" for q
    using fs_create_dir_all_entry[OF r, of q] by (auto simp: file_at_def)
  then have "typed_file state v' k h = typed_file state v k h" for k h by (cases "typed_path state k h") (simp_all add: typed_file_def)
  ultimately show "sound_from state H v0 v'" by (subst sound_from_cong)
qed

lemma sound_remove_temp:
  assumes "\<And>k h. typed_path state k h \<noteq> Some t" shows "keeps (sound_from state H v0) (remove_temp t)"
  unfolding remove_temp_def
proof (intro keeps_catch keeps_bind keeps_atomic keeps_small_st)
  fix v v'
  assume "sound_from state H v0 v" and "fs_remove_file t v = Inr v'"
  then show "sound_from state H v0 v'"
    using sound_from_cong[OF typed_file_other[OF assms]] fs_remove_file_entry by metis
qed

lemma file_at_set: "file_at (set_entry p e v) p = (case e of FileEntry b \<Rightarrow> Some b | DirEntry \<Rightarrow> None)"
  by (simp add: file_at_def entry_at_set split: entry.splits)

lemma sound_set_temp:
  assumes "\<And>k h. typed_path state k h \<noteq> Some t"
  shows "sound_from state H v0 (set_entry t e v) = sound_from state H v0 v"
  by (rule sound_from_cong, rule typed_file_other[OF assms]) (simp add: entry_at_set)

lemma triple_write_temp:
  assumes t: "\<And>k h. typed_path state k h \<noteq> Some t"
  shows "triple (sound_from state H v0) (write_verified_temp H st t d n stream)
    (\<lambda>_ v. sound_from state H v0 v \<and> (\<exists>b. file_at v t = Some b \<and> digest_bytes_v4 H b = d \<and> of_nat (length b) = n)) (sound_from state H v0)"
  unfolding write_verified_temp_def
proof (rule triple_bind[where Q = "\<lambda>_ v. sound_from state H v0 v \<and> file_at v t = Some []"])
  show "triple (sound_from state H v0) (call_st ''create'' t (atomic_io (fs_create_new t))) (\<lambda>_ v. sound_from state H v0 v \<and> file_at v t = Some []) (sound_from state H v0)"
    by (rule triple_atomic) (auto simp: fs_create_new_def fs_write_def bindr_eq_Inr_iff sound_set_temp[OF t] file_at_set)
  let ?I = "\<lambda>acc v. sound_from state H v0 v \<and> file_at v t = Some (fst acc) \<and> of_nat (length (fst acc)) = (snd acc :: u64)"
  have step: "triple (?I acc) (write_chunk st t n item acc) ?I (sound_from state H v0)" for item acc
  proof (cases item)
    case (Inr chunk)
    show ?thesis
    proof (cases "checked_add (snd acc) (of_nat (length chunk))")
      case (Some m)
      then have m: "m = snd acc + of_nat (length chunk)" by (simp add: checked_add_def split: if_splits)
      show ?thesis unfolding write_chunk_def Inr Some sum.case option.case
        by (rule triple_bind[OF triple_ensure], simp, rule triple_bind[OF triple_ensure], simp,
            rule triple_bind[where Q = "\<lambda>_ v. sound_from state H v0 v \<and> file_at v t = Some (fst acc @ chunk) \<and> of_nat (length (fst acc)) = (snd acc :: u64)"],
            rule triple_append[where old = "fst acc"])
          (auto simp: sound_set_temp[OF t] file_at_set m intro!: triple_return)
    qed (auto simp: write_chunk_def Inr intro!: triple_fail)
  qed (auto simp: write_chunk_def intro!: triple_fail)
  show "triple (\<lambda>v. sound_from state H v0 v \<and> file_at v t = Some []) (bind_st (foreach_st (write_chunk st t n) stream ([], 0)) (\<lambda>(hashed_bytes, actual_length).
     bind_st (ensure_st (actual_length = n) (LengthMismatch n actual_length)) (\<lambda>_.
     bind_st (ensure_st (digest_bytes_v4 H hashed_bytes = d) (HashMismatch d (digest_bytes_v4 H hashed_bytes))) (\<lambda>_.
     bind_st (call_st ''flush'' t (read_io (\<lambda>_. Inr ()))) (\<lambda>_.
       call_st ''sync'' t (read_io (\<lambda>_. Inr ()))))))) (\<lambda>_ v. sound_from state H v0 v \<and> (\<exists>b. file_at v t = Some b \<and> digest_bytes_v4 H b = d \<and> of_nat (length b) = n)) (sound_from state H v0)"
  proof (rule triple_bind[where Q = ?I])
    show "triple (\<lambda>v. sound_from state H v0 v \<and> file_at v t = Some []) (foreach_st (write_chunk st t n) stream ([], 0)) ?I (sound_from state H v0)"
      by (rule triple_conseq[OF triple_foreach[where I = ?I]]) (auto intro: step)
    fix acc :: "bytes \<times> u64"
    obtain hashed len where acc: "acc = (hashed, len)" by fastforce
    show "triple (?I acc) (case acc of (hashed_bytes, actual_length) \<Rightarrow>
     bind_st (ensure_st (actual_length = n) (LengthMismatch n actual_length)) (\<lambda>_.
     bind_st (ensure_st (digest_bytes_v4 H hashed_bytes = d) (HashMismatch d (digest_bytes_v4 H hashed_bytes))) (\<lambda>_.
     bind_st (call_st ''flush'' t (read_io (\<lambda>_. Inr ()))) (\<lambda>_.
       call_st ''sync'' t (read_io (\<lambda>_. Inr ())))))) (\<lambda>_ v. sound_from state H v0 v \<and> (\<exists>b. file_at v t = Some b \<and> digest_bytes_v4 H b = d \<and> of_nat (length b) = n)) (sound_from state H v0)"
      unfolding acc prod.case
      by (rule triple_bind[OF triple_ensure], simp, rule triple_bind[OF triple_ensure], simp, rule triple_bind[OF triple_read], simp,
          rule triple_conseq[OF triple_read[where P = "\<lambda>v. sound_from state H v0 v \<and> (\<exists>b. file_at v t = Some b \<and> digest_bytes_v4 H b = d \<and> of_nat (length b) = n)"]])
        auto
  qed
qed

lemma verify_loop_length: "verify_loop limit rest n = Inr m \<Longrightarrow> m = n + of_nat (length rest)"
proof (induction limit rest n arbitrary: m rule: verify_loop.induct)
  case (1 limit rest n)
  show ?case
  proof (cases "rest = []")
    case False
    with "1.prems" obtain k where k: "checked_add n (of_nat (length (take READ_BUFFER rest))) = Some k" "\<not> k > limit"
      "verify_loop limit (drop READ_BUFFER rest) k = Inr m"
      by (subst (asm) verify_loop.simps) (auto split: option.splits if_splits)
    have "of_nat (length rest) = (of_nat (length (take READ_BUFFER rest)) + of_nat (length (drop READ_BUFFER rest)) :: u64)"
      by (metis append_take_drop_id length_append of_nat_add)
    moreover have "k = n + of_nat (length (take READ_BUFFER rest))" using k(1) by (simp add: checked_add_def split: if_splits)
    ultimately show ?thesis using "1.IH"[OF False k(1,2,3)] by simp
  qed (use "1.prems" in \<open>simp add: verify_loop.simps\<close>)
qed

definition holds_object :: "(bytes \<Rightarrow> string) \<Rightarrow> path \<Rightarrow> string \<Rightarrow> u64 \<Rightarrow> volume \<Rightarrow> bool" where
  "holds_object H p d n v \<longleftrightarrow> (\<exists>b. file_at v p = Some b \<and> digest_bytes_v4 H b = d \<and> of_nat (length b) = n)"

lemma triple_verify:
  assumes "\<And>v. P v \<Longrightarrow> J v"
  shows "triple P (verify_file H st p d (Some n)) (\<lambda>_ v. P v \<and> holds_object H p d n v) J"
  unfolding verify_file_def option.case
  by (rule triple_bind[OF triple_read[OF assms]], assumption, rule triple_bind[OF triple_read], rule assms, simp,
      rule triple_bind[OF triple_lift], rule assms, simp, rule triple_bind[OF triple_ensure], rule assms, simp,
      rule triple_bind[OF triple_ensure], rule assms, simp, rule triple_return)
    (auto simp: holds_object_def assms dest: verify_loop_length)

section \<open>Installing\<close>

lemma remove_temp_installed:
  assumes t: "\<And>k h. typed_path state k h \<noteq> Some t" and "p \<noteq> t"
  shows "keeps (\<lambda>v. sound_from state H v0 v \<and> holds_object H p d n v) (remove_temp t)"
  unfolding remove_temp_def
proof (intro keeps_catch keeps_bind keeps_atomic keeps_small_st)
  fix v v'
  assume v: "sound_from state H v0 v \<and> holds_object H p d n v" and r: "fs_remove_file t v = Inr v'"
  have "entry_at v' q = entry_at v q" if "q \<noteq> t" for q using fs_remove_file_entry[OF r] that by simp
  with v assms(2) sound_from_cong[OF typed_file_other[OF t this]] show "sound_from state H v0 v' \<and> holds_object H p d n v'"
    by (simp add: holds_object_def file_at_def)
qed

lemma triple_accept:
  assumes t: "\<And>k h. typed_path state k h \<noteq> Some t" and "p \<noteq> t"
  shows "triple (sound_from state H v0) (accept_existing H st t p d n) (\<lambda>_ v. sound_from state H v0 v \<and> holds_object H p d n v) (sound_from state H v0)"
  unfolding accept_existing_def
proof (rule triple_bind[OF triple_try[OF triple_verify[where P = "sound_from state H v0" and J = "sound_from state H v0"]]])
  fix r :: "object_store_error + u64"
  let ?Q = "\<lambda>v. sound_from state H v0 v \<and> (case r of Inl _ \<Rightarrow> True | Inr _ \<Rightarrow> holds_object H p d n v)"
  from remove_temp_installed[OF assms] sound_remove_temp[OF t] have "keeps ?Q (remove_temp t)" by (cases r) simp_all
  then have "triple ?Q (remove_temp t) (\<lambda>_. ?Q) (sound_from state H v0)" by (rule triple_keeps) simp
  moreover have "triple ?Q (bind_st (lift_res (Inr r)) (\<lambda>_. return_st AlreadyPresent)) (\<lambda>_ v. sound_from state H v0 v \<and> holds_object H p d n v) (sound_from state H v0)"
    by (rule triple_bind[OF triple_lift]) (auto intro!: triple_return)
  ultimately have "triple ?Q (bind_st (remove_temp t) (\<lambda>_. bind_st (lift_res (Inr r)) (\<lambda>_. return_st AlreadyPresent)))
      (\<lambda>_ v. sound_from state H v0 v \<and> holds_object H p d n v) (sound_from state H v0)" by (rule triple_bind)
  then show "triple (\<lambda>v. case r of Inl _ \<Rightarrow> sound_from state H v0 v | Inr _ \<Rightarrow> sound_from state H v0 v \<and> holds_object H p d n v)
      (bind_st (remove_temp t) (\<lambda>_. bind_st (lift_res (Inr r)) (\<lambda>_. return_st AlreadyPresent)))
      (\<lambda>_ v. sound_from state H v0 v \<and> holds_object H p d n v) (sound_from state H v0)"
    by (rule triple_conseq) (auto split: sum.splits)
qed

lemma typed_file_path: "typed_path state k h = Some p \<Longrightarrow> typed_file state v k h = file_at v p"
  by (simp add: typed_file_def)

lemma rename_installs:
  assumes layout: "standard_layout state" and "\<forall>k h q. typed_path state k h = Some q \<longrightarrow> \<not> under t q \<and> \<not> under q t"
    and p: "typed_path state kind d = Some p" and "sound_from state H v0 v" and "holds_object H t d n v" and "entry_at v p = None"
    and r: "fs_rename t p v = Inr v'"
  shows "sound_from state H v0 v' \<and> holds_object H p d n v'"
proof -
  have t: "\<not> under t q \<and> \<not> under q t" if "typed_path state k h = Some q" for k h q using assms(2) that by blast
  from t[OF p] have apart: "\<not> under t p" "\<not> under p t" by simp_all
  then have ne: "t \<noteq> p" by auto
  note e = fs_rename_entry[OF r ne apart(2)]
  have here: "file_at v' p = file_at v t" by (simp add: file_at_def e)
  have else_where: "typed_file state v' k h = typed_file state v k h" if "(k, h) \<noteq> (kind, d)" for k h
  proof (cases "typed_path state k h")
    case (Some q)
    have "\<not> under p q"
    proof
      assume "under p q"
      moreover have "length p = length q" using typed_path_shape[OF layout p] typed_path_shape[OF layout Some] by auto
      ultimately have "p = q" by (rule under_same_length)
      with typed_path_inject[OF layout p] Some that show False by auto
    qed
    with t[OF Some] show ?thesis by (simp add: typed_file_path[OF Some] file_at_def e)
  qed (simp add: typed_file_def)
  from assms(5) obtain b where b: "file_at v t = Some b" "digest_bytes_v4 H b = d" "of_nat (length b) = n" by (auto simp: holds_object_def)
  have old: "typed_file state v kind d = None" using assms(6) by (simp add: typed_file_path[OF p] file_at_def)
  have new: "typed_file state v' kind d = Some b" using here b(1) by (simp add: typed_file_path[OF p])
  have "honest state H v'" unfolding honest_def
  proof (intro allI impI)
    fix k h c
    assume c: "typed_file state v' k h = Some c"
    show "digest_bytes_v4 H c = h"
    proof (cases "(k, h) = (kind, d)")
      case True
      with c new b(2) show ?thesis by simp
    next
      case False
      with else_where c assms(4) show ?thesis by (simp add: sound_from_def honest_def)
    qed
  qed
  moreover have "extends state v0 v'" unfolding extends_def
  proof (intro allI impI)
    fix k h c
    assume "typed_file state v0 k h = Some c"
    with assms(4) have "typed_file state v k h = Some c" by (simp add: sound_from_def extends_def)
    with old else_where show "typed_file state v' k h = Some c" by (metis option.distinct(1) prod.inject)
  qed
  ultimately show ?thesis using here b by (simp add: sound_from_def holds_object_def)
qed

lemma triple_install:
  assumes layout: "standard_layout state" and t: "\<And>k h. typed_path state k h \<noteq> Some t"
    "\<And>k h q. typed_path state k h = Some q \<Longrightarrow> \<not> under t q \<and> \<not> under q t" and p: "typed_path state kind d = Some p"
  shows "triple (\<lambda>v. sound_from state H v0 v \<and> holds_object H t d n v) (install_temp H st t p d n)
     (\<lambda>_ v. sound_from state H v0 v \<and> holds_object H p d n v) (sound_from state H v0)"
  unfolding install_temp_def
proof (rule triple_bind[OF triple_try[OF triple_exists]])
  let ?J = "sound_from state H v0" and ?done = "\<lambda>v. sound_from state H v0 v \<and> holds_object H p d n v"
    and ?ready = "\<lambda>v. sound_from state H v0 v \<and> holds_object H t d n v"
  have ne: "p \<noteq> t" using t(1) p by blast
  have accept: "triple ?J (bind_st (accept_existing H st t p d n) (\<lambda>r. return_st (False, r))) (\<lambda>_. ?done) ?J"
    by (rule triple_bind[OF triple_accept[OF t(1) ne]]) (auto intro!: triple_return)
  have give_up: "triple ?J (bind_st (remove_temp t) (\<lambda>_. fail_st e)) (\<lambda>_ :: bool \<times> put_object_result. ?done) ?J" for e :: object_store_error
    by (rule triple_bind[OF triple_keeps[OF sound_remove_temp[OF t(1)]]]) (auto intro!: triple_fail)
  show "\<And>v. ?ready v \<Longrightarrow> ?J v" by simp
  fix r :: "object_store_error + bool"
  have again: "triple ?J (bind_st (try_st (file_exists p)) (\<lambda>again.
                   case again of
                     Inr True \<Rightarrow> bind_st (accept_existing H st t p d n) (\<lambda>r. return_st (False, r))
                   | Inr False \<Rightarrow> bind_st (remove_temp t) (\<lambda>_. fail_st e)
                   | Inl e \<Rightarrow> bind_st (remove_temp t) (\<lambda>_. fail_st e))) (\<lambda>_. ?done) ?J" for e
  proof (rule triple_bind[OF triple_try[OF triple_exists[where P = ?J and J = ?J]]])
    fix r :: "object_store_error + bool"
    have "triple ?J (case r of Inr True \<Rightarrow> bind_st (accept_existing H st t p d n) (\<lambda>r. return_st (False, r))
                   | Inr False \<Rightarrow> bind_st (remove_temp t) (\<lambda>_. fail_st e)
                   | Inl e \<Rightarrow> bind_st (remove_temp t) (\<lambda>_. fail_st e)) (\<lambda>_. ?done) ?J"
      using accept give_up by (cases r) (simp_all split: bool.splits)
    then show "triple (\<lambda>v. case r of Inl _ \<Rightarrow> ?J v | Inr a \<Rightarrow> ?J v \<and> (\<not> a \<longrightarrow> entry_at v p = None))
       (case r of Inr True \<Rightarrow> bind_st (accept_existing H st t p d n) (\<lambda>r. return_st (False, r))
                   | Inr False \<Rightarrow> bind_st (remove_temp t) (\<lambda>_. fail_st e)
                   | Inl e \<Rightarrow> bind_st (remove_temp t) (\<lambda>_. fail_st e)) (\<lambda>_. ?done) ?J"
      by (rule triple_conseq) (auto split: sum.splits)
  qed simp
  have rename: "triple (\<lambda>v. ?ready v \<and> entry_at v p = None)
      (bind_st (try_st (call_st ''atomically install'' p (atomic_io (fs_rename t p)))) (\<lambda>renamed.
             case renamed of
               Inr _ \<Rightarrow> return_st (True, ObjectCreated)
             | Inl rename_error \<Rightarrow>
                 bind_st (try_st (file_exists p)) (\<lambda>again.
                   case again of
                     Inr True \<Rightarrow> bind_st (accept_existing H st t p d n) (\<lambda>r. return_st (False, r))
                   | Inr False \<Rightarrow> bind_st (remove_temp t) (\<lambda>_. fail_st rename_error)
                   | Inl e \<Rightarrow> bind_st (remove_temp t) (\<lambda>_. fail_st e)))) (\<lambda>_. ?done) ?J"
  proof (rule triple_bind[OF triple_try[OF triple_atomic[where Q = ?done]]])
    show "\<And>v v'. ?ready v \<and> entry_at v p = None \<Longrightarrow> fs_rename t p v = Inr v' \<Longrightarrow> ?J v' \<and> ?done v'"
      using rename_installs[OF layout _ p] t(2) by blast
    fix renamed :: "object_store_error + unit"
    show "triple (\<lambda>v. case renamed of Inl _ \<Rightarrow> ?J v | Inr _ \<Rightarrow> ?done v)
       (case renamed of
               Inr _ \<Rightarrow> return_st (True, ObjectCreated)
             | Inl rename_error \<Rightarrow>
                 bind_st (try_st (file_exists p)) (\<lambda>again.
                   case again of
                     Inr True \<Rightarrow> bind_st (accept_existing H st t p d n) (\<lambda>r. return_st (False, r))
                   | Inr False \<Rightarrow> bind_st (remove_temp t) (\<lambda>_. fail_st rename_error)
                   | Inl e \<Rightarrow> bind_st (remove_temp t) (\<lambda>_. fail_st e))) (\<lambda>_. ?done) ?J"
      using again by (cases renamed) (auto intro!: triple_return)
  qed simp
  show "triple (\<lambda>v. case r of Inl _ \<Rightarrow> ?J v | Inr a \<Rightarrow> ?ready v \<and> (\<not> a \<longrightarrow> entry_at v p = None))
     (case r of
         Inr True \<Rightarrow> bind_st (accept_existing H st t p d n) (\<lambda>r. return_st (False, r))
       | Inl e \<Rightarrow> bind_st (remove_temp t) (\<lambda>_. fail_st e)
       | Inr False \<Rightarrow>
           bind_st (try_st (call_st ''atomically install'' p (atomic_io (fs_rename t p)))) (\<lambda>renamed.
             case renamed of
               Inr _ \<Rightarrow> return_st (True, ObjectCreated)
             | Inl rename_error \<Rightarrow>
                 bind_st (try_st (file_exists p)) (\<lambda>again.
                   case again of
                     Inr True \<Rightarrow> bind_st (accept_existing H st t p d n) (\<lambda>r. return_st (False, r))
                   | Inr False \<Rightarrow> bind_st (remove_temp t) (\<lambda>_. fail_st rename_error)
                   | Inl e \<Rightarrow> bind_st (remove_temp t) (\<lambda>_. fail_st e)))) (\<lambda>_. ?done) ?J"
  proof (cases r)
    case (Inl e)
    with give_up show ?thesis by simp
  next
    case (Inr present)
    show ?thesis
    proof (cases present)
      case True
      with Inr show ?thesis by simp (rule triple_conseq[OF accept], auto)
    next
      case False
      with Inr rename show ?thesis by simp
    qed
  qed
qed

lemma triple_guard:
  assumes "triple P m (\<lambda>_. S) J" and "keeps S (remove_temp t)" and "keeps J (remove_temp t)" and "\<And>v. S v \<Longrightarrow> J v"
  shows "triple P (drop_guard t m) (\<lambda>_. S) J"
  unfolding drop_guard_def
proof (rule triple_bind[OF triple_try[OF assms(1)]])
  fix r :: "object_store_error + bool \<times> 'a"
  note s = triple_keeps[OF assms(2), where J = J] and j = triple_keeps[OF assms(3), where J = J]
  show "triple (\<lambda>v. case r of Inl _ \<Rightarrow> J v | Inr _ \<Rightarrow> S v)
     (case r of
         Inr (True, a) \<Rightarrow> return_st a
       | Inr (False, a) \<Rightarrow> bind_st (remove_temp t) (\<lambda>_. return_st a)
       | Inl e \<Rightarrow> bind_st (remove_temp t) (\<lambda>_. fail_st e)) (\<lambda>_. S) J"
  proof (cases r)
    case (Inl e)
    have "triple J (bind_st (remove_temp t) (\<lambda>_. fail_st e)) (\<lambda>_ :: 'a. S) J"
      by (rule triple_bind[OF j]) (auto intro!: triple_fail)
    with Inl show ?thesis by simp
  next
    case (Inr x)
    have "triple S (bind_st (remove_temp t) (\<lambda>_. return_st a)) (\<lambda>_ :: 'a. S) J" for a
      by (rule triple_bind[OF s]) (auto intro!: triple_return assms(4))
    moreover have "triple S (return_st a) (\<lambda>_ :: 'a. S) J" for a by (rule triple_return) (simp add: assms(4))
    ultimately show ?thesis by (cases x) (auto simp: Inr split: bool.splits)
  qed
qed

lemma triple_put:
  assumes layout: "standard_layout state" and st: "st_typed_objects state kind = Some st"
  shows "triple (sound_from state H v0) (put_stream H fresh st d n stream)
     (\<lambda>_ v. sound_from state H v0 v \<and> (\<exists>p. typed_path state kind d = Some p \<and> holds_object H p d n v)) (sound_from state H v0)"
  unfolding put_stream_def
proof (rule triple_path)
  let ?J = "sound_from state H v0"
  fix p
  assume o: "object_path st d = Inr p"
  with st have p: "typed_path state kind d = Some p" by (simp add: typed_path_def)
  let ?done = "\<lambda>v. ?J v \<and> holds_object H p d n v"
  have upload: "triple ?J (drop_guard t
         (bind_st (try_st (write_verified_temp H st t d n stream)) (\<lambda>written.
            case written of
              Inl e \<Rightarrow> bind_st (remove_temp t) (\<lambda>_. fail_st e)
            | Inr _ \<Rightarrow> install_temp H st t p d n))) (\<lambda>_. ?done) ?J" if "t = os_tmp_dir st @ [u @ ''.part'']" for t u
  proof -
    from layout st that have t: "t = st_data_dir state @ [''typed'', directory_v3 kind, ''objects'', ''tmp'', u @ ''.part'']"
      by (simp add: standard_layout_def)
    have apart: "\<not> under t q \<and> \<not> under q t" if "typed_path state k h = Some q" for k h q
      using typed_path_shape[OF layout that] by (auto simp: t under_def)
    then have other: "typed_path state k h \<noteq> Some t" for k h by (metis under_refl)
    then have ne: "p \<noteq> t" using p by blast
    show ?thesis
    proof (rule triple_guard)
      show "triple ?J (bind_st (try_st (write_verified_temp H st t d n stream)) (\<lambda>written.
            case written of
              Inl e \<Rightarrow> bind_st (remove_temp t) (\<lambda>_. fail_st e)
            | Inr _ \<Rightarrow> install_temp H st t p d n)) (\<lambda>_. ?done) ?J"
      proof (rule triple_bind[OF triple_try[OF triple_write_temp[OF other]]])
        fix written :: "object_store_error + unit"
        have "triple ?J (bind_st (remove_temp t) (\<lambda>_. fail_st e)) (\<lambda>_ :: bool \<times> put_object_result. ?done) ?J" for e
          by (rule triple_bind[OF triple_keeps[OF sound_remove_temp[OF other]]]) (auto intro!: triple_fail)
        moreover note triple_install[OF layout other apart p, where H = H and n = n and st = st and ?v0.0 = v0]
        ultimately show "triple (\<lambda>v. case written of Inl _ \<Rightarrow> ?J v
             | Inr a \<Rightarrow> ?J v \<and> (\<exists>b. file_at v t = Some b \<and> digest_bytes_v4 H b = d \<and> of_nat (length b) = n))
           (case written of
              Inl e \<Rightarrow> bind_st (remove_temp t) (\<lambda>_. fail_st e)
            | Inr _ \<Rightarrow> install_temp H st t p d n) (\<lambda>_. ?done) ?J"
          by (cases written) (simp_all add: holds_object_def)
      qed
    qed (simp_all add: remove_temp_installed[OF other ne] sound_remove_temp[OF other])
  qed
  show "triple ?J (bind_st (ensure_st (\<not> n > os_max_object_bytes st) (ObjectTooLarge (os_max_object_bytes st) n)) (\<lambda>_.
     bind_st (create_dir_all_st (butlast p)) (\<lambda>_.
     bind_st (bind_io (ask_io fresh) (\<lambda>u. return_st (os_tmp_dir st @ [u @ ''.part'']))) (\<lambda>t.
       drop_guard t
         (bind_st (try_st (write_verified_temp H st t d n stream)) (\<lambda>written.
            case written of
              Inl e \<Rightarrow> bind_st (remove_temp t) (\<lambda>_. fail_st e)
            | Inr _ \<Rightarrow> install_temp H st t p d n))))))
     (\<lambda>_ v. ?J v \<and> (\<exists>p. typed_path state kind d = Some p \<and> holds_object H p d n v)) ?J"
  proof (rule triple_bind[OF triple_ensure[where P = ?J and J = ?J]])
    fix a :: unit
    have "triple ?J (bind_st (create_dir_all_st (butlast p)) (\<lambda>_.
     bind_st (bind_io (ask_io fresh) (\<lambda>u. return_st (os_tmp_dir st @ [u @ ''.part'']))) (\<lambda>t.
       drop_guard t
         (bind_st (try_st (write_verified_temp H st t d n stream)) (\<lambda>written.
            case written of
              Inl e \<Rightarrow> bind_st (remove_temp t) (\<lambda>_. fail_st e)
            | Inr _ \<Rightarrow> install_temp H st t p d n))))) (\<lambda>_. ?done) ?J"
    proof (rule triple_bind[OF triple_keeps[OF sound_create_dirs]])
      fix a :: unit
      show "triple ?J (bind_st (bind_io (ask_io fresh) (\<lambda>u. return_st (os_tmp_dir st @ [u @ ''.part'']))) (\<lambda>t.
       drop_guard t
         (bind_st (try_st (write_verified_temp H st t d n stream)) (\<lambda>written.
            case written of
              Inl e \<Rightarrow> bind_st (remove_temp t) (\<lambda>_. fail_st e)
            | Inr _ \<Rightarrow> install_temp H st t p d n)))) (\<lambda>_. ?done) ?J"
      proof (rule triple_bind[where Q = "\<lambda>t v. ?J v \<and> (\<exists>u. t = os_tmp_dir st @ [u @ ''.part''])"])
        show "triple ?J (bind_io (ask_io fresh) (\<lambda>u. return_st (os_tmp_dir st @ [u @ ''.part'']))) (\<lambda>t v. ?J v \<and> (\<exists>u. t = os_tmp_dir st @ [u @ ''.part''])) ?J"
          by (rule triple_ask, rule triple_return) blast
        fix t
        show "triple (\<lambda>v. ?J v \<and> (\<exists>u. t = os_tmp_dir st @ [u @ ''.part''])) (drop_guard t
         (bind_st (try_st (write_verified_temp H st t d n stream)) (\<lambda>written.
            case written of
              Inl e \<Rightarrow> bind_st (remove_temp t) (\<lambda>_. fail_st e)
            | Inr _ \<Rightarrow> install_temp H st t p d n))) (\<lambda>_. ?done) ?J"
        proof (cases "\<exists>u. t = os_tmp_dir st @ [u @ ''.part'']")
          case True
          then show ?thesis using upload by (elim exE) (rule triple_conseq, assumption, auto)
        qed (simp add: triple_def)
      qed
    qed simp
    then show "triple (\<lambda>v. ?J v \<and> \<not> n > os_max_object_bytes st) (bind_st (create_dir_all_st (butlast p)) (\<lambda>_.
     bind_st (bind_io (ask_io fresh) (\<lambda>u. return_st (os_tmp_dir st @ [u @ ''.part'']))) (\<lambda>t.
       drop_guard t
         (bind_st (try_st (write_verified_temp H st t d n stream)) (\<lambda>written.
            case written of
              Inl e \<Rightarrow> bind_st (remove_temp t) (\<lambda>_. fail_st e)
            | Inr _ \<Rightarrow> install_temp H st t p d n)))))
       (\<lambda>_ v. ?J v \<and> (\<exists>p. typed_path state kind d = Some p \<and> holds_object H p d n v)) ?J"
      by (rule triple_conseq) (use p in auto)
  qed simp
qed simp

section \<open>Every handler keeps the files honest\<close>

lemma honest_loses:
  "honest state H v \<Longrightarrow> (\<And>k h b. typed_file state v' k h = Some b \<Longrightarrow> typed_file state v k h = Some b) \<Longrightarrow> honest state H v'"
  unfolding honest_def by blast

lemma honest_remove: "fs_remove_file p v = Inr v' \<Longrightarrow> honest state H v \<Longrightarrow> honest state H v'"
proof (erule honest_loses)
  fix k h b
  assume r: "fs_remove_file p v = Inr v'" and f: "typed_file state v' k h = Some b"
  from f obtain q where q: "typed_path state k h = Some q" "file_at v' q = Some b" by (auto simp: typed_file_def bind_eq_Some_conv)
  with fs_remove_file_entry[OF r, of q] have "file_at v q = Some b" by (auto simp: file_at_def split: if_splits)
  with q(1) show "typed_file state v k h = Some b" by (simp add: typed_file_path)
qed

lemma honest_quarantine:
  assumes layout: "standard_layout state" and st: "st_typed_objects state kind = Some st"
    and apart: "\<And>k h q. typed_path state k h = Some q \<Longrightarrow> \<not> under d q"
  shows "keeps (honest state H) (quarantine st x d)"
proof (unfold quarantine_def, rule keeps_bind_path)
  fix source
  assume "object_path st x = Inr source"
  with st have s: "typed_path state kind x = Some source" by (simp add: typed_path_def)
  have rename: "keeps (honest state H) (atomic_io (fs_rename source d))"
  proof (rule keeps_atomic)
    fix v v'
    assume h: "honest state H v" and r: "fs_rename source d v = Inr v'"
    from apart[OF s] have d: "\<not> under d source" "source \<noteq> d" by auto
    show "honest state H v'"
    proof (rule honest_loses[OF h])
      fix k h b
      assume "typed_file state v' k h = Some b"
      then obtain q where q: "typed_path state k h = Some q" "file_at v' q = Some b" by (auto simp: typed_file_def bind_eq_Some_conv)
      with fs_rename_entry[OF r d(2,1), of q] apart[OF q(1)] have "file_at v q = Some b" by (auto simp: file_at_def split: if_splits)
      with q(1) show "typed_file state v k h = Some b" by (simp add: typed_file_path)
    qed
  qed
  have dirs: "keeps (honest state H) (create_dir_all_st p)" for p
    unfolding create_dir_all_st_def
  proof (intro keeps_call_st keeps_create_dir_all, erule honest_loses)
    fix v v' n k h b
    assume r: "fs_create_dir_all (take n p) v = Inr v'" and f: "typed_file state v' k h = Some b"
    have "file_at v' q = file_at v q" for q using fs_create_dir_all_entry[OF r, of q] by (auto simp: file_at_def)
    with f show "typed_file state v k h = Some b" by (cases "typed_path state k h") (simp_all add: typed_file_def)
  qed
  show "keeps (honest state H) (bind_st (file_exists source) (\<lambda>present.
     if \<not> present then file_exists d
     else
       bind_st (create_dir_all_st (butlast d)) (\<lambda>_.
       bind_st (try_st (call_st ''quarantine object'' source (atomic_io (fs_rename source d)))) (\<lambda>renamed.
         case renamed of
           Inr _ \<Rightarrow>
             bind_st (sync_directory (butlast source)) (\<lambda>_.
             bind_st (sync_directory (butlast d)) (\<lambda>_. return_st True))
         | Inl e \<Rightarrow>
             if e = Io ''quarantine object'' source ''No such file or directory'' then file_exists d
             else fail_st e))))"
    by (intro keeps_bind_st keeps_file_exists keeps_if dirs keeps_try_st keeps_call_st rename keeps_sum_case keeps_small_st keeps_sync_directory)
qed

definition honest_server :: "app_state \<Rightarrow> (bytes \<Rightarrow> string) \<Rightarrow> server \<Rightarrow> bool" where
  "honest_server state H s \<longleftrightarrow> honest state H (volume_of (sv_disk s))"

lemma honest_store: "keeps (honest state H) m \<Longrightarrow> keeps_sv (honest_server state H) (store_sv m)"
  by (erule keeps_store_sv) (simp_all add: honest_server_def)

lemma honest_metadata: "keeps_sv (honest_server state H) (metadata_sv h)"
  by (rule keeps_metadata_sv) (simp_all add: honest_server_def)

lemma honest_query: "keeps_sv (honest_server state H) (query_sv h)"
  unfolding query_sv_def by (rule honest_metadata)

lemma honest_purge_entry: "keeps_sv (honest_server state H) (purge_gc_entry state entry)"
  unfolding purge_gc_entry_def purge_quarantined_def
  by (intro keeps_bind_sv keeps_lift_env keeps_typed_store honest_store keeps_bind_st keeps_entry_case keeps_small_st keeps_sync_directory
      keeps_call_st keeps_read keeps_atomic honest_metadata) (rule honest_remove)

lemma gc_apart:
  assumes "standard_layout state" and "gc_destination state E entry = Inr d" and "typed_path state k h = Some q"
  shows "\<not> under d q"
  using gc_beside_typed(1)[OF assms(1,3,2)] .

lemma honest_process_entry:
  assumes "standard_layout state" shows "keeps_sv (honest_server state H) (process_gc_entry state entry acc)"
  unfolding process_gc_entry_def
  by (intro keeps_bind_sv[OF honest_query] keeps_if_sv keeps_bind_sv[OF honest_metadata] keeps_return_sv keeps_bind_lift keeps_bind_typed_store
      keeps_bind_sv[OF honest_store] keeps_bind_sv honest_purge_entry honest_quarantine[OF assms])
    (auto dest: gc_apart[OF assms])

lemma honest_process_entries: "standard_layout state \<Longrightarrow> keeps_sv (honest_server state H) (process_gc_entries state entries)"
  unfolding process_gc_entries_def by (intro keeps_foreach_sv honest_process_entry)

lemma honest_collectors:
  assumes "standard_layout state"
  shows "keeps_sv (honest_server state H) (resume_pending_gc state)"
    and "keeps_sv (honest_server state H) (quarantine_server_gc state fingerprint)"
    and "keeps_sv (honest_server state H) (purge_history_trash state u ids purge_all)"
proof -
  have env: "keeps_sv (honest_server state H) (\<lambda>E. metadata_sv (\<lambda>R. enqueue_gc (se_json E) (se_hash E) R fp) E)" for fp
    using honest_metadata unfolding keeps_sv_def by blast
  note r = keeps_bind_sv honest_query honest_process_entries[OF assms] keeps_foreach_sv honest_purge_entry keeps_lift_sv
    keeps_return_sv keeps_ensure_sv keeps_prod_sv honest_metadata
  show "keeps_sv (honest_server state H) (resume_pending_gc state)" unfolding resume_pending_gc_def by (intro r)
  show "keeps_sv (honest_server state H) (quarantine_server_gc state fingerprint)" unfolding quarantine_server_gc_def by (intro r env)
  show "keeps_sv (honest_server state H) (purge_history_trash state u ids purge_all)" unfolding purge_history_trash_def by (intro r)
qed

section \<open>The upload handler\<close>

lemma put_object_run:
  assumes layout: "standard_layout state" and "honest state (se_hash E) (volume_of (sv_disk s))"
    and run: "put_typed_object state kind_text digest content_length body E s = (r, s')"
  shows "sound_from state (se_hash E) (volume_of (sv_disk s)) (volume_of (sv_disk s'))
    \<and> (\<forall>resp. r = Inr resp \<longrightarrow> (\<exists>kind p R db. parse_object_kind kind_text = Inr kind \<and> po_sha256 resp = ''sha256:'' @ digest
        \<and> typed_path state kind (po_sha256 resp) = Some p
        \<and> holds_object (se_hash E) p (po_sha256 resp) (po_byte_length resp) (volume_of (sv_disk s'))
        \<and> record_storage_object R \<lparr>ref3_kind = kind, ref3_sha256 = po_sha256 resp, ref3_byte_length = po_byte_length resp\<rparr> (sv_db s) = Inr ((), db)
        \<and> sv_db s' = db))"
proof -
  let ?v = "volume_of (sv_disk s)"
  have start: "sound_from state (se_hash E) ?v ?v" using assms(2) by (simp add: sound_from_def extends_def)
  show ?thesis
  proof (cases "\<exists>kind n st. parse_object_kind kind_text = Inr kind \<and> object_id_from_path digest = Inr (''sha256:'' @ digest) \<and> content_length = Inr n
      \<and> \<not> n > max_bytes_v3 kind \<and> st_typed_objects state kind = Some st")
    case False
    have id: "object_id_from_path digest = Inr x \<Longrightarrow> x = ''sha256:'' @ digest" for x
      by (auto simp: object_id_from_path_def Let_def bindr_eq_Inr_iff)
    from False run id have "s' = s \<and> (\<exists>e. r = Inl e)"
      by (auto simp: put_typed_object_def bind_sv_def lift_sv_def fail_sv_def return_sv_def ensure_sv_def typed_store_def
          split: sum.splits if_splits option.splits)
    with start show ?thesis by auto
  next
    case True
    then obtain kind n st where ok: "parse_object_kind kind_text = Inr kind" "object_id_from_path digest = Inr (''sha256:'' @ digest)" "content_length = Inr n"
      "\<not> n > max_bytes_v3 kind" "st_typed_objects state kind = Some st" by blast
    let ?m = "put_stream (se_hash E) (se_temp_name E) st (''sha256:'' @ digest) n body"
    obtain w d where put: "?m (se_faults E) (sv_disk s) = (w, d)" by fastforce
    have t: "sound_from state (se_hash E) ?v (volume_of d)"
      "\<And>a. w = Inr (Inr a) \<Longrightarrow> \<exists>p. typed_path state kind (''sha256:'' @ digest) = Some p \<and> holds_object (se_hash E) p (''sha256:'' @ digest) n (volume_of d)"
      using triple_put[OF layout ok(5), of "se_hash E" ?v "se_temp_name E" "''sha256:'' @ digest" n body] start put
      unfolding triple_def by (metis fst_conv snd_conv)+
    let ?rest = "\<lambda>result. bind_sv (metadata_sv (\<lambda>R. record_storage_object R \<lparr>ref3_kind = kind, ref3_sha256 = ''sha256:'' @ digest, ref3_byte_length = n\<rparr>)) (\<lambda>_.
       return_sv \<lparr>po_sha256 = ''sha256:'' @ digest, po_byte_length = n, po_created = (result = ObjectCreated)\<rparr>)"
    from run ok have run': "bind_sv (\<lambda>E. store_sv (put_stream (se_hash E) (se_temp_name E) st (''sha256:'' @ digest) n body) E) ?rest E s = (r, s')"
      by (simp add: put_typed_object_def bind_sv_def lift_sv_def return_sv_def ensure_sv_def typed_store_def)
    show ?thesis
    proof (cases "\<exists>a. w = Inr (Inr a)")
      case False
      with run' put have "sv_disk s' = d \<and> (\<exists>e. r = Inl e)"
        by (cases w) (auto simp: bind_sv_def store_sv_def split: sum.splits)
      with t(1) show ?thesis by auto
    next
      case True
      then obtain a where a: "w = Inr (Inr a)" by blast
      from t(2)[OF a] obtain p where p: "typed_path state kind (''sha256:'' @ digest) = Some p" "holds_object (se_hash E) p (''sha256:'' @ digest) n (volume_of d)" by blast
      from run' put a have rest: "?rest a E (s\<lparr>sv_disk := d\<rparr>) = (r, s')" by (simp add: bind_sv_def store_sv_def)
      then have "sv_disk s' = d"
        by (auto simp: bind_sv_def metadata_sv_def Let_def return_sv_def split: option.splits sum.splits prod.splits)
      moreover have "\<exists>R db. resp = \<lparr>po_sha256 = ''sha256:'' @ digest, po_byte_length = n, po_created = (a = ObjectCreated)\<rparr>
          \<and> record_storage_object R \<lparr>ref3_kind = kind, ref3_sha256 = ''sha256:'' @ digest, ref3_byte_length = n\<rparr> (sv_db s) = Inr ((), db) \<and> sv_db s' = db"
        if "r = Inr resp" for resp
        using rest that by (auto simp: bind_sv_Inr metadata_sv_Inr return_sv_Inr)
      ultimately show ?thesis using t(1) p ok(1) by fastforce
    qed
  qed
qed

section \<open>The properties\<close>

text \<open>
  C11: The typed object files are what their names say: if the bytes of every file under an object path
  have the digest in the path, this is so again after an upload of any body, a commit, a garbage
  collection, a purge of trashed history or the resumption of the queue at the start, whatever call
  of the file system or the database fails on the way.
\<close>
theorem object_files_honest:
  assumes "standard_layout state" and "honest state (se_hash E) (volume_of (sv_disk s))"
    and "s' \<in> {snd (put_typed_object state kind_text digest content_length body E s), snd (commit_revision_root_v4 state u payload E s),
      snd (quarantine_server_gc state fingerprint E s), snd (purge_history_trash state u ids purge_all E s), snd (resume_pending_gc state E s)}"
  shows "honest state (se_hash E) (volume_of (sv_disk s'))"
proof -
  have start: "honest_server state (se_hash E) s" using assms(2) by (simp add: honest_server_def)
  obtain r r' t t' where p: "put_typed_object state kind_text digest content_length body E s = (r, t)"
    and c: "commit_revision_root_v4 state u payload E s = (r', t')" by fastforce
  from put_object_run[OF assms(1,2) p] have "honest state (se_hash E) (volume_of (sv_disk t))" by (simp add: sound_from_def)
  moreover from on_volumeD[OF on_volume_commit c] assms(2) have "honest state (se_hash E) (volume_of (sv_disk t'))" by simp
  ultimately show ?thesis
    using assms(3) p c honest_collectors[OF assms(1), THEN keeps_svD, OF start] by (auto simp: honest_server_def)
qed

lemma recorded_row:
  assumes "record_storage_object R \<lparr>ref3_kind = kind, ref3_sha256 = h, ref3_byte_length = n\<rparr> db = Inr ((), db')"
  shows "(wire_name_v3 kind, h) \<in> (\<lambda>row. (st_kind row, st_sha256 row)) ` set (db_storage db')"
proof (cases "list_ex (\<lambda>r. (st_kind r, st_sha256 r) = (wire_name_v3 kind, h)) (db_storage db)")
  case True
  then obtain row where row: "row \<in> set (db_storage db)" "(st_kind row, st_sha256 row) = (wire_name_v3 kind, h)" by (auto simp: list_ex_iff)
  define f where "f len = (\<lambda>r :: storage_row. if (st_kind r, st_sha256 r) = (wire_name_v3 kind, h) \<and> st_byte_length r = len then r\<lparr>st_byte_length := len\<rparr> else r)" for len
  from assms True obtain len where "db_storage db' = map (f len) (db_storage db)"
    by (auto simp: record_storage_object_def bindr_eq_Inr_iff node_of_def f_def[abs_def])
  moreover have "st_kind (f len r) = st_kind r \<and> st_sha256 (f len r) = st_sha256 r" for r by (simp add: f_def)
  ultimately have "f len row \<in> set (db_storage db')" "(wire_name_v3 kind, h) = (st_kind (f len row), st_sha256 (f len row))" using row by simp_all
  then show ?thesis by (rule rev_image_eqI)
next
  case False
  with assms show ?thesis by (auto simp: record_storage_object_def bindr_eq_Inr_iff node_of_def)
qed

text \<open>
  C23: An upload stores what it was sent or nothing: a successful one leaves, under the path of the
  digest in its URL, a file of the declared length with that digest, and a row for it in the database;
  and whether it succeeds or fails, every object file that was there keeps its bytes.
\<close>
theorem upload_stores_object:
  assumes "standard_layout state" and "honest state (se_hash E) (volume_of (sv_disk s))"
    and "put_typed_object state kind_text digest content_length body E s = (r, s')"
  shows "(\<forall>k h b. typed_file state (volume_of (sv_disk s)) k h = Some b \<longrightarrow> typed_file state (volume_of (sv_disk s')) k h = Some b)
    \<and> (\<forall>resp. r = Inr resp \<longrightarrow> (\<exists>kind b. parse_object_kind kind_text = Inr kind \<and> po_sha256 resp = ''sha256:'' @ digest
        \<and> typed_file state (volume_of (sv_disk s')) kind (''sha256:'' @ digest) = Some b
        \<and> digest_bytes_v4 (se_hash E) b = ''sha256:'' @ digest \<and> of_nat (length b) = po_byte_length resp
        \<and> (wire_name_v3 kind, ''sha256:'' @ digest) \<in> (\<lambda>row. (st_kind row, st_sha256 row)) ` set (db_storage (sv_db s'))))"
proof -
  note run = put_object_run[OF assms]
  show ?thesis
  proof (rule conjI, use run in \<open>simp add: sound_from_def extends_def\<close>, intro allI impI)
    fix resp
    assume "r = Inr resp"
    with run obtain kind p R db where k: "parse_object_kind kind_text = Inr kind" "po_sha256 resp = ''sha256:'' @ digest"
      "typed_path state kind (''sha256:'' @ digest) = Some p" "holds_object (se_hash E) p (''sha256:'' @ digest) (po_byte_length resp) (volume_of (sv_disk s'))"
      "record_storage_object R \<lparr>ref3_kind = kind, ref3_sha256 = ''sha256:'' @ digest, ref3_byte_length = po_byte_length resp\<rparr> (sv_db s) = Inr ((), sv_db s')"
      by metis
    from k(4) obtain b where b: "file_at (volume_of (sv_disk s')) p = Some b" "digest_bytes_v4 (se_hash E) b = ''sha256:'' @ digest"
      "of_nat (length b) = po_byte_length resp" unfolding holds_object_def by blast
    from k(1,2) b(2,3) recorded_row[OF k(5)] typed_file_path[OF k(3)] b(1)
    show "\<exists>kind b. parse_object_kind kind_text = Inr kind \<and> po_sha256 resp = ''sha256:'' @ digest
        \<and> typed_file state (volume_of (sv_disk s')) kind (''sha256:'' @ digest) = Some b
        \<and> digest_bytes_v4 (se_hash E) b = ''sha256:'' @ digest \<and> of_nat (length b) = po_byte_length resp
        \<and> (wire_name_v3 kind, ''sha256:'' @ digest) \<in> (\<lambda>row. (st_kind row, st_sha256 row)) ` set (db_storage (sv_db s'))"
      by (intro exI[of _ kind] exI[of _ b]) simp
  qed
qed

definition toy_blank :: server where
  "toy_blank = \<lparr>sv_disk = \<lparr>volume_of = [([''typed''], DirEntry), ([''typed'', ''whole''], DirEntry), ([''typed'', ''whole'', ''objects''], DirEntry),
     ([''typed'', ''whole'', ''objects'', ''tmp''], DirEntry)], clock = 0\<rparr>, sv_db = toy_named, sv_calls = 0\<rparr>"

lemma toy_upload_runs:
  "case put_typed_object toy_app ''whole'' (replicate 64 CHR ''0'') (Inr 2) [Inr ''x'', Inr ''y''] toy_env toy_blank of
     (Inl _, _) \<Rightarrow> False | (Inr resp, _) \<Rightarrow> po_created resp \<and> po_byte_length resp = 2"
  by code_simp

lemma toy_blank_honest: "honest toy_app H (volume_of (sv_disk toy_blank))"
proof -
  have "typed_file toy_app (volume_of (sv_disk toy_blank)) k h = None" for k h
    by (cases "typed_path toy_app k h") (simp_all add: typed_file_def toy_blank_def file_at_def entry_at_def)
  then show ?thesis by (simp add: honest_def)
qed

lemma toy_layout: "standard_layout toy_app"
  by (simp add: standard_layout_def toy_app_def toy_object_store_def)

theorem object_files_honest_witness:
  "honest toy_app toy_hash (volume_of (sv_disk (snd (put_typed_object toy_app ''whole'' (replicate 64 CHR ''0'') (Inr 2) [Inr ''x'', Inr ''y''] toy_env toy_blank))))"
proof -
  have h: "se_hash toy_env = toy_hash" by (simp add: toy_env_def)
  from object_files_honest[OF toy_layout, of toy_env toy_blank] toy_blank_honest show ?thesis unfolding h by blast
qed

theorem upload_stores_object_witness:
  "\<exists>resp s' b. put_typed_object toy_app ''whole'' (replicate 64 CHR ''0'') (Inr 2) [Inr ''x'', Inr ''y''] toy_env toy_blank = (Inr resp, s')
     \<and> typed_file toy_app (volume_of (sv_disk s')) Whole3 (''sha256:'' @ replicate 64 CHR ''0'') = Some b \<and> of_nat (length b) = po_byte_length resp"
proof -
  from toy_upload_runs obtain resp s' where run: "put_typed_object toy_app ''whole'' (replicate 64 CHR ''0'') (Inr 2) [Inr ''x'', Inr ''y''] toy_env toy_blank = (Inr resp, s')"
    by (auto split: prod.splits sum.splits)
  have "parse_object_kind ''whole'' = Inr Whole3" by code_simp
  with upload_stores_object[OF toy_layout toy_blank_honest run] run show ?thesis by auto
qed

end
