(* ===== verification/ManifestProps.thy ===== *)
theory ManifestProps
  imports Protocol ServerProps
begin

text \<open>
  The limits of a revision manifest: which manifests become metadata, and what the metadata lists.
\<close>

section \<open>Collecting the object lengths\<close>

definition object_pair :: "content_object \<Rightarrow> string \<times> u64" where
  "object_pair r = (co_sha256 r, co_byte_length r)"

lemma set_bt_insert_new: "bt_ok m \<Longrightarrow> bt_get m k = None \<Longrightarrow> set (bt_insert k v m) = insert (k, v) (set m)"
proof -
  assume m: "bt_ok m" "bt_get m k = None"
  have "(x, y) \<in> set (bt_insert k v m) \<longleftrightarrow> (x, y) \<in> insert (k, v) (set m)" for x y
    using m bt_get_in_set[OF bt_ok_insert[OF m(1)], of k v x y] bt_get_in_set[OF m(1), of x y] by (auto simp: bt_get_insert split: if_splits)
  then show ?thesis by auto
qed

lemma bt_length: "bt_ok m \<Longrightarrow> length m = card (fst ` set m)"
  using distinct_card[OF bt_ok_distinct, of m] by (simp add: bt_keys_def)

lemma lengths_sound:
  assumes "foldr_res (object_length_step rid) (zip [i..<i + length rs] rs) m = Inr m'" and "bt_ok m" and "length m \<le> MAX_REVISION_OBJECTS"
  shows "bt_ok m' \<and> length m' \<le> MAX_REVISION_OBJECTS \<and> (rs \<noteq> [] \<longrightarrow> i + length rs \<le> MAX_REVISION_OBJECT_REFERENCES)
     \<and> set m' = set m \<union> object_pair ` set rs"
  using assms
proof (induction rs arbitrary: i m)
  case (Cons r rs)
  have zip: "zip [i..<i + length (r # rs)] (r # rs) = (i, r) # zip [Suc i..<Suc i + length rs] rs"
    by (simp add: upt_conv_Cons del: upt_Suc)
  from Cons.prems(1) obtain m1 where 1: "object_length_step rid (i, r) m = Inr m1"
    "foldr_res (object_length_step rid) (zip [Suc i..<Suc i + length rs] rs) m1 = Inr m'"
    unfolding zip by (auto simp: bindr_eq_Inr_iff)
  from 1(1) have i: "i < MAX_REVISION_OBJECT_REFERENCES" by (auto simp: object_length_step_def bindr_eq_Inr_iff)
  have m1: "bt_ok m1 \<and> length m1 \<le> MAX_REVISION_OBJECTS \<and> set m1 = insert (object_pair r) (set m)"
  proof (cases "bt_get m (co_sha256 r)")
    case None
    with 1(1) have "m1 = bt_insert (co_sha256 r) (co_byte_length r) m" "\<not> length m \<ge> MAX_REVISION_OBJECTS"
      by (auto simp: object_length_step_def bindr_eq_Inr_iff split: if_splits)
    moreover have "co_sha256 r \<notin> fst ` set m" using None bt_get_None_keys[of m] by (simp add: bt_keys_def)
    ultimately show ?thesis using Cons.prems(2) None bt_length[of m] bt_length[of m1]
      by (simp add: set_bt_insert_new object_pair_def)
  next
    case (Some n)
    with 1(1) have "m1 = m" "n = co_byte_length r" by (auto simp: object_length_step_def bindr_eq_Inr_iff split: if_splits)
    with Some Cons.prems(2,3) bt_get_in_set[OF Cons.prems(2)] show ?thesis by (auto simp: object_pair_def)
  qed
  from Cons.IH[OF 1(2)] m1 i show ?case by (cases rs) auto
qed simp

lemma lengths_complete:
  assumes "bt_ok m" and "inj_on fst (set m \<union> object_pair ` set rs)" and "card (fst ` (set m \<union> object_pair ` set rs)) \<le> MAX_REVISION_OBJECTS"
    and "i + length rs \<le> MAX_REVISION_OBJECT_REFERENCES"
  shows "\<exists>m'. foldr_res (object_length_step rid) (zip [i..<i + length rs] rs) m = Inr m'"
  using assms
proof (induction rs arbitrary: i m)
  case (Cons r rs)
  have zip: "zip [i..<i + length (r # rs)] (r # rs) = (i, r) # zip [Suc i..<Suc i + length rs] rs"
    by (simp add: upt_conv_Cons del: upt_Suc)
  have all: "set m \<union> object_pair ` set (r # rs) = insert (object_pair r) (set m) \<union> object_pair ` set rs" by auto
  have i: "i < MAX_REVISION_OBJECT_REFERENCES" "Suc i + length rs \<le> MAX_REVISION_OBJECT_REFERENCES" using Cons.prems(4) by simp_all
  obtain m1 where m1: "object_length_step rid (i, r) m = Inr m1" "bt_ok m1" "set m1 = insert (object_pair r) (set m)"
  proof (cases "bt_get m (co_sha256 r)")
    case None
    have "co_sha256 r \<notin> fst ` set m" using None bt_get_None_keys[of m] by (simp add: bt_keys_def)
    then have "Suc (card (fst ` set m)) = card (fst ` insert (object_pair r) (set m))" by (simp add: object_pair_def)
    also have "\<dots> \<le> card (fst ` (set m \<union> object_pair ` set (r # rs)))" by (rule card_mono) auto
    finally have "\<not> length m \<ge> MAX_REVISION_OBJECTS" using Cons.prems(1,3) bt_length[of m] by simp
    with None i(1) that[of "bt_insert (co_sha256 r) (co_byte_length r) m"] Cons.prems(1) show thesis
      by (simp add: object_length_step_def set_bt_insert_new object_pair_def)
  next
    case (Some n)
    with bt_get_in_set[OF Cons.prems(1)] have "(co_sha256 r, n) \<in> set m" by simp
    moreover from this Cons.prems(2) have "n = co_byte_length r" by (force simp: inj_on_def object_pair_def)
    ultimately show thesis using that[of m] Some i(1) Cons.prems(1) by (auto simp: object_length_step_def object_pair_def)
  qed
  from Cons.IH[OF m1(2) _ _ i(2)] Cons.prems(2,3) have "\<exists>m'. foldr_res (object_length_step rid) (zip [Suc i..<Suc i + length rs] rs) m1 = Inr m'"
    unfolding m1(3) all by blast
  with m1(1) show ?case unfolding zip by simp
qed simp

section \<open>The limits\<close>

definition manifest_references :: "revision_manifest \<Rightarrow> content_object list" where
  "manifest_references m = concat (map (\<lambda>t. rollout t # attachments t) (py_threads (ma_payload m)))"

lemma from_manifest_lengths:
  "from_manifest J H uuid_str nat_text is_rfc3339 show_error m =
     bindr (foldr_res (object_length_step (ma_revision_id m)) (zip [0..<0 + length (manifest_references m)] (manifest_references m)) []) (\<lambda>lengths.
     bindr (map_err (RevisionValidation \<circ> show_error) (validate_manifest J H uuid_str nat_text is_rfc3339 m)) (\<lambda>_.
     bindr (map_err (RevisionValidation \<circ> show_error) (canonical_revision_json J uuid_str nat_text is_rfc3339 (ma_payload m))) (\<lambda>canonical.
        Inr \<lparr>nm_id = ma_revision_id m, nm_namespace = py_namespace_id (ma_payload m), nm_parent = py_parent_revision (ma_payload m),
          nm_created_at = py_created_at (ma_payload m), nm_manifest_bytes = of_nat (length canonical),
          nm_thread_count = of_nat (length (py_threads (ma_payload m))),
          nm_objects = map (\<lambda>(h, n). \<lparr>ob_sha256 = h, ob_byte_length = n\<rparr>) lengths,
          nm_object_count_override = None, nm_total_bytes_override = None,
          nm_root_schema_version = REVISION_ROOT_V3_SCHEMA_VERSION\<rparr>)))"
  by (simp add: from_manifest_def Let_def manifest_references_def)

lemma valid_manifest_canonical:
  "validate_manifest J H uuid_str nat_text is_rfc3339 m = Inr u \<Longrightarrow> \<exists>b. canonical_revision_json J uuid_str nat_text is_rfc3339 (ma_payload m) = Inr b"
  by (auto simp: validate_manifest_def payload_revision_id_def bindr_eq_Inr_iff)

lemma pairs_lengths: "map (\<lambda>ob. (ob_sha256 ob, ob_byte_length ob)) (map (\<lambda>(h, n). \<lparr>ob_sha256 = h, ob_byte_length = n\<rparr>) xs) = xs"
  by (induction xs) auto

lemma from_manifest_accepts:
  "is_ok (from_manifest J H uuid_str nat_text is_rfc3339 show_error m) \<longleftrightarrow>
     length (manifest_references m) \<le> 20000 \<and> card (co_sha256 ` set (manifest_references m)) \<le> 10000
     \<and> inj_on fst ((\<lambda>r. (co_sha256 r, co_byte_length r)) ` set (manifest_references m))
     \<and> is_ok (validate_manifest J H uuid_str nat_text is_rfc3339 m)"
proof -
  let ?rs = "manifest_references m" and ?step = "object_length_step (ma_revision_id m)"
  let ?fold = "foldr_res ?step (zip [0..<0 + length ?rs] ?rs) []"
  have pair: "object_pair = (\<lambda>r. (co_sha256 r, co_byte_length r))" by (simp add: object_pair_def[abs_def])
  have keys: "fst ` object_pair ` set ?rs = co_sha256 ` set ?rs" by (simp add: image_image object_pair_def)
  note sound = lengths_sound[of "ma_revision_id m" 0 ?rs "[]"]
  have "is_ok (from_manifest J H uuid_str nat_text is_rfc3339 show_error m) \<longleftrightarrow> is_ok ?fold \<and> is_ok (validate_manifest J H uuid_str nat_text is_rfc3339 m)"
    using valid_manifest_canonical[of J H uuid_str nat_text is_rfc3339 m]
    unfolding from_manifest_lengths by (auto simp: is_ok_iff bindr_eq_Inr_iff)
  also have "is_ok ?fold \<longleftrightarrow> length ?rs \<le> 20000 \<and> card (co_sha256 ` set ?rs) \<le> 10000 \<and> inj_on fst (object_pair ` set ?rs)"
  proof
    assume "is_ok ?fold"
    then obtain m' where f: "?fold = Inr m'" by (auto simp: is_ok_iff)
    from sound[OF f] have s: "bt_ok m'" "length m' \<le> 10000" "length ?rs \<le> 20000" "set m' = object_pair ` set ?rs"
      by (auto simp: MAX_REVISION_OBJECTS_def MAX_REVISION_OBJECT_REFERENCES_def)
    from bt_ok_distinct[OF s(1)] have "inj_on fst (set m')" by (simp add: bt_keys_def distinct_map)
    moreover have "length m' = card (co_sha256 ` set ?rs)" using bt_length[OF s(1)] s(4) keys by simp
    ultimately show "length ?rs \<le> 20000 \<and> card (co_sha256 ` set ?rs) \<le> 10000 \<and> inj_on fst (object_pair ` set ?rs)" using s by simp
  next
    assume "length ?rs \<le> 20000 \<and> card (co_sha256 ` set ?rs) \<le> 10000 \<and> inj_on fst (object_pair ` set ?rs)"
    then show "is_ok ?fold"
      using lengths_complete[of "[]" ?rs 0 "ma_revision_id m"] keys
      by (simp add: is_ok_iff MAX_REVISION_OBJECTS_def MAX_REVISION_OBJECT_REFERENCES_def)
  qed
  finally show "is_ok (from_manifest J H uuid_str nat_text is_rfc3339 show_error m) \<longleftrightarrow>
     length ?rs \<le> 20000 \<and> card (co_sha256 ` set ?rs) \<le> 10000 \<and> inj_on fst ((\<lambda>r. (co_sha256 r, co_byte_length r)) ` set ?rs)
     \<and> is_ok (validate_manifest J H uuid_str nat_text is_rfc3339 m)" by (simp add: pair)
qed

lemma from_manifest_objects:
  assumes "from_manifest J H uuid_str nat_text is_rfc3339 show_error m = Inr x"
  shows "sorted_wrt (<) (map ob_sha256 (nm_objects x))
     \<and> (\<lambda>ob. (ob_sha256 ob, ob_byte_length ob)) ` set (nm_objects x) = (\<lambda>r. (co_sha256 r, co_byte_length r)) ` set (manifest_references m)"
proof -
  let ?rs = "manifest_references m"
  from assms obtain m' where f: "foldr_res (object_length_step (ma_revision_id m)) (zip [0..<0 + length ?rs] ?rs) [] = Inr m'"
    "nm_objects x = map (\<lambda>(h, n). \<lparr>ob_sha256 = h, ob_byte_length = n\<rparr>) m'"
    unfolding from_manifest_lengths by (auto simp: bindr_eq_Inr_iff)
  from lengths_sound[OF f(1)] have s: "bt_ok m'" "set m' = object_pair ` set ?rs" by simp_all
  have "map ob_sha256 (nm_objects x) = map fst (map (\<lambda>ob. (ob_sha256 ob, ob_byte_length ob)) (nm_objects x))" by simp
  then have keys: "map ob_sha256 (nm_objects x) = bt_keys m'" unfolding f(2) pairs_lengths bt_keys_def .
  have same: "(\<lambda>ob. (ob_sha256 ob, ob_byte_length ob)) ` set (nm_objects x) = set m'"
    unfolding f(2) set_map[symmetric] pairs_lengths ..
  show ?thesis
  proof
    show "sorted_wrt (<) (map ob_sha256 (nm_objects x))"
      unfolding keys strict_sorted_iff using bt_ok_sorted[OF s(1)] bt_ok_distinct[OF s(1)] by blast
    show "(\<lambda>ob. (ob_sha256 ob, ob_byte_length ob)) ` set (nm_objects x) = (\<lambda>r. (co_sha256 r, co_byte_length r)) ` set ?rs"
      unfolding same s(2) object_pair_def[abs_def] ..
  qed
qed

text \<open>
  C38: A manifest becomes the metadata of a revision exactly when it is valid, has at most 20,000
  references to at most 10,000 different objects and never gives one object two lengths; and then
  the metadata lists each of these objects once, with its length, in the order of the digests.
\<close>
theorem manifest_limits:
  "(is_ok (from_manifest J H uuid_str nat_text is_rfc3339 show_error m) \<longleftrightarrow>
     length (manifest_references m) \<le> 20000 \<and> card (co_sha256 ` set (manifest_references m)) \<le> 10000
     \<and> inj_on fst ((\<lambda>r. (co_sha256 r, co_byte_length r)) ` set (manifest_references m))
     \<and> is_ok (validate_manifest J H uuid_str nat_text is_rfc3339 m))
   \<and> (\<forall>x. from_manifest J H uuid_str nat_text is_rfc3339 show_error m = Inr x \<longrightarrow>
     sorted_wrt (<) (map ob_sha256 (nm_objects x))
     \<and> (\<lambda>ob. (ob_sha256 ob, ob_byte_length ob)) ` set (nm_objects x) = (\<lambda>r. (co_sha256 r, co_byte_length r)) ` set (manifest_references m))"
  using from_manifest_accepts from_manifest_objects by blast

definition toy_manifest_payload :: revision_payload where
  "toy_manifest_payload = \<lparr>py_schema_version = 1, py_namespace_id = toy_namespace, py_parent_revision = None, py_created_at = ''t'',
     py_threads = [stored_thread], py_warning_count = 0\<rparr>"

definition toy_revision_manifest :: revision_manifest where
  "toy_revision_manifest = \<lparr>ma_revision_id = ''sha256:'' @ replicate 64 CHR ''0'', ma_payload = toy_manifest_payload\<rparr>"

lemma toy_manifest_threads: "is_ok (foldr_res (validate_payload_thread (\<lambda>_. ''0'')) [stored_thread] [])"
  by code_simp

lemma toy_manifest_valid: "is_ok (validate_manifest toy_text toy_hash (\<lambda>_. ''u'') (\<lambda>_. ''0'') (\<lambda>_. True) toy_revision_manifest)"
proof -
  have id: "validate_sha256 (''sha256:'' @ replicate 64 CHR ''0'') = Inr ()"
    by (simp add: validate_sha256_def strip_prefix_def list_all_iff is_lower_hex_def is_ascii_digit_def)
  obtain ids where "foldr_res (validate_payload_thread (\<lambda>_. ''0'')) [stored_thread] [] = Inr ids"
    using toy_manifest_threads unfolding is_ok_iff by blast
  then have "validate_payload (\<lambda>_. ''u'') (\<lambda>_. ''0'') (\<lambda>_. True) toy_manifest_payload = Inr ()"
    by (simp add: validate_payload_def toy_manifest_payload_def REVISION_SCHEMA_VERSION_def toy_namespace_version del: foldr_res.simps)
  with id show ?thesis
    by (simp add: validate_manifest_def toy_revision_manifest_def payload_revision_id_def canonical_revision_json_def normalized_payload_def toy_hash_def)
qed

theorem manifest_limits_witness:
  "\<exists>x. from_manifest toy_text toy_hash (\<lambda>_. ''u'') (\<lambda>_. ''0'') (\<lambda>_. True) (\<lambda>_. []) toy_revision_manifest = Inr x
     \<and> (\<lambda>ob. (ob_sha256 ob, ob_byte_length ob)) ` set (nm_objects x) = {(toy_digest, 0)}"
proof -
  have refs: "manifest_references toy_revision_manifest = [content_object_from_ref_v4 stored_content]"
    by code_simp
  have one: "co_sha256 (content_object_from_ref_v4 stored_content) = toy_digest" "co_byte_length (content_object_from_ref_v4 stored_content) = 0"
    by code_simp+
  from manifest_limits[of toy_text toy_hash "\<lambda>_. ''u''" "\<lambda>_. ''0''" "\<lambda>_. True" "\<lambda>_. []" toy_revision_manifest] toy_manifest_valid
  show ?thesis by (auto simp: refs one is_ok_iff)
qed

end
