(* ===== verification/Jobs.thy ===== *)
theory Jobs
  imports Json "HOL-Library.Multiset"
begin

text \<open>
  The desktop's background jobs: \<open>JobManager\<close> of apps/desktop/src-tauri/src/jobs.rs and the
  \<open>OperationControl\<close> of crates/sync-core/src/operation.rs that a job hands to its operation. The
  three mutexes guard the three fields of \<open>job_manager\<close>; every method holds one lock at a time, so
  a method is one step (the methods that take two leases are two acquisitions). No code panics
  while it holds a lock, so a lock is never poisoned and the \<open>lock\<close> calls return. The
  \<open>AtomicBool\<close> an entry shares with its control is addressed by the job it was made for. What the
  file system and the platform say of a path is the parameter \<open>path_env\<close>; \<open>usize\<close> has 64 bits.
\<close>

section \<open>Operations and their control\<close>

record operation_progress =
  phase :: string
  message :: string
  completed :: u64
  progress_total :: "u64 option"
  unit_name :: string
  progress_cancellable :: bool

definition indeterminate :: "string \<Rightarrow> string \<Rightarrow> operation_progress" where
  "indeterminate ph msg = \<lparr>phase = ph, message = msg, completed = 0, progress_total = None,
     unit_name = ''items'', progress_cancellable = True\<rparr>"

text \<open>A flag is the one of a job, or one of the control's own, with its content.\<close>

datatype cancel_flag = JobFlag string | OwnFlag bool

record 's operation_control =
  cancelled :: cancel_flag
  reporter :: "(operation_progress \<Rightarrow> 's \<Rightarrow> 's) option"

fun load_flag :: "(string \<Rightarrow> bool) \<Rightarrow> cancel_flag \<Rightarrow> bool" where
  "load_flag flags (JobFlag i) = flags i"
| "load_flag flags (OwnFlag b) = b"

definition is_cancelled :: "(string \<Rightarrow> bool) \<Rightarrow> 's operation_control \<Rightarrow> bool" where
  "is_cancelled flags c = load_flag flags (cancelled c)"

definition check_cancelled :: "(string \<Rightarrow> bool) \<Rightarrow> 's operation_control \<Rightarrow> string + unit" where
  "check_cancelled flags c = ensure (\<not> is_cancelled flags c) ''operation cancelled''"

definition report_progress :: "'s operation_control \<Rightarrow> operation_progress \<Rightarrow> 's \<Rightarrow> 's" where
  "report_progress c p s = (case reporter c of None \<Rightarrow> s | Some r \<Rightarrow> r p s)"

definition non_cancellable :: "'s operation_control \<Rightarrow> 's operation_control" where
  "non_cancellable c = \<lparr>cancelled = OwnFlag False,
     reporter = map_option (\<lambda>r p. r (p\<lparr>progress_cancellable := False\<rparr>)) (reporter c)\<rparr>"

section \<open>The state of the manager\<close>

datatype job_state = Running | Cancelling | Completed | Cancelled | Failed

record job_snapshot =
  job_id :: string
  job_kind :: string
  state :: job_state
  job_progress :: operation_progress
  cancellable :: bool
  result_ready :: bool
  job_error :: "string option"

record job_entry =
  job_cancel :: cancel_flag
  job_snap :: job_snapshot
  job_result :: "json option"

record repository_lease_state =
  readers :: u64
  writer :: bool

record job_manager =
  jobs :: "string \<rightharpoonup> job_entry"
  cancel_flags :: "string \<Rightarrow> bool"
  active_codex_homes :: "string set"
  repositories :: "string \<rightharpoonup> repository_lease_state"

definition default_manager :: job_manager where
  "default_manager = \<lparr>jobs = Map.empty, cancel_flags = (\<lambda>_. False), active_codex_homes = {},
     repositories = Map.empty\<rparr>"

text \<open>A home lease is always for writing, a repository lease is exclusive or shared.\<close>

datatype lease = HomeLease string | RepositoryLease string bool

datatype manager_error =
    NormalizeFailed string string string
  | CurrentDirFailed string
  | HomeBusy string
  | RepositoryBusy string
  | ReaderOverflow
  | JobNotFound
  | NotCancellable
  | NotCompleted
  | ResultTaken

section \<open>Keys of leases\<close>

record path_env =
  canonicalize :: "string \<Rightarrow> string + string"
  path_exists :: "string \<Rightarrow> bool"
  is_absolute :: "string \<Rightarrow> bool"
  current_dir :: "string + string"
  join_path :: "string \<Rightarrow> string \<Rightarrow> string"
  lowercase :: "string \<Rightarrow> string"
  on_windows :: bool

definition fold_case :: "path_env \<Rightarrow> string \<Rightarrow> string" where
  "fold_case E s = (if on_windows E then lowercase E s else s)"

definition normalized_existing_path :: "path_env \<Rightarrow> string \<Rightarrow> string \<Rightarrow> manager_error + string" where
  "normalized_existing_path E p kind = bindr (map_err (NormalizeFailed kind p) (canonicalize E p))
     (\<lambda>resolved. Inr (fold_case E (slashes resolved)))"

definition normalized_codex_home :: "path_env \<Rightarrow> string \<Rightarrow> manager_error + string" where
  "normalized_codex_home E p = normalized_existing_path E p ''Codex Home''"

definition normalized_path :: "path_env \<Rightarrow> string \<Rightarrow> manager_error + string" where
  "normalized_path E p =
     (if path_exists E p then normalized_existing_path E p ''repository''
      else bindr (if is_absolute E p then Inr p
                  else map_err CurrentDirFailed (map_sum (\<lambda>e. e) (\<lambda>d. join_path E d p) (current_dir E)))
        (\<lambda>absolute. Inr (trim_end_slashes (fold_case E (slashes absolute)))))"

section \<open>Leases\<close>

definition try_acquire_codex_home ::
  "path_env \<Rightarrow> string \<Rightarrow> job_manager \<Rightarrow> manager_error + (lease \<times> job_manager)" where
  "try_acquire_codex_home E home m = bindr (normalized_codex_home E home) (\<lambda>key.
     if key \<in> active_codex_homes m then Inl (HomeBusy home)
     else Inr (HomeLease key, m\<lparr>active_codex_homes := insert key (active_codex_homes m)\<rparr>))"

definition lease_state :: "string \<Rightarrow> job_manager \<Rightarrow> repository_lease_state" where
  "lease_state key m = (case repositories m key of None \<Rightarrow> \<lparr>readers = 0, writer = False\<rparr> | Some st \<Rightarrow> st)"

text \<open>\<open>or_default\<close> leaves an entry behind on the error paths too.\<close>

definition try_acquire_repository ::
  "path_env \<Rightarrow> string \<Rightarrow> bool \<Rightarrow> job_manager \<Rightarrow> (manager_error + lease) \<times> job_manager" where
  "try_acquire_repository E repository exclusive m = (case normalized_path E repository of
     Inl e \<Rightarrow> (Inl e, m)
   | Inr key \<Rightarrow>
       let st = lease_state key m;
           set_state = (\<lambda>st. m\<lparr>repositories := (repositories m)(key \<mapsto> st)\<rparr>) in
       if writer st \<or> exclusive \<and> 0 < readers st then (Inl (RepositoryBusy repository), set_state st)
       else if exclusive then (Inr (RepositoryLease key True), set_state (st\<lparr>writer := True\<rparr>))
       else (case checked_add (readers st) 1 of
           None \<Rightarrow> (Inl ReaderOverflow, set_state st)
         | Some n \<Rightarrow> (Inr (RepositoryLease key False), set_state (st\<lparr>readers := n\<rparr>))))"

definition drop_codex_home_lease :: "string \<Rightarrow> job_manager \<Rightarrow> job_manager" where
  "drop_codex_home_lease key m = m\<lparr>active_codex_homes := active_codex_homes m - {key}\<rparr>"

definition drop_repository_lease :: "string \<Rightarrow> bool \<Rightarrow> job_manager \<Rightarrow> job_manager" where
  "drop_repository_lease key exclusive m = (case repositories m key of
     None \<Rightarrow> m
   | Some st \<Rightarrow>
       let st' = (if exclusive then st\<lparr>writer := False\<rparr>
                  else st\<lparr>readers := (if readers st = 0 then 0 else readers st - 1)\<rparr>) in
       m\<lparr>repositories := (if \<not> writer st' \<and> readers st' = 0 then (repositories m)(key := None)
                          else (repositories m)(key \<mapsto> st'))\<rparr>)"

fun drop_lease :: "lease \<Rightarrow> job_manager \<Rightarrow> job_manager" where
  "drop_lease (HomeLease key) m = drop_codex_home_lease key m"
| "drop_lease (RepositoryLease key exclusive) m = drop_repository_lease key exclusive m"

section \<open>Jobs\<close>

definition message_queued :: string where
  "message_queued = map (char_of :: nat \<Rightarrow> char)
     [228, 187, 187, 229, 138, 161, 230, 173, 163, 229, 156, 168, 229, 135, 134, 229, 164, 135]"

definition message_completed :: string where
  "message_completed = map (char_of :: nat \<Rightarrow> char)
     [228, 187, 187, 229, 138, 161, 229, 183, 178, 229, 174, 140, 230, 136, 144]"

definition message_cancelling :: string where
  "message_cancelling = map (char_of :: nat \<Rightarrow> char)
     [229, 183, 178, 232, 175, 183, 230, 177, 130, 229, 143, 150, 230, 182, 136, 239, 188, 140,
      230, 173, 163, 229, 156, 168, 229, 136, 176, 232, 190, 190, 229, 174, 137, 229, 133, 168,
      229, 129, 156, 230, 173, 162, 231, 130, 185]"

definition update_job :: "string \<Rightarrow> (job_entry \<Rightarrow> job_entry) \<Rightarrow> job_manager \<Rightarrow> job_manager" where
  "update_job i f m = m\<lparr>jobs := (jobs m)(i := map_option f (jobs m i))\<rparr>"

definition set_snap :: "(job_snapshot \<Rightarrow> job_snapshot) \<Rightarrow> job_entry \<Rightarrow> job_entry" where
  "set_snap f e = e\<lparr>job_snap := f (job_snap e)\<rparr>"

definition job_reporter :: "string \<Rightarrow> operation_progress \<Rightarrow> job_manager \<Rightarrow> job_manager" where
  "job_reporter i p = update_job i (set_snap (\<lambda>s. s\<lparr>cancellable := progress_cancellable p, job_progress := p\<rparr>))"

definition job_control :: "string \<Rightarrow> job_manager operation_control" where
  "job_control i = \<lparr>cancelled = JobFlag i, reporter = Some (job_reporter i)\<rparr>"

definition start_job :: "string \<Rightarrow> string \<Rightarrow> bool \<Rightarrow> job_manager \<Rightarrow> job_snapshot \<times> job_manager" where
  "start_job i kind can_cancel m =
     (let initial = \<lparr>job_id = i, job_kind = kind, state = Running,
            job_progress = indeterminate ''queued'' message_queued, cancellable = can_cancel,
            result_ready = False, job_error = None\<rparr>;
          entry = \<lparr>job_cancel = JobFlag i, job_snap = initial, job_result = None\<rparr> in
      (initial, m\<lparr>jobs := (jobs m)(i \<mapsto> entry), cancel_flags := (cancel_flags m)(i := False)\<rparr>))"

text \<open>What an operation returns: a value and how serde\_json serializes it, or the text of its error.\<close>

datatype operation_outcome = ReturnsOk "string + json" | ReturnsErr string

definition completed_progress :: operation_progress where
  "completed_progress = \<lparr>phase = ''completed'', message = message_completed, completed = 1,
     progress_total = Some 1, unit_name = ''tasks'', progress_cancellable = False\<rparr>"

fun job_outcome :: "bool \<Rightarrow> operation_outcome \<Rightarrow> job_entry \<Rightarrow> job_entry" where
  "job_outcome was_cancelled (ReturnsOk (Inr v)) e =
     (set_snap (\<lambda>s. s\<lparr>state := Completed, job_progress := completed_progress, cancellable := False,
        result_ready := True\<rparr>) e)\<lparr>job_result := Some v\<rparr>"
| "job_outcome was_cancelled (ReturnsOk (Inl err)) e =
     set_snap (\<lambda>s. s\<lparr>state := Failed, job_error := Some err, cancellable := False\<rparr>) e"
| "job_outcome was_cancelled (ReturnsErr err) e =
     set_snap (\<lambda>s. s\<lparr>state := (if was_cancelled then Cancelled else Failed), job_error := Some err,
        cancellable := False\<rparr>) e"

definition finish_job :: "string \<Rightarrow> operation_outcome \<Rightarrow> job_manager \<Rightarrow> job_manager" where
  "finish_job i out m = update_job i (job_outcome (is_cancelled (cancel_flags m) (job_control i)) out) m"

definition get_job :: "string \<Rightarrow> job_manager \<Rightarrow> job_snapshot option" where
  "get_job i m = map_option job_snap (jobs m i)"

definition store_flag :: "cancel_flag \<Rightarrow> job_manager \<Rightarrow> job_manager" where
  "store_flag f m = (case f of JobFlag i \<Rightarrow> m\<lparr>cancel_flags := (cancel_flags m)(i := True)\<rparr> | OwnFlag _ \<Rightarrow> m)"

definition cancel_job :: "string \<Rightarrow> job_manager \<Rightarrow> manager_error + (job_snapshot \<times> job_manager)" where
  "cancel_job i m = bindr (ok_or JobNotFound (jobs m i)) (\<lambda>e.
     bindr (ensure (cancellable (job_snap e)) NotCancellable) (\<lambda>_.
     let s = (job_snap e)\<lparr>state := Cancelling,
               job_progress := (job_progress (job_snap e))\<lparr>message := message_cancelling\<rparr>\<rparr> in
     Inr (s, update_job i (\<lambda>e. e\<lparr>job_snap := s\<rparr>) (store_flag (job_cancel e) m))))"

definition take_result :: "string \<Rightarrow> job_manager \<Rightarrow> (manager_error + json) \<times> job_manager" where
  "take_result i m = (case jobs m i of
     None \<Rightarrow> (Inl JobNotFound, m)
   | Some e \<Rightarrow>
       if state (job_snap e) \<noteq> Completed then (Inl NotCompleted, m)
       else (ok_or ResultTaken (job_result e), m\<lparr>jobs := (jobs m)(i := None)\<rparr>))"

text \<open>
  The five ways to start a job return the leases the operation's closure owns, in the order it
  releases them; a repository that is refused releases the home lease taken before it.
\<close>

definition start_repository ::
  "path_env \<Rightarrow> string \<Rightarrow> bool \<Rightarrow> string \<Rightarrow> string \<Rightarrow> bool \<Rightarrow> job_manager
     \<Rightarrow> (manager_error + (job_snapshot \<times> lease list)) \<times> job_manager" where
  "start_repository E repository exclusive i kind can_cancel m =
     (case try_acquire_repository E repository exclusive m of
        (Inl e, m1) \<Rightarrow> (Inl e, m1)
      | (Inr r, m1) \<Rightarrow> (case start_job i kind can_cancel m1 of (s, m2) \<Rightarrow> (Inr (s, [r]), m2)))"

definition start_home_repository ::
  "path_env \<Rightarrow> string \<Rightarrow> string \<Rightarrow> bool \<Rightarrow> string \<Rightarrow> string \<Rightarrow> bool \<Rightarrow> job_manager
     \<Rightarrow> (manager_error + (job_snapshot \<times> lease list)) \<times> job_manager" where
  "start_home_repository E home repository exclusive i kind can_cancel m =
     (case try_acquire_codex_home E home m of
        Inl e \<Rightarrow> (Inl e, m)
      | Inr (h, m1) \<Rightarrow> (case try_acquire_repository E repository exclusive m1 of
            (Inl e, m2) \<Rightarrow> (Inl e, drop_lease h m2)
          | (Inr r, m2) \<Rightarrow> (case start_job i kind can_cancel m2 of (s, m3) \<Rightarrow> (Inr (s, [r, h]), m3))))"

definition start_repository_shared where
  "start_repository_shared E repository = start_repository E repository False"

definition start_repository_exclusive where
  "start_repository_exclusive E repository = start_repository E repository True"

definition start_home_repository_shared where
  "start_home_repository_shared E home repository = start_home_repository E home repository False"

definition start_home_repository_exclusive where
  "start_home_repository_exclusive E home repository = start_home_repository E home repository True"

datatype start_request =
    Plain
  | RepositoryShared string
  | RepositoryExclusive string
  | HomeRepositoryShared string string
  | HomeRepositoryExclusive string string

fun start_with ::
  "path_env \<Rightarrow> start_request \<Rightarrow> string \<Rightarrow> string \<Rightarrow> bool \<Rightarrow> job_manager
     \<Rightarrow> (manager_error + (job_snapshot \<times> lease list)) \<times> job_manager" where
  "start_with E Plain i kind c m = (case start_job i kind c m of (s, m1) \<Rightarrow> (Inr (s, []), m1))"
| "start_with E (RepositoryShared r) i kind c m = start_repository_shared E r i kind c m"
| "start_with E (RepositoryExclusive r) i kind c m = start_repository_exclusive E r i kind c m"
| "start_with E (HomeRepositoryShared h r) i kind c m = start_home_repository_shared E h r i kind c m"
| "start_with E (HomeRepositoryExclusive h r) i kind c m = start_home_repository_exclusive E h r i kind c m"

section \<open>The jobs of a running desktop\<close>

text \<open>
  A thread is inside its operation, holding its leases, or has returned and not yet written its
  outcome. Commands of the desktop hold leases of their own. A job identifier is issued once.
\<close>

datatype job_thread = Working "lease list" | Returned operation_outcome

record job_world =
  manager :: job_manager
  command_leases :: "lease list"
  threads :: "(string \<times> job_thread) list"
  issued :: "string set"

definition job_world0 :: job_world where
  "job_world0 = \<lparr>manager = default_manager, command_leases = [], threads = [], issued = {}\<rparr>"

definition set_thread :: "string \<Rightarrow> job_thread option \<Rightarrow> (string \<times> job_thread) list \<Rightarrow> (string \<times> job_thread) list" where
  "set_thread i t ts = (case t of None \<Rightarrow> [] | Some u \<Rightarrow> [(i, u)]) @ filter (\<lambda>p. fst p \<noteq> i) ts"

inductive job_step :: "path_env \<Rightarrow> job_world \<Rightarrow> job_world \<Rightarrow> bool" for E where
  acquire_home: "try_acquire_codex_home E home (manager w) = Inr (l, m) \<Longrightarrow>
    job_step E w (w\<lparr>manager := m, command_leases := l # command_leases w\<rparr>)"
| acquire_repository: "try_acquire_repository E repository exclusive (manager w) = (Inr l, m) \<Longrightarrow>
    job_step E w (w\<lparr>manager := m, command_leases := l # command_leases w\<rparr>)"
| acquire_refused: "try_acquire_repository E repository exclusive (manager w) = (Inl e, m) \<Longrightarrow>
    job_step E w (w\<lparr>manager := m\<rparr>)"
| release: "l \<in> set (command_leases w) \<Longrightarrow>
    job_step E w (w\<lparr>manager := drop_lease l (manager w), command_leases := remove1 l (command_leases w)\<rparr>)"
| start: "i \<notin> issued w \<Longrightarrow> start_with E req i kind c (manager w) = (Inr (s, ls), m) \<Longrightarrow>
    job_step E w (w\<lparr>manager := m, threads := set_thread i (Some (Working ls)) (threads w),
      issued := insert i (issued w)\<rparr>)"
| start_refused: "i \<notin> issued w \<Longrightarrow> start_with E req i kind c (manager w) = (Inl e, m) \<Longrightarrow>
    job_step E w (w\<lparr>manager := m\<rparr>)"
| report: "(i, Working ls) \<in> set (threads w) \<Longrightarrow>
    job_step E w (w\<lparr>manager := report_progress (job_control i) p (manager w)\<rparr>)"
| return: "(i, Working ls) \<in> set (threads w) \<Longrightarrow>
    job_step E w (w\<lparr>manager := fold drop_lease ls (manager w),
      threads := set_thread i (Some (Returned out)) (threads w)\<rparr>)"
| unwind: "(i, Working ls) \<in> set (threads w) \<Longrightarrow>
    job_step E w (w\<lparr>manager := fold drop_lease ls (manager w), threads := set_thread i None (threads w)\<rparr>)"
| finish: "(i, Returned out) \<in> set (threads w) \<Longrightarrow>
    job_step E w (w\<lparr>manager := finish_job i out (manager w), threads := set_thread i None (threads w)\<rparr>)"
| cancel: "cancel_job i (manager w) = Inr (s, m) \<Longrightarrow> job_step E w (w\<lparr>manager := m\<rparr>)"
| take: "take_result i (manager w) = (r, m) \<Longrightarrow> job_step E w (w\<lparr>manager := m\<rparr>)"

definition job_reachable :: "path_env \<Rightarrow> job_world \<Rightarrow> bool" where
  "job_reachable E = (job_step E)\<^sup>*\<^sup>* job_world0"

text \<open>The leases held in a world, and when a new lease conflicts with them.\<close>

fun thread_leases :: "job_thread \<Rightarrow> lease list" where
  "thread_leases (Working ls) = ls"
| "thread_leases (Returned out) = []"

definition held_leases :: "job_world \<Rightarrow> lease multiset" where
  "held_leases w = mset (command_leases w) + mset (concat (map (thread_leases \<circ> snd) (threads w)))"

fun conflicts :: "lease multiset \<Rightarrow> lease \<Rightarrow> bool" where
  "conflicts L (HomeLease k) = (HomeLease k \<in># L)"
| "conflicts L (RepositoryLease k True) = (RepositoryLease k True \<in># L \<or> RepositoryLease k False \<in># L)"
| "conflicts L (RepositoryLease k False) = (RepositoryLease k True \<in># L)"

end
