(* ===== verification/JobLeases.thy ===== *)
theory JobLeases
  imports Jobs
begin

text \<open>
  Leases against the two tables of \<open>JobManager\<close>: the contract of a lease registry, and its
  interpretation on the manager's tables, which hold exactly the leases that are out.
\<close>

section \<open>The contract of a lease registry\<close>

text \<open>
  A registry grants a lease only when it does not clash with the leases that are out, and its
  state follows the multiset of these leases through grants and releases.
\<close>

locale lease_registry =
  fixes grants :: "'s \<Rightarrow> 'l \<Rightarrow> 's \<Rightarrow> bool"
    and give_back :: "'l \<Rightarrow> 's \<Rightarrow> 's"
    and holds :: "'s \<Rightarrow> 'l multiset \<Rightarrow> bool"
    and clash :: "'l multiset \<Rightarrow> 'l \<Rightarrow> bool"
  assumes grant_free: "holds s L \<Longrightarrow> grants s l s' \<Longrightarrow> \<not> clash L l"
    and grant_holds: "holds s L \<Longrightarrow> grants s l s' \<Longrightarrow> holds s' (add_mset l L)"
    and give_back_holds: "holds s (add_mset l L) \<Longrightarrow> holds (give_back l s) L"
begin

lemma give_back_all: "holds s (L + mset ls) \<Longrightarrow> holds (fold give_back ls s) L"
proof (induction ls arbitrary: s)
  case (Cons l ls)
  from Cons.prems have "holds s (add_mset l (L + mset ls))" by simp
  then have "holds (give_back l s) (L + mset ls)" by (rule give_back_holds)
  from Cons.IH [OF this] show ?case by simp
qed simp

lemma give_back_member:
  assumes "holds s L" and "l \<in># L"
  shows "holds (give_back l s) (L - {#l#})"
  using assms by (intro give_back_holds) simp

lemma grant_two:
  assumes "holds s L" "grants s l s'" "grants s' k s''"
  shows "holds s'' (L + {#k, l#})" and "\<not> clash (add_mset l L) k"
proof -
  from assms have h: "holds s' (add_mset l L)" by (blast intro: grant_holds)
  from grant_holds [OF h assms(3)] show "holds s'' (L + {#k, l#})" by simp
  from grant_free [OF h assms(3)] show "\<not> clash (add_mset l L) k" .
qed

end

section \<open>The tables of the manager\<close>

definition repository_row_ok :: "repository_lease_state option \<Rightarrow> nat \<Rightarrow> nat \<Rightarrow> bool" where
  "repository_row_ok r shared exclusive = (case r of
     None \<Rightarrow> shared = 0 \<and> exclusive = 0
   | Some st \<Rightarrow> unat (readers st) = shared \<and> (writer st \<longleftrightarrow> exclusive = 1) \<and> exclusive \<le> 1
       \<and> (exclusive = 1 \<longrightarrow> shared = 0) \<and> 0 < shared + exclusive)"

definition lease_tables_ok :: "job_manager \<Rightarrow> lease multiset \<Rightarrow> bool" where
  "lease_tables_ok m L \<longleftrightarrow>
     (\<forall>k. count L (HomeLease k) = (if k \<in> active_codex_homes m then 1 else 0)) \<and>
     (\<forall>k. repository_row_ok (repositories m k)
            (count L (RepositoryLease k False)) (count L (RepositoryLease k True)))"

definition grants :: "path_env \<Rightarrow> job_manager \<Rightarrow> lease \<Rightarrow> job_manager \<Rightarrow> bool" where
  "grants E m l m' \<longleftrightarrow> (\<exists>h. try_acquire_codex_home E h m = Inr (l, m'))
     \<or> (\<exists>r x. try_acquire_repository E r x m = (Inr l, m'))"

lemma lease_tables_home: "lease_tables_ok m L \<Longrightarrow> count L (HomeLease k) = (if k \<in> active_codex_homes m then 1 else 0)"
  by (simp add: lease_tables_ok_def)

lemma lease_tables_row: "lease_tables_ok m L \<Longrightarrow> repository_row_ok (repositories m k)
    (count L (RepositoryLease k False)) (count L (RepositoryLease k True))"
  by (simp add: lease_tables_ok_def)

lemma lease_tables_default: "lease_tables_ok default_manager {#}"
  by (simp add: lease_tables_ok_def repository_row_ok_def default_manager_def)

lemma lease_tables_cong:
  "active_codex_homes m' = active_codex_homes m \<Longrightarrow> repositories m' = repositories m
     \<Longrightarrow> lease_tables_ok m' L = lease_tables_ok m L"
  by (simp add: lease_tables_ok_def)

lemma lease_state_row:
  assumes "repository_row_ok (repositories m k) a b"
  shows "unat (readers (lease_state k m)) = a" and "writer (lease_state k m) \<longleftrightarrow> b = 1"
  using assms by (auto simp: repository_row_ok_def lease_state_def split: option.splits)

lemma acquire_home_iff:
  "try_acquire_codex_home E h m = Inr (l, m') \<longleftrightarrow>
     (\<exists>k. normalized_codex_home E h = Inr k \<and> k \<notin> active_codex_homes m \<and> l = HomeLease k
        \<and> m' = m\<lparr>active_codex_homes := insert k (active_codex_homes m)\<rparr>)"
  by (auto simp: try_acquire_codex_home_def bindr_eq_Inr_iff split: if_splits)

lemma home_in_table: "lease_tables_ok m L \<Longrightarrow> HomeLease k \<in># L \<longleftrightarrow> k \<in> active_codex_homes m"
  using lease_tables_home [of m L k] by (auto simp flip: count_greater_zero_iff split: if_splits)

text \<open>What an acquisition of a repository returns, in terms of the row of its key.\<close>

lemma acquire_repository_cases:
  assumes "try_acquire_repository E r x m = (res, m')"
  obtains (bad_path) e where "normalized_path E r = Inl e" "res = Inl e" "m' = m"
  | (busy) k where "normalized_path E r = Inr k" "res = Inl (RepositoryBusy r)"
      "writer (lease_state k m) \<or> x \<and> 0 < readers (lease_state k m)"
      "m' = m\<lparr>repositories := (repositories m)(k \<mapsto> lease_state k m)\<rparr>"
  | (exclusive) k where "normalized_path E r = Inr k" "res = Inr (RepositoryLease k True)" "x"
      "\<not> writer (lease_state k m)" "readers (lease_state k m) = 0"
      "m' = m\<lparr>repositories := (repositories m)(k \<mapsto> (lease_state k m)\<lparr>writer := True\<rparr>)\<rparr>"
  | (overflow) k where "normalized_path E r = Inr k" "res = Inl ReaderOverflow" "\<not> x"
      "\<not> writer (lease_state k m)" "checked_add (readers (lease_state k m)) 1 = None"
      "m' = m\<lparr>repositories := (repositories m)(k \<mapsto> lease_state k m)\<rparr>"
  | (shared) k n where "normalized_path E r = Inr k" "res = Inr (RepositoryLease k False)" "\<not> x"
      "\<not> writer (lease_state k m)" "checked_add (readers (lease_state k m)) 1 = Some n"
      "m' = m\<lparr>repositories := (repositories m)(k \<mapsto> (lease_state k m)\<lparr>readers := n\<rparr>)\<rparr>"
  using assms unfolding try_acquire_repository_def Let_def
  by (cases "normalized_path E r") (fastforce simp: word_gt_0 split: if_splits option.splits)+

lemma lease_state_present:
  "repositories m k = Some st \<Longrightarrow> lease_state k m = st"
  by (simp add: lease_state_def)

lemma refused_row_unchanged:
  assumes "lease_tables_ok m L" and "writer (lease_state k m) \<or> 0 < readers (lease_state k m)"
  shows "m\<lparr>repositories := (repositories m)(k \<mapsto> lease_state k m)\<rparr> = m"
proof (cases "repositories m k")
  case None
  then show ?thesis using assms(2) by (simp add: lease_state_def)
next
  case (Some st)
  then show ?thesis by (simp add: lease_state_present fun_upd_idem)
qed

lemma acquire_refused_unchanged:
  assumes "lease_tables_ok m L" and "try_acquire_repository E r x m = (Inl e, m')"
  shows "m' = m"
  using assms(2)
proof (cases rule: acquire_repository_cases)
  case (busy k)
  then have "writer (lease_state k m) \<or> 0 < readers (lease_state k m)" by blast
  then show ?thesis using busy refused_row_unchanged [OF assms(1)] by simp
next
  case (overflow k)
  then have "readers (lease_state k m) \<noteq> 0" by (auto simp: checked_add_def)
  then have "0 < readers (lease_state k m)" by (simp add: word_gt_0)
  then show ?thesis using overflow refused_row_unchanged [OF assms(1)] by simp
qed simp_all

lemma count_add_lease:
  "count (add_mset l L) l' = (if l = l' then Suc (count L l') else count L l')"
  by simp

lemma row_shared_free:
  assumes "repository_row_ok (repositories m k) a b" and "\<not> writer (lease_state k m)"
  shows "b = 0"
  using assms by (auto simp: repository_row_ok_def lease_state_def split: option.splits)

lemma row_exclusive_free:
  assumes "repository_row_ok (repositories m k) a b" and "\<not> writer (lease_state k m)"
    and "readers (lease_state k m) = 0"
  shows "a = 0" and "b = 0"
  using assms by (auto simp: repository_row_ok_def lease_state_def split: option.splits)

lemma grant_home_tables:
  assumes "lease_tables_ok m L" and "try_acquire_codex_home E h m = Inr (l, m')"
  shows "\<not> conflicts L l \<and> lease_tables_ok m' (add_mset l L)"
proof -
  obtain k where k: "k \<notin> active_codex_homes m" "l = HomeLease k"
    "m' = m\<lparr>active_codex_homes := insert k (active_codex_homes m)\<rparr>"
    using assms(2) by (auto simp: acquire_home_iff)
  have "\<not> conflicts L l" using k home_in_table [OF assms(1)] by simp
  moreover have "lease_tables_ok m' (add_mset l L)"
    using assms(1) k unfolding lease_tables_ok_def by auto
  ultimately show ?thesis by blast
qed

lemma row_set:
  assumes "lease_tables_ok m L"
    and "repository_row_ok r (count L' (RepositoryLease k False)) (count L' (RepositoryLease k True))"
    and "\<And>l. l \<noteq> RepositoryLease k False \<Longrightarrow> l \<noteq> RepositoryLease k True \<Longrightarrow> count L' l = count L l"
  shows "lease_tables_ok (m\<lparr>repositories := (repositories m)(k := r)\<rparr>) L'"
proof -
  have rows: "repository_row_ok (((repositories m)(k := r)) j)
      (count L' (RepositoryLease j False)) (count L' (RepositoryLease j True))" for j
    using assms(2) lease_tables_row [OF assms(1), of j] by (cases "j = k") (simp_all add: assms(3))
  moreover have "count L' (HomeLease j) = count L (HomeLease j)" for j by (simp add: assms(3))
  ultimately show ?thesis
    using lease_tables_home [OF assms(1)] by (simp add: lease_tables_ok_def)
qed

lemma not_in_count: "count L l = 0 \<Longrightarrow> l \<notin># L"
  by (simp add: count_eq_zero_iff)

lemma grant_repository_tables:
  assumes "lease_tables_ok m L" and "try_acquire_repository E r x m = (Inr l, m')"
  shows "\<not> conflicts L l \<and> lease_tables_ok m' (add_mset l L)"
  using assms(2)
proof (cases rule: acquire_repository_cases)
  case (exclusive k)
  note row = lease_tables_row [OF assms(1), of k]
  from row_exclusive_free [OF row exclusive(4,5)]
  have free: "count L (RepositoryLease k False) = 0" "count L (RepositoryLease k True) = 0" .
  have l: "l = RepositoryLease k True" using exclusive by simp
  have "lease_tables_ok (m\<lparr>repositories := (repositories m)(k \<mapsto> (lease_state k m)\<lparr>writer := True\<rparr>)\<rparr>) (add_mset l L)"
    using free exclusive(4,5) by (intro row_set [OF assms(1)]) (auto simp: l repository_row_ok_def)
  then show ?thesis using exclusive(6) free by (simp add: l not_in_count)
next
  case (shared k n)
  note row = lease_tables_row [OF assms(1), of k]
  have free: "count L (RepositoryLease k True) = 0" by (rule row_shared_free [OF row shared(4)])
  have l: "l = RepositoryLease k False" using shared by simp
  have n: "unat n = Suc (count L (RepositoryLease k False))"
    using checked_add_unat [OF shared(5)] lease_state_row(1) [OF row] by simp
  have "lease_tables_ok (m\<lparr>repositories := (repositories m)(k \<mapsto> (lease_state k m)\<lparr>readers := n\<rparr>)\<rparr>) (add_mset l L)"
    using free shared(4) n by (intro row_set [OF assms(1)]) (auto simp: l repository_row_ok_def)
  then show ?thesis using shared(6) free by (simp add: l not_in_count)
qed simp_all

lemma release_home_tables:
  assumes "lease_tables_ok m (add_mset (HomeLease k) L)"
  shows "lease_tables_ok (drop_codex_home_lease k m) L"
proof -
  have c: "count (add_mset (HomeLease k) L) (HomeLease j) = (if j \<in> active_codex_homes m then 1 else 0)" for j
    by (rule lease_tables_home [OF assms])
  have "count L (HomeLease j) = (if j \<in> active_codex_homes m - {k} then 1 else 0)" for j
    using c [of j] by (cases "j = k") (auto split: if_splits)
  moreover have "repository_row_ok (repositories m j) (count L (RepositoryLease j False)) (count L (RepositoryLease j True))" for j
    using lease_tables_row [OF assms, of j] by simp
  ultimately show ?thesis unfolding lease_tables_ok_def drop_codex_home_lease_def by simp
qed

lemma release_repository_tables:
  assumes "lease_tables_ok m (add_mset (RepositoryLease k x) L)"
  shows "lease_tables_ok (drop_repository_lease k x m) L"
proof -
  let ?M = "add_mset (RepositoryLease k x) L"
  note row = lease_tables_row [OF assms, of k]
  obtain st where st: "repositories m k = Some st"
    using row by (cases "repositories m k"; cases x) (auto simp: repository_row_ok_def)
  define st' where "st' = (if x then st\<lparr>writer := False\<rparr>
    else st\<lparr>readers := (if readers st = 0 then 0 else readers st - 1)\<rparr>)"
  define r where "r = (if \<not> writer st' \<and> readers st' = 0 then None else Some st')"
  have drop: "drop_repository_lease k x m = m\<lparr>repositories := (repositories m)(k := r)\<rparr>"
    by (simp add: drop_repository_lease_def st Let_def st'_def r_def)
  have pred: "unat (readers st - 1) = n" if "unat (readers st) = Suc n" for n
    using that by (metis One_nat_def Suc_n_not_le_n diff_Suc_1 nat_le_linear not_less_eq_eq unat_0 unat_minus_one zero_neq_one old.nat.distinct(2))
  have row': "repository_row_ok r (count L (RepositoryLease k False)) (count L (RepositoryLease k True))"
  proof (cases x)
    case True
    then show ?thesis using row st
      by (auto simp: repository_row_ok_def r_def st'_def unat_eq_0)
  next
    case False
    then have n: "unat (readers st) = Suc (count L (RepositoryLease k False))"
      and e: "count L (RepositoryLease k True) = 0" "\<not> writer st"
      using row st by (auto simp: repository_row_ok_def)
    then have "readers st \<noteq> 0" by auto
    moreover have "readers st = 1 \<longleftrightarrow> count L (RepositoryLease k False) = 0"
      using n by (metis One_nat_def nat.inject unat_1 word_unat_eq_iff)
    ultimately show ?thesis using pred [OF n] False e
      by (cases "count L (RepositoryLease k False) = 0")
        (auto simp del: count_eq_zero_iff simp: repository_row_ok_def r_def st'_def)
  qed
  show ?thesis unfolding drop
    by (rule row_set [OF assms row']) (cases x; auto)
qed

lemma release_tables:
  assumes "lease_tables_ok m (add_mset l L)"
  shows "lease_tables_ok (drop_lease l m) L"
  using assms release_home_tables release_repository_tables by (cases l) auto

interpretation leases: lease_registry "grants E" drop_lease lease_tables_ok conflicts for E
  by unfold_locales
    (auto simp: grants_def dest: grant_home_tables grant_repository_tables intro: release_tables)

end
