(* ===== verification/JobProps.thy ===== *)
theory JobProps
  imports JobLeases
begin

text \<open>
  The properties of the desktop's jobs: leases exclude each other and never leak, a finished job
  keeps its outcome until it is taken, and holds no lease.
\<close>

section \<open>The lease tables follow the leases that are out\<close>

lemma mset_set_thread:
  assumes "distinct (map fst ts)" and "(i, t) \<in> set ts"
  shows "mset (concat (map (thread_leases \<circ> snd) ts)) =
    mset (thread_leases t) + mset (concat (map (thread_leases \<circ> snd) (filter (\<lambda>p. fst p \<noteq> i) ts)))"
  using assms
proof (induction ts)
  case (Cons p ts)
  show ?case
  proof (cases "fst p = i")
    case True
    with Cons.prems have p: "p = (i, t)" by (auto simp: rev_image_eqI)
    have "filter (\<lambda>p. fst p \<noteq> i) ts = ts"
      using Cons.prems(1) True by (intro filter_True) (auto simp: rev_image_eqI)
    then show ?thesis by (simp add: p)
  next
    case False
    with Cons.prems have "(i, t) \<in> set ts" by auto
    with Cons.IH Cons.prems(1) False show ?thesis by simp
  qed
qed simp

lemma filter_other_threads: "i \<notin> fst ` set ts \<Longrightarrow> filter (\<lambda>p. fst p \<noteq> i) ts = ts"
  by (intro filter_True) (auto simp: rev_image_eqI)

lemma set_thread_keys:
  "distinct (map fst ts) \<Longrightarrow> distinct (map fst (set_thread i t ts))"
  by (cases t) (auto simp: set_thread_def distinct_map_filter)

lemma set_thread_ids: "fst ` set (set_thread i t ts) \<subseteq> insert i (fst ` set ts)"
  by (cases t) (auto simp: set_thread_def)

lemma job_updates_leave_leases [simp]:
  "active_codex_homes (update_job i f m) = active_codex_homes m"
  "repositories (update_job i f m) = repositories m"
  "active_codex_homes (store_flag g m) = active_codex_homes m"
  "repositories (store_flag g m) = repositories m"
  by (simp_all add: update_job_def store_flag_def split: cancel_flag.split)

lemma start_job_leases [simp]:
  "start_job i kind c m = (s, m') \<Longrightarrow> active_codex_homes m' = active_codex_homes m"
  "start_job i kind c m = (s, m') \<Longrightarrow> repositories m' = repositories m"
  by (auto simp: start_job_def Let_def)

lemma start_repository_tables:
  assumes "lease_tables_ok m L" and "start_repository E r x i kind c m = (res, m')"
  shows "case res of Inl e \<Rightarrow> m' = m | Inr (s, ls) \<Rightarrow> lease_tables_ok m' (L + mset ls)"
proof (cases "try_acquire_repository E r x m")
  case (Pair a m1)
  show ?thesis
  proof (cases a)
    case (Inl e)
    then show ?thesis using acquire_refused_unchanged [OF assms(1)] assms(2) Pair
      by (auto simp: start_repository_def)
  next
    case (Inr l)
    obtain s m2 where st: "start_job i kind c m1 = (s, m2)" by fastforce
    have "lease_tables_ok m1 (add_mset l L)"
      using grant_repository_tables [OF assms(1)] Pair Inr by blast
    then have "lease_tables_ok m2 (add_mset l L)"
      using lease_tables_cong start_job_leases [OF st] by blast
    then show ?thesis using assms(2) Pair Inr st by (auto simp: start_repository_def)
  qed
qed

lemma drop_home_undoes:
  assumes "try_acquire_codex_home E h m = Inr (l, m1)"
  shows "drop_lease l m1 = m"
  using assms by (auto simp: acquire_home_iff drop_codex_home_lease_def)

lemma start_home_repository_tables:
  assumes "lease_tables_ok m L" and "start_home_repository E h r x i kind c m = (res, m')"
  shows "case res of Inl e \<Rightarrow> m' = m | Inr (s, ls) \<Rightarrow> lease_tables_ok m' (L + mset ls)"
proof (cases "try_acquire_codex_home E h m")
  case (Inl e)
  then show ?thesis using assms(2) by (auto simp: start_home_repository_def)
next
  case (Inr lm)
  obtain l m1 where lm: "lm = (l, m1)" by fastforce
  have home: "lease_tables_ok m1 (add_mset l L)"
    using grant_home_tables [OF assms(1)] Inr lm by blast
  obtain a m2 where acq: "try_acquire_repository E r x m1 = (a, m2)" by fastforce
  show ?thesis
  proof (cases a)
    case (Inl e)
    with acq have "m2 = m1" using acquire_refused_unchanged [OF home] by blast
    then show ?thesis using assms(2) Inr lm acq Inl drop_home_undoes [of E h m l m1]
      by (auto simp: start_home_repository_def)
  next
    case rep: (Inr k)
    obtain s m3 where st: "start_job i kind c m2 = (s, m3)" by fastforce
    have "lease_tables_ok m2 (L + {#k, l#})"
      using grant_repository_tables [OF home] acq rep by simp
    then have "lease_tables_ok m3 (L + {#k, l#})"
      using lease_tables_cong start_job_leases [OF st] by blast
    then show ?thesis using assms(2) Inr lm acq rep st by (auto simp: start_home_repository_def)
  qed
qed

lemmas start_kinds = start_repository_shared_def start_repository_exclusive_def
  start_home_repository_shared_def start_home_repository_exclusive_def

lemma start_with_tables:
  assumes "lease_tables_ok m L" and "start_with E req i kind c m = (res, m')"
  shows "case res of Inl e \<Rightarrow> m' = m | Inr (s, ls) \<Rightarrow> lease_tables_ok m' (L + mset ls)"
proof (cases req)
  case Plain
  obtain s m1 where st: "start_job i kind c m = (s, m1)" by fastforce
  have "lease_tables_ok m1 L" using lease_tables_cong start_job_leases [OF st] assms(1) by blast
  then show ?thesis using assms(2) st Plain by auto
qed (use assms(2) start_repository_tables [OF assms(1)] start_home_repository_tables [OF assms(1)]
  in \<open>simp_all add: start_kinds\<close>)

definition leases_follow :: "job_world \<Rightarrow> bool" where
  "leases_follow w \<longleftrightarrow> lease_tables_ok (manager w) (held_leases w) \<and> distinct (map fst (threads w))
     \<and> fst ` set (threads w) \<subseteq> issued w"

lemma held_thread:
  assumes "distinct (map fst (threads w))" and "(i, t) \<in> set (threads w)"
  shows "held_leases w = held_leases (w\<lparr>threads := set_thread i None (threads w)\<rparr>) + mset (thread_leases t)"
  using mset_set_thread [OF assms] by (simp add: held_leases_def set_thread_def)

lemma leases_follow_thread:
  assumes "leases_follow w" and "(i, t) \<in> set (threads w)"
    and "lease_tables_ok m (held_leases (w\<lparr>threads := set_thread i None (threads w)\<rparr>))"
    and "case u of None \<Rightarrow> True | Some t' \<Rightarrow> thread_leases t' = []"
  shows "leases_follow (w\<lparr>manager := m, threads := set_thread i u (threads w)\<rparr>)"
proof -
  have "held_leases (w\<lparr>manager := m, threads := set_thread i u (threads w)\<rparr>)
      = held_leases (w\<lparr>threads := set_thread i None (threads w)\<rparr>)"
    using assms(4) by (cases u) (simp_all add: held_leases_def set_thread_def)
  moreover have sub: "fst ` set (threads w) \<subseteq> issued w" using assms(1) by (simp add: leases_follow_def)
  moreover have "i \<in> fst ` set (threads w)" using assms(2) by (rule rev_image_eqI) simp
  then have "insert i (fst ` set (threads w)) \<subseteq> issued w" using sub by blast
  then have "fst ` set (set_thread i u (threads w)) \<subseteq> issued w" by (rule order_trans [OF set_thread_ids])
  ultimately show ?thesis using assms(1,3) set_thread_keys by (simp add: leases_follow_def)
qed

lemma leases_follow_step:
  assumes "job_step E w w'" and "leases_follow w"
  shows "leases_follow w'"
  using assms
proof (induction rule: job_step.induct)
  case (acquire_home home w l m)
  then show ?case using grant_home_tables [of "manager w"] by (simp add: leases_follow_def held_leases_def)
next
  case (acquire_repository r x w l m)
  then show ?case using grant_repository_tables [of "manager w"] by (simp add: leases_follow_def held_leases_def)
next
  case (acquire_refused r x w e m)
  have "lease_tables_ok (manager w) (held_leases w)" using acquire_refused(2) by (simp add: leases_follow_def)
  from acquire_refused_unchanged [OF this acquire_refused(1)] show ?case using acquire_refused(2) by simp
next
  case (release l w)
  then have "lease_tables_ok (drop_lease l (manager w)) (held_leases w - {#l#})"
    by (intro leases.give_back_member) (auto simp: leases_follow_def held_leases_def)
  moreover have "held_leases w - {#l#} = held_leases (w\<lparr>command_leases := remove1 l (command_leases w)\<rparr>)"
    using release(1) by (simp add: held_leases_def)
  ultimately show ?case using release(2) by (simp add: leases_follow_def held_leases_def)
next
  case (start i w req kind c s ls m)
  let ?ts = "set_thread i (Some (Working ls)) (threads w)"
  have new: "filter (\<lambda>p. fst p \<noteq> i) (threads w) = threads w"
    using start(1,3) by (auto simp: leases_follow_def intro!: filter_other_threads)
  then have "held_leases (w\<lparr>manager := m, threads := ?ts, issued := insert i (issued w)\<rparr>) = held_leases w + mset ls"
    by (simp add: held_leases_def set_thread_def)
  moreover have "lease_tables_ok m (held_leases w + mset ls)"
    using start_with_tables [OF _ start(2), of "held_leases w"] start(3) by (simp add: leases_follow_def)
  moreover have "fst ` set ?ts \<subseteq> insert i (issued w)"
    using set_thread_ids start(3) unfolding leases_follow_def by blast
  ultimately show ?case using start(3) set_thread_keys by (simp add: leases_follow_def)
next
  case (start_refused i w req kind c e m)
  then show ?case using start_with_tables [OF _ start_refused(2), of "held_leases w"]
    by (simp add: leases_follow_def held_leases_def)
next
  case (report i ls w p)
  let ?m = "report_progress (job_control i) p (manager w)"
  have "active_codex_homes ?m = active_codex_homes (manager w)" "repositories ?m = repositories (manager w)"
    by (simp_all add: report_progress_def job_control_def job_reporter_def)
  from lease_tables_cong [OF this] show ?case using report(2) by (simp add: leases_follow_def held_leases_def)
next
  case (return i ls w out)
  have "held_leases w = held_leases (w\<lparr>threads := set_thread i None (threads w)\<rparr>) + mset ls"
    using held_thread [OF _ return(1)] return(2) by (simp add: leases_follow_def)
  then have "lease_tables_ok (fold drop_lease ls (manager w)) (held_leases (w\<lparr>threads := set_thread i None (threads w)\<rparr>))"
    using leases.give_back_all return(2) by (simp add: leases_follow_def)
  then show ?case by (rule leases_follow_thread [OF return(2,1)]) simp
next
  case (unwind i ls w)
  have "held_leases w = held_leases (w\<lparr>threads := set_thread i None (threads w)\<rparr>) + mset ls"
    using held_thread [OF _ unwind(1)] unwind(2) by (simp add: leases_follow_def)
  then have "lease_tables_ok (fold drop_lease ls (manager w)) (held_leases (w\<lparr>threads := set_thread i None (threads w)\<rparr>))"
    using leases.give_back_all unwind(2) by (simp add: leases_follow_def)
  then show ?case by (rule leases_follow_thread [OF unwind(2,1)]) simp
next
  case (finish i out w)
  have "held_leases w = held_leases (w\<lparr>threads := set_thread i None (threads w)\<rparr>)"
    using held_thread [OF _ finish(1)] finish(2) by (simp add: leases_follow_def)
  moreover have "active_codex_homes (finish_job i out (manager w)) = active_codex_homes (manager w)"
    "repositories (finish_job i out (manager w)) = repositories (manager w)" by (simp_all add: finish_job_def)
  from lease_tables_cong [OF this] have "lease_tables_ok (finish_job i out (manager w)) (held_leases w)"
    using finish(2) by (simp add: leases_follow_def)
  ultimately have "lease_tables_ok (finish_job i out (manager w)) (held_leases (w\<lparr>threads := set_thread i None (threads w)\<rparr>))"
    by simp
  then show ?case by (rule leases_follow_thread [OF finish(2,1)]) simp
next
  case (cancel i w s m)
  then have "active_codex_homes m = active_codex_homes (manager w)" "repositories m = repositories (manager w)"
    by (auto simp: cancel_job_def bindr_eq_Inr_iff Let_def)
  from lease_tables_cong [OF this] show ?case using cancel(2) by (simp add: leases_follow_def held_leases_def)
next
  case (take i w r m)
  then have "active_codex_homes m = active_codex_homes (manager w)" "repositories m = repositories (manager w)"
    by (auto simp: take_result_def split: option.splits if_splits)
  from lease_tables_cong [OF this] show ?case using take(2) by (simp add: leases_follow_def held_leases_def)
qed

lemma leases_follow_steps:
  assumes "(job_step E)\<^sup>*\<^sup>* w w'" and "leases_follow w"
  shows "leases_follow w'"
  using assms by (induction rule: rtranclp_induct) (auto intro: leases_follow_step)

lemma leases_follow_reachable: "job_reachable E w \<Longrightarrow> leases_follow w"
  unfolding job_reachable_def
  by (erule leases_follow_steps)
    (simp add: leases_follow_def job_world0_def held_leases_def lease_tables_default)

text \<open>C16: Leases exclude each other: in every reachable state of the desktop, whatever
  threads and commands interleave, a Codex home has at most one writer, and a repository that is
  leased exclusively has no other lease.\<close>

theorem leases_exclude:
  assumes "job_reachable E w" and "l \<in># held_leases w"
  shows "\<not> conflicts (held_leases w - {#l#}) l"
proof -
  let ?L = "held_leases w"
  have ok: "lease_tables_ok (manager w) ?L"
    using leases_follow_reachable [OF assms(1)] by (simp add: leases_follow_def)
  have one: "0 < count ?L l" using assms(2) by simp
  show ?thesis
  proof (cases l)
    case (HomeLease k)
    then show ?thesis using lease_tables_home [OF ok, of k]
      by (auto intro!: not_in_count split: if_splits)
  next
    case (RepositoryLease k x)
    note row = lease_tables_row [OF ok, of k]
    have x: "count ?L (RepositoryLease k True) \<le> 1"
      "count ?L (RepositoryLease k True) = 1 \<Longrightarrow> count ?L (RepositoryLease k False) = 0"
      using row by (auto simp: repository_row_ok_def split: option.splits)
    show ?thesis
    proof (cases x)
      case True
      then have "0 < count ?L (RepositoryLease k True)" using one RepositoryLease by simp
      then have "count ?L (RepositoryLease k True) = 1" using x(1) by linarith
      then show ?thesis using x RepositoryLease True by (auto intro!: not_in_count)
    next
      case False
      then have "count ?L (RepositoryLease k False) \<noteq> 0" using one RepositoryLease by simp
      then have "count ?L (RepositoryLease k True) \<noteq> 1" using x(2) by (intro notI) simp
      then have "count ?L (RepositoryLease k True) = 0" using x(1) by linarith
      then show ?thesis using RepositoryLease False by (auto intro!: not_in_count)
    qed
  qed
qed

text \<open>C36: No lease leaks and none is refused without need: in every reachable state a Codex home
  is granted exactly when no lease on its key is out, and a repository exactly when no conflicting
  lease on its key is out and its readers fit \<open>usize\<close>; a refused acquisition changes nothing.\<close>

theorem lease_granted_iff_free:
  assumes "job_reachable E w" and "normalized_codex_home E h = Inr hk" and "normalized_path E r = Inr rk"
  shows "is_ok (try_acquire_codex_home E h (manager w)) = (\<not> conflicts (held_leases w) (HomeLease hk))
    \<and> is_ok (fst (try_acquire_repository E r x (manager w))) = (\<not> conflicts (held_leases w) (RepositoryLease rk x)
        \<and> (x \<or> count (held_leases w) (RepositoryLease rk False) < 2 ^ 64 - 1))
    \<and> (is_ok (fst (try_acquire_repository E r x (manager w)))
        \<or> snd (try_acquire_repository E r x (manager w)) = manager w)"
proof -
  let ?L = "held_leases w" and ?m = "manager w"
  have ok: "lease_tables_ok ?m ?L"
    using leases_follow_reachable [OF assms(1)] by (simp add: leases_follow_def)
  note row = lease_tables_row [OF ok, of rk]
  let ?st = "lease_state rk ?m"
  have "count ?L (RepositoryLease rk True) \<le> 1" using row by (simp add: repository_row_ok_def split: option.splits)
  then have "count ?L (RepositoryLease rk True) = 1 \<longleftrightarrow> 0 < count ?L (RepositoryLease rk True)" by linarith
  then have w: "writer ?st \<longleftrightarrow> RepositoryLease rk True \<in># ?L"
    using lease_state_row(2) [OF row] by simp
  have r: "unat (readers ?st) = count ?L (RepositoryLease rk False)" by (rule lease_state_row(1) [OF row])
  have "0 < readers ?st \<longleftrightarrow> 0 < unat (readers ?st)" by (simp add: word_gt_0 unat_gt_0)
  then have r0: "0 < readers ?st \<longleftrightarrow> RepositoryLease rk False \<in># ?L" unfolding r by simp
  have fits: "checked_add (readers ?st) 1 \<noteq> None \<longleftrightarrow> count ?L (RepositoryLease rk False) < 2 ^ 64 - 1"
    by (simp add: checked_add_def r)
  have "is_ok (try_acquire_codex_home E h ?m) = (\<not> conflicts ?L (HomeLease hk))"
    using assms(2) home_in_table [OF ok] by (simp add: try_acquire_codex_home_def is_ok_def)
  moreover have "is_ok (fst (try_acquire_repository E r x ?m)) = (\<not> conflicts ?L (RepositoryLease rk x)
      \<and> (x \<or> count ?L (RepositoryLease rk False) < 2 ^ 64 - 1))"
    using assms(3) w r0 fits
    by (cases x; cases "checked_add (readers ?st) 1") (simp_all add: try_acquire_repository_def Let_def is_ok_def)
  moreover have "is_ok a \<or> m' = ?m" if "try_acquire_repository E r x ?m = (a, m')" for a m'
    using acquire_refused_unchanged [OF ok] that by (cases a) (auto simp: is_ok_def)
  ultimately show ?thesis by (metis prod.collapse)
qed

section \<open>The life of a job\<close>

fun terminal :: "job_state \<Rightarrow> bool" where
  "terminal Running = False"
| "terminal Cancelling = False"
| "terminal _ = True"

definition job_entry_ok :: "bool \<Rightarrow> job_entry \<Rightarrow> bool" where
  "job_entry_ok flag e \<longleftrightarrow> (state (job_snap e) = Completed) = (job_result e \<noteq> None)
     \<and> result_ready (job_snap e) = (state (job_snap e) = Completed)
     \<and> (job_error (job_snap e) \<noteq> None) = (state (job_snap e) \<in> {Cancelled, Failed})
     \<and> (state (job_snap e) = Running \<longrightarrow> \<not> flag) \<and> (state (job_snap e) \<in> {Cancelling, Cancelled} \<longrightarrow> flag)
     \<and> (terminal (state (job_snap e)) \<longrightarrow> \<not> cancellable (job_snap e))"

definition jobs_ok :: "job_world \<Rightarrow> bool" where
  "jobs_ok w \<longleftrightarrow>
     (\<forall>i e. jobs (manager w) i = Some e \<longrightarrow> i \<in> issued w \<and> job_cancel e = JobFlag i
        \<and> job_id (job_snap e) = i \<and> job_entry_ok (cancel_flags (manager w) i) e
        \<and> (terminal (state (job_snap e)) \<longrightarrow> i \<notin> fst ` set (threads w)))
     \<and> (\<forall>i \<in> fst ` set (threads w). jobs (manager w) i \<noteq> None)"

text \<open>What a step does to the entries of the jobs.\<close>

lemma drop_lease_jobs [simp]:
  "jobs (drop_lease l m) = jobs m" "cancel_flags (drop_lease l m) = cancel_flags m"
  by (cases l; simp add: drop_codex_home_lease_def drop_repository_lease_def Let_def split: option.split)+

lemma drop_leases_jobs [simp]:
  "jobs (fold drop_lease ls m) = jobs m" "cancel_flags (fold drop_lease ls m) = cancel_flags m"
  by (induction ls arbitrary: m) simp_all

lemma acquire_home_jobs:
  assumes "try_acquire_codex_home E h m = Inr (l, m')"
  shows "jobs m' = jobs m" "cancel_flags m' = cancel_flags m"
  using assms by (auto simp: acquire_home_iff)

lemma acquire_repository_jobs:
  assumes "try_acquire_repository E r x m = (res, m')"
  shows "jobs m' = jobs m \<and> cancel_flags m' = cancel_flags m"
  using assms by (cases rule: acquire_repository_cases) simp_all

definition first_entry :: "string \<Rightarrow> string \<Rightarrow> bool \<Rightarrow> job_entry" where
  "first_entry i kind c = \<lparr>job_cancel = JobFlag i, job_snap = fst (start_job i kind c default_manager),
     job_result = None\<rparr>"

lemma start_job_jobs:
  assumes "start_job i kind c m = (s, m')"
  shows "jobs m' = (jobs m)(i \<mapsto> first_entry i kind c)" "cancel_flags m' = (cancel_flags m)(i := False)"
  using assms by (auto simp: start_job_def Let_def first_entry_def)

lemma start_repository_jobs:
  assumes "start_repository E r x i kind c m = (res, m')"
  shows "jobs m' = (if is_ok res then (jobs m)(i \<mapsto> first_entry i kind c) else jobs m)
    \<and> cancel_flags m' = (if is_ok res then (cancel_flags m)(i := False) else cancel_flags m)"
proof -
  obtain a m1 where a: "try_acquire_repository E r x m = (a, m1)" by fastforce
  obtain s m2 where s: "start_job i kind c m1 = (s, m2)" by fastforce
  show ?thesis using assms a s acquire_repository_jobs [OF a] start_job_jobs [OF s]
    by (auto simp: start_repository_def is_ok_def split: sum.splits)
qed

lemma start_home_repository_jobs:
  assumes "start_home_repository E h r x i kind c m = (res, m')"
  shows "jobs m' = (if is_ok res then (jobs m)(i \<mapsto> first_entry i kind c) else jobs m)
    \<and> cancel_flags m' = (if is_ok res then (cancel_flags m)(i := False) else cancel_flags m)"
proof (cases "try_acquire_codex_home E h m")
  case (Inr lm)
  obtain l m1 where lm: "lm = (l, m1)" by fastforce
  obtain a m2 where a: "try_acquire_repository E r x m1 = (a, m2)" by fastforce
  obtain s m3 where s: "start_job i kind c m2 = (s, m3)" by fastforce
  have "jobs m1 = jobs m" "cancel_flags m1 = cancel_flags m"
    using acquire_home_jobs [of E h m l m1] Inr lm by simp_all
  then show ?thesis using assms Inr lm a s acquire_repository_jobs [OF a] start_job_jobs [OF s]
    by (auto simp: start_home_repository_def is_ok_def split: sum.splits)
qed (use assms in \<open>auto simp: start_home_repository_def is_ok_def\<close>)

lemma start_with_jobs:
  assumes "start_with E req i kind c m = (res, m')"
  shows "jobs m' = (if is_ok res then (jobs m)(i \<mapsto> first_entry i kind c) else jobs m)
    \<and> cancel_flags m' = (if is_ok res then (cancel_flags m)(i := False) else cancel_flags m)"
proof (cases req)
  case Plain
  obtain s m1 where s: "start_job i kind c m = (s, m1)" by fastforce
  show ?thesis using assms Plain s start_job_jobs [OF s] by (auto simp: is_ok_def)
qed (use assms start_repository_jobs start_home_repository_jobs in \<open>simp_all add: start_kinds\<close>)

lemma first_entry_ok: "job_entry_ok False (first_entry i kind c)"
  "\<not> terminal (state (job_snap (first_entry i kind c)))" "job_id (job_snap (first_entry i kind c)) = i"
  "job_cancel (first_entry i kind c) = JobFlag i"
  by (simp_all add: job_entry_ok_def first_entry_def start_job_def Let_def)

text \<open>A step that changes the entry of one job is checked on that entry alone.\<close>

definition job_ok :: "job_world \<Rightarrow> string \<Rightarrow> bool" where
  "job_ok w i = (case jobs (manager w) i of
     None \<Rightarrow> i \<notin> fst ` set (threads w)
   | Some e \<Rightarrow> i \<in> issued w \<and> job_cancel e = JobFlag i \<and> job_id (job_snap e) = i
       \<and> job_entry_ok (cancel_flags (manager w) i) e
       \<and> (terminal (state (job_snap e)) \<longrightarrow> i \<notin> fst ` set (threads w)))"

lemma jobs_ok_iff: "jobs_ok w = (\<forall>i. job_ok w i)"
  unfolding jobs_ok_def job_ok_def by (auto split: option.splits)

lemma job_ok_frame:
  assumes "job_ok w i" and "jobs (manager w') i = jobs (manager w) i"
    and "cancel_flags (manager w') i = cancel_flags (manager w) i"
    and "i \<in> fst ` set (threads w') \<longleftrightarrow> i \<in> fst ` set (threads w)" and "issued w \<subseteq> issued w'"
  shows "job_ok w' i"
  using assms unfolding job_ok_def by (auto split: option.splits)

lemma set_thread_other: "j \<noteq> i \<Longrightarrow> j \<in> fst ` set (set_thread i t ts) \<longleftrightarrow> j \<in> fst ` set ts"
  by (force simp: set_thread_def split: option.split)

lemma set_thread_self: "i \<in> fst ` set (set_thread i t ts) \<longleftrightarrow> t \<noteq> None"
  by (force simp: set_thread_def split: option.split)

lemma job_ok_thread:
  assumes "job_ok w i" and "(i, t) \<in> set (threads w)"
  obtains e where "jobs (manager w) i = Some e" and "\<not> terminal (state (job_snap e))"
    and "i \<in> issued w" and "job_cancel e = JobFlag i" and "job_id (job_snap e) = i"
    and "job_entry_ok (cancel_flags (manager w) i) e"
proof -
  have "i \<in> fst ` set (threads w)" using assms(2) by (rule rev_image_eqI) simp
  with assms(1) that show ?thesis by (auto simp: job_ok_def split: option.splits)
qed

lemma update_job_lookup [simp]:
  "jobs (update_job i f m) j = (if j = i then map_option f (jobs m i) else jobs m j)"
  "cancel_flags (update_job i f m) = cancel_flags m"
  by (simp_all add: update_job_def)

lemma job_outcome_ok:
  assumes "job_entry_ok flag e" and "\<not> terminal (state (job_snap e))"
  shows "job_entry_ok flag (job_outcome flag out e)" and "terminal (state (job_snap (job_outcome flag out e)))"
    and "job_cancel (job_outcome flag out e) = job_cancel e"
    and "job_id (job_snap (job_outcome flag out e)) = job_id (job_snap e)"
proof -
  have "job_entry_ok flag (job_outcome flag out e) \<and> terminal (state (job_snap (job_outcome flag out e)))
    \<and> job_cancel (job_outcome flag out e) = job_cancel e
    \<and> job_id (job_snap (job_outcome flag out e)) = job_id (job_snap e)"
    using assms
    by (induction flag out e rule: job_outcome.induct) (auto simp: job_entry_ok_def set_snap_def)
  then show "job_entry_ok flag (job_outcome flag out e)" "terminal (state (job_snap (job_outcome flag out e)))"
    "job_cancel (job_outcome flag out e) = job_cancel e"
    "job_id (job_snap (job_outcome flag out e)) = job_id (job_snap e)" by auto
qed

lemma report_entry_ok:
  assumes "job_entry_ok flag e" and "\<not> terminal (state (job_snap e))"
  shows "job_entry_ok flag (set_snap (\<lambda>s. s\<lparr>cancellable := c, job_progress := p\<rparr>) e)"
  using assms by (simp add: job_entry_ok_def set_snap_def)

lemma cancel_job_Inr:
  assumes "cancel_job i m = Inr (s, m')"
  obtains e where "jobs m i = Some e" and "cancellable (job_snap e)" and "state s = Cancelling"
    and "job_id s = job_id (job_snap e)" and "result_ready s = result_ready (job_snap e)"
    and "job_error s = job_error (job_snap e)" and "cancellable s"
    and "m' = update_job i (\<lambda>e. e\<lparr>job_snap := s\<rparr>) (store_flag (job_cancel e) m)"
  using assms by (auto simp: cancel_job_def bindr_eq_Inr_iff ok_or_def Let_def split: option.splits)

lemma take_result_cases:
  assumes "take_result i m = (r, m')"
  obtains "m' = m" | e where "jobs m i = Some e" "state (job_snap e) = Completed"
    "m' = m\<lparr>jobs := (jobs m)(i := None)\<rparr>" "r = ok_or ResultTaken (job_result e)"
  using assms by (auto simp: take_result_def split: option.splits if_splits)

lemma jobs_ok_step:
  assumes "job_step E w w'" and "jobs_ok w"
  shows "jobs_ok w'"
proof -
  have ok: "\<forall>k. job_ok w k" using assms(2) by (simp add: jobs_ok_iff)
  have "job_ok w' j" for j
    using assms(1) ok
  proof (induction rule: job_step.induct)
    case (acquire_home h w l m)
    then show ?case using acquire_home_jobs [OF acquire_home(1)] by (intro job_ok_frame [OF acquire_home(2) [rule_format]]) (simp_all add: is_ok_def)
  next
    case (acquire_repository r x w l m)
    then show ?case using acquire_repository_jobs [OF acquire_repository(1)] by (intro job_ok_frame [OF acquire_repository(2) [rule_format]]) (simp_all add: is_ok_def)
  next
    case (acquire_refused r x w e m)
    then show ?case using acquire_repository_jobs [OF acquire_refused(1)] by (intro job_ok_frame [OF acquire_refused(2) [rule_format]]) (simp_all add: is_ok_def)
  next
    case (release l w)
    then show ?case by (intro job_ok_frame [OF release(2) [rule_format]]) (simp_all add: is_ok_def)
  next
    case (start i w req kind c s ls m)
    note m = start_with_jobs [OF start(2)]
    show ?case
    proof (cases "j = i")
      case True
      then show ?thesis using m first_entry_ok [of i kind c] by (simp add: job_ok_def is_ok_def)
    next
      case False
      then show ?thesis using m start(3) set_thread_other [OF False]
        by (intro job_ok_frame [OF start(3) [rule_format]]) (auto simp: is_ok_def)
    qed
  next
    case (start_refused i w req kind c e m)
    then show ?case using start_with_jobs [OF start_refused(2)] by (intro job_ok_frame [OF start_refused(3) [rule_format]]) (simp_all add: is_ok_def)
  next
    case (report i ls w p)
    show ?case
    proof (cases "j = i")
      case True
      from report(2) have "job_ok w i" by simp
      from job_ok_thread [OF this report(1)] obtain e where e: "jobs (manager w) i = Some e"
        "\<not> terminal (state (job_snap e))" "i \<in> issued w" "job_cancel e = JobFlag i"
        "job_id (job_snap e) = i" "job_entry_ok (cancel_flags (manager w) i) e" .
      show ?thesis using e report_entry_ok [OF e(6,2)] True
        by (simp add: job_ok_def report_progress_def job_control_def job_reporter_def) (simp add: set_snap_def)
    next
      case False
      then show ?thesis
        by (intro job_ok_frame [OF report(2) [rule_format]]) (simp_all add: report_progress_def job_control_def job_reporter_def)
    qed
  next
    case (return i ls w out)
    have "i \<in> fst ` set (threads w)" using return(1) by (rule rev_image_eqI) simp
    then have "j \<in> fst ` set (set_thread i (Some (Returned out)) (threads w)) \<longleftrightarrow> j \<in> fst ` set (threads w)"
      using set_thread_self [of i "Some (Returned out)" "threads w"] set_thread_other [of j i] by (cases "j = i") simp_all
    then show ?case by (intro job_ok_frame [OF return(2) [rule_format]]) simp_all
  next
    case (unwind i ls w)
    show ?case
    proof (cases "j = i")
      case True
      from unwind(2) have "job_ok w i" by simp
      then show ?thesis using job_ok_thread [OF _ unwind(1)] True
        by (auto simp: job_ok_def set_thread_self split: option.splits)
    next
      case False
      then show ?thesis using set_thread_other [OF False] by (intro job_ok_frame [OF unwind(2) [rule_format]]) simp_all
    qed
  next
    case (finish i out w)
    show ?case
    proof (cases "j = i")
      case True
      from finish(2) have "job_ok w i" by simp
      from job_ok_thread [OF this finish(1)] obtain e where e: "jobs (manager w) i = Some e"
        "\<not> terminal (state (job_snap e))" "i \<in> issued w" "job_cancel e = JobFlag i"
        "job_id (job_snap e) = i" "job_entry_ok (cancel_flags (manager w) i) e" .
      have "i \<notin> fst ` set (set_thread i None (threads w))" using set_thread_self [of i None] by simp
      then show ?thesis using e job_outcome_ok [OF e(6,2)] True
        by (simp add: job_ok_def finish_job_def is_cancelled_def job_control_def)
    next
      case False
      then show ?thesis using set_thread_other [OF False]
        by (intro job_ok_frame [OF finish(2) [rule_format]]) (simp_all add: finish_job_def)
    qed
  next
    case (cancel i w s m)
    from cancel_job_Inr [OF cancel(1)] obtain e where e: "jobs (manager w) i = Some e"
      "cancellable (job_snap e)" "state s = Cancelling" "job_id s = job_id (job_snap e)"
      "result_ready s = result_ready (job_snap e)" "job_error s = job_error (job_snap e)" "cancellable s"
      "m = update_job i (\<lambda>e. e\<lparr>job_snap := s\<rparr>) (store_flag (job_cancel e) (manager w))" .
    have i: "i \<in> issued w" "job_cancel e = JobFlag i" "job_id (job_snap e) = i"
      "job_entry_ok (cancel_flags (manager w) i) e" "terminal (state (job_snap e)) \<Longrightarrow> i \<notin> fst ` set (threads w)"
      using cancel(2) [rule_format, of i] e(1) by (simp_all add: job_ok_def)
    show ?case
    proof (cases "j = i")
      case True
      have live: "\<not> terminal (state (job_snap e))" using i(4) e(2) by (auto simp: job_entry_ok_def)
      have "job_entry_ok True (e\<lparr>job_snap := s\<rparr>)"
        using i(4) live e(3,5,6) by (cases "state (job_snap e)") (simp_all add: job_entry_ok_def)
      then show ?thesis using e i True by (simp add: job_ok_def store_flag_def)
    next
      case False
      then show ?thesis using e(8) i(2)
        by (intro job_ok_frame [OF cancel(2) [rule_format]]) (simp_all add: store_flag_def)
    qed
  next
    case (take i w r m)
    from take(1) show ?case
    proof (cases rule: take_result_cases)
      case 1
      then show ?thesis using take(2) by simp
    next
      case (2 e)
      have "job_ok w i" "job_ok w j" using take(2) by simp_all
      show ?thesis
      proof (cases "j = i")
        case True
        then show ?thesis using 2 \<open>job_ok w i\<close> by (simp add: job_ok_def)
      next
        case False
        then show ?thesis using 2 by (intro job_ok_frame [OF \<open>job_ok w j\<close>]) simp_all
      qed
    qed
  qed
  then show ?thesis by (simp add: jobs_ok_iff)
qed

lemma jobs_ok_reachable: "job_reachable E w \<Longrightarrow> jobs_ok w"
  unfolding job_reachable_def
  by (induction rule: rtranclp_induct)
    (simp_all add: jobs_ok_step, simp add: jobs_ok_def job_world0_def default_manager_def)

text \<open>A finished entry is changed by no step, except that a completed one can be taken.\<close>

definition job_past :: "string \<Rightarrow> job_entry \<Rightarrow> job_world \<Rightarrow> bool" where
  "job_past i e w \<longleftrightarrow> jobs_ok w \<and> i \<in> issued w
     \<and> (jobs (manager w) i = Some e \<or> state (job_snap e) = Completed \<and> jobs (manager w) i = None)"

lemma issued_step: "job_step E w w' \<Longrightarrow> issued w \<subseteq> issued w'"
  by (induction rule: job_step.induct) auto

lemma finished_no_thread:
  assumes "job_past i e w" and "terminal (state (job_snap e))" and "(k, t) \<in> set (threads w)"
  shows "k \<noteq> i"
proof
  assume "k = i"
  with assms(3) have "i \<in> fst ` set (threads w)" by force
  moreover have "job_ok w i" using assms(1) by (simp add: job_past_def jobs_ok_iff)
  then have "i \<notin> fst ` set (threads w)"
    using assms(1,2) by (cases "jobs (manager w) i") (simp_all add: job_ok_def job_past_def)
  ultimately show False by contradiction
qed

lemma job_past_step:
  assumes "job_step E w w'" and past: "job_past i e w" and fin: "terminal (state (job_snap e))"
  shows "job_past i e w'"
proof -
  have ok: "jobs_ok w'" using jobs_ok_step [OF assms(1)] past by (simp add: job_past_def)
  have old: "i \<in> issued w" and now: "jobs (manager w) i = Some e \<or> state (job_snap e) = Completed \<and> jobs (manager w) i = None"
    using past by (simp_all add: job_past_def)
  have "jobs (manager w') i = jobs (manager w) i \<or> state (job_snap e) = Completed \<and> jobs (manager w') i = None"
    using assms(1)
  proof (cases rule: job_step.cases)
    case (acquire_home h l m)
    then show ?thesis using acquire_home_jobs [OF acquire_home(2)] by simp
  next
    case (acquire_repository r x l m)
    then show ?thesis using acquire_repository_jobs [OF acquire_repository(2)] by simp
  next
    case (acquire_refused r x f m)
    then show ?thesis using acquire_repository_jobs [OF acquire_refused(2)] by simp
  next
    case (start k req kind c s ls m)
    then show ?thesis using start_with_jobs [OF start(3)] old by auto
  next
    case (start_refused k req kind c f m)
    then show ?thesis using start_with_jobs [OF start_refused(3)] by (simp add: is_ok_def)
  next
    case (report k ls p)
    then show ?thesis using finished_no_thread [OF past fin report(2)]
      by (simp add: report_progress_def job_control_def job_reporter_def)
  next
    case (finish k out)
    then show ?thesis using finished_no_thread [OF past fin finish(2)] by (simp add: finish_job_def)
  next
    case (cancel k s m)
    from cancel_job_Inr [OF cancel(2)] obtain f where f: "jobs (manager w) k = Some f" "cancellable (job_snap f)"
      "m = update_job k (\<lambda>e. e\<lparr>job_snap := s\<rparr>) (store_flag (job_cancel f) (manager w))" by blast
    have "job_ok w k" using past by (simp add: job_past_def jobs_ok_iff)
    then have "\<not> terminal (state (job_snap f))" using f by (auto simp: job_ok_def job_entry_ok_def)
    then have "k \<noteq> i" using f(1) now fin by auto
    then show ?thesis using cancel f(3) by (simp add: store_flag_def split: cancel_flag.split)
  next
    case (take k r m)
    from take(2) show ?thesis
    proof (cases rule: take_result_cases)
      case (2 f)
      then show ?thesis using take(1) now by auto
    qed (use take(1) in simp)
  qed simp_all
  then show ?thesis using ok old now issued_step [OF assms(1)] unfolding job_past_def by auto
qed

lemma job_past_steps:
  assumes "(job_step E)\<^sup>*\<^sup>* w w'" and "job_past i e w" and "terminal (state (job_snap e))"
  shows "job_past i e w'"
  using assms by (induction rule: rtranclp_induct) (auto intro: job_past_step)

lemma taken_stays_taken:
  assumes "(job_step E)\<^sup>*\<^sup>* w w'" and "jobs_ok w" and "i \<in> issued w" and "jobs (manager w) i = None"
  shows "jobs (manager w') i = None"
proof -
  let ?e = "\<lparr>job_cancel = JobFlag i, job_snap = \<lparr>job_id = i, job_kind = [], state = Completed,
    job_progress = completed_progress, cancellable = False, result_ready = True, job_error = None\<rparr>,
    job_result = Some JNull\<rparr>"
  let ?e' = "?e\<lparr>job_result := Some (JBool True)\<rparr>"
  have "job_past i ?e w" "job_past i ?e' w" using assms by (simp_all add: job_past_def)
  from job_past_steps [OF assms(1) this(1)] job_past_steps [OF assms(1) this(2)]
  show ?thesis by (auto simp: job_past_def)
qed

text \<open>C17: A finished job keeps its outcome: once a job is completed, failed or cancelled, its
  entry is the same in every later state, whatever is reported, cancelled or started; only a completed
  one can disappear, when its result is taken, and then for good. Until then the result is there to
  be taken. No thread of a finished job holds a lease.\<close>

theorem finished_job_kept:
  assumes "job_reachable E w" and "jobs (manager w) i = Some e" and "terminal (state (job_snap e))"
    and "(job_step E)\<^sup>*\<^sup>* w w'"
  shows "(jobs (manager w') i = Some e
        \<and> (state (job_snap e) = Completed \<longrightarrow> (\<exists>v. job_result e = Some v \<and> fst (take_result i (manager w')) = Inr v))
      \<or> jobs (manager w') i = None \<and> state (job_snap e) = Completed
        \<and> (\<forall>w''. (job_step E)\<^sup>*\<^sup>* w' w'' \<longrightarrow> take_result i (manager w'') = (Inl JobNotFound, manager w'')))
    \<and> (\<forall>t. (i, t) \<notin> set (threads w'))"
proof -
  have ok: "jobs_ok w" by (rule jobs_ok_reachable [OF assms(1)])
  then have "job_past i e w" using assms(2) by (auto simp: job_past_def jobs_ok_def)
  then have past: "job_past i e w'" by (rule job_past_steps [OF assms(4) _ assms(3)])
  have thread: "\<forall>t. (i, t) \<notin> set (threads w')" using finished_no_thread [OF past assms(3)] by blast
  show ?thesis
  proof (cases "jobs (manager w') i")
    case None
    have "jobs (manager w'') i = None" if "(job_step E)\<^sup>*\<^sup>* w' w''" for w''
      using taken_stays_taken [OF that _ _ None] past by (simp add: job_past_def)
    then have gone: "take_result i (manager w'') = (Inl JobNotFound, manager w'')" if "(job_step E)\<^sup>*\<^sup>* w' w''" for w''
      using that by (simp add: take_result_def)
    from None past have "state (job_snap e) = Completed" by (simp add: job_past_def)
    with None gone thread show ?thesis by blast
  next
    case (Some f)
    then have f: "f = e" using past by (simp add: job_past_def)
    have "job_ok w' i" using past by (simp add: job_past_def jobs_ok_iff)
    then have "job_entry_ok (cancel_flags (manager w') i) e" using Some f by (simp add: job_ok_def)
    then have "\<exists>v. job_result e = Some v \<and> fst (take_result i (manager w')) = Inr v"
      if "state (job_snap e) = Completed"
      using that Some f by (auto simp: job_entry_ok_def take_result_def ok_or_def)
    with Some f thread show ?thesis by blast
  qed
qed

section \<open>Witnesses\<close>

definition toy_paths :: path_env where
  "toy_paths = \<lparr>canonicalize = (\<lambda>p. if p = ''missing'' then Inl ''not found'' else Inr p), path_exists = (\<lambda>p. True), is_absolute = (\<lambda>p. True),
     current_dir = Inl ''no current directory'', join_path = (\<lambda>d p. d @ p), lowercase = (\<lambda>p. p), on_windows = False\<rparr>"

definition toy_started :: job_world where
  "toy_started = job_world0
     \<lparr>manager := snd (start_with toy_paths (HomeRepositoryExclusive ''h'' ''r'') ''j'' ''push'' True default_manager),
      threads := set_thread ''j'' (Some (Working [RepositoryLease ''r'' True, HomeLease ''h''])) [],
      issued := {''j''}\<rparr>"

definition toy_returned :: job_world where
  "toy_returned = toy_started
     \<lparr>manager := fold drop_lease [RepositoryLease ''r'' True, HomeLease ''h''] (manager toy_started),
      threads := set_thread ''j'' (Some (Returned (ReturnsOk (Inr JNull)))) (threads toy_started)\<rparr>"

definition toy_finished :: job_world where
  "toy_finished = toy_returned
     \<lparr>manager := finish_job ''j'' (ReturnsOk (Inr JNull)) (manager toy_returned),
      threads := set_thread ''j'' None (threads toy_returned)\<rparr>"

lemmas toy_defs = toy_paths_def start_kinds start_home_repository_def try_acquire_codex_home_def
  normalized_codex_home_def normalized_existing_path_def map_err_def try_acquire_repository_def
  normalized_path_def slashes_def fold_case_def lease_state_def default_manager_def start_job_def

lemma toy_start_granted:
  "start_with toy_paths (HomeRepositoryExclusive ''h'' ''r'') ''j'' ''push'' True default_manager =
     (Inr (fst (start_job ''j'' ''push'' True default_manager), [RepositoryLease ''r'' True, HomeLease ''h'']),
      snd (start_with toy_paths (HomeRepositoryExclusive ''h'' ''r'') ''j'' ''push'' True default_manager))"
  by (simp add: toy_defs Let_def)

lemma toy_started_reachable: "job_reachable toy_paths toy_started"
proof -
  have "''j'' \<notin> issued job_world0" by (simp add: job_world0_def)
  moreover have "start_with toy_paths (HomeRepositoryExclusive ''h'' ''r'') ''j'' ''push'' True (manager job_world0) =
     (Inr (fst (start_job ''j'' ''push'' True default_manager), [RepositoryLease ''r'' True, HomeLease ''h'']),
      manager toy_started)"
    using toy_start_granted by (simp add: job_world0_def toy_started_def)
  ultimately have "job_step toy_paths job_world0 (job_world0\<lparr>manager := manager toy_started,
      threads := set_thread ''j'' (Some (Working [RepositoryLease ''r'' True, HomeLease ''h''])) (threads job_world0),
      issued := insert ''j'' (issued job_world0)\<rparr>)"
    by (rule job_step.start)
  then have "job_step toy_paths job_world0 toy_started" by (simp add: toy_started_def job_world0_def)
  then show ?thesis by (simp add: job_reachable_def)
qed

lemma toy_finished_reachable: "job_reachable toy_paths toy_finished"
proof -
  have "(''j'', Working [RepositoryLease ''r'' True, HomeLease ''h'']) \<in> set (threads toy_started)"
    by (simp add: toy_started_def set_thread_def)
  from job_step.return [OF this] have 1: "job_step toy_paths toy_started toy_returned"
    by (simp add: toy_returned_def)
  have "(''j'', Returned (ReturnsOk (Inr JNull))) \<in> set (threads toy_returned)"
    by (simp add: toy_returned_def set_thread_def)
  from job_step.finish [OF this] have 2: "job_step toy_paths toy_returned toy_finished"
    by (simp add: toy_finished_def)
  from toy_started_reachable 1 2 show ?thesis unfolding job_reachable_def by (meson rtranclp.rtrancl_into_rtrancl)
qed

theorem leases_exclude_witness:
  "\<not> conflicts (held_leases toy_started - {#HomeLease ''h''#}) (HomeLease ''h'')"
  by (rule leases_exclude [OF toy_started_reachable])
    (simp add: held_leases_def toy_started_def set_thread_def)

theorem lease_granted_iff_free_witness:
  "\<not> is_ok (try_acquire_codex_home toy_paths ''h'' (manager toy_started))
    \<and> is_ok (fst (try_acquire_repository toy_paths ''s'' False (manager toy_started)))"
proof -
  have k: "normalized_codex_home toy_paths ''h'' = Inr ''h''" "normalized_path toy_paths ''s'' = Inr ''s''"
    by (simp_all add: toy_defs)
  have "\<not> conflicts (held_leases toy_started) (RepositoryLease ''s'' False)"
    "count (held_leases toy_started) (RepositoryLease ''s'' False) = 0"
    "conflicts (held_leases toy_started) (HomeLease ''h'')"
    by (simp_all add: held_leases_def toy_started_def job_world0_def set_thread_def)
  then show ?thesis using lease_granted_iff_free [OF toy_started_reachable k, of False] by simp
qed

lemma toy_finished_entry:
  "jobs (manager toy_finished) ''j'' = Some (job_outcome False (ReturnsOk (Inr JNull)) (first_entry ''j'' ''push'' True))"
  using start_with_jobs [OF toy_start_granted]
  by (simp add: toy_finished_def toy_returned_def toy_started_def finish_job_def is_ok_def is_cancelled_def job_control_def
      del: job_outcome.simps start_with.simps drop_lease.simps)

theorem finished_job_kept_witness:
  "fst (take_result ''j'' (manager toy_finished)) = Inr JNull"
proof -
  let ?e = "job_outcome False (ReturnsOk (Inr JNull)) (first_entry ''j'' ''push'' True)"
  have "terminal (state (job_snap ?e))" "job_result ?e = Some JNull" "state (job_snap ?e) = Completed"
    by (simp_all add: set_snap_def)
  then show ?thesis
    using finished_job_kept [OF toy_finished_reachable toy_finished_entry _ rtranclp.rtrancl_refl]
      toy_finished_entry by (auto simp del: job_outcome.simps)
qed

end
