(* ===== verification/WorkspacePaths.thy ===== *)
theory WorkspacePaths
  imports Descriptors
begin

text \<open>
  \<open>WorkspacePathMapper\<close> of crates/sync-core/src/workspace.rs: the rules that replace a path prefix of
  the machine that recorded a thread by one of this machine, and back. Path strings of any platform
  are compared after \<open>normalize_workspace_path_for_match\<close>; slicing can panic, so the mapping returns
  the panic as an error.
\<close>

datatype mapper_error =
    EmptyPrefix
  | RootPrefix
  | DuplicatePrefix string
  | DuplicateThread string
  | SlicePanic

record workspace_path_mapping =
  remote_prefix :: string
  local_prefix :: string

section \<open>Path syntax\<close>

definition normalize_path_syntax :: "string \<Rightarrow> string" where
  "normalize_path_syntax path =
     (let normalized = slashes path in
      case strip_prefix ''//?/'' normalized of
        None \<Rightarrow> normalized
      | Some verbatim \<Rightarrow>
          if length verbatim \<ge> 4 \<and> map ascii_lower (take 4 verbatim) = ''unc/'' then ''//'' @ drop 4 verbatim
          else if length verbatim \<ge> 2 \<and> verbatim ! 1 = CHR '':'' then verbatim
          else normalized)"

definition looks_like_windows_path :: "string \<Rightarrow> bool" where
  "looks_like_windows_path path \<longleftrightarrow> take 2 path = ''//'' \<or> length path \<ge> 2 \<and> path ! 1 = CHR '':''"

definition normalize_workspace_path_for_match :: "string \<Rightarrow> string" where
  "normalize_workspace_path_for_match path =
     (let normalized = trim_end_slashes (normalize_path_syntax path) in
      if looks_like_windows_path normalized then map ascii_lower normalized else normalized)"

definition paths_equal :: "string \<Rightarrow> string \<Rightarrow> bool" where
  "paths_equal l r \<longleftrightarrow> normalize_workspace_path_for_match l = normalize_workspace_path_for_match r"

definition normalize_prefix :: "string \<Rightarrow> mapper_error + string" where
  "normalize_prefix pre =
     (let pre = trim pre in
      bindr (ensure (pre \<noteq> []) EmptyPrefix) (\<lambda>_.
      let trimmed = trim_end_slashes (normalize_path_syntax pre) in
      bindr (ensure (trimmed \<noteq> []) RootPrefix) (\<lambda>_. Inr trimmed)))"

section \<open>Replacing a prefix\<close>

definition is_slash :: "char \<Rightarrow> bool" where
  "is_slash c \<longleftrightarrow> c = CHR ''/'' \<or> c = CHR 0x5C"

definition covers :: "string \<Rightarrow> string \<Rightarrow> bool" where
  "covers match_from match_path \<longleftrightarrow> match_path = match_from
     \<or> (case strip_prefix match_from match_path of None \<Rightarrow> False | Some suffix \<Rightarrow> take 1 suffix = ''/'')"

definition replace_prefix :: "string \<Rightarrow> string \<Rightarrow> string \<Rightarrow> mapper_error + string option" where
  "replace_prefix path from to =
     (let normalized_path = normalize_path_syntax path;
          normalized_from = normalize_path_syntax from;
          match_path = normalize_workspace_path_for_match normalized_path;
          match_from = normalize_workspace_path_for_match normalized_from;
          n = min (length normalized_from) (length normalized_path) in
      if \<not> covers match_from match_path then Inr None
      else if \<not> is_char_boundary normalized_path n then Inl SlicePanic
      else
        let separator = (if CHR 0x5C \<in> set to \<and> CHR ''/'' \<notin> set to then CHR 0x5C else CHR ''/'');
            suffix = map (\<lambda>c. if is_slash c then separator else c) (dropWhile is_slash (drop n normalized_path)) in
        Inr (Some (if suffix = [] then to
                   else rev (dropWhile is_slash (rev to)) @ [separator] @ suffix)))"

section \<open>The mapper\<close>

type_synonym path_mapper = "workspace_path_mapping list"

definition normalize_mapping :: "workspace_path_mapping \<Rightarrow> mapper_error + workspace_path_mapping" where
  "normalize_mapping m = bindr (normalize_prefix (remote_prefix m)) (\<lambda>r.
     bindr (normalize_prefix (local_prefix m)) (\<lambda>l. Inr \<lparr>remote_prefix = r, local_prefix = l\<rparr>))"

definition side :: "bool \<Rightarrow> workspace_path_mapping \<Rightarrow> string" where
  "side remote_side m = (if remote_side then remote_prefix m else local_prefix m)"

fun reject_ambiguous_mappings :: "path_mapper \<Rightarrow> bool \<Rightarrow> mapper_error + unit" where
  "reject_ambiguous_mappings [] remote_side = Inr ()"
| "reject_ambiguous_mappings (l # ms) remote_side =
     (if list_ex (\<lambda>r. paths_equal (side remote_side l) (side remote_side r)) ms
      then Inl (DuplicatePrefix (side remote_side l))
      else reject_ambiguous_mappings ms remote_side)"

definition new_mapper :: "workspace_path_mapping list \<Rightarrow> mapper_error + path_mapper" where
  "new_mapper ms = bindr (map_res normalize_mapping ms) (\<lambda>ms.
     bindr (reject_ambiguous_mappings ms True) (\<lambda>_.
     bindr (reject_ambiguous_mappings ms False) (\<lambda>_. Inr ms)))"

definition local_prefixes :: "path_mapper \<Rightarrow> string list" where
  "local_prefixes ms = map local_prefix ms"

definition rank :: "bool \<Rightarrow> workspace_path_mapping \<Rightarrow> nat" where
  "rank to_local m = char_count (normalize_workspace_path_for_match (side to_local m))"

definition candidate :: "string \<Rightarrow> bool \<Rightarrow> workspace_path_mapping \<Rightarrow> mapper_error + (nat \<times> string) option" where
  "candidate path to_local m = bindr (replace_prefix path (side to_local m) (side (\<not> to_local) m))
     (\<lambda>r. Inr (map_option (\<lambda>mapped. (rank to_local m, mapped)) r))"

text \<open>\<open>max_by_key\<close> returns the last of the largest.\<close>

fun max_by_rank :: "(nat \<times> 'a) option list \<Rightarrow> (nat \<times> 'a) option \<Rightarrow> (nat \<times> 'a) option" where
  "max_by_rank [] best = best"
| "max_by_rank (None # xs) best = max_by_rank xs best"
| "max_by_rank (Some x # xs) best = max_by_rank xs
     (case best of None \<Rightarrow> Some x | Some y \<Rightarrow> if fst y \<le> fst x then Some x else Some y)"

definition map_path :: "path_mapper \<Rightarrow> string \<Rightarrow> bool \<Rightarrow> mapper_error + string option" where
  "map_path ms path to_local = bindr (map_res (candidate path to_local) ms)
     (\<lambda>cs. Inr (map_option snd (max_by_rank cs None)))"

definition remote_to_local :: "path_mapper \<Rightarrow> string \<Rightarrow> mapper_error + string option" where
  "remote_to_local ms path = map_path ms path True"

definition local_to_remote :: "path_mapper \<Rightarrow> string \<Rightarrow> mapper_error + string option" where
  "local_to_remote ms path = map_path ms path False"

section \<open>Threads and snapshots\<close>

definition map_cwd_row :: "(string \<Rightarrow> mapper_error + string option) \<Rightarrow> json \<Rightarrow> mapper_error + json" where
  "map_cwd_row f row = (case as_object row of
     None \<Rightarrow> Inr row
   | Some members \<Rightarrow> (case get_str members ''cwd'' of
       None \<Rightarrow> Inr row
     | Some path \<Rightarrow> bindr (f path) (\<lambda>m. Inr (case m of
         None \<Rightarrow> row
       | Some mapped \<Rightarrow> JObject (bt_insert ''cwd'' (JString mapped) members)))))"

definition set_thread_rows :: "thread_bundle \<Rightarrow> json list \<Rightarrow> thread_bundle" where
  "set_thread_rows t rows = t\<lparr>related := (related t)\<lparr>rr_tables := bt_insert ''threads'' rows (rr_tables (related t))\<rparr>\<rparr>"

definition map_thread_paths :: "(string \<Rightarrow> mapper_error + string option) \<Rightarrow> thread_bundle \<Rightarrow> mapper_error + thread_bundle" where
  "map_thread_paths f t =
     bindr (case ws_source_path (workspace t) of
              None \<Rightarrow> Inr t
            | Some path \<Rightarrow> bindr (f path) (\<lambda>m. Inr (case m of
                None \<Rightarrow> t
              | Some mapped \<Rightarrow> t\<lparr>workspace := (workspace t)\<lparr>ws_source_path := Some mapped\<rparr>\<rparr>))) (\<lambda>t.
     case bt_get (rr_tables (related t)) ''threads'' of
       None \<Rightarrow> Inr t
     | Some rows \<Rightarrow> bindr (map_res (map_cwd_row f) rows) (\<lambda>rows. Inr (set_thread_rows t rows)))"

definition materialize_thread :: "path_mapper \<Rightarrow> thread_bundle \<Rightarrow> mapper_error + thread_bundle" where
  "materialize_thread ms = map_thread_paths (remote_to_local ms)"

definition canonicalize_thread :: "path_mapper \<Rightarrow> thread_bundle \<Rightarrow> mapper_error + thread_bundle" where
  "canonicalize_thread ms = map_thread_paths (local_to_remote ms)"

definition materialize_snapshot :: "path_mapper \<Rightarrow> local_snapshot \<Rightarrow> mapper_error + local_snapshot" where
  "materialize_snapshot ms s = bindr (map_res (materialize_thread ms) (ls_threads s)) (\<lambda>ts. Inr (s\<lparr>ls_threads := ts\<rparr>))"

definition canonicalize_snapshot :: "path_mapper \<Rightarrow> local_snapshot \<Rightarrow> mapper_error + local_snapshot" where
  "canonicalize_snapshot ms s = bindr (map_res (canonicalize_thread ms) (ls_threads s)) (\<lambda>ts. Inr (s\<lparr>ls_threads := ts\<rparr>))"

definition thread_workspace_path :: "thread_bundle \<Rightarrow> string option" where
  "thread_workspace_path t = (case ws_source_path (workspace t) of
     Some p \<Rightarrow> Some p
   | None \<Rightarrow> (case bt_get (rr_tables (related t)) ''threads'' of
         Some (row # _) \<Rightarrow> Option.bind (json_get row ''cwd'') as_str
       | _ \<Rightarrow> None))"

definition set_cwd_row :: "string \<Rightarrow> json \<Rightarrow> json" where
  "set_cwd_row path row = (case as_object row of
     None \<Rightarrow> row
   | Some members \<Rightarrow> if bt_get members ''cwd'' = None then row
       else JObject (bt_insert ''cwd'' (JString path) members))"

definition set_thread_workspace_path :: "string \<Rightarrow> thread_bundle \<Rightarrow> thread_bundle" where
  "set_thread_workspace_path path t =
     (let t = t\<lparr>workspace := (workspace t)\<lparr>ws_source_path := Some path\<rparr>\<rparr> in
      case bt_get (rr_tables (related t)) ''threads'' of
        None \<Rightarrow> t
      | Some rows \<Rightarrow> set_thread_rows t (map (set_cwd_row path) rows))"

fun reference_paths :: "thread_bundle list \<Rightarrow> (string, string) btree_map \<Rightarrow> mapper_error + (string, string) btree_map" where
  "reference_paths [] m = Inr m"
| "reference_paths (t # ts) m = (case thread_workspace_path t of
     None \<Rightarrow> reference_paths ts m
   | Some path \<Rightarrow> if bt_get m (thread_id t) \<noteq> None then Inl (DuplicateThread (thread_id t))
       else reference_paths ts (bt_insert (thread_id t) path m))"

definition snapshot_with_canonical_reference :: "local_snapshot \<Rightarrow> thread_bundle list \<Rightarrow> mapper_error + local_snapshot" where
  "snapshot_with_canonical_reference s reference = bindr (reference_paths reference []) (\<lambda>paths.
     Inr (s\<lparr>ls_threads := map (\<lambda>t. case bt_get paths (thread_id t) of
        None \<Rightarrow> t | Some path \<Rightarrow> set_thread_workspace_path path t) (ls_threads s)\<rparr>))"

definition materialize_snapshot_with_reference ::
  "path_mapper \<Rightarrow> local_snapshot \<Rightarrow> thread_bundle list \<Rightarrow> mapper_error + local_snapshot" where
  "materialize_snapshot_with_reference ms s reference =
     bindr (snapshot_with_canonical_reference s reference) (materialize_snapshot ms)"

end
