(* ===== verification/WorkspacePathProps.thy ===== *)
theory WorkspacePathProps
  imports WorkspacePaths "HOL-Library.Multiset"
begin

text \<open>
  The properties of the path mapper: the longest prefix wins whatever the order of the rules, and
  mapping back undoes mapping, up to the spelling of the prefix, when no prefix lies below another. Both are
  about prefixes that are not of a verbatim form of Windows (for the first, of a nested one).
\<close>

section \<open>Normalized paths\<close>

lemma slashes_no_backslash: "CHR 0x5C \<notin> set (slashes s)"
  by (auto simp: slashes_def split: if_splits)

lemma slashes_id: "CHR 0x5C \<notin> set s \<Longrightarrow> slashes s = s"
  unfolding slashes_def by (induction s) auto

lemma trim_end_slashes_id: "s \<noteq> [] \<Longrightarrow> last s \<noteq> CHR ''/'' \<Longrightarrow> trim_end_slashes s = s"
  unfolding trim_end_slashes_def by (cases s rule: rev_cases) auto

lemma set_trim_end: "set (trim_end_slashes s) \<subseteq> set s"
  unfolding trim_end_slashes_def using set_dropWhileD by fastforce

lemma last_trim_end: "trim_end_slashes s \<noteq> [] \<Longrightarrow> last (trim_end_slashes s) \<noteq> CHR ''/''"
proof -
  assume "trim_end_slashes s \<noteq> []"
  then have "dropWhile (\<lambda>c. c = CHR ''/'') (rev s) \<noteq> []" by (simp add: trim_end_slashes_def)
  from hd_dropWhile [OF this] this show ?thesis by (simp add: trim_end_slashes_def last_rev)
qed

lemma trim_end_append:
  assumes "trim_end_slashes s \<noteq> []"
  shows "trim_end_slashes (f @ s) = f @ trim_end_slashes s"
proof -
  obtain c where "c \<in> set (rev s)" "\<not> c = CHR ''/''" using assms by (auto simp: trim_end_slashes_def)
  then have "dropWhile (\<lambda>c. c = CHR ''/'') (rev s @ rev f) = dropWhile (\<lambda>c. c = CHR ''/'') (rev s) @ rev f"
    by (rule dropWhile_append1)
  then show ?thesis by (simp add: trim_end_slashes_def)
qed

definition ordinary :: "string \<Rightarrow> bool" where
  "ordinary p \<longleftrightarrow> CHR 0x5C \<notin> set p \<and> take 3 p \<noteq> ''//?''"

lemma ordinary_syntax: "ordinary p \<Longrightarrow> normalize_path_syntax p = p"
proof -
  assume o: "ordinary p"
  have t: "take 3 p = take 3 (take 4 p)" by (simp add: min_def)
  have "take 4 p \<noteq> ''//?/''"
  proof
    assume "take 4 p = ''//?/''"
    then have "take 3 p = ''//?''" unfolding t by simp
    then show False using o by (simp add: ordinary_def)
  qed
  then have "strip_prefix ''//?/'' p = None" by (simp add: strip_prefix_def eval_nat_numeral)
  then show ?thesis using o by (simp add: normalize_path_syntax_def slashes_id ordinary_def)
qed

text \<open>What \<open>normalize_prefix\<close> yields, verbatim prefixes of nested form aside.\<close>

definition plain_prefix :: "string \<Rightarrow> bool" where
  "plain_prefix p \<longleftrightarrow> ordinary p \<and> p \<noteq> [] \<and> last p \<noteq> CHR ''/''"

lemma syntax_no_backslash: "CHR 0x5C \<notin> set (normalize_path_syntax p)"
proof -
  have d: "CHR 0x5C \<notin> set (drop n (slashes p))" for n
    using slashes_no_backslash set_drop_subset by fast
  show ?thesis using d [of 4] d [of 8] slashes_no_backslash [of p]
    by (auto simp: normalize_path_syntax_def strip_prefix_def Let_def simp flip: drop_drop split: option.splits if_splits
        dest: in_set_dropD)
qed

lemma normalize_prefix_Inr:
  assumes "normalize_prefix raw = Inr p"
  shows "p \<noteq> []" and "last p \<noteq> CHR ''/''" and "CHR 0x5C \<notin> set p"
proof -
  have p: "p = trim_end_slashes (normalize_path_syntax (trim raw))" "p \<noteq> []"
    using assms by (auto simp: normalize_prefix_def Let_def bindr_eq_Inr_iff)
  then show "p \<noteq> []" "last p \<noteq> CHR ''/''" "CHR 0x5C \<notin> set p"
    using last_trim_end set_trim_end syntax_no_backslash by blast+
qed

lemma lower_slash [simp]: "ascii_lower (CHR ''/'') = CHR ''/''"
  by (simp add: ascii_lower_def)

section \<open>Covering prefixes\<close>

lemma char_count_append [simp]: "char_count (a @ b) = char_count a + char_count b"
  by (simp add: char_count_def)

lemma covers_iff: "covers f p \<longleftrightarrow> p = f \<or> (\<exists>s. p = f @ CHR ''/'' # s)"
proof -
  have "take 1 x = ''/'' \<longleftrightarrow> (\<exists>s. x = CHR ''/'' # s)" for x :: string by (cases x) auto
  then show ?thesis unfolding covers_def
    by (auto simp: strip_prefix_Some split: option.splits) (metis option.distinct(1) strip_prefix_Some)
qed

lemma covers_linear:
  assumes "covers a p" and "covers b p"
  shows "covers a b \<or> covers b a"
proof -
  have split: "\<exists>x. p = c @ x \<and> (x = [] \<or> hd x = CHR ''/'')" if "covers c p" for c
    using that unfolding covers_iff by (metis append_Nil2 list.sel(1))
  obtain x where x: "p = a @ x" "x = [] \<or> hd x = CHR ''/''" using split [OF assms(1)] by blast
  obtain y where y: "p = b @ y" "y = [] \<or> hd y = CHR ''/''" using split [OF assms(2)] by blast
  from x(1) y(1) consider (a) z where "b = a @ z" "x = z @ y" | (b) z where "a = b @ z" "y = z @ x"
    by (auto simp: append_eq_append_conv2)
  then show ?thesis
  proof cases
    case a
    then show ?thesis using x(2) by (cases z) (auto simp: covers_iff)
  next
    case b
    then show ?thesis using y(2) by (cases z) (auto simp: covers_iff)
  qed
qed

lemma covers_same_rank:
  assumes "covers a p" and "covers b p" and "char_count a = char_count b"
  shows "a = b"
proof -
  have "u = v" if "covers u v" "char_count u = char_count v" for u v
    using that by (auto simp: covers_iff) (simp add: char_count_def)
  then show ?thesis using covers_linear [OF assms(1,2)] assms(3) by metis
qed

section \<open>The choice of a rule\<close>

lemma candidate_Inl: "candidate path d m = Inl e \<Longrightarrow> e = SlicePanic"
  by (auto simp: candidate_def bindr_eq_Inl_iff replace_prefix_def Let_def split: if_splits)

lemma candidate_covers:
  assumes "candidate path d m = Inr (Some x)" and "normalize_path_syntax (side d m) = side d m"
  shows "covers (normalize_workspace_path_for_match (side d m))
      (normalize_workspace_path_for_match (normalize_path_syntax path))" and "fst x = rank d m"
  using assms by (auto simp: candidate_def bindr_eq_Inr_iff replace_prefix_def Let_def split: if_splits)

lemma max_by_rank_cases:
  "max_by_rank cs best = (case max_by_rank cs None of None \<Rightarrow> best
     | Some x \<Rightarrow> (case best of None \<Rightarrow> Some x | Some y \<Rightarrow> if fst y \<le> fst x then Some x else Some y))"
proof (induction cs arbitrary: best)
  case (Cons c cs)
  show ?case
  proof (cases c)
    case (Some x)
    show ?thesis
      using Cons.IH [of "Some x"] Cons.IH [of "case best of None \<Rightarrow> Some x | Some y \<Rightarrow> if fst y \<le> fst x then Some x else Some y"]
      unfolding Some by (auto split: option.splits)
  qed (use Cons.IH [of best] in simp)
qed (simp split: option.split)

lemma max_by_rank_Some:
  assumes "max_by_rank cs None = Some x"
  shows "Some x \<in> set cs" and "\<And>y. Some y \<in> set cs \<Longrightarrow> fst y \<le> fst x"
proof -
  have "Some x \<in> set cs \<and> (\<forall>y. Some y \<in> set cs \<longrightarrow> fst y \<le> fst x)"
    using assms
  proof (induction cs arbitrary: x)
    case (Cons c cs)
    show ?case
    proof (cases c)
      case None
      then show ?thesis using Cons by auto
    next
      case (Some z)
      have eq: "max_by_rank cs (Some z) = Some x" using Cons.prems Some by simp
      show ?thesis
      proof (cases "max_by_rank cs None")
        case None
        have "\<forall>y. Some y \<notin> set cs" using None
        proof (induction cs)
          case (Cons a cs)
          then show ?case
            by (cases a) (auto simp: max_by_rank_cases [of cs "Some _"] split: option.splits if_splits)
        qed simp
        then show ?thesis using eq None Some max_by_rank_cases [of cs "Some z"] by auto
      next
        case (Some w)
        with Cons.IH have "Some w \<in> set cs" "\<forall>y. Some y \<in> set cs \<longrightarrow> fst y \<le> fst w" by auto
        moreover have "x = (if fst z \<le> fst w then w else z)"
          using eq Some max_by_rank_cases [of cs "Some z"] by auto
        ultimately show ?thesis using \<open>c = Some z\<close> by (auto intro: order_trans)
      qed
    qed
  qed simp
  then show "Some x \<in> set cs" "\<And>y. Some y \<in> set cs \<Longrightarrow> fst y \<le> fst x" by auto
qed

lemma max_by_rank_None: "max_by_rank cs None = None \<longleftrightarrow> (\<forall>y. Some y \<notin> set cs)"
proof (induction cs)
  case (Cons c cs)
  then show ?case by (cases c) (auto simp: max_by_rank_cases [of cs "Some _"] split: option.splits)
qed simp

lemma max_by_rank_set:
  assumes "set cs = set cs'" and "\<And>x y. Some x \<in> set cs \<Longrightarrow> Some y \<in> set cs \<Longrightarrow> fst x = fst y \<Longrightarrow> x = y"
  shows "max_by_rank cs None = max_by_rank cs' None"
proof (cases "max_by_rank cs None")
  case None
  then show ?thesis using assms(1) max_by_rank_None [of cs] max_by_rank_None [of cs'] by simp
next
  case (Some x)
  then obtain y where y: "max_by_rank cs' None = Some y"
    using assms(1) max_by_rank_None [of cs] max_by_rank_None [of cs'] by fastforce
  have "fst x = fst y"
    using max_by_rank_Some [OF Some] max_by_rank_Some [OF y] assms(1) by (simp add: order_antisym)
  then show ?thesis using assms Some y max_by_rank_Some(1) [OF Some] max_by_rank_Some(1) [OF y] by metis
qed

lemma reject_unambiguous:
  assumes "reject_ambiguous_mappings ms d = Inr u" and "m \<in> set ms" and "m' \<in> set ms"
    and "paths_equal (side d m) (side d m')"
  shows "m = m'"
  using assms by (induction ms d rule: reject_ambiguous_mappings.induct)
    (auto simp: paths_equal_def list_ex_iff split: if_splits)

lemma new_mapper_Inr:
  assumes "new_mapper raw = Inr ms"
  shows "reject_ambiguous_mappings ms d = Inr ()"
    and "m \<in> set ms \<Longrightarrow> side d m \<noteq> [] \<and> last (side d m) \<noteq> CHR ''/'' \<and> CHR 0x5C \<notin> set (side d m)"
proof -
  have ms: "map_res normalize_mapping raw = Inr ms" "reject_ambiguous_mappings ms True = Inr ()"
    "reject_ambiguous_mappings ms False = Inr ()"
    using assms by (auto simp: new_mapper_def bindr_eq_Inr_iff)
  then show "reject_ambiguous_mappings ms d = Inr ()" by (cases d) simp_all
  assume "m \<in> set ms"
  then obtain r where "normalize_mapping r = Inr m"
    using ms(1) by (auto simp: map_res_Inr_iff list_all2_conv_all_nth in_set_conv_nth)
  then show "side d m \<noteq> [] \<and> last (side d m) \<noteq> CHR ''/'' \<and> CHR 0x5C \<notin> set (side d m)"
    using normalize_prefix_Inr by (auto simp: normalize_mapping_def bindr_eq_Inr_iff side_def)
qed

lemma map_res_Inl: "(\<exists>x \<in> set xs. \<exists>e. f x = Inl e) \<longleftrightarrow> (\<exists>e. map_res f xs = Inl e)"
proof (induction xs)
  case (Cons x xs)
  then show ?case by (cases "f x") (auto simp: bindr_eq_Inl_iff)
qed simp

lemma map_res_elems: "map_res f xs = Inr ds \<Longrightarrow> set ds = {c. \<exists>m \<in> set xs. f m = Inr c}"
  by (induction xs arbitrary: ds) (auto simp: bindr_eq_Inr_iff)

text \<open>Prefixes that are not written in the verbatim form of Windows.\<close>

definition verbatim_free :: "path_mapper \<Rightarrow> bool" where
  "verbatim_free ms = list_all (\<lambda>m. take 3 (remote_prefix m) \<noteq> ''//?'' \<and> take 3 (local_prefix m) \<noteq> ''//?'') ms"

lemma new_mapper_plain:
  assumes "new_mapper raw = Inr ms" and "verbatim_free ms" and "m \<in> set ms"
  shows "plain_prefix (side d m)"
  using new_mapper_Inr(2) [OF assms(1,3), of d] assms(2,3)
  by (auto simp: plain_prefix_def ordinary_def verbatim_free_def list_all_iff side_def)

text \<open>Prefixes the normalization leaves as they are. \<open>new\<close> normalizes a prefix once, which strips one verbatim
  form; a prefix of nested verbatim form is still not normal, and \<open>replace_prefix\<close>, which normalizes again,
  matches with another prefix than the one \<open>new\<close> compared.\<close>

definition settled :: "path_mapper \<Rightarrow> bool" where
  "settled ms = list_all (\<lambda>m. normalize_path_syntax (remote_prefix m) = remote_prefix m
     \<and> normalize_path_syntax (local_prefix m) = local_prefix m) ms"

lemma settled_side: "settled ms \<Longrightarrow> m \<in> set ms \<Longrightarrow> normalize_path_syntax (side d m) = side d m"
  by (auto simp: settled_def list_all_iff side_def)

definition unsettled_mapper :: path_mapper where
  "unsettled_mapper = [\<lparr>remote_prefix = ''//?/UNC/?/UNC/?/C:/x'', local_prefix = ''/one''\<rparr>,
     \<lparr>remote_prefix = ''C:/x/abc'', local_prefix = ''/two''\<rparr>]"

lemma unsettled_order_matters:
  "\<exists>ms. new_mapper unsettled_mapper = Inr ms \<and> \<not> settled ms
    \<and> remote_to_local ms ''C:/x/abc/f'' \<noteq> remote_to_local (rev ms) ''C:/x/abc/f''"
proof -
  have "case new_mapper unsettled_mapper of Inl _ \<Rightarrow> False | Inr ms \<Rightarrow> \<not> settled ms
    \<and> remote_to_local ms ''C:/x/abc/f'' \<noteq> remote_to_local (rev ms) ''C:/x/abc/f''"
    by code_simp
  then show ?thesis by (auto split: sum.splits)
qed

text \<open>C32: The mapping of a path does not depend on the order of the rules of an accepted mapper whose prefixes
  are settled: normalizing their syntax once more changes none of them, so none is of a nested verbatim form
  (as \<open>//?/UNC/?/UNC/?/C:/x\<close> is). The matching rule with the longest prefix is then unique, because
  a mapper is accepted only when no two prefixes of one side are equal up to case and separators. Without
  the condition it is false: \<open>unsettled_order_matters\<close>.\<close>

theorem mapper_order_irrelevant:
  assumes "new_mapper raw = Inr ms" and "settled ms" and "mset ms' = mset ms"
  shows "map_path ms' path d = map_path ms path d"
proof -
  have set: "set ms' = set ms" using assms(3) by (rule mset_eq_setD)
  show ?thesis
  proof (cases "\<exists>m \<in> set ms. \<exists>e. candidate path d m = Inl e")
    case True
    then obtain e e' where e: "map_res (candidate path d) ms = Inl e" "map_res (candidate path d) ms' = Inl e'"
      using map_res_Inl [of ms "candidate path d"] map_res_Inl [of ms' "candidate path d"] set by blast
    have panic: "map_res (candidate path d) xs = Inl x \<Longrightarrow> x = SlicePanic" for xs x
      by (induction xs arbitrary: x) (auto simp: bindr_eq_Inl_iff dest: candidate_Inl)
    show ?thesis using panic [OF e(1)] panic [OF e(2)] e by (simp add: map_path_def)
  next
    case False
    then obtain cs cs' where cs: "map_res (candidate path d) ms = Inr cs" "map_res (candidate path d) ms' = Inr cs'"
      using map_res_Inl [of ms "candidate path d"] map_res_Inl [of ms' "candidate path d"] set
      by (metis old.sum.exhaust)
    have "max_by_rank cs None = max_by_rank cs' None"
    proof (rule max_by_rank_set)
      show "set cs = set cs'" using map_res_elems [OF cs(1)] map_res_elems [OF cs(2)] set by simp
    next
      fix x y assume "Some x \<in> set cs" "Some y \<in> set cs" "fst x = fst y"
      then obtain m n where m: "m \<in> set ms" "candidate path d m = Inr (Some x)"
        and n: "n \<in> set ms" "candidate path d n = Inr (Some y)" using map_res_elems [OF cs(1)] by auto
      from candidate_covers [OF m(2) settled_side [OF assms(2) m(1)]] candidate_covers [OF n(2) settled_side [OF assms(2) n(1)]] \<open>fst x = fst y\<close>
      have "paths_equal (side d m) (side d n)"
        using covers_same_rank by (simp add: paths_equal_def rank_def)
      then have "m = n" using reject_unambiguous [OF new_mapper_Inr(1) [OF assms(1)] m(1) n(1)] by blast
      then show "x = y" using m n by simp
    qed
    then show ?thesis using cs by (simp add: map_path_def)
  qed
qed

section \<open>Mapping back\<close>

text \<open>What may follow a prefix: nothing, or a separator and a path that does not start with one.\<close>

fun clean_suffix :: "string \<Rightarrow> bool" where
  "clean_suffix [] = True"
| "clean_suffix [c] = False"
| "clean_suffix (c # d # s) = (c = CHR ''/'' \<and> d \<noteq> CHR ''/'' \<and> CHR 0x5C \<notin> set (d # s))"

lemma clean_suffix_cases:
  assumes "clean_suffix s"
  obtains "s = []" | d t where "s = CHR ''/'' # d # t" "d \<noteq> CHR ''/''" "CHR 0x5C \<notin> set (d # t)"
  using assms by (cases s rule: clean_suffix.cases) auto

lemma plain_suffix_ordinary:
  assumes "plain_prefix f" and "clean_suffix s"
  shows "ordinary (f @ s)"
  using assms(2)
proof (cases rule: clean_suffix_cases)
  case 1
  then show ?thesis using assms(1) by (simp add: plain_prefix_def)
next
  case (2 d t)
  have f: "ordinary f" "f \<noteq> []" "last f \<noteq> CHR ''/''" using assms(1) by (simp_all add: plain_prefix_def)
  have "take 3 (f @ s) \<noteq> ''//?''"
  proof (cases f rule: rev_cases)
    case (snoc g c)
    show ?thesis
    proof (cases "length f \<ge> 3")
      case True
      then show ?thesis using f(1) by (simp add: ordinary_def)
    next
      case False
      then have "length g = 0 \<or> length g = 1" using snoc by (cases "length g") auto
      then show ?thesis using snoc f(3) 2(1) by (auto simp: length_Suc_conv)
    qed
  qed (use f in simp)
  then show ?thesis using f(1) 2 by (auto simp: ordinary_def)
qed

lemma match_plain_suffix:
  assumes "plain_prefix f" and "clean_suffix s"
  shows "covers (normalize_workspace_path_for_match f) (normalize_workspace_path_for_match (f @ s))"
proof -
  let ?low = "\<lambda>p. if looks_like_windows_path f then map ascii_lower p else p"
  have f: "f \<noteq> []" "last f \<noteq> CHR ''/''" using assms(1) by (simp_all add: plain_prefix_def)
  have base: "normalize_workspace_path_for_match f = ?low f"
    using assms(1) by (simp add: normalize_workspace_path_for_match_def plain_prefix_def ordinary_syntax trim_end_slashes_id Let_def)
  show ?thesis
    using assms(2)
  proof (cases rule: clean_suffix_cases)
    case 1
    then show ?thesis by (simp add: covers_iff)
  next
    case (2 d t)
    have ne: "trim_end_slashes s \<noteq> []" using 2 by (auto simp: trim_end_slashes_def)
    obtain u where u: "trim_end_slashes s = CHR ''/'' # u"
    proof -
      have "trim_end_slashes (''/'' @ (d # t)) = ''/'' @ trim_end_slashes (d # t)"
        by (rule trim_end_append) (use 2 in \<open>auto simp: trim_end_slashes_def\<close>)
      then show ?thesis using that 2(1) by simp
    qed
    have trim: "trim_end_slashes (f @ s) = f @ CHR ''/'' # u" using trim_end_append [OF ne, of f] u by simp
    have win: "looks_like_windows_path (f @ CHR ''/'' # u) = looks_like_windows_path f"
    proof (cases "length f \<ge> 2")
      case True
      then show ?thesis by (simp add: looks_like_windows_path_def nth_append)
    next
      case False
      then obtain c where "f = [c]" using f(1) by (cases f rule: clean_suffix.cases) auto
      then show ?thesis using f(2) by (simp add: looks_like_windows_path_def)
    qed
    have "normalize_workspace_path_for_match (f @ s) = ?low (f @ CHR ''/'' # u)"
      by (simp add: normalize_workspace_path_for_match_def ordinary_syntax [OF plain_suffix_ordinary [OF assms]] trim win Let_def)
    then show ?thesis unfolding base covers_iff by auto
  qed
qed

lemma replace_plain_suffix:
  assumes "plain_prefix f" and "plain_prefix t" and "clean_suffix s"
  shows "replace_prefix (f @ s) f t = Inr (Some (t @ s))"
proof -
  have o: "normalize_path_syntax (f @ s) = f @ s" "normalize_path_syntax f = f"
    using assms plain_suffix_ordinary ordinary_syntax plain_prefix_def by auto
  have t: "CHR 0x5C \<notin> set t" "dropWhile is_slash (rev t) = rev t"
    using assms(2) by (cases t rule: rev_cases; auto simp: plain_prefix_def ordinary_def is_slash_def)+
  have b: "is_char_boundary (f @ s) (length f)"
    using assms(3) by (cases rule: clean_suffix_cases) (auto simp: is_char_boundary_def)
  have "map (\<lambda>c. if is_slash c then CHR ''/'' else c) (dropWhile is_slash s) = drop 1 s"
    using assms(3)
  proof (cases rule: clean_suffix_cases)
    case (2 d u)
    have "map (\<lambda>c. if is_slash c then CHR ''/'' else c) v = v" if "CHR 0x5C \<notin> set v" for v
      using that by (induction v) (auto simp: is_slash_def)
    then show ?thesis using 2 by (auto simp: is_slash_def)
  qed simp
  then have suffix: "map (\<lambda>c. if is_slash c then CHR ''/'' else c) (dropWhile is_slash (drop (length f) (f @ s))) = drop 1 s"
    by simp
  have sep: "(if CHR 0x5C \<in> set t \<and> CHR ''/'' \<notin> set t then CHR 0x5C else CHR ''/'') = CHR ''/''"
    using t(1) by simp
  have len: "min (length f) (length (f @ s)) = length f" by simp
  have tail: "(if drop 1 s = [] then t else rev (dropWhile is_slash (rev t)) @ [CHR ''/''] @ drop 1 s) = t @ s"
    using assms(3) by (cases rule: clean_suffix_cases) (simp_all add: t(2))
  have "covers (normalize_workspace_path_for_match f) (normalize_workspace_path_for_match (f @ s))"
    by (rule match_plain_suffix [OF assms(1,3)])
  then show ?thesis
    unfolding replace_prefix_def Let_def o len sep suffix tail using b by simp
qed

text \<open>No prefix of one side lies below another one.\<close>

definition separate :: "path_mapper \<Rightarrow> bool" where
  "separate ms = list_all (\<lambda>m. list_all (\<lambda>n. m = n \<or>
     \<not> covers (normalize_workspace_path_for_match (remote_prefix m)) (normalize_workspace_path_for_match (remote_prefix n))
     \<and> \<not> covers (normalize_workspace_path_for_match (local_prefix m)) (normalize_workspace_path_for_match (local_prefix n))) ms) ms"

lemma separate_side:
  assumes "separate ms" "m \<in> set ms" "n \<in> set ms" "m \<noteq> n"
  shows "\<not> covers (normalize_workspace_path_for_match (side d m)) (normalize_workspace_path_for_match (side d n))"
  using assms by (auto simp: separate_def list_all_iff side_def)

lemma map_plain_path:
  assumes "new_mapper raw = Inr ms" and "verbatim_free ms" and "separate ms" and "m \<in> set ms" and "clean_suffix s"
  shows "map_path ms (side d m @ s) d = Inr (Some (side (\<not> d) m @ s))"
proof -
  let ?p = "side d m @ s"
  note plain = new_mapper_plain [OF assms(1,2)]
  have here: "candidate ?p d m = Inr (Some (rank d m, side (\<not> d) m @ s))"
    by (simp add: candidate_def replace_plain_suffix [OF plain [OF assms(4)] plain [OF assms(4)] assms(5)])
  have other: "candidate ?p d n = Inr None" if n: "n \<in> set ms" "n \<noteq> m" for n
  proof -
    have "\<not> covers (normalize_workspace_path_for_match (side d n)) (normalize_workspace_path_for_match ?p)"
      using covers_linear [OF match_plain_suffix [OF plain [OF assms(4)] assms(5)]]
        separate_side [OF assms(3) n(1) assms(4) n(2)] separate_side [OF assms(3) assms(4) n(1)] n(2) by metis
    moreover have "normalize_path_syntax (side d n) = side d n" "normalize_path_syntax ?p = ?p"
      using plain [OF n(1)] plain_suffix_ordinary [OF plain [OF assms(4)] assms(5)]
      by (auto simp: plain_prefix_def ordinary_syntax)
    ultimately show ?thesis by (simp add: candidate_def replace_prefix_def Let_def)
  qed
  have res: "map_res (candidate ?p d) xs = Inr (map (\<lambda>n. if n = m then Some (rank d m, side (\<not> d) m @ s) else None) xs)"
    if "set xs \<subseteq> set ms" for xs
    using that by (induction xs) (auto simp: here other)
  define cs where "cs = map (\<lambda>n. if n = m then Some (rank d m, side (\<not> d) m @ s) else None) ms"
  have "Some (rank d m, side (\<not> d) m @ s) \<in> set cs" using assms(4) by (force simp: cs_def)
  then obtain x where x: "max_by_rank cs None = Some x" using max_by_rank_None [of cs] by auto
  then have "x = (rank d m, side (\<not> d) m @ s)"
    using max_by_rank_Some(1) [OF x] by (auto simp: cs_def split: if_splits)
  then show ?thesis using res [of ms] x by (simp add: map_path_def cs_def)
qed

text \<open>Another spelling of a prefix and what follows it: the syntax is normalized, the letters may differ in
  case where the prefix is a Windows path, and more separators may follow the prefix.\<close>

definition respelled :: "string \<Rightarrow> string \<Rightarrow> string \<Rightarrow> bool" where
  "respelled pre s path \<longleftrightarrow> (\<exists>f k. normalize_path_syntax path = f @ replicate k (CHR ''/'') @ drop 1 s
     \<and> (if looks_like_windows_path pre then map ascii_lower f = map ascii_lower pre else f = pre)
     \<and> (s \<noteq> [] \<longrightarrow> 0 < k))"

lemma ascii_lower_letter: "ascii_lower c \<noteq> c \<Longrightarrow> 97 \<le> (of_char (ascii_lower c) :: nat)"
  by (auto simp: ascii_lower_def Let_def split: if_splits)

lemma ascii_lower_idem_sep: "ascii_lower c = CHR ''/'' \<longleftrightarrow> c = CHR ''/''" "ascii_lower c = CHR '':'' \<longleftrightarrow> c = CHR '':''"
proof -
  have "ascii_lower (CHR '':'') = CHR '':''" by (simp add: ascii_lower_def)
  then show "ascii_lower c = CHR ''/'' \<longleftrightarrow> c = CHR ''/''" "ascii_lower c = CHR '':'' \<longleftrightarrow> c = CHR '':''"
    using ascii_lower_letter [of c] by (cases "ascii_lower c = c"; auto)+
qed

lemma windows_lower: "looks_like_windows_path (map ascii_lower p) = looks_like_windows_path p"
proof -
  have "take 2 (map ascii_lower p) = ''//'' \<longleftrightarrow> take 2 p = ''//''"
    by (cases p rule: clean_suffix.cases) (auto simp: ascii_lower_idem_sep)
  then show ?thesis by (auto simp: looks_like_windows_path_def ascii_lower_idem_sep)
qed

lemma windows_prefix:
  assumes "f \<noteq> []" "last f \<noteq> CHR ''/''" "r = [] \<or> hd r = CHR ''/''"
  shows "looks_like_windows_path (f @ r) = looks_like_windows_path f"
proof (cases f rule: clean_suffix.cases)
  case (2 c)
  then show ?thesis using assms by (cases r) (auto simp: looks_like_windows_path_def)
qed (use assms in \<open>simp_all add: looks_like_windows_path_def\<close>)

lemma covers_respelled:
  assumes f: "plain_prefix f"
    and cov: "covers (normalize_workspace_path_for_match f) (normalize_workspace_path_for_match n)"
    and n: "normalize_path_syntax n = n"
  obtains g r where "n = g @ r" "length g = length f" "r = [] \<or> hd r = CHR ''/''"
    "if looks_like_windows_path f then map ascii_lower g = map ascii_lower f else g = f"
proof -
  let ?low = "\<lambda>p. if looks_like_windows_path p then map ascii_lower p else p"
  define m where "m = trim_end_slashes n"
  have base: "f \<noteq> []" "last f \<noteq> CHR ''/''" "normalize_workspace_path_for_match f = ?low f"
    using f by (simp_all add: plain_prefix_def normalize_workspace_path_for_match_def ordinary_syntax trim_end_slashes_id Let_def)
  have "normalize_workspace_path_for_match n = ?low m"
    by (simp add: normalize_workspace_path_for_match_def n m_def Let_def)
  with cov obtain r where r: "?low m = ?low f @ r" "r = [] \<or> hd r = CHR ''/''"
    unfolding base(3) covers_iff by (metis append_Nil2 list.sel(1))
  have "last (?low f) \<noteq> CHR ''/''" using base by (simp add: last_map ascii_lower_idem_sep)
  then have "looks_like_windows_path (?low m) = looks_like_windows_path (?low f)"
    using windows_prefix [of "?low f" r] r base(1) by simp
  then have win: "looks_like_windows_path m = looks_like_windows_path f" by (simp add: windows_lower split: if_splits)
  have g: "if looks_like_windows_path f then map ascii_lower (take (length f) m) = map ascii_lower f
      else take (length f) m = f"
    using r(1) win by (auto simp flip: take_map)
  have d: "length f \<le> length m" using arg_cong [OF r(1), of length] by (simp split: if_splits)
  have "map ascii_lower (drop (length f) m) = r \<or> drop (length f) m = r"
    using r(1) win by (auto simp flip: drop_map)
  then have rest: "drop (length f) m = [] \<or> hd (drop (length f) m) = CHR ''/''"
    using r(2) by (cases "drop (length f) m") (auto simp: ascii_lower_idem_sep)
  have "set (drop (length m) n) \<subseteq> {CHR ''/''}" and mn: "n = m @ drop (length m) n"
  proof -
    have "rev n = takeWhile (\<lambda>c. c = CHR ''/'') (rev n) @ rev m" by (simp add: m_def trim_end_slashes_def)
    then have "n = m @ rev (takeWhile (\<lambda>c. c = CHR ''/'') (rev n))" by (metis rev_append rev_rev_ident)
    moreover have "set (takeWhile (\<lambda>c. c = CHR ''/'') (rev n)) \<subseteq> {CHR ''/''}" by (auto dest: set_takeWhileD)
    ultimately show "set (drop (length m) n) \<subseteq> {CHR ''/''}" "n = m @ drop (length m) n"
      by (metis append_eq_conv_conj set_rev)+
  qed
  then have "drop (length f) m @ drop (length m) n = [] \<or> hd (drop (length f) m @ drop (length m) n) = CHR ''/''"
    using rest by (cases "drop (length f) m"; cases "drop (length m) n") auto
  moreover have "n = take (length f) m @ drop (length f) m @ drop (length m) n" using mn by (metis append.assoc append_take_drop_id)
  ultimately show thesis using that [OF _ _ _ g] d by simp
qed

lemma leading_slashes: "\<exists>k. s = replicate k (CHR ''/'') @ dropWhile (\<lambda>c. c = CHR ''/'') s \<and> (k = 0 \<longleftrightarrow> s = [] \<or> hd s \<noteq> CHR ''/'')"
proof (induction s)
  case (Cons c s)
  then show ?case by (cases "c = CHR ''/''") (auto intro: exI [of _ "Suc _"] exI [of _ 0])
qed simp

text \<open>What a rule makes of a path: the other prefix, and a clean suffix.\<close>

lemma replace_prefix_respelled:
  assumes f: "plain_prefix f" and t: "plain_prefix t" and run: "replace_prefix path f t = Inr (Some q)"
    and settled: "normalize_path_syntax (normalize_path_syntax path) = normalize_path_syntax path"
  shows "\<exists>s. clean_suffix s \<and> q = t @ s \<and> respelled f s path"
proof -
  define n where "n = normalize_path_syntax path"
  have syn: "normalize_path_syntax f = f" "normalize_path_syntax n = n"
    using f settled by (auto simp: plain_prefix_def ordinary_syntax n_def)
  have "covers (normalize_workspace_path_for_match f) (normalize_workspace_path_for_match n)"
    using run by (auto simp: replace_prefix_def Let_def syn simp flip: n_def split: if_splits)
  from covers_respelled [OF f this syn(2)] obtain g r where g: "n = g @ r" "length g = length f" "r = [] \<or> hd r = CHR ''/''"
    "if looks_like_windows_path f then map ascii_lower g = map ascii_lower f else g = f" .
  have nb: "CHR 0x5C \<notin> set n" by (simp add: n_def syntax_no_backslash)
  then have slash: "dropWhile is_slash r = dropWhile (\<lambda>c. c = CHR ''/'') r"
    using g(1) by (intro dropWhile_cong) (auto simp: is_slash_def)
  define x where "x = dropWhile (\<lambda>c. c = CHR ''/'') r"
  have nx: "CHR 0x5C \<notin> set x" using nb g(1) by (auto simp: x_def dest: set_dropWhileD)
  then have same: "map (\<lambda>c. if is_slash c then CHR ''/'' else c) x = x" by (induction x) (auto simp: is_slash_def)
  have tt: "CHR 0x5C \<notin> set t" "dropWhile is_slash (rev t) = rev t"
    using t by (cases t rule: rev_cases; auto simp: plain_prefix_def ordinary_def is_slash_def)+
  have q: "q = (if x = [] then t else t @ CHR ''/'' # x)"
    using run g(1,2) tt by (auto simp: replace_prefix_def Let_def syn slash same simp flip: n_def x_def split: if_splits)
  define s where "s = (if x = [] then [] else CHR ''/'' # x)"
  obtain k where k: "r = replicate k (CHR ''/'') @ x" "k = 0 \<longleftrightarrow> r = [] \<or> hd r \<noteq> CHR ''/''"
    using leading_slashes [of r] by (auto simp: x_def)
  have "clean_suffix s"
  proof (cases x)
    case (Cons d u)
    have "d \<noteq> CHR ''/''" using hd_dropWhile [of "\<lambda>c. c = CHR ''/''" r] Cons by (metis x_def list.distinct(1) list.sel(1))
    then show ?thesis using Cons nx by (simp add: s_def)
  qed (simp add: s_def)
  moreover have "respelled f s path"
  proof -
    have "n = g @ replicate k (CHR ''/'') @ drop 1 s" using g(1) k(1) by (simp add: s_def)
    moreover have "0 < k" if "s \<noteq> []" using that k(2) g(3) by (cases "k = 0") (auto simp: s_def x_def)
    ultimately show ?thesis using g(4) unfolding respelled_def n_def [symmetric] by blast
  qed
  ultimately show ?thesis using q by (auto simp: s_def)
qed

lemma map_path_respelled:
  assumes "new_mapper raw = Inr ms" and "verbatim_free ms" and "map_path ms path d = Inr (Some q)"
    and "normalize_path_syntax (normalize_path_syntax path) = normalize_path_syntax path"
  shows "\<exists>m \<in> set ms. \<exists>s. clean_suffix s \<and> q = side (\<not> d) m @ s \<and> respelled (side d m) s path"
proof -
  obtain cs x where cs: "map_res (candidate path d) ms = Inr cs" and x: "max_by_rank cs None = Some x" "q = snd x"
    using assms(3) by (auto simp: map_path_def bindr_eq_Inr_iff)
  from max_by_rank_Some(1) [OF x(1)] map_res_elems [OF cs] obtain m where m: "m \<in> set ms" "candidate path d m = Inr (Some x)"
    by auto
  then have run: "replace_prefix path (side d m) (side (\<not> d) m) = Inr (Some q)"
    using x(2) by (auto simp: candidate_def bindr_eq_Inr_iff)
  note plain = new_mapper_plain [OF assms(1,2) m(1)]
  from replace_prefix_respelled [OF plain plain run assms(4)] m(1) show ?thesis by blast
qed

lemma map_path_back:
  assumes "new_mapper raw = Inr ms" and "verbatim_free ms" and "separate ms" and "map_path ms path d = Inr (Some q)"
    and "normalize_path_syntax (normalize_path_syntax path) = normalize_path_syntax path"
  shows "\<exists>m \<in> set ms. \<exists>s. clean_suffix s \<and> q = side (\<not> d) m @ s \<and> respelled (side d m) s path
    \<and> map_path ms q (\<not> d) = Inr (Some (side d m @ s))"
  using map_path_respelled [OF assms(1,2,4,5)] map_plain_path [OF assms(1-3), of _ _ "\<not> d"] by fastforce

text \<open>C35: Mapping a path to this machine and back, and mapping one to the other machine and back, for an accepted
  mapper in which no prefix starts with \<open>//?\<close> and no prefix lies below another of its side. The exact
  spelling of a prefix followed by nothing, or by a separator and a rest that has no backslash and does not
  start with a separator, comes back as it was. Any other path that a rule maps, unless its syntax is
  of a nested verbatim form, is a respelling of such a path (backslashes, one verbatim form, the case of a Windows
  prefix, more separators after the prefix), and it comes back as that path, in the spelling of the rule.\<close>

theorem mapper_round_trip:
  assumes "new_mapper raw = Inr ms" and "verbatim_free ms" and "separate ms"
  shows "(m \<in> set ms \<and> clean_suffix s \<longrightarrow>
        remote_to_local ms (remote_prefix m @ s) = Inr (Some (local_prefix m @ s))
        \<and> local_to_remote ms (local_prefix m @ s) = Inr (Some (remote_prefix m @ s)))
    \<and> (normalize_path_syntax (normalize_path_syntax path) = normalize_path_syntax path \<longrightarrow>
        (remote_to_local ms path = Inr (Some q) \<longrightarrow> (\<exists>m \<in> set ms. \<exists>s. clean_suffix s \<and> q = local_prefix m @ s
           \<and> respelled (remote_prefix m) s path \<and> local_to_remote ms q = Inr (Some (remote_prefix m @ s))))
        \<and> (local_to_remote ms path = Inr (Some q) \<longrightarrow> (\<exists>m \<in> set ms. \<exists>s. clean_suffix s \<and> q = remote_prefix m @ s
           \<and> respelled (local_prefix m) s path \<and> remote_to_local ms q = Inr (Some (local_prefix m @ s)))))"
proof -
  have exact: "map_path ms (side d m @ s) d = Inr (Some (side (\<not> d) m @ s))" if "m \<in> set ms \<and> clean_suffix s" for d
    using map_plain_path [OF assms] that by blast
  show ?thesis
    using exact [of True] exact [of False] map_path_back [OF assms, of path True q] map_path_back [OF assms, of path False q]
    unfolding remote_to_local_def local_to_remote_def side_def by (intro conjI impI) simp_all
qed

text \<open>An accepted mapper with a prefix below another of its side does not map back; and a path in a
  doubly verbatim form makes a matching rule slice inside a character.\<close>

definition nested_mapper :: path_mapper where
  "nested_mapper = [\<lparr>remote_prefix = ''/r'', local_prefix = ''/l''\<rparr>, \<lparr>remote_prefix = ''/q'', local_prefix = ''/l/sub''\<rparr>]"

lemma nested_targets_not_inverse:
  "new_mapper nested_mapper = Inr nested_mapper
    \<and> remote_to_local nested_mapper ''/r/sub/x'' = Inr (Some ''/l/sub/x'')
    \<and> local_to_remote nested_mapper ''/l/sub/x'' = Inr (Some ''/q/x'')"
  by code_simp

definition accented_mapper :: path_mapper where
  "accented_mapper = [\<lparr>remote_prefix = ''C:/'' @ [CHR 0xC3, CHR 0xA9] @ ''abc'', local_prefix = ''/l''\<rparr>]"

lemma doubly_verbatim_path_panics:
  "new_mapper accented_mapper = Inr accented_mapper
    \<and> remote_to_local accented_mapper (''//?/UNC/?/C:/'' @ [CHR 0xC3, CHR 0xA9] @ ''abc'') = Inl SlicePanic"
  by code_simp

section \<open>Witnesses\<close>

definition toy_mapper :: path_mapper where
  "toy_mapper = [\<lparr>remote_prefix = ''/home/a'', local_prefix = ''C:/w''\<rparr>, \<lparr>remote_prefix = ''/srv'', local_prefix = ''/mnt/srv''\<rparr>]"

lemma toy_mapper_ok:
  "new_mapper toy_mapper = Inr toy_mapper" "verbatim_free toy_mapper" "separate toy_mapper"
  "settled nested_mapper"
  by code_simp+

theorem mapper_order_irrelevant_witness:
  "map_path (rev nested_mapper) ''/l/sub/x'' False = Inr (Some ''/q/x'')"
  using mapper_order_irrelevant [of nested_mapper nested_mapper "rev nested_mapper" "''/l/sub/x''" False]
    toy_mapper_ok(4) nested_targets_not_inverse by (simp add: local_to_remote_def)

lemma toy_respelled:
  "local_to_remote toy_mapper (''c:'' @ [CHR 0x5C] @ ''W//p/'') = Inr (Some ''/home/a/p/'')"
  "normalize_path_syntax (normalize_path_syntax (''c:'' @ [CHR 0x5C] @ ''W//p/'')) = normalize_path_syntax (''c:'' @ [CHR 0x5C] @ ''W//p/'')"
  by code_simp+

theorem mapper_round_trip_witness:
  "local_to_remote toy_mapper ''C:/w/p'' = Inr (Some ''/home/a/p'')
    \<and> (\<exists>m \<in> set toy_mapper. \<exists>s. ''/home/a/p/'' = remote_prefix m @ s
         \<and> respelled (local_prefix m) s (''c:'' @ [CHR 0x5C] @ ''W//p/'')
         \<and> remote_to_local toy_mapper ''/home/a/p/'' = Inr (Some (local_prefix m @ s)))"
  using mapper_round_trip [OF toy_mapper_ok(1-3), of "\<lparr>remote_prefix = ''/home/a'', local_prefix = ''C:/w''\<rparr>" "''/p''"
      "''c:'' @ [CHR 0x5C] @ ''W//p/''" "''/home/a/p/''"] toy_respelled
  by (simp add: toy_mapper_def)

end
