(* ===== verification/SessionMeta.thy ===== *)
theory SessionMeta
  imports Json
begin


section \<open>The scanner\<close>














definition slice :: "bytes \<Rightarrow> nat \<Rightarrow> nat \<Rightarrow> bytes" where
  "slice input i j = take (j - i) (drop i input)"






section \<open>Rewriting the working directory\<close>







section \<open>The grammar the scanner follows\<close>









section \<open>The scanner finds texts of the grammar\<close>



lemma slice_empty [simp]: "slice input i i = []"
  by (simp add: slice_def)












section \<open>What the rewriting changes\<close>







section \<open>Witness\<close>





end
