(* ===== verification/ConfigFile.thy ===== *)
theory ConfigFile
  imports Disk Snapshots
begin

text \<open>
  The desktop keeps its settings in small JSON documents below \<open>config\<close> of the repository. The stores
  of namespace_mapping.rs, workspace_mapping.rs and remote_config.rs load and save them in the same
  way, modelled here once over the document's format: serde\_json's reader and pretty writer, the
  validation before a save and after a load, and the size limit. The contract of such a store is a
  locale; a Hoare logic for file-system calls gives what a save leaves when it fails.
\<close>

section \<open>Triples for file-system calls\<close>

text \<open>\<open>io_triple P m Q J\<close>: from a volume with \<open>P\<close> the operation leaves \<open>Q\<close> with its result, or
  \<open>J\<close> when it fails.\<close>

definition io_triple :: "(volume \<Rightarrow> bool) \<Rightarrow> 'a io \<Rightarrow> ('a \<Rightarrow> volume \<Rightarrow> bool) \<Rightarrow> (volume \<Rightarrow> bool) \<Rightarrow> bool" where
  "io_triple P m Q J \<longleftrightarrow> (\<forall>F d. P (volume_of d) \<longrightarrow> (case m F d of
     (Inr a, d') \<Rightarrow> Q a (volume_of d') | (Inl e, d') \<Rightarrow> J (volume_of d')))"

named_theorems io_rules \<open>triples of file-system calls\<close>

lemma io_tripleD:
  fixes d :: disk
  assumes "io_triple P m Q J" and "P (volume_of d)"
  shows "m F d = (Inr a, d') \<Longrightarrow> Q a (volume_of d')" and "m F d = (Inl e, d') \<Longrightarrow> J (volume_of d')"
proof -
  have "case m F d of (Inr a, d') \<Rightarrow> Q a (volume_of d') | (Inl e, d') \<Rightarrow> J (volume_of d')"
    using assms(2) assms(1) [unfolded io_triple_def, THEN spec [of _ F], THEN spec [of _ d]] by (rule rev_mp)
  then show "m F d = (Inr a, d') \<Longrightarrow> Q a (volume_of d')" "m F d = (Inl e, d') \<Longrightarrow> J (volume_of d')" by auto
qed

lemma io_bind:
  assumes "io_triple P m R J" and "\<And>a. io_triple (R a) (f a) Q J"
  shows "io_triple P (bind_io m f) Q J"
  unfolding io_triple_def
proof (intro allI impI)
  fix F :: faults and d :: disk
  assume p: "P (volume_of d)"
  obtain r d1 where run: "m F d = (r, d1)" by fastforce
  show "case bind_io m f F d of (Inr a, d') \<Rightarrow> Q a (volume_of d') | (Inl e, d') \<Rightarrow> J (volume_of d')"
  proof (cases r)
    case (Inl e)
    then show ?thesis using io_tripleD(2) [OF assms(1) p] run by (simp add: bind_io_def)
  next
    case (Inr a)
    have "R a (volume_of d1)" using io_tripleD(1) [OF assms(1) p] run Inr by blast
    then show ?thesis using assms(2) [of a] run Inr by (simp add: bind_io_def io_triple_def)
  qed
qed

lemma io_conseq:
  "io_triple P' m Q' J' \<Longrightarrow> (\<And>v. P v \<Longrightarrow> P' v) \<Longrightarrow> (\<And>a v. Q' a v \<Longrightarrow> Q a v) \<Longrightarrow> (\<And>v. J' v \<Longrightarrow> J v) \<Longrightarrow> io_triple P m Q J"
  unfolding io_triple_def by (fastforce split: prod.splits sum.splits)

lemma io_lift: "(\<And>v a. P v \<Longrightarrow> r = Inr a \<Longrightarrow> Q a v) \<Longrightarrow> (\<And>v. P v \<Longrightarrow> J v) \<Longrightarrow> io_triple P (lift_res r) Q J"
  by (auto simp: io_triple_def lift_res_def split: sum.split)

lemma io_ask: "(\<And>v. P v \<Longrightarrow> Q v) \<Longrightarrow> io_triple P (ask_io f) (\<lambda>_. Q) J"
  by (simp add: io_triple_def ask_io_def)

lemma io_read: "(\<And>v a. P v \<Longrightarrow> f v = Inr a \<Longrightarrow> Q a v) \<Longrightarrow> (\<And>v. P v \<Longrightarrow> J v) \<Longrightarrow> io_triple P (read_io f) Q J"
  by (auto simp: io_triple_def read_io_def perform_def bindr_eq_Inr_iff bindr_eq_Inl_iff split: option.splits sum.splits prod.splits)

lemma io_atomic:
  "(\<And>v v'. P v \<Longrightarrow> op v = Inr v' \<Longrightarrow> Q v') \<Longrightarrow> (\<And>v. P v \<Longrightarrow> J v) \<Longrightarrow> io_triple P (atomic_io op) (\<lambda>_. Q) J"
  by (auto simp: io_triple_def atomic_io_def perform_def bindr_eq_Inr_iff bindr_eq_Inl_iff split: option.splits sum.splits prod.splits)

lemma io_write:
  assumes "\<And>v c v'. P v \<Longrightarrow> fs_write p c v = Inr v' \<Longrightarrow> J v' \<and> (c = b \<longrightarrow> Q v')" and "\<And>v. P v \<Longrightarrow> J v"
  shows "io_triple P (write_io p b) (\<lambda>_. Q) J"
  using assms by (auto simp: io_triple_def write_io_def perform_def bindr_eq_Inr_iff bindr_eq_Inl_iff
      split: option.splits sum.splits prod.splits)

lemma io_create_dirs:
  assumes "\<And>v n v'. P v \<Longrightarrow> fs_create_dir_all (take n p) v = Inr v' \<Longrightarrow> P v'" and "\<And>v. P v \<Longrightarrow> J v"
  shows "io_triple P (create_dir_all_io p) (\<lambda>_. P) J"
proof -
  have full: "fs_create_dir_all p v = Inr v' \<Longrightarrow> P v \<Longrightarrow> P v'" for v v'
    using assms(1) [of v "length p" v'] by simp
  have part: "J (case fs_create_dir_all (take n p) v of Inl e \<Rightarrow> v | Inr v' \<Rightarrow> v')" if "P v" for n v
    using assms that by (cases "fs_create_dir_all (take n p) v") auto
  have op: "case bindr (fs_create_dir_all p v) (\<lambda>v'. Inr ((), v')) of Inl e \<Rightarrow> True | Inr (a, v') \<Rightarrow> P v'"
    if "P v" for v
    using full that by (cases "fs_create_dir_all p v") auto
  show ?thesis
    unfolding io_triple_def create_dir_all_io_def perform_def
    using part op assms(2) by (fastforce split: option.splits sum.splits prod.splits)
qed

lemma io_catch:
  assumes "io_triple P m Q R" and "\<And>e. io_triple R (h e) Q J"
  shows "io_triple P (catch_io m h) Q J"
  unfolding io_triple_def
proof (intro allI impI)
  fix F :: faults and d :: disk
  assume p: "P (volume_of d)"
  obtain r d1 where run: "m F d = (r, d1)" by fastforce
  show "case catch_io m h F d of (Inr a, d') \<Rightarrow> Q a (volume_of d') | (Inl e, d') \<Rightarrow> J (volume_of d')"
  proof (cases r)
    case (Inr a)
    then show ?thesis using io_tripleD(1) [OF assms(1) p] run by (simp add: catch_io_def)
  next
    case (Inl e)
    have "R (volume_of d1)" using io_tripleD(2) [OF assms(1) p] run Inl by blast
    then show ?thesis using assms(2) [of e] run Inl by (simp add: catch_io_def io_triple_def)
  qed
qed

section \<open>Documents\<close>

record 'f document_format =
  doc_path :: path
  doc_prefix :: string
  doc_limit :: "u64 option"
  encode_doc :: "'f \<Rightarrow> bytes"
  decode_doc :: "bytes \<Rightarrow> string + 'f"
  default_doc :: 'f
  check_save :: "'f \<Rightarrow> string + unit"
  check_load :: "'f \<Rightarrow> string + unit"

text \<open>\<open>File::open\<close> distinguishes a path that does not exist; below a file it fails otherwise.\<close>

definition open_document :: "path \<Rightarrow> bool io" where
  "open_document p = read_io (\<lambda>v.
     if list_ex (\<lambda>n. file_at v (take n p) \<noteq> None) [0..<length p] then Inl ''Not a directory''
     else Inr (exists_at v p))"

definition load_document :: "'f document_format \<Rightarrow> 'f io" where
  "load_document X = bind_io (open_document (doc_path X)) (\<lambda>found.
     if \<not> found then return_io (default_doc X)
     else bind_io (case doc_limit X of None \<Rightarrow> return_io ()
                   | Some limit \<Rightarrow> bind_io (read_io (\<lambda>v. Inr (case file_at v (doc_path X) of None \<Rightarrow> 0 | Some b \<Rightarrow> length b)))
                       (\<lambda>len. lift_res (ensure (len \<le> unat limit) ''file exceeds the byte safety limit''))) (\<lambda>_.
     bind_io (read_io (\<lambda>v. ok_or ''Is a directory'' (file_at v (doc_path X)))) (\<lambda>b.
     bind_io (lift_res (decode_doc X b)) (\<lambda>f.
     bind_io (lift_res (check_load X f)) (\<lambda>_. return_io f)))))"

definition temporary_of :: "'f document_format \<Rightarrow> string \<Rightarrow> path" where
  "temporary_of X u = butlast (doc_path X) @ [doc_prefix X @ u @ ''.tmp'']"

definition exists_quietly :: "path \<Rightarrow> bool io" where
  "exists_quietly p = catch_io (read_io (\<lambda>v. Inr (exists_at v p))) (\<lambda>_. return_io False)"

definition save_document :: "'f document_format \<Rightarrow> (nat \<Rightarrow> string) \<Rightarrow> 'f \<Rightarrow> unit io" where
  "save_document X fresh f = bind_io (lift_res (check_save X f)) (\<lambda>_.
     bind_io (create_dir_all_io (butlast (doc_path X))) (\<lambda>_.
     bind_io (ask_io fresh) (\<lambda>u. let temporary = temporary_of X u in
     bind_io (atomic_io (fs_create_new temporary)) (\<lambda>_.
     bind_io (write_io temporary (encode_doc X f)) (\<lambda>_.
     bind_io (read_io (\<lambda>v. Inr ())) (\<lambda>_.
     bind_io (exists_quietly (doc_path X)) (\<lambda>present.
     bind_io (if present then atomic_io (fs_remove_file (doc_path X)) else return_io ()) (\<lambda>_.
     atomic_io (fs_rename temporary (doc_path X))))))))))"

text \<open>A document is absent or the writing of a value that passed the validation before its save.\<close>

definition document_ok :: "'f document_format \<Rightarrow> volume \<Rightarrow> bool" where
  "document_ok X v \<longleftrightarrow> entry_at v (doc_path X) = None
     \<or> (\<exists>f. entry_at v (doc_path X) = Some (FileEntry (encode_doc X f)) \<and> check_save X f = Inr ())"

lemma keeps_option_case: "keeps I m \<Longrightarrow> (\<And>x. keeps I (n x)) \<Longrightarrow> keeps I (case c of None \<Rightarrow> m | Some x \<Rightarrow> n x)"
  by (cases c) auto

lemma keeps_open_document [keeps_rules]: "keeps I (open_document p)"
  unfolding open_document_def by (rule keeps_read)

lemma keeps_load [keeps_rules]: "keeps I (load_document X)"
  unfolding load_document_def by (intro keeps_rules keeps_option_case)

section \<open>The contract of a document store\<close>

locale document_store =
  fixes X :: "'f document_format"
  assumes path_ne: "doc_path X \<noteq> []"
    and temporary_apart: "doc_prefix X @ u @ ''.tmp'' \<noteq> last (doc_path X)"
begin

lemma temporary_ne: "temporary_of X u \<noteq> doc_path X"
  using temporary_apart [of u] by (metis last_snoc temporary_of_def)

lemma temporary_same_length: "length (temporary_of X u) = length (doc_path X)"
  using path_ne by (simp add: temporary_of_def)

lemma temporary_not_under: "\<not> under (doc_path X) (temporary_of X u)" "\<not> under (temporary_of X u) (doc_path X)"
  using temporary_ne [of u] temporary_same_length [of u] by (auto simp: under_def)

lemma create_dirs_document:
  assumes "fs_create_dir_all (take n (butlast (doc_path X))) v = Inr v'"
  shows "entry_at v' (doc_path X) = entry_at v (doc_path X)"
proof -
  have "length (take n (butlast (doc_path X))) < length (doc_path X)"
    using path_ne by (cases "doc_path X" rule: rev_cases) auto
  then have "\<not> under (doc_path X) (take n (butlast (doc_path X)))"
    unfolding under_def by (metis length_take less_irrefl min.absorb4 take_all_iff nat_le_linear not_less)
  then show ?thesis using fs_create_dir_all_entry [OF assms, of "doc_path X"] by blast
qed

text \<open>A save that fails leaves the document as it was, or no document; never a part of one.\<close>

lemma save_triple:
  "io_triple (\<lambda>v. entry_at v (doc_path X) = old) (save_document X fresh f)
     (\<lambda>_ v. entry_at v (doc_path X) = Some (FileEntry (encode_doc X f)))
     (\<lambda>v. entry_at v (doc_path X) = old \<or> entry_at v (doc_path X) = None)"
  (is "io_triple ?P _ ?Q ?J")
proof -
  let ?W = "\<lambda>u v. entry_at v (doc_path X) = old \<and> entry_at v (temporary_of X u) = Some (FileEntry (encode_doc X f))"
  let ?R = "\<lambda>u v. (entry_at v (doc_path X) = old \<or> entry_at v (doc_path X) = None)
    \<and> entry_at v (temporary_of X u) = Some (FileEntry (encode_doc X f))"
  note ne = temporary_ne
  have rename: "io_triple (?R u) (atomic_io (fs_rename (temporary_of X u) (doc_path X))) (\<lambda>_. \<lambda>v. ?Q () v) ?J" for u
    by (rule io_atomic) (auto simp: fs_rename_entry [OF _ ne temporary_not_under(1)] temporary_same_length)
  have remove: "io_triple (?W u) (if b then atomic_io (fs_remove_file (doc_path X)) else return_io ()) (\<lambda>_. ?R u) ?J" for u b
    using ne [of u] by (cases b) (auto intro!: io_atomic io_lift simp: fs_remove_file_entry)
  have present: "io_triple (?W u) (exists_quietly (doc_path X)) (\<lambda>_. ?W u) ?J" for u
    unfolding exists_quietly_def by (rule io_catch [of _ _ _ "?W u"]) (auto intro!: io_read io_lift)
  have wr: "io_triple ?P (write_io (temporary_of X u) (encode_doc X f)) (\<lambda>_. ?W u) ?J" for u
    using ne [of u] by (intro io_write) (auto simp: fs_write_entry)
  have create: "io_triple ?P (atomic_io (fs_create_new (temporary_of X u))) (\<lambda>_. ?P) ?J" for u
    using ne [of u] by (intro io_atomic) (auto simp: fs_create_new_entry)
  have dirs: "io_triple ?P (create_dir_all_io (butlast (doc_path X))) (\<lambda>_. ?P) ?J"
    by (rule io_create_dirs) (auto simp: create_dirs_document)
  have sync: "io_triple (?W u) (read_io (\<lambda>v. Inr ())) (\<lambda>_. ?W u) ?J" for u by (rule io_read) auto
  show ?thesis
    unfolding save_document_def Let_def
    by (intro io_bind [OF io_lift [of ?P "check_save X f" "\<lambda>_. ?P"]] io_bind [OF dirs]
        io_bind [OF io_ask [of ?P ?P]] io_bind [OF create] io_bind [OF wr] io_bind [OF sync] io_bind [OF present]
        io_bind [OF remove] rename) auto
qed

lemma save_saves:
  assumes "save_document X fresh f F d = (Inr (), d')"
  shows "file_at (volume_of d') (doc_path X) = Some (encode_doc X f)" and "check_save X f = Inr ()"
proof -
  show "file_at (volume_of d') (doc_path X) = Some (encode_doc X f)"
    using io_tripleD(1) [OF save_triple [of "entry_at (volume_of d) (doc_path X)"] refl assms] by (simp add: file_at_def)
  show "check_save X f = Inr ()"
    using assms by (auto simp: save_document_def bind_io_Inr lift_res_run)
qed

lemma save_fails:
  assumes "save_document X fresh f F d = (Inl e, d')"
  shows "file_at (volume_of d') (doc_path X) = file_at (volume_of d) (doc_path X) \<or> entry_at (volume_of d') (doc_path X) = None"
  using io_tripleD(2) [OF save_triple [of "entry_at (volume_of d) (doc_path X)"] refl assms] by (auto simp: file_at_def)

lemma save_keeps: "keeps (document_ok X) (save_document X fresh f)"
  unfolding keeps_def
proof (intro allI impI)
  fix F :: faults and d :: disk
  assume ok: "document_ok X (volume_of d)"
  obtain r d' where run: "save_document X fresh f F d = (r, d')" by fastforce
  show "document_ok X (volume_of (snd (save_document X fresh f F d)))"
  proof (cases r)
    case (Inl e)
    from io_tripleD(2) [OF save_triple [of "entry_at (volume_of d) (doc_path X)"] refl run [unfolded Inl]]
    show ?thesis using ok run by (auto simp: document_ok_def)
  next
    case (Inr u)
    then have run': "save_document X fresh f F d = (Inr (), d')" using run by simp
    from io_tripleD(1) [OF save_triple [of "entry_at (volume_of d) (doc_path X)"] refl run']
    show ?thesis using save_saves(2) [OF run'] run by (auto simp: document_ok_def)
  qed
qed

text \<open>What a load returns.\<close>

lemma load_cases:
  assumes "load_document X F d = (Inr f, d')"
  shows "volume_of d' = volume_of d
    \<and> (\<not> exists_at (volume_of d) (doc_path X) \<and> f = default_doc X
      \<or> (\<exists>b. file_at (volume_of d) (doc_path X) = Some b \<and> decode_doc X b = Inr f \<and> check_load X f = Inr ()
          \<and> (\<forall>limit. doc_limit X = Some limit \<longrightarrow> length b \<le> unat limit)))"
proof -
  from assms obtain found d1 where o: "open_document (doc_path X) F d = (Inr found, d1)"
    and rest: "(if \<not> found then return_io (default_doc X)
     else bind_io (case doc_limit X of None \<Rightarrow> return_io ()
                   | Some limit \<Rightarrow> bind_io (read_io (\<lambda>v. Inr (case file_at v (doc_path X) of None \<Rightarrow> 0 | Some b \<Rightarrow> length b)))
                       (\<lambda>len. lift_res (ensure (len \<le> unat limit) ''file exceeds the byte safety limit''))) (\<lambda>_.
     bind_io (read_io (\<lambda>v. ok_or ''Is a directory'' (file_at v (doc_path X)))) (\<lambda>b.
     bind_io (lift_res (decode_doc X b)) (\<lambda>f.
     bind_io (lift_res (check_load X f)) (\<lambda>_. return_io f))))) F d1 = (Inr f, d')"
    unfolding load_document_def by (rule bind_io_run)
  from read_io_run [OF o [unfolded open_document_def]]
  have v1: "volume_of d1 = volume_of d" and found: "found = exists_at (volume_of d) (doc_path X)"
    by (auto split: if_splits)
  show ?thesis
  proof (cases found)
    case False
    then show ?thesis using rest found v1 by (simp add: lift_res_run)
  next
    case True
    then obtain d2 b where lim: "(case doc_limit X of None \<Rightarrow> return_io ()
                   | Some limit \<Rightarrow> bind_io (read_io (\<lambda>v. Inr (case file_at v (doc_path X) of None \<Rightarrow> 0 | Some b \<Rightarrow> length b)))
                       (\<lambda>len. lift_res (ensure (len \<le> unat limit) ''file exceeds the byte safety limit''))) F d1 = (Inr (), d2)"
      and rd: "read_io (\<lambda>v. ok_or ''Is a directory'' (file_at v (doc_path X))) F d2 = (Inr b, d')"
      and ok: "decode_doc X b = Inr f" "check_load X f = Inr ()"
      using rest by (auto simp: bind_io_Inr lift_res_run)
    have "volume_of d2 = volume_of d1 \<and> (\<forall>limit. doc_limit X = Some limit \<longrightarrow>
        (case file_at (volume_of d1) (doc_path X) of None \<Rightarrow> 0 | Some b \<Rightarrow> length b) \<le> unat limit)"
      using lim by (cases "doc_limit X") (auto simp: lift_res_run bind_io_Inr dest: read_io_run)
    then show ?thesis using read_io_run [OF rd] v1 ok by auto
  qed
qed

end

section \<open>An interrupted save\<close>

text \<open>The document is removed before the new one takes its name: when the last call of a save fails,
  or the machine stops there, the next load finds no document and returns the default.\<close>

definition toy_format :: "nat document_format" where
  "toy_format = \<lparr>doc_path = [''config'', ''c.json''], doc_prefix = ''.c.write-'', doc_limit = None,
     encode_doc = (\<lambda>n. replicate n (CHR ''x'')), decode_doc = (\<lambda>b. Inr (length b)), default_doc = 0,
     check_save = (\<lambda>_. Inr ()), check_load = (\<lambda>_. Inr ())\<rparr>"

definition toy_config_disk :: disk where
  "toy_config_disk = \<lparr>volume_of = [([''config''], DirEntry), ([''config'', ''c.json''], FileEntry ''x'')], clock = 0\<rparr>"

definition rename_fails :: faults where
  "rename_fails t = (if t = 7 then Some (''interrupted'', 0) else None)"

lemma interrupted_save_forgets:
  "fst (load_document toy_format rename_fails toy_config_disk) = Inr 1
    \<and> fst (save_document toy_format (\<lambda>_. ''u'') 2 rename_fails toy_config_disk) = Inl ''interrupted''
    \<and> fst (load_document toy_format rename_fails (snd (save_document toy_format (\<lambda>_. ''u'') 2 rename_fails toy_config_disk))) = Inr 0"
  by code_simp

end
