(* ===== verification/NamespaceMapping.thy ===== *)
theory NamespaceMapping
  imports ConfigFile Jobs
begin

text \<open>
  apps/desktop/src-tauri/src/namespace_mapping.rs: which namespace of a server a Codex home belongs to.
  Rules match on the fingerprint of the API key, the provider and the home; a manual override wins;
  rules that match equally well and disagree select nothing. The rules and overrides are a
  configuration document. HMAC, the TOML and time parsers, serde and the process environment are
  the parameter \<open>mapping_env\<close>; a parsed TOML document is its strings by key path. Error texts and
  warnings are without their formatted parts.
\<close>

datatype api_key_source = TransientInput | ProviderEnvironment | AuthJson

record detected_identity =
  di_codex_home_key :: string
  di_provider :: "string option"
  di_fingerprint :: "string option"
  di_source :: "api_key_source option"
  di_warnings :: "string list"

record namespace_mapping_rule =
  nmr_id :: uuid
  nmr_remote_id :: uuid
  nmr_namespace_id :: uuid
  nmr_label :: string
  nmr_fingerprint :: "string option"
  nmr_provider :: "string option"
  nmr_codex_home_key :: "string option"
  nmr_created_at :: string
  nmr_updated_at :: string

record manual_namespace_override =
  mno_remote_id :: uuid
  mno_namespace_id :: uuid
  mno_codex_home_key :: string
  mno_updated_at :: string

record namespace_mapping_file =
  nmf_schema_version :: u32
  nmf_mappings :: "namespace_mapping_rule list"
  nmf_overrides :: "manual_namespace_override list"

record mapping_env =
  me_uuid :: "nat \<Rightarrow> uuid"
  me_uuid_text :: "uuid \<Rightarrow> string"
  me_now :: "nat \<Rightarrow> string"
  me_rfc3339 :: "string \<Rightarrow> bool"
  me_encode :: "namespace_mapping_file \<Rightarrow> bytes"
  me_decode :: "bytes \<Rightarrow> string + namespace_mapping_file"
  me_hmac :: "bytes \<Rightarrow> bytes \<Rightarrow> string"
  me_utf8 :: "bytes \<Rightarrow> bool"
  me_toml :: "string \<Rightarrow> (string list \<Rightarrow> string option) option"
  me_json :: "string \<Rightarrow> json option"
  me_environment :: "string \<Rightarrow> string option"

definition MAPPING_SCHEMA_VERSION :: u32 where "MAPPING_SCHEMA_VERSION = 1"
definition MAX_CONFIG_BYTES :: u64 where "MAX_CONFIG_BYTES = 1024 * 1024"
definition MAX_MAPPINGS :: nat where "MAX_MAPPINGS = 512"
definition FINGERPRINT_PREFIX :: string where "FINGERPRINT_PREFIX = ''hmac-sha256:''"

definition FINGERPRINT_CONTEXT :: bytes where
  "FINGERPRINT_CONTEXT = ''codex-session-sync/namespace-mapping/v1'' @ [CHR 0x00]"

definition default_mapping_file :: namespace_mapping_file where
  "default_mapping_file = \<lparr>nmf_schema_version = MAPPING_SCHEMA_VERSION, nmf_mappings = [], nmf_overrides = []\<rparr>"

section \<open>Validation\<close>

definition validate_label :: "string \<Rightarrow> string + string" where
  "validate_label label = (let label = trim label in
     bindr (ensure (\<not> (label = [] \<or> char_count label > 128 \<or> has_control label))
       ''mapping label must contain 1 to 128 non-control characters'') (\<lambda>_. Inr label))"

definition validate_fingerprint :: "string \<Rightarrow> string + string" where
  "validate_fingerprint fingerprint =
     bindr (ok_or ''API-key fingerprint has an unsupported format'' (strip_prefix FINGERPRINT_PREFIX fingerprint)) (\<lambda>digest.
     bindr (ensure (length digest = 64 \<and> list_all is_lower_hex digest)
       ''API-key fingerprint is not canonical HMAC-SHA256'') (\<lambda>_. Inr fingerprint))"

definition validate_path_matcher :: "string \<Rightarrow> string + string" where
  "validate_path_matcher path = bindr (ensure (\<not> (trim path = [] \<or> has_control path)) ''Codex Home matcher is invalid'')
     (\<lambda>_. Inr path)"

definition validate_uuid_v7 :: "uuid \<Rightarrow> string \<Rightarrow> string + unit" where
  "validate_uuid_v7 u field = ensure (uuid_version u = 7) (field @ '' ID must be a UUIDv7'')"

definition validate_timestamp :: "mapping_env \<Rightarrow> string \<Rightarrow> string + unit" where
  "validate_timestamp E t = ensure (me_rfc3339 E t) ''invalid namespace mapping timestamp''"

definition provider_byte :: "char \<Rightarrow> bool" where
  "provider_byte c \<longleftrightarrow> is_ascii_alphanumeric c \<or> c = CHR ''-'' \<or> c = CHR ''_'' \<or> c = CHR ''.''"

definition normalize_provider :: "string \<Rightarrow> string + string" where
  "normalize_provider p = (let p = map ascii_lower (trim p) in
     bindr (ensure (\<not> (p = [] \<or> length p > 128 \<or> \<not> list_all provider_byte p))
       ''provider must contain 1 to 128 ASCII letters, digits, dots, dashes or underscores'') (\<lambda>_. Inr p))"

definition optionally :: "('a \<Rightarrow> string + 'b) \<Rightarrow> 'a option \<Rightarrow> string + 'b option" where
  "optionally f x = (case x of None \<Rightarrow> Inr None | Some a \<Rightarrow> bindr (f a) (\<lambda>b. Inr (Some b)))"

definition no_condition :: "namespace_mapping_rule \<Rightarrow> bool" where
  "no_condition r \<longleftrightarrow> nmr_fingerprint r = None \<and> nmr_provider r = None \<and> nmr_codex_home_key r = None"

definition validate_mapping_rule :: "mapping_env \<Rightarrow> namespace_mapping_rule \<Rightarrow> string + unit" where
  "validate_mapping_rule E r =
     bindr (validate_uuid_v7 (nmr_id r) ''mapping'') (\<lambda>_.
     bindr (validate_uuid_v7 (nmr_remote_id r) ''remote'') (\<lambda>_.
     bindr (validate_uuid_v7 (nmr_namespace_id r) ''namespace'') (\<lambda>_.
     bindr (validate_label (nmr_label r)) (\<lambda>_.
     bindr (optionally validate_fingerprint (nmr_fingerprint r)) (\<lambda>_.
     bindr (optionally (\<lambda>p. bindr (normalize_provider p) (\<lambda>q. ensure (q = p) ''namespace mapping provider is not normalized''))
       (nmr_provider r)) (\<lambda>_.
     bindr (optionally validate_path_matcher (nmr_codex_home_key r)) (\<lambda>_.
     bindr (ensure (\<not> no_condition r) ''namespace mapping has no matching condition'') (\<lambda>_.
     bindr (validate_timestamp E (nmr_created_at r)) (\<lambda>_.
     validate_timestamp E (nmr_updated_at r))))))))))"

definition mapping_step :: "mapping_env \<Rightarrow> namespace_mapping_rule \<Rightarrow> uuid list \<Rightarrow> string + uuid list" where
  "mapping_step E r ids =
     bindr (ensure (nmr_id r \<notin> set ids) ''namespace mapping file contains duplicate rule IDs'') (\<lambda>_.
     bindr (validate_mapping_rule E r) (\<lambda>_. Inr (nmr_id r # ids)))"

definition override_step :: "mapping_env \<Rightarrow> manual_namespace_override \<Rightarrow> (uuid \<times> string) list \<Rightarrow> string + (uuid \<times> string) list" where
  "override_step E x keys =
     bindr (validate_uuid_v7 (mno_remote_id x) ''remote'') (\<lambda>_.
     bindr (validate_uuid_v7 (mno_namespace_id x) ''namespace'') (\<lambda>_.
     bindr (validate_path_matcher (mno_codex_home_key x)) (\<lambda>_.
     bindr (validate_timestamp E (mno_updated_at x)) (\<lambda>_.
     bindr (ensure ((mno_remote_id x, mno_codex_home_key x) \<notin> set keys)
       ''namespace mapping file contains duplicate manual overrides'') (\<lambda>_.
     Inr ((mno_remote_id x, mno_codex_home_key x) # keys))))))"

definition validate_mapping_file :: "mapping_env \<Rightarrow> namespace_mapping_file \<Rightarrow> string + unit" where
  "validate_mapping_file E f =
     bindr (ensure (nmf_schema_version f = MAPPING_SCHEMA_VERSION) ''unsupported namespace mapping schema version'') (\<lambda>_.
     bindr (ensure (length (nmf_mappings f) \<le> MAX_MAPPINGS) ''namespace mapping file exceeds the rule limit'') (\<lambda>_.
     bindr (foldr_res (mapping_step E) (nmf_mappings f) []) (\<lambda>_.
     bindr (foldr_res (override_step E) (nmf_overrides f) []) (\<lambda>_. Inr ()))))"

section \<open>The store\<close>

definition mapping_format :: "mapping_env \<Rightarrow> path \<Rightarrow> namespace_mapping_file document_format" where
  "mapping_format E root = \<lparr>doc_path = root @ [''config'', ''namespace-mappings-v1.json''],
     doc_prefix = ''.namespace-mappings-v1.write-'', doc_limit = Some MAX_CONFIG_BYTES,
     encode_doc = me_encode E, decode_doc = me_decode E, default_doc = default_mapping_file,
     check_save = validate_mapping_file E, check_load = validate_mapping_file E\<rparr>"

definition load_mappings :: "mapping_env \<Rightarrow> path \<Rightarrow> namespace_mapping_file io" where
  "load_mappings E root = load_document (mapping_format E root)"

definition save_mappings :: "mapping_env \<Rightarrow> path \<Rightarrow> namespace_mapping_file \<Rightarrow> unit io" where
  "save_mappings E root = save_document (mapping_format E root) (\<lambda>t. me_uuid_text E (me_uuid E t))"

definition list_mappings :: "mapping_env \<Rightarrow> path \<Rightarrow> uuid \<Rightarrow> namespace_mapping_rule list io" where
  "list_mappings E root remote_id = bind_io (load_mappings E root)
     (\<lambda>f. return_io (filter (\<lambda>m. nmr_remote_id m = remote_id) (nmf_mappings f)))"

definition create_mapping ::
  "mapping_env \<Rightarrow> path \<Rightarrow> uuid \<Rightarrow> uuid \<Rightarrow> string \<Rightarrow> string option \<Rightarrow> string option \<Rightarrow> string option \<Rightarrow> namespace_mapping_rule io" where
  "create_mapping E root remote_id namespace_id label fingerprint provider codex_home =
     bind_io (lift_res (validate_label label)) (\<lambda>label.
     bind_io (lift_res (optionally normalize_provider provider)) (\<lambda>provider.
     bind_io (lift_res (optionally validate_fingerprint fingerprint)) (\<lambda>fingerprint.
     bind_io (lift_res (optionally validate_path_matcher codex_home)) (\<lambda>codex_home.
     bind_io (lift_res (ensure (\<not> (fingerprint = None \<and> provider = None \<and> codex_home = None))
       ''a namespace mapping requires at least one matching condition'')) (\<lambda>_.
     bind_io (lift_res (validate_uuid_v7 remote_id ''remote'')) (\<lambda>_.
     bind_io (lift_res (validate_uuid_v7 namespace_id ''namespace'')) (\<lambda>_.
     bind_io (load_mappings E root) (\<lambda>f.
     bind_io (lift_res (ensure (length (nmf_mappings f) < MAX_MAPPINGS) ''namespace mapping limit was reached'')) (\<lambda>_.
     bind_io (lift_res (ensure (\<not> list_ex (\<lambda>m. nmr_remote_id m = remote_id \<and> nmr_fingerprint m = fingerprint
         \<and> nmr_provider m = provider \<and> nmr_codex_home_key m = codex_home) (nmf_mappings f))
       ''an identical namespace mapping condition already exists'')) (\<lambda>_.
     bind_io (ask_io (me_now E)) (\<lambda>now.
     bind_io (ask_io (me_uuid E)) (\<lambda>u.
     let mapping = \<lparr>nmr_id = u, nmr_remote_id = remote_id, nmr_namespace_id = namespace_id, nmr_label = label,
           nmr_fingerprint = fingerprint, nmr_provider = provider, nmr_codex_home_key = codex_home,
           nmr_created_at = now, nmr_updated_at = now\<rparr> in
     bind_io (save_mappings E root (f\<lparr>nmf_mappings := sort_key nmr_id (nmf_mappings f @ [mapping])\<rparr>)) (\<lambda>_.
     return_io mapping)))))))))))))"

definition delete_mapping :: "mapping_env \<Rightarrow> path \<Rightarrow> uuid \<Rightarrow> uuid \<Rightarrow> unit io" where
  "delete_mapping E root remote_id mapping_id = bind_io (load_mappings E root) (\<lambda>f.
     let kept = filter (\<lambda>m. nmr_remote_id m \<noteq> remote_id \<or> nmr_id m \<noteq> mapping_id) (nmf_mappings f) in
     bind_io (lift_res (ensure (length kept \<noteq> length (nmf_mappings f)) ''namespace mapping was not found'')) (\<lambda>_.
     save_mappings E root (f\<lparr>nmf_mappings := kept\<rparr>)))"

definition is_override :: "uuid \<Rightarrow> string \<Rightarrow> manual_namespace_override \<Rightarrow> bool" where
  "is_override remote_id home x \<longleftrightarrow> mno_remote_id x = remote_id \<and> mno_codex_home_key x = home"

definition manual_override :: "mapping_env \<Rightarrow> path \<Rightarrow> uuid \<Rightarrow> string \<Rightarrow> uuid option io" where
  "manual_override E root remote_id home = bind_io (load_mappings E root)
     (\<lambda>f. return_io (map_option mno_namespace_id (find (is_override remote_id home) (nmf_overrides f))))"

text \<open>The first matching entry is updated in place.\<close>

fun update_first :: "('a \<Rightarrow> bool) \<Rightarrow> ('a \<Rightarrow> 'a) \<Rightarrow> 'a list \<Rightarrow> 'a list" where
  "update_first P g [] = []"
| "update_first P g (x # xs) = (if P x then g x # xs else x # update_first P g xs)"

definition set_manual_override :: "mapping_env \<Rightarrow> path \<Rightarrow> uuid \<Rightarrow> uuid \<Rightarrow> string \<Rightarrow> unit io" where
  "set_manual_override E root remote_id namespace_id home =
     bind_io (lift_res (validate_uuid_v7 remote_id ''remote'')) (\<lambda>_.
     bind_io (lift_res (validate_uuid_v7 namespace_id ''namespace'')) (\<lambda>_.
     bind_io (lift_res (validate_path_matcher home)) (\<lambda>_.
     bind_io (load_mappings E root) (\<lambda>f.
     bind_io (ask_io (me_now E)) (\<lambda>now.
     save_mappings E root (f\<lparr>nmf_overrides :=
       (if list_ex (is_override remote_id home) (nmf_overrides f)
        then update_first (is_override remote_id home)
               (\<lambda>x. x\<lparr>mno_namespace_id := namespace_id, mno_updated_at := now\<rparr>) (nmf_overrides f)
        else nmf_overrides f @ [\<lparr>mno_remote_id = remote_id, mno_namespace_id = namespace_id,
               mno_codex_home_key = home, mno_updated_at = now\<rparr>])\<rparr>))))))"

definition clear_manual_override :: "mapping_env \<Rightarrow> path \<Rightarrow> uuid \<Rightarrow> string \<Rightarrow> unit io" where
  "clear_manual_override E root remote_id home = bind_io (load_mappings E root) (\<lambda>f.
     save_mappings E root (f\<lparr>nmf_overrides := filter (\<lambda>x. \<not> is_override remote_id home x) (nmf_overrides f)\<rparr>))"

section \<open>The selection\<close>

datatype namespace_selection_source = ManualOverride | Mapping | ProfileDefault | Ambiguous | NoSelection

record namespace_selection_resolution =
  sel_namespace_id :: "uuid option"
  sel_source :: namespace_selection_source
  sel_mapping_id :: "uuid option"
  sel_ambiguous :: "uuid list"

definition fallback_resolution :: "uuid option \<Rightarrow> namespace_selection_resolution" where
  "fallback_resolution profile_default = \<lparr>sel_namespace_id = profile_default,
     sel_source = (if profile_default \<noteq> None then ProfileDefault else NoSelection),
     sel_mapping_id = None, sel_ambiguous = []\<rparr>"

text \<open>A condition of a rule: absent, met with its weight, or not met.\<close>

definition condition_score :: "string option \<Rightarrow> string option \<Rightarrow> nat \<Rightarrow> nat option" where
  "condition_score wanted present weight = (case wanted of
     None \<Rightarrow> Some 0 | Some w \<Rightarrow> if present \<noteq> Some w then None else Some weight)"

definition rule_match_score :: "namespace_mapping_rule \<Rightarrow> detected_identity \<Rightarrow> nat option" where
  "rule_match_score r identity =
     Option.bind (condition_score (nmr_fingerprint r) (di_fingerprint identity) 4) (\<lambda>a.
     Option.bind (condition_score (nmr_provider r) (di_provider identity) 2) (\<lambda>b.
     Option.bind (condition_score (nmr_codex_home_key r) (Some (di_codex_home_key identity)) 1) (\<lambda>c.
     let score = a + b + c in if 0 < score then Some score else None)))"

definition scored_rules :: "namespace_mapping_rule list \<Rightarrow> detected_identity \<Rightarrow> (nat \<times> namespace_mapping_rule) list" where
  "scored_rules rules identity = List.map_filter
     (\<lambda>r. map_option (\<lambda>score. (score, r)) (rule_match_score r identity)) rules"

definition resolve_namespace_selection ::
  "bool \<Rightarrow> uuid option \<Rightarrow> detected_identity \<Rightarrow> namespace_mapping_rule list \<Rightarrow> uuid option \<Rightarrow> namespace_selection_resolution" where
  "resolve_namespace_selection automatic_enabled profile_default identity rules override =
     (if \<not> automatic_enabled then fallback_resolution profile_default
      else case override of
        Some namespace_id \<Rightarrow> \<lparr>sel_namespace_id = Some namespace_id, sel_source = ManualOverride,
          sel_mapping_id = None, sel_ambiguous = []\<rparr>
      | None \<Rightarrow>
          let matches = sort_key (\<lambda>(score, r). - int score) (sort_key (\<lambda>(score, r). nmr_id r) (scored_rules rules identity)) in
          (case matches of
            [] \<Rightarrow> fallback_resolution profile_default
          | (highest_score, first) # _ \<Rightarrow>
              let highest = map snd (takeWhile (\<lambda>(score, _). score = highest_score) matches) in
              if list_ex (\<lambda>r. nmr_namespace_id r \<noteq> nmr_namespace_id first) highest then
                \<lparr>sel_namespace_id = None, sel_source = Ambiguous, sel_mapping_id = None,
                 sel_ambiguous = map nmr_id highest\<rparr>
              else \<lparr>sel_namespace_id = Some (nmr_namespace_id first), sel_source = Mapping,
                 sel_mapping_id = Some (nmr_id first), sel_ambiguous = []\<rparr>))"

section \<open>The identity of a Codex home\<close>

definition is_ascii_graphic :: "char \<Rightarrow> bool" where
  "is_ascii_graphic c \<longleftrightarrow> 33 \<le> (of_char c :: nat) \<and> (of_char c :: nat) \<le> 126"

definition fingerprint_api_key :: "mapping_env \<Rightarrow> string \<Rightarrow> string \<Rightarrow> string + string" where
  "fingerprint_api_key E api_key server_url = (let api_key = trim api_key in
     bindr (ensure (\<not> (api_key = [] \<or> length api_key > 16 * 1024 \<or> \<not> list_all is_ascii_graphic api_key))
       ''API key must contain 1 to 16384 visible ASCII characters'') (\<lambda>_.
     Inr (FINGERPRINT_PREFIX @ me_hmac E api_key (FINGERPRINT_CONTEXT @ server_url))))"

text \<open>\<open>chars().take(n)\<close> on UTF-8 bytes.\<close>

fun take_chars :: "nat \<Rightarrow> string \<Rightarrow> string" where
  "take_chars n [] = []"
| "take_chars n (c # s) =
     (if 128 \<le> (of_char c :: nat) \<and> (of_char c :: nat) < 192 then c # take_chars n s
      else case n of 0 \<Rightarrow> [] | Suc k \<Rightarrow> c # take_chars k s)"

definition fingerprint_hint :: "string \<Rightarrow> string" where
  "fingerprint_hint fingerprint = take_chars 12 (case strip_prefix FINGERPRINT_PREFIX fingerprint of None \<Rightarrow> fingerprint | Some d \<Rightarrow> d)"

definition valid_environment_key :: "string \<Rightarrow> bool" where
  "valid_environment_key key \<longleftrightarrow> key \<noteq> [] \<and> length key \<le> 128 \<and> list_all (\<lambda>c. is_ascii_alphanumeric c \<or> c = CHR ''_'') key"

text \<open>The length of a file that exists, or the error of the inspection.\<close>

definition inspect_io :: "path \<Rightarrow> (string + nat option) io" where
  "inspect_io p = catch_io (bind_io (read_io (\<lambda>v.
       if list_ex (\<lambda>n. file_at v (take n p) \<noteq> None) [0..<length p] then Inl ''Not a directory''
       else Inr (if exists_at v p then Some (case file_at v p of None \<Rightarrow> 0 | Some b \<Rightarrow> length b) else None)))
     (\<lambda>m. return_io (Inr m))) (\<lambda>e. return_io (Inl e))"

definition read_optional_text :: "mapping_env \<Rightarrow> path \<Rightarrow> string list \<Rightarrow> (string option \<times> string list) io" where
  "read_optional_text E p ws = bind_io (inspect_io p) (\<lambda>m. case m of
     Inl e \<Rightarrow> return_io (None, ws @ [''could not be inspected''])
   | Inr None \<Rightarrow> return_io (None, ws)
   | Inr (Some n) \<Rightarrow>
       if n > unat MAX_CONFIG_BYTES then return_io (None, ws @ [''exceeds the byte safety limit''])
       else catch_io (bind_io (read_io (\<lambda>v. ok_or ''Is a directory'' (file_at v p))) (\<lambda>b.
              bind_io (lift_res (ensure (me_utf8 E b) ''stream did not contain valid UTF-8'')) (\<lambda>_. return_io (Some b, ws))))
            (\<lambda>e. return_io (None, ws @ [''could not be read''])))"

definition not_blank :: "string option \<Rightarrow> string option" where
  "not_blank x = (case x of Some s \<Rightarrow> if trim s = [] then None else Some s | None \<Rightarrow> None)"

text \<open>The key of \<open>auth.json\<close>, with the warnings of its parsing.\<close>

definition auth_json_key :: "mapping_env \<Rightarrow> string \<Rightarrow> string option \<times> string list" where
  "auth_json_key E text = (case me_json E text of
     None \<Rightarrow> (None, [''auth.json could not be parsed''])
   | Some (JObject members) \<Rightarrow>
       (not_blank (case not_blank (get_str members ''OPENAI_API_KEY'') of
          Some k \<Rightarrow> Some k | None \<Rightarrow> get_str members ''api_key''), [])
   | Some _ \<Rightarrow> (None, [''auth.json root must be an object'']))"

definition or_auth :: "string option \<Rightarrow> (string \<times> api_key_source) option" where
  "or_auth auth_key = map_option (\<lambda>k. (k, AuthJson)) auth_key"

definition detected_key ::
  "mapping_env \<Rightarrow> string option \<Rightarrow> string option \<Rightarrow> string option \<Rightarrow> (string \<times> api_key_source) option \<times> string list" where
  "detected_key E transient environment_key auth_key = (case not_blank transient of
     Some k \<Rightarrow> (Some (trim k, TransientInput), [])
   | None \<Rightarrow> (case environment_key of
       Some name \<Rightarrow>
         if valid_environment_key name then
           (case not_blank (me_environment E name) of
              Some k \<Rightarrow> (Some (k, ProviderEnvironment), []) | None \<Rightarrow> (or_auth auth_key, []))
         else (or_auth auth_key, [''provider env_key is invalid and was ignored''])
     | None \<Rightarrow> (or_auth auth_key, [])))"

definition key_fingerprint ::
  "mapping_env \<Rightarrow> string \<Rightarrow> (string \<times> api_key_source) option
     \<Rightarrow> string + (string option \<times> api_key_source option \<times> string list)" where
  "key_fingerprint E server_url detected = (case detected of
     None \<Rightarrow> Inr (None, None, [])
   | Some (k, source) \<Rightarrow> (case fingerprint_api_key E k server_url of
       Inr f \<Rightarrow> Inr (Some f, Some source, [])
     | Inl e \<Rightarrow> if source \<noteq> TransientInput then Inr (None, None, [''the detected API key was ignored'']) else Inl e))"

text \<open>\<open>home_key\<close> is \<open>codex_home_key\<close> of the home, or its error.\<close>

definition detect_local_identity ::
  "mapping_env \<Rightarrow> string + string \<Rightarrow> path \<Rightarrow> string \<Rightarrow> string option \<Rightarrow> detected_identity io" where
  "detect_local_identity E home_key home server_url transient = bind_io (lift_res home_key) (\<lambda>home_key.
     bind_io (read_optional_text E (home @ [''config.toml'']) []) (\<lambda>(text, w1).
     let config = Option.bind text (me_toml E);
         w2 = w1 @ (if text \<noteq> None \<and> config = None then [''config.toml could not be parsed''] else []);
         provider_name = Option.bind config (\<lambda>c. c [''model_provider'']) in
     bind_io (lift_res (optionally normalize_provider provider_name)) (\<lambda>provider.
     let environment_key = Option.bind provider_name (\<lambda>name. Option.bind config (\<lambda>c. c [''model_providers'', name, ''env_key''])) in
     bind_io (read_optional_text E (home @ [''auth.json'']) w2) (\<lambda>(auth, w3).
     let (auth_key, w4) = (case auth of None \<Rightarrow> (None, []) | Some t \<Rightarrow> auth_json_key E t);
         (detected, w5) = detected_key E transient environment_key auth_key in
     bind_io (lift_res (key_fingerprint E server_url detected)) (\<lambda>(fingerprint, source, w6).
     return_io \<lparr>di_codex_home_key = home_key, di_provider = provider, di_fingerprint = fingerprint,
       di_source = source, di_warnings = w3 @ w4 @ w5 @ w6\<rparr>)))))"

section \<open>What the interface shows\<close>

record local_identity_summary =
  lis_codex_home_key :: string
  lis_provider :: "string option"
  lis_available :: bool
  lis_hint :: "string option"
  lis_source :: "api_key_source option"
  lis_warnings :: "string list"

definition identity_summary :: "detected_identity \<Rightarrow> local_identity_summary" where
  "identity_summary i = \<lparr>lis_codex_home_key = di_codex_home_key i, lis_provider = di_provider i,
     lis_available = (di_fingerprint i \<noteq> None), lis_hint = map_option fingerprint_hint (di_fingerprint i),
     lis_source = di_source i, lis_warnings = di_warnings i\<rparr>"

record namespace_mapping_summary =
  nms_id :: uuid
  nms_remote_id :: uuid
  nms_namespace_id :: uuid
  nms_label :: string
  nms_matches_api_key :: bool
  nms_hint :: "string option"
  nms_provider :: "string option"
  nms_codex_home_key :: "string option"
  nms_created_at :: string
  nms_updated_at :: string

definition mapping_summary :: "namespace_mapping_rule \<Rightarrow> namespace_mapping_summary" where
  "mapping_summary r = \<lparr>nms_id = nmr_id r, nms_remote_id = nmr_remote_id r, nms_namespace_id = nmr_namespace_id r,
     nms_label = nmr_label r, nms_matches_api_key = (nmr_fingerprint r \<noteq> None),
     nms_hint = map_option fingerprint_hint (nmr_fingerprint r), nms_provider = nmr_provider r,
     nms_codex_home_key = nmr_codex_home_key r, nms_created_at = nmr_created_at r, nms_updated_at = nmr_updated_at r\<rparr>"

record namespace_mapping_state =
  nmst_remote_id :: uuid
  nmst_automatic_enabled :: bool
  nmst_context :: local_identity_summary
  nmst_mappings :: "namespace_mapping_summary list"
  nmst_selection :: namespace_selection_resolution

definition build_mapping_state ::
  "uuid \<Rightarrow> bool \<Rightarrow> uuid option \<Rightarrow> detected_identity \<Rightarrow> namespace_mapping_rule list \<Rightarrow> uuid option \<Rightarrow> namespace_mapping_state" where
  "build_mapping_state remote_id automatic_enabled profile_default identity rules override =
     \<lparr>nmst_remote_id = remote_id, nmst_automatic_enabled = automatic_enabled, nmst_context = identity_summary identity,
      nmst_mappings = map mapping_summary rules,
      nmst_selection = resolve_namespace_selection automatic_enabled profile_default identity rules override\<rparr>"

end
