(* ===== verification/NamespaceProps.thy ===== *)
theory NamespaceProps
  imports NamespaceMapping
begin

text \<open>
  The properties of the namespace mappings: what the selection chooses, and what any operation of the
  store leaves in the document, whatever call fails.
\<close>

section \<open>The selection\<close>

definition best_rules :: "namespace_mapping_rule list \<Rightarrow> detected_identity \<Rightarrow> namespace_mapping_rule set" where
  "best_rules rules identity = {r \<in> set rules. \<exists>s. rule_match_score r identity = Some s
     \<and> (\<forall>r' \<in> set rules. \<forall>s'. rule_match_score r' identity = Some s' \<longrightarrow> s' \<le> s)}"

lemma takeWhile_sorted_key:
  assumes "sorted (map f xs)" and "\<And>x. x \<in> set xs \<Longrightarrow> k \<le> f x"
  shows "takeWhile (\<lambda>x. f x = k) xs = filter (\<lambda>x. f x = k) xs"
  using assms
proof (induction xs)
  case (Cons x xs)
  show ?case
  proof (cases "f x = k")
    case True
    then show ?thesis using Cons by simp
  next
    case False
    have "k < f x" using False Cons.prems(2) [of x] by simp
    then have "k < f y" if "y \<in> set xs" for y
      using that Cons.prems(1) by (auto intro: less_le_trans)
    then have "filter (\<lambda>x. f x = k) xs = []" by (auto simp: filter_empty_conv)
    then show ?thesis using False by simp
  qed
qed simp

lemma set_scored_rules:
  "(s, r) \<in> set (scored_rules rules identity) \<longleftrightarrow> r \<in> set rules \<and> rule_match_score r identity = Some s"
  by (induction rules) (auto simp: scored_rules_def List.map_filter_def split: option.splits)

definition sorted_matches :: "namespace_mapping_rule list \<Rightarrow> detected_identity \<Rightarrow> (nat \<times> namespace_mapping_rule) list" where
  "sorted_matches rules identity =
     sort_key (\<lambda>(score, r). - int score) (sort_key (\<lambda>(score, r). nmr_id r) (scored_rules rules identity))"

lemma sorted_matches_set: "set (sorted_matches rules identity) = set (scored_rules rules identity)"
  by (simp add: sorted_matches_def)

lemma highest_matches:
  assumes "sorted_matches rules identity = (hs, first) # rest"
  shows "set (map snd (takeWhile (\<lambda>(score, _). score = hs) (sorted_matches rules identity))) = best_rules rules identity"
    and "first \<in> best_rules rules identity"
proof -
  let ?M = "sorted_matches rules identity" and ?f = "\<lambda>(score :: nat, r :: namespace_mapping_rule). - int score"
  have sorted: "sorted (map ?f ?M)" unfolding sorted_matches_def by (rule sorted_sort_key)
  then have least: "- int hs \<le> ?f x" if "x \<in> set ?M" for x
    using that assms by (auto simp: split_beta)
  then have most: "s \<le> hs" if "r \<in> set rules" "rule_match_score r identity = Some s" for r s
    using least [of "(s, r)"] that by (simp add: sorted_matches_set set_scored_rules)
  have same: "(\<lambda>(score, r :: namespace_mapping_rule). score = hs) = (\<lambda>x. ?f x = - int hs)" by (auto simp: fun_eq_iff)
  have "takeWhile (\<lambda>(score, _). score = hs) ?M = takeWhile (\<lambda>x. ?f x = - int hs) ?M" unfolding same ..
  also have "\<dots> = filter (\<lambda>x. ?f x = - int hs) ?M" by (rule takeWhile_sorted_key [OF sorted least])
  finally have "set (map snd (takeWhile (\<lambda>(score, _). score = hs) ?M)) = {r. (hs, r) \<in> set ?M}"
    by (force simp: split_beta)
  also have "\<dots> = {r \<in> set rules. rule_match_score r identity = Some hs}"
    by (auto simp: sorted_matches_set set_scored_rules)
  also have "\<dots> = best_rules rules identity"
  proof -
    have "(hs, first) \<in> set ?M" using assms by simp
    then have "first \<in> set rules" "rule_match_score first identity = Some hs"
      by (simp_all add: sorted_matches_set set_scored_rules)
    then have "s = hs" if "x \<in> set rules" "rule_match_score x identity = Some s"
      "\<forall>r' \<in> set rules. \<forall>s'. rule_match_score r' identity = Some s' \<longrightarrow> s' \<le> s" for x s
      using that most [OF that(1,2)] by (blast intro: antisym)
    then show ?thesis using most unfolding best_rules_def by blast
  qed
  finally show set: "set (map snd (takeWhile (\<lambda>(score, _). score = hs) ?M)) = best_rules rules identity" .
  then show "first \<in> best_rules rules identity" using assms by auto
qed

lemma no_matches: "sorted_matches rules identity = [] \<longleftrightarrow> best_rules rules identity = {}"
proof
  assume "sorted_matches rules identity = []"
  then have "set (scored_rules rules identity) = {}" using sorted_matches_set [of rules identity] by simp
  then have "rule_match_score r identity = None" if "r \<in> set rules" for r
    using that set_scored_rules [of _ r rules identity] by (cases "rule_match_score r identity") auto
  then show "best_rules rules identity = {}" by (auto simp: best_rules_def)
next
  assume "best_rules rules identity = {}"
  then show "sorted_matches rules identity = []"
    using highest_matches(2) [of rules identity] by (cases "sorted_matches rules identity") auto
qed

abbreviation automatic_selection ::
  "uuid option \<Rightarrow> detected_identity \<Rightarrow> namespace_mapping_rule list \<Rightarrow> namespace_selection_resolution" where
  "automatic_selection default_ns identity rules \<equiv> resolve_namespace_selection True default_ns identity rules None"

text \<open>C34: The automatic selection is exact and never guesses: with no rule that matches it falls back to
  the profile's default; when all best-matching rules name one namespace it selects that one; when
  they disagree it selects none and names them all.\<close>

theorem namespace_selection_exact:
  "if best_rules rules identity = {} then automatic_selection default_ns identity rules = fallback_resolution default_ns
    else if \<exists>n. nmr_namespace_id ` best_rules rules identity = {n}
      then sel_source (automatic_selection default_ns identity rules) = Mapping
        \<and> nmr_namespace_id ` best_rules rules identity = set_option (sel_namespace_id (automatic_selection default_ns identity rules))
    else sel_source (automatic_selection default_ns identity rules) = Ambiguous
        \<and> sel_namespace_id (automatic_selection default_ns identity rules) = None
        \<and> set (sel_ambiguous (automatic_selection default_ns identity rules)) = nmr_id ` best_rules rules identity"
proof (cases "sorted_matches rules identity")
  case Nil
  then have "best_rules rules identity = {}" by (simp add: no_matches)
  moreover have "resolve_namespace_selection True default_ns identity rules None = fallback_resolution default_ns"
    using Nil by (simp add: resolve_namespace_selection_def sorted_matches_def)
  ultimately show ?thesis by simp
next
  case (Cons x rest)
  obtain hs first where x: "x = (hs, first)" by fastforce
  note M = Cons [unfolded x]
  define highest where "highest = map snd (takeWhile (\<lambda>(score, _). score = hs) (sorted_matches rules identity))"
  have set: "set highest = best_rules rules identity" and first: "first \<in> best_rules rules identity"
    using highest_matches [OF M] by (simp_all add: highest_def)
  have R: "resolve_namespace_selection True default_ns identity rules None =
    (if list_ex (\<lambda>r. nmr_namespace_id r \<noteq> nmr_namespace_id first) highest then
       \<lparr>sel_namespace_id = None, sel_source = Ambiguous, sel_mapping_id = None, sel_ambiguous = map nmr_id highest\<rparr>
     else \<lparr>sel_namespace_id = Some (nmr_namespace_id first), sel_source = Mapping,
       sel_mapping_id = Some (nmr_id first), sel_ambiguous = []\<rparr>)"
    unfolding resolve_namespace_selection_def sorted_matches_def [symmetric] M highest_def by (simp add: Let_def)
  have ne: "best_rules rules identity \<noteq> {}" using first by blast
  have one: "(\<exists>n. nmr_namespace_id ` best_rules rules identity = {n})
    \<longleftrightarrow> nmr_namespace_id ` best_rules rules identity = {nmr_namespace_id first}"
    using singletonD [of "nmr_namespace_id first"] imageI [OF first, of nmr_namespace_id] by (metis (no_types))
  have agree: "list_ex (\<lambda>r. nmr_namespace_id r \<noteq> nmr_namespace_id first) highest
    \<longleftrightarrow> nmr_namespace_id ` best_rules rules identity \<noteq> {nmr_namespace_id first}"
    unfolding list_ex_iff set using first by auto
  show ?thesis unfolding one R using ne agree set by simp
qed

section \<open>The document\<close>

interpretation mappings: document_store "mapping_format E root" for E root
proof
  show "doc_path (mapping_format E root) \<noteq> []" by (simp add: mapping_format_def)
  show "doc_prefix (mapping_format E root) @ u @ ''.tmp'' \<noteq> last (doc_path (mapping_format E root))" for u
    by (simp add: mapping_format_def)
qed

lemma keeps_mappings [keeps_rules]:
  "keeps I (load_mappings E root)"
  "keeps (document_ok (mapping_format E root)) (save_mappings E root f)"
  unfolding load_mappings_def save_mappings_def by (rule keeps_load, rule mappings.save_keeps)

text \<open>Whatever call fails in whichever operation, the mapping document is absent or the complete
  writing of a file that passes the validation: at most 512 rules with distinct identifiers, all
  UUIDv7, a condition in every rule, one override per server and home.\<close>

theorem mapping_document_valid:
  "keeps (document_ok (mapping_format E root)) (create_mapping E root remote_id namespace_id label fingerprint provider home)
    \<and> keeps (document_ok (mapping_format E root)) (delete_mapping E root remote_id mapping_id)
    \<and> keeps (document_ok (mapping_format E root)) (set_manual_override E root remote_id namespace_id home_key)
    \<and> keeps (document_ok (mapping_format E root)) (clear_manual_override E root remote_id home_key)"
  unfolding create_mapping_def delete_mapping_def set_manual_override_def clear_manual_override_def Let_def
  by (intro conjI keeps_rules)

lemma mapping_step_Inr:
  assumes "mapping_step E r ids = Inr ids'"
  shows "nmr_id r \<notin> set ids" and "\<not> no_condition r" and "ids' = nmr_id r # ids"
  using assms by (auto simp: mapping_step_def validate_mapping_rule_def bindr_eq_Inr_iff)

lemma override_step_Inr:
  assumes "override_step E x keys = Inr keys'"
  shows "(mno_remote_id x, mno_codex_home_key x) \<notin> set keys"
    and "keys' = (mno_remote_id x, mno_codex_home_key x) # keys"
  using assms by (auto simp: override_step_def bindr_eq_Inr_iff)

lemma valid_file_shape:
  assumes "validate_mapping_file E f = Inr ()"
  shows "length (nmf_mappings f) \<le> MAX_MAPPINGS" and "distinct (map nmr_id (nmf_mappings f))"
    and "distinct (map (\<lambda>x. (mno_remote_id x, mno_codex_home_key x)) (nmf_overrides f))"
    and "\<And>r. r \<in> set (nmf_mappings f) \<Longrightarrow> \<not> no_condition r"
proof -
  have parts: "length (nmf_mappings f) \<le> MAX_MAPPINGS" "\<exists>ids. foldr_res (mapping_step E) (nmf_mappings f) [] = Inr ids"
    "\<exists>keys. foldr_res (override_step E) (nmf_overrides f) [] = Inr keys"
    using assms by (auto simp: validate_mapping_file_def bindr_eq_Inr_iff)
  show "length (nmf_mappings f) \<le> MAX_MAPPINGS" by fact
  have rules: "distinct (map nmr_id rs) \<and> nmr_id ` set rs \<inter> set ids = {} \<and> (\<forall>r \<in> set rs. \<not> no_condition r)"
    if "foldr_res (mapping_step E) rs ids = Inr out" for rs ids out
    using that
  proof (induction rs arbitrary: ids)
    case (Cons r rs)
    then obtain ids' where "mapping_step E r ids = Inr ids'" "foldr_res (mapping_step E) rs ids' = Inr out"
      by (auto simp: bindr_eq_Inr_iff)
    with mapping_step_Inr have "nmr_id r \<notin> set ids" "\<not> no_condition r"
      "foldr_res (mapping_step E) rs (nmr_id r # ids) = Inr out" by blast+
    then show ?case using Cons.IH [of "nmr_id r # ids"] by auto
  qed simp
  have overrides: "distinct (map (\<lambda>x. (mno_remote_id x, mno_codex_home_key x)) xs)
      \<and> (\<lambda>x. (mno_remote_id x, mno_codex_home_key x)) ` set xs \<inter> set keys = {}"
    if "foldr_res (override_step E) xs keys = Inr out" for xs keys out
    using that
  proof (induction xs arbitrary: keys)
    case (Cons x xs)
    then obtain keys' where "override_step E x keys = Inr keys'" "foldr_res (override_step E) xs keys' = Inr out"
      by (auto simp: bindr_eq_Inr_iff)
    with override_step_Inr have "(mno_remote_id x, mno_codex_home_key x) \<notin> set keys"
      "foldr_res (override_step E) xs ((mno_remote_id x, mno_codex_home_key x) # keys) = Inr out" by blast+
    then show ?case using Cons.IH [of "(mno_remote_id x, mno_codex_home_key x) # keys"] by auto
  qed simp
  show "distinct (map nmr_id (nmf_mappings f))" "\<And>r. r \<in> set (nmf_mappings f) \<Longrightarrow> \<not> no_condition r"
    "distinct (map (\<lambda>x. (mno_remote_id x, mno_codex_home_key x)) (nmf_overrides f))"
    using parts(2,3) rules overrides by blast+
qed

end
