(* ===== verification/WorkspaceMapping.thy ===== *)
theory WorkspaceMapping
  imports WorkspacePaths ConfigFile
begin

text \<open>
  The workspace mappings of apps/desktop/src-tauri/src/workspace_mapping.rs: which directory of this
  machine stands for a remote workspace path. The rules are a configuration document; a pull asks
  for the remote paths no rule covers, reduced to their outermost directories. A path string names
  an entry of the volume as on Unix, without symbolic links; a rule is scoped to a server, a
  namespace and a Codex home.
\<close>

section \<open>Path strings\<close>

fun split_slash :: "string \<Rightarrow> string list" where
  "split_slash [] = [[]]"
| "split_slash (c # s) = (if c = CHR ''/'' then [] # split_slash s
     else (case split_slash s of [] \<Rightarrow> [[c]] | p # ps \<Rightarrow> (c # p) # ps))"

text \<open>\<open>Path::components\<close>: empty and dot components vanish, but for a dot that starts a relative path.\<close>

definition path_components :: "string \<Rightarrow> bool \<times> string list" where
  "path_components s =
     (let pieces = split_slash s; rest = filter (\<lambda>c. c \<noteq> [] \<and> c \<noteq> ''.'') pieces in
      if take 1 s = ''/'' then (True, rest)
      else (False, if take 1 pieces = [''.''] then ''.'' # rest else rest))"

definition path_parent :: "string \<Rightarrow> (bool \<times> string list) option" where
  "path_parent s = (case path_components s of (rooted, cs) \<Rightarrow> if cs = [] then None else Some (rooted, butlast cs))"

definition path_file_name :: "string \<Rightarrow> string option" where
  "path_file_name s = (case snd (path_components s) of [] \<Rightarrow> None
     | cs \<Rightarrow> if last cs = ''.'' \<or> last cs = ''..'' then None else Some (last cs))"

fun walk :: "path \<Rightarrow> string list \<Rightarrow> path" where
  "walk p [] = p"
| "walk p (c # cs) = walk (if c = ''..'' then butlast p else if c = ''.'' then p else p @ [c]) cs"

definition resolve_components :: "path \<Rightarrow> bool \<times> string list \<Rightarrow> path" where
  "resolve_components cwd c = walk (if fst c then [] else cwd) (snd c)"

definition resolve_path :: "path \<Rightarrow> string \<Rightarrow> path" where
  "resolve_path cwd s = resolve_components cwd (path_components s)"

definition path_text :: "path \<Rightarrow> string" where
  "path_text p = (if p = [] then ''/'' else concat (map (\<lambda>c. CHR ''/'' # c) p))"

definition is_dir_quietly :: "path \<Rightarrow> bool io" where
  "is_dir_quietly p = catch_io (read_io (\<lambda>v. Inr (dir_at v p))) (\<lambda>_. return_io False)"

text \<open>\<open>codex_home_key\<close> of sync.rs.\<close>

definition codex_home_key :: "path \<Rightarrow> string \<Rightarrow> string io" where
  "codex_home_key cwd home = read_io (\<lambda>v. let p = resolve_path cwd home in
     bindr (ensure (exists_at v p) ''failed to resolve Codex home'') (\<lambda>_. Inr (slashes (path_text p))))"

section \<open>The rules\<close>

record workspace_mapping_rule =
  wmr_id :: uuid
  wmr_remote_id :: uuid
  wmr_namespace_id :: uuid
  wmr_codex_home_key :: string
  wmr_remote_prefix :: string
  wmr_local_prefix :: string
  wmr_created_at :: string
  wmr_updated_at :: string

record workspace_mapping_file =
  wmf_schema_version :: u32
  wmf_mappings :: "workspace_mapping_rule list"

record workspace_mapping_state =
  wms_remote_id :: uuid
  wms_namespace_id :: uuid
  wms_codex_home_key :: string
  wms_mappings :: "workspace_mapping_rule list"

record workspace_env =
  we_cwd :: path
  we_uuid :: "nat \<Rightarrow> uuid"
  we_uuid_text :: "uuid \<Rightarrow> string"
  we_now :: "nat \<Rightarrow> string"
  we_rfc3339 :: "string \<Rightarrow> bool"
  we_encode :: "workspace_mapping_file \<Rightarrow> bytes"
  we_decode :: "bytes \<Rightarrow> string + workspace_mapping_file"

definition WORKSPACE_MAPPING_SCHEMA_VERSION :: u32 where "WORKSPACE_MAPPING_SCHEMA_VERSION = 1"
definition MAX_WORKSPACE_MAPPINGS :: nat where "MAX_WORKSPACE_MAPPINGS = 128"
definition MAX_WORKSPACE_CONFIG_BYTES :: u64 where "MAX_WORKSPACE_CONFIG_BYTES = 256 * 1024"

definition default_workspace_file :: workspace_mapping_file where
  "default_workspace_file = \<lparr>wmf_schema_version = WORKSPACE_MAPPING_SCHEMA_VERSION, wmf_mappings = []\<rparr>"

definition prefix_pair :: "workspace_mapping_rule \<Rightarrow> workspace_path_mapping" where
  "prefix_pair r = \<lparr>remote_prefix = wmr_remote_prefix r, local_prefix = wmr_local_prefix r\<rparr>"

definition in_scope :: "uuid \<Rightarrow> uuid \<Rightarrow> string \<Rightarrow> workspace_mapping_rule \<Rightarrow> bool" where
  "in_scope remote_id namespace_id home_key r \<longleftrightarrow>
     wmr_remote_id r = remote_id \<and> wmr_namespace_id r = namespace_id \<and> wmr_codex_home_key r = home_key"

definition mapper_text :: "mapper_error \<Rightarrow> string" where
  "mapper_text e = (case e of
     EmptyPrefix \<Rightarrow> ''workspace path prefix must not be empty''
   | RootPrefix \<Rightarrow> ''workspace path prefix must not be a filesystem root''
   | DuplicatePrefix p \<Rightarrow> ''workspace path mappings contain a duplicate prefix: '' @ p
   | DuplicateThread t \<Rightarrow> ''duplicate reference thread ID '' @ t
   | SlicePanic \<Rightarrow> ''panic'')"

definition checked_mapper :: "workspace_path_mapping list \<Rightarrow> string + path_mapper" where
  "checked_mapper ms = map_err mapper_text (new_mapper ms)"

section \<open>Validation\<close>

definition validate_workspace_rule :: "workspace_env \<Rightarrow> workspace_mapping_rule \<Rightarrow> string + unit" where
  "validate_workspace_rule E r =
     bindr (ensure (\<not> (trim (wmr_remote_prefix r) = [] \<or> trim (wmr_local_prefix r) = []))
       ''workspace mapping prefixes must not be empty'') (\<lambda>_.
     bindr (ensure (\<not> (char_count (wmr_remote_prefix r) > 1024 \<or> char_count (wmr_local_prefix r) > 1024))
       ''workspace mapping prefixes must not exceed 1024 characters'') (\<lambda>_.
     bindr (ensure (\<not> (has_control (wmr_remote_prefix r) \<or> has_control (wmr_local_prefix r)))
       ''workspace mapping prefixes must not contain control characters'') (\<lambda>_.
     bindr (ensure (we_rfc3339 E (wmr_created_at r)) ''invalid timestamp'') (\<lambda>_.
     ensure (we_rfc3339 E (wmr_updated_at r)) ''invalid timestamp''))))"

definition normalize_path_for_legacy_match :: "string \<Rightarrow> string" where
  "normalize_path_for_legacy_match path =
     (let normalized = trim_end_slashes (slashes path) in
      if take 2 normalized = ''//'' \<or> length normalized \<ge> 2 \<and> normalized ! 1 = CHR '':''
      then map ascii_lower normalized else normalized)"

type_synonym scope_path = "uuid \<times> uuid \<times> string \<times> string"

definition scope_path_of :: "workspace_mapping_rule \<Rightarrow> scope_path" where
  "scope_path_of r = (wmr_remote_id r, wmr_namespace_id r, wmr_codex_home_key r,
     normalize_workspace_path_for_match (wmr_remote_prefix r))"

definition collapsible :: "workspace_mapping_rule list \<Rightarrow> scope_path \<Rightarrow> bool" where
  "collapsible ms k \<longleftrightarrow>
     1 < length (remdups (map (\<lambda>r. normalize_path_for_legacy_match (wmr_remote_prefix r)) (filter (\<lambda>r. scope_path_of r = k) ms)))"

text \<open>\<open>retain\<close> with the set of the keys seen so far.\<close>

fun retain_first :: "('a \<Rightarrow> 'k) \<Rightarrow> ('k \<Rightarrow> bool) \<Rightarrow> 'k list \<Rightarrow> 'a list \<Rightarrow> 'a list" where
  "retain_first key once seen [] = []"
| "retain_first key once seen (x # xs) =
     (if \<not> once (key x) then x # retain_first key once seen xs
      else if key x \<in> set seen then retain_first key once seen xs
      else x # retain_first key once (key x # seen) xs)"

definition deduplicate_legacy_verbatim_remote_rules :: "workspace_mapping_rule list \<Rightarrow> workspace_mapping_rule list" where
  "deduplicate_legacy_verbatim_remote_rules ms = retain_first scope_path_of (collapsible ms) [] ms"

definition rule_id_step :: "workspace_env \<Rightarrow> workspace_mapping_rule \<Rightarrow> uuid list \<Rightarrow> string + uuid list" where
  "rule_id_step E r ids = bindr (validate_workspace_rule E r) (\<lambda>_.
     bindr (ensure (wmr_id r \<notin> set ids) ''workspace mapping file contains duplicate rule IDs'') (\<lambda>_. Inr (wmr_id r # ids)))"

definition scopes_of :: "workspace_mapping_rule list \<Rightarrow> (uuid \<times> uuid \<times> string) list" where
  "scopes_of ms = sort (remdups (map (\<lambda>r. (wmr_remote_id r, wmr_namespace_id r, wmr_codex_home_key r)) ms))"

definition scope_mapper :: "workspace_mapping_rule list \<Rightarrow> uuid \<times> uuid \<times> string \<Rightarrow> string + path_mapper" where
  "scope_mapper ms k = (case k of (remote_id, namespace_id, home_key) \<Rightarrow>
     checked_mapper (map prefix_pair (filter (in_scope remote_id namespace_id home_key) ms)))"

definition validate_workspace_file :: "workspace_env \<Rightarrow> workspace_mapping_file \<Rightarrow> string + unit" where
  "validate_workspace_file E f =
     bindr (ensure (wmf_schema_version f = WORKSPACE_MAPPING_SCHEMA_VERSION) ''unsupported workspace mapping schema version'') (\<lambda>_.
     bindr (ensure (length (wmf_mappings f) \<le> MAX_WORKSPACE_MAPPINGS) ''workspace mapping file exceeds the rule limit'') (\<lambda>_.
     bindr (foldr_res (rule_id_step E) (wmf_mappings f) []) (\<lambda>_.
     let effective = deduplicate_legacy_verbatim_remote_rules (wmf_mappings f) in
     bindr (map_res (scope_mapper effective) (scopes_of effective)) (\<lambda>_. Inr ()))))"

section \<open>The store\<close>

definition workspace_format :: "workspace_env \<Rightarrow> path \<Rightarrow> workspace_mapping_file document_format" where
  "workspace_format E root = \<lparr>doc_path = root @ [''config'', ''workspace-mappings-v1.json''],
     doc_prefix = ''.workspace-mappings-v1.write-'', doc_limit = Some MAX_WORKSPACE_CONFIG_BYTES,
     encode_doc = we_encode E, decode_doc = we_decode E, default_doc = default_workspace_file,
     check_save = validate_workspace_file E, check_load = validate_workspace_file E\<rparr>"

text \<open>The default of an absent document has no rules, so the deduplication leaves it.\<close>

definition load_workspaces :: "workspace_env \<Rightarrow> path \<Rightarrow> workspace_mapping_file io" where
  "load_workspaces E root = bind_io (load_document (workspace_format E root))
     (\<lambda>f. return_io (f\<lparr>wmf_mappings := deduplicate_legacy_verbatim_remote_rules (wmf_mappings f)\<rparr>))"

definition save_workspaces :: "workspace_env \<Rightarrow> path \<Rightarrow> workspace_mapping_file \<Rightarrow> unit io" where
  "save_workspaces E root = save_document (workspace_format E root) (\<lambda>t. we_uuid_text E (we_uuid E t))"

definition matching_rules :: "workspace_env \<Rightarrow> path \<Rightarrow> uuid \<Rightarrow> uuid \<Rightarrow> string \<Rightarrow> workspace_mapping_rule list io" where
  "matching_rules E root remote_id namespace_id home_key = bind_io (load_workspaces E root)
     (\<lambda>f. return_io (sort_key wmr_created_at (filter (in_scope remote_id namespace_id home_key) (wmf_mappings f))))"

definition workspace_state :: "workspace_env \<Rightarrow> path \<Rightarrow> string \<Rightarrow> uuid \<Rightarrow> uuid \<Rightarrow> workspace_mapping_state io" where
  "workspace_state E root home remote_id namespace_id =
     bind_io (codex_home_key (we_cwd E) home) (\<lambda>home_key.
     bind_io (matching_rules E root remote_id namespace_id home_key) (\<lambda>mappings.
     return_io \<lparr>wms_remote_id = remote_id, wms_namespace_id = namespace_id, wms_codex_home_key = home_key,
       wms_mappings = mappings\<rparr>))"

definition workspace_mapper :: "workspace_env \<Rightarrow> path \<Rightarrow> string \<Rightarrow> uuid \<Rightarrow> uuid \<Rightarrow> path_mapper io" where
  "workspace_mapper E root home remote_id namespace_id =
     bind_io (codex_home_key (we_cwd E) home) (\<lambda>home_key.
     bind_io (matching_rules E root remote_id namespace_id home_key) (\<lambda>mappings.
     lift_res (checked_mapper (map prefix_pair mappings))))"

definition create_workspace_mapping ::
  "workspace_env \<Rightarrow> path \<Rightarrow> string \<Rightarrow> uuid \<Rightarrow> uuid \<Rightarrow> string \<Rightarrow> string \<Rightarrow> workspace_mapping_state io" where
  "create_workspace_mapping E root home remote_id namespace_id remote local =
     bind_io (codex_home_key (we_cwd E) home) (\<lambda>home_key.
     bind_io (load_workspaces E root) (\<lambda>f.
     bind_io (lift_res (ensure (length (wmf_mappings f) < MAX_WORKSPACE_MAPPINGS) ''workspace mapping limit was reached'')) (\<lambda>_.
     bind_io (ask_io (we_now E)) (\<lambda>now.
     bind_io (ask_io (we_uuid E)) (\<lambda>u.
     let candidate = \<lparr>wmr_id = u, wmr_remote_id = remote_id, wmr_namespace_id = namespace_id,
           wmr_codex_home_key = home_key, wmr_remote_prefix = trim remote, wmr_local_prefix = trim local,
           wmr_created_at = now, wmr_updated_at = now\<rparr> in
     bind_io (lift_res (validate_workspace_rule E candidate)) (\<lambda>_.
     bind_io (is_dir_quietly (resolve_path (we_cwd E) (wmr_local_prefix candidate))) (\<lambda>isdir.
     bind_io (lift_res (ensure isdir ''local workspace mapping target is not an existing directory'')) (\<lambda>_.
     bind_io (lift_res (checked_mapper (map prefix_pair
       (filter (in_scope remote_id namespace_id home_key) (wmf_mappings f)) @ [prefix_pair candidate]))) (\<lambda>_.
     bind_io (save_workspaces E root (f\<lparr>wmf_mappings := wmf_mappings f @ [candidate]\<rparr>)) (\<lambda>_.
     workspace_state E root home remote_id namespace_id))))))))))"

definition delete_workspace_mapping ::
  "workspace_env \<Rightarrow> path \<Rightarrow> string \<Rightarrow> uuid \<Rightarrow> uuid \<Rightarrow> uuid \<Rightarrow> workspace_mapping_state io" where
  "delete_workspace_mapping E root home remote_id namespace_id mapping_id =
     bind_io (codex_home_key (we_cwd E) home) (\<lambda>home_key.
     bind_io (load_workspaces E root) (\<lambda>f.
     let kept = filter (\<lambda>r. wmr_id r \<noteq> mapping_id \<or> \<not> in_scope remote_id namespace_id home_key r) (wmf_mappings f) in
     bind_io (lift_res (ensure (length kept \<noteq> length (wmf_mappings f)) ''workspace mapping was not found'')) (\<lambda>_.
     bind_io (save_workspaces E root (f\<lparr>wmf_mappings := kept\<rparr>)) (\<lambda>_.
     workspace_state E root home remote_id namespace_id))))"

end
