(* ===== verification/WorkspaceStoreProps.thy ===== *)
theory WorkspaceStoreProps
  imports WorkspaceMapping WorkspacePathProps
begin

text \<open>
  The document of the workspace rules stays valid whatever fails, and a document that loads gives a
  path mapper for every server, namespace and home: the validation accepts only rules whose
  prefixes do not clash, in the order in which they are later used too.
\<close>

section \<open>The order of the rules does not matter for a mapper\<close>

lemma map_res_ok:
  "map_res f xs = Inr ys \<longleftrightarrow> (\<forall>x \<in> set xs. is_ok (f x)) \<and> ys = map (\<lambda>x. projr (f x)) xs"
  by (induction xs arbitrary: ys) (auto simp: bindr_eq_Inr_iff is_ok_iff)

lemma reject_ambiguous_ok:
  "reject_ambiguous_mappings ms b = Inr u \<longleftrightarrow> distinct (map (\<lambda>m. normalize_workspace_path_for_match (side b m)) ms)"
  by (induction ms) (auto simp: list_ex_iff paths_equal_def)

definition normalized_side :: "bool \<Rightarrow> workspace_path_mapping \<Rightarrow> string" where
  "normalized_side b m = normalize_workspace_path_for_match (side b (projr (normalize_mapping m)))"

lemma new_mapper_ok:
  "is_ok (new_mapper ms) \<longleftrightarrow> (\<forall>m \<in> set ms. is_ok (normalize_mapping m))
     \<and> distinct (map (normalized_side True) ms) \<and> distinct (map (normalized_side False) ms)"
proof -
  have "is_ok (new_mapper ms) \<longleftrightarrow> (\<exists>ns. map_res normalize_mapping ms = Inr ns
      \<and> (\<exists>u. reject_ambiguous_mappings ns True = Inr u) \<and> (\<exists>u. reject_ambiguous_mappings ns False = Inr u))"
    unfolding new_mapper_def is_ok_iff by (auto simp: bindr_eq_Inr_iff)
  then show ?thesis unfolding map_res_ok reject_ambiguous_ok by (auto simp: normalized_side_def [abs_def] o_def)
qed

lemma new_mapper_perm:
  assumes "mset xs = mset ys"
  shows "is_ok (new_mapper xs) = is_ok (new_mapper ys)"
proof -
  have "distinct (map f xs) = distinct (map f ys)" for f :: "workspace_path_mapping \<Rightarrow> string"
    by (rule mset_eq_imp_distinct_iff) (simp add: assms)
  moreover have "set xs = set ys" using assms by (rule mset_eq_setD)
  ultimately show ?thesis by (simp add: new_mapper_ok)
qed

section \<open>The document\<close>

interpretation workspaces: document_store "workspace_format E root" for E root
proof
  show "doc_path (workspace_format E root) \<noteq> []" by (simp add: workspace_format_def)
  show "doc_prefix (workspace_format E root) @ u @ ''.tmp'' \<noteq> last (doc_path (workspace_format E root))" for u
    by (simp add: workspace_format_def)
qed

lemma keeps_workspaces [keeps_rules]:
  "keeps I (load_workspaces E root)" "keeps I (workspace_state E root home remote_id namespace_id)"
  "keeps (document_ok (workspace_format E root)) (save_workspaces E root f)" "keeps I (is_dir_quietly p)"
  unfolding load_workspaces_def save_workspaces_def workspace_state_def matching_rules_def codex_home_key_def is_dir_quietly_def
  by (intro keeps_rules workspaces.save_keeps)+

lemma valid_scopes:
  assumes "validate_workspace_file E f = Inr ()"
  shows "is_ok (checked_mapper (map prefix_pair (filter (in_scope remote_id namespace_id home_key)
    (deduplicate_legacy_verbatim_remote_rules (wmf_mappings f)))))"
    (is "is_ok (checked_mapper (map prefix_pair (filter ?S ?ms)))")
proof (cases "filter ?S ?ms")
  case Nil
  then show ?thesis by (simp add: checked_mapper_def new_mapper_ok)
next
  case (Cons r rs)
  then have "r \<in> set (filter ?S ?ms)" by simp
  then have "(remote_id, namespace_id, home_key) \<in> set (scopes_of ?ms)"
    by (force simp: scopes_of_def in_scope_def)
  moreover have "is_ok (map_res (scope_mapper ?ms) (scopes_of ?ms))"
    using assms unfolding validate_workspace_file_def Let_def is_ok_iff by (auto simp: bindr_eq_Inr_iff)
  ultimately have "is_ok (scope_mapper ?ms (remote_id, namespace_id, home_key))"
    unfolding is_ok_iff map_res_ok by blast
  then show ?thesis by (simp add: scope_mapper_def)
qed

lemma loaded_scopes:
  assumes "load_workspaces E root F d = (Inr f, d')"
  shows "is_ok (checked_mapper (map prefix_pair (sort_key wmr_created_at
    (filter (in_scope remote_id namespace_id home_key) (wmf_mappings f)))))"
proof -
  from assms obtain g d1 where g: "load_document (workspace_format E root) F d = (Inr g, d1)"
    and f: "wmf_mappings f = deduplicate_legacy_verbatim_remote_rules (wmf_mappings g)"
    unfolding load_workspaces_def by (auto simp: bind_io_Inr lift_res_run)
  from workspaces.load_cases [OF g]
  have "g = default_workspace_file \<or> validate_workspace_file E g = Inr ()"
    by (auto simp: workspace_format_def)
  then have "is_ok (checked_mapper (map prefix_pair (filter (in_scope remote_id namespace_id home_key) (wmf_mappings f))))"
    unfolding f using valid_scopes
    by (auto simp: default_workspace_file_def deduplicate_legacy_verbatim_remote_rules_def checked_mapper_def new_mapper_ok)
  then show ?thesis unfolding checked_mapper_def is_ok_map_err
    by (subst new_mapper_perm [where ys = "map prefix_pair (filter (in_scope remote_id namespace_id home_key) (wmf_mappings f))"])
      (simp_all add: checked_mapper_def)
qed

text \<open>C31: A path mapper for a home is refused only because the home cannot be resolved or the document
  cannot be loaded: rules that were accepted into the document never clash later.\<close>

theorem mapper_errors:
  assumes "workspace_mapper E root home remote_id namespace_id F d = (Inl e, d')"
  shows "codex_home_key (we_cwd E) home F d = (Inl e, d')
    \<or> (\<exists>k d1. codex_home_key (we_cwd E) home F d = (Inr k, d1) \<and> load_workspaces E root F d1 = (Inl e, d'))"
proof (cases "codex_home_key (we_cwd E) home F d")
  case (Pair r d1)
  show ?thesis
  proof (cases r)
    case (Inl x)
    then show ?thesis using assms Pair by (simp add: workspace_mapper_def bind_io_def)
  next
    case (Inr k)
    obtain q d2 where load: "load_workspaces E root F d1 = (q, d2)" by fastforce
    show ?thesis
    proof (cases q)
      case (Inl x)
      then show ?thesis using assms Pair Inr load
        by (simp add: workspace_mapper_def matching_rules_def bind_io_def)
    next
      case q: (Inr f)
      then show ?thesis using assms Pair Inr load loaded_scopes [of E root F d1 f d2 remote_id namespace_id k]
        by (simp add: workspace_mapper_def matching_rules_def bind_io_def lift_res_def)
    qed
  qed
qed

text \<open>Whatever call fails while rules are created or deleted, the document is absent or the complete writing of a file that passes the validation.\<close>

lemma workspace_document_valid:
  "keeps (document_ok (workspace_format E root)) (create_workspace_mapping E root home remote_id namespace_id remote local)
    \<and> keeps (document_ok (workspace_format E root)) (delete_workspace_mapping E root home remote_id namespace_id mapping_id)"
  unfolding create_workspace_mapping_def delete_workspace_mapping_def codex_home_key_def Let_def
  by (intro conjI keeps_rules)

section \<open>Witness\<close>

definition toy_workspace_env :: workspace_env where
  "toy_workspace_env = \<lparr>we_cwd = [], we_uuid = (\<lambda>_. 0), we_uuid_text = (\<lambda>_. ''u''), we_now = (\<lambda>_. ''''),
     we_rfc3339 = (\<lambda>_. True), we_encode = (\<lambda>_. ''''), we_decode = (\<lambda>_. Inl ''bad'')\<rparr>"

theorem mapper_errors_witness:
  "\<exists>k d1. codex_home_key [] ''/h'' (\<lambda>_. None) \<lparr>volume_of = [([''h''], DirEntry), ([''config''], FileEntry '''')], clock = 0\<rparr> = (Inr k, d1)
    \<and> load_workspaces toy_workspace_env [] (\<lambda>_. None) d1 = (Inl ''Not a directory'',
       \<lparr>volume_of = [([''h''], DirEntry), ([''config''], FileEntry '''')], clock = 2\<rparr>)"
proof -
  let ?d = "\<lparr>volume_of = [([''h''], DirEntry), ([''config''], FileEntry '''')], clock = 0\<rparr>"
  have "workspace_mapper toy_workspace_env [] ''/h'' 1 2 (\<lambda>_. None) ?d
      = (Inl ''Not a directory'', \<lparr>volume_of = [([''h''], DirEntry), ([''config''], FileEntry '''')], clock = 2\<rparr>)"
    by code_simp
  moreover have "fst (codex_home_key [] ''/h'' (\<lambda>_. None) ?d) = Inr ''/h''" by code_simp
  ultimately show ?thesis using mapper_errors [of toy_workspace_env "[]" "''/h''" 1 2 "\<lambda>_. None" ?d]
    by (auto simp: toy_workspace_env_def)
qed

end
