(* ===== verification/PullProps.thy ===== *)
theory PullProps
  imports PullPlan WorkspacePathProps
begin

text \<open>
  The directories a pull asks for: they cover every unmapped path, come from those paths, and none
  lies in another.
\<close>

lemma same_or_child_covers:
  "path_is_same_or_child p q \<longleftrightarrow> covers (normalize_workspace_path_for_match q) (normalize_workspace_path_for_match p)"
  by (simp add: path_is_same_or_child_def covers_def Let_def)

abbreviation path_rank :: "string \<Rightarrow> nat" where
  "path_rank p \<equiv> char_count (normalize_workspace_path_for_match p)"

lemma child_refl [simp]: "path_is_same_or_child p p"
  by (simp add: same_or_child_covers covers_iff)

text \<open>A path in another one is longer, or both are equal.\<close>

lemma child_rank: "path_is_same_or_child p q \<Longrightarrow> path_rank q < path_rank p \<or> path_is_same_or_child q p"
  by (auto simp: same_or_child_covers covers_iff char_count_def)

definition scattered :: "string list \<Rightarrow> bool" where
  "scattered roots \<longleftrightarrow> distinct roots \<and> pairwise (\<lambda>r s. \<not> path_is_same_or_child r s) (set roots)"

lemma scattered_snoc:
  assumes "scattered roots" and "\<forall>r \<in> set roots. \<not> path_is_same_or_child p r \<and> path_rank r \<le> path_rank p"
  shows "scattered (roots @ [p])"
proof -
  have "\<not> path_is_same_or_child r p" if "r \<in> set roots" for r
    using assms(2) that child_rank [of r p] by (meson leD)
  moreover have "p \<notin> set roots" using assms(2) child_refl by blast
  ultimately show ?thesis using assms by (auto simp: scattered_def pairwise_insert)
qed

lemma outermost_roots:
  assumes "scattered roots" and "sorted (map path_rank (roots @ paths))"
  shows "scattered (outermost roots paths) \<and> set roots \<subseteq> set (outermost roots paths)
    \<and> set (outermost roots paths) \<subseteq> set roots \<union> set paths
    \<and> (\<forall>p \<in> set paths. \<exists>r \<in> set (outermost roots paths). path_is_same_or_child p r)"
  using assms
proof (induction paths arbitrary: roots)
  case (Cons p ps)
  show ?case
  proof (cases "list_ex (path_is_same_or_child p) roots")
    case True
    have "sorted (map path_rank (roots @ ps))" using Cons.prems(2) by (auto simp: sorted_append)
    from Cons.IH [OF Cons.prems(1) this] True show ?thesis by (auto simp: list_ex_iff)
  next
    case False
    have "scattered (roots @ [p])"
      using False Cons.prems by (intro scattered_snoc) (auto simp: list_ex_iff sorted_append)
    from Cons.IH [OF this] Cons.prems(2) False child_refl [of p] show ?thesis by (auto simp del: child_refl)
  qed
qed simp

text \<open>The workspaces a pull asks the user for are the outermost directories of the unmapped paths:
  each unmapped path is one of them or lies below one, each is itself an unmapped path, and none
  equals or lies below another.\<close>

theorem minimal_roots_exact:
  "(\<forall>p \<in> set paths. \<exists>r \<in> set (minimal_remote_roots paths). path_is_same_or_child p r)
    \<and> set (minimal_remote_roots paths) \<subseteq> set paths
    \<and> scattered (minimal_remote_roots paths)
    \<and> sorted (map normalize_workspace_path_for_match (minimal_remote_roots paths))"
proof -
  have "scattered []" by (simp add: scattered_def pairwise_def)
  from outermost_roots [OF this, of "sort_key path_rank paths"]
  show ?thesis by (auto simp: minimal_remote_roots_def scattered_def)
qed

theorem minimal_roots_exact_witness:
  "minimal_remote_roots [''/a/b'', ''C:/W/x'', ''/a'', ''/ab'', [CHR ''c'', CHR '':'', CHR 0x5C, CHR ''w'']]
     = [''/a'', ''/ab'', [CHR ''c'', CHR '':'', CHR 0x5C, CHR ''w'']]
    \<and> (\<exists>r. r \<in> set (minimal_remote_roots [''/a/b'', ''/a'']) \<and> path_is_same_or_child ''/a/b'' r)"
proof -
  have "minimal_remote_roots [''/a/b'', ''C:/W/x'', ''/a'', ''/ab'', [CHR ''c'', CHR '':'', CHR 0x5C, CHR ''w'']]
     = [''/a'', ''/ab'', [CHR ''c'', CHR '':'', CHR 0x5C, CHR ''w'']]" by code_simp
  then show ?thesis using minimal_roots_exact [of "[''/a/b'', ''/a'']"] by auto
qed

end
