(* ===== verification/ProjectState.thy ===== *)
theory ProjectState
  imports PullPlan Json
begin

text \<open>
  The sidebar state of Codex that a workspace cleanup edits (workspace\_mapping.rs): the projects and
  their directories in \<open>.codex-global-state.json\<close>, and the removal of directories from the projects
  and from everything that refers to them.
\<close>

section \<open>Reading the projects\<close>

fun as_array :: "json \<Rightarrow> json list option" where
  "as_array (JArray vs) = Some vs"
| "as_array _ = None"

record codex_project_path =
  cpp_name :: string
  cpp_path :: string

definition project_roots :: "string \<times> json \<Rightarrow> string + codex_project_path list" where
  "project_roots x = (case x of (project_id, project) \<Rightarrow>
     bindr (ok_or ''Codex project is not an object'' (as_object project)) (\<lambda>members.
     let name = (case get_str members ''name'' of None \<Rightarrow> project_id | Some n \<Rightarrow> n) in
     case bt_get members ''rootPaths'' of
       None \<Rightarrow> Inr []
     | Some roots \<Rightarrow>
         bindr (ok_or ''Codex project rootPaths is not an array'' (as_array roots)) (\<lambda>roots.
         bindr (map_res (\<lambda>r. ok_or ''Codex project contains a non-string root path'' (as_str r)) roots) (\<lambda>roots.
         Inr (map (\<lambda>r. \<lparr>cpp_name = name, cpp_path = r\<rparr>) (filter (\<lambda>r. trim r \<noteq> []) roots))))))"

definition project_paths_of :: "json \<Rightarrow> string + codex_project_path list" where
  "project_paths_of value =
     bindr (ok_or ''Codex global state is not a JSON object'' (as_object value)) (\<lambda>members.
     case bt_get members ''local-projects'' of
       None \<Rightarrow> Inr []
     | Some projects \<Rightarrow>
         bindr (ok_or ''Codex global state local-projects field is not an object'' (as_object projects)) (\<lambda>projects.
         bindr (map_res project_roots projects) (\<lambda>xs. Inr (concat xs))))"

section \<open>Removing directories\<close>

record cleanup_counts =
  cc_changed :: bool
  cc_removed_projects :: nat
  cc_removed_assignments :: nat

text \<open>The filters of the arrays: values that are no strings stay.\<close>

definition not_selected :: "string list \<Rightarrow> json \<Rightarrow> bool" where
  "not_selected selected v = (case as_str v of
     None \<Rightarrow> True | Some path \<Rightarrow> normalize_workspace_path_for_match path \<notin> set selected)"

definition not_below :: "string list \<Rightarrow> json \<Rightarrow> bool" where
  "not_below selected v = (case as_str v of
     None \<Rightarrow> True | Some path \<Rightarrow> \<not> list_ex (path_is_same_or_child path) selected)"

definition not_removed :: "string list \<Rightarrow> json \<Rightarrow> bool" where
  "not_removed removed v = (case as_str v of None \<Rightarrow> True | Some i \<Rightarrow> i \<notin> set removed)"

text \<open>\<open>retain\<close> on an array, with whether it removed something.\<close>

definition retain_values :: "(json \<Rightarrow> bool) \<Rightarrow> json list \<Rightarrow> json list \<times> bool" where
  "retain_values P vs = (let kept = filter P vs in (kept, length kept \<noteq> length vs))"

definition clean_project :: "string list \<Rightarrow> string \<times> json \<Rightarrow> string + ((string \<times> json) \<times> bool \<times> bool)" where
  "clean_project selected x = (case x of (project_id, project) \<Rightarrow>
     bindr (ok_or ''Codex project is not an object'' (as_object project)) (\<lambda>members.
     case bt_get members ''rootPaths'' of
       None \<Rightarrow> Inr ((project_id, project), False, False)
     | Some roots \<Rightarrow>
         bindr (ok_or ''Codex project rootPaths is not an array'' (as_array roots)) (\<lambda>roots.
         let (kept, ch) = retain_values (not_selected selected) roots in
         Inr ((project_id, JObject (bt_insert ''rootPaths'' (JArray kept) members)), ch, roots \<noteq> [] \<and> kept = []))))"

text \<open>The projects with a directory left, whether a directory went, and the identifiers that go.\<close>

definition clean_projects :: "string list \<Rightarrow> (string \<times> json) list \<Rightarrow> string + ((string \<times> json) list \<times> bool \<times> string list)" where
  "clean_projects selected members = (case bt_get members ''local-projects'' of
     None \<Rightarrow> Inr (members, False, [])
   | Some projects \<Rightarrow>
       bindr (ok_or ''Codex global state local-projects field is not an object'' (as_object projects)) (\<lambda>projects.
       bindr (map_res (clean_project selected) projects) (\<lambda>xs.
       let removed = map (\<lambda>(p, _). fst p) (filter (\<lambda>(_, _, empty). empty) xs) in
       Inr (bt_insert ''local-projects'' (JObject (map fst (filter (\<lambda>(_, _, empty). \<not> empty) xs))) members,
            list_ex (\<lambda>(_, ch, _). ch) xs, removed))))"

definition retain_field :: "string \<Rightarrow> string \<Rightarrow> (json \<Rightarrow> bool) \<Rightarrow> (string \<times> json) list \<Rightarrow> string + ((string \<times> json) list \<times> bool)" where
  "retain_field err k P members = (case bt_get members k of
     None \<Rightarrow> Inr (members, False)
   | Some v \<Rightarrow> bindr (ok_or err (as_array v)) (\<lambda>vs.
       let (kept, ch) = retain_values P vs in Inr (bt_insert k (JArray kept) members, ch)))"

definition clear_selected_project :: "string list \<Rightarrow> (string \<times> json) list \<Rightarrow> (string \<times> json) list \<times> bool" where
  "clear_selected_project removed members =
     (case Option.bind (Option.bind (bt_get members ''selected-project'') as_object) (\<lambda>s. get_str s ''projectId'') of
        None \<Rightarrow> (members, False)
      | Some i \<Rightarrow> if i \<in> set removed then (bt_remove ''selected-project'' members, True) else (members, False))"

definition keep_assignment :: "string list \<Rightarrow> string list \<Rightarrow> json \<Rightarrow> bool" where
  "keep_assignment selected removed v \<longleftrightarrow>
     \<not> (case Option.bind (json_get v ''projectId'') as_str of None \<Rightarrow> False | Some i \<Rightarrow> i \<in> set removed)
     \<and> \<not> (case Option.bind (json_get v ''cwd'') as_str of None \<Rightarrow> False | Some path \<Rightarrow> list_ex (path_is_same_or_child path) selected)"

definition retain_members :: "string \<Rightarrow> string \<Rightarrow> (json \<Rightarrow> bool) \<Rightarrow> (string \<times> json) list \<Rightarrow> string + ((string \<times> json) list \<times> nat)" where
  "retain_members err k P members = (case bt_get members k of
     None \<Rightarrow> Inr (members, 0)
   | Some v \<Rightarrow> bindr (ok_or err (as_object v)) (\<lambda>xs.
       let kept = filter (\<lambda>x. P (snd x)) xs in
       Inr (bt_insert k (JObject kept) members, length xs - length kept)))"

definition clean_writable :: "string list \<Rightarrow> string \<times> json \<Rightarrow> string + ((string \<times> json) \<times> bool)" where
  "clean_writable selected x =
     bindr (ok_or ''Codex thread writable roots entry is not an array'' (as_array (snd x))) (\<lambda>vs.
     let (kept, ch) = retain_values (not_below selected) vs in Inr ((fst x, JArray kept), ch))"

definition clean_writable_roots :: "string list \<Rightarrow> (string \<times> json) list \<Rightarrow> string + ((string \<times> json) list \<times> bool)" where
  "clean_writable_roots selected members = (case bt_get members ''thread-writable-roots'' of
     None \<Rightarrow> Inr (members, False)
   | Some v \<Rightarrow>
       bindr (ok_or ''Codex global state thread-writable-roots field is not an object'' (as_object v)) (\<lambda>xs.
       bindr (map_res (clean_writable selected) xs) (\<lambda>ys.
       Inr (bt_insert ''thread-writable-roots'' (JObject (map fst ys)) members, list_ex snd ys))))"

definition remove_codex_project_paths :: "string list \<Rightarrow> json \<Rightarrow> string + (json \<times> cleanup_counts)" where
  "remove_codex_project_paths selected state =
     bindr (ok_or ''Codex global state is not a JSON object'' (as_object state)) (\<lambda>s0.
     bindr (clean_projects selected s0) (\<lambda>(s1, c1, removed).
     bindr (retain_field ''Codex global state active-workspace-roots field is not an array'' ''active-workspace-roots''
       (not_selected selected) s1) (\<lambda>(s2, c2).
     bindr (retain_field ''Codex global state electron-saved-workspace-roots field is not an array'' ''electron-saved-workspace-roots''
       (not_selected selected) s2) (\<lambda>(s3, c3).
     bindr (retain_field ''Codex global state project-order field is not an array'' ''project-order''
       (not_removed removed) s3) (\<lambda>(s4, c4).
     let (s5, c5) = clear_selected_project removed s4 in
     bindr (retain_members ''Codex global state thread-project-assignments field is not an object'' ''thread-project-assignments''
       (keep_assignment selected removed) s5) (\<lambda>(s6, assignments).
     bindr (retain_members ''Codex global state thread-workspace-root-hints field is not an object'' ''thread-workspace-root-hints''
       (not_below selected) s6) (\<lambda>(s7, hints).
     bindr (clean_writable_roots selected s7) (\<lambda>(s8, c8).
     Inr (JObject s8, \<lparr>cc_changed = (c1 \<or> c2 \<or> c3 \<or> c4 \<or> c5 \<or> 0 < assignments \<or> 0 < hints \<or> c8),
       cc_removed_projects = length removed, cc_removed_assignments = assignments\<rparr>)))))))))"

end
