(* ===== verification/ProjectProps.thy ===== *)
theory ProjectProps
  imports ProjectState
begin

text \<open>
  What the removal of directories from the sidebar state does: exactly the selected roots leave the
  projects, nothing changes when nothing is reported as changed, and a second removal changes
  nothing.
\<close>

lemma bt_insert_same: "bt_ok m \<Longrightarrow> bt_get m k = Some v \<Longrightarrow> bt_insert k v m = m"
  by (rule bt_ext) (auto simp: bt_get_insert)

section \<open>The roots that are left\<close>

lemma map_res_strings:
  "map_res (\<lambda>r. ok_or e (as_str r)) vs = Inr ss \<longleftrightarrow> vs = map JString ss"
proof (induction vs arbitrary: ss)
  case (Cons v vs)
  have "as_str v = Some s \<longleftrightarrow> v = JString s" for s by (cases v) auto
  then show ?case using Cons by (cases ss) (auto simp: bindr_eq_Inr_iff)
qed auto

definition unselected :: "string list \<Rightarrow> codex_project_path \<Rightarrow> bool" where
  "unselected selected x \<longleftrightarrow> normalize_workspace_path_for_match (cpp_path x) \<notin> set selected"

lemma as_array_Some: "as_array v = Some vs \<longleftrightarrow> v = JArray vs"
  by (cases v) auto

lemma clean_project_roots:
  assumes "clean_project selected x = Inr (y, ch, gone)" and "project_roots x = Inr rs"
  shows "project_roots y = Inr (filter (unselected selected) rs)" and "gone \<Longrightarrow> filter (unselected selected) rs = []"
proof -
  obtain i v where x: "x = (i, v)" by fastforce
  obtain m where m: "v = JObject m" using assms(1) by (auto simp: clean_project_def x bindr_eq_Inr_iff as_object_Some)
  have "project_roots y = Inr (filter (unselected selected) rs) \<and> (gone \<longrightarrow> filter (unselected selected) rs = [])"
  proof (cases "bt_get m ''rootPaths''")
    case None
    then show ?thesis using assms by (auto simp: clean_project_def project_roots_def x m)
  next
    case (Some r)
    obtain ss where r: "r = JArray (map JString ss)"
      and rs: "rs = map (\<lambda>r. \<lparr>cpp_name = (case get_str m ''name'' of None \<Rightarrow> i | Some n \<Rightarrow> n), cpp_path = r\<rparr>) (filter (\<lambda>r. trim r \<noteq> []) ss)"
      using assms(2) Some unfolding project_roots_def x m
      by (auto simp: Let_def bindr_eq_Inr_iff map_res_strings as_array_Some)
    have kept: "filter (not_selected selected) (map JString ss)
        = map JString (filter (\<lambda>s. normalize_workspace_path_for_match s \<notin> set selected) ss)"
      by (simp add: filter_map o_def not_selected_def)
    let ?name = "case get_str m ''name'' of None \<Rightarrow> i | Some n \<Rightarrow> n"
    have y: "y = (i, JObject (bt_insert ''rootPaths'' (JArray (filter (not_selected selected) (map JString ss))) m))"
      and g: "gone \<longrightarrow> filter (not_selected selected) (map JString ss) = []"
      using assms(1) Some r by (auto simp: clean_project_def x m retain_values_def Let_def)
    have "project_roots y = Inr (map (\<lambda>r. \<lparr>cpp_name = ?name, cpp_path = r\<rparr>)
        (filter (\<lambda>r. trim r \<noteq> []) (filter (\<lambda>s. normalize_workspace_path_for_match s \<notin> set selected) ss)))"
      unfolding y kept project_roots_def
      by (simp add: Let_def get_str_def bt_get_insert map_res_strings [THEN iffD2, OF refl])
    moreover have "filter (unselected selected) rs = map (\<lambda>r. \<lparr>cpp_name = ?name, cpp_path = r\<rparr>)
        (filter (\<lambda>r. trim r \<noteq> []) (filter (\<lambda>s. normalize_workspace_path_for_match s \<notin> set selected) ss))"
      by (auto simp: rs filter_map o_def unselected_def conj_commute)
    ultimately show ?thesis using g unfolding kept by (auto simp: filter_empty_conv)
  qed
  then show "project_roots y = Inr (filter (unselected selected) rs)" "gone \<Longrightarrow> filter (unselected selected) rs = []" by blast+
qed

lemma clean_project_list:
  assumes "map_res (clean_project selected) ps = Inr xs" and "map_res project_roots ps = Inr rss"
  shows "\<exists>rss'. map_res project_roots (map fst (filter (\<lambda>(_, _, gone). \<not> gone) xs)) = Inr rss'
    \<and> concat rss' = filter (unselected selected) (concat rss)"
  using assms
proof (induction ps arbitrary: xs rss)
  case (Cons p ps)
  obtain y ch gone xs' rs rss0 where s: "clean_project selected p = Inr (y, ch, gone)" "map_res (clean_project selected) ps = Inr xs'"
    "xs = (y, ch, gone) # xs'" "project_roots p = Inr rs" "map_res project_roots ps = Inr rss0" "rss = rs # rss0"
    using Cons.prems by (auto simp: bindr_eq_Inr_iff)
  note here = clean_project_roots [OF s(1,4)]
  from Cons.IH [OF s(2,5)] obtain rss' where
    "map_res project_roots (map fst (filter (\<lambda>(_, _, gone). \<not> gone) xs')) = Inr rss'"
    "concat rss' = filter (unselected selected) (concat rss0)" by blast
  then show ?case using here s by (cases gone) auto
qed simp

section \<open>Fields a step leaves alone\<close>

lemma retain_field_get:
  "retain_field err k P m = Inr (m', c) \<Longrightarrow> j \<noteq> k \<Longrightarrow> bt_get m' j = bt_get m j"
  by (auto simp: retain_field_def retain_values_def Let_def bindr_eq_Inr_iff bt_get_insert split: option.splits)

lemma retain_members_get:
  "retain_members err k P m = Inr (m', c) \<Longrightarrow> j \<noteq> k \<Longrightarrow> bt_get m' j = bt_get m j"
  by (auto simp: retain_members_def Let_def bindr_eq_Inr_iff bt_get_insert split: option.splits)

lemma clear_selected_get:
  "clear_selected_project removed m = (m', c) \<Longrightarrow> j \<noteq> ''selected-project'' \<Longrightarrow> bt_get m' j = bt_get m j"
  by (auto simp: clear_selected_project_def bt_get_remove split: option.splits if_splits)

lemma clean_writable_get:
  "clean_writable_roots selected m = Inr (m', c) \<Longrightarrow> j \<noteq> ''thread-writable-roots'' \<Longrightarrow> bt_get m' j = bt_get m j"
  by (auto simp: clean_writable_roots_def Let_def bindr_eq_Inr_iff bt_get_insert split: option.splits)

text \<open>The steps of a successful removal.\<close>

lemma removal_steps:
  assumes "remove_codex_project_paths selected state = Inr (state', r)"
  obtains s0 s1 c1 removed s2 c2 s3 c3 s4 c4 s5 c5 s6 a s7 h s8 c8 where
    "state = JObject s0" "state' = JObject s8"
    "clean_projects selected s0 = Inr (s1, c1, removed)"
    "retain_field ''Codex global state active-workspace-roots field is not an array'' ''active-workspace-roots''
       (not_selected selected) s1 = Inr (s2, c2)"
    "retain_field ''Codex global state electron-saved-workspace-roots field is not an array'' ''electron-saved-workspace-roots''
       (not_selected selected) s2 = Inr (s3, c3)"
    "retain_field ''Codex global state project-order field is not an array'' ''project-order'' (not_removed removed) s3 = Inr (s4, c4)"
    "clear_selected_project removed s4 = (s5, c5)"
    "retain_members ''Codex global state thread-project-assignments field is not an object'' ''thread-project-assignments''
       (keep_assignment selected removed) s5 = Inr (s6, a)"
    "retain_members ''Codex global state thread-workspace-root-hints field is not an object'' ''thread-workspace-root-hints''
       (not_below selected) s6 = Inr (s7, h)"
    "clean_writable_roots selected s7 = Inr (s8, c8)"
    "r = \<lparr>cc_changed = (c1 \<or> c2 \<or> c3 \<or> c4 \<or> c5 \<or> 0 < a \<or> 0 < h \<or> c8),
       cc_removed_projects = length removed, cc_removed_assignments = a\<rparr>"
proof -
  from assms obtain s0 s1 c1 removed s2 c2 s3 c3 s4 c4 where 1: "state = JObject s0"
    "clean_projects selected s0 = Inr (s1, c1, removed)"
    "retain_field ''Codex global state active-workspace-roots field is not an array'' ''active-workspace-roots''
       (not_selected selected) s1 = Inr (s2, c2)"
    "retain_field ''Codex global state electron-saved-workspace-roots field is not an array'' ''electron-saved-workspace-roots''
       (not_selected selected) s2 = Inr (s3, c3)"
    "retain_field ''Codex global state project-order field is not an array'' ''project-order'' (not_removed removed) s3 = Inr (s4, c4)"
    unfolding remove_codex_project_paths_def by (auto simp: bindr_eq_Inr_iff as_object_Some)
  obtain s5 c5 where 2: "clear_selected_project removed s4 = (s5, c5)" by fastforce
  from assms 1 2 obtain s6 a s7 h s8 c8 where
    "retain_members ''Codex global state thread-project-assignments field is not an object'' ''thread-project-assignments''
       (keep_assignment selected removed) s5 = Inr (s6, a)"
    "retain_members ''Codex global state thread-workspace-root-hints field is not an object'' ''thread-workspace-root-hints''
       (not_below selected) s6 = Inr (s7, h)"
    "clean_writable_roots selected s7 = Inr (s8, c8)" "state' = JObject s8"
    "r = \<lparr>cc_changed = (c1 \<or> c2 \<or> c3 \<or> c4 \<or> c5 \<or> 0 < a \<or> 0 < h \<or> c8),
       cc_removed_projects = length removed, cc_removed_assignments = a\<rparr>"
    unfolding remove_codex_project_paths_def by (auto simp: bindr_eq_Inr_iff)
  with 1 2 that show ?thesis by blast
qed

text \<open>C30: Removing directories from the sidebar state removes from its projects exactly the roots that
  were selected, whatever their spelling, and keeps the others with their projects in their order.\<close>

theorem project_roots_removed:
  assumes "remove_codex_project_paths selected state = Inr (state', r)" and "project_paths_of state = Inr ps"
  shows "project_paths_of state' = Inr (filter (unselected selected) ps)"
proof -
  obtain s0 s1 c1 removed s8 where S: "state = JObject s0" "state' = JObject s8" "clean_projects selected s0 = Inr (s1, c1, removed)"
    and same: "bt_get s8 ''local-projects'' = bt_get s1 ''local-projects''"
    using assms(1)
  proof (rule removal_steps, goal_cases)
    case (1 s0 s1 c1 removed s2 c2 s3 c3 s4 c4 s5 c5 s6 a s7 h s8 c8)
    have "bt_get s8 ''local-projects'' = bt_get s1 ''local-projects''"
      using clean_writable_get [OF 1(11), of "''local-projects''"] retain_members_get [OF 1(10), of "''local-projects''"]
        retain_members_get [OF 1(9), of "''local-projects''"] clear_selected_get [OF 1(8), of "''local-projects''"]
        retain_field_get [OF 1(7), of "''local-projects''"] retain_field_get [OF 1(6), of "''local-projects''"]
        retain_field_get [OF 1(5), of "''local-projects''"] by simp
    then show ?case using 1(1-4) by blast
  qed
  show ?thesis
  proof (cases "bt_get s0 ''local-projects''")
    case None
    then show ?thesis using assms(2) S same by (auto simp: project_paths_of_def clean_projects_def)
  next
    case (Some v)
    then obtain projects xs where v: "v = JObject projects" and xs: "map_res (clean_project selected) projects = Inr xs"
      and s1: "bt_get s1 ''local-projects'' = Some (JObject (map fst (filter (\<lambda>(_, _, gone). \<not> gone) xs)))"
      using S(3) by (auto simp: clean_projects_def Let_def bindr_eq_Inr_iff bt_get_insert as_object_Some)
    from assms(2) Some v S(1) obtain rss where rss: "map_res project_roots projects = Inr rss" "ps = concat rss"
      by (auto simp: project_paths_of_def bindr_eq_Inr_iff)
    from clean_project_list [OF xs rss(1)] rss(2) S(2) same s1 show ?thesis
      by (auto simp: project_paths_of_def bindr_eq_Inr_iff)
  qed
qed

section \<open>Removing twice\<close>

lemma filter_all_kept: "length (filter P xs) = length xs \<Longrightarrow> filter P xs = xs"
  using length_filter_less [of _ xs P] by (force intro: filter_True)

lemma retain_values_props:
  assumes "retain_values P vs = (kept, c)"
  shows "\<not> c \<Longrightarrow> kept = vs" and "(\<And>v. P v \<Longrightarrow> Q v) \<Longrightarrow> retain_values Q kept = (kept, False)"
proof -
  have kept: "kept = filter P vs" and c: "c \<longleftrightarrow> length kept \<noteq> length vs"
    using assms by (auto simp: retain_values_def Let_def)
  show "\<not> c \<Longrightarrow> kept = vs" using filter_all_kept [of P vs] kept c by simp
  assume "\<And>v. P v \<Longrightarrow> Q v"
  then have "filter Q kept = kept" unfolding kept by (intro filter_True) auto
  then show "retain_values Q kept = (kept, False)" by (simp add: retain_values_def)
qed

lemma retain_field_props:
  assumes "retain_field err k P m = Inr (m', c)" and "bt_ok m"
  shows "bt_ok m'" and "\<not> c \<Longrightarrow> m' = m"
    and "bt_ok n \<Longrightarrow> bt_get n k = bt_get m' k \<Longrightarrow> (\<And>v. P v \<Longrightarrow> Q v) \<Longrightarrow> retain_field err k Q n = Inr (n, False)"
proof -
  have cases: "bt_get m k = None \<and> m' = m \<and> \<not> c \<or> (\<exists>vs kept. bt_get m k = Some (JArray vs)
      \<and> retain_values P vs = (kept, c) \<and> m' = bt_insert k (JArray kept) m)"
    using assms(1) by (cases "bt_get m k") (auto simp: retain_field_def retain_values_def Let_def bindr_eq_Inr_iff as_array_Some)
  show "bt_ok m'" using cases assms(2) by auto
  show "m' = m" if nc: "\<not> c"
    using cases
  proof (elim disjE exE conjE)
    fix vs kept
    assume k: "bt_get m k = Some (JArray vs)" "retain_values P vs = (kept, c)" "m' = bt_insert k (JArray kept) m"
    from retain_values_props(1) [OF k(2) nc] bt_insert_same [OF assms(2) k(1)] k(3) show "m' = m" by simp
  qed
  assume n: "bt_ok n" "bt_get n k = bt_get m' k" and Q: "\<And>v. P v \<Longrightarrow> Q v"
  show "retain_field err k Q n = Inr (n, False)"
    using cases
  proof
    assume "bt_get m k = None \<and> m' = m \<and> \<not> c"
    then show ?thesis using n by (simp add: retain_field_def)
  next
    assume "\<exists>vs kept. bt_get m k = Some (JArray vs) \<and> retain_values P vs = (kept, c) \<and> m' = bt_insert k (JArray kept) m"
    then obtain vs kept where k: "retain_values P vs = (kept, c)" "m' = bt_insert k (JArray kept) m" by blast
    then have "bt_get n k = Some (JArray kept)" using n(2) by (simp add: bt_get_insert)
    then show ?thesis using retain_values_props(2) [OF k(1) Q] bt_insert_same [OF n(1)]
      by (simp add: retain_field_def)
  qed
qed

lemma retain_members_props:
  assumes "retain_members err k P m = Inr (m', c)" and "bt_ok m"
  shows "bt_ok m'" and "c = 0 \<Longrightarrow> m' = m"
    and "bt_ok n \<Longrightarrow> bt_get n k = bt_get m' k \<Longrightarrow> (\<And>v. P v \<Longrightarrow> Q v) \<Longrightarrow> retain_members err k Q n = Inr (n, 0)"
proof -
  have cases: "bt_get m k = None \<and> m' = m \<and> c = 0 \<or> (\<exists>xs. bt_get m k = Some (JObject xs)
      \<and> c = length xs - length (filter (\<lambda>x. P (snd x)) xs) \<and> m' = bt_insert k (JObject (filter (\<lambda>x. P (snd x)) xs)) m)"
    using assms(1) by (cases "bt_get m k") (auto simp: retain_members_def Let_def bindr_eq_Inr_iff as_object_Some)
  have whole: "filter R xs = xs" if "length xs - length (filter R xs) = 0" for R and xs :: "(string \<times> json) list"
    using that length_filter_le [of R xs] by (intro filter_all_kept) simp
  show "bt_ok m'" using cases assms(2) by auto
  show "m' = m" if nc: "c = 0"
    using cases
  proof (elim disjE exE conjE)
    fix xs
    assume k: "bt_get m k = Some (JObject xs)" "c = length xs - length (filter (\<lambda>x. P (snd x)) xs)"
      "m' = bt_insert k (JObject (filter (\<lambda>x. P (snd x)) xs)) m"
    have "filter (\<lambda>x. P (snd x)) xs = xs" using k(2) nc by (intro whole) simp
    with bt_insert_same [OF assms(2) k(1)] k(3) show "m' = m" by simp
  qed
  assume n: "bt_ok n" "bt_get n k = bt_get m' k" and Q: "\<And>v. P v \<Longrightarrow> Q v"
  show "retain_members err k Q n = Inr (n, 0)"
    using cases
  proof
    assume "bt_get m k = None \<and> m' = m \<and> c = 0"
    then show ?thesis using n by (simp add: retain_members_def)
  next
    assume "\<exists>xs. bt_get m k = Some (JObject xs) \<and> c = length xs - length (filter (\<lambda>x. P (snd x)) xs)
      \<and> m' = bt_insert k (JObject (filter (\<lambda>x. P (snd x)) xs)) m"
    then obtain xs where k: "m' = bt_insert k (JObject (filter (\<lambda>x. P (snd x)) xs)) m" by blast
    then have "bt_get n k = Some (JObject (filter (\<lambda>x. P (snd x)) xs))" using n(2) by (simp add: bt_get_insert)
    moreover have "filter (\<lambda>x. Q (snd x)) (filter (\<lambda>x. P (snd x)) xs) = filter (\<lambda>x. P (snd x)) xs"
      by (rule filter_True) (use Q in auto)
    ultimately show ?thesis using bt_insert_same [OF n(1)] by (simp add: retain_members_def Let_def)
  qed
qed

lemma clean_project_props:
  assumes "clean_project selected x = Inr (y, c, gone)" and "json_ok (snd x)"
  shows "\<not> gone \<Longrightarrow> clean_project selected y = Inr (y, False, False)" and "\<not> c \<Longrightarrow> y = x \<and> \<not> gone"
proof -
  obtain i m where x: "x = (i, JObject m)" and ok: "bt_ok m"
    using assms by (cases x) (auto simp: clean_project_def bindr_eq_Inr_iff as_object_Some)
  consider "bt_get m ''rootPaths'' = None" "y = x" "\<not> c" "\<not> gone"
    | roots kept where "bt_get m ''rootPaths'' = Some (JArray roots)" "retain_values (not_selected selected) roots = (kept, c)"
        "y = (i, JObject (bt_insert ''rootPaths'' (JArray kept) m))" "gone \<longleftrightarrow> roots \<noteq> [] \<and> kept = []"
    using assms(1) by (cases "bt_get m ''rootPaths''")
      (auto simp: clean_project_def x retain_values_def Let_def bindr_eq_Inr_iff as_array_Some)
  then have "(\<not> gone \<longrightarrow> clean_project selected y = Inr (y, False, False)) \<and> (\<not> c \<longrightarrow> y = x \<and> \<not> gone)"
  proof cases
    case 1
    then show ?thesis by (simp add: clean_project_def x)
  next
    case 2
    note again = retain_values_props(2) [OF 2(2), of "not_selected selected"]
    have same: "\<not> c \<Longrightarrow> kept = roots" by (rule retain_values_props(1) [OF 2(2)])
    have "clean_project selected y = Inr (y, False, False)"
      unfolding 2(3) clean_project_def
      by (simp add: bt_get_insert again bt_insert_same [OF bt_ok_insert [OF ok]])
    moreover have "\<not> c \<Longrightarrow> y = x \<and> \<not> gone" using same 2 bt_insert_same [OF ok 2(1)] by (auto simp: x)
    ultimately show ?thesis by blast
  qed
  then show "\<not> gone \<Longrightarrow> clean_project selected y = Inr (y, False, False)" "\<not> c \<Longrightarrow> y = x \<and> \<not> gone" by blast+
qed

lemma clean_projects_props:
  assumes "clean_projects selected m = Inr (m', c, removed)" and "json_ok (JObject m)"
  shows "bt_ok m'" and "\<not> c \<Longrightarrow> m' = m \<and> removed = []"
    and "bt_ok n \<Longrightarrow> bt_get n ''local-projects'' = bt_get m' ''local-projects'' \<Longrightarrow> clean_projects selected n = Inr (n, False, [])"
proof -
  let ?left = "\<lambda>xs. map fst (filter (\<lambda>(_, _, gone). \<not> gone) xs)"
  have ok: "bt_ok m" and oks: "\<And>k v. bt_get m k = Some v \<Longrightarrow> json_ok v"
    using assms(2) by (auto simp: list_all_iff bt_get_in_set)
  have list: "map_res (clean_project selected) (?left xs) = Inr (map (\<lambda>y. (y, False, False)) (?left xs))
      \<and> (\<not> list_ex (\<lambda>(_, c, _). c) xs \<longrightarrow> ?left xs = ps \<and> filter (\<lambda>(_, _, gone). gone) xs = [])"
    if "map_res (clean_project selected) ps = Inr xs" "list_all (\<lambda>e. json_ok (snd e)) ps" for ps xs
    using that
  proof (induction ps arbitrary: xs)
    case (Cons p ps)
    then obtain y c gone xs' where p: "clean_project selected p = Inr (y, c, gone)" "xs = (y, c, gone) # xs'"
      "map_res (clean_project selected) ps = Inr xs'" by (auto simp: bindr_eq_Inr_iff)
    from clean_project_props [OF p(1)] Cons.prems(2) Cons.IH [OF p(3)] p(2) show ?case by auto
  qed simp
  consider "bt_get m ''local-projects'' = None" "m' = m" "\<not> c" "removed = []"
    | ps xs where "bt_get m ''local-projects'' = Some (JObject ps)" "map_res (clean_project selected) ps = Inr xs"
        "m' = bt_insert ''local-projects'' (JObject (?left xs)) m" "c = list_ex (\<lambda>(_, c, _). c) xs"
        "removed = map (\<lambda>(p, _). fst p) (filter (\<lambda>(_, _, gone). gone) xs)"
    using assms(1) by (cases "bt_get m ''local-projects''") (auto simp: clean_projects_def Let_def bindr_eq_Inr_iff as_object_Some)
  then have "bt_ok m' \<and> (\<not> c \<longrightarrow> m' = m \<and> removed = []) \<and> (bt_ok n \<longrightarrow> bt_get n ''local-projects'' = bt_get m' ''local-projects''
      \<longrightarrow> clean_projects selected n = Inr (n, False, []))"
  proof cases
    case 1
    then show ?thesis using ok by (simp add: clean_projects_def)
  next
    case 2
    have l: "list_all (\<lambda>e. json_ok (snd e)) ps" using oks [OF 2(1)] by simp
    note L = list [OF 2(2) l]
    have none: "filter (\<lambda>(_, _, gone). gone) (map (\<lambda>y. (y, False, False)) zs) = []"
      "filter (\<lambda>(_, _, gone). \<not> gone) (map (\<lambda>y. (y, False, False)) zs) = map (\<lambda>y. (y, False, False)) zs"
      "\<not> list_ex (\<lambda>(_, c, _). c) (map (\<lambda>y. (y, False, False)) zs)" for zs :: "(string \<times> json) list"
      by (induction zs) auto
    have "clean_projects selected n = Inr (n, False, [])" if "bt_ok n" "bt_get n ''local-projects'' = bt_get m' ''local-projects''"
    proof -
      have v: "bt_get n ''local-projects'' = Some (JObject (?left xs))" using that(2) 2(3) by (simp add: bt_get_insert)
      show ?thesis unfolding clean_projects_def v using L none bt_insert_same [OF that(1) v] by (simp add: o_def list_ex_iff)
    qed
    moreover have "\<not> c \<Longrightarrow> m' = m \<and> removed = []" using L 2 bt_insert_same [OF ok 2(1)] by auto
    ultimately show ?thesis using 2(3) ok by simp
  qed
  then show "bt_ok m'" "\<not> c \<Longrightarrow> m' = m \<and> removed = []"
    "bt_ok n \<Longrightarrow> bt_get n ''local-projects'' = bt_get m' ''local-projects'' \<Longrightarrow> clean_projects selected n = Inr (n, False, [])" by blast+
qed

lemma clean_writable_props:
  assumes "clean_writable_roots selected m = Inr (m', c)" and "bt_ok m"
  shows "bt_ok m'" and "\<not> c \<Longrightarrow> m' = m" and "clean_writable_roots selected m' = Inr (m', False)"
proof -
  have list: "map_res (clean_writable selected) (map fst ys) = Inr (map (\<lambda>y. (fst y, False)) ys) \<and> (\<not> list_ex snd ys \<longrightarrow> map fst ys = xs)"
    if "map_res (clean_writable selected) xs = Inr ys" for xs ys
    using that
  proof (induction xs arbitrary: ys)
    case (Cons x xs)
    then obtain y d ys' where x: "clean_writable selected x = Inr (y, d)" "ys = (y, d) # ys'"
      "map_res (clean_writable selected) xs = Inr ys'" by (auto simp: bindr_eq_Inr_iff)
    then obtain k vs kept where v: "x = (k, JArray vs)" "retain_values (not_below selected) vs = (kept, d)" "y = (k, JArray kept)"
      by (cases x) (auto simp: clean_writable_def retain_values_def Let_def bindr_eq_Inr_iff as_array_Some)
    from retain_values_props [OF v(2)] v have "clean_writable selected y = Inr (y, False)" "\<not> d \<Longrightarrow> y = x"
      by (auto simp: clean_writable_def)
    with Cons.IH [OF x(3)] x(2) show ?case by auto
  qed simp
  consider "bt_get m ''thread-writable-roots'' = None" "m' = m" "\<not> c"
    | xs ys where "bt_get m ''thread-writable-roots'' = Some (JObject xs)" "map_res (clean_writable selected) xs = Inr ys"
        "m' = bt_insert ''thread-writable-roots'' (JObject (map fst ys)) m" "c = list_ex snd ys"
    using assms(1) by (cases "bt_get m ''thread-writable-roots''")
      (auto simp: clean_writable_roots_def Let_def bindr_eq_Inr_iff as_object_Some)
  then have "bt_ok m' \<and> (\<not> c \<longrightarrow> m' = m) \<and> clean_writable_roots selected m' = Inr (m', False)"
  proof cases
    case 1
    then show ?thesis using assms(2) by (simp add: clean_writable_roots_def)
  next
    case 2
    note L = list [OF 2(2)]
    have v: "bt_get m' ''thread-writable-roots'' = Some (JObject (map fst ys))" by (simp add: 2(3) bt_get_insert)
    have "bt_ok m'" using 2(3) assms(2) by simp
    then have "clean_writable_roots selected m' = Inr (m', False)"
      unfolding clean_writable_roots_def v using L bt_insert_same [OF _ v] by (auto simp: Let_def o_def list_ex_iff)
    moreover have "\<not> c \<Longrightarrow> m' = m" using L 2 bt_insert_same [OF assms(2) 2(1)] by auto
    ultimately show ?thesis using \<open>bt_ok m'\<close> by blast
  qed
  then show "bt_ok m'" "\<not> c \<Longrightarrow> m' = m" "clean_writable_roots selected m' = Inr (m', False)" by blast+
qed

lemma clear_selected_props:
  assumes "clear_selected_project removed m = (m', c)" and "bt_ok m"
  shows "bt_ok m'" and "\<not> c \<Longrightarrow> m' = m" and "clear_selected_project [] n = (n, False)"
  using assms by (auto simp: clear_selected_project_def split: option.splits if_splits)

text \<open>C29: The removal is exact about what it reports: when it reports no change the state is what it was,
  and removing the same directories again reports none and leaves the state.\<close>

theorem removal_idempotent:
  assumes "remove_codex_project_paths selected state = Inr (state', r)" and "json_ok state"
  shows "remove_codex_project_paths selected state' = Inr (state', \<lparr>cc_changed = False, cc_removed_projects = 0, cc_removed_assignments = 0\<rparr>)
    \<and> (\<not> cc_changed r \<longrightarrow> state' = state)"
  using assms(1)
proof (rule removal_steps, goal_cases)
  case (1 s0 s1 c1 removed s2 c2 s3 c3 s4 c4 s5 c5 s6 a s7 h s8 c8)
  have ok0: "json_ok (JObject s0)" using assms(2) 1(1) by simp
  note p1 = clean_projects_props [OF 1(3) ok0]
  note p2 = retain_field_props [OF 1(4) p1(1)] and g2 = retain_field_get [OF 1(4)]
  note p3 = retain_field_props [OF 1(5) p2(1)] and g3 = retain_field_get [OF 1(5)]
  note p4 = retain_field_props [OF 1(6) p3(1)] and g4 = retain_field_get [OF 1(6)]
  note p5 = clear_selected_props [OF 1(7) p4(1)] and g5 = clear_selected_get [OF 1(7)]
  note p6 = retain_members_props [OF 1(8) p5(1)] and g6 = retain_members_get [OF 1(8)]
  note p7 = retain_members_props [OF 1(9) p6(1)] and g7 = retain_members_get [OF 1(9)]
  note p8 = clean_writable_props [OF 1(10) p7(1)] and g8 = clean_writable_get [OF 1(10)]
  have r1: "clean_projects selected s8 = Inr (s8, False, [])"
    using p1(3) [OF p8(1)] g2 g3 g4 g5 g6 g7 g8 by simp
  have r2: "retain_field ''Codex global state active-workspace-roots field is not an array'' ''active-workspace-roots''
       (not_selected selected) s8 = Inr (s8, False)"
    using p2(3) [OF p8(1), of "not_selected selected"] g3 g4 g5 g6 g7 g8 by simp
  have r3: "retain_field ''Codex global state electron-saved-workspace-roots field is not an array'' ''electron-saved-workspace-roots''
       (not_selected selected) s8 = Inr (s8, False)"
    using p3(3) [OF p8(1), of "not_selected selected"] g4 g5 g6 g7 g8 by simp
  have "not_removed [] v" for v by (simp add: not_removed_def split: option.split)
  then have r4: "retain_field ''Codex global state project-order field is not an array'' ''project-order'' (not_removed []) s8 = Inr (s8, False)"
    using p4(3) [OF p8(1), of "not_removed []"] g5 g6 g7 g8 by simp
  have "keep_assignment selected removed v \<Longrightarrow> keep_assignment selected [] v" for v
    by (simp add: keep_assignment_def split: option.split)
  then have r6: "retain_members ''Codex global state thread-project-assignments field is not an object'' ''thread-project-assignments''
       (keep_assignment selected []) s8 = Inr (s8, 0)"
    using p6(3) [OF p8(1), of "keep_assignment selected []"] g7 g8 by simp
  have r7: "retain_members ''Codex global state thread-workspace-root-hints field is not an object'' ''thread-workspace-root-hints''
       (not_below selected) s8 = Inr (s8, 0)"
    using p7(3) [OF p8(1), of "not_below selected"] g8 by simp
  have "remove_codex_project_paths selected (JObject s8)
      = Inr (JObject s8, \<lparr>cc_changed = False, cc_removed_projects = 0, cc_removed_assignments = 0\<rparr>)"
    unfolding remove_codex_project_paths_def by (simp add: r1 r2 r3 r4 p5(3) r6 r7 p8(3))
  moreover have "\<not> cc_changed r \<Longrightarrow> state' = state"
    using p1(2) p2(2) p3(2) p4(2) p5(2) p6(2) p7(2) p8(2) 1(1,2,11) by auto
  ultimately show ?case using 1(2) by simp
qed

section \<open>Witnesses\<close>

definition toy_state :: json where
  "toy_state = JObject [(''local-projects'', JObject [(''p'', JObject [(''rootPaths'', JArray [JString ''/a'', JString ''/b/''])]),
      (''q'', JObject [(''rootPaths'', JArray [JString ''/b''])])]),
    (''project-order'', JArray [JString ''q'', JString ''p'']),
    (''thread-project-assignments'', JObject [(''t'', JObject [(''cwd'', JString ''/b/x'')])])]"

definition toy_left :: json where
  "toy_left = JObject [(''local-projects'', JObject [(''p'', JObject [(''rootPaths'', JArray [JString ''/a''])])]),
    (''project-order'', JArray [JString ''p'']), (''thread-project-assignments'', JObject [])]"

lemma toy_removal:
  "remove_codex_project_paths [''/b''] toy_state
     = Inr (toy_left, \<lparr>cc_changed = True, cc_removed_projects = 1, cc_removed_assignments = 1\<rparr>)"
  "project_paths_of toy_state = Inr [\<lparr>cpp_name = ''p'', cpp_path = ''/a''\<rparr>, \<lparr>cpp_name = ''p'', cpp_path = ''/b/''\<rparr>,
     \<lparr>cpp_name = ''q'', cpp_path = ''/b''\<rparr>]"
  "json_ok toy_state"
  by code_simp+

theorem project_roots_removed_witness:
  "project_paths_of toy_left = Inr [\<lparr>cpp_name = ''p'', cpp_path = ''/a''\<rparr>]"
proof -
  have "filter (unselected [''/b'']) [\<lparr>cpp_name = ''p'', cpp_path = ''/a''\<rparr>, \<lparr>cpp_name = ''p'', cpp_path = ''/b/''\<rparr>,
     \<lparr>cpp_name = ''q'', cpp_path = ''/b''\<rparr>] = [\<lparr>cpp_name = ''p'', cpp_path = ''/a''\<rparr>]" by code_simp
  then show ?thesis using project_roots_removed [OF toy_removal(1,2)] by simp
qed

theorem removal_idempotent_witness:
  "remove_codex_project_paths [''/b''] toy_left
     = Inr (toy_left, \<lparr>cc_changed = False, cc_removed_projects = 0, cc_removed_assignments = 0\<rparr>)"
  using removal_idempotent [OF toy_removal(1,3)] by simp

end
