(* ===== verification/CleanupFiles.thy ===== *)
theory CleanupFiles
  imports ProjectState
begin

text \<open>
  The calls of a workspace cleanup on the disk (workspace\_mapping.rs): reading the sidebar state,
  replacing a file that still has the expected digest, moving an empty directory, the journal, the
  rollback of an interrupted cleanup and the recovery before the next one. Directories and paths are
  those of Unix without symbolic links; a failed rename whose error is \<open>CrossesDevices\<close> is done by
  creating and removing directories.
\<close>

section \<open>Data\<close>

record quarantined_workspace_directory =
  qw_original_path :: string
  qw_quarantine_path :: string

datatype workspace_cleanup_status = Preparing | BackedUp | ProjectStateUpdated | Completed | RolledBack

record workspace_cleanup_journal =
  wcj_schema_version :: u32
  wcj_operation_id :: uuid
  wcj_codex_home :: string
  wcj_requested_paths :: "string list"
  wcj_status :: workspace_cleanup_status
  wcj_global_state_path :: "string option"
  wcj_global_state_backup :: "string option"
  wcj_original_state_sha256 :: "string option"
  wcj_updated_state_sha256 :: "string option"
  wcj_planned_quarantines :: "quarantined_workspace_directory list"
  wcj_removed_codex_projects :: nat
  wcj_removed_thread_assignments :: nat
  wcj_created_at :: string
  wcj_updated_at :: string
  wcj_error :: "string option"

record workspace_path_usage =
  wpu_path :: string
  wpu_active_count :: nat
  wpu_archived_count :: nat

text \<open>The scans of a Codex home read its SQLite databases and rollouts; \<open>ce_usage\<close> and \<open>ce_threads\<close>
  (the workspace path of each thread) stand for them.\<close>

record cleanup_env = workspace_env +
  ce_json :: json_lib
  ce_sha256_hex :: "bytes \<Rightarrow> string"
  ce_encode_journal :: "workspace_cleanup_journal \<Rightarrow> bytes"
  ce_decode_journal :: "bytes \<Rightarrow> string + workspace_cleanup_journal"
  ce_usage :: "path \<Rightarrow> volume \<Rightarrow> string + workspace_path_usage list"
  ce_threads :: "path \<Rightarrow> volume \<Rightarrow> string + string option list"

record codex_global_state =
  cgs_path :: string
  cgs_bytes :: bytes
  cgs_value :: json
  cgs_project_paths :: "codex_project_path list"

definition MAX_CODEX_GLOBAL_STATE_BYTES :: u64 where "MAX_CODEX_GLOBAL_STATE_BYTES = 16 * 1024 * 1024"
definition WORKSPACE_CLEANUP_JOURNAL_SCHEMA_VERSION :: u32 where "WORKSPACE_CLEANUP_JOURNAL_SCHEMA_VERSION = 1"

section \<open>Calls\<close>

definition path_join :: "string \<Rightarrow> string \<Rightarrow> string" where
  "path_join s name = (if s = [] then name else if last s = CHR ''/'' then s @ name else s @ ''/'' @ name)"

text \<open>\<open>fs::metadata\<close>: the entry, or none where nothing is.\<close>

definition metadata_io :: "path \<Rightarrow> entry option io" where
  "metadata_io p = read_io (\<lambda>v.
     if list_ex (\<lambda>n. file_at v (take n p) \<noteq> None) [0..<length p] then Inl ''Not a directory''
     else Inr (if p = [] then Some DirEntry else entry_at v p))"

definition read_file :: "path \<Rightarrow> bytes io" where
  "read_file p = read_io (\<lambda>v. ok_or ''No such file or directory'' (file_at v p))"

text \<open>\<open>fs::read\<close> where a missing file is told from the other errors.\<close>

definition read_existing :: "path \<Rightarrow> bytes option io" where
  "read_existing p = read_io (\<lambda>v.
     if list_ex (\<lambda>n. file_at v (take n p) \<noteq> None) [0..<length p] then Inl ''Not a directory''
     else if \<not> exists_at v p then Inr None
     else bindr (ok_or ''Is a directory'' (file_at v p)) (\<lambda>b. Inr (Some b)))"

definition directory_is_empty :: "path \<Rightarrow> bool io" where
  "directory_is_empty p = read_io (\<lambda>v. bindr (read_dir v p) (\<lambda>names. Inr (names = [])))"

definition ignore_io :: "unit io \<Rightarrow> unit io" where
  "ignore_io m = catch_io m (\<lambda>_. return_io ())"

definition sha256_bytes :: "cleanup_env \<Rightarrow> bytes \<Rightarrow> string" where
  "sha256_bytes E b = ''sha256:'' @ ce_sha256_hex E b"

definition fresh_text :: "cleanup_env \<Rightarrow> nat \<Rightarrow> string" where
  "fresh_text E t = we_uuid_text E (we_uuid E t)"

definition write_new_file :: "path \<Rightarrow> bytes \<Rightarrow> unit io" where
  "write_new_file p b = bind_io (create_dir_all_io (butlast p)) (\<lambda>_.
     bind_io (atomic_io (fs_create_new p)) (\<lambda>_.
     bind_io (write_io p b) (\<lambda>_. read_io (\<lambda>_. Inr ()))))"

text \<open>\<open>replace_file_if_hash_matches\<close>; its temporary file lies beside the replaced one.\<close>

definition replacement_temporary :: "path \<Rightarrow> string \<Rightarrow> path" where
  "replacement_temporary p u = butlast p @ [''.'' @ last p @ ''.workspace-cleanup-'' @ u @ ''.tmp'']"

definition replace_file_if_hash_matches :: "cleanup_env \<Rightarrow> path \<Rightarrow> string \<Rightarrow> bytes \<Rightarrow> unit io" where
  "replace_file_if_hash_matches E p expected b =
     bind_io (read_file p) (\<lambda>live.
     bind_io (lift_res (ensure (sha256_bytes E live = expected) ''file changed while workspace cleanup was preparing'')) (\<lambda>_.
     bind_io (ask_io (fresh_text E)) (\<lambda>u. let temporary = replacement_temporary p u in
     bind_io (write_new_file temporary b) (\<lambda>_.
     bind_io (atomic_io (fs_remove_file p)) (\<lambda>_.
     bind_io (catch_io (atomic_io (fs_rename temporary p)) (\<lambda>e.
       bind_io (ignore_io (atomic_io (fs_remove_file temporary))) (\<lambda>_. lift_res (Inl e)))) (\<lambda>_.
     bind_io (read_file p) (\<lambda>installed.
     lift_res (ensure (sha256_bytes E installed = sha256_bytes E b) ''workspace cleanup replacement failed validation''))))))))"

definition journal_temporary :: "path \<Rightarrow> string \<Rightarrow> path" where
  "journal_temporary p u = butlast p @ [''.workspace-cleanup-journal-'' @ u @ ''.tmp'']"

definition write_workspace_cleanup_journal :: "cleanup_env \<Rightarrow> path \<Rightarrow> workspace_cleanup_journal \<Rightarrow> unit io" where
  "write_workspace_cleanup_journal E p j =
     bind_io (create_dir_all_io (butlast p)) (\<lambda>_.
     bind_io (ask_io (fresh_text E)) (\<lambda>u. let temporary = journal_temporary p u in
     bind_io (write_new_file temporary (ce_encode_journal E j)) (\<lambda>_.
     bind_io (exists_quietly p) (\<lambda>present.
     bind_io (if present then atomic_io (fs_remove_file p) else return_io ()) (\<lambda>_.
     atomic_io (fs_rename temporary p))))))"

definition fs_create_dir :: "path \<Rightarrow> volume \<Rightarrow> string + volume" where
  "fs_create_dir p v =
     bindr (ensure (\<not> exists_at v p) ''File exists'') (\<lambda>_.
     bindr (ensure (dir_at v (butlast p)) ''No such file or directory'') (\<lambda>_. Inr (set_entry p DirEntry v)))"

definition CROSSES_DEVICES :: string where "CROSSES_DEVICES = ''Invalid cross-device link''"

text \<open>The move across devices: a directory is made, the source checked again and removed.\<close>

definition move_across_devices :: "path \<Rightarrow> path \<Rightarrow> unit io" where
  "move_across_devices source destination =
     bind_io (atomic_io (fs_create_dir destination)) (\<lambda>_.
     bind_io (directory_is_empty source) (\<lambda>empty.
     bind_io (if empty then return_io () else
       bind_io (ignore_io (atomic_io (fs_remove_dir destination))) (\<lambda>_.
         lift_res (Inl ''workspace directory changed during cleanup; cleanup was refused''))) (\<lambda>_.
     catch_io (atomic_io (fs_remove_dir source)) (\<lambda>e.
       bind_io (ignore_io (atomic_io (fs_remove_dir destination))) (\<lambda>_. lift_res (Inl e))))))"

definition move_empty_directory :: "path \<Rightarrow> path \<Rightarrow> unit io" where
  "move_empty_directory source destination =
     bind_io (metadata_io source) (\<lambda>m.
     bind_io (lift_res (ok_or ''failed to inspect empty workspace'' m)) (\<lambda>e.
     bind_io (lift_res (ensure (e = DirEntry) ''workspace cleanup accepts only regular non-symlink directories'')) (\<lambda>_.
     bind_io (directory_is_empty source) (\<lambda>empty.
     bind_io (lift_res (ensure empty ''workspace directory is no longer empty; cleanup was refused'')) (\<lambda>_.
     bind_io (catch_io (atomic_io (fs_rename source destination)) (\<lambda>e.
       if e = CROSSES_DEVICES then move_across_devices source destination else lift_res (Inl e))) (\<lambda>_.
     bind_io (directory_is_empty destination) (\<lambda>empty.
     if empty then return_io () else
       bind_io (ignore_io (atomic_io (fs_rename destination source))) (\<lambda>_.
         lift_res (Inl ''quarantined workspace changed during cleanup; the original was restored'')))))))))"

section \<open>The sidebar state\<close>

definition load_codex_global_state :: "cleanup_env \<Rightarrow> string \<Rightarrow> codex_global_state option io" where
  "load_codex_global_state E home =
     (let p = path_join home ''.codex-global-state.json''; q = resolve_path (we_cwd E) p in
      bind_io (metadata_io q) (\<lambda>m. case m of
        None \<Rightarrow> return_io None
      | Some e \<Rightarrow>
          bind_io (lift_res (case e of FileEntry b \<Rightarrow> Inr (length b)
                                     | DirEntry \<Rightarrow> Inl ''Codex global state is not a regular file'')) (\<lambda>len.
          bind_io (lift_res (ensure (len \<le> unat MAX_CODEX_GLOBAL_STATE_BYTES) ''Codex global state exceeds the byte safety limit'')) (\<lambda>_.
          bind_io (read_file q) (\<lambda>b.
          bind_io (lift_res (ok_or ''failed to parse Codex global state'' (parse_value (ce_json E) b))) (\<lambda>value.
          bind_io (lift_res (project_paths_of value)) (\<lambda>ps.
          return_io (Some \<lparr>cgs_path = p, cgs_bytes = b, cgs_value = value, cgs_project_paths = ps\<rparr>))))))))"

text \<open>The repair that only edits the sidebar: projects no conversation lies below.\<close>

definition remove_empty_codex_projects :: "cleanup_env \<Rightarrow> string \<Rightarrow> nat io" where
  "remove_empty_codex_projects E home = bind_io (load_codex_global_state E home) (\<lambda>st. case st of
     None \<Rightarrow> return_io 0
   | Some st \<Rightarrow>
       bind_io (read_io (ce_threads E (resolve_path (we_cwd E) home))) (\<lambda>threads.
       let referenced = List.map_filter id threads;
           unused = filter (\<lambda>x. \<not> list_ex (\<lambda>path. path_is_same_or_child path (cpp_path x)) referenced) (cgs_project_paths st);
           selected = btree_set (map (\<lambda>x. normalize_workspace_path_for_match (cpp_path x)) unused) in
       if selected = [] then return_io 0
       else bind_io (lift_res (remove_codex_project_paths selected (cgs_value st))) (\<lambda>(updated, r).
         if \<not> cc_changed r then return_io 0
         else bind_io (replace_file_if_hash_matches E (resolve_path (we_cwd E) (cgs_path st))
                (sha256_bytes E (cgs_bytes st)) (write_canonical_json_v4 (ce_json E) updated)) (\<lambda>_.
           return_io (cc_removed_projects r)))))"

section \<open>Rollback and recovery\<close>

definition rollback_directory :: "cleanup_env \<Rightarrow> quarantined_workspace_directory \<Rightarrow> unit io" where
  "rollback_directory E x =
     (let original = resolve_path (we_cwd E) (qw_original_path x);
          quarantine = resolve_path (we_cwd E) (qw_quarantine_path x) in
      bind_io (exists_quietly quarantine) (\<lambda>q.
      bind_io (if q then exists_quietly original else return_io True) (\<lambda>back.
      if q \<and> \<not> back then
        bind_io (create_dir_all_io (butlast original)) (\<lambda>_. move_empty_directory quarantine original)
      else
        bind_io (exists_quietly quarantine) (\<lambda>q.
        bind_io (if q then exists_quietly original else return_io False) (\<lambda>back.
        lift_res (ensure (\<not> (q \<and> back)) ''cannot roll back workspace cleanup because both paths exist''))))))"

definition rollback_state :: "cleanup_env \<Rightarrow> workspace_cleanup_journal \<Rightarrow> unit io" where
  "rollback_state E j =
     (case (wcj_global_state_path j, wcj_global_state_backup j, wcj_original_state_sha256 j, wcj_updated_state_sha256 j) of
        (Some live, Some backup, Some original_hash, Some updated_hash) \<Rightarrow>
          (let live = resolve_path (we_cwd E) live in
           bind_io (read_file (resolve_path (we_cwd E) backup)) (\<lambda>backup_bytes.
           bind_io (lift_res (ensure (sha256_bytes E backup_bytes = original_hash)
             ''workspace cleanup global-state backup failed hash validation'')) (\<lambda>_.
           bind_io (read_existing live) (\<lambda>r. case r of
             None \<Rightarrow> write_new_file live backup_bytes
           | Some b \<Rightarrow>
               if sha256_bytes E b = original_hash then return_io ()
               else if sha256_bytes E b = updated_hash then replace_file_if_hash_matches E live updated_hash backup_bytes
               else lift_res (Inl ''Codex global state changed after workspace cleanup; refusing rollback overwrite'')))))
      | _ \<Rightarrow> return_io ())"

definition rollback_workspace_cleanup :: "cleanup_env \<Rightarrow> path \<Rightarrow> workspace_cleanup_journal \<Rightarrow> unit io" where
  "rollback_workspace_cleanup E journal_path j =
     bind_io (foreach_io (\<lambda>x _. rollback_directory E x) (rev (wcj_planned_quarantines j)) ()) (\<lambda>_.
     bind_io (rollback_state E j) (\<lambda>_.
     bind_io (ask_io (we_now E)) (\<lambda>now.
     write_workspace_cleanup_journal E journal_path (j\<lparr>wcj_status := RolledBack, wcj_updated_at := now\<rparr>))))"

definition recover_journal :: "cleanup_env \<Rightarrow> string \<Rightarrow> path \<Rightarrow> unit io" where
  "recover_journal E home p =
     (if strip_prefix ''workspace-cleanup-'' (last p) = None \<or> strip_suffix ''.json'' (last p) = None then return_io ()
      else bind_io (read_file p) (\<lambda>b.
        bind_io (lift_res (ce_decode_journal E b)) (\<lambda>j.
        bind_io (lift_res (ensure (wcj_schema_version j = WORKSPACE_CLEANUP_JOURNAL_SCHEMA_VERSION)
          ''unsupported workspace cleanup journal schema version'')) (\<lambda>_.
        if normalize_workspace_path_for_match (wcj_codex_home j) \<noteq> normalize_workspace_path_for_match home
           \<or> wcj_status j = Completed \<or> wcj_status j = RolledBack then return_io ()
        else rollback_workspace_cleanup E p j))))"

text \<open>\<open>read_dir\<close> of a missing directory is no error here.\<close>

definition list_directory :: "path \<Rightarrow> string list io" where
  "list_directory p = read_io (\<lambda>v.
     if list_ex (\<lambda>n. file_at v (take n p) \<noteq> None) [0..<length p] then Inl ''Not a directory''
     else if \<not> exists_at v p then Inr [] else read_dir v p)"

definition recover_incomplete_workspace_cleanups :: "cleanup_env \<Rightarrow> path \<Rightarrow> string \<Rightarrow> unit io" where
  "recover_incomplete_workspace_cleanups E root home =
     bind_io (list_directory (root @ [''journal''])) (\<lambda>names.
     foreach_io (\<lambda>name _. recover_journal E home (root @ [''journal'', name])) names ())"

end
