(* ===== verification/WorkspaceCleanup.thy ===== *)
theory WorkspaceCleanup
  imports CleanupFiles
begin

text \<open>
  The cleanup of empty workspaces (workspace\_mapping.rs): the report that joins the rules, the use of
  each path by threads, the projects of the sidebar and the directories found beside them, with the
  entries that may be removed; and the removal, which writes a journal, saves the sidebar state,
  edits it, moves the directories to quarantine and rolls back on an error.
\<close>

section \<open>The report\<close>

datatype workspace_directory_state = Missing | Empty | NonEmpty | NotDirectory

record workspace_path_mapping_summary =
  wpm_id :: uuid
  wpm_remote_prefix :: string
  wpm_local_prefix :: string
  wpm_inherited :: bool

record workspace_path_entry =
  wpe_path :: string
  wpe_active_count :: nat
  wpe_archived_count :: nat
  wpe_mappings :: "workspace_path_mapping_summary list"
  wpe_codex_project_names :: "string list"
  wpe_directory_state :: workspace_directory_state
  wpe_cleanup_eligible :: bool

record workspace_cleanup_report =
  wcr_scanned_roots :: "string list"
  wcr_entries :: "workspace_path_entry list"
  wcr_candidates :: "string list"

type_synonym path_entries = "(string, workspace_path_entry) btree_map"

definition MAX_CLEANUP_SCAN_ENTRIES :: nat where "MAX_CLEANUP_SCAN_ENTRIES = 4096"

definition paths_overlap :: "string \<Rightarrow> string \<Rightarrow> bool" where
  "paths_overlap l r \<longleftrightarrow> path_is_same_or_child l r \<or> path_is_same_or_child r l"

definition new_entry :: "string \<Rightarrow> workspace_path_entry" where
  "new_entry display = \<lparr>wpe_path = display, wpe_active_count = 0, wpe_archived_count = 0, wpe_mappings = [],
     wpe_codex_project_names = [], wpe_directory_state = Missing, wpe_cleanup_eligible = False\<rparr>"

text \<open>\<open>workspace_path_entry\<close> and what its caller does with the entry.\<close>

definition update_path_entry :: "string \<Rightarrow> (workspace_path_entry \<Rightarrow> workspace_path_entry) \<Rightarrow> path_entries \<Rightarrow> path_entries" where
  "update_path_entry path f entries =
     (let display = trim path; identity = normalize_workspace_path_for_match display in
      bt_insert identity (f (case bt_get entries identity of None \<Rightarrow> new_entry display | Some e \<Rightarrow> e)) entries)"

definition insert_cleanup_scan_root :: "path \<Rightarrow> string \<Rightarrow> (string, path) btree_map \<Rightarrow> (string, path) btree_map io" where
  "insert_cleanup_scan_root cwd path roots = (case path_parent path of
     None \<Rightarrow> return_io roots
   | Some (rooted, cs) \<Rightarrow>
       if cs = [] then return_io roots
       else let parent = resolve_components cwd (rooted, cs) in
         bind_io (is_dir_quietly parent) (\<lambda>isdir.
         if \<not> isdir then return_io roots
         else bind_io (read_io (\<lambda>v. ensure (exists_at v parent) ''failed to normalize workspace parent'')) (\<lambda>_.
           let k = normalize_workspace_path_for_match (path_text parent) in
           return_io (if bt_get roots k = None then bt_insert k parent roots else roots))))"

definition workspace_directory_state_of :: "path \<Rightarrow> workspace_directory_state io" where
  "workspace_directory_state_of p = bind_io (metadata_io p) (\<lambda>m. case m of
     None \<Rightarrow> return_io Missing
   | Some (FileEntry _) \<Rightarrow> return_io NotDirectory
   | Some DirEntry \<Rightarrow> bind_io (directory_is_empty p) (\<lambda>empty. return_io (if empty then Empty else NonEmpty)))"

text \<open>An empty directory beside a workspace becomes an entry. The canonical path of an entry of a
  canonical root is the path itself.\<close>

definition scan_child :: "path \<Rightarrow> string \<Rightarrow> path_entries \<Rightarrow> path_entries io" where
  "scan_child root name entries = (let p = root @ [name] in
     bind_io (metadata_io p) (\<lambda>m.
     bind_io (lift_res (ok_or ''No such file or directory'' m)) (\<lambda>e.
     if e \<noteq> DirEntry then return_io entries
     else bind_io (read_io (\<lambda>v. ensure (exists_at v p) ''No such file or directory'')) (\<lambda>_.
       bind_io (directory_is_empty p) (\<lambda>empty.
       return_io (if empty then update_path_entry (path_text p) (\<lambda>x. x) entries else entries))))))"

definition scan_root :: "path \<Rightarrow> path_entries \<Rightarrow> path_entries io" where
  "scan_root root entries = bind_io (read_io (\<lambda>v. read_dir v root)) (\<lambda>names.
     bind_io (foreach_io (scan_child root) (take MAX_CLEANUP_SCAN_ENTRIES names) entries) (\<lambda>entries.
     bind_io (lift_res (ensure (length names \<le> MAX_CLEANUP_SCAN_ENTRIES) ''workspace parent exceeds the entry safety limit''))
       (\<lambda>_. return_io entries)))"

definition add_usage :: "workspace_path_usage \<Rightarrow> path_entries \<Rightarrow> path_entries" where
  "add_usage u = update_path_entry (wpu_path u) (\<lambda>e. e\<lparr>wpe_active_count := wpe_active_count e + wpu_active_count u,
     wpe_archived_count := wpe_archived_count e + wpu_archived_count u\<rparr>)"

definition add_project :: "codex_project_path \<Rightarrow> path_entries \<Rightarrow> path_entries" where
  "add_project x = update_path_entry (cpp_path x) (\<lambda>e.
     if cpp_name x \<in> set (wpe_codex_project_names e) then e
     else e\<lparr>wpe_codex_project_names := wpe_codex_project_names e @ [cpp_name x]\<rparr>)"

definition entry_mappings :: "workspace_mapping_rule list \<Rightarrow> string \<Rightarrow> workspace_path_mapping_summary list" where
  "entry_mappings scoped identity =
     map (\<lambda>r. \<lparr>wpm_id = wmr_id r, wpm_remote_prefix = wmr_remote_prefix r, wpm_local_prefix = wmr_local_prefix r,
            wpm_inherited = (identity \<noteq> normalize_workspace_path_for_match (wmr_local_prefix r))\<rparr>)
       (filter (\<lambda>r. path_is_same_or_child identity (normalize_workspace_path_for_match (wmr_local_prefix r))) scoped)"

definition eligible :: "string list \<Rightarrow> string list \<Rightarrow> string \<Rightarrow> workspace_path_entry \<Rightarrow> bool" where
  "eligible protected projects identity e \<longleftrightarrow>
     wpe_active_count e = 0 \<and> wpe_archived_count e = 0 \<and> wpe_mappings e = []
     \<and> \<not> list_ex (paths_overlap identity) protected
     \<and> \<not> list_ex (\<lambda>x. x \<noteq> identity \<and> paths_overlap identity x) projects
     \<and> (wpe_directory_state e = Empty \<or> wpe_directory_state e = Missing \<and> wpe_codex_project_names e \<noteq> [])"

definition judge_entry ::
  "cleanup_env \<Rightarrow> workspace_mapping_rule list \<Rightarrow> string list \<Rightarrow> string list \<Rightarrow> string \<times> workspace_path_entry
     \<Rightarrow> path_entries \<Rightarrow> path_entries io" where
  "judge_entry E scoped protected projects x done_entries = (case x of (identity, e) \<Rightarrow>
     let e = e\<lparr>wpe_mappings := wpe_mappings e @ entry_mappings scoped identity\<rparr> in
     bind_io (workspace_directory_state_of (resolve_path (we_cwd E) (wpe_path e))) (\<lambda>st.
     let e = e\<lparr>wpe_directory_state := st\<rparr> in
     return_io (done_entries @ [(identity, e\<lparr>wpe_cleanup_eligible := eligible protected projects identity e\<rparr>)])))"

definition protected_of :: "workspace_mapping_rule list \<Rightarrow> string \<Rightarrow> path \<Rightarrow> workspace_path_usage list \<Rightarrow> string list" where
  "protected_of mappings home root usage =
     map normalize_workspace_path_for_match (map wmr_local_prefix mappings @ [home, path_text root] @ map wpu_path usage)"

definition collected_entries :: "workspace_mapping_rule list \<Rightarrow> workspace_path_usage list \<Rightarrow> codex_project_path list \<Rightarrow> path_entries" where
  "collected_entries scoped usage projects =
     fold add_project projects (fold add_usage usage (fold (\<lambda>r. update_path_entry (wmr_local_prefix r) (\<lambda>e. e)) scoped []))"

definition report_of ::
  "cleanup_env \<Rightarrow> workspace_mapping_rule list \<Rightarrow> string list \<Rightarrow> codex_project_path list \<Rightarrow> path_entries \<Rightarrow> workspace_cleanup_report io" where
  "report_of E scoped protected projects entries =
     bind_io (foreach_io (insert_cleanup_scan_root (we_cwd E)) (map wmr_local_prefix scoped @ map cpp_path projects) []) (\<lambda>roots.
     bind_io (foreach_io scan_root (bt_values roots) entries) (\<lambda>entries.
     bind_io (foreach_io (judge_entry E scoped protected (map (\<lambda>x. normalize_workspace_path_for_match (cpp_path x)) projects)) entries []) (\<lambda>entries.
     return_io \<lparr>wcr_scanned_roots = map path_text (bt_values roots), wcr_entries = bt_values entries,
       wcr_candidates = map wpe_path (filter wpe_cleanup_eligible (bt_values entries))\<rparr>)))"

definition cleanup_report :: "cleanup_env \<Rightarrow> path \<Rightarrow> string \<Rightarrow> uuid \<Rightarrow> uuid \<Rightarrow> workspace_cleanup_report io" where
  "cleanup_report E root home remote_id namespace_id =
     bind_io (codex_home_key (we_cwd E) home) (\<lambda>home_key.
     bind_io (load_workspaces (workspace_env.truncate E) root) (\<lambda>f.
     bind_io (load_codex_global_state E home) (\<lambda>global_state.
     bind_io (read_io (ce_usage E (resolve_path (we_cwd E) home))) (\<lambda>usage.
     let scoped = filter (in_scope remote_id namespace_id home_key) (wmf_mappings f);
         projects = (case global_state of None \<Rightarrow> [] | Some st \<Rightarrow> cgs_project_paths st) in
     report_of E scoped (protected_of (wmf_mappings f) home root usage) projects (collected_entries scoped usage projects)))))"

section \<open>The removal\<close>

record workspace_cleanup_result =
  wcs_quarantined :: "quarantined_workspace_directory list"
  wcs_removed_codex_projects :: nat
  wcs_removed_thread_assignments :: nat
  wcs_backup_path :: "string option"
  wcs_journal_path :: string

fun decimal :: "nat \<Rightarrow> string" where
  "decimal n = (if n < 10 then [char_of (48 + n)] else decimal (n div 10) @ [char_of (48 + n mod 10)])"

declare decimal.simps [simp del]

text \<open>Each request must name an eligible entry, once.\<close>

definition select_step :: "path_entries \<Rightarrow> string \<Rightarrow> string list \<times> workspace_path_entry list \<Rightarrow> string + string list \<times> workspace_path_entry list" where
  "select_step available requested acc =
     (let k = normalize_workspace_path_for_match (trim requested) in
      bindr (ensure (k \<notin> set (fst acc)) ''workspace cleanup request contains duplicate paths'') (\<lambda>_.
      bindr (ok_or ''workspace cleanup path is no longer an unreferenced empty or missing Codex project'' (bt_get available k)) (\<lambda>e.
      Inr (k # fst acc, snd acc @ [e]))))"

definition plan_quarantine :: "path \<Rightarrow> string \<Rightarrow> nat \<times> workspace_path_entry \<Rightarrow> quarantined_workspace_directory" where
  "plan_quarantine quarantine_root operation x = (case x of (index, e) \<Rightarrow>
     \<lparr>qw_original_path = wpe_path e,
      qw_quarantine_path = path_text (quarantine_root @ [operation @ ''-'' @ decimal index @ ''-''
        @ (case path_file_name (wpe_path e) of None \<Rightarrow> ''workspace'' | Some n \<Rightarrow> n)])\<rparr>)"

definition plan_quarantines :: "path \<Rightarrow> string \<Rightarrow> workspace_path_entry list \<Rightarrow> quarantined_workspace_directory list" where
  "plan_quarantines quarantine_root operation selected =
     map (plan_quarantine quarantine_root operation)
       (filter (\<lambda>(_, e). wpe_directory_state e = Empty) (enumerate 0 selected))"

text \<open>The steps after the journal is written. A rollback overwrites the status and the time they set, so
  it starts from the prepared journal.\<close>

definition advance_journal ::
  "cleanup_env \<Rightarrow> path \<Rightarrow> workspace_cleanup_status \<Rightarrow> workspace_cleanup_journal \<Rightarrow> workspace_cleanup_journal io" where
  "advance_journal E p status j = bind_io (ask_io (we_now E)) (\<lambda>now.
     let j = j\<lparr>wcj_status := status, wcj_updated_at := now\<rparr> in
     bind_io (write_workspace_cleanup_journal E p j) (\<lambda>_. return_io j))"

definition apply_cleanup ::
  "cleanup_env \<Rightarrow> path \<Rightarrow> path \<Rightarrow> codex_global_state option \<Rightarrow> bytes option \<Rightarrow> workspace_cleanup_journal \<Rightarrow> workspace_cleanup_journal io" where
  "apply_cleanup E journal_path quarantine_root global_state updated_state j =
     bind_io (case (global_state, wcj_global_state_backup j) of
                (Some st, Some backup) \<Rightarrow> write_new_file (resolve_path (we_cwd E) backup) (cgs_bytes st)
              | _ \<Rightarrow> return_io ()) (\<lambda>_.
     bind_io (advance_journal E journal_path BackedUp j) (\<lambda>j.
     bind_io (case (global_state, updated_state) of
                (Some st, Some b) \<Rightarrow> replace_file_if_hash_matches E (resolve_path (we_cwd E) (cgs_path st))
                  (case wcj_original_state_sha256 j of None \<Rightarrow> [] | Some h \<Rightarrow> h) b
              | _ \<Rightarrow> return_io ()) (\<lambda>_.
     bind_io (advance_journal E journal_path ProjectStateUpdated j) (\<lambda>j.
     bind_io (create_dir_all_io quarantine_root) (\<lambda>_.
     bind_io (foreach_io (\<lambda>x _. move_empty_directory (resolve_path (we_cwd E) (qw_original_path x))
                (resolve_path (we_cwd E) (qw_quarantine_path x))) (wcj_planned_quarantines j) ()) (\<lambda>_.
     return_io j))))))"

definition edited_state :: "cleanup_env \<Rightarrow> string list \<Rightarrow> codex_global_state option \<Rightarrow> string + (bytes option \<times> nat \<times> nat)" where
  "edited_state E selected global_state = (case global_state of
     None \<Rightarrow> Inr (None, 0, 0)
   | Some st \<Rightarrow> bindr (remove_codex_project_paths selected (cgs_value st)) (\<lambda>(value', r).
       Inr (if cc_changed r then Some (write_canonical_json_v4 (ce_json E) value') else None,
         cc_removed_projects r, cc_removed_assignments r)))"

definition prepared_journal ::
  "cleanup_env \<Rightarrow> path \<Rightarrow> string \<Rightarrow> uuid \<Rightarrow> string \<Rightarrow> workspace_path_entry list \<Rightarrow> codex_global_state option
     \<Rightarrow> bytes option \<Rightarrow> nat \<Rightarrow> nat \<Rightarrow> quarantined_workspace_directory list \<Rightarrow> workspace_cleanup_journal" where
  "prepared_journal E root home u now selected global_state updated projects assignments planned =
     \<lparr>wcj_schema_version = WORKSPACE_CLEANUP_JOURNAL_SCHEMA_VERSION, wcj_operation_id = u, wcj_codex_home = home,
      wcj_requested_paths = map wpe_path selected, wcj_status = Preparing,
      wcj_global_state_path = map_option cgs_path global_state,
      wcj_global_state_backup = (if global_state \<noteq> None \<and> updated \<noteq> None
        then Some (path_text (root @ [''backups'', ''workspace-cleanup-'' @ we_uuid_text E u, ''codex-global-state.json''])) else None),
      wcj_original_state_sha256 = (case (global_state, updated) of (Some st, Some _) \<Rightarrow> Some (sha256_bytes E (cgs_bytes st)) | _ \<Rightarrow> None),
      wcj_updated_state_sha256 = map_option (sha256_bytes E) updated,
      wcj_planned_quarantines = planned, wcj_removed_codex_projects = projects,
      wcj_removed_thread_assignments = assignments, wcj_created_at = now, wcj_updated_at = now, wcj_error = None\<rparr>"

definition run_cleanup ::
  "cleanup_env \<Rightarrow> path \<Rightarrow> path \<Rightarrow> codex_global_state option \<Rightarrow> bytes option \<Rightarrow> workspace_cleanup_journal
     \<Rightarrow> workspace_cleanup_result io" where
  "run_cleanup E journal_path quarantine_root global_state updated j =
     bind_io (write_workspace_cleanup_journal E journal_path j) (\<lambda>_.
     bind_io (catch_io (apply_cleanup E journal_path quarantine_root global_state updated j) (\<lambda>e.
       catch_io (bind_io (rollback_workspace_cleanup E journal_path (j\<lparr>wcj_error := Some e\<rparr>)) (\<lambda>_. lift_res (Inl e)))
         (\<lambda>_. lift_res (Inl e)))) (\<lambda>j.
     bind_io (advance_journal E journal_path Completed j) (\<lambda>j.
     return_io \<lparr>wcs_quarantined = wcj_planned_quarantines j, wcs_removed_codex_projects = wcj_removed_codex_projects j,
       wcs_removed_thread_assignments = wcj_removed_thread_assignments j,
       wcs_backup_path = wcj_global_state_backup j, wcs_journal_path = path_text journal_path\<rparr>)))"

text \<open>The cleanup once earlier ones are recovered.\<close>

definition start_cleanup ::
  "cleanup_env \<Rightarrow> path \<Rightarrow> string \<Rightarrow> uuid \<Rightarrow> uuid \<Rightarrow> string list \<Rightarrow> workspace_cleanup_result io" where
  "start_cleanup E root home remote_id namespace_id requested =
     bind_io (cleanup_report E root home remote_id namespace_id) (\<lambda>report.
     let available = bt_of_list (map (\<lambda>e. (normalize_workspace_path_for_match (wpe_path e), e)) (filter wpe_cleanup_eligible (wcr_entries report))) in
     bind_io (lift_res (foldr_res (select_step available) requested ([], []))) (\<lambda>(_, selected).
     bind_io (ask_io (we_uuid E)) (\<lambda>u.
     let operation = we_uuid_text E u; quarantine_root = root @ [''quarantine'', ''empty-workspaces''];
         planned = plan_quarantines quarantine_root operation selected;
         identities = btree_set (map (\<lambda>e. normalize_workspace_path_for_match (wpe_path e)) selected) in
     bind_io (load_codex_global_state E home) (\<lambda>global_state.
     bind_io (lift_res (edited_state E identities global_state)) (\<lambda>(updated, projects, assignments).
     bind_io (lift_res (ensure (\<not> (planned = [] \<and> updated = None))
       ''workspace cleanup no longer has any directory or Codex project state to change'')) (\<lambda>_.
     bind_io (ask_io (we_now E)) (\<lambda>now.
     run_cleanup E (root @ [''journal'', ''workspace-cleanup-'' @ operation @ ''.json'']) quarantine_root global_state updated
       (prepared_journal E root home u now selected global_state updated projects assignments planned))))))))"

definition quarantine_empty_directories ::
  "cleanup_env \<Rightarrow> path \<Rightarrow> string \<Rightarrow> uuid \<Rightarrow> uuid \<Rightarrow> string list \<Rightarrow> workspace_cleanup_result io" where
  "quarantine_empty_directories E root home remote_id namespace_id requested =
     bind_io (lift_res (ensure (requested \<noteq> []) ''at least one workspace cleanup path is required'')) (\<lambda>_.
     bind_io (lift_res (ensure (length requested \<le> MAX_WORKSPACE_MAPPINGS) ''workspace cleanup exceeds the path safety limit'')) (\<lambda>_.
     bind_io (recover_incomplete_workspace_cleanups E root home) (\<lambda>_.
     start_cleanup E root home remote_id namespace_id requested)))"

end
