(* ===== verification/CleanupSafety.thy ===== *)
theory CleanupSafety
  imports WorkspaceCleanup
begin

text \<open>
  A cleanup of workspaces never loses a file: whatever call fails, a file other than the sidebar state
  and the journal keeps its content, because only directories without entries are moved and new
  files are created where nothing was.
\<close>

section \<open>A file that stays\<close>

definition file_in :: "path \<Rightarrow> bytes \<Rightarrow> volume \<Rightarrow> bool" where
  "file_in p b v \<longleftrightarrow> p \<noteq> [] \<and> entry_at v p = Some (FileEntry b) \<and> (\<forall>n < length p. dir_at v (take n p))"

lemma dir_file: "q \<noteq> [] \<Longrightarrow> dir_at v q \<longleftrightarrow> entry_at v q = Some DirEntry"
  by (simp add: dir_at_def)

lemma ancestor_dir: "file_in p b v \<Longrightarrow> under q p \<Longrightarrow> q \<noteq> p \<Longrightarrow> dir_at v q"
  unfolding file_in_def under_def by (metis append_take_drop_id le_less_linear take_all_iff)

lemma file_in_cong:
  assumes "file_in p b v" and "\<And>q. under q p \<Longrightarrow> q \<noteq> [] \<Longrightarrow> entry_at v' q = entry_at v q"
    and "entry_at v' p = Some (FileEntry b)"
  shows "file_in p b v'"
proof -
  have "dir_at v' (take n p)" if "n < length p" for n
  proof (cases "take n p = []")
    case False
    have "under (take n p) p" by (simp add: under_def min_def)
    then have "entry_at v' (take n p) = entry_at v (take n p)" using assms(2) False by blast
    moreover have "dir_at v (take n p)" using assms(1) that by (simp add: file_in_def)
    ultimately show ?thesis using False by (simp add: dir_at_def)
  qed (simp add: dir_at_def)
  then show ?thesis using assms(1,3) by (simp add: file_in_def)
qed

lemma file_in_nonroot: "file_in p b v \<Longrightarrow> under q p \<Longrightarrow> q \<noteq> [] \<Longrightarrow> q \<noteq> p \<Longrightarrow> entry_at v q = Some DirEntry"
  using ancestor_dir dir_file by blast

lemma file_in_create_dirs: "fs_create_dir_all x v = Inr v' \<Longrightarrow> file_in p b v \<Longrightarrow> file_in p b v'"
  using fs_create_dir_all_entry [of x v v'] unfolding file_in_def dir_at_def by (metis option.distinct(1))

lemma file_in_write:
  assumes "fs_write q c v = Inr v'" and "file_in p b v" and "q \<noteq> p"
  shows "file_in p b v'"
proof (rule file_in_cong [OF assms(2)])
  have "\<not> dir_at v q" using assms(1) by (auto simp: fs_write_def bindr_eq_Inr_iff)
  then show "entry_at v' x = entry_at v x" if "under x p" "x \<noteq> []" for x
    using ancestor_dir [OF assms(2) that(1)] fs_write_entry [OF assms(1), of x] assms(3) by auto
  show "entry_at v' p = Some (FileEntry b)"
    using fs_write_entry [OF assms(1), of p] assms(2,3) by (simp add: file_in_def)
qed

lemma file_in_exists: "file_in p b v \<Longrightarrow> exists_at v p"
  by (simp add: file_in_def exists_at_def)

lemma file_in_create_new:
  assumes "fs_create_new q v = Inr v'" and "file_in p b v"
  shows "q \<noteq> p" and "file_in p b v'"
  using assms file_in_exists [OF assms(2)] file_in_write [of q "[]" v v' p b]
  by (auto simp: fs_create_new_def bindr_eq_Inr_iff)

lemma file_in_remove_file:
  assumes "fs_remove_file q v = Inr v'" and "file_in p b v" and "q \<noteq> p"
  shows "file_in p b v'"
proof (rule file_in_cong [OF assms(2)])
  have isfile: "\<exists>c. entry_at v q = Some (FileEntry c)"
    using assms(1) by (auto simp: fs_remove_file_def bindr_eq_Inr_iff file_at_def split: option.splits entry.splits)
  show "entry_at v' x = entry_at v x" if "under x p" "x \<noteq> []" for x
    using file_in_nonroot [OF assms(2) that] fs_remove_file_entry [OF assms(1), of x] isfile assms(3) by (cases "x = p") auto
  show "entry_at v' p = Some (FileEntry b)"
    using fs_remove_file_entry [OF assms(1), of p] assms(2,3) by (simp add: file_in_def)
qed

lemma in_volume: "entry_at v p = Some e \<Longrightarrow> (p, e) \<in> set v"
  by (simp add: entry_at_def map_of_SomeD)

lemma file_in_remove_dir:
  assumes "fs_remove_dir q v = Inr v'" and "file_in p b v"
  shows "file_in p b v'"
proof (rule file_in_cong [OF assms(2)])
  have q: "q \<noteq> []" "dir_at v q" "\<not> list_ex (\<lambda>(x, _). under q x \<and> x \<noteq> q) v"
    using assms(1) by (auto simp: fs_remove_dir_def bindr_eq_Inr_iff)
  have "q \<noteq> p" using q(1,2) assms(2) by (auto simp: file_in_def dir_file)
  then have nu: "\<not> under q p" using q(3) in_volume [of v p] assms(2) by (auto simp: list_ex_iff file_in_def)
  show "entry_at v' x = entry_at v x" if "under x p" "x \<noteq> []" for x
    using fs_remove_dir_entry [OF assms(1), of x] nu that by auto
  show "entry_at v' p = Some (FileEntry b)"
    using fs_remove_dir_entry [OF assms(1), of p] assms(2) \<open>q \<noteq> p\<close> by (simp add: file_in_def)
qed

lemma file_in_create_dir:
  assumes "fs_create_dir q v = Inr v'" and "file_in p b v"
  shows "file_in p b v'" and "\<not> under q p"
proof -
  have q: "\<not> exists_at v q" "v' = set_entry q DirEntry v" using assms(1) by (auto simp: fs_create_dir_def bindr_eq_Inr_iff)
  have "exists_at v x" if "under x p" for x
    using ancestor_dir [OF assms(2) that] file_in_exists [OF assms(2)] by (cases "x = p") (auto simp: exists_at_def dir_at_def)
  then show nu: "\<not> under q p" using q(1) by blast
  then have "q \<noteq> p" by auto
  then show "file_in p b v'"
    using nu assms(2) by (intro file_in_cong [OF assms(2)]) (auto simp: q(2) entry_at_set file_in_def)
qed

lemma entry_at_untouched:
  assumes "\<not> under s q" and "\<not> under d q"
  shows "entry_at (map (move_entry s d) (drop_under d v)) q = entry_at v q"
proof (induction v)
  case (Cons x v)
  obtain p e where x: "x = (p, e)" by (cases x)
  have "d @ drop (length s) p \<noteq> q" using assms(2) by (metis under_append)
  then show ?case using Cons assms by (auto simp: drop_under_def entry_at_def move_entry_def x)
qed (simp add: entry_at_def drop_under_def)

text \<open>A rename that does not move the file and does not end on it.\<close>

lemma file_in_rename:
  assumes "fs_rename s d v = Inr v'" and "file_in p b v" and "\<not> under s p" and "d \<noteq> p \<or> entry_at v s = Some DirEntry"
  shows "file_in p b v'" and "s \<noteq> d \<Longrightarrow> \<not> under d p"
proof -
  have r: "d \<noteq> []" "entry_at v s \<noteq> None" using assms(1) by (auto simp: fs_rename_def bindr_eq_Inr_iff)
  show nu: "\<not> under d p" if "s \<noteq> d"
  proof
    assume u: "under d p"
    show False
    proof (cases "d = p")
      case True
      then show False using assms(1,2,4) that by (auto simp: fs_rename_def bindr_eq_Inr_iff file_in_def)
    next
      case False
      have "entry_at v d = Some DirEntry" using file_in_nonroot [OF assms(2) u r(1) False] .
      then have "\<not> list_ex (\<lambda>(q, _). under d q \<and> q \<noteq> d) v"
        using assms(1) that by (auto simp: fs_rename_def bindr_eq_Inr_iff)
      then show False using in_volume [of v p] assms(2) u False by (auto simp: list_ex_iff file_in_def)
    qed
  qed
  show "file_in p b v'"
  proof (cases "s = d")
    case True
    then show ?thesis using assms(1,2) by (auto simp: fs_rename_def bindr_eq_Inr_iff)
  next
    case False
    then have v': "v' = map (move_entry s d) (drop_under d v)" using assms(1) by (auto simp: fs_rename_def bindr_eq_Inr_iff)
    have same: "entry_at v' x = entry_at v x" if "under x p" for x
    proof -
      have "under y x \<Longrightarrow> under y p" for y using that by (auto simp: under_iff)
      then show ?thesis unfolding v' using assms(3) nu [OF False] by (intro entry_at_untouched) blast+
    qed
    show ?thesis using same same [of p] assms(2) by (intro file_in_cong [OF assms(2)]) (auto simp: file_in_def)
  qed
qed

section \<open>The operations\<close>

lemma keeps_triple: "keeps I m \<longleftrightarrow> io_triple I m (\<lambda>_. I) I"
proof -
  have "(case m F d of (Inr a, d') \<Rightarrow> I (volume_of d') | (Inl e, d') \<Rightarrow> I (volume_of d')) = I (volume_of (snd (m F d)))"
    for F :: faults and d :: disk by (simp split: prod.split sum.split)
  then show ?thesis by (simp add: keeps_def io_triple_def)
qed

lemma keeps_ignore [keeps_rules]: "keeps I m \<Longrightarrow> keeps I (ignore_io m)"
  unfolding ignore_io_def by (intro keeps_rules)

lemma keeps_let [keeps_rules]: "(\<And>x. keeps I (f x)) \<Longrightarrow> keeps I (Let x f)"
  by simp

lemma keeps_case_prod [keeps_rules]: "(\<And>x y. keeps I (f x y)) \<Longrightarrow> keeps I (case z of (x, y) \<Rightarrow> f x y)"
  by (cases z) simp

lemmas file_in_rules = keeps_atomic [OF file_in_remove_dir] keeps_atomic [OF file_in_create_dir(1)]
  keeps_create_dir_all [OF file_in_create_dirs]

lemma keeps_new_directories: "keeps (file_in p b) (create_dir_all_io q)"
  by (rule keeps_create_dir_all) (erule file_in_create_dirs)

lemma keeps_remove_dir: "keeps (file_in p b) (atomic_io (fs_remove_dir q))"
  by (rule keeps_atomic) (erule file_in_remove_dir)

text \<open>A new file appears where nothing was, so it is another one.\<close>

lemma new_file_triple:
  "io_triple (file_in p b) (write_new_file q c)
     (\<lambda>_ v. q \<noteq> p \<and> file_in p b v \<and> entry_at v q = Some (FileEntry c)) (file_in p b)"
proof -
  have create: "io_triple (file_in p b) (atomic_io (fs_create_new q)) (\<lambda>_ v. q \<noteq> p \<and> file_in p b v) (file_in p b)"
    using file_in_create_new by (intro io_atomic) blast+
  have wr: "io_triple (\<lambda>v. q \<noteq> p \<and> file_in p b v) (write_io q c)
      (\<lambda>_ v. q \<noteq> p \<and> file_in p b v \<and> entry_at v q = Some (FileEntry c)) (file_in p b)"
    using file_in_write by (intro io_write) (auto simp: fs_write_entry)
  have sync: "io_triple (\<lambda>v. q \<noteq> p \<and> file_in p b v \<and> entry_at v q = Some (FileEntry c)) (read_io (\<lambda>_. Inr ()))
      (\<lambda>_ v. q \<noteq> p \<and> file_in p b v \<and> entry_at v q = Some (FileEntry c)) (file_in p b)"
    by (intro io_read) auto
  show ?thesis unfolding write_new_file_def
    by (intro io_bind [OF keeps_new_directories [unfolded keeps_triple]] io_bind [OF create] io_bind [OF wr] sync)
qed

lemma keeps_new_file: "keeps (file_in p b) (write_new_file q c)"
  unfolding keeps_triple by (rule io_conseq [OF new_file_triple]) auto

lemma file_not_above: "file_in p b v \<Longrightarrow> entry_at v q = Some (FileEntry c) \<Longrightarrow> q \<noteq> p \<Longrightarrow> q \<noteq> [] \<Longrightarrow> \<not> under q p"
  using file_in_nonroot by fastforce

text \<open>A complete temporary file takes the name of another file.\<close>

lemma keeps_install:
  assumes "t \<noteq> p" and "temporary \<noteq> t" and "temporary \<noteq> []"
  shows "io_triple (\<lambda>v. temporary \<noteq> p \<and> file_in p b v \<and> entry_at v temporary = Some (FileEntry c))
    (atomic_io (fs_remove_file t)) (\<lambda>_ v. temporary \<noteq> p \<and> file_in p b v \<and> entry_at v temporary = Some (FileEntry c)) (file_in p b)"
    and "io_triple (\<lambda>v. temporary \<noteq> p \<and> file_in p b v \<and> entry_at v temporary = Some (FileEntry c))
      (atomic_io (fs_rename temporary t)) (\<lambda>_. file_in p b) (\<lambda>v. temporary \<noteq> p \<and> file_in p b v)"
proof -
  show "io_triple (\<lambda>v. temporary \<noteq> p \<and> file_in p b v \<and> entry_at v temporary = Some (FileEntry c))
    (atomic_io (fs_remove_file t)) (\<lambda>_ v. temporary \<noteq> p \<and> file_in p b v \<and> entry_at v temporary = Some (FileEntry c)) (file_in p b)"
    using assms file_in_remove_file by (intro io_atomic) (auto simp: fs_remove_file_entry)
  show "io_triple (\<lambda>v. temporary \<noteq> p \<and> file_in p b v \<and> entry_at v temporary = Some (FileEntry c))
      (atomic_io (fs_rename temporary t)) (\<lambda>_. file_in p b) (\<lambda>v. temporary \<noteq> p \<and> file_in p b v)"
    using assms file_in_rename(1) file_not_above by (intro io_atomic) blast+
qed

lemma keeps_read_file: "keeps I (read_file q)"
  unfolding read_file_def by (rule keeps_read)

lemma keeps_replace:
  assumes "t \<noteq> p"
  shows "keeps (file_in p b) (replace_file_if_hash_matches E t expected c)"
proof -
  have ne: "replacement_temporary t u \<noteq> t" "replacement_temporary t u \<noteq> []" for u
  proof -
    show "replacement_temporary t u \<noteq> []" by (simp add: replacement_temporary_def)
    have "length (last t) < length (last (replacement_temporary t u))" by (simp add: replacement_temporary_def)
    then show "replacement_temporary t u \<noteq> t" by fastforce
  qed
  let ?R = "\<lambda>u v. replacement_temporary t u \<noteq> p \<and> file_in p b v \<and> entry_at v (replacement_temporary t u) = Some (FileEntry c)"
  have rename: "io_triple (?R u) (catch_io (atomic_io (fs_rename (replacement_temporary t u) t)) (\<lambda>e.
       bind_io (ignore_io (atomic_io (fs_remove_file (replacement_temporary t u)))) (\<lambda>_. lift_res (Inl e))))
      (\<lambda>_. file_in p b) (file_in p b)" for u
  proof (rule io_catch [OF keeps_install(2) [OF assms ne]])
    let ?S = "\<lambda>v. replacement_temporary t u \<noteq> p \<and> file_in p b v"
    have "keeps ?S (ignore_io (atomic_io (fs_remove_file (replacement_temporary t u))))"
      by (intro keeps_ignore keeps_atomic) (auto intro: file_in_remove_file)
    then show "io_triple ?S (bind_io (ignore_io (atomic_io (fs_remove_file (replacement_temporary t u)))) (\<lambda>_. lift_res (Inl e)))
        (\<lambda>_. file_in p b) (file_in p b)" for e
      unfolding keeps_triple by (intro io_bind [where R = "\<lambda>_. ?S"] io_lift) (erule io_conseq, auto)
  qed
  have rest: "io_triple (file_in p b) (bind_io (read_file t) (\<lambda>installed.
     lift_res (ensure (sha256_bytes E installed = sha256_bytes E c) ''workspace cleanup replacement failed validation'')))
     (\<lambda>_. file_in p b) (file_in p b)"
    unfolding keeps_triple [symmetric] read_file_def by (intro keeps_rules)
  have body: "io_triple (file_in p b) (bind_io (write_new_file (replacement_temporary t u) c) (\<lambda>_.
     bind_io (atomic_io (fs_remove_file t)) (\<lambda>_.
     bind_io (catch_io (atomic_io (fs_rename (replacement_temporary t u) t)) (\<lambda>e.
       bind_io (ignore_io (atomic_io (fs_remove_file (replacement_temporary t u)))) (\<lambda>_. lift_res (Inl e)))) (\<lambda>_.
     bind_io (read_file t) (\<lambda>installed.
     lift_res (ensure (sha256_bytes E installed = sha256_bytes E c) ''workspace cleanup replacement failed validation''))))))
     (\<lambda>_. file_in p b) (file_in p b)" for u
    by (intro io_bind [OF new_file_triple] io_bind [OF keeps_install(1) [OF assms ne]] io_bind [OF rename] rest)
  then show ?thesis
    unfolding replace_file_if_hash_matches_def Let_def keeps_triple [symmetric]
    by (rule keeps_bind [OF keeps_read_file keeps_bind [OF keeps_lift keeps_bind [OF keeps_ask]]])
qed

lemma keeps_journal:
  assumes "t \<noteq> p" and "last t \<noteq> []" and "take 1 (last t) \<noteq> ''.''"
  shows "keeps (file_in p b) (write_workspace_cleanup_journal E t j)"
proof -
  have ne: "journal_temporary t u \<noteq> t" "journal_temporary t u \<noteq> []" for u
    using assms(3) by (auto simp: journal_temporary_def) (metis append_Cons append_Nil last_snoc take0 take_Suc_Cons One_nat_def)
  let ?R = "\<lambda>u v. journal_temporary t u \<noteq> p \<and> file_in p b v \<and> entry_at v (journal_temporary t u) = Some (FileEntry (ce_encode_journal E j))"
  have remove: "io_triple (?R u) (if present then atomic_io (fs_remove_file t) else return_io ()) (\<lambda>_. ?R u) (file_in p b)" for u present
    using keeps_install(1) [OF assms(1) ne] by (cases present) (auto intro!: io_lift)
  have present: "io_triple (?R u) (exists_quietly t) (\<lambda>_. ?R u) (file_in p b)" for u
    unfolding exists_quietly_def by (rule io_catch [of _ _ _ "?R u"]) (auto intro!: io_read io_lift)
  have rename: "io_triple (?R u) (atomic_io (fs_rename (journal_temporary t u) t)) (\<lambda>_. file_in p b) (file_in p b)" for u
    by (rule io_conseq [OF keeps_install(2) [OF assms(1) ne]]) auto
  have body: "keeps (file_in p b) (bind_io (write_new_file (journal_temporary t u) (ce_encode_journal E j)) (\<lambda>_.
     bind_io (exists_quietly t) (\<lambda>present.
     bind_io (if present then atomic_io (fs_remove_file t) else return_io ()) (\<lambda>_.
     atomic_io (fs_rename (journal_temporary t u) t)))))" for u
    unfolding keeps_triple
    by (intro io_bind [OF new_file_triple] io_bind [OF present] io_bind [OF remove] rename)
  show ?thesis
    unfolding write_workspace_cleanup_journal_def Let_def
    by (intro keeps_bind keeps_new_directories keeps_ask body)
qed

section \<open>Moving a directory\<close>

lemma empty_not_above:
  assumes "read_dir v q = Inr []" and "file_in p b v" and "q \<noteq> p"
  shows "\<not> under q p"
proof
  assume "under q p"
  then obtain w where w: "p = q @ w" by (auto simp: under_iff)
  with assms(3) obtain x t where p: "p = q @ x # t" by (cases w) auto
  then have "exists_at v (q @ [x])"
    using ancestor_dir [OF assms(2), of "q @ [x]"] file_in_exists [OF assms(2)]
    by (cases t) (auto simp: under_iff exists_at_def dir_at_def)
  then obtain e where "(q @ [x], e) \<in> set v" by (auto simp: exists_at_def dest: in_volume)
  then show False using assms(1) by (force simp: read_dir_def bindr_eq_Inr_iff filter_empty_conv)
qed

lemma io_read_same: "io_triple I (read_io f) (\<lambda>a v. I v \<and> f v = Inr a) I"
  by (rule io_read) auto

text \<open>A directory without entries moves over nothing, so no file moves with it or is replaced.\<close>

lemma keeps_move: "keeps (file_in p b) (move_empty_directory s d)"
proof -
  let ?I = "file_in p b"
  let ?D = "\<lambda>v. ?I v \<and> (s = [] \<or> entry_at v s = Some DirEntry)"
  let ?R = "\<lambda>v. ?D v \<and> (s = [] \<or> \<not> under s p)"
  let ?Q = "\<lambda>v. ?I v \<and> s \<noteq> p \<and> (s \<noteq> d \<longrightarrow> \<not> under d p)"
  have sp: "s \<noteq> p" if "?D v" for v using that by (auto simp: file_in_def)
  have rename: "io_triple ?R (atomic_io (fs_rename s d)) (\<lambda>_. ?Q) ?R"
  proof (rule io_atomic)
    fix v v' assume r: "?R v" and v': "fs_rename s d v = Inr v'"
    have "s \<noteq> []" using v' by (auto simp: fs_rename_def bindr_eq_Inr_iff)
    with r have "entry_at v s = Some DirEntry" "\<not> under s p" "?I v" by auto
    with file_in_rename [OF v'] sp r show "?Q v'" by blast
  qed
  have across: "io_triple ?R (move_across_devices s d) (\<lambda>_. ?Q) ?I"
  proof -
    let ?C = "\<lambda>v. ?I v \<and> s \<noteq> p \<and> \<not> under d p"
    have make: "io_triple ?R (atomic_io (fs_create_dir d)) (\<lambda>_. ?C) ?I"
      using file_in_create_dir sp by (intro io_atomic) auto
    have drop_dir: "keeps ?C (atomic_io (fs_remove_dir q))" for q
      using file_in_remove_dir by (intro keeps_atomic) blast
    have rest: "keeps ?C (bind_io (directory_is_empty s) (\<lambda>empty.
       bind_io (if empty then return_io () else
         bind_io (ignore_io (atomic_io (fs_remove_dir d))) (\<lambda>_.
           lift_res (Inl ''workspace directory changed during cleanup; cleanup was refused''))) (\<lambda>_.
       catch_io (atomic_io (fs_remove_dir s)) (\<lambda>e.
         bind_io (ignore_io (atomic_io (fs_remove_dir d))) (\<lambda>_. lift_res (Inl e))))))"
      unfolding directory_is_empty_def by (intro keeps_bind keeps_read keeps_if keeps_lift keeps_ignore keeps_catch drop_dir)
    show ?thesis unfolding move_across_devices_def
      by (rule io_bind [OF make]) (rule io_conseq [OF rest [unfolded keeps_triple]], auto)
  qed
  have moved: "io_triple ?R (catch_io (atomic_io (fs_rename s d)) (\<lambda>e.
       if e = CROSSES_DEVICES then move_across_devices s d else lift_res (Inl e))) (\<lambda>_. ?Q) ?I"
    using across by (intro io_catch [OF rename]) (auto intro!: io_lift)
  have undo: "io_triple ?Q (bind_io (directory_is_empty d) (\<lambda>empty.
     if empty then return_io () else bind_io (ignore_io (atomic_io (fs_rename d s))) (\<lambda>_.
         lift_res (Inl ''quarantined workspace changed during cleanup; the original was restored'')))) (\<lambda>_. ?I) ?I"
  proof -
    have "keeps ?Q (atomic_io (fs_rename d s))"
    proof (rule keeps_atomic)
      fix v v' assume q: "?Q v" and v': "fs_rename d s v = Inr v'"
      show "?Q v'"
      proof (cases "s = d")
        case True
        then show ?thesis using q v' by (auto simp: fs_rename_def bindr_eq_Inr_iff)
      next
        case False
        then show ?thesis using q file_in_rename(1) [OF v'] by blast
      qed
    qed
    then have "keeps ?Q (bind_io (directory_is_empty d) (\<lambda>empty.
      if empty then return_io () else bind_io (ignore_io (atomic_io (fs_rename d s))) (\<lambda>_.
         lift_res (Inl ''quarantined workspace changed during cleanup; the original was restored''))))"
      unfolding directory_is_empty_def by (intro keeps_bind keeps_read keeps_if keeps_lift keeps_ignore)
    then show ?thesis unfolding keeps_triple by (rule io_conseq) auto
  qed
  have kind: "io_triple (\<lambda>v. ?I v \<and> (s \<noteq> [] \<longrightarrow> entry_at v s = m)) (lift_res (ok_or e0 m))
      (\<lambda>e v. ?I v \<and> (s \<noteq> [] \<longrightarrow> entry_at v s = Some e)) ?I" for m e0
    by (rule io_lift) auto
  have isdir: "io_triple (\<lambda>v. ?I v \<and> (s \<noteq> [] \<longrightarrow> entry_at v s = Some e)) (lift_res (ensure (e = DirEntry) e0)) (\<lambda>_. ?D) ?I" for e e0
    by (rule io_lift) auto
  have empty: "io_triple ?D (directory_is_empty s) (\<lambda>empty v. ?D v \<and> (empty \<longrightarrow> read_dir v s = Inr [])) ?I"
    unfolding directory_is_empty_def by (rule io_read) (auto simp: bindr_eq_Inr_iff)
  have isempty: "io_triple (\<lambda>v. ?D v \<and> (empty \<longrightarrow> read_dir v s = Inr [])) (lift_res (ensure empty e0)) (\<lambda>_. ?R) ?I" for empty e0
    using empty_not_above [of _ s p b] sp by (intro io_lift) auto
  have meta: "io_triple ?I (metadata_io s) (\<lambda>m v. ?I v \<and> (s \<noteq> [] \<longrightarrow> entry_at v s = m)) ?I"
    unfolding metadata_io_def by (rule io_read) (auto split: if_splits)
  show ?thesis
    unfolding keeps_triple move_empty_directory_def
    by (intro io_bind [OF meta] io_bind [OF kind] io_bind [OF isdir] io_bind [OF empty] io_bind [OF isempty] io_bind [OF moved] undo)
qed

section \<open>The whole cleanup\<close>

lemma keeps_exists_quietly [keeps_rules]: "keeps I (exists_quietly q)"
  unfolding exists_quietly_def by (intro keeps_rules)

lemma keeps_rollback_directory: "keeps (file_in p b) (rollback_directory E x)"
  unfolding rollback_directory_def Let_def
  by (intro keeps_bind keeps_if keeps_exists_quietly keeps_lift keeps_new_directories keeps_move)

lemma keeps_rollback_state:
  assumes "\<And>live. wcj_global_state_path j = Some live \<Longrightarrow> resolve_path (we_cwd E) live \<noteq> p"
  shows "keeps (file_in p b) (rollback_state E j)"
proof -
  have "keeps (file_in p b) (bind_io (read_file q) (\<lambda>backup_bytes.
           bind_io (lift_res (ensure (sha256_bytes E backup_bytes = h) e1)) (\<lambda>_.
           bind_io (read_existing t) (\<lambda>r. case r of
             None \<Rightarrow> write_new_file t backup_bytes
           | Some c \<Rightarrow> if sha256_bytes E c = h then return_io ()
               else if sha256_bytes E c = g then replace_file_if_hash_matches E t g backup_bytes
               else lift_res (Inl e2)))))" if "t \<noteq> p" for q h e1 t g e2
    unfolding read_existing_def
    by (intro keeps_bind keeps_read_file keeps_lift keeps_read keeps_option_case keeps_if keeps_new_file keeps_replace that)
  then show ?thesis
    using assms unfolding rollback_state_def Let_def by (auto simp: keeps_lift split: option.split)
qed

definition journal_name :: "path \<Rightarrow> bool" where
  "journal_name t \<longleftrightarrow> take 1 (last t) \<noteq> ''.'' \<and> last t \<noteq> []"

lemma keeps_rollback:
  assumes "t \<noteq> p" and "journal_name t"
    and "\<And>live. wcj_global_state_path j = Some live \<Longrightarrow> resolve_path (we_cwd E) live \<noteq> p"
  shows "keeps (file_in p b) (rollback_workspace_cleanup E t j)"
proof -
  have "keeps (file_in p b) (write_workspace_cleanup_journal E t k)" for k
    using assms(1,2) by (intro keeps_journal) (auto simp: journal_name_def)
  then show ?thesis
    unfolding rollback_workspace_cleanup_def
    by (intro keeps_bind keeps_foreach keeps_rollback_directory keeps_rollback_state keeps_ask) (use assms(3) in blast)+
qed

lemma keeps_advance:
  assumes "t \<noteq> p" and "journal_name t"
  shows "keeps (file_in p b) (advance_journal E t status j)"
proof -
  have "keeps (file_in p b) (write_workspace_cleanup_journal E t k)" for k
    using assms by (intro keeps_journal) (auto simp: journal_name_def)
  then show ?thesis unfolding advance_journal_def Let_def by (intro keeps_bind keeps_ask keeps_lift)
qed

lemma keeps_apply:
  assumes "t \<noteq> p" and "journal_name t"
    and "\<And>st. g = Some st \<Longrightarrow> resolve_path (we_cwd E) (cgs_path st) \<noteq> p"
  shows "keeps (file_in p b) (apply_cleanup E t q g updated j)"
proof -
  have "keeps (file_in p b) (case (g, wcj_global_state_backup j) of
      (Some st, Some backup) \<Rightarrow> write_new_file (resolve_path (we_cwd E) backup) (cgs_bytes st) | _ \<Rightarrow> return_io ())" for j :: workspace_cleanup_journal
    by (simp add: keeps_new_file keeps_lift split: option.split)
  moreover have "keeps (file_in p b) (case (g, updated) of
      (Some st, Some c) \<Rightarrow> replace_file_if_hash_matches E (resolve_path (we_cwd E) (cgs_path st))
        (case wcj_original_state_sha256 j of None \<Rightarrow> [] | Some h \<Rightarrow> h) c | _ \<Rightarrow> return_io ())" for j :: workspace_cleanup_journal
    using assms(3) by (auto simp: keeps_replace keeps_lift split: option.split)
  ultimately show ?thesis unfolding apply_cleanup_def
    by (intro keeps_bind keeps_advance keeps_new_directories keeps_foreach keeps_move keeps_lift assms)
qed

lemma keeps_run:
  assumes "t \<noteq> p" and "journal_name t"
    and "\<And>st. g = Some st \<Longrightarrow> resolve_path (we_cwd E) (cgs_path st) \<noteq> p"
    and "wcj_global_state_path j = map_option cgs_path g"
  shows "keeps (file_in p b) (run_cleanup E t q g updated j)"
proof -
  have w: "keeps (file_in p b) (write_workspace_cleanup_journal E t k)" for k
    using assms(1,2) by (intro keeps_journal) (auto simp: journal_name_def)
  have r: "keeps (file_in p b) (rollback_workspace_cleanup E t (j\<lparr>wcj_error := Some e\<rparr>))" for e
    using assms by (intro keeps_rollback) auto
  have a: "keeps (file_in p b) (apply_cleanup E t q g updated j)" by (rule keeps_apply) (use assms in auto)
  show ?thesis unfolding run_cleanup_def
    by (intro keeps_bind keeps_catch w r a keeps_lift keeps_advance assms(1,2))
qed

end
