(* ===== verification/CleanupProps.thy ===== *)
theory CleanupProps
  imports CleanupSafety
begin

text \<open>
  What a cleanup of workspaces may touch: it keeps every file but the sidebar state and its journals,
  and it offers only directories that no rule, thread, home or other project refers to.
\<close>

section \<open>No file is lost\<close>

lemma keeps_load_state [keeps_rules]: "keeps I (load_codex_global_state E home)"
  unfolding load_codex_global_state_def Let_def metadata_io_def
  by (intro keeps_bind keeps_read keeps_option_case keeps_lift keeps_read_file)

lemma keeps_scan_root_insert [keeps_rules]: "keeps I (insert_cleanup_scan_root cwd path roots)"
proof -
  have "keeps I (is_dir_quietly p)" for p unfolding is_dir_quietly_def by (intro keeps_rules)
  then show ?thesis unfolding insert_cleanup_scan_root_def Let_def
    by (intro keeps_option_case keeps_case_prod keeps_if keeps_bind keeps_read keeps_lift)
qed

lemma keeps_scan [keeps_rules]: "keeps I (scan_root root entries)"
  unfolding scan_root_def scan_child_def Let_def metadata_io_def directory_is_empty_def by (intro keeps_rules)

lemma keeps_judge [keeps_rules]: "keeps I (judge_entry E scoped protected projects x done_entries)"
proof -
  have "keeps I (case m of None \<Rightarrow> return_io Missing | Some (FileEntry _) \<Rightarrow> return_io NotDirectory
    | Some DirEntry \<Rightarrow> bind_io (directory_is_empty p) (\<lambda>empty. return_io (if empty then Empty else NonEmpty)))" for m p
    unfolding directory_is_empty_def by (cases m) (auto split: entry.split intro!: keeps_rules)
  then have "keeps I (workspace_directory_state_of p)" for p
    unfolding workspace_directory_state_of_def metadata_io_def by (intro keeps_bind keeps_read)
  then show ?thesis unfolding judge_entry_def Let_def by (intro keeps_case_prod keeps_bind keeps_lift)
qed

lemma keeps_home_key [keeps_rules]: "keeps I (codex_home_key cwd home)"
  unfolding codex_home_key_def by (rule keeps_read)

lemma keeps_load_workspaces [keeps_rules]: "keeps I (load_workspaces E root)"
  unfolding load_workspaces_def by (intro keeps_rules)

lemma report_keeps: "keeps I (cleanup_report E root home remote_id namespace_id)"
  unfolding cleanup_report_def report_of_def codex_home_key_def Let_def by (intro keeps_rules)

lemma state_path:
  "io_triple I (load_codex_global_state E home)
     (\<lambda>g v. I v \<and> (\<forall>st. g = Some st \<longrightarrow> cgs_path st = path_join home ''.codex-global-state.json'')) I"
proof -
  have pure: "\<forall>st. g = Some st \<longrightarrow> cgs_path st = path_join home ''.codex-global-state.json''"
    if "load_codex_global_state E home F d = (Inr g, d')" for F d d' g
    using that unfolding load_codex_global_state_def Let_def
    by (auto simp: bind_io_Inr lift_res_run split: option.splits)
  show ?thesis
    unfolding io_triple_def
  proof (intro allI impI)
    fix F :: faults and d :: disk
    assume I: "I (volume_of d)"
    obtain r d1 where run: "load_codex_global_state E home F d = (r, d1)" by fastforce
    have "I (volume_of d1)" using keeps_load_state [of I E home] I run unfolding keeps_def by (metis snd_conv)
    then show "case load_codex_global_state E home F d of
        (Inr g, d') \<Rightarrow> I (volume_of d') \<and> (\<forall>st. g = Some st \<longrightarrow> cgs_path st = path_join home ''.codex-global-state.json'')
      | (Inl e, d') \<Rightarrow> I (volume_of d')"
      using pure [of F d _ d1] run by (cases r) auto
  qed
qed

text \<open>C26: A cleanup of workspaces loses no file: whatever call fails, and whether it completes, stops or
  rolls back, every file other than the sidebar state and those of the journal directory keeps its
  place and its content.\<close>

theorem cleanup_keeps_files:
  assumes "p \<noteq> resolve_path (we_cwd E) (path_join home ''.codex-global-state.json'')"
    and "butlast p \<noteq> root @ [''journal'']"
  shows "keeps (file_in p b) (start_cleanup E root home remote_id namespace_id requested)"
proof -
  let ?I = "file_in p b"
  let ?G = "\<lambda>g. \<forall>st. g = Some st \<longrightarrow> cgs_path st = path_join home ''.codex-global-state.json''"
  let ?t = "\<lambda>u. root @ [''journal'', ''workspace-cleanup-'' @ we_uuid_text E u @ ''.json'']"
  have t: "?t u \<noteq> p" "journal_name (?t u)" for u
    using assms(2) by (auto simp: journal_name_def butlast_append)
  have run: "keeps ?I (run_cleanup E (?t u) q g updated (prepared_journal E root home u now sel g updated x y planned))"
    if "?G g" for u q g updated now sel x y planned
    using that assms(1) by (intro keeps_run t) (auto simp: prepared_journal_def)
  have rest: "io_triple (\<lambda>v. ?I v \<and> ?G g) (bind_io (lift_res (edited_state E ids g)) (\<lambda>(updated, projects, assignments).
     bind_io (lift_res (ensure (\<not> (planned = [] \<and> updated = None)) e0)) (\<lambda>_.
     bind_io (ask_io (we_now E)) (\<lambda>now.
     run_cleanup E (?t u) q g updated (prepared_journal E root home u now sel g updated projects assignments planned)))))
     (\<lambda>_. ?I) ?I" for g ids planned u q sel e0
  proof (cases "?G g")
    case True
    have "keeps ?I (bind_io (lift_res (edited_state E ids g)) (\<lambda>(updated, projects, assignments).
       bind_io (lift_res (ensure (\<not> (planned = [] \<and> updated = None)) e0)) (\<lambda>_.
       bind_io (ask_io (we_now E)) (\<lambda>now.
       run_cleanup E (?t u) q g updated (prepared_journal E root home u now sel g updated projects assignments planned)))))"
      by (intro keeps_bind keeps_lift keeps_case_prod keeps_ask run True)
    then show ?thesis unfolding keeps_triple by (rule io_conseq) auto
  next
    case False
    then show ?thesis by (auto simp: io_triple_def)
  qed
  have body: "keeps ?I (bind_io (load_codex_global_state E home) (\<lambda>g.
     bind_io (lift_res (edited_state E ids g)) (\<lambda>(updated, projects, assignments).
     bind_io (lift_res (ensure (\<not> (planned = [] \<and> updated = None)) e0)) (\<lambda>_.
     bind_io (ask_io (we_now E)) (\<lambda>now.
     run_cleanup E (?t u) q g updated (prepared_journal E root home u now sel g updated projects assignments planned))))))"
    for ids planned u q sel e0
    unfolding keeps_triple by (rule io_bind [OF state_path rest])
  show ?thesis unfolding start_cleanup_def Let_def
    by (rule keeps_bind [OF report_keeps], rule keeps_bind [OF keeps_lift], rule keeps_case_prod,
        rule keeps_bind [OF keeps_ask], rule body)
qed

section \<open>What may be removed\<close>

text \<open>An entry is kept under its own path.\<close>

definition entries_keyed :: "path_entries \<Rightarrow> bool" where
  "entries_keyed m \<longleftrightarrow> (\<forall>(k, e) \<in> set m. k = normalize_workspace_path_for_match (wpe_path e))"

lemma set_bt_insert_subset: "set (bt_insert k v m) \<subseteq> insert (k, v) (set m)"
  by (induction m) auto

lemma keyed_update:
  assumes "entries_keyed m" and "\<And>e. wpe_path (f e) = wpe_path e"
  shows "entries_keyed (update_path_entry path f m)"
proof -
  let ?k = "normalize_workspace_path_for_match (trim path)"
  let ?e = "f (case bt_get m ?k of None \<Rightarrow> new_entry (trim path) | Some e \<Rightarrow> e)"
  have "normalize_workspace_path_for_match (wpe_path ?e) = ?k"
  proof (cases "bt_get m ?k")
    case None
    then show ?thesis by (simp add: assms(2) new_entry_def)
  next
    case (Some e)
    then have "(?k, e) \<in> set m" by (simp add: bt_get_def map_of_SomeD)
    then show ?thesis using assms Some by (auto simp: entries_keyed_def)
  qed
  then have "\<forall>(k, e) \<in> insert (?k, ?e) (set m). k = normalize_workspace_path_for_match (wpe_path e)"
    using assms(1) by (simp add: entries_keyed_def)
  then show ?thesis
    using set_bt_insert_subset [of ?k ?e m] unfolding update_path_entry_def Let_def entries_keyed_def by blast
qed

lemma keyed_fold:
  "(\<And>x m. entries_keyed m \<Longrightarrow> entries_keyed (g x m)) \<Longrightarrow> entries_keyed m \<Longrightarrow> entries_keyed (fold g xs m)"
  by (induction xs arbitrary: m) auto

lemma keyed_collected: "entries_keyed (collected_entries scoped usage projects)"
  unfolding collected_entries_def add_project_def add_usage_def
  by (intro keyed_fold keyed_update) (auto simp: entries_keyed_def)

lemma keyed_scan:
  assumes "foreach_io scan_root roots m F d = (Inr m', d')" and "entries_keyed m"
  shows "entries_keyed m'"
proof -
  have child: "entries_keyed b" if "scan_child root name a F d = (Inr b, d')" "entries_keyed a" for root name a b d d'
    using that keyed_update [OF that(2), of "\<lambda>x. x"] unfolding scan_child_def Let_def
    by (auto simp: bind_io_Inr lift_res_run split: if_splits)
  have children: "entries_keyed b" if "foreach_io (scan_child root) names a F d = (Inr b, d')" "entries_keyed a"
    for root names a b d d'
    using that by (induction names arbitrary: a d) (auto simp: bind_io_Inr lift_res_run dest: child)
  have root: "entries_keyed b" if "scan_root root a F d = (Inr b, d')" "entries_keyed a" for root a b d d'
    using that unfolding scan_root_def by (auto simp: bind_io_Inr lift_res_run dest: children)
  show ?thesis using assms by (induction roots arbitrary: m d) (auto simp: bind_io_Inr lift_res_run dest: root)
qed

lemma directory_is_empty_run:
  "directory_is_empty p F d = (Inr b, d') \<Longrightarrow> volume_of d' = volume_of d \<and> (b \<longrightarrow> read_dir (volume_of d) p = Inr [])"
  unfolding directory_is_empty_def by (drule read_io_run) (auto simp: bindr_eq_Inr_iff)

lemma metadata_run: "metadata_io p F d = (Inr m, d') \<Longrightarrow> volume_of d' = volume_of d \<and> (m = None \<longrightarrow> entry_at (volume_of d) p = None)"
  unfolding metadata_io_def by (drule read_io_run) (auto split: if_splits)

lemma state_of_run:
  assumes "workspace_directory_state_of p F d = (Inr st, d')"
  shows "volume_of d' = volume_of d \<and> (st = Empty \<longrightarrow> read_dir (volume_of d) p = Inr [])
    \<and> (st = Missing \<longrightarrow> entry_at (volume_of d) p = None)"
proof -
  from assms obtain m d1 where m: "metadata_io p F d = (Inr m, d1)"
    and rest: "(case m of None \<Rightarrow> return_io Missing | Some (FileEntry _) \<Rightarrow> return_io NotDirectory
      | Some DirEntry \<Rightarrow> bind_io (directory_is_empty p) (\<lambda>empty. return_io (if empty then Empty else NonEmpty))) F d1 = (Inr st, d')"
    unfolding workspace_directory_state_of_def by (rule bind_io_run)
  note v1 = metadata_run [OF m]
  show ?thesis
  proof (cases m)
    case None
    then show ?thesis using rest v1 by (simp add: lift_res_run)
  next
    case (Some e)
    show ?thesis
    proof (cases e)
      case (FileEntry b)
      then show ?thesis using rest v1 Some by (simp add: lift_res_run)
    next
      case DirEntry
      then obtain b where "directory_is_empty p F d1 = (Inr b, d')" "st = (if b then Empty else NonEmpty)"
        using rest Some by (auto simp: bind_io_Inr lift_res_run)
      then show ?thesis using directory_is_empty_run [of p F d1 b d'] v1 by (cases b) simp_all
    qed
  qed
qed

definition judged :: "cleanup_env \<Rightarrow> volume \<Rightarrow> string list \<Rightarrow> string \<times> workspace_path_entry \<Rightarrow> bool" where
  "judged E v protected x \<longleftrightarrow> (wpe_cleanup_eligible (snd x) \<longrightarrow>
     \<not> list_ex (paths_overlap (fst x)) protected
     \<and> (read_dir v (resolve_path (we_cwd E) (wpe_path (snd x))) = Inr [] \<or> entry_at v (resolve_path (we_cwd E) (wpe_path (snd x))) = None))"

lemma judge_run:
  assumes "judge_entry E scoped protected ids (k, e) acc F d = (Inr acc', d')"
  shows "volume_of d' = volume_of d"
    and "\<exists>e'. acc' = acc @ [(k, e')] \<and> wpe_path e' = wpe_path e \<and> judged E (volume_of d) protected (k, e')"
proof -
  from assms obtain st where st: "workspace_directory_state_of (resolve_path (we_cwd E) (wpe_path e)) F d = (Inr st, d')"
    and acc': "acc' = acc @ [(k, e\<lparr>wpe_mappings := wpe_mappings e @ entry_mappings scoped k, wpe_directory_state := st,
      wpe_cleanup_eligible := eligible protected ids k (e\<lparr>wpe_mappings := wpe_mappings e @ entry_mappings scoped k, wpe_directory_state := st\<rparr>)\<rparr>)]"
    unfolding judge_entry_def Let_def by (auto simp: bind_io_Inr lift_res_run)
  show "volume_of d' = volume_of d" using state_of_run [OF st] by blast
  show "\<exists>e'. acc' = acc @ [(k, e')] \<and> wpe_path e' = wpe_path e \<and> judged E (volume_of d) protected (k, e')"
    using state_of_run [OF st] by (auto simp: acc' judged_def eligible_def)
qed

lemma judge_all_run:
  assumes "foreach_io (judge_entry E scoped protected ids) xs acc F d = (Inr ys, d')"
  shows "volume_of d' = volume_of d \<and> (\<forall>y \<in> set ys. y \<in> set acc \<or> judged E (volume_of d) protected y
    \<and> (\<exists>x \<in> set xs. fst x = fst y \<and> wpe_path (snd x) = wpe_path (snd y)))"
  using assms
proof (induction xs arbitrary: acc d)
  case (Cons x xs)
  obtain k e where x: "x = (k, e)" by fastforce
  from Cons.prems obtain acc1 d1 where a: "judge_entry E scoped protected ids (k, e) acc F d = (Inr acc1, d1)"
    "foreach_io (judge_entry E scoped protected ids) xs acc1 F d1 = (Inr ys, d')" by (auto simp: bind_io_Inr x)
  from judge_run [OF a(1)] obtain e' where e': "acc1 = acc @ [(k, e')]" "wpe_path e' = wpe_path e"
    "judged E (volume_of d) protected (k, e')" "volume_of d1 = volume_of d" by blast
  from Cons.IH [OF a(2)] e' show ?case by (auto simp: x)
qed (auto simp: lift_res_run)

lemma keeps_volume:
  assumes "\<And>I. keeps I m" and "m F d = (Inr a, d')"
  shows "volume_of d' = volume_of d"
  using assms(1) [of "\<lambda>v. v = volume_of d", unfolded keeps_def, THEN spec [of _ F], THEN spec [of _ d]] assms(2) by simp

lemma report_of_run:
  assumes "report_of E scoped protected projects entries F d = (Inr rep, d')" and "entries_keyed entries"
    and "e \<in> set (wcr_entries rep)"
  shows "judged E (volume_of d) protected (normalize_workspace_path_for_match (wpe_path e), e)"
proof -
  from assms(1) obtain roots d1 m d2 ys where
    1: "foreach_io (insert_cleanup_scan_root (we_cwd E)) (map wmr_local_prefix scoped @ map cpp_path projects) [] F d = (Inr roots, d1)"
    and 2: "foreach_io scan_root (bt_values roots) entries F d1 = (Inr m, d2)"
    and 3: "foreach_io (judge_entry E scoped protected (map (\<lambda>x. normalize_workspace_path_for_match (cpp_path x)) projects)) m [] F d2 = (Inr ys, d')"
    and rep: "wcr_entries rep = bt_values ys"
    unfolding report_of_def by (auto simp: bind_io_Inr lift_res_run)
  have "volume_of d1 = volume_of d" by (rule keeps_volume [OF keeps_foreach [OF keeps_scan_root_insert] 1])
  moreover have "volume_of d2 = volume_of d1" by (rule keeps_volume [OF keeps_foreach [OF keeps_scan] 2])
  moreover obtain i where i: "(i, e) \<in> set ys" using assms(3) by (auto simp: rep bt_values_def)
  moreover have "judged E (volume_of d2) protected (i, e)" and "\<exists>x \<in> set m. fst x = i \<and> wpe_path (snd x) = wpe_path e"
    using judge_all_run [OF 3, THEN conjunct2, THEN bspec, OF i] by simp_all
  moreover have "entries_keyed m" by (rule keyed_scan [OF 2 assms(2)])
  ultimately show ?thesis by (auto simp: entries_keyed_def)
qed

text \<open>C27: What a cleanup report offers for removal is referred to by nothing: no rule of any server or
  namespace, no thread, and neither the Codex home nor the repository lies in it, is it or contains
  it; and it is an empty directory or does not exist.\<close>

theorem eligible_unreferenced:
  assumes "cleanup_report E root home remote_id namespace_id F d = (Inr rep, d')"
    and "e \<in> set (wcr_entries rep)" and "wpe_cleanup_eligible e"
  shows "\<exists>f d1 d2 usage. load_workspaces (workspace_env.truncate E) root F d1 = (Inr f, d2) \<and> volume_of d1 = volume_of d
    \<and> ce_usage E (resolve_path (we_cwd E) home) (volume_of d) = Inr usage
    \<and> \<not> list_ex (\<lambda>r. paths_overlap (normalize_workspace_path_for_match (wpe_path e)) (normalize_workspace_path_for_match (wmr_local_prefix r))) (wmf_mappings f)
    \<and> \<not> list_ex (\<lambda>u. paths_overlap (normalize_workspace_path_for_match (wpe_path e)) (normalize_workspace_path_for_match (wpu_path u))) usage
    \<and> \<not> paths_overlap (normalize_workspace_path_for_match (wpe_path e)) (normalize_workspace_path_for_match home)
    \<and> \<not> paths_overlap (normalize_workspace_path_for_match (wpe_path e)) (normalize_workspace_path_for_match (path_text root))
    \<and> (read_dir (volume_of d) (resolve_path (we_cwd E) (wpe_path e)) = Inr []
        \<or> entry_at (volume_of d) (resolve_path (we_cwd E) (wpe_path e)) = None)"
proof -
  from assms(1) obtain k d1 f d2 g d3 usage d4 where
    1: "codex_home_key (we_cwd E) home F d = (Inr k, d1)"
    and 2: "load_workspaces (workspace_env.truncate E) root F d1 = (Inr f, d2)"
    and 3: "load_codex_global_state E home F d2 = (Inr g, d3)"
    and 4: "read_io (ce_usage E (resolve_path (we_cwd E) home)) F d3 = (Inr usage, d4)"
    and 5: "report_of E (filter (in_scope remote_id namespace_id k) (wmf_mappings f)) (protected_of (wmf_mappings f) home root usage)
      (case g of None \<Rightarrow> [] | Some st \<Rightarrow> cgs_project_paths st)
      (collected_entries (filter (in_scope remote_id namespace_id k) (wmf_mappings f)) usage
        (case g of None \<Rightarrow> [] | Some st \<Rightarrow> cgs_project_paths st)) F d4 = (Inr rep, d')"
    unfolding cleanup_report_def Let_def by (auto simp: bind_io_Inr)
  have v1: "volume_of d1 = volume_of d" by (rule keeps_volume [OF keeps_home_key 1])
  have v3: "volume_of d3 = volume_of d"
    using v1 keeps_volume [OF keeps_load_workspaces 2] keeps_volume [OF keeps_load_state 3] by simp
  have v4: "volume_of d4 = volume_of d" using v3 keeps_volume [OF keeps_read 4] by simp
  from report_of_run [OF 5 keyed_collected assms(2)] assms(3) v1 v3 v4 2 read_io_run [OF 4]
  show ?thesis by (intro exI [of _ f] exI [of _ d1] exI [of _ d2] exI [of _ usage]) (auto simp: judged_def protected_of_def list_ex_iff)
qed

section \<open>An interrupted preparation\<close>

text \<open>The journal names the backup of the sidebar state before the backup exists. A process that stops
  in between leaves a journal that no recovery can roll back.\<close>

lemma missing_backup_blocks:
  assumes "wcj_planned_quarantines j = []" and "wcj_global_state_path j = Some live" and "wcj_global_state_backup j = Some backup"
    and "wcj_original_state_sha256 j = Some h" and "wcj_updated_state_sha256 j = Some g"
    and "file_at (volume_of d) (resolve_path (we_cwd E) backup) = None"
  shows "\<exists>e d'. rollback_workspace_cleanup E t j F d = (Inl e, d') \<and> volume_of d' = volume_of d"
  using assms
  by (cases "F (clock d)") (auto simp: rollback_workspace_cleanup_def rollback_state_def Let_def bind_io_def lift_res_def
      read_file_def read_io_def perform_def)

section \<open>Witnesses\<close>

definition toy_cleanup_env :: cleanup_env where
  "toy_cleanup_env = \<lparr>we_cwd = [], we_uuid = (\<lambda>_. 0), we_uuid_text = (\<lambda>_. ''u''), we_now = (\<lambda>_. []),
     we_rfc3339 = (\<lambda>_. True), we_encode = (\<lambda>_. []), we_decode = (\<lambda>_. Inl ''bad''),
     ce_json = \<lparr>number_text = (\<lambda>_. []), string_text = (\<lambda>s. s),
       parse_value = (\<lambda>_. Some (JObject [(''local-projects'', JObject [(''p'', JObject [(''rootPaths'', JArray [JString ''/w/old''])])])]))\<rparr>,
     ce_sha256_hex = (\<lambda>b. b), ce_encode_journal = (\<lambda>_. ''j''), ce_decode_journal = (\<lambda>_. Inl ''bad''),
     ce_usage = (\<lambda>_ _. Inr [\<lparr>wpu_path = ''/w/new'', wpu_active_count = 1, wpu_archived_count = 0\<rparr>]),
     ce_threads = (\<lambda>_ _. Inr [])\<rparr>"

definition toy_cleanup_disk :: disk where
  "toy_cleanup_disk = \<lparr>volume_of = [([''h''], DirEntry), ([''h'', ''.codex-global-state.json''], FileEntry ''s''),
     ([''w''], DirEntry), ([''w'', ''old''], DirEntry), ([''w'', ''new''], DirEntry)], clock = 0\<rparr>"

lemma toy_report:
  "map_sum (\<lambda>e. e) wcr_candidates (fst (cleanup_report toy_cleanup_env [''r''] ''/h'' 1 2 (\<lambda>_. None) toy_cleanup_disk)) = Inr [''/w/old'']"
  by code_simp

theorem eligible_unreferenced_witness:
  "\<exists>e :: workspace_path_entry. wpe_path e = ''/w/old'' \<and> wpe_cleanup_eligible e
    \<and> \<not> paths_overlap (normalize_workspace_path_for_match (wpe_path e)) (normalize_workspace_path_for_match ''/h'')"
proof -
  obtain q d' where run: "cleanup_report toy_cleanup_env [''r''] ''/h'' 1 2 (\<lambda>_. None) toy_cleanup_disk = (q, d')" by fastforce
  then obtain rep where q: "q = Inr rep" "wcr_candidates rep = [''/w/old'']"
    using toy_report by (cases q) auto
  have "wcr_candidates rep = map wpe_path (filter wpe_cleanup_eligible (wcr_entries rep))"
    using run q(1) by (auto simp: cleanup_report_def report_of_def bind_io_Inr lift_res_run Let_def)
  then have "''/w/old'' \<in> wpe_path ` set (filter wpe_cleanup_eligible (wcr_entries rep))"
    using q(2) by (metis list.set_intros(1) set_map)
  then obtain e where e: "e \<in> set (wcr_entries rep)" "wpe_cleanup_eligible e" "wpe_path e = ''/w/old''" by auto
  then show ?thesis using eligible_unreferenced [OF run [unfolded q(1)] e(1,2)] by blast
qed

theorem cleanup_keeps_files_witness:
  "keeps (file_in [''w'', ''new'', ''a''] ''x'') (start_cleanup toy_cleanup_env [''r''] ''/h'' 1 2 [''/w/old''])"
proof (rule cleanup_keeps_files)
  show "[''w'', ''new'', ''a''] \<noteq> resolve_path (we_cwd toy_cleanup_env) (path_join ''/h'' ''.codex-global-state.json'')"
    by code_simp
qed simp

end
