(* ===== verification/CleanupRollback.thy ===== *)
theory CleanupRollback
  imports CleanupProps
begin

text \<open>
  What a rollback that returns has restored: the sidebar state with the digest it had before the
  cleanup, whichever step was interrupted, and a journal that says so.
\<close>

lemma io_any: "io_triple P m (\<lambda>_ _. True) (\<lambda>_. True)"
  by (simp add: io_triple_def split: prod.split sum.split)

definition has_digest :: "cleanup_env \<Rightarrow> path \<Rightarrow> string \<Rightarrow> volume \<Rightarrow> bool" where
  "has_digest E p h v \<longleftrightarrow> (\<exists>b. file_at v p = Some b \<and> sha256_bytes E b = h)"

lemma new_file_content:
  "io_triple P (write_new_file p b) (\<lambda>_ v. file_at v p = Some b) (\<lambda>_. True)"
proof -
  have wr: "io_triple (\<lambda>_. True) (write_io p b) (\<lambda>_ v. file_at v p = Some b) (\<lambda>_. True)"
    by (rule io_write) (auto simp: file_at_def fs_write_entry)
  have sync: "io_triple (\<lambda>v. file_at v p = Some b) (read_io (\<lambda>_. Inr ())) (\<lambda>_ v. file_at v p = Some b) (\<lambda>_. True)"
    by (rule io_read) auto
  show ?thesis unfolding write_new_file_def
    by (rule io_bind [OF io_any io_bind [OF io_any io_bind [OF wr sync]]])
qed

text \<open>A replacement that returns has read back what it installed.\<close>

lemma replaced_digest:
  "io_triple P (replace_file_if_hash_matches E p expected b) (\<lambda>_. has_digest E p (sha256_bytes E b)) (\<lambda>_. True)"
proof -
  have rd: "io_triple (\<lambda>_. True) (read_file p) (\<lambda>c v. file_at v p = Some c) (\<lambda>_. True)"
    unfolding read_file_def by (rule io_read) auto
  have check: "io_triple (\<lambda>v. file_at v p = Some c) (lift_res (ensure (sha256_bytes E c = sha256_bytes E b) e))
      (\<lambda>_. has_digest E p (sha256_bytes E b)) (\<lambda>_. True)" for c e
    by (rule io_lift) (auto simp: has_digest_def)
  show ?thesis unfolding replace_file_if_hash_matches_def Let_def
    by (rule io_bind [OF io_any io_bind [OF io_any io_bind [OF io_any io_bind [OF io_any io_bind [OF io_any
          io_bind [OF io_any io_bind [OF rd check]]]]]]])
qed

lemma rollback_state_digest:
  assumes "wcj_global_state_path j = Some live" and "wcj_global_state_backup j = Some backup"
    and "wcj_original_state_sha256 j = Some h" and "wcj_updated_state_sha256 j = Some g"
  shows "io_triple P (rollback_state E j) (\<lambda>_. has_digest E (resolve_path (we_cwd E) live) h) (\<lambda>_. True)"
proof -
  let ?p = "resolve_path (we_cwd E) live"
  have ex: "io_triple (\<lambda>_. True) (read_existing ?p) (\<lambda>r v. \<forall>c. r = Some c \<longrightarrow> file_at v ?p = Some c) (\<lambda>_. True)"
    unfolding read_existing_def by (rule io_read) (auto simp: bindr_eq_Inr_iff split: if_splits)
  have branch: "io_triple (\<lambda>v. \<forall>c. r = Some c \<longrightarrow> file_at v ?p = Some c) (case r of
             None \<Rightarrow> write_new_file ?p b
           | Some c \<Rightarrow> if sha256_bytes E c = h then return_io ()
               else if sha256_bytes E c = g then replace_file_if_hash_matches E ?p g b
               else lift_res (Inl e)) (\<lambda>_. has_digest E ?p h) (\<lambda>_. True)"
    if "sha256_bytes E b = h" for r b e
  proof (cases r)
    case None
    have "io_triple (\<lambda>v. \<forall>c. r = Some c \<longrightarrow> file_at v ?p = Some c) (write_new_file ?p b) (\<lambda>_. has_digest E ?p h) (\<lambda>_. True)"
      by (rule io_conseq [OF new_file_content]) (auto simp: has_digest_def that)
    then show ?thesis using None by simp
  next
    case (Some c)
    have "io_triple (\<lambda>v. file_at v ?p = Some c) (return_io ()) (\<lambda>_. has_digest E ?p h) (\<lambda>_. True)" if "sha256_bytes E c = h"
      using that by (intro io_lift) (auto simp: has_digest_def)
    moreover have "io_triple (\<lambda>v. file_at v ?p = Some c) (lift_res (Inl e) :: unit io) (\<lambda>_. has_digest E ?p h) (\<lambda>_. True)"
      by (rule io_lift) auto
    moreover note replaced_digest [of "\<lambda>v. file_at v ?p = Some c" E ?p g b]
    ultimately show ?thesis using Some that by simp
  qed
  have checked: "io_triple (\<lambda>_. True) (bind_io (lift_res (ensure (sha256_bytes E b = h) e0)) (\<lambda>_.
       bind_io (read_existing ?p) (\<lambda>r. case r of
             None \<Rightarrow> write_new_file ?p b
           | Some c \<Rightarrow> if sha256_bytes E c = h then return_io ()
               else if sha256_bytes E c = g then replace_file_if_hash_matches E ?p g b
               else lift_res (Inl e)))) (\<lambda>_. has_digest E ?p h) (\<lambda>_. True)" for b e e0
  proof (cases "sha256_bytes E b = h")
    case True
    show ?thesis by (rule io_bind [OF io_any io_bind [OF ex branch [OF True]]])
  next
    case False
    then show ?thesis by (simp add: io_triple_def bind_io_def lift_res_def)
  qed
  show ?thesis unfolding rollback_state_def assms by (simp add: Let_def) (rule io_bind [OF io_any checked])
qed

lemma has_digest_cong: "entry_at v' p = entry_at v p \<Longrightarrow> has_digest E p h v \<Longrightarrow> has_digest E p h v'"
  by (simp add: has_digest_def file_at_def)

text \<open>Writing a journal elsewhere leaves a file alone and ends with the journal in place.\<close>

lemma journal_written:
  assumes "\<not> under (butlast t) p" and "t \<noteq> []" and "take 1 (last t) \<noteq> ''.''" and "last t \<noteq> []"
  shows "io_triple (has_digest E p h) (write_workspace_cleanup_journal E t j)
    (\<lambda>_ v. has_digest E p h v \<and> file_at v t = Some (ce_encode_journal E j)) (\<lambda>_. True)"
proof -
  let ?P = "has_digest E p h" and ?m = "journal_temporary t"
  have ne: "?m u \<noteq> t" "?m u \<noteq> p" "t \<noteq> p" "\<not> under (?m u) p" "\<not> under t p" "\<not> under t (?m u)" "length (?m u) = length t" for u
  proof -
    show "?m u \<noteq> t" using assms(3) by (auto simp: journal_temporary_def)
      (metis append_Cons append_Nil last_snoc take0 take_Suc_Cons One_nat_def)
    have up: "under (butlast t) q" if "under (?m u) q" for q using that by (auto simp: journal_temporary_def under_iff)
    then show "?m u \<noteq> p" "\<not> under (?m u) p" using assms(1) under_refl by blast+
    have "under (butlast t) q" if "under t q" for q
      using that assms(2) unfolding under_iff by (metis append_assoc append_butlast_last_id)
    then show "t \<noteq> p" "\<not> under t p" using assms(1) under_refl by blast+
    show len: "length (?m u) = length t" using assms(2) by (simp add: journal_temporary_def)
    show "\<not> under t (?m u)" using len \<open>?m u \<noteq> t\<close> by (simp add: under_def)
  qed
  have dirs: "io_triple ?P (create_dir_all_io q) (\<lambda>_. ?P) (\<lambda>_. True)" for q
  proof (rule io_create_dirs)
    fix v n v' assume d: "?P v" "fs_create_dir_all (take n q) v = Inr v'"
    have "entry_at v p \<noteq> None" using d(1) by (auto simp: has_digest_def file_at_def split: option.splits)
    then have "entry_at v' p = entry_at v p" using fs_create_dir_all_entry [OF d(2), of p] by auto
    then show "?P v'" using d(1) by (rule has_digest_cong)
  qed simp
  let ?R = "\<lambda>u v. ?P v \<and> file_at v (?m u) = Some (ce_encode_journal E j)"
  have new: "io_triple ?P (write_new_file (?m u) (ce_encode_journal E j)) (\<lambda>_. ?R u) (\<lambda>_. True)" for u
  proof -
    have create: "io_triple ?P (atomic_io (fs_create_new (?m u))) (\<lambda>_. ?P) (\<lambda>_. True)"
    proof (rule io_atomic)
      fix v v' assume "?P v" "fs_create_new (?m u) v = Inr v'"
      then show "?P v'" using fs_create_new_entry [of "?m u" v v' p] ne(2) [of u] by (metis has_digest_cong)
    qed simp
    have wr: "io_triple ?P (write_io (?m u) (ce_encode_journal E j)) (\<lambda>_. ?R u) (\<lambda>_. True)"
    proof (rule io_write)
      fix v c v' assume w: "?P v" "fs_write (?m u) c v = Inr v'"
      have "?P v'" using w fs_write_entry [OF w(2), of p] ne(2) [of u] by (metis has_digest_cong)
      moreover have "file_at v' (?m u) = Some c" using fs_write_entry [OF w(2), of "?m u"] by (simp add: file_at_def)
      ultimately show "True \<and> (c = ce_encode_journal E j \<longrightarrow> ?R u v')" by simp
    qed simp
    have sync: "io_triple (?R u) (read_io (\<lambda>_. Inr ())) (\<lambda>_. ?R u) (\<lambda>_. True)" by (rule io_read) auto
    show ?thesis unfolding write_new_file_def
      by (rule io_bind [OF dirs io_bind [OF create io_bind [OF wr sync]]])
  qed
  have present: "io_triple (?R u) (exists_quietly t) (\<lambda>_. ?R u) (\<lambda>_. True)" for u
    unfolding exists_quietly_def by (rule io_catch [of _ _ _ "?R u"]) (auto intro!: io_read io_lift)
  have remove: "io_triple (?R u) (if b then atomic_io (fs_remove_file t) else return_io ()) (\<lambda>_. ?R u) (\<lambda>_. True)" for u b
  proof (cases b)
    case True
    have "io_triple (?R u) (atomic_io (fs_remove_file t)) (\<lambda>_. ?R u) (\<lambda>_. True)"
    proof (rule io_atomic)
      fix v v' assume w: "?R u v" "fs_remove_file t v = Inr v'"
      have "?P v'" using w fs_remove_file_entry [OF w(2), of p] ne(3) by (metis has_digest_cong)
      moreover have "file_at v' (?m u) = file_at v (?m u)"
        using fs_remove_file_entry [OF w(2), of "?m u"] ne(1) [of u] by (simp add: file_at_def)
      ultimately show "?R u v'" using w(1) by simp
    qed simp
    then show ?thesis using True by simp
  qed (auto intro!: io_lift)
  have rename: "io_triple (?R u) (atomic_io (fs_rename (?m u) t)) (\<lambda>_ v. ?P v \<and> file_at v t = Some (ce_encode_journal E j)) (\<lambda>_. True)" for u
  proof (rule io_atomic)
    fix v v' assume r: "?R u v" and v': "fs_rename (?m u) t v = Inr v'"
    have e: "entry_at v' q = (if under t q then entry_at v (?m u @ drop (length t) q) else if under (?m u) q then None else entry_at v q)" for q
      by (rule fs_rename_entry [OF v' ne(1) ne(6)])
    have "entry_at v' p = entry_at v p" using e [of p] ne by simp
    moreover have "entry_at v' t = entry_at v (?m u)" using e [of t] by simp
    ultimately show "?P v' \<and> file_at v' t = Some (ce_encode_journal E j)"
      using r has_digest_cong [of v' p v E h] by (simp add: file_at_def)
  qed simp
  show ?thesis unfolding write_workspace_cleanup_journal_def Let_def
    by (rule io_bind [OF dirs io_bind [OF io_ask [of ?P ?P] io_bind [OF new io_bind [OF present io_bind [OF remove rename]]]]]) simp
qed

text \<open>C28: A rollback that returns has restored the sidebar state: the file has the digest it had before the
  cleanup, be it untouched, replaced, or missing between its removal and its replacement, and
  the journal on disk says that the cleanup is rolled back.\<close>

theorem rollback_restores_state:
  assumes "rollback_workspace_cleanup E t j F d = (Inr u, d')"
    and "wcj_global_state_path j = Some live" and "wcj_global_state_backup j = Some backup"
    and "wcj_original_state_sha256 j = Some h" and "wcj_updated_state_sha256 j = Some g"
    and "\<not> under (butlast t) (resolve_path (we_cwd E) live)" and "t \<noteq> []" and "journal_name t"
  shows "(\<exists>b. file_at (volume_of d') (resolve_path (we_cwd E) live) = Some b \<and> sha256_bytes E b = h)
    \<and> (\<exists>now. file_at (volume_of d') t = Some (ce_encode_journal E (j\<lparr>wcj_status := RolledBack, wcj_updated_at := now\<rparr>)))"
proof -
  let ?p = "resolve_path (we_cwd E) live"
  let ?Q = "\<lambda>v. has_digest E ?p h v \<and> (\<exists>now. file_at v t = Some (ce_encode_journal E (j\<lparr>wcj_status := RolledBack, wcj_updated_at := now\<rparr>)))"
  have jw: "io_triple (has_digest E ?p h) (write_workspace_cleanup_journal E t (j\<lparr>wcj_status := RolledBack, wcj_updated_at := now\<rparr>))
      (\<lambda>_. ?Q) (\<lambda>_. True)" for now
    using assms(8) by (intro io_conseq [OF journal_written [OF assms(6,7)]]) (auto simp: journal_name_def)
  have "io_triple (\<lambda>_. True) (rollback_workspace_cleanup E t j) (\<lambda>_. ?Q) (\<lambda>_. True)"
    unfolding rollback_workspace_cleanup_def
    by (rule io_bind [OF io_any io_bind [OF rollback_state_digest [OF assms(2-5)]
          io_bind [OF io_ask [of "has_digest E ?p h" "has_digest E ?p h"] jw]]]) simp
  from io_tripleD(1) [OF this TrueI assms(1)] show ?thesis by (simp add: has_digest_def)
qed

section \<open>Witness\<close>

definition toy_cleanup_journal :: workspace_cleanup_journal where
  "toy_cleanup_journal = \<lparr>wcj_schema_version = 1, wcj_operation_id = 0, wcj_codex_home = ''/h'', wcj_requested_paths = [],
     wcj_status = BackedUp, wcj_global_state_path = Some ''/h/s'', wcj_global_state_backup = Some ''/r/b'',
     wcj_original_state_sha256 = Some ''sha256:old'', wcj_updated_state_sha256 = Some ''sha256:new'',
     wcj_planned_quarantines = [], wcj_removed_codex_projects = 0, wcj_removed_thread_assignments = 0,
     wcj_created_at = [], wcj_updated_at = [], wcj_error = None\<rparr>"

definition toy_rollback_disk :: disk where
  "toy_rollback_disk = \<lparr>volume_of = [([''h''], DirEntry), ([''h'', ''s''], FileEntry ''new''), ([''r''], DirEntry),
     ([''r'', ''b''], FileEntry ''old'')], clock = 0\<rparr>"

lemma toy_rollback:
  "fst (rollback_workspace_cleanup toy_cleanup_env [''r'', ''j'', ''w''] toy_cleanup_journal (\<lambda>_. None) toy_rollback_disk) = Inr ()"
  by code_simp

theorem rollback_restores_state_witness:
  "\<exists>d'. rollback_workspace_cleanup toy_cleanup_env [''r'', ''j'', ''w''] toy_cleanup_journal (\<lambda>_. None) toy_rollback_disk = (Inr (), d')
    \<and> file_at (volume_of d') [''h'', ''s''] = Some ''old''"
proof -
  obtain d' where run: "rollback_workspace_cleanup toy_cleanup_env [''r'', ''j'', ''w''] toy_cleanup_journal (\<lambda>_. None) toy_rollback_disk = (Inr (), d')"
    using toy_rollback by (metis prod.collapse)
  have p: "resolve_path (we_cwd toy_cleanup_env) ''/h/s'' = [''h'', ''s'']" by code_simp
  have apart: "\<not> under (butlast [''r'', ''j'', ''w'']) [''h'', ''s'']" "journal_name [''r'', ''j'', ''w'']"
    by (simp_all add: under_def journal_name_def)
  from rollback_restores_state [OF run, of "''/h/s''" "''/r/b''" "''sha256:old''" "''sha256:new''", unfolded p] apart
  obtain b where "file_at (volume_of d') [''h'', ''s''] = Some b" "sha256_bytes toy_cleanup_env b = ''sha256:old''"
    by (auto simp: toy_cleanup_journal_def)
  then show ?thesis using run by (simp add: sha256_bytes_def toy_cleanup_env_def)
qed

end
