(* ===== verification/RemoteProfiles.thy ===== *)
theory RemoteProfiles
  imports NamespaceMapping
begin

text \<open>
  apps/desktop/src-tauri/src/remote\_config.rs: the servers the desktop knows. A profile holds the name and
  the normalised address of a server and the namespace selected on it; the profiles are a configuration
  document, the tokens are in the credential store of the operating system. The \<open>url\<close> crate, serde,
  the clock and the credential store are the parameter \<open>remote_env\<close>; \<open>normalize_server_url\<close> and the
  token's check are of remote.rs.
\<close>

section \<open>Addresses and tokens\<close>

record url =
  url_scheme :: string
  url_host :: "string option"
  url_username :: string
  url_password :: "string option"
  url_path :: string
  url_query :: "string option"
  url_fragment :: "string option"

record remote_profile =
  rp_id :: uuid
  rp_display_name :: string
  rp_server_url :: string
  rp_selected_namespace_id :: "uuid option"
  rp_automatic_selection :: bool
  rp_created_at :: string
  rp_updated_at :: string

record remote_profile_summary =
  rps_profile :: remote_profile
  rps_credential_configured :: bool
  rps_insecure_http :: bool

record remote_config_file =
  rcf_schema_version :: u32
  rcf_profiles :: "remote_profile list"

record remote_env =
  re_uuid_text :: "nat \<Rightarrow> string"
  re_now :: "nat \<Rightarrow> string"
  re_url :: "string \<Rightarrow> url option"
  re_set_path :: "string \<Rightarrow> url \<Rightarrow> url"
  re_url_text :: "url \<Rightarrow> string"
  re_encode :: "remote_config_file \<Rightarrow> bytes"
  re_decode :: "bytes \<Rightarrow> string + remote_config_file"
  re_has :: "uuid \<Rightarrow> string + bool"

definition normalize_server_url :: "remote_env \<Rightarrow> string \<Rightarrow> string + url" where
  "normalize_server_url E v =
     bindr (ok_or ''server URL is invalid'' (re_url E (trim v))) (\<lambda>u.
     bindr (ensure (url_scheme u = ''http'' \<or> url_scheme u = ''https'') ''server URL must use http or https'') (\<lambda>_.
     bindr (ensure (url_host u \<noteq> None) ''server URL must include a host'') (\<lambda>_.
     bindr (ensure (url_username u = [] \<and> url_password u = None) ''server URL must not contain credentials'') (\<lambda>_.
     bindr (ensure (url_query u = None \<and> url_fragment u = None) ''server URL must not contain a query or fragment'') (\<lambda>_.
     Inr (if strip_suffix ''/'' (url_path u) \<noteq> None then u else re_set_path E (url_path u @ ''/'') u))))))"

definition secret_token :: "string \<Rightarrow> string + string" where
  "secret_token v = bindr (ensure (\<not> (length v < 16 \<or> \<not> list_all is_ascii_graphic v))
     ''server token must contain at least 16 visible ASCII characters'') (\<lambda>_. Inr v)"

section \<open>The store\<close>

definition REMOTE_CONFIG_SCHEMA_VERSION :: u32 where "REMOTE_CONFIG_SCHEMA_VERSION = 1"

definition default_remote_config :: remote_config_file where
  "default_remote_config = \<lparr>rcf_schema_version = REMOTE_CONFIG_SCHEMA_VERSION, rcf_profiles = []\<rparr>"

definition remote_format :: "remote_env \<Rightarrow> path \<Rightarrow> remote_config_file document_format" where
  "remote_format E root = \<lparr>doc_path = root @ [''config'', ''remotes-v1.json''], doc_prefix = ''.remotes-v1.write-'',
     doc_limit = None, encode_doc = re_encode E, decode_doc = re_decode E, default_doc = default_remote_config,
     check_save = (\<lambda>_. Inr ()),
     check_load = (\<lambda>f. ensure (rcf_schema_version f = REMOTE_CONFIG_SCHEMA_VERSION)
       ''unsupported remote profile schema version'')\<rparr>"

definition load_remotes :: "remote_env \<Rightarrow> path \<Rightarrow> remote_config_file io" where
  "load_remotes E root = load_document (remote_format E root)"

definition save_remotes :: "remote_env \<Rightarrow> path \<Rightarrow> remote_config_file \<Rightarrow> unit io" where
  "save_remotes E root = save_document (remote_format E root) (re_uuid_text E)"

definition profile_summary :: "remote_env \<Rightarrow> remote_profile \<Rightarrow> string + remote_profile_summary" where
  "profile_summary E p = bindr (re_has E (rp_id p)) (\<lambda>configured.
     bindr (normalize_server_url E (rp_server_url p)) (\<lambda>u.
     Inr \<lparr>rps_profile = p, rps_credential_configured = configured, rps_insecure_http = (url_scheme u = ''http'')\<rparr>))"

definition list_remotes :: "remote_env \<Rightarrow> path \<Rightarrow> remote_profile_summary list io" where
  "list_remotes E root = bind_io (load_remotes E root) (\<lambda>f. lift_res (map_res (profile_summary E) (rcf_profiles f)))"

definition find_profile :: "uuid \<Rightarrow> remote_profile list \<Rightarrow> string + remote_profile" where
  "find_profile remote_id ps = ok_or ''remote profile was not found'' (find (\<lambda>p. rp_id p = remote_id) ps)"

definition get_remote :: "remote_env \<Rightarrow> path \<Rightarrow> uuid \<Rightarrow> remote_profile io" where
  "get_remote E root remote_id = bind_io (load_remotes E root) (\<lambda>f. lift_res (find_profile remote_id (rcf_profiles f)))"

text \<open>The profile that the call stores and returns, and the profiles with it.\<close>

definition upserted :: "uuid \<Rightarrow> string \<Rightarrow> string \<Rightarrow> string \<Rightarrow> remote_profile list \<Rightarrow> remote_profile \<times> remote_profile list" where
  "upserted remote_id display_name server_url now ps = (case find (\<lambda>p. rp_id p = remote_id) ps of
     Some p \<Rightarrow> let q = p\<lparr>rp_display_name := display_name, rp_server_url := server_url, rp_updated_at := now\<rparr>
       in (q, update_first (\<lambda>p. rp_id p = remote_id) (\<lambda>_. q) ps)
   | None \<Rightarrow> let q = \<lparr>rp_id = remote_id, rp_display_name = display_name, rp_server_url = server_url,
         rp_selected_namespace_id = None, rp_automatic_selection = False, rp_created_at = now, rp_updated_at = now\<rparr>
       in (q, ps @ [q]))"

definition upsert_remote :: "remote_env \<Rightarrow> path \<Rightarrow> uuid \<Rightarrow> string \<Rightarrow> string \<Rightarrow> remote_profile io" where
  "upsert_remote E root remote_id display_name server_url = (let display_name = trim display_name in
     bind_io (lift_res (ensure (\<not> (display_name = [] \<or> char_count display_name > 128))
       ''remote display name must contain 1 to 128 characters'')) (\<lambda>_.
     bind_io (lift_res (ensure (\<not> has_control display_name)
       ''remote display name must not contain control characters'')) (\<lambda>_.
     bind_io (lift_res (normalize_server_url E server_url)) (\<lambda>u.
     bind_io (load_remotes E root) (\<lambda>f.
     bind_io (ask_io (re_now E)) (\<lambda>now.
     let (q, ps) = upserted remote_id display_name (re_url_text E u) now (rcf_profiles f) in
     bind_io (save_remotes E root (f\<lparr>rcf_profiles := sort_key rp_created_at ps\<rparr>)) (\<lambda>_. return_io q)))))))"

definition change_remote :: "remote_env \<Rightarrow> path \<Rightarrow> uuid \<Rightarrow> (remote_profile \<Rightarrow> remote_profile) \<Rightarrow> remote_profile io" where
  "change_remote E root remote_id change = bind_io (load_remotes E root) (\<lambda>f.
     bind_io (lift_res (find_profile remote_id (rcf_profiles f))) (\<lambda>p.
     bind_io (ask_io (re_now E)) (\<lambda>now. let q = (change p)\<lparr>rp_updated_at := now\<rparr> in
     bind_io (save_remotes E root (f\<lparr>rcf_profiles :=
       update_first (\<lambda>p. rp_id p = remote_id) (\<lambda>_. q) (rcf_profiles f)\<rparr>)) (\<lambda>_. return_io q))))"

definition select_namespace :: "remote_env \<Rightarrow> path \<Rightarrow> uuid \<Rightarrow> uuid \<Rightarrow> remote_profile io" where
  "select_namespace E root remote_id namespace_id =
     change_remote E root remote_id (\<lambda>p. p\<lparr>rp_selected_namespace_id := Some namespace_id\<rparr>)"

definition set_automatic_selection :: "remote_env \<Rightarrow> path \<Rightarrow> uuid \<Rightarrow> bool \<Rightarrow> remote_profile io" where
  "set_automatic_selection E root remote_id enabled =
     change_remote E root remote_id (\<lambda>p. p\<lparr>rp_automatic_selection := enabled\<rparr>)"

section \<open>The document\<close>

interpretation remotes: document_store "remote_format E root" for E root
proof
  show "doc_path (remote_format E root) \<noteq> []" by (simp add: remote_format_def)
  show "doc_prefix (remote_format E root) @ u @ ''.tmp'' \<noteq> last (doc_path (remote_format E root))" for u
    by (simp add: remote_format_def)
qed

text \<open>Profiles are kept apart by their ids.\<close>

definition profiles_ok :: "remote_profile list \<Rightarrow> bool" where
  "profiles_ok ps \<longleftrightarrow> distinct (map rp_id ps)"

lemma update_first_ids: "(\<And>p. P p \<Longrightarrow> f (g p) = f p) \<Longrightarrow> map f (update_first P g ps) = map f ps"
  by (induction ps) auto

lemma update_first_mem: "find P ps = Some p \<Longrightarrow> q \<in> set (update_first P (\<lambda>_. q) ps)"
  by (induction ps) (auto split: if_splits)

lemma find_by_id:
  assumes "profiles_ok ps" and "q \<in> set ps"
  shows "find (\<lambda>p. rp_id p = rp_id q) ps = Some q"
  using assms unfolding profiles_ok_def by (induction ps) (auto simp: rev_image_eqI)

lemma profiles_ok_sort: "profiles_ok (sort_key k ps) = profiles_ok ps"
  unfolding profiles_ok_def distinct_map by (metis distinct_sort set_sort)

lemma upserted_facts:
  assumes "profiles_ok ps" and "upserted remote_id n u now ps = (q, qs)"
  shows "profiles_ok qs" and "q \<in> set qs" and "rp_id q = remote_id" and "rp_display_name q = n" and "rp_server_url q = u"
    and "\<And>p. p \<in> set ps \<Longrightarrow> rp_id p = remote_id \<Longrightarrow> rp_selected_namespace_id q = rp_selected_namespace_id p \<and> rp_created_at q = rp_created_at p"
proof -
  let ?F = "find (\<lambda>p. rp_id p = remote_id) ps"
  have all: "profiles_ok qs \<and> q \<in> set qs \<and> rp_id q = remote_id \<and> rp_display_name q = n \<and> rp_server_url q = u
    \<and> (\<forall>p \<in> set ps. rp_id p = remote_id \<longrightarrow> rp_selected_namespace_id q = rp_selected_namespace_id p \<and> rp_created_at q = rp_created_at p)"
  proof (cases ?F)
    case None
    then have eq: "(q, qs) = (let q = \<lparr>rp_id = remote_id, rp_display_name = n, rp_server_url = u,
         rp_selected_namespace_id = None, rp_automatic_selection = False, rp_created_at = now, rp_updated_at = now\<rparr>
       in (q, ps @ [q]))"
      using assms(2) by (simp add: upserted_def)
    from None have "\<And>p. p \<in> set ps \<Longrightarrow> rp_id p \<noteq> remote_id" by (auto simp: find_None_iff)
    then show ?thesis using eq assms(1) by (auto simp: Let_def profiles_ok_def)
  next
    case (Some p)
    then have p: "p \<in> set ps" "rp_id p = remote_id" by (auto simp: find_Some_iff)
    have same: "x = p" if "x \<in> set ps" "rp_id x = remote_id" for x
      using assms(1) that p unfolding profiles_ok_def distinct_map by (auto dest: inj_onD)
    have eq: "q = p\<lparr>rp_display_name := n, rp_server_url := u, rp_updated_at := now\<rparr>"
      and qs: "qs = update_first (\<lambda>p. rp_id p = remote_id) (\<lambda>_. q) ps"
      using assms(2) Some by (auto simp: upserted_def Let_def)
    have "map rp_id qs = map rp_id ps" unfolding qs using eq p by (intro update_first_ids) simp
    moreover have "q \<in> set qs" unfolding qs by (rule update_first_mem [OF Some])
    ultimately show ?thesis using assms(1) p eq by (auto simp: profiles_ok_def dest!: same)
  qed
  then show "profiles_ok qs" "q \<in> set qs" "rp_id q = remote_id" "rp_display_name q = n" "rp_server_url q = u"
    "\<And>p. p \<in> set ps \<Longrightarrow> rp_id p = remote_id \<Longrightarrow> rp_selected_namespace_id q = rp_selected_namespace_id p \<and> rp_created_at q = rp_created_at p"
    by auto
qed


text \<open>After an upsert any \<open>get\<close> that succeeds returns the stored profile: under its id, with the
  normalised address, and with the namespace that was selected before.\<close>

lemma upsert_run:
  assumes "upsert_remote E root remote_id name addr F d = (Inr q, d')"
  shows "\<exists>u f d1 now ps. normalize_server_url E addr = Inr u \<and> load_remotes E root F d = (Inr f, d1)
    \<and> upserted remote_id (trim name) (re_url_text E u) now (rcf_profiles f) = (q, ps)
    \<and> (\<exists>d2. save_remotes E root (f\<lparr>rcf_profiles := sort_key rp_created_at ps\<rparr>) F d2 = (Inr (), d'))"
proof -
  from assms obtain u f d1 where "normalize_server_url E addr = Inr u" "load_remotes E root F d = (Inr f, d1)"
    and rest: "(case upserted remote_id (trim name) (re_url_text E u) (re_now E (clock d1)) (rcf_profiles f) of (q, ps) \<Rightarrow>
      bind_io (save_remotes E root (f\<lparr>rcf_profiles := sort_key rp_created_at ps\<rparr>)) (\<lambda>_. return_io q)) F (d1\<lparr>clock := Suc (clock d1)\<rparr>) = (Inr q, d')"
    unfolding upsert_remote_def Let_def bind_io_Inr ask_io_def lift_res_run by auto
  moreover obtain q0 ps where "upserted remote_id (trim name) (re_url_text E u) (re_now E (clock d1)) (rcf_profiles f) = (q0, ps)"
    by fastforce
  ultimately show ?thesis by (auto simp: bind_io_Inr lift_res_run)
qed

lemma get_after_upsert:
  assumes up: "upsert_remote E root remote_id name addr F d = (Inr q, d')"
    and unique: "\<And>f d1. load_remotes E root F d = (Inr f, d1) \<Longrightarrow> profiles_ok (rcf_profiles f)"
    and codec: "\<And>f. re_decode E (re_encode E f) = Inr f"
    and get: "get_remote E root remote_id G \<lparr>volume_of = volume_of d', clock = t\<rparr> = (Inr p, d'')"
  shows "p = q"
proof -
  from upsert_run [OF up] obtain u f d1 d2 now ps where
    f: "load_remotes E root F d = (Inr f, d1)" and ps: "upserted remote_id (trim name) (re_url_text E u) now (rcf_profiles f) = (q, ps)"
    and sv: "save_remotes E root (f\<lparr>rcf_profiles := sort_key rp_created_at ps\<rparr>) F d2 = (Inr (), d')" by blast
  let ?f = "f\<lparr>rcf_profiles := sort_key rp_created_at ps\<rparr>"
  have stored: "file_at (volume_of d') (doc_path (remote_format E root)) = Some (re_encode E ?f)"
    using remotes.save_saves(1) [OF sv [unfolded save_remotes_def]] by (simp add: remote_format_def)
  from get obtain g d3 where g: "load_document (remote_format E root) G \<lparr>volume_of = volume_of d', clock = t\<rparr> = (Inr g, d3)"
    and p: "find_profile remote_id (rcf_profiles g) = Inr p"
    unfolding get_remote_def load_remotes_def by (auto simp: bind_io_Inr lift_res_run)
  have "exists_at (volume_of d') (doc_path (remote_format E root))"
    using stored by (auto simp: exists_at_def file_at_def split: option.splits)
  then have "g = ?f" using remotes.load_cases [OF g] stored codec by (auto simp: remote_format_def)
  moreover have "find (\<lambda>p. rp_id p = rp_id q) (sort_key rp_created_at ps) = Some q"
    using upserted_facts(1,2) [OF unique [OF f] ps] by (intro find_by_id) (simp_all add: profiles_ok_sort)
  ultimately show "p = q" using p upserted_facts(3) [OF unique [OF f] ps] by (simp add: find_profile_def ok_or_def)
qed

text \<open>Profiles with distinct ids keep distinct ids.\<close>

lemma change_keeps_ids:
  assumes "profiles_ok ps" and "find_profile remote_id ps = Inr p" and "rp_id q = remote_id"
  shows "profiles_ok (update_first (\<lambda>p. rp_id p = remote_id) (\<lambda>_. q) ps)"
  using assms by (simp add: profiles_ok_def update_first_ids)

lemma keeps_pair: "(\<And>a b. keeps I (f a b)) \<Longrightarrow> keeps I (case z of (a, b) \<Rightarrow> f a b)"
  by (cases z) simp

lemma remotes_document_valid:
  "keeps (document_ok (remote_format E root)) (upsert_remote E root remote_id n u)
    \<and> keeps (document_ok (remote_format E root)) (change_remote E root remote_id change)"
  unfolding upsert_remote_def change_remote_def load_remotes_def save_remotes_def Let_def
  by (intro conjI keeps_rules keeps_pair remotes.save_keeps)

end
