(* ===== verification/RemoteClient.thy ===== *)
theory RemoteClient
  imports RemoteProfiles Protocol ServerApi
begin

text \<open>
  apps/desktop/src-tauri/src/remote.rs: the HTTP client of the desktop. An operation of type
  \<open>'a client\<close> returns its result with the state it leaves, also when it fails: the files of the local
  repository, the tracking database, the requests sent so far and the number of looks at the cancellation
  flag. The server is the parameter \<open>ce_send\<close>: it may answer a request in any way, depending on all
  that was asked before, and a connection may fail. reqwest, url and serde are parameters; a body that stops
  because the operation was cancelled is a request that fails. Error texts are without their formatted parts.
\<close>

section \<open>Requests and responses\<close>

datatype http_method = GET | POST | PUT | PATCH

record http_request =
  hq_method :: http_method
  hq_endpoint :: string
  hq_length :: "u64 option"
  hq_body :: bytes

record http_response =
  hp_status :: nat
  hp_content_length :: "u64 option"
  hp_body :: "string + bytes"

record namespace_head_response =
  nh_namespace_id :: uuid
  nh_head :: "string option"
  nh_namespace_epoch :: u64

record client_wire =
  dec_info :: "bytes \<Rightarrow> protocol_info_response_v4 option"
  dec_namespaces :: "bytes \<Rightarrow> namespace_row list option"
  dec_namespace :: "bytes \<Rightarrow> namespace_row option"
  dec_head :: "bytes \<Rightarrow> namespace_head_response option"
  dec_revisions :: "bytes \<Rightarrow> revision_summary list option"
  dec_trash :: "bytes \<Rightarrow> trash_row option"
  dec_trash_list :: "bytes \<Rightarrow> trash_row list option"
  dec_purge :: "bytes \<Rightarrow> purge_history_trash_response option"
  dec_missing :: "bytes \<Rightarrow> storage_object_ref_v3 list option"
  dec_put :: "bytes \<Rightarrow> put_object_response option"
  dec_commit :: "bytes \<Rightarrow> revision_commit_response_v4 option"
  dec_error :: "bytes \<Rightarrow> (string \<times> string) option"
  enc_name :: "string \<Rightarrow> bytes"
  enc_truncate :: "string option \<Rightarrow> u64 \<Rightarrow> string option \<Rightarrow> bytes"
  enc_restore :: "string option \<Rightarrow> u64 \<Rightarrow> bytes"
  enc_purge :: "uuid list \<Rightarrow> bool \<Rightarrow> bytes"
  enc_missing :: "storage_object_ref_v3 list \<Rightarrow> bytes"
  enc_commit :: "revision_commit_request_v4 \<Rightarrow> bytes"

record client_state =
  cl_world :: world
  cl_tracking :: tracking_db
  cl_sent :: "http_request list"
  cl_polls :: nat

record client_env =
  ce_json :: json_lib
  ce_hash :: "bytes \<Rightarrow> string"
  ce_parsers :: parsers
  ce_os :: os
  ce_store :: content_store_v4
  ce_uuids :: uuid_lib
  ce_canonicalize :: "string \<Rightarrow> string option"
  ce_now :: "nat \<Rightarrow> string"
  ce_wire :: client_wire
  ce_send :: "http_request list \<Rightarrow> http_request \<Rightarrow> string + http_response"
  ce_cancelled :: "nat \<Rightarrow> bool"

type_synonym 'a client = "client_state \<Rightarrow> (string + 'a) \<times> client_state"

definition lift_cl :: "string + 'a \<Rightarrow> 'a client" where
  "lift_cl r s = (r, s)"

abbreviation return_cl :: "'a \<Rightarrow> 'a client" where
  "return_cl a \<equiv> lift_cl (Inr a)"

definition bind_cl :: "'a client \<Rightarrow> ('a \<Rightarrow> 'b client) \<Rightarrow> 'b client" where
  "bind_cl m f s = (case m s of (Inl e, s') \<Rightarrow> (Inl e, s') | (Inr a, s') \<Rightarrow> f a s')"

definition read_cl :: "(world \<Rightarrow> string + 'a) \<Rightarrow> 'a client" where
  "read_cl f s = (f (cl_world s), s)"

definition world_cl :: "(world \<Rightarrow> string + ('a \<times> world)) \<Rightarrow> 'a client" where
  "world_cl f s = (case f (cl_world s) of Inl e \<Rightarrow> (Inl e, s) | Inr (a, w) \<Rightarrow> (Inr a, s\<lparr>cl_world := w\<rparr>))"

definition tracking_cl :: "(tracking_db \<Rightarrow> string + ('a \<times> tracking_db)) \<Rightarrow> 'a client" where
  "tracking_cl f s = (case f (cl_tracking s) of Inl e \<Rightarrow> (Inl e, s) | Inr (a, db) \<Rightarrow> (Inr a, s\<lparr>cl_tracking := db\<rparr>))"

definition query_cl :: "(tracking_db \<Rightarrow> string + 'a) \<Rightarrow> 'a client" where
  "query_cl f s = (f (cl_tracking s), s)"

definition check_cl :: "client_env \<Rightarrow> unit client" where
  "check_cl E s = (ensure (\<not> ce_cancelled E (cl_polls s)) ''operation cancelled'', s\<lparr>cl_polls := Suc (cl_polls s)\<rparr>)"

definition send_cl :: "client_env \<Rightarrow> http_request \<Rightarrow> http_response client" where
  "send_cl E q s = (ce_send E (cl_sent s) q, s\<lparr>cl_sent := cl_sent s @ [q]\<rparr>)"

fun foreach_cl :: "('a \<Rightarrow> 's \<Rightarrow> 's client) \<Rightarrow> 'a list \<Rightarrow> 's \<Rightarrow> 's client" where
  "foreach_cl f [] acc = return_cl acc"
| "foreach_cl f (x # xs) acc = bind_cl (f x acc) (foreach_cl f xs)"

section \<open>Reading a response\<close>

definition MAX_JSON_RESPONSE_BYTES :: nat where "MAX_JSON_RESPONSE_BYTES = 72 * 1024 * 1024"
definition MAX_ERROR_RESPONSE_BYTES :: nat where "MAX_ERROR_RESPONSE_BYTES = 64 * 1024"

definition is_success :: "http_response \<Rightarrow> bool" where
  "is_success r \<longleftrightarrow> 200 \<le> hp_status r \<and> hp_status r < 300"

text \<open>A body read through \<open>take(limit + 1)\<close>.\<close>

definition read_limited :: "string + bytes \<Rightarrow> nat \<Rightarrow> string + bytes" where
  "read_limited body limit = bindr body (\<lambda>b. let b = take (limit + 1) b in
     bindr (ensure (\<not> length b > limit) ''server response exceeds the configured size limit'') (\<lambda>_. Inr b))"

definition ensure_success :: "client_env \<Rightarrow> http_response \<Rightarrow> string + http_response" where
  "ensure_success E r = (if is_success r then Inr r
     else let b = (case read_limited (hp_body r) MAX_ERROR_RESPONSE_BYTES of Inl _ \<Rightarrow> [] | Inr b \<Rightarrow> b) in
       case dec_error (ce_wire E) b of
         Some (code, msg) \<Rightarrow> Inl (''remote error '' @ code @ '': '' @ msg)
       | None \<Rightarrow> Inl ''synchronization server returned an HTTP error status'')"

definition parse_json_response :: "client_env \<Rightarrow> (bytes \<Rightarrow> 'a option) \<Rightarrow> http_response \<Rightarrow> string + 'a" where
  "parse_json_response E decode r =
     bindr (ensure_success E r) (\<lambda>r.
     bindr (read_limited (hp_body r) MAX_JSON_RESPONSE_BYTES) (\<lambda>b.
       ok_or ''server returned invalid JSON'' (decode b)))"

definition get_json :: "client_env \<Rightarrow> string \<Rightarrow> (bytes \<Rightarrow> 'a option) \<Rightarrow> 'a client" where
  "get_json E endpoint decode =
     bind_cl (send_cl E \<lparr>hq_method = GET, hq_endpoint = endpoint, hq_length = None, hq_body = []\<rparr>)
       (\<lambda>r. lift_cl (parse_json_response E decode r))"

definition send_json :: "client_env \<Rightarrow> http_method \<Rightarrow> string \<Rightarrow> bytes \<Rightarrow> (bytes \<Rightarrow> 'a option) \<Rightarrow> 'a client" where
  "send_json E m endpoint payload decode =
     bind_cl (send_cl E \<lparr>hq_method = m, hq_endpoint = endpoint, hq_length = Some (of_nat (length payload)), hq_body = payload\<rparr>)
       (\<lambda>r. lift_cl (parse_json_response E decode r))"

section \<open>The operations\<close>

definition namespace_endpoint :: "client_env \<Rightarrow> uuid \<Rightarrow> string \<Rightarrow> string" where
  "namespace_endpoint E namespace_id rest = ''api/v4/namespaces/'' @ uuid_text (ce_uuids E) namespace_id @ rest"

definition remote_info :: "client_env \<Rightarrow> protocol_info_response_v4 client" where
  "remote_info E = bind_cl (get_json E ''api/v4/info'' (dec_info (ce_wire E))) (\<lambda>info.
     bind_cl (lift_cl (ensure (pi_service info = ''codex-session-sync'') ''server returned an unexpected service identifier'')) (\<lambda>_.
     bind_cl (lift_cl (ensure (pi_protocol_version info = 4) ''incompatible synchronization protocol'')) (\<lambda>_.
     return_cl info)))"

definition remote_list_namespaces :: "client_env \<Rightarrow> namespace_row list client" where
  "remote_list_namespaces E = get_json E ''api/v4/namespaces'' (dec_namespaces (ce_wire E))"

definition remote_create_namespace :: "client_env \<Rightarrow> string \<Rightarrow> namespace_row client" where
  "remote_create_namespace E display_name =
     send_json E POST ''api/v4/namespaces'' (enc_name (ce_wire E) display_name) (dec_namespace (ce_wire E))"

definition remote_rename_namespace :: "client_env \<Rightarrow> uuid \<Rightarrow> string \<Rightarrow> namespace_row client" where
  "remote_rename_namespace E namespace_id display_name =
     send_json E PATCH (namespace_endpoint E namespace_id []) (enc_name (ce_wire E) display_name) (dec_namespace (ce_wire E))"

definition namespace_head_state :: "client_env \<Rightarrow> uuid \<Rightarrow> namespace_head_response client" where
  "namespace_head_state E namespace_id =
     bind_cl (get_json E (namespace_endpoint E namespace_id ''/head'') (dec_head (ce_wire E))) (\<lambda>response.
     bind_cl (lift_cl (ensure (nh_namespace_id response = namespace_id) ''server returned a head for the wrong namespace'')) (\<lambda>_.
     return_cl response))"

definition namespace_head :: "client_env \<Rightarrow> uuid \<Rightarrow> string option client" where
  "namespace_head E namespace_id =
     bind_cl (get_json E (namespace_endpoint E namespace_id ''/head'') (dec_head (ce_wire E))) (\<lambda>response.
     bind_cl (lift_cl (ensure (nh_namespace_id response = namespace_id) ''server returned a head for the wrong namespace'')) (\<lambda>_.
     return_cl (nh_head response)))"

definition remote_list_revisions :: "client_env \<Rightarrow> uuid \<Rightarrow> revision_summary list client" where
  "remote_list_revisions E namespace_id =
     get_json E (namespace_endpoint E namespace_id ''/revisions'') (dec_revisions (ce_wire E))"

definition remote_truncate_history :: "client_env \<Rightarrow> uuid \<Rightarrow> string option \<Rightarrow> u64 \<Rightarrow> string option \<Rightarrow> trash_row client" where
  "remote_truncate_history E namespace_id expected_head expected_epoch new_head =
     send_json E POST (namespace_endpoint E namespace_id ''/history/truncations'')
       (enc_truncate (ce_wire E) expected_head expected_epoch new_head) (dec_trash (ce_wire E))"

definition remote_list_trash :: "client_env \<Rightarrow> uuid \<Rightarrow> trash_row list client" where
  "remote_list_trash E namespace_id =
     get_json E (namespace_endpoint E namespace_id ''/trash'') (dec_trash_list (ce_wire E))"

definition remote_restore_trash :: "client_env \<Rightarrow> uuid \<Rightarrow> uuid \<Rightarrow> string option \<Rightarrow> u64 \<Rightarrow> trash_row client" where
  "remote_restore_trash E namespace_id operation_id expected_head expected_epoch =
     send_json E POST (namespace_endpoint E namespace_id (''/trash/'' @ uuid_text (ce_uuids E) operation_id @ ''/restore''))
       (enc_restore (ce_wire E) expected_head expected_epoch) (dec_trash (ce_wire E))"

definition remote_purge_trash :: "client_env \<Rightarrow> uuid \<Rightarrow> uuid list \<Rightarrow> bool \<Rightarrow> purge_history_trash_response client" where
  "remote_purge_trash E namespace_id operation_ids purge_all =
     send_json E POST (namespace_endpoint E namespace_id ''/trash/purge'')
       (enc_purge (ce_wire E) operation_ids purge_all) (dec_purge (ce_wire E))"

definition commit_revision_v4 :: "client_env \<Rightarrow> uuid \<Rightarrow> revision_commit_request_v4 \<Rightarrow> revision_commit_response_v4 client" where
  "commit_revision_v4 E namespace_id request =
     send_json E POST (namespace_endpoint E namespace_id ''/revisions/commit'')
       (enc_commit (ce_wire E) request) (dec_commit (ce_wire E))"

subsection \<open>Objects\<close>

definition raw_digest :: "string \<Rightarrow> string + string" where
  "raw_digest value =
     bindr (map_err (\<lambda>_. ''invalid SHA-256 identifier'') (validate_sha256 value)) (\<lambda>_.
       ok_or ''SHA-256 identifier has no algorithm prefix'' (strip_prefix ''sha256:'' value))"

definition object_endpoint :: "storage_object_kind_v3 \<Rightarrow> string \<Rightarrow> string" where
  "object_endpoint kind digest = ''api/v4/objects/'' @ wire_name_v3 kind @ ''/'' @ digest"

definition v4_object_to_transport :: "storage_object_ref_v4 \<Rightarrow> string + storage_object_ref_v3" where
  "v4_object_to_transport obj =
     bindr (case ref_kind obj of
        Whole \<Rightarrow> Inr Whole3 | Chunk \<Rightarrow> Inr Chunk3 | ChunkManifest \<Rightarrow> Inr ChunkManifest3 | Thread \<Rightarrow> Inr Thread3
      | RevisionRoot \<Rightarrow> Inr RevisionRoot3 | SnapshotOverlay \<Rightarrow> Inl ''snapshot overlays are local-only'') (\<lambda>kind.
       Inr \<lparr>ref3_kind = kind, ref3_sha256 = ref_sha256 obj, ref3_byte_length = ref_byte_length obj\<rparr>)"

definition transport_object_to_v4 :: "storage_object_ref_v3 \<Rightarrow> storage_object_ref_v4" where
  "transport_object_to_v4 obj =
     \<lparr>ref_kind = (case ref3_kind obj of Whole3 \<Rightarrow> Whole | Chunk3 \<Rightarrow> Chunk | ChunkManifest3 \<Rightarrow> ChunkManifest
        | Thread3 \<Rightarrow> Thread | RevisionRoot3 \<Rightarrow> RevisionRoot),
      ref_sha256 = ref3_sha256 obj, ref_byte_length = ref3_byte_length obj\<rparr>"

definition missing_typed_objects_cl :: "client_env \<Rightarrow> storage_object_ref_v3 list \<Rightarrow> storage_object_ref_v3 list client" where
  "missing_typed_objects_cl E objects =
     send_json E POST ''api/v4/objects/missing'' (enc_missing (ce_wire E) objects) (dec_missing (ce_wire E))"

definition missing_v4_objects :: "client_env \<Rightarrow> storage_object_ref_v4 list \<Rightarrow> storage_object_ref_v4 list client" where
  "missing_v4_objects E objects = bind_cl (lift_cl (map_res v4_object_to_transport objects)) (\<lambda>legacy.
     bind_cl (missing_typed_objects_cl E legacy) (\<lambda>missing. return_cl (map transport_object_to_v4 missing)))"

definition upload_typed_object :: "client_env \<Rightarrow> storage_object_ref_v3 \<Rightarrow> path \<Rightarrow> bool client" where
  "upload_typed_object E obj path = bind_cl (lift_cl (raw_digest (ref3_sha256 obj))) (\<lambda>digest.
     bind_cl (read_cl (\<lambda>w. read_file w path)) (\<lambda>b.
     bind_cl (lift_cl (ensure (\<not> of_nat (length b) \<noteq> ref3_byte_length obj) ''typed object length changed before upload'')) (\<lambda>_.
     bind_cl (send_cl E \<lparr>hq_method = PUT, hq_endpoint = object_endpoint (ref3_kind obj) digest,
        hq_length = Some (ref3_byte_length obj), hq_body = b\<rparr>) (\<lambda>r.
     bind_cl (lift_cl (parse_json_response E (dec_put (ce_wire E)) r)) (\<lambda>response.
     bind_cl (lift_cl (ensure (\<not> (po_sha256 response \<noteq> ref3_sha256 obj \<or> po_byte_length response \<noteq> ref3_byte_length obj))
        ''server acknowledged a different typed object'')) (\<lambda>_.
     return_cl (po_created response)))))))"

definition upload_v4_object :: "client_env \<Rightarrow> storage_object_ref_v4 \<Rightarrow> path \<Rightarrow> bool client" where
  "upload_v4_object E obj path = bind_cl (lift_cl (v4_object_to_transport obj)) (\<lambda>o3. upload_typed_object E o3 path)"

definition download_typed_object :: "client_env \<Rightarrow> storage_object_ref_v3 \<Rightarrow> http_response client" where
  "download_typed_object E obj = bind_cl (lift_cl (raw_digest (ref3_sha256 obj))) (\<lambda>digest.
     bind_cl (send_cl E \<lparr>hq_method = GET, hq_endpoint = object_endpoint (ref3_kind obj) digest, hq_length = None, hq_body = []\<rparr>)
       (\<lambda>r. lift_cl (ensure_success E r)))"

definition download_v4_object :: "client_env \<Rightarrow> storage_object_ref_v4 \<Rightarrow> http_response client" where
  "download_v4_object E obj = bind_cl (lift_cl (v4_object_to_transport obj)) (download_typed_object E)"

text \<open>A root is accepted only when its bytes and its canonical form both have the requested digest.\<close>

definition fetch_revision_root :: "client_env \<Rightarrow> string \<Rightarrow> revision_root_v4 client" where
  "fetch_revision_root E rid =
     bind_cl (download_typed_object E \<lparr>ref3_kind = RevisionRoot3, ref3_sha256 = rid, ref3_byte_length = 0\<rparr>) (\<lambda>r.
     bind_cl (lift_cl (hp_body r)) (\<lambda>b.
     bind_cl (lift_cl (ensure (digest_bytes_v4 (ce_hash E) b = rid) ''server returned a corrupt v4 revision root'')) (\<lambda>_.
     bind_cl (lift_cl (ok_or ''invalid JSON'' (parse_revision_root (ce_parsers E) b))) (\<lambda>root.
     bind_cl (lift_cl (validate_revision_root root)) (\<lambda>_.
     bind_cl (lift_cl (revision_id (ce_json E) (ce_hash E) (uuid_text (ce_uuids E)) root)) (\<lambda>actual.
     bind_cl (lift_cl (ensure (actual = rid) ''server returned a non-canonical v4 revision root'')) (\<lambda>_.
     return_cl root)))))))"

section \<open>What client operations keep\<close>

text \<open>\<open>moves R m\<close>: whatever the server answers, \<open>R\<close> relates the states before and after.\<close>

definition moves :: "(client_state \<Rightarrow> client_state \<Rightarrow> bool) \<Rightarrow> 'a client \<Rightarrow> bool" where
  "moves R m \<longleftrightarrow> (\<forall>s. R s (snd (m s)))"

named_theorems moves_rules \<open>relations between the states around a client operation\<close>

locale client_relation =
  fixes R :: "client_state \<Rightarrow> client_state \<Rightarrow> bool"
  assumes refl: "R s s"
    and trans: "R s t \<Longrightarrow> R t u \<Longrightarrow> R s u"
begin

lemma moves_lift: "moves R (lift_cl r)"
  by (simp add: moves_def lift_cl_def refl)

lemma moves_read: "moves R (read_cl f)"
  by (simp add: moves_def read_cl_def refl)

lemma moves_query: "moves R (query_cl f)"
  by (simp add: moves_def query_cl_def refl)

lemma moves_bind: "moves R m \<Longrightarrow> (\<And>a. moves R (f a)) \<Longrightarrow> moves R (bind_cl m f)"
  unfolding moves_def bind_cl_def
  by (auto split: prod.split sum.split) (metis snd_conv, metis snd_conv trans)

lemma moves_foreach: "(\<And>x acc. moves R (f x acc)) \<Longrightarrow> moves R (foreach_cl f xs acc)"
  by (induction xs arbitrary: acc) (auto intro: moves_lift moves_bind)

lemma moves_if: "moves R m \<Longrightarrow> moves R n \<Longrightarrow> moves R (if b then m else n)"
  by simp

end

lemma bind_cl_Inr:
  "bind_cl m f s = (Inr b, t) \<longleftrightarrow> (\<exists>a s'. m s = (Inr a, s') \<and> f a s' = (Inr b, t))"
  by (auto simp: bind_cl_def split: prod.split sum.split)

lemma lift_cl_run: "lift_cl r s = (q, t) \<longleftrightarrow> r = q \<and> t = s"
  by (auto simp: lift_cl_def)

lemma read_cl_run: "read_cl f s = (q, t) \<longleftrightarrow> f (cl_world s) = q \<and> t = s"
  by (auto simp: read_cl_def)

lemma query_cl_run: "query_cl f s = (q, t) \<longleftrightarrow> f (cl_tracking s) = q \<and> t = s"
  by (auto simp: query_cl_def)

lemma send_cl_run: "send_cl E q s = (r, t) \<longleftrightarrow> ce_send E (cl_sent s) q = r \<and> t = s\<lparr>cl_sent := cl_sent s @ [q]\<rparr>"
  by (auto simp: send_cl_def)

lemma world_cl_Inr: "world_cl f s = (Inr a, t) \<longleftrightarrow> (\<exists>w. f (cl_world s) = Inr (a, w) \<and> t = s\<lparr>cl_world := w\<rparr>)"
  by (cases "f (cl_world s)") (auto simp: world_cl_def)

lemma tracking_cl_Inr:
  "tracking_cl f s = (Inr a, t) \<longleftrightarrow> (\<exists>db. f (cl_tracking s) = Inr (a, db) \<and> t = s\<lparr>cl_tracking := db\<rparr>)"
  by (cases "f (cl_tracking s)") (auto simp: tracking_cl_def)

lemma check_cl_Inr:
  "check_cl E s = (Inr u, t) \<longleftrightarrow> \<not> ce_cancelled E (cl_polls s) \<and> t = s\<lparr>cl_polls := Suc (cl_polls s)\<rparr>"
  by (auto simp: check_cl_def)

lemmas client_run = bind_cl_Inr lift_cl_run read_cl_run query_cl_run send_cl_run world_cl_Inr tracking_cl_Inr check_cl_Inr

text \<open>The kinds of the two protocols correspond.\<close>

lemma transport_round_trip: "v4_object_to_transport obj = Inr o3 \<Longrightarrow> transport_object_to_v4 o3 = obj"
  by (cases "ref_kind obj") (auto simp: v4_object_to_transport_def transport_object_to_v4_def)

lemma transport_kind: "v4_object_to_transport obj = Inr o3 \<Longrightarrow> Some (ref3_kind o3) = storage_kind_v3 (ref_kind obj)"
  by (cases "ref_kind obj") (auto simp: v4_object_to_transport_def)

end
