(* ===== verification/RevisionDownload.thy ===== *)
theory RevisionDownload
  imports RemoteClient
begin

text \<open>
  The downloads of apps/desktop/src-tauri/src/remote\_sync.rs: a revision root, its thread descriptors
  and the contents they name are fetched where the local store lacks them, installed under the digests
  they were asked for, and read back from the store. Progress reports are left out; opening the store,
  which creates its directories, is done once (\<open>ce_store\<close>).
\<close>

section \<open>Objects\<close>

definition client_path :: "client_env \<Rightarrow> storage_object_kind_v4 \<Rightarrow> string \<Rightarrow> string + path" where
  "client_path E = typed_object_path_v4 (store_root (ce_store E))"

text \<open>\<open>exists\<close> or \<open>is_file\<close> of an object's path.\<close>

definition object_cached :: "client_env \<Rightarrow> storage_object_kind_v4 \<Rightarrow> string \<Rightarrow> bool client" where
  "object_cached E kind h = read_cl (\<lambda>w. bindr (client_path E kind h) (\<lambda>p. Inr (is_file w p)))"

definition download_known_v4_response :: "client_env \<Rightarrow> storage_object_ref_v4 \<Rightarrow> http_response \<Rightarrow> bool client" where
  "download_known_v4_response E obj r = bind_cl (check_cl E) (\<lambda>_.
     bind_cl (lift_cl (hp_body r)) (\<lambda>b.
     bind_cl (object_cached E (ref_kind obj) (ref_sha256 obj)) (\<lambda>existed.
     bind_cl (world_cl (install_bytes (ce_hash E) (ce_os E) (ce_store E) obj b)) (\<lambda>_. return_cl (\<not> existed)))))"

definition download_known_v4_object :: "client_env \<Rightarrow> storage_object_ref_v4 \<Rightarrow> bool client" where
  "download_known_v4_object E obj = bind_cl (download_v4_object E obj) (download_known_v4_response E obj)"

definition download_unknown_v4_object :: "client_env \<Rightarrow> storage_object_kind_v4 \<Rightarrow> string \<Rightarrow> bool client" where
  "download_unknown_v4_object E kind h =
     (let probe = \<lparr>ref_kind = kind, ref_sha256 = h, ref_byte_length = 0\<rparr> in
     bind_cl (download_v4_object E probe) (\<lambda>r.
     bind_cl (lift_cl (ok_or ''typed object response has no Content-Length'' (hp_content_length r))) (\<lambda>byte_length.
     download_known_v4_response E (probe\<lparr>ref_byte_length := byte_length\<rparr>) r)))"

text \<open>\<open>if !path.exists() { downloaded += download_unknown_v4_object(..) as usize }\<close>\<close>

definition ensure_unknown :: "client_env \<Rightarrow> storage_object_kind_v4 \<Rightarrow> string \<Rightarrow> nat \<Rightarrow> nat client" where
  "ensure_unknown E kind h downloaded = bind_cl (object_cached E kind h) (\<lambda>cached.
     if cached then return_cl downloaded
     else bind_cl (download_unknown_v4_object E kind h) (\<lambda>new. return_cl (downloaded + (if new then 1 else 0))))"

definition ensure_known :: "client_env \<Rightarrow> storage_object_ref_v4 \<Rightarrow> nat \<Rightarrow> nat client" where
  "ensure_known E obj downloaded = bind_cl (object_cached E (ref_kind obj) (ref_sha256 obj)) (\<lambda>cached.
     if cached then return_cl downloaded
     else bind_cl (download_known_v4_object E obj) (\<lambda>new. return_cl (downloaded + (if new then 1 else 0))))"

section \<open>Roots and histories\<close>

definition load_revision_root :: "client_env \<Rightarrow> string \<Rightarrow> revision_root_v4 client" where
  "load_revision_root E rid = bind_cl (object_cached E RevisionRoot rid) (\<lambda>cached.
     if cached then
       bind_cl (read_cl (read_json (parse_revision_root (ce_parsers E)) (ce_hash E) (ce_store E) RevisionRoot rid)) (\<lambda>root.
       bind_cl (lift_cl (validate_revision_root root)) (\<lambda>_. return_cl root))
     else
       bind_cl (fetch_revision_root E rid) (\<lambda>root.
       bind_cl (world_cl (store_revision_root (ce_json E) (ce_hash E) (uuid_text (ce_uuids E)) (ce_os E) (ce_store E) root)) (\<lambda>_.
       return_cl root)))"

definition validate_revision_root_namespace :: "revision_root_v4 \<Rightarrow> uuid \<Rightarrow> string + unit" where
  "validate_revision_root_namespace root namespace_id = bindr (validate_revision_root root) (\<lambda>_.
     ensure (rv_namespace_id root = namespace_id) ''server returned a revision for the wrong namespace'')"

definition MAX_ANCESTRY_DEPTH :: nat where "MAX_ANCESTRY_DEPTH = 10000"

fun ancestor_loop :: "client_env \<Rightarrow> uuid \<Rightarrow> string \<Rightarrow> nat \<Rightarrow> string \<Rightarrow> unit client" where
  "ancestor_loop E namespace_id ancestor 0 current = lift_cl (Inl ''remote revision ancestry exceeds the safety limit'')"
| "ancestor_loop E namespace_id ancestor (Suc n) current =
     (if current = ancestor then return_cl ()
      else bind_cl (fetch_revision_root E current) (\<lambda>revision.
        bind_cl (lift_cl (validate_revision_root_namespace revision namespace_id)) (\<lambda>_.
        case rv_parent_revision revision of
          None \<Rightarrow> lift_cl (Inl ''remote revision history does not contain the locally tracked head'')
        | Some parent \<Rightarrow> ancestor_loop E namespace_id ancestor n parent)))"

definition ensure_ancestor :: "client_env \<Rightarrow> uuid \<Rightarrow> string \<Rightarrow> string \<Rightarrow> unit client" where
  "ensure_ancestor E namespace_id descendant ancestor = ancestor_loop E namespace_id ancestor MAX_ANCESTRY_DEPTH descendant"

section \<open>The graph of a revision\<close>

definition descriptor_step ::
  "client_env \<Rightarrow> thread_ref_v4 \<Rightarrow> thread_bundle list \<times> nat \<Rightarrow> (thread_bundle list \<times> nat) client" where
  "descriptor_step E reference acc = bind_cl (check_cl E) (\<lambda>_.
     bind_cl (ensure_unknown E Thread (tref_descriptor_sha256 reference) (snd acc)) (\<lambda>downloaded.
     bind_cl (read_cl (load_descriptor (ce_parsers E) (ce_hash E) (ce_store E) reference)) (\<lambda>descriptor.
     return_cl (fst acc @ [descriptor_into_bundle descriptor None], downloaded))))"

definition download_revision_descriptors :: "client_env \<Rightarrow> string \<Rightarrow> (revision_root_v4 \<times> thread_bundle list \<times> nat) client" where
  "download_revision_descriptors E rid = bind_cl (object_cached E RevisionRoot rid) (\<lambda>cached.
     bind_cl (load_revision_root E rid) (\<lambda>root.
     bind_cl (foreach_cl (descriptor_step E) (rv_threads root) ([], if cached then 0 else 1)) (\<lambda>(threads, downloaded).
     return_cl (root, threads, downloaded))))"

definition chunk_object :: "chunk_descriptor_v4 \<Rightarrow> storage_object_ref_v4" where
  "chunk_object chunk = \<lparr>ref_kind = Chunk, ref_sha256 = chunk_sha256 chunk, ref_byte_length = chunk_byte_length chunk\<rparr>"

definition content_download_step :: "client_env \<Rightarrow> content_ref_v4 \<Rightarrow> nat \<Rightarrow> nat client" where
  "content_download_step E content downloaded = (case storage content of
     WholeRef object_sha256 \<Rightarrow>
       ensure_known E \<lparr>ref_kind = Whole, ref_sha256 = object_sha256, ref_byte_length = content_byte_length content\<rparr> downloaded
   | ChunkedRef manifest_sha256 \<Rightarrow>
       bind_cl (ensure_unknown E ChunkManifest manifest_sha256 downloaded) (\<lambda>downloaded.
       bind_cl (read_cl (read_json (parse_manifest (ce_parsers E)) (ce_hash E) (ce_store E) ChunkManifest manifest_sha256)) (\<lambda>manifest.
       bind_cl (lift_cl (validate_chunk_manifest_v4 manifest)) (\<lambda>_.
       bind_cl (lift_cl (ensure (\<not> (cm_logical_sha256 manifest \<noteq> logical_sha256 content
           \<or> cm_byte_length manifest \<noteq> content_byte_length content)) ''downloaded chunk manifest does not match rollout'')) (\<lambda>_.
       foreach_cl (\<lambda>chunk. ensure_known E (chunk_object chunk)) (cm_chunks manifest) downloaded)))))"

definition graph_step ::
  "client_env \<Rightarrow> thread_ref_v4 \<Rightarrow> thread_bundle list \<times> nat \<Rightarrow> (thread_bundle list \<times> nat) client" where
  "graph_step E reference acc = bind_cl (check_cl E) (\<lambda>_.
     bind_cl (ensure_unknown E Thread (tref_descriptor_sha256 reference) (snd acc)) (\<lambda>downloaded.
     bind_cl (read_cl (load_descriptor (ce_parsers E) (ce_hash E) (ce_store E) reference)) (\<lambda>descriptor.
     bind_cl (lift_cl (validate_descriptor descriptor)) (\<lambda>_.
     bind_cl (lift_cl (ensure (sd_thread_id descriptor = tref_thread_id reference)
        ''thread reference ID does not match its descriptor'')) (\<lambda>_.
     bind_cl (foreach_cl (content_download_step E) (sd_rollout descriptor # sd_attachments descriptor) downloaded) (\<lambda>downloaded.
     return_cl (fst acc @ [descriptor_into_bundle descriptor None], downloaded)))))))"

definition download_revision_graph :: "client_env \<Rightarrow> string \<Rightarrow> (revision_root_v4 \<times> thread_bundle list \<times> nat) client" where
  "download_revision_graph E rid = bind_cl (object_cached E RevisionRoot rid) (\<lambda>cached.
     bind_cl (load_revision_root E rid) (\<lambda>root.
     bind_cl (foreach_cl (graph_step E) (rv_threads root) ([], if cached then 0 else 1)) (\<lambda>(threads, downloaded).
     return_cl (root, threads, downloaded))))"

section \<open>A server cannot alter the store\<close>

text \<open>Objects stay as they were, a new object has the digest that names it, and the tracking
  database is left alone.\<close>

definition object_of :: "client_env \<Rightarrow> client_state \<Rightarrow> storage_object_kind_v4 \<Rightarrow> string \<Rightarrow> bytes option" where
  "object_of E s = object_at (ce_store E) (cl_world s)"

definition store_grows :: "client_env \<Rightarrow> client_state \<Rightarrow> client_state \<Rightarrow> bool" where
  "store_grows E s t \<longleftrightarrow> cl_tracking t = cl_tracking s
     \<and> (\<forall>k h b. object_of E s k h = Some b \<longrightarrow> object_of E t k h = Some b)
     \<and> (\<forall>k h b. object_of E t k h = Some b \<longrightarrow> object_of E s k h = Some b \<or> digest_bytes_v4 (ce_hash E) b = h)"

interpretation growth: client_relation "store_grows E" for E
proof
  show "store_grows E s s" for s by (simp add: store_grows_def)
  show "store_grows E s u" if "store_grows E s t" "store_grows E t u" for s t u
    using that unfolding store_grows_def by metis
qed

lemma grows_polls: "moves (store_grows E) (check_cl E)"
  by (simp add: moves_def check_cl_def store_grows_def object_of_def)

lemma grows_send: "moves (store_grows E) (send_cl E q)"
  by (simp add: moves_def send_cl_def store_grows_def object_of_def)

lemma install_grows:
  assumes "install_bytes (ce_hash E) (ce_os E) (ce_store E) obj b (cl_world s) = Inr (x, w)"
  shows "store_grows E s (s\<lparr>cl_world := w\<rparr>)"
proof -
  from install_bytes_files [OF assms] have "digest_bytes_v4 (ce_hash E) b = ref_sha256 obj" by metis
  moreover note object_at_install [OF assms] install_keeps_content [OF assms]
  ultimately show ?thesis by (auto simp: store_grows_def object_of_def split: if_splits)
qed

lemma grows_install: "moves (store_grows E) (world_cl (install_bytes (ce_hash E) (ce_os E) (ce_store E) obj b))"
  by (auto simp: moves_def world_cl_def growth.refl intro: install_grows split: sum.split prod.split)

lemma grows_store_root:
  "moves (store_grows E) (world_cl (store_revision_root J (ce_hash E) u (ce_os E) (ce_store E) root))"
  unfolding moves_def
proof
  fix s
  show "store_grows E s (snd (world_cl (store_revision_root J (ce_hash E) u (ce_os E) (ce_store E) root) s))"
  proof (cases "store_revision_root J (ce_hash E) u (ce_os E) (ce_store E) root (cl_world s)")
    case (Inl e)
    then show ?thesis by (simp add: world_cl_def growth.refl)
  next
    case (Inr y)
    then obtain x w where y: "y = (x, w)" by fastforce
    have "store_grows E s (s\<lparr>cl_world := w\<rparr>)"
      using Inr y by (auto simp: store_revision_root_def store_json_def bindr_eq_Inr_iff Let_def intro: install_grows)
    then show ?thesis using Inr y by (simp add: world_cl_def)
  qed
qed

lemmas grows_basic = growth.moves_lift growth.moves_read growth.moves_query growth.moves_if growth.moves_bind growth.moves_foreach
  grows_polls grows_send grows_install grows_store_root

lemma grows_requests:
  "moves (store_grows E) (get_json E ep dec)" "moves (store_grows E) (send_json E m ep pay dec')" "moves (store_grows E) (download_v4_object E obj)"
  "moves (store_grows E) (fetch_revision_root E rid)" "moves (store_grows E) (object_cached E k h)"
  unfolding get_json_def send_json_def download_v4_object_def download_typed_object_def fetch_revision_root_def object_cached_def
  by (intro grows_basic)+

lemma grows_objects:
  "moves (store_grows E) (download_known_v4_object E obj)" "moves (store_grows E) (download_unknown_v4_object E k h)"
  "moves (store_grows E) (ensure_unknown E k h n)" "moves (store_grows E) (ensure_known E obj n)"
  unfolding download_known_v4_object_def download_unknown_v4_object_def ensure_unknown_def ensure_known_def
    download_known_v4_response_def Let_def
  by (intro grows_basic grows_requests)+

lemma grows_load_root: "moves (store_grows E) (load_revision_root E rid)"
  unfolding load_revision_root_def by (intro grows_basic grows_requests)

lemma grows_content: "moves (store_grows E) (content_download_step E content n)"
  unfolding content_download_step_def
  by (cases "storage content"; simp only: storage_ref_v4.case; intro grows_basic grows_objects)

lemma grows_pair: "(\<And>a b. moves R (f a b)) \<Longrightarrow> moves R (case z of (a, b) \<Rightarrow> f a b)"
  by (cases z) simp

lemma grows_downloads:
  "moves (store_grows E) (download_revision_graph E rid)" "moves (store_grows E) (download_revision_descriptors E rid)"
  unfolding download_revision_graph_def download_revision_descriptors_def graph_step_def descriptor_step_def
  by (intro grows_basic grows_requests grows_objects grows_content grows_load_root grows_pair)+

lemma grows_ancestor: "moves (store_grows E) (ancestor_loop E namespace_id ancestor n current)"
  by (induction n arbitrary: current)
    (auto intro!: grows_basic grows_requests split: option.split)

end
