(* ===== verification/DownloadProps.thy ===== *)
theory DownloadProps
  imports RevisionDownload GraphProps
begin

text \<open>
  What a download is good for: the server cannot alter what is stored, a revision that was downloaded is
  complete and reads the same without the server, and a history that was checked is a chain of roots
  that were verified one by one.
\<close>

section \<open>Reading a revision without the server\<close>

definition offline_chunks :: "client_env \<Rightarrow> world \<Rightarrow> chunk_descriptor_v4 list \<Rightarrow> string + unit" where
  "offline_chunks E w chunks = ensure (list_all (\<lambda>c. object_at (ce_store E) w Chunk (chunk_sha256 c) \<noteq> None) chunks) ''chunk is missing''"

definition offline_content :: "client_env \<Rightarrow> world \<Rightarrow> content_ref_v4 \<Rightarrow> string + unit" where
  "offline_content E w content = (case storage content of
     WholeRef h \<Rightarrow> ensure (object_at (ce_store E) w Whole h \<noteq> None) ''object is missing''
   | ChunkedRef h \<Rightarrow>
       bindr (read_json (parse_manifest (ce_parsers E)) (ce_hash E) (ce_store E) ChunkManifest h w) (\<lambda>manifest.
       bindr (validate_chunk_manifest_v4 manifest) (\<lambda>_.
       bindr (ensure (\<not> (cm_logical_sha256 manifest \<noteq> logical_sha256 content
           \<or> cm_byte_length manifest \<noteq> content_byte_length content)) ''manifest does not match'') (\<lambda>_.
       offline_chunks E w (cm_chunks manifest)))))"

definition offline_thread :: "client_env \<Rightarrow> world \<Rightarrow> thread_ref_v4 \<Rightarrow> string + thread_bundle" where
  "offline_thread E w reference =
     bindr (load_descriptor (ce_parsers E) (ce_hash E) (ce_store E) reference w) (\<lambda>descriptor.
     bindr (map_res (offline_content E w) (sd_rollout descriptor # sd_attachments descriptor)) (\<lambda>_.
     Inr (descriptor_into_bundle descriptor None)))"

definition offline_revision :: "client_env \<Rightarrow> world \<Rightarrow> string \<Rightarrow> string + (revision_root_v4 \<times> thread_bundle list)" where
  "offline_revision E w rid =
     bindr (read_json (parse_revision_root (ce_parsers E)) (ce_hash E) (ce_store E) RevisionRoot rid w) (\<lambda>root.
     bindr (validate_revision_root root) (\<lambda>_.
     bindr (map_res (offline_thread E w) (rv_threads root)) (\<lambda>ths. Inr (root, ths))))"

text \<open>What was readable stays readable while objects are only added.\<close>

definition later :: "client_env \<Rightarrow> world \<Rightarrow> world \<Rightarrow> bool" where
  "later E w w' \<longleftrightarrow> (\<forall>k h b. object_at (ce_store E) w k h = Some b \<longrightarrow> object_at (ce_store E) w' k h = Some b)"

lemma grows_later: "store_grows E s t \<Longrightarrow> later E (cl_world s) (cl_world t)"
  by (simp add: store_grows_def later_def object_of_def)

lemma moves_later: "moves (store_grows E) m \<Longrightarrow> m s = (r, t) \<Longrightarrow> later E (cl_world s) (cl_world t)"
  unfolding moves_def using grows_later by (metis snd_conv)

lemma read_json_later:
  "read_json dec (ce_hash E) (ce_store E) k h w = Inr x \<Longrightarrow> later E w w' \<Longrightarrow> read_json dec (ce_hash E) (ce_store E) k h w' = Inr x"
  unfolding read_json_object later_def by metis

lemma load_descriptor_later:
  "load_descriptor P (ce_hash E) (ce_store E) ref w = Inr d \<Longrightarrow> later E w w' \<Longrightarrow> load_descriptor P (ce_hash E) (ce_store E) ref w' = Inr d"
  unfolding load_descriptor_def by (auto simp: bindr_eq_Inr_iff dest: read_json_later)

lemma offline_content_later:
  assumes "offline_content E w content = Inr u" and "later E w w'"
  shows "offline_content E w' content = Inr ()"
proof (cases "storage content")
  case (WholeRef h)
  then show ?thesis using assms by (auto simp: offline_content_def later_def)
next
  case (ChunkedRef h)
  from assms(1) obtain m where m: "read_json (parse_manifest (ce_parsers E)) (ce_hash E) (ce_store E) ChunkManifest h w = Inr m"
    and ok: "validate_chunk_manifest_v4 m = Inr ()" "cm_logical_sha256 m = logical_sha256 content" "cm_byte_length m = content_byte_length content"
      "offline_chunks E w (cm_chunks m) = Inr ()"
    unfolding offline_content_def ChunkedRef storage_ref_v4.case by (auto simp: bindr_eq_Inr_iff)
  have "offline_chunks E w' (cm_chunks m) = Inr ()"
    using ok(4) assms(2) by (force simp: offline_chunks_def later_def list_all_iff)
  then show ?thesis using read_json_later [OF m assms(2)] ok by (simp add: offline_content_def ChunkedRef)
qed

lemma map_res_all: "(\<And>x. x \<in> set xs \<Longrightarrow> f x = Inr ()) \<Longrightarrow> \<exists>us. map_res f xs = Inr us"
  by (induction xs) auto

lemma map_res_member: "map_res f xs = Inr ys \<Longrightarrow> x \<in> set xs \<Longrightarrow> is_ok (f x)"
  by (induction xs arbitrary: ys) (auto simp: bindr_eq_Inr_iff)

lemma offline_thread_later:
  assumes "offline_thread E w ref = Inr b" and "later E w w'"
  shows "offline_thread E w' ref = Inr b"
proof -
  from assms(1) obtain d us where d: "load_descriptor (ce_parsers E) (ce_hash E) (ce_store E) ref w = Inr d"
    and us: "map_res (offline_content E w) (sd_rollout d # sd_attachments d) = Inr us"
    and b: "b = descriptor_into_bundle d None"
    unfolding offline_thread_def by (auto simp: bindr_eq_Inr_iff)
  have "map_res (offline_content E w') (sd_rollout d # sd_attachments d) = Inr us"
    using us by (rule map_res_cong_ok) (simp add: offline_content_later [OF _ assms(2)])
  then show ?thesis unfolding offline_thread_def load_descriptor_later [OF d assms(2)] bindr_simps b by simp
qed

section \<open>After a download the revision is there\<close>

lemma object_cached_run:
  "object_cached E k h s = (Inr c, t) \<longleftrightarrow> t = s \<and> (\<exists>p. client_path E k h = Inr p \<and> c = (files (cl_world s) p \<noteq> None))"
  by (auto simp: object_cached_def read_cl_def bindr_eq_Inr_iff is_file_def)

lemma object_cached_object: "object_cached E k h s = (Inr c, t) \<Longrightarrow> c \<longleftrightarrow> object_at (ce_store E) (cl_world s) k h \<noteq> None"
  by (auto simp: object_cached_run client_path_def object_at_def)

lemma download_response_object:
  assumes "download_known_v4_response E obj r s = (Inr new, t)"
  shows "object_at (ce_store E) (cl_world t) (ref_kind obj) (ref_sha256 obj) \<noteq> None"
proof -
  from assms obtain b s1 x w where "install_bytes (ce_hash E) (ce_os E) (ce_store E) obj b (cl_world s1) = Inr (x, w)" "t = s1\<lparr>cl_world := w\<rparr>"
    unfolding download_known_v4_response_def by (auto simp: client_run)
  then show ?thesis using object_at_install by force
qed

lemma ensure_unknown_object:
  "ensure_unknown E k h n s = (Inr m, t) \<Longrightarrow> object_at (ce_store E) (cl_world t) k h \<noteq> None"
  unfolding ensure_unknown_def download_unknown_v4_object_def
  by (auto simp: client_run Let_def object_cached_run client_path_def object_at_def split: if_splits
      dest!: download_response_object [unfolded object_at_def])

lemma ensure_known_object:
  "ensure_known E obj n s = (Inr m, t) \<Longrightarrow> object_at (ce_store E) (cl_world t) (ref_kind obj) (ref_sha256 obj) \<noteq> None"
  unfolding ensure_known_def download_known_v4_object_def
  by (auto simp: client_run object_cached_run client_path_def object_at_def split: if_splits
      dest!: download_response_object [unfolded object_at_def])

lemma foreach_post:
  assumes "foreach_cl f xs acc s = (Inr acc', t)"
    and step: "\<And>x acc s acc' t. f x acc s = (Inr acc', t) \<Longrightarrow> Q x (cl_world t)"
    and grow: "\<And>x acc. moves (store_grows E) (f x acc)"
    and stable: "\<And>x w w'. Q x w \<Longrightarrow> later E w w' \<Longrightarrow> Q x w'"
  shows "\<forall>x \<in> set xs. Q x (cl_world t)"
  using assms(1)
proof (induction xs arbitrary: acc s)
  case (Cons x xs)
  then obtain a s1 where a: "f x acc s = (Inr a, s1)" and rest: "foreach_cl f xs a s1 = (Inr acc', t)"
    by (auto simp: client_run)
  have "later E (cl_world s1) (cl_world t)"
    using moves_later [OF growth.moves_foreach [OF grow] rest] .
  then show ?case using Cons.IH [OF rest] stable [OF step [OF a]] by simp
qed simp

lemma content_downloaded:
  assumes "content_download_step E content n s = (Inr m, t)"
  shows "offline_content E (cl_world t) content = Inr ()"
proof (cases "storage content")
  case (WholeRef h)
  then show ?thesis using assms by (auto simp: content_download_step_def offline_content_def dest: ensure_known_object)
next
  case (ChunkedRef h)
  from assms obtain n1 s1 m0 where
    m0: "read_json (parse_manifest (ce_parsers E)) (ce_hash E) (ce_store E) ChunkManifest h (cl_world s1) = Inr m0"
    and ok: "validate_chunk_manifest_v4 m0 = Inr ()" "cm_logical_sha256 m0 = logical_sha256 content" "cm_byte_length m0 = content_byte_length content"
    and chunks: "foreach_cl (\<lambda>chunk. ensure_known E (chunk_object chunk)) (cm_chunks m0) n1 s1 = (Inr m, t)"
    unfolding content_download_step_def ChunkedRef storage_ref_v4.case by (auto simp: client_run)
  have "later E (cl_world s1) (cl_world t)"
    using moves_later [OF growth.moves_foreach chunks] grows_objects(4) by blast
  note m1 = read_json_later [OF m0 this]
  have "\<forall>c \<in> set (cm_chunks m0). object_at (ce_store E) (cl_world t) Chunk (chunk_sha256 c) \<noteq> None"
    by (rule foreach_post [OF chunks, of "\<lambda>c w. object_at (ce_store E) w Chunk (chunk_sha256 c) \<noteq> None" E])
      (auto simp: chunk_object_def later_def grows_objects dest: ensure_known_object)
  then show ?thesis using m1 ok by (simp add: offline_content_def ChunkedRef offline_chunks_def list_all_iff)
qed

lemma thread_downloaded:
  assumes "graph_step E ref (ts, n) s = (Inr (ts', m), t)"
  shows "\<exists>b. offline_thread E (cl_world t) ref = Inr b \<and> ts' = ts @ [b]"
proof -
  from assms obtain n1 s1 d where
    d: "load_descriptor (ce_parsers E) (ce_hash E) (ce_store E) ref (cl_world s1) = Inr d"
    and cs: "foreach_cl (content_download_step E) (sd_rollout d # sd_attachments d) n1 s1 = (Inr m, t)"
    and ts: "ts' = ts @ [descriptor_into_bundle d None]"
    unfolding graph_step_def by (auto simp: client_run simp del: foreach_cl.simps)
  have "later E (cl_world s1) (cl_world t)"
    using moves_later [OF growth.moves_foreach cs] grows_content by blast
  note d1 = load_descriptor_later [OF d this]
  have "\<forall>c \<in> set (sd_rollout d # sd_attachments d). offline_content E (cl_world t) c = Inr ()"
    by (rule foreach_post [OF cs, of "\<lambda>c w. offline_content E w c = Inr ()" E])
      (auto intro: content_downloaded grows_content offline_content_later)
  then have "\<exists>us. map_res (offline_content E (cl_world t)) (sd_rollout d # sd_attachments d) = Inr us"
    by (intro map_res_all) blast
  then obtain us where "map_res (offline_content E (cl_world t)) (sd_rollout d # sd_attachments d) = Inr us" ..
  then show ?thesis unfolding offline_thread_def d1 bindr_simps ts by simp
qed

lemma grows_graph_step: "moves (store_grows E) (graph_step E ref acc)"
  unfolding graph_step_def by (intro grows_basic grows_objects grows_content)

lemma threads_downloaded:
  assumes "foreach_cl (graph_step E) refs (ts, n) s = (Inr (ts', m), t)"
  shows "\<exists>bs. map_res (offline_thread E (cl_world t)) refs = Inr bs \<and> ts' = ts @ bs"
  using assms
proof (induction refs arbitrary: ts n s)
  case (Cons ref refs)
  then obtain ts1 n1 s1 where one: "graph_step E ref (ts, n) s = (Inr (ts1, n1), s1)"
    and rest: "foreach_cl (graph_step E) refs (ts1, n1) s1 = (Inr (ts', m), t)" by (auto simp: client_run)
  from thread_downloaded [OF one] obtain b where b: "offline_thread E (cl_world s1) ref = Inr b" "ts1 = ts @ [b]" by blast
  have "later E (cl_world s1) (cl_world t)"
    using moves_later [OF growth.moves_foreach rest] grows_graph_step by blast
  then show ?case using Cons.IH [OF rest] offline_thread_later [OF b(1)] b(2) by auto
qed (auto simp: lift_cl_run)


lemma store_root_object:
  assumes "store_revision_root J H u os st root w = Inr (x, w')"
  shows "object_at st w' RevisionRoot (digest_bytes_v4 H (write_canonical_json_v4 J (revision_root_json u root)))
      = Some (write_canonical_json_v4 J (revision_root_json u root))
    \<and> \<not> of_nat (length (write_canonical_json_v4 J (revision_root_json u root))) > max_bytes RevisionRoot"
  using assms by (auto simp: store_revision_root_def store_json_def bindr_eq_Inr_iff Let_def object_at_install)

lemma fetched_root_verified:
  assumes "fetch_revision_root E rid s = (Inr root, t)"
  shows "validate_revision_root root = Inr ()"
    and "digest_bytes_v4 (ce_hash E) (write_canonical_json_v4 (ce_json E) (revision_root_json (uuid_text (ce_uuids E)) root)) = rid"
  using assms unfolding fetch_revision_root_def by (auto simp: client_run revision_id_def)

lemma root_downloaded:
  assumes "load_revision_root E rid s = (Inr root, t)"
    and "parse_revision_root (ce_parsers E)
      (write_canonical_json_v4 (ce_json E) (revision_root_json (uuid_text (ce_uuids E)) root)) = Some root"
  shows "read_json (parse_revision_root (ce_parsers E)) (ce_hash E) (ce_store E) RevisionRoot rid (cl_world t) = Inr root
    \<and> validate_revision_root root = Inr ()"
proof -
  from assms(1) obtain c where c: "object_cached E RevisionRoot rid s = (Inr c, s)"
    and rest: "(if c then
       bind_cl (read_cl (read_json (parse_revision_root (ce_parsers E)) (ce_hash E) (ce_store E) RevisionRoot rid)) (\<lambda>root.
       bind_cl (lift_cl (validate_revision_root root)) (\<lambda>_. return_cl root))
     else
       bind_cl (fetch_revision_root E rid) (\<lambda>root.
       bind_cl (world_cl (store_revision_root (ce_json E) (ce_hash E) (uuid_text (ce_uuids E)) (ce_os E) (ce_store E) root)) (\<lambda>_.
       return_cl root))) s = (Inr root, t)"
    unfolding load_revision_root_def by (auto simp: bind_cl_Inr object_cached_run)
  show ?thesis
  proof (cases c)
    case True
    then show ?thesis using rest by (auto simp: client_run)
  next
    case False
    then obtain s1 x w where f: "fetch_revision_root E rid s = (Inr root, s1)"
      and st: "store_revision_root (ce_json E) (ce_hash E) (uuid_text (ce_uuids E)) (ce_os E) (ce_store E) root (cl_world s1) = Inr (x, w)"
      and t: "cl_world t = w"
      using rest by (auto simp: client_run)
    show ?thesis
      using store_root_object [OF st] fetched_root_verified [OF f] assms(2) unfolding read_json_object t by auto
  qed
qed

lemma graph_downloaded:
  assumes "download_revision_graph E rid s = (Inr (root, ths, n), t)"
    and "parse_revision_root (ce_parsers E)
      (write_canonical_json_v4 (ce_json E) (revision_root_json (uuid_text (ce_uuids E)) root)) = Some root"
  shows "offline_revision E (cl_world t) rid = Inr (root, ths)"
proof -
  from assms(1) obtain c s1 where l: "load_revision_root E rid s = (Inr root, s1)"
    and f: "foreach_cl (graph_step E) (rv_threads root) ([], if c then 0 else 1) s1 = (Inr (ths, n), t)"
    unfolding download_revision_graph_def by (auto simp: client_run object_cached_run)
  have "later E (cl_world s1) (cl_world t)"
    using moves_later [OF growth.moves_foreach f] grows_graph_step by blast
  with root_downloaded [OF l assms(2)] threads_downloaded [OF f] show ?thesis
    by (auto simp: offline_revision_def dest: read_json_later)
qed

section \<open>Downloading what is there\<close>

lemma object_cached_there:
  "object_at (ce_store E) (cl_world s) k h = Some b \<Longrightarrow> object_cached E k h s = (Inr True, s)"
  unfolding object_cached_run client_path_def by (auto simp: object_at_def split: sum.splits)

lemma ensure_there:
  "object_at (ce_store E) (cl_world s) k h = Some b \<Longrightarrow> ensure_unknown E k h n s = (Inr n, s)"
  "object_at (ce_store E) (cl_world s) (ref_kind obj) (ref_sha256 obj) = Some b \<Longrightarrow> ensure_known E obj n s = (Inr n, s)"
  by (drule object_cached_there, simp add: ensure_unknown_def ensure_known_def bind_cl_def lift_cl_def)+

lemma foreach_still: "(\<And>x. x \<in> set xs \<Longrightarrow> f x acc s = (Inr acc, s)) \<Longrightarrow> foreach_cl f xs acc s = (Inr acc, s)"
  by (induction xs) (auto simp: lift_cl_def bind_cl_def)

lemma content_there:
  assumes "offline_content E (cl_world s) content = Inr u"
  shows "content_download_step E content n s = (Inr n, s)"
proof (cases "storage content")
  case (WholeRef h)
  then show ?thesis using assms by (auto simp: content_download_step_def offline_content_def intro: ensure_there)
next
  case (ChunkedRef h)
  from assms obtain m where m: "read_json (parse_manifest (ce_parsers E)) (ce_hash E) (ce_store E) ChunkManifest h (cl_world s) = Inr m"
    and ok: "validate_chunk_manifest_v4 m = Inr ()" "cm_logical_sha256 m = logical_sha256 content" "cm_byte_length m = content_byte_length content"
      "\<forall>c \<in> set (cm_chunks m). object_at (ce_store E) (cl_world s) Chunk (chunk_sha256 c) \<noteq> None"
    unfolding offline_content_def ChunkedRef storage_ref_v4.case by (auto simp: bindr_eq_Inr_iff offline_chunks_def list_all_iff)
  from m obtain b where "object_at (ce_store E) (cl_world s) ChunkManifest h = Some b" by (auto simp: read_json_object)
  note e = ensure_there(1) [OF this]
  have "ensure_known E (chunk_object c) n s = (Inr n, s)" if "c \<in> set (cm_chunks m)" for c
    using bspec [OF ok(4) that] ensure_there(2) [where obj = "chunk_object c" and E = E and s = s and n = n]
    by (auto simp: chunk_object_def)
  then have "foreach_cl (\<lambda>chunk. ensure_known E (chunk_object chunk)) (cm_chunks m) n s = (Inr n, s)"
    by (rule foreach_still)
  then show ?thesis
    by (simp add: content_download_step_def ChunkedRef e bind_cl_def read_cl_def m lift_cl_def ok)
qed

lemma thread_there:
  assumes "offline_thread E (cl_world s) ref = Inr b" and "\<not> ce_cancelled E (cl_polls s)"
  shows "graph_step E ref (ts, n) s = (Inr (ts @ [b], n), s\<lparr>cl_polls := Suc (cl_polls s)\<rparr>)"
proof -
  let ?s = "s\<lparr>cl_polls := Suc (cl_polls s)\<rparr>"
  from assms(1) obtain d us where d: "load_descriptor (ce_parsers E) (ce_hash E) (ce_store E) ref (cl_world s) = Inr d"
    and us: "map_res (offline_content E (cl_world s)) (sd_rollout d # sd_attachments d) = Inr us"
    and b: "b = descriptor_into_bundle d None"
    unfolding offline_thread_def by (auto simp: bindr_eq_Inr_iff)
  from d obtain bs where bs: "object_at (ce_store E) (cl_world ?s) Thread (tref_descriptor_sha256 ref) = Some bs"
    and v: "validate_descriptor d = Inr ()" "sd_thread_id d = tref_thread_id ref"
    unfolding load_descriptor_def by (auto simp: bindr_eq_Inr_iff read_json_object)
  have "is_ok (offline_content E (cl_world s) c)" if "c \<in> set (sd_rollout d # sd_attachments d)" for c
    using map_res_member [OF us that] .
  then have "content_download_step E c n ?s = (Inr n, ?s)" if "c \<in> set (sd_rollout d # sd_attachments d)" for c
    using that by (intro content_there) (auto simp: is_ok_iff)
  then have cs: "foreach_cl (content_download_step E) (sd_rollout d # sd_attachments d) n ?s = (Inr n, ?s)"
    by (rule foreach_still)
  have chk: "check_cl E s = (Inr (), ?s)" using assms(2) by (simp add: check_cl_def)
  have ld: "load_descriptor (ce_parsers E) (ce_hash E) (ce_store E) ref (cl_world ?s) = Inr d" using d by simp
  show ?thesis
    using cs by (simp add: graph_step_def bind_cl_def chk ensure_there(1) [OF bs] read_cl_def d lift_cl_def v b del: foreach_cl.simps)
qed

lemma threads_there:
  assumes "map_res (offline_thread E (cl_world s)) refs = Inr bs" and "\<And>n. \<not> ce_cancelled E n"
  shows "foreach_cl (graph_step E) refs (ts, n) s = (Inr (ts @ bs, n), s\<lparr>cl_polls := cl_polls s + length refs\<rparr>)"
  using assms(1)
proof (induction refs arbitrary: ts bs s)
  case (Cons ref refs)
  then obtain b bs' where b: "offline_thread E (cl_world s) ref = Inr b" and bs: "bs = b # bs'"
    and rest: "map_res (offline_thread E (cl_world s)) refs = Inr bs'" by (auto simp: bindr_eq_Inr_iff)
  show ?case
    using Cons.IH [of "s\<lparr>cl_polls := Suc (cl_polls s)\<rparr>" bs' "ts @ [b]"] rest
    by (simp add: bind_cl_def thread_there [OF b assms(2)] bs)
qed (simp add: lift_cl_def)

lemma graph_there:
  assumes "offline_revision E (cl_world s) rid = Inr (root, ths)" and "\<And>n. \<not> ce_cancelled E n"
  shows "\<exists>p. download_revision_graph E rid s = (Inr (root, ths, 0), s\<lparr>cl_polls := p\<rparr>)"
proof -
  from assms(1) have r: "read_json (parse_revision_root (ce_parsers E)) (ce_hash E) (ce_store E) RevisionRoot rid (cl_world s) = Inr root"
    and v: "validate_revision_root root = Inr ()" and ts: "map_res (offline_thread E (cl_world s)) (rv_threads root) = Inr ths"
    unfolding offline_revision_def by (auto simp: bindr_eq_Inr_iff)
  from r obtain b where "object_at (ce_store E) (cl_world s) RevisionRoot rid = Some b" by (auto simp: read_json_object)
  note c = object_cached_there [OF this]
  have l: "load_revision_root E rid s = (Inr root, s)"
    by (simp add: load_revision_root_def c bind_cl_def read_cl_def r lift_cl_def v)
  show ?thesis
    using threads_there [OF ts assms(2), of "[]" 0] by (auto simp: download_revision_graph_def c l bind_cl_def lift_cl_def)
qed


section \<open>Histories\<close>

text \<open>A chain of verified roots: each has the digest it was asked for and names the next as its parent.\<close>

fun verified_chain :: "client_env \<Rightarrow> uuid \<Rightarrow> string \<Rightarrow> revision_root_v4 list \<Rightarrow> string \<Rightarrow> bool" where
  "verified_chain E namespace_id rid [] ancestor \<longleftrightarrow> rid = ancestor"
| "verified_chain E namespace_id rid (r # rs) ancestor \<longleftrightarrow>
     revision_id (ce_json E) (ce_hash E) (uuid_text (ce_uuids E)) r = Inr rid \<and> rv_namespace_id r = namespace_id
     \<and> (\<exists>parent. rv_parent_revision r = Some parent \<and> verified_chain E namespace_id parent rs ancestor)"

lemma ancestor_chain:
  assumes "ancestor_loop E namespace_id ancestor n current s = (Inr u, t)"
  shows "\<exists>rs. length rs < n \<and> verified_chain E namespace_id current rs ancestor"
  using assms
proof (induction n arbitrary: current s)
  case (Suc n)
  show ?case
  proof (cases "current = ancestor")
    case True
    then show ?thesis by (intro exI [of _ "[]"]) simp
  next
    case False
    then obtain r s1 parent where f: "fetch_revision_root E current s = (Inr r, s1)" and ns: "rv_namespace_id r = namespace_id"
      and p: "rv_parent_revision r = Some parent" and rest: "ancestor_loop E namespace_id ancestor n parent s1 = (Inr u, t)"
      using Suc.prems by (auto simp: client_run validate_revision_root_namespace_def bindr_eq_Inr_iff split: option.splits)
    from Suc.IH [OF rest] obtain rs where "length rs < n" "verified_chain E namespace_id parent rs ancestor" by blast
    moreover have "revision_id (ce_json E) (ce_hash E) (uuid_text (ce_uuids E)) r = Inr current"
      using fetched_root_verified [OF f] by (simp add: revision_id_def)
    ultimately show ?thesis using ns p by (intro exI [of _ "r # rs"]) simp
  qed
qed (simp add: lift_cl_run)


section \<open>The properties\<close>

text \<open>C7: Whatever the server answers and wherever a download of a revision stops, no stored object changes,
  every object it adds has the digest that names it, and the tracking database is left alone.\<close>

theorem download_cannot_corrupt:
  "let t = snd (download_revision_graph E rid s) in cl_tracking t = cl_tracking s
     \<and> (\<forall>k h. object_of E t k h = object_of E s k h
          \<or> object_of E s k h = None \<and> (\<exists>b. object_of E t k h = Some b \<and> digest_bytes_v4 (ce_hash E) b = h))"
proof -
  let ?t = "snd (download_revision_graph E rid s)"
  have g: "store_grows E s ?t" using grows_downloads(1) [of E rid] by (simp add: moves_def)
  have "object_of E ?t k h = object_of E s k h
      \<or> object_of E s k h = None \<and> (\<exists>b. object_of E ?t k h = Some b \<and> digest_bytes_v4 (ce_hash E) b = h)" for k h
    using g unfolding store_grows_def by (cases "object_of E s k h"; cases "object_of E ?t k h") (metis option.distinct(1))+
  then show ?thesis using g by (simp add: store_grows_def Let_def)
qed

text \<open>C8: A revision that was downloaded can be read without the server ever after: whatever was added to
  the store since, and whatever the server says, downloading it again gives the same root and the same
  threads, fetches nothing and sends no request. serde reads back the root it wrote.\<close>

theorem downloaded_revision_offline:
  assumes "download_revision_graph E rid s = (Inr (root, ths, n), t)"
    and "parse_revision_root (ce_parsers E)
      (write_canonical_json_v4 (ce_json E) (revision_root_json (uuid_text (ce_uuids E)) root)) = Some root"
    and "\<And>k h b. object_of E t k h = Some b \<Longrightarrow> object_of E t' k h = Some b"
  shows "\<exists>p. download_revision_graph (E\<lparr>ce_send := send, ce_cancelled := \<lambda>_. False\<rparr>) rid t'
    = (Inr (root, ths, 0), t'\<lparr>cl_polls := p\<rparr>)"
proof -
  let ?E = "E\<lparr>ce_send := send, ce_cancelled := \<lambda>_. False\<rparr>"
  have "later E (cl_world t) (cl_world t')" using assms(3) by (simp add: later_def object_of_def)
  then have "offline_revision E (cl_world t') rid = Inr (root, ths)"
    using graph_downloaded [OF assms(1,2)] unfolding offline_revision_def
    by (auto simp: bindr_eq_Inr_iff intro: read_json_later offline_thread_later elim!: map_res_cong_ok)
  moreover have "offline_chunks ?E = offline_chunks E" by (intro ext) (simp add: offline_chunks_def)
  then have "offline_content ?E = offline_content E" by (intro ext) (simp add: offline_content_def split: storage_ref_v4.split)
  then have "offline_thread ?E = offline_thread E" by (intro ext) (simp add: offline_thread_def)
  then have "offline_revision ?E (cl_world t') rid = offline_revision E (cl_world t') rid"
    by (simp add: offline_revision_def)
  ultimately show ?thesis by (intro graph_there) simp_all
qed

text \<open>C10: When the check that a pull is a fast-forward succeeds, there are fewer than ten thousand roots from
  the server's head to the tracked head, each with the digest by which its child names it and each of
  the namespace: the server cannot pretend that an unrelated history descends from the tracked one.\<close>

theorem checked_ancestry_is_real:
  assumes "ensure_ancestor E namespace_id descendant ancestor s = (Inr u, t)"
  shows "\<exists>rs. length rs < 10000 \<and> verified_chain E namespace_id descendant rs ancestor"
  using ancestor_chain [OF assms [unfolded ensure_ancestor_def]] by (simp add: MAX_ANCESTRY_DEPTH_def)

section \<open>Witnesses\<close>

definition toy_client_parsers :: parsers where
  "toy_client_parsers = toy_parsers\<lparr>parse_revision_root := \<lambda>_. Some toy_root\<rparr>"

definition toy_wire :: client_wire where
  "toy_wire = \<lparr>dec_info = \<lambda>_. None, dec_namespaces = \<lambda>_. None, dec_namespace = \<lambda>_. None, dec_head = \<lambda>_. None,
     dec_revisions = \<lambda>_. None, dec_trash = \<lambda>_. None, dec_trash_list = \<lambda>_. None, dec_purge = \<lambda>_. None,
     dec_missing = \<lambda>_. None, dec_put = \<lambda>_. None, dec_commit = \<lambda>_. None, dec_error = \<lambda>_. None, enc_name = \<lambda>_. [],
     enc_truncate = \<lambda>_ _ _. [], enc_restore = \<lambda>_ _. [], enc_purge = \<lambda>_ _. [], enc_missing = \<lambda>_. [], enc_commit = \<lambda>_. []\<rparr>"

definition toy_client :: client_env where
  "toy_client = \<lparr>ce_json = toy_text, ce_hash = toy_hash, ce_parsers = toy_client_parsers, ce_os = no_os, ce_store = toy_store,
     ce_uuids = \<lparr>uuid_text = \<lambda>_. ''u'', parse_uuid = \<lambda>_. None\<rparr>, ce_canonicalize = Some, ce_now = \<lambda>_. [],
     ce_wire = toy_wire, ce_send = \<lambda>_ _. Inr \<lparr>hp_status = 200, hp_content_length = Some 0, hp_body = Inr []\<rparr>,
     ce_cancelled = \<lambda>_. False\<rparr>"

definition toy_client_state :: client_state where
  "toy_client_state = \<lparr>cl_world = \<lparr>files = \<lambda>p. if ''revision-roots'' \<in> set p then None else Some [], ticks = 0\<rparr>, cl_tracking = \<lparr>schema_info = Some 2, has_epoch_column = True,
     namespace_tracking = [], active_namespace = []\<rparr>, cl_sent = [], cl_polls = 0\<rparr>"

lemma toy_download:
  "case fst (download_revision_graph toy_client toy_digest toy_client_state) of
     Inl _ \<Rightarrow> False | Inr (root, ths, n) \<Rightarrow> root = toy_root \<and> length ths = 1 \<and> n = 1"
  by code_simp


lemma toy_parse_any: "parse_revision_root (ce_parsers toy_client) b = Some toy_root"
  by (simp add: toy_client_def toy_client_parsers_def)

theorem downloaded_revision_offline_witness:
  "\<exists>ths t p. length ths = 1 \<and> download_revision_graph (toy_client\<lparr>ce_send := \<lambda>_ _. Inl ''offline'', ce_cancelled := \<lambda>_. False\<rparr>)
      toy_digest t = (Inr (toy_root, ths, 0), t\<lparr>cl_polls := p\<rparr>)"
proof -
  obtain root ths n t where run: "download_revision_graph toy_client toy_digest toy_client_state = (Inr (root, ths, n), t)"
    and r: "root = toy_root" "length ths = 1"
    using toy_download by (cases "download_revision_graph toy_client toy_digest toy_client_state") (auto split: sum.splits)
  have "\<exists>p. download_revision_graph (toy_client\<lparr>ce_send := \<lambda>_ _. Inl ''offline'', ce_cancelled := \<lambda>_. False\<rparr>) toy_digest t
    = (Inr (root, ths, 0), t\<lparr>cl_polls := p\<rparr>)"
    by (rule downloaded_revision_offline [OF run]) (simp_all only: r toy_parse_any)
  then show ?thesis using r by blast
qed

definition toy_parent :: string where
  "toy_parent = ''sha256:'' @ replicate 64 (CHR ''a'')"

definition toy_child :: revision_root_v4 where
  "toy_child = toy_root\<lparr>rv_parent_revision := Some toy_parent\<rparr>"

definition toy_history :: client_env where
  "toy_history = toy_client\<lparr>ce_parsers := toy_client_parsers\<lparr>parse_revision_root := \<lambda>_. Some toy_child\<rparr>\<rparr>"

lemma toy_parent_valid: "valid_id toy_parent"
  unfolding valid_id_iff toy_parent_def by (intro exI [of _ "replicate 64 (CHR ''a'')"]) (simp add: is_lower_hex_def list_all_iff)

lemma toy_child_facts: "validate_revision_root toy_child = Inr ()" "toy_digest \<noteq> toy_parent"
proof -
  show "validate_revision_root toy_child = Inr ()"
    using toy_root_valid toy_parent_valid by (auto simp: validate_revision_root_def toy_child_def toy_root_def bindr_eq_Inr_iff)
  show "toy_digest \<noteq> toy_parent"
    by (simp add: toy_digest_def toy_parent_def digest_bytes_v4_def toy_hash_def numeral_eq_Suc)
qed

lemma raw_digest_ok: "valid_id h \<Longrightarrow> \<exists>d. raw_digest h = Inr d"
  by (auto simp: raw_digest_def valid_id_iff validate_sha256_def strip_prefix_Some split: option.splits)

lemma toy_fetch: "fst (fetch_revision_root toy_history toy_digest toy_client_state) = Inr toy_child"
proof -
  obtain d where "raw_digest toy_digest = Inr d" using raw_digest_ok [OF toy_digest_valid] by blast
  then show ?thesis
    by (simp add: fetch_revision_root_def download_typed_object_def bind_cl_def lift_cl_def send_cl_def ensure_success_def
        is_success_def toy_history_def toy_client_def toy_digest_any toy_child_facts revision_id_def)
qed

lemma one_step_ancestor:
  assumes "current \<noteq> ancestor" and "fetch_revision_root E current s = (Inr r, t)"
    and "validate_revision_root_namespace r namespace_id = Inr ()" and "rv_parent_revision r = Some ancestor"
  shows "ancestor_loop E namespace_id ancestor (Suc (Suc n)) current s = (Inr (), t)"
  using assms by (simp add: bind_cl_def lift_cl_def)

theorem checked_ancestry_is_real_witness:
  "\<exists>rs. length rs < 10000 \<and> verified_chain toy_history toy_namespace toy_digest rs toy_parent"
proof -
  obtain s1 where f: "fetch_revision_root toy_history toy_digest toy_client_state = (Inr toy_child, s1)"
    using toy_fetch by (cases "fetch_revision_root toy_history toy_digest toy_client_state") auto
  have "validate_revision_root_namespace toy_child toy_namespace = Inr ()"
    by (simp add: validate_revision_root_namespace_def toy_child_facts(1)) (simp add: toy_child_def toy_root_def)
  from one_step_ancestor [OF toy_child_facts(2) f this, of 9998]
  have "ensure_ancestor toy_history toy_namespace toy_digest toy_parent toy_client_state = (Inr (), s1)"
    unfolding ensure_ancestor_def MAX_ANCESTRY_DEPTH_def by (simp add: toy_child_def)
  then show ?thesis by (rule checked_ancestry_is_real)
qed

end
