(* ===== verification/UploadBatch.thy ===== *)
theory UploadBatch
  imports DownloadProps
begin

text \<open>
  \<open>upload_missing_v4_objects\<close> of apps/desktop/src-tauri/src/remote\_sync.rs: at most four workers take the
  missing objects from one queue and upload them; the first failure stops the others. The threads are a
  step relation in which every atomic access (the flags, the queue's mutex, the error's mutex) is a
  step, and the flag of the user's cancellation may be set at any time. What a server does to an upload
  is any outcome; progress reports and durations are left out.
\<close>

section \<open>The workers\<close>

type_synonym queued_object = "path \<times> storage_object_ref_v4"

text \<open>A worker at the head of its loop, past the first check, holding an object, uploading it, after a
  recorded failure, returned, or panicked.\<close>

datatype upload_worker =
  Looping | Popping | Holding queued_object | Sending queued_object | Failing | Stopped | Panicked

record upload_batch =
  ub_queue :: "queued_object list"
  ub_workers :: "upload_worker list"
  ub_stop :: bool
  ub_cancelled :: bool
  ub_first_error :: "string option"
  ub_created :: nat
  ub_acked :: "queued_object list"

definition DEFAULT_UPLOAD_CONCURRENCY :: nat where "DEFAULT_UPLOAD_CONCURRENCY = 4"

definition transferred_bytes :: "storage_object_ref_v4 list \<Rightarrow> string + u64" where
  "transferred_bytes objects = foldr_res (\<lambda>obj total.
     ok_or ''missing object byte total overflow'' (checked_add total (ref_byte_length obj))) objects 0"

definition queued_of :: "client_env \<Rightarrow> storage_object_ref_v4 \<Rightarrow> string + queued_object" where
  "queued_of E obj = bindr (client_path E (ref_kind obj) (ref_sha256 obj)) (\<lambda>p. Inr (p, obj))"

definition start_batch :: "bool \<Rightarrow> queued_object list \<Rightarrow> upload_batch" where
  "start_batch c0 queued = \<lparr>ub_queue = queued,
     ub_workers = replicate (min DEFAULT_UPLOAD_CONCURRENCY (length queued)) Looping, ub_stop = False,
     ub_cancelled = c0, ub_first_error = None, ub_created = 0, ub_acked = []\<rparr>"

definition set_worker :: "nat \<Rightarrow> upload_worker \<Rightarrow> upload_batch \<Rightarrow> upload_batch" where
  "set_worker i x b = b\<lparr>ub_workers := (ub_workers b)[i := x]\<rparr>"

definition told_to_stop :: "upload_batch \<Rightarrow> bool" where
  "told_to_stop b \<longleftrightarrow> ub_cancelled b \<or> ub_stop b"

definition worker_is :: "upload_batch \<Rightarrow> nat \<Rightarrow> upload_worker \<Rightarrow> bool" where
  "worker_is b i x \<longleftrightarrow> i < length (ub_workers b) \<and> ub_workers b ! i = x"

definition over :: "upload_worker \<Rightarrow> bool" where
  "over x \<longleftrightarrow> x = Stopped \<or> x = Panicked"

definition PANICKED :: string where "PANICKED = ''parallel upload worker panicked''"

text \<open>The main thread joins the workers in order; one that panicked stops those not yet joined.\<close>

inductive upload_step :: "upload_batch \<Rightarrow> upload_batch \<Rightarrow> bool" where
  cancel_batch: "\<not> ub_cancelled b \<Longrightarrow> upload_step b (b\<lparr>ub_cancelled := True\<rparr>)"
| leave: "worker_is b i Looping \<Longrightarrow> told_to_stop b \<Longrightarrow> upload_step b (set_worker i Stopped b)"
| go_on: "worker_is b i Looping \<Longrightarrow> \<not> told_to_stop b \<Longrightarrow> upload_step b (set_worker i Popping b)"
| pop: "worker_is b i Popping \<Longrightarrow> ub_queue b = x # xs \<Longrightarrow>
    upload_step b (set_worker i (Holding x) (b\<lparr>ub_queue := xs\<rparr>))"
| drained: "worker_is b i Popping \<Longrightarrow> ub_queue b = [] \<Longrightarrow> upload_step b (set_worker i Stopped b)"
| abandon: "worker_is b i (Holding x) \<Longrightarrow> told_to_stop b \<Longrightarrow> upload_step b (set_worker i Stopped b)"
| send: "worker_is b i (Holding x) \<Longrightarrow> \<not> told_to_stop b \<Longrightarrow> upload_step b (set_worker i (Sending x) b)"
| acknowledged: "worker_is b i (Sending x) \<Longrightarrow>
    upload_step b (set_worker i Looping (b\<lparr>ub_created := ub_created b + (if created then 1 else 0), ub_acked := x # ub_acked b\<rparr>))"
| fails: "worker_is b i (Sending x) \<Longrightarrow>
    upload_step b (set_worker i Failing (b\<lparr>ub_first_error :=
      (if ub_cancelled b \<or> ub_first_error b \<noteq> None then ub_first_error b else Some e)\<rparr>))"
| stop_others: "worker_is b i Failing \<Longrightarrow> upload_step b (set_worker i Stopped (b\<lparr>ub_stop := True\<rparr>))"
| panic: "worker_is b i x \<Longrightarrow> x \<noteq> Stopped \<Longrightarrow> x \<noteq> Panicked \<Longrightarrow> upload_step b (set_worker i Panicked b)"
| join_panicked: "worker_is b i Panicked \<Longrightarrow> list_all over (take i (ub_workers b)) \<Longrightarrow>
    \<not> ub_stop b \<or> ub_first_error b = None \<Longrightarrow>
    upload_step b (b\<lparr>ub_first_error := Some (case ub_first_error b of None \<Rightarrow> PANICKED | Some e \<Rightarrow> e), ub_stop := True\<rparr>)"

definition joined :: "upload_batch \<Rightarrow> bool" where
  "joined b \<longleftrightarrow> list_all over (ub_workers b)"

record upload_batch_report =
  br_transferred_objects :: nat
  br_transferred_bytes :: u64
  br_created_objects :: nat
  br_max_concurrency :: nat

text \<open>After the workers were joined: a panic is an error, cancellation comes first.\<close>

definition batch_result :: "u64 \<Rightarrow> nat \<Rightarrow> upload_batch \<Rightarrow> string + upload_batch_report" where
  "batch_result bytes n b =
     (let first = (if ub_first_error b = None \<and> Panicked \<in> set (ub_workers b)
        then Some PANICKED else ub_first_error b) in
     bindr (ensure (\<not> ub_cancelled b) ''operation cancelled'') (\<lambda>_.
     case first of Some e \<Rightarrow> Inl e
     | None \<Rightarrow> Inr \<lparr>br_transferred_objects = n, br_transferred_bytes = bytes, br_created_objects = ub_created b,
         br_max_concurrency = length (ub_workers b)\<rparr>))"

text \<open>What the call may return: an early error, the empty report, or the result of a complete run.\<close>

inductive upload_missing :: "client_env \<Rightarrow> bool \<Rightarrow> storage_object_ref_v4 list \<Rightarrow> string + upload_batch_report \<Rightarrow> queued_object list \<Rightarrow> bool"
  for E c0 objects where
  overflow: "transferred_bytes objects = Inl e \<Longrightarrow> upload_missing E c0 objects (Inl e) []"
| nothing: "transferred_bytes objects = Inr n \<Longrightarrow> objects = [] \<Longrightarrow>
    upload_missing E c0 objects (Inr \<lparr>br_transferred_objects = 0, br_transferred_bytes = 0,
      br_created_objects = 0, br_max_concurrency = 0\<rparr>) []"
| bad_path: "transferred_bytes objects = Inr n \<Longrightarrow> objects \<noteq> [] \<Longrightarrow> map_res (queued_of E) objects = Inl e \<Longrightarrow>
    upload_missing E c0 objects (Inl e) []"
| batch: "transferred_bytes objects = Inr n \<Longrightarrow> objects \<noteq> [] \<Longrightarrow> map_res (queued_of E) objects = Inr queued \<Longrightarrow>
    upload_step\<^sup>*\<^sup>* (start_batch c0 queued) b \<Longrightarrow> joined b \<Longrightarrow>
    upload_missing E c0 objects (batch_result n (length objects) b) (ub_acked b)"

inductive_cases upload_missing_ok: "upload_missing E c0 objects (Inr report) acked"

section \<open>The invariant\<close>

fun held_object :: "upload_worker \<Rightarrow> queued_object list" where
  "held_object (Holding x) = [x]"
| "held_object (Sending x) = [x]"
| "held_object _ = []"

definition in_hand :: "upload_batch \<Rightarrow> queued_object multiset" where
  "in_hand b = mset (concat (map held_object (ub_workers b)))"

definition accounted :: "upload_batch \<Rightarrow> queued_object multiset" where
  "accounted b = mset (ub_queue b) + in_hand b + mset (ub_acked b)"

text \<open>Nothing is uploaded twice; without a reason to stop nothing is lost and only a drained queue ends a worker.\<close>

definition trouble :: "upload_batch \<Rightarrow> bool" where
  "trouble b \<longleftrightarrow> told_to_stop b \<or> Failing \<in> set (ub_workers b) \<or> Panicked \<in> set (ub_workers b)"

definition batch_ok :: "queued_object list \<Rightarrow> upload_batch \<Rightarrow> bool" where
  "batch_ok queued b \<longleftrightarrow> accounted b \<subseteq># mset queued
     \<and> (\<not> trouble b \<longrightarrow> accounted b = mset queued)
     \<and> (\<not> trouble b \<longrightarrow> Stopped \<in> set (ub_workers b) \<longrightarrow> ub_queue b = [])
     \<and> (ub_stop b \<or> Failing \<in> set (ub_workers b) \<longrightarrow> ub_cancelled b \<or> ub_first_error b \<noteq> None)
     \<and> length (ub_workers b) = min DEFAULT_UPLOAD_CONCURRENCY (length queued)"

lemma in_hand_update:
  "i < length ws \<Longrightarrow> mset (concat (map held_object (ws[i := x]))) + mset (held_object (ws ! i))
     = mset (concat (map held_object ws)) + mset (held_object x)"
proof (induction ws arbitrary: i)
  case (Cons w ws)
  then show ?case by (cases i) (auto simp: ac_simps)
qed simp

lemma accounted_set_worker:
  assumes "worker_is b i y"
  shows "accounted (set_worker i x b) + mset (held_object y) = accounted b + mset (held_object x)"
  using in_hand_update [of i "ub_workers b" x] assms
  by (simp add: accounted_def in_hand_def set_worker_def worker_is_def ac_simps)

lemma set_update_mem: "i < length ws \<Longrightarrow> ws ! i \<noteq> z \<Longrightarrow> z \<in> set (ws[i := x]) \<longleftrightarrow> z = x \<or> z \<in> set ws"
  by (auto simp: in_set_conv_nth nth_list_update)

lemma worker_mem: "worker_is b i y \<Longrightarrow> y \<noteq> z \<Longrightarrow> z \<in> set (ub_workers (set_worker i x b)) \<longleftrightarrow> z = x \<or> z \<in> set (ub_workers b)"
  by (auto simp: worker_is_def set_worker_def set_update_mem)

lemma worker_in: "worker_is b i y \<Longrightarrow> y \<in> set (ub_workers b)"
  by (auto simp: worker_is_def)

lemma set_worker_simps [simp]:
  "ub_queue (set_worker i x b) = ub_queue b" "ub_stop (set_worker i x b) = ub_stop b"
  "ub_cancelled (set_worker i x b) = ub_cancelled b" "ub_first_error (set_worker i x b) = ub_first_error b"
  "ub_created (set_worker i x b) = ub_created b" "ub_acked (set_worker i x b) = ub_acked b"
  "length (ub_workers (set_worker i x b)) = length (ub_workers b)"
  "told_to_stop (set_worker i x b) = told_to_stop b"
  by (simp_all add: set_worker_def told_to_stop_def)

lemma worker_is_update [simp]:
  "worker_is (b\<lparr>ub_queue := q\<rparr>) i y = worker_is b i y" "worker_is (b\<lparr>ub_stop := s\<rparr>) i y = worker_is b i y"
  "worker_is (b\<lparr>ub_first_error := e\<rparr>) i y = worker_is b i y"
  "worker_is (b\<lparr>ub_created := n, ub_acked := a\<rparr>) i y = worker_is b i y"
  by (simp_all add: worker_is_def)

lemma accounted_fields [simp]:
  "accounted (b\<lparr>ub_cancelled := c\<rparr>) = accounted b" "accounted (b\<lparr>ub_stop := c\<rparr>) = accounted b"
  "accounted (b\<lparr>ub_first_error := e\<rparr>) = accounted b"
  by (simp_all add: accounted_def in_hand_def)

lemma batch_ok_move:
  assumes ok: "batch_ok queued b" and y: "worker_is b i y" "y \<noteq> Failing" "y \<noteq> Panicked" "y \<noteq> Stopped"
    and x: "x \<noteq> Failing" "x \<noteq> Panicked" "held_object x = held_object y"
    and stop: "x = Stopped \<Longrightarrow> ub_queue b = [] \<or> told_to_stop b"
  shows "batch_ok queued (set_worker i x b)"
proof -
  let ?b = "set_worker i x b"
  have acc: "accounted ?b = accounted b" using accounted_set_worker [OF y(1), of x] x(3) by simp
  have t: "trouble ?b = trouble b" using worker_mem [OF y(1), of _ x] x y by (simp add: trouble_def)
  have s: "Stopped \<in> set (ub_workers ?b) \<longleftrightarrow> x = Stopped \<or> Stopped \<in> set (ub_workers b)"
    using worker_mem [OF y(1), of Stopped x] y(4) by auto
  have f: "Failing \<in> set (ub_workers ?b) \<longleftrightarrow> Failing \<in> set (ub_workers b)"
    using worker_mem [OF y(1), of Failing x] x(1) y(2) by auto
  have "\<not> trouble b \<Longrightarrow> \<not> told_to_stop b" by (simp add: trouble_def)
  then show ?thesis using ok stop unfolding batch_ok_def acc t s f by auto
qed

lemma batch_ok_trouble:
  assumes ok: "batch_ok queued b" and "accounted b' \<subseteq># accounted b" and "trouble b'"
    and "ub_stop b' \<or> Failing \<in> set (ub_workers b') \<Longrightarrow> ub_cancelled b' \<or> ub_first_error b' \<noteq> None"
    and "length (ub_workers b') = length (ub_workers b)"
  shows "batch_ok queued b'"
  using assms subset_mset.order_trans unfolding batch_ok_def by fastforce

lemma lost_one: "worker_is b i y \<Longrightarrow> held_object x = [] \<Longrightarrow> accounted (set_worker i x b) \<subseteq># accounted b"
  using accounted_set_worker [of b i y x] by (simp) (metis mset_subset_eq_add_left)

lemma batch_ok_step:
  assumes "upload_step b b'" and "batch_ok queued b"
  shows "batch_ok queued b'"
  using assms
proof (induction rule: upload_step.induct)
  case (cancel_batch b)
  show ?case by (rule batch_ok_trouble [OF cancel_batch.prems]) (auto simp: trouble_def told_to_stop_def)
next
  case (leave b i)
  show ?case by (rule batch_ok_move [OF leave.prems leave.hyps(1)]) (use leave in auto)
next
  case (go_on b i)
  show ?case by (rule batch_ok_move [OF go_on.prems go_on.hyps(1)]) auto
next
  case (pop b i x xs)
  let ?b = "b\<lparr>ub_queue := xs\<rparr>" and ?c = "set_worker i (Holding x) (b\<lparr>ub_queue := xs\<rparr>)"
  have "accounted b = add_mset x (accounted ?b)" using pop by (simp add: accounted_def in_hand_def)
  then have acc: "accounted ?c = accounted b" using accounted_set_worker [of ?b i Popping "Holding x"] pop by simp
  have mem: "z \<in> set (ub_workers ?c) \<longleftrightarrow> z \<in> set (ub_workers b)" if "z \<noteq> Popping" "z \<noteq> Holding x" for z
    using worker_mem [of ?b i Popping z "Holding x"] pop that by simp
  have t: "trouble ?c = trouble b" using mem [of Failing] mem [of Panicked] by (simp add: trouble_def told_to_stop_def)
  show ?case using pop mem [of Failing] mem [of Stopped] unfolding batch_ok_def acc t by auto
next
  case (drained b i)
  show ?case by (rule batch_ok_move [OF drained.prems drained.hyps(1)]) (use drained in auto)
next
  case (abandon b i x)
  have "Failing \<in> set (ub_workers (set_worker i Stopped b)) \<Longrightarrow> Failing \<in> set (ub_workers b)"
    using worker_mem [OF abandon.hyps(1), of Failing Stopped] by simp
  then show ?case using abandon lost_one [OF abandon.hyps(1), of Stopped]
    by (intro batch_ok_trouble [OF abandon.prems]) (auto simp: trouble_def batch_ok_def)
next
  case (send b i x)
  show ?case by (rule batch_ok_move [OF send.prems send.hyps(1)]) auto
next
  case (acknowledged b i x new)
  let ?b = "b\<lparr>ub_created := ub_created b + (if new then 1 else 0), ub_acked := x # ub_acked b\<rparr>"
  have "accounted ?b = add_mset x (accounted b)" by (simp add: accounted_def in_hand_def)
  then have acc: "accounted (set_worker i Looping ?b) = accounted b"
    using accounted_set_worker [of ?b i "Sending x" Looping] acknowledged by simp
  have mem: "z \<in> set (ub_workers (set_worker i Looping ?b)) \<longleftrightarrow> z \<in> set (ub_workers b)" if "z \<noteq> Looping" "z \<noteq> Sending x" for z
    using worker_mem [of ?b i "Sending x" z Looping] acknowledged that by simp
  have t: "trouble (set_worker i Looping ?b) = trouble b"
    using mem [of Failing] mem [of Panicked] by (simp add: trouble_def told_to_stop_def)
  show ?case using acknowledged mem [of Failing] mem [of Stopped] unfolding batch_ok_def acc t by auto
next
  case (fails b i x e)
  let ?b = "b\<lparr>ub_first_error := (if ub_cancelled b \<or> ub_first_error b \<noteq> None then ub_first_error b else Some e)\<rparr>"
  have "accounted (set_worker i Failing ?b) \<subseteq># accounted b" using lost_one [of ?b i "Sending x" Failing] fails by simp
  moreover have "Failing \<in> set (ub_workers (set_worker i Failing ?b))" using worker_mem [of ?b i "Sending x" Failing Failing] fails by simp
  ultimately show ?case using fails by (intro batch_ok_trouble [OF fails.prems]) (auto simp: trouble_def)
next
  case (stop_others b i)
  let ?b = "b\<lparr>ub_stop := True\<rparr>"
  have "accounted (set_worker i Stopped ?b) \<subseteq># accounted b" using lost_one [of ?b i Failing Stopped] stop_others by simp
  then show ?case using stop_others worker_in [OF stop_others.hyps]
    by (intro batch_ok_trouble [OF stop_others.prems]) (auto simp: trouble_def told_to_stop_def batch_ok_def)
next
  case (panic b i x)
  have "Panicked \<in> set (ub_workers (set_worker i Panicked b))" using worker_mem [of b i x Panicked Panicked] panic by simp
  moreover have "Failing \<in> set (ub_workers (set_worker i Panicked b)) \<Longrightarrow> Failing \<in> set (ub_workers b)"
    using worker_mem [of b i x Failing Panicked] worker_in [of b i x] panic by (cases "x = Failing") auto
  ultimately show ?case using panic lost_one [OF panic.hyps(1), of Panicked]
    by (intro batch_ok_trouble [OF panic.prems]) (auto simp: trouble_def batch_ok_def)
next
  case (join_panicked b i)
  then show ?case
    by (intro batch_ok_trouble [OF join_panicked.prems]) (auto simp: trouble_def told_to_stop_def accounted_def in_hand_def)
qed

lemma batch_ok_start: "batch_ok queued (start_batch c0 queued)"
  by (auto simp: batch_ok_def start_batch_def accounted_def in_hand_def trouble_def told_to_stop_def map_replicate_const)

lemma batch_ok_reachable: "upload_step\<^sup>*\<^sup>* b b' \<Longrightarrow> batch_ok queued b \<Longrightarrow> batch_ok queued b'"
  by (induction rule: rtranclp_induct) (auto intro: batch_ok_step)


section \<open>Every run ends\<close>

fun worker_work :: "upload_worker \<Rightarrow> nat" where
  "worker_work Looping = 3"
| "worker_work Popping = 2"
| "worker_work (Holding x) = 11"
| "worker_work (Sending x) = 10"
| "worker_work Failing = 9"
| "worker_work Stopped = 0"
| "worker_work Panicked = 0"

definition steps_left :: "upload_batch \<Rightarrow> nat" where
  "steps_left b = 10 * length (ub_queue b) + sum_list (map worker_work (ub_workers b)) + (if ub_cancelled b then 0 else 1)
     + (if ub_stop b \<and> ub_first_error b \<noteq> None then 0 else 1)"

lemma work_set_worker:
  assumes "worker_is b i y"
  shows "sum_list (map worker_work (ub_workers (set_worker i x b))) + worker_work y
    = sum_list (map worker_work (ub_workers b)) + worker_work x"
proof -
  have "sum_list (map worker_work (ws[i := x])) + worker_work (ws ! i) = sum_list (map worker_work ws) + worker_work x"
    if "i < length ws" for ws
    using that by (induction ws arbitrary: i) (auto split: nat.splits)
  then show ?thesis using assms by (auto simp: worker_is_def set_worker_def)
qed

lemma workers_error: "ub_workers (set_worker i x (b\<lparr>ub_first_error := e\<rparr>)) = ub_workers (set_worker i x b)"
  by (simp add: set_worker_def)

lemma worker_work_pos: "x \<noteq> Stopped \<Longrightarrow> x \<noteq> Panicked \<Longrightarrow> 0 < worker_work x"
  by (cases x) simp_all

lemma step_decreases: "upload_step b b' \<Longrightarrow> steps_left b' < steps_left b"
proof (induction rule: upload_step.induct)
  case (leave b i)
  then show ?case using work_set_worker [of b i Looping Stopped] by (simp add: steps_left_def)
next
  case (go_on b i)
  then show ?case using work_set_worker [of b i Looping Popping] by (simp add: steps_left_def)
next
  case (pop b i x xs)
  then show ?case using work_set_worker [of "b\<lparr>ub_queue := xs\<rparr>" i Popping "Holding x"] by (simp add: steps_left_def)
next
  case (drained b i)
  then show ?case using work_set_worker [of b i Popping Stopped] by (simp add: steps_left_def)
next
  case (abandon b i x)
  then show ?case using work_set_worker [of b i "Holding x" Stopped] by (simp add: steps_left_def)
next
  case (send b i x)
  then show ?case using work_set_worker [of b i "Holding x" "Sending x"] by (simp add: steps_left_def)
next
  case (acknowledged b i x new)
  then show ?case
    using work_set_worker [of "b\<lparr>ub_created := ub_created b + (if new then 1 else 0), ub_acked := x # ub_acked b\<rparr>" i "Sending x" Looping]
    by (simp add: steps_left_def)
next
  case (fails b i x e)
  then show ?case
    using work_set_worker [of b i "Sending x" Failing]
    by (auto simp: steps_left_def workers_error)
next
  case (stop_others b i)
  then show ?case using work_set_worker [of "b\<lparr>ub_stop := True\<rparr>" i Failing Stopped] by (simp add: steps_left_def)
next
  case (panic b i x)
  then show ?case using work_set_worker [of b i x Panicked] worker_work_pos [of x] by (simp add: steps_left_def)
qed (auto simp: steps_left_def)

lemma steps_bounded: "(upload_step ^^ k) b b' \<Longrightarrow> k + steps_left b' \<le> steps_left b"
proof (induction k arbitrary: b')
  case (Suc k)
  then obtain c where "(upload_step ^^ k) b c" "upload_step c b'" by auto
  then show ?case using Suc.IH [of c] step_decreases [of c b'] by simp
qed simp

definition quiet_move :: "upload_batch \<Rightarrow> nat \<Rightarrow> upload_worker \<Rightarrow> upload_batch \<Rightarrow> bool" where
  "quiet_move b i y b' \<longleftrightarrow> y \<noteq> Panicked \<and> ub_workers b' = ub_workers b \<and> ub_cancelled b' = ub_cancelled b
     \<and> upload_step b (set_worker i y b')"

lemma worker_moves:
  assumes "worker_is b i x" and "x \<noteq> Stopped" and "x \<noteq> Panicked"
  shows "\<exists>y b'. quiet_move b i y b'"
proof (cases x)
  case Looping
  have "quiet_move b i (if told_to_stop b then Stopped else Popping) b"
    using assms(1) leave [of b i] go_on [of b i] by (simp add: Looping quiet_move_def)
  then show ?thesis by blast
next
  case Popping
  show ?thesis
  proof (cases "ub_queue b")
    case Nil
    then have "quiet_move b i Stopped b" using assms(1) drained [of b i] by (simp add: Popping quiet_move_def)
    then show ?thesis by blast
  next
    case (Cons q qs)
    then have "quiet_move b i (Holding q) (b\<lparr>ub_queue := qs\<rparr>)" using assms(1) pop [of b i q qs] by (simp add: Popping quiet_move_def)
    then show ?thesis by blast
  qed
next
  case (Holding q)
  have "quiet_move b i (if told_to_stop b then Stopped else Sending q) b"
    using assms(1) abandon [of b i q] send [of b i q] by (simp add: Holding quiet_move_def)
  then show ?thesis by blast
next
  case (Sending q)
  have "quiet_move b i Looping (b\<lparr>ub_created := ub_created b + (if False then 1 else 0), ub_acked := q # ub_acked b\<rparr>)"
    using assms(1) acknowledged [of b i q False] unfolding Sending quiet_move_def by simp
  then show ?thesis by blast
next
  case Failing
  have "quiet_move b i Stopped (b\<lparr>ub_stop := True\<rparr>)"
    using assms(1) stop_others [of b i] by (simp add: Failing quiet_move_def)
  then show ?thesis by blast
qed (use assms in auto)

text \<open>C21: The upload workers cannot run forever or wait for each other: after at most ten steps per object and
  fourteen more every run is over, and until then some worker that has not returned can take a step
  that is neither a panic nor a cancellation.\<close>

theorem upload_batch_ends:
  assumes "(upload_step ^^ k) (start_batch c0 queued) b"
  shows "k \<le> 10 * length queued + 14
    \<and> (joined b \<or> (\<exists>b'. upload_step b b' \<and> ub_cancelled b' = ub_cancelled b
      \<and> (Panicked \<in> set (ub_workers b') \<longrightarrow> Panicked \<in> set (ub_workers b))))"
proof
  have "steps_left (start_batch c0 queued) \<le> 10 * length queued + 14"
    by (simp add: steps_left_def start_batch_def DEFAULT_UPLOAD_CONCURRENCY_def sum_list_replicate min_def)
  then show "k \<le> 10 * length queued + 14" using steps_bounded [OF assms] by simp
  show "joined b \<or> (\<exists>b'. upload_step b b' \<and> ub_cancelled b' = ub_cancelled b
      \<and> (Panicked \<in> set (ub_workers b') \<longrightarrow> Panicked \<in> set (ub_workers b)))"
  proof (cases "joined b")
    case False
    then obtain i where i: "worker_is b i (ub_workers b ! i)" "ub_workers b ! i \<noteq> Stopped" "ub_workers b ! i \<noteq> Panicked"
      by (auto simp: joined_def over_def list_all_length worker_is_def)
    from worker_moves [OF i] obtain y b' where "quiet_move b i y b'" by blast
    then have y: "y \<noteq> Panicked" "ub_workers b' = ub_workers b" "ub_cancelled b' = ub_cancelled b"
      and st: "upload_step b (set_worker i y b')" by (simp_all add: quiet_move_def)
    have "Panicked \<in> set (ub_workers (set_worker i y b')) \<longrightarrow> Panicked \<in> set (ub_workers b)"
      using y(1,2) set_update_subset_insert [of "ub_workers b" i y] by (auto simp: set_worker_def)
    then show ?thesis using st y(3) by (intro disjI2 exI [of _ "set_worker i y b'"]) simp
  qed simp
qed

section \<open>A success is complete\<close>

lemma created_le_acked: "upload_step\<^sup>*\<^sup>* b b' \<Longrightarrow> ub_created b \<le> length (ub_acked b) \<Longrightarrow> ub_created b' \<le> length (ub_acked b')"
proof (induction rule: rtranclp_induct)
  case (step b' b'')
  from step.hyps(2) step.IH [OF step.prems] show ?case by (induction rule: upload_step.induct) auto
qed simp

lemma batch_complete:
  assumes "upload_step\<^sup>*\<^sup>* (start_batch c0 queued) b" and "joined b" and "queued \<noteq> []" and "batch_result bytes n b = Inr report"
  shows "mset (ub_acked b) = mset queued"
proof -
  have ok: "batch_ok queued b" by (rule batch_ok_reachable [OF assms(1) batch_ok_start])
  from assms(4) have fine: "\<not> ub_cancelled b" "ub_first_error b = None" "Panicked \<notin> set (ub_workers b)"
    by (auto simp: batch_result_def Let_def bindr_eq_Inr_iff split: option.splits if_splits)
  with assms(2) have all: "\<forall>x \<in> set (ub_workers b). x = Stopped" by (auto simp: joined_def over_def list_all_iff)
  then have nt: "\<not> trouble b" using ok fine by (auto simp: trouble_def told_to_stop_def batch_ok_def)
  have "length (ub_workers b) = min 4 (length queued)" using ok by (simp add: batch_ok_def DEFAULT_UPLOAD_CONCURRENCY_def)
  then have "ub_workers b \<noteq> []" using assms(3) by (cases queued) auto
  then have "Stopped \<in> set (ub_workers b)" using all by (cases "ub_workers b") auto
  then have "ub_queue b = []" using ok nt by (simp add: batch_ok_def)
  moreover have "in_hand b = {#}" using all by (auto simp: in_hand_def)
  ultimately show ?thesis using ok nt by (simp add: batch_ok_def accounted_def)
qed

lemma queued_objects: "map_res (queued_of E) objects = Inr queued \<Longrightarrow> map snd queued = objects"
  by (induction objects arbitrary: queued) (auto simp: bindr_eq_Inr_iff queued_of_def)

text \<open>C9: A batch of uploads that reports success has had every missing object acknowledged by the server exactly
  once, whatever the four workers, the failures and the cancellation did in between, and its counters
  say so.\<close>

theorem upload_success_complete:
  assumes "upload_missing E c0 objects (Inr report) acked"
  shows "mset (map snd acked) = mset objects \<and> br_transferred_objects report = length objects
    \<and> transferred_bytes objects = Inr (br_transferred_bytes report) \<and> br_created_objects report \<le> length objects
    \<and> br_max_concurrency report \<le> 4"
  using assms
proof (cases rule: upload_missing.cases)
    case (nothing n)
    then show ?thesis by (simp add: transferred_bytes_def)
  next
    case (batch n queued b)
    have q: "map snd queued = objects" by (rule queued_objects [OF batch(5)])
    then have acked: "mset acked = mset queued" using batch_complete [of c0 queued b n "length objects" report] batch by auto
    have m: "mset (map snd acked) = mset objects" using acked q by (metis mset_map)
    then have len: "length acked = length objects" by (metis length_map size_mset)
    have rep: "report = \<lparr>br_transferred_objects = length objects, br_transferred_bytes = n, br_created_objects = ub_created b,
        br_max_concurrency = length (ub_workers b)\<rparr>"
      using batch(1) [symmetric] by (auto simp: batch_result_def Let_def bindr_eq_Inr_iff split: option.splits if_splits)
    have c: "ub_created b \<le> length acked"
      using created_le_acked [OF batch(6)] batch(2) by (simp add: start_batch_def)
    have "length (ub_workers b) \<le> 4"
      using batch_ok_reachable [OF batch(6) batch_ok_start] by (simp add: batch_ok_def DEFAULT_UPLOAD_CONCURRENCY_def)
    then show ?thesis using m rep batch(3) c len by simp
  qed

section \<open>Witnesses\<close>

definition toy_object_sent :: storage_object_ref_v4 where
  "toy_object_sent = \<lparr>ref_kind = Chunk, ref_sha256 = toy_digest, ref_byte_length = 5\<rparr>"

definition toy_queued :: queued_object where
  "toy_queued = (projr (client_path toy_client Chunk toy_digest), toy_object_sent)"

abbreviation toy_state :: "queued_object list \<Rightarrow> upload_worker \<Rightarrow> nat \<Rightarrow> queued_object list \<Rightarrow> upload_batch" where
  "toy_state qs x n acked \<equiv> \<lparr>ub_queue = qs, ub_workers = [x], ub_stop = False, ub_cancelled = False, ub_first_error = None,
     ub_created = n, ub_acked = acked\<rparr>"

lemma toy_start: "start_batch False [toy_queued] = toy_state [toy_queued] Looping 0 []"
  by (simp add: start_batch_def DEFAULT_UPLOAD_CONCURRENCY_def)

lemma toy_steps:
  "upload_step (toy_state [toy_queued] Looping 0 []) (toy_state [toy_queued] Popping 0 [])"
  "upload_step (toy_state [toy_queued] Popping 0 []) (toy_state [] (Holding toy_queued) 0 [])"
  "upload_step (toy_state [] (Holding toy_queued) 0 []) (toy_state [] (Sending toy_queued) 0 [])"
  "upload_step (toy_state [] (Sending toy_queued) 0 []) (toy_state [] Looping 1 [toy_queued])"
  "upload_step (toy_state [] Looping 1 [toy_queued]) (toy_state [] Popping 1 [toy_queued])"
  "upload_step (toy_state [] Popping 1 [toy_queued]) (toy_state [] Stopped 1 [toy_queued])"
  using go_on [of "toy_state [toy_queued] Looping 0 []" 0] pop [of "toy_state [toy_queued] Popping 0 []" 0 toy_queued "[]"]
    send [of "toy_state [] (Holding toy_queued) 0 []" 0 toy_queued] acknowledged [of "toy_state [] (Sending toy_queued) 0 []" 0 toy_queued True]
    go_on [of "toy_state [] Looping 1 [toy_queued]" 0] drained [of "toy_state [] Popping 1 [toy_queued]" 0]
  by (simp_all add: worker_is_def told_to_stop_def set_worker_def)

lemma toy_run: "upload_step\<^sup>*\<^sup>* (start_batch False [toy_queued]) (toy_state [] Stopped 1 [toy_queued])"
  unfolding toy_start using toy_steps by (meson converse_rtranclp_into_rtranclp rtranclp.rtrancl_refl)

theorem upload_batch_ends_witness:
  "\<exists>b'. upload_step (toy_state [toy_queued] Popping 0 []) b' \<and> \<not> ub_cancelled b' \<and> Panicked \<notin> set (ub_workers b')"
proof -
  have "(upload_step ^^ 1) (start_batch False [toy_queued]) (toy_state [toy_queued] Popping 0 [])"
    using toy_steps(1) by (simp add: toy_start eq_OO)
  from upload_batch_ends [OF this, THEN conjunct2] show ?thesis by (auto simp: joined_def over_def)
qed

lemma toy_queue: "map_res (queued_of toy_client) [toy_object_sent] = Inr [toy_queued]"
proof -
  have "is_ok (client_path toy_client Chunk toy_digest)"
    by (simp add: client_path_def typed_object_path_ok_iff toy_digest_valid)
  then obtain p where "client_path toy_client Chunk toy_digest = Inr p" by (auto simp: is_ok_iff)
  then show ?thesis by (simp add: queued_of_def toy_queued_def toy_object_sent_def)
qed

theorem upload_success_complete_witness:
  "\<exists>report acked. upload_missing toy_client False [toy_object_sent] (Inr report) acked
     \<and> mset (map snd acked) = mset [toy_object_sent] \<and> br_created_objects report \<le> length [toy_object_sent]"
proof -
  let ?b = "toy_state [] Stopped 1 [toy_queued]"
  have bytes: "transferred_bytes [toy_object_sent] = Inr 5"
    by (simp add: transferred_bytes_def toy_object_sent_def checked_add_def)
  have "joined ?b" by (simp add: joined_def over_def)
  from upload_missing.batch [OF bytes _ toy_queue toy_run this] obtain report where
    run: "upload_missing toy_client False [toy_object_sent] (Inr report) [toy_queued]"
    by (simp add: batch_result_def)
  from run upload_success_complete [OF run] show ?thesis by blast
qed

end
