(* ===== verification/Spec2Isabelle.thy ===== *)
theory Spec2Isabelle
  imports ContentProps MergeProps TrackingProps StagingRefs GraphProps PurgeRollback DirSize Summary ServerProps
    ServerCommitProps ServerPut ManifestProps JobProps WorkspacePathProps
    SessionMeta NamespaceProps WorkspaceStoreProps PullProps ProjectProps CleanupRollback UploadBatch
begin

text \<open>
  codex-session-sync keeps the sessions (threads) of the Codex command-line tool in step between
  machines. A desktop application scans a Codex home into a local content-addressed repository,
  stages what changed against a baseline, uploads the objects of a revision to a sync server, and
  pulls, merges and restores what other machines uploaded. The server keeps object files and an SQLite
  database with one linear history of revisions per namespace. This development models the core of both
  sides, as HOL functions over explicit states, and proves what makes them correct.

  Conventions (theory Prelude). Fallible code returns \<open>error + value\<close>; \<open>bindr\<close> is \<open>?\<close>.
  Strings are lists of UTF-8 bytes. \<open>u64\<close> and \<open>usize\<close> are 64-bit words, with the checked and
  saturating operations of the code. A \<open>BTreeMap\<close> is its increasing list of entries (Ordered).
  File-system calls are functions of a \<open>disk\<close> (Disk): every call takes one tick, and a fault schedule
  \<open>faults\<close> decides at each tick whether the call fails and how much of a write or a recursive removal
  has happened by then; a crash is a schedule that fails every later call. Properties quantify over
  all schedules. Third-party code is a parameter: SHA-256 (\<open>H\<close>), the parsers and writers of
  serde\_json (\<open>json_lib\<close>, \<open>parsers\<close>), chrono's time parser, fresh UUIDs and the clock
  (\<open>request_env\<close>, \<open>server_env\<close>, \<open>client_env\<close>, \<open>mapping_env\<close>, \<open>workspace_env\<close>), \<open>canonicalize\<close> and the platform (\<open>path_env\<close>). Hypotheses on
  them state documented behaviour (a parser reads back what the writer wrote, a digest is lowercase hex),
  and each property with hypotheses has a witness that satisfies them with concrete functions.

  \<^bold>\<open>Objects and content\<close> (crates/sync-core/src/storage\_v4.rs). Json: the canonical JSON writers that
  content addresses are computed from. Objects: object kinds, identifiers, paths, chunk manifests and roots with
  their validation. Chunking, Rollout, Normalizer: the streaming rollout normalizer, with its chunk
  emitter, line reader and record rewriting. Neutrality: chunks reassemble to the normalized bytes, and
  normalizing after materializing for any machine gives the same bytes back, if every session\_meta record is
  within the size limit (\<open>oversized_meta_not_neutral\<close>: otherwise not) and serde\_json reads it back as it is rewritten. Cas: the contract of a content-addressed store as a
  locale, interpreted in ContentStore on \<open>FilesystemContentStoreV4\<close>, whose operations are in ContentStore and
  ContentOps; ContentFacts, ContentLive and ContentProps: objects are immutable, what was ingested
  materializes, validation implies materialization, and ingestion fails only for a cause the code names.

  \<^bold>\<open>Semantics and merge\<close> (models.rs, sync.rs, staging.rs). Bundles: threads and the view of them that is common to all
  machines, with its hash. Merge, Resolve, MergeFacts, MergeProps: \<open>merge_thread_sets\<close> refines a
  three-way merge per thread; a resolution applies the choices, and a stale one is refused.
  Tracking: the compare-and-set record of the base revision of each Codex home. Staging, StagingProps, StagingRefs: the plan is the semantic
  difference, a composition changes the selected threads only, and composing references agrees with
  composing threads.

  \<^bold>\<open>Snapshots and revisions\<close> (storage\_v4.rs). Descriptors, Snapshots: descriptors, overlays, snapshot and revision
  roots, how they are stored, loaded and enumerated. SnapshotFacts, SnapshotProps: a snapshot that was built loads as the threads it
  stored, with their semantic hashes. GraphProps: the object graph of a revision is complete: a
  store with its objects loads every descriptor and materializes every content.

  \<^bold>\<open>The local repository\<close> (storage\_v4.rs, parts of storage\_v3.rs). Disk: the file system. Repository, Summary: layout, reachability, collection
  plan and reports. DirSize: the directory walk terminates with the sum of the lengths. Purge, PurgeFacts, PurgeProps,
  PurgeRollback: the journalled purge of trash. Before its commit every interruption can be
  undone, whatever call fails; after it, only unreachable objects and the selected entries go.

  \<^bold>\<open>The server's metadata\<close> (apps/sync-server/src/metadata.rs). ServerDb: tables and queries. ServerMeta: every operation of
  \<open>MetadataStore\<close> as a transaction. ServerHistory, ServerSteps: the invariant of the tables as a state machine over these
  transactions. ServerProps: histories are chains, truncation and restoration are inverse, commits are
  retried idempotently, and what is queued for collection is unreachable.

  \<^bold>\<open>The server's files and handlers\<close> (object\_store.rs, api.rs, error.rs, protocol.rs). Protocol: requests, limits and their
  validation. ServerStore: uploads through verified temporary files, quarantine and purge. ServerApi: the
  request handlers, composed of file and database calls that fail independently. ServerCalls: the rules for these calls. ServerSafety: no handler that
  collects touches a needed object. ServerCommit, ServerCommitProps: a created revision
  has everything it consists of on disk and needed. ServerPut: a Hoare logic for the store, under which
  every object file keeps the bytes of its digest. ManifestProps: the limits of a manifest.

  \<^bold>\<open>The desktop's jobs\<close> (apps/desktop/src-tauri/src/jobs.rs, operation.rs). Jobs: the job manager, its leases and the interleaving of
  threads and commands as a step relation. JobLeases: the contract of a lease registry as a locale,
  interpreted on the manager's tables. JobProps: leases exclude each other, none leaks and none is
  refused without need, and a finished job keeps its outcome until it is taken.

  \<^bold>\<open>Workspace paths\<close> (crates/sync-core/src/workspace.rs). WorkspacePaths: the rules that replace a path prefix of one machine
  by one of another, in threads and snapshots. WorkspacePathProps: a mapping does not depend on the order of
  its rules when no prefix is of a nested verbatim form (\<open>unsettled_order_matters\<close>: otherwise it may), and maps back and
  forth, up to the spelling of the prefix, when no prefix is verbatim or lies in another. SessionMeta: the scanner that
  finds and replaces the working directory in a session's first record; a grammar of JSON texts, stated
  apart from the scanner's loops, says which value that is, and nothing else changes.

  \<^bold>\<open>The desktop's settings\<close> (apps/desktop/src-tauri/src/namespace\_mapping.rs, workspace\_mapping.rs). ConfigFile: a Hoare logic for
  file-system calls, and the contract of a stored document as a locale, interpreted on the documents
  of NamespaceMapping, WorkspaceMapping and RemoteProfiles. NamespaceMapping, NamespaceProps: which namespace a Codex
  home belongs to, with the detection of its identity; the selection never guesses. WorkspaceMapping,
  WorkspaceStoreProps: rules accepted into the document always make a mapper. PullPlan, PullProps: the
  outermost directories a pull asks for.

  \<^bold>\<open>The cleanup of workspaces\<close> (workspace\_mapping.rs). ProjectState, ProjectProps: directories leave the sidebar state exactly and
  idempotently. CleanupFiles, WorkspaceCleanup: the report, the journalled removal, its rollback and
  recovery. CleanupSafety, CleanupProps: no file is lost, whatever fails, and nothing that is
  referred to is offered. CleanupRollback: a rollback that returns has restored the sidebar state.

  \<^bold>\<open>The desktop's client\<close> (apps/desktop/src-tauri/src/remote.rs, remote\_config.rs, remote\_sync.rs). RemoteProfiles: the
  profiles of the servers and the form of their addresses. RemoteClient: every request of the HTTP client,
  with the checks of the responses, as a state monad over a server that may answer anything (\<open>ce_send\<close>);
  what operations do to the state is proved in the locale \<open>client_relation\<close>, interpreted in
  RevisionDownload, which holds the download of revisions, on the growth of the object store.
  DownloadProps: a server cannot alter the store or fake an ancestry, and a downloaded revision reads
  the same without the server. UploadBatch: the four upload workers as a step relation; a success is
  complete and every run ends.

  How the parts meet: the objects ContentStore installs are the ones \<open>put_typed_object\<close> uploads under the same digests and
  paths; \<open>derive_v4_revision_root\<close> and \<open>v4_revision_objects\<close> of Snapshots name what
  \<open>validate_revision_graph_v4\<close> of the server checks; Merge and Staging work on the threads that
  Snapshots loads; Purge uses the reachability of Repository; the jobs run these operations under leases.

  Bounds and fuel. Recursions are structural or have a measure (the line reader, the chunk emitter, the
  directory walk, the verification of an upload, which reads 64 KiB at a time). The reachability
  query of the server is a worklist whose measure counts the nodes not yet reached; the walk back
  through a history is bounded as the code bounds it, by its depth limit. So every definition is
  total, there is no fuel, and no property is stated under enough of it.

  Not modelled. The rest of the v3 format is dead or read-only compatibility code. codex.rs, provider.rs, treasure.rs and
  provider\_sync.rs are SQL and TOML edits of Codex's own files through third-party libraries, and
  what the modelled code reads through them is a parameter (\<open>cleanup_env\<close>); process.rs lists processes.
  Checkout (checkout.rs, local.rs) and the pulls, pushes and switches of remote\_sync.rs are not modelled: they
  interleave SQL transactions on Codex's databases with the modelled downloads, merges and uploads. Of workspace.rs the copy of a
  whole rollout around the modelled rewriting of its first line is left out. lib.rs and main.rs of the applications
  wire the modelled operations to windows, HTTP routes and the command line. Of remote.rs timeouts, headers and the reader that reports progress are left out. The Windows branches of the path code are left out where the Unix ones are modelled, and so are symbolic links. Formatted error texts are kept as constructors or without their formatted numbers. The server's handlers are modelled one request at a time, as \<open>gc_gate\<close> and SQLite's
  transactions serialize those that collect.
\<close>

end
